(* ===== verification/Dm_Prelude.thy ===== *)
theory Dm_Prelude
  imports Main "HOL-Library.Word" "HOL-Library.Monad_Syntax"
begin

text \<open>
  Shared vocabulary of the development: names for the machine types of the C sources,
  the option monad in which fallible code is written, and the generic lemmas on lists,
  options and words that the component theories use.

  Conventions. A C pointer is a \<open>ptr\<close>, \<open>None\<close> being \<^verbatim>\<open>NULL\<close>. A computation
  of type \<open>'a option\<close> is a piece of C code that may fault: \<open>None\<close> stands for a
  failed \<^verbatim>\<open>dm_assert\<close>, the dereference of \<^verbatim>\<open>NULL\<close> or of a freed object,
  an access outside an array, or a loop that does not end. A C string is the list of
  its characters before the terminating NUL.
\<close>

unbundle bit_operations_syntax

type_synonym u8 = "8 word"
type_synonym u16 = "16 word"
type_synonym u32 = "32 word"
type_synonym u64 = "64 word"
type_synonym addr = nat
type_synonym ptr = "addr option"

named_theorems byte_bits \<open>bit-level facts about the byte codecs\<close>
named_theorems fault_simps \<open>evaluation of guarded accesses\<close>
named_theorems order_laws \<open>laws of the three-way comparison functions\<close>

subsection \<open>Guards, array accesses and loops in the option monad\<close>

definition oassert :: "bool \<Rightarrow> unit option" where
  "oassert b = (if b then Some () else None)"

definition nth_opt :: "'a list \<Rightarrow> nat \<Rightarrow> 'a option" where
  "nth_opt xs i = (if i < length xs then Some (xs ! i) else None)"

definition upd_opt :: "'a list \<Rightarrow> nat \<Rightarrow> 'a \<Rightarrow> 'a list option" where
  "upd_opt xs i x = (if i < length xs then Some (xs[i := x]) else None)"

fun ofold :: "('a \<Rightarrow> 's \<Rightarrow> 's option) \<Rightarrow> 'a list \<Rightarrow> 's \<Rightarrow> 's option" where
  "ofold f [] s = Some s"
| "ofold f (x # xs) s = do { s' \<leftarrow> f x s; ofold f xs s' }"

lemma ofold_cong [fundef_cong]:
  assumes "xs = ys" and "s = t" and "\<And>x s. x \<in> set ys \<Longrightarrow> f x s = g x s"
  shows "ofold f xs s = ofold g ys t"
  using assms(3) unfolding assms(1,2)
  by (induction ys arbitrary: t) (auto intro: Option.bind_cong)

lemma oassert_True [simp, fault_simps]: "oassert True = Some ()"
  by (simp add: oassert_def)

lemma oassert_False [simp, fault_simps]: "oassert False = None"
  by (simp add: oassert_def)

lemma oassert_eq_Some [simp]: "oassert b = Some u \<longleftrightarrow> b"
  by (simp add: oassert_def)

lemma oassert_eq_None [simp]: "oassert b = None \<longleftrightarrow> \<not> b"
  by (simp add: oassert_def)

lemma oassert_bind [simp]: "(oassert b \<bind> f) = (if b then f () else None)"
  by (simp add: oassert_def)

lemma nth_opt_eq_Some: "nth_opt xs i = Some x \<longleftrightarrow> i < length xs \<and> xs ! i = x"
  by (auto simp: nth_opt_def)

lemma nth_opt_in [simp, fault_simps]: "i < length xs \<Longrightarrow> nth_opt xs i = Some (xs ! i)"
  by (simp add: nth_opt_def)

lemma nth_opt_out [simp, fault_simps]: "length xs \<le> i \<Longrightarrow> nth_opt xs i = None"
  by (simp add: nth_opt_def)

lemma upd_opt_eq_Some: "upd_opt xs i x = Some ys \<longleftrightarrow> i < length xs \<and> ys = xs[i := x]"
  by (auto simp: upd_opt_def)

lemma upd_opt_in [simp, fault_simps]: "i < length xs \<Longrightarrow> upd_opt xs i x = Some (xs[i := x])"
  by (simp add: upd_opt_def)

lemma bind_Some_iff: "(x \<bind> f) = Some y \<longleftrightarrow> (\<exists>z. x = Some z \<and> f z = Some y)"
  by (cases x) auto

lemma ofold_append: "ofold f (xs @ ys) s = do { s' \<leftarrow> ofold f xs s; ofold f ys s' }"
proof (induction xs arbitrary: s)
  case (Cons x xs)
  then show ?case by (cases "f x s") auto
qed simp

text \<open>An invariant kept by every step of a loop holds after it, if the loop returns.\<close>

lemma ofold_invariant:
  assumes "ofold f xs s = Some t" and "P s"
    and "\<And>x s s'. x \<in> set xs \<Longrightarrow> P s \<Longrightarrow> f x s = Some s' \<Longrightarrow> P s'"
  shows "P t"
  using assms
proof (induction xs arbitrary: s)
  case Nil
  then show ?case by simp
next
  case (Cons x xs)
  from Cons.prems(1) obtain s' where s': "f x s = Some s'" and rest: "ofold f xs s' = Some t"
    by (auto simp: bind_Some_iff)
  from Cons.prems(2,3) s' have "P s'" by auto
  with rest Cons.IH Cons.prems(3) show ?case by (metis list.set_intros(2))
qed

text \<open>A loop whose body never faults under an invariant does not fault.\<close>

lemma ofold_total:
  assumes "P s"
    and "\<And>x s. x \<in> set xs \<Longrightarrow> P s \<Longrightarrow> \<exists>s'. f x s = Some s' \<and> P s'"
  shows "\<exists>t. ofold f xs s = Some t \<and> P t"
  using assms
proof (induction xs arbitrary: s)
  case Nil
  then show ?case by simp
next
  case (Cons x xs)
  from Cons.prems obtain s' where s': "f x s = Some s'" and P: "P s'" by force
  have "\<exists>t. ofold f xs s' = Some t \<and> P t"
    by (rule Cons.IH [OF P]) (use Cons.prems(2) in simp)
  with s' show ?case by simp
qed

subsection \<open>Words\<close>

lemma word_and_one_bit: "(w AND push_bit n 1 \<noteq> 0) = bit w n" for w :: "'a::len word"
  by (auto simp: and_exp_eq_0_iff_not_bit simp flip: push_bit_eq_mult)

lemma unat_of_nat_lt: "n < 2 ^ LENGTH('a) \<Longrightarrow> unat (of_nat n :: 'a::len word) = n"
  by (simp add: unat_of_nat)

subsection \<open>Lists\<close>

lemma takeWhile_append_stop:
  "(\<forall>x \<in> set xs. P x) \<Longrightarrow> \<not> P y \<Longrightarrow> takeWhile P (xs @ y # ys) = xs"
  by (induction xs) auto

lemma dropWhile_append_stop:
  "(\<forall>x \<in> set xs. P x) \<Longrightarrow> \<not> P y \<Longrightarrow> dropWhile P (xs @ y # ys) = y # ys"
  by (induction xs) auto

end
