(* ===== verification/Dm_Binary.thy ===== *)
theory Dm_Binary
  imports Dm_Prelude
begin

text \<open>
  The byte codecs of \<^verbatim>\<open>utils/binary.c\<close>: base64 (\<open>dm_to64\<close>, \<open>dm_from64\<close>)
  and octal escaping (\<open>dm_escape_string\<close>, \<open>dm_unescape_string\<close>). Byte arrays and
  C strings are lists of bytes. Shown: both encoders are inverted by their decoders,
  and what they write fits the buffers that the callers allocate.
\<close>

section \<open>Base64\<close>

definition basis_64 :: "u8 list" where
  "basis_64 = map of_char
     ''ABCDEFGHIJKLMNOPQRSTUVWXYZabcdefghijklmnopqrstuvwxyz0123456789+/''"

definition b64digit :: "u8 \<Rightarrow> u8" where
  "b64digit w = basis_64 ! unat w"

text \<open>One group: three bytes, the missing ones zero, \<open>pads\<close> of them missing.\<close>

definition output64chunk :: "u8 \<Rightarrow> u8 \<Rightarrow> u8 \<Rightarrow> nat \<Rightarrow> u8 list" where
  "output64chunk c0 c1 c2 pads =
     [b64digit (drop_bit 2 c0),
      b64digit (push_bit 4 (c0 AND 0x3) OR drop_bit 4 (c1 AND 0xF0))] @
     (if pads = 2 then [61, 61]
      else if pads \<noteq> 0
      then [b64digit (push_bit 2 (c1 AND 0xF) OR drop_bit 6 (c2 AND 0xC0)), 61]
      else [b64digit (push_bit 2 (c1 AND 0xF) OR drop_bit 6 (c2 AND 0xC0)),
            b64digit (c2 AND 0x3F)])"

fun dm_to64 :: "u8 list \<Rightarrow> u8 list" where
  "dm_to64 [] = []"
| "dm_to64 [a] = output64chunk a 0 0 2"
| "dm_to64 [a, b] = output64chunk a b 0 1"
| "dm_to64 (a # b # c # rest) = output64chunk a b c 0 @ dm_to64 rest"

definition getbits :: "u8 \<Rightarrow> u8" where
  "getbits input =
     (if 65 \<le> input \<and> input \<le> 90 then input - 65
      else if 97 \<le> input \<and> input \<le> 122 then input - 97 + 26
      else if 48 \<le> input \<and> input \<le> 57 then input - 48 + 52
      else if input = 43 then 62
      else if input = 47 then 63
      else 0)"

definition is_b64space :: "u8 \<Rightarrow> bool" where
  "is_b64space c \<longleftrightarrow> c = 10 \<or> c = 13 \<or> c = 9 \<or> c = 32"

text \<open>
  The decoder's loop. \<open>i\<close> counts the bits not yet written, \<open>bits\<close> is the
  accumulator, an \<^verbatim>\<open>int\<close> whose high bits fall off the left end; only bits below
  16 are ever read, so the sign of the right shift does not matter. The result tells
  whether the loop stopped at a \<^verbatim>\<open>'='\<close>.
\<close>

fun from64_loop :: "u8 list \<Rightarrow> nat \<Rightarrow> u32 \<Rightarrow> u8 list \<Rightarrow> nat \<times> u32 \<times> u8 list \<times> bool" where
  "from64_loop [] i bits out = (i, bits, out, False)"
| "from64_loop (c # cs) i bits out =
     (if i mod 8 = 0 \<and> is_b64space c then from64_loop cs i bits out
      else if c = 61 then (i, bits, out, True)
      else
        let bits = bits OR ucast (getbits c);
            i = i + 6
        in if 8 < i
           then from64_loop cs (i mod 8) (push_bit 6 bits)
                  (out @ [ucast (drop_bit (i mod 8) bits)])
           else from64_loop cs i (push_bit 6 bits) out)"

definition dm_from64 :: "u8 list \<Rightarrow> u8 list" where
  "dm_from64 input =
     (let (i, bits, out, stopped) = from64_loop input 0 0 []
      in if i \<noteq> 0 \<and> \<not> stopped then out @ [ucast (drop_bit (i - 2) bits)] else out)"

section \<open>Escaping\<close>

definition BLOCK_ALLOC :: nat where
  "BLOCK_ALLOC = 128"

text \<open>\<^verbatim>\<open>sprintf (buf, "\\%03o", c)\<close> for a byte.\<close>

definition octal3 :: "u8 \<Rightarrow> u8 list" where
  "octal3 c = [92, 48 + drop_bit 6 c, 48 + (drop_bit 3 c AND 7), 48 + (c AND 7)]"

definition escape_byte :: "u8 \<Rightarrow> u8 list" where
  "escape_byte c =
     (if c \<le> 31 \<or> 127 \<le> c then octal3 c
      else if c = 92 then [92, c]
      else [c])"

text \<open>
  The buffer is written up to \<open>length out\<close>; \<open>space\<close> is its allocated size. The
  allocator is the argument \<open>alloc\<close>: whether an allocation of that size succeeds.
  The result is the string written with the final size, \<open>None\<close> where the C code
  returns \<^verbatim>\<open>NULL\<close>.
\<close>

fun escape_loop :: "(nat \<Rightarrow> bool) \<Rightarrow> u8 list \<Rightarrow> nat \<Rightarrow> u8 list \<Rightarrow> (u8 list \<times> nat) option" where
  "escape_loop alloc [] space out = Some (out, space)"
| "escape_loop alloc (c # cs) space out =
     (if space - length out < 5
      then if alloc (space + BLOCK_ALLOC)
           then escape_loop alloc cs (space + BLOCK_ALLOC) (out @ escape_byte c)
           else None
      else escape_loop alloc cs space (out @ escape_byte c))"

definition dm_escape_string :: "(nat \<Rightarrow> bool) \<Rightarrow> u8 list \<Rightarrow> (u8 list \<times> nat) option" where
  "dm_escape_string alloc data =
     (let space = ((length data + 8) div BLOCK_ALLOC + 1) * BLOCK_ALLOC
      in if alloc space then escape_loop alloc data space [] else None)"

definition is_digit8 :: "u8 \<Rightarrow> bool" where
  "is_digit8 c \<longleftrightarrow> 48 \<le> c \<and> c \<le> 57"

text \<open>\<open>None\<close> is the return value \<open>-1\<close>, with \<^verbatim>\<open>*len\<close> set to 0.\<close>

fun unescape_loop :: "u8 list \<Rightarrow> nat \<Rightarrow> u8 list \<Rightarrow> u8 list option" where
  "unescape_loop [] len dst = Some dst"
| "unescape_loop (c # str) len dst =
     (if len \<le> length dst then Some dst
      else if c \<noteq> 92 then unescape_loop str len (dst @ [c])
      else (case str of
              [] \<Rightarrow> None
            | d # str' \<Rightarrow>
                if d = 92 then unescape_loop str' len (dst @ [d])
                else (case str' of
                        e # f # str'' \<Rightarrow>
                          if is_digit8 d \<and> is_digit8 e \<and> is_digit8 f
                          then unescape_loop str'' len
                                 (dst @ [push_bit 6 (d - 48) + push_bit 3 (e - 48) + (f - 48)])
                          else None
                      | _ \<Rightarrow> None)))"

definition dm_unescape_string :: "u8 list \<Rightarrow> nat \<Rightarrow> u8 list option" where
  "dm_unescape_string str len = unescape_loop str len []"

section \<open>Base64: the round trip\<close>

text \<open>Every digit the encoder writes is read back by \<open>getbits\<close>: all 64 of them, by evaluation.\<close>

lemma basis_64_values:
  "basis_64 =
     [65, 66, 67, 68, 69, 70, 71, 72, 73, 74, 75, 76, 77, 78, 79, 80, 81, 82, 83, 84, 85, 86, 87,
      88, 89, 90, 97, 98, 99, 100, 101, 102, 103, 104, 105, 106, 107, 108, 109, 110, 111, 112,
      113, 114, 115, 116, 117, 118, 119, 120, 121, 122, 48, 49, 50, 51, 52, 53, 54, 55, 56, 57,
      43, 47]"
  by (simp add: basis_64_def)

lemma basis_64_length: "length basis_64 = 64"
  by (simp add: basis_64_values)

lemma getbits_basis: "map getbits basis_64 = map of_nat [0..<64]"
  by (simp add: basis_64_values getbits_def upt_rec)

lemma basis_64_not_special: "list_all (\<lambda>d. d \<noteq> 61 \<and> \<not> is_b64space d) basis_64"
  by (simp add: basis_64_values is_b64space_def)

lemma b64digit_inv [simp]:
  assumes "w < 64"
  shows "getbits (b64digit w) = w" "b64digit w \<noteq> 61" "\<not> is_b64space (b64digit w)"
proof -
  have lt: "unat w < length basis_64"
    using assms by (simp add: word_less_nat_alt basis_64_length)
  then have "getbits (basis_64 ! unat w) = map of_nat [0..<64] ! unat w"
    by (simp flip: getbits_basis)
  with lt show "getbits (b64digit w) = w"
    by (simp add: b64digit_def basis_64_length)
  from lt basis_64_not_special have "basis_64 ! unat w \<noteq> 61 \<and> \<not> is_b64space (basis_64 ! unat w)"
    by (auto simp: list_all_length)
  then show "b64digit w \<noteq> 61" "\<not> is_b64space (b64digit w)"
    by (simp_all add: b64digit_def)
qed

text \<open>Two bytes are equal when their eight bits are: the bits are then computed one by one.\<close>

lemma u8_eqI:
  fixes x y :: u8
  assumes "bit x 0 = bit y 0" "bit x (Suc 0) = bit y (Suc 0)" "bit x 2 = bit y 2" "bit x 3 = bit y 3"
    "bit x 4 = bit y 4" "bit x 5 = bit y 5" "bit x 6 = bit y 6" "bit x 7 = bit y 7"
  shows "x = y"
proof (rule bit_word_eqI)
  fix n assume "n < LENGTH(8)"
  then have "n = 0 \<or> n = Suc 0 \<or> n = 2 \<or> n = 3 \<or> n = 4 \<or> n = 5 \<or> n = 6 \<or> n = 7" by auto
  with assms show "bit x n = bit y n" by auto
qed

lemma u8_no_bit [simp]: "8 \<le> n \<Longrightarrow> \<not> bit w n" for w :: u8
  using bit_imp_le_length [of w n] by auto

lemmas byte_eq_simps = bit_simps bit_numeral_rec numeral_2_eq_2 [symmetric] numeral_3_eq_3 [symmetric]

text \<open>The four six-bit groups are below 64.\<close>

lemma sextet_lt: "take_bit 6 w = w \<Longrightarrow> w < 64" for w :: u8
proof -
  assume "take_bit 6 w = w"
  then have "uint w = take_bit 6 (uint w)" by (metis unsigned_take_bit_eq)
  then have "uint w < 2 ^ 6" by (metis take_bit_int_less_exp)
  then show ?thesis by (simp add: word_less_alt)
qed

lemma sextets [simp]:
  fixes a b c :: u8
  shows "drop_bit 2 a < 64"
    and "push_bit 4 (a AND 3) OR drop_bit 4 (b AND 240) < 64"
    and "push_bit 2 (b AND 15) OR drop_bit 6 (c AND 192) < 64"
    and "c AND 63 < 64"
  subgoal by (rule sextet_lt, rule u8_eqI) (simp_all add: byte_eq_simps)
  subgoal by (rule sextet_lt, rule u8_eqI) (simp_all add: byte_eq_simps)
  subgoal by (rule sextet_lt, rule u8_eqI) (simp_all add: byte_eq_simps)
  subgoal by (rule sextet_lt, rule u8_eqI) (simp_all add: byte_eq_simps)
  done

text \<open>
  The accumulator over one group, started with its low six bits clear: after the second
  digit the first byte can be read, after the third the second, after the fourth the third.
\<close>

definition low6_clear :: "u32 \<Rightarrow> bool" where
  "low6_clear w \<longleftrightarrow> (\<forall>n < 6. \<not> bit w n)"

lemma low6_clear_push [simp]: "low6_clear (push_bit 6 w)"
  by (simp add: low6_clear_def bit_simps)

lemma low6_clear_0 [simp]: "low6_clear 0"
  by (simp add: low6_clear_def)

lemma low6_clear_bits:
  "low6_clear w \<Longrightarrow> \<not> bit w 0 \<and> \<not> bit w (Suc 0) \<and> \<not> bit w 2 \<and> \<not> bit w 3 \<and> \<not> bit w 4 \<and> \<not> bit w 5"
  by (simp add: low6_clear_def)

lemma group_byte1:
  fixes a b :: u8
  assumes "low6_clear w"
  shows "ucast (drop_bit 4 (push_bit 6 (w OR ucast (drop_bit 2 a))
           OR ucast (push_bit 4 (a AND 3) OR drop_bit 4 (b AND 240)))) = a"
  using low6_clear_bits [OF assms]
  by - (rule u8_eqI, simp_all add: byte_eq_simps)

lemma group_byte2:
  fixes a b c :: u8 and w :: u32
  shows "ucast (drop_bit 2 (push_bit 6 (push_bit 6 w
           OR ucast (push_bit 4 (a AND 3) OR drop_bit 4 (b AND 240)))
           OR ucast (push_bit 2 (b AND 15) OR drop_bit 6 (c AND 192)))) = b"
  by (rule u8_eqI) (simp_all add: byte_eq_simps)

lemma group_byte3:
  fixes b c :: u8 and w :: u32
  shows "ucast (push_bit 6 (push_bit 6 w
           OR ucast (push_bit 2 (b AND 15) OR drop_bit 6 (c AND 192)))
           OR ucast (c AND 63)) = c"
  by (rule u8_eqI) (simp_all add: byte_eq_simps)

lemma pending_byte:
  fixes a :: u8 and w :: u32
  shows "ucast (drop_bit 6 (w OR ucast (drop_bit 2 a))) = (ucast (drop_bit 6 w) :: u8)"
  by (rule u8_eqI) (simp_all add: byte_eq_simps)

lemma ucast_drop_push: "ucast (drop_bit 6 (push_bit 6 w)) = (ucast w :: u8)" for w :: u32
  by (rule u8_eqI) (simp_all add: byte_eq_simps)

text \<open>
  Between groups the decoder has either written everything (\<open>i = 0\<close>, at the start) or
  holds the last byte of the previous group back in its accumulator (\<open>i = 8\<close>).
\<close>

definition decoded :: "nat \<Rightarrow> u32 \<Rightarrow> u8 list \<Rightarrow> u8 list \<Rightarrow> bool" where
  "decoded i bits out done \<longleftrightarrow> low6_clear bits \<and>
     (i = 0 \<and> out = done \<or> i = 8 \<and> out @ [ucast (drop_bit 6 bits)] = done)"

definition finish64 :: "nat \<times> u32 \<times> u8 list \<times> bool \<Rightarrow> u8 list" where
  "finish64 = (\<lambda>(i, bits, out, stopped).
     if i \<noteq> 0 \<and> \<not> stopped then out @ [ucast (drop_bit (i - 2) bits)] else out)"

lemma dm_from64_finish: "dm_from64 input = finish64 (from64_loop input 0 0 [])"
  by (simp add: dm_from64_def finish64_def)

lemma from64_digit:
  assumes "d < 64"
  shows "from64_loop (b64digit d # cs) i bits out =
    (if 8 < i + 6
     then from64_loop cs ((i + 6) mod 8) (push_bit 6 (bits OR ucast d))
            (out @ [ucast (drop_bit ((i + 6) mod 8) (bits OR ucast d))])
     else from64_loop cs (i + 6) (push_bit 6 (bits OR ucast d)) out)"
  using b64digit_inv [OF assms] by (simp only: from64_loop.simps Let_def) simp

text \<open>The accumulator after one, two, three and four digits.\<close>

definition acc64 :: "u32 \<Rightarrow> u8 list \<Rightarrow> u32" where
  "acc64 = foldl (\<lambda>w d. push_bit 6 w OR ucast d)"

lemma from64_digits2:
  assumes "d0 < 64" "d1 < 64" "i = 0 \<or> i = 8"
  shows "from64_loop (b64digit d0 # b64digit d1 # cs) i w out =
    from64_loop cs 4 (push_bit 6 (acc64 (w OR ucast d0) [d1]))
      (out @ (if i = 8 then [ucast (drop_bit 6 (w OR ucast d0))] else [])
           @ [ucast (drop_bit 4 (acc64 (w OR ucast d0) [d1]))])"
  using assms(3) by (elim disjE) (simp_all add: from64_digit assms(1,2) acc64_def del: from64_loop.simps)

lemma from64_digit3:
  assumes "d < 64"
  shows "from64_loop (b64digit d # cs) 4 (push_bit 6 w) out =
    from64_loop cs 2 (push_bit 6 (acc64 w [d])) (out @ [ucast (drop_bit 2 (acc64 w [d]))])"
  by (simp add: from64_digit assms acc64_def del: from64_loop.simps)

lemma from64_digit4:
  assumes "d < 64"
  shows "from64_loop (b64digit d # cs) 2 (push_bit 6 w) out =
    from64_loop cs 8 (push_bit 6 (acc64 w [d])) out"
  by (simp add: from64_digit assms acc64_def del: from64_loop.simps)

lemma decoded_digits2:
  fixes a b :: u8
  assumes "decoded i w out done"
  defines "d0 \<equiv> drop_bit 2 a" and "d1 \<equiv> push_bit 4 (a AND 3) OR drop_bit 4 (b AND 240)"
  shows "from64_loop (b64digit d0 # b64digit d1 # cs) i w out =
    from64_loop cs 4 (push_bit 6 (acc64 (w OR ucast d0) [d1])) (done @ [a])"
proof -
  have i: "i = 0 \<or> i = 8" and low: "low6_clear w" using assms(1) by (auto simp: decoded_def)
  have a: "ucast (drop_bit 4 (acc64 (w OR ucast d0) [d1])) = a"
    unfolding acc64_def d0_def d1_def foldl.simps by (rule group_byte1 [OF low])
  have p: "ucast (drop_bit 6 (w OR ucast d0)) = (ucast (drop_bit 6 w) :: u8)"
    unfolding d0_def by (rule pending_byte)
  have out: "out @ (if i = 8 then [ucast (drop_bit 6 w)] else []) = done"
    using assms(1) by (auto simp: decoded_def)
  have lt: "d0 < 64" "d1 < 64" unfolding d0_def d1_def by (rule sextets)+
  show ?thesis
    unfolding from64_digits2 [OF lt i] a p append_assoc [symmetric] out ..
qed

lemma output64chunk_cases:
  "output64chunk a b c 0 @ rest =
     b64digit (drop_bit 2 a) # b64digit (push_bit 4 (a AND 3) OR drop_bit 4 (b AND 240)) #
     b64digit (push_bit 2 (b AND 15) OR drop_bit 6 (c AND 192)) # b64digit (c AND 63) # rest"
  "output64chunk a b c 1 =
     [b64digit (drop_bit 2 a), b64digit (push_bit 4 (a AND 3) OR drop_bit 4 (b AND 240)),
      b64digit (push_bit 2 (b AND 15) OR drop_bit 6 (c AND 192)), 61]"
  by (simp_all add: output64chunk_def)

lemma b64_group:
  assumes "decoded i w out done"
  shows "\<exists>w' out'. decoded 8 w' out' (done @ [a, b, c]) \<and>
    from64_loop (output64chunk a b c 0 @ rest) i w out = from64_loop rest 8 w' out'"
proof -
  let ?d2 = "push_bit 2 (b AND 15) OR drop_bit 6 (c AND 192)"
  let ?w1 = "acc64 (w OR ucast (drop_bit 2 a)) [push_bit 4 (a AND 3) OR drop_bit 4 (b AND 240)]"
  let ?w3 = "acc64 (acc64 ?w1 [?d2]) [c AND 63]"
  have b: "ucast (drop_bit 2 (acc64 ?w1 [?d2])) = b"
    unfolding acc64_def foldl.simps by (rule group_byte2)
  have c: "ucast (drop_bit 6 (push_bit 6 ?w3)) = c"
    unfolding ucast_drop_push unfolding acc64_def foldl.simps by (rule group_byte3)
  have "from64_loop (output64chunk a b c 0 @ rest) i w out =
      from64_loop rest 8 (push_bit 6 ?w3) (done @ [a, b])"
    unfolding output64chunk_cases decoded_digits2 [OF assms] from64_digit3 [OF sextets(3)]
      from64_digit4 [OF sextets(4)] b by simp
  moreover have "decoded 8 (push_bit 6 ?w3) (done @ [a, b]) (done @ [a, b, c])"
    unfolding decoded_def c by simp
  ultimately show ?thesis by blast
qed

lemma b64_tail1:
  assumes "decoded i w out done"
  shows "finish64 (from64_loop (output64chunk a 0 0 2) i w out) = done @ [a]"
  using decoded_digits2 [OF assms, of a 0]
  by (simp add: output64chunk_def finish64_def is_b64space_def)

lemma b64_tail2:
  assumes "decoded i w out done"
  shows "finish64 (from64_loop (output64chunk a b 0 1) i w out) = done @ [a, b]"
proof -
  let ?d2 = "push_bit 2 (b AND 15) OR drop_bit 6 ((0::u8) AND 192)"
  let ?w1 = "acc64 (w OR ucast (drop_bit 2 a)) [push_bit 4 (a AND 3) OR drop_bit 4 (b AND 240)]"
  have b: "ucast (drop_bit 2 (acc64 ?w1 [?d2])) = b"
    unfolding acc64_def foldl.simps by (rule group_byte2)
  have "from64_loop (output64chunk a b 0 1) i w out =
      from64_loop [61] 2 (push_bit 6 (acc64 ?w1 [?d2])) (done @ [a, b])"
    unfolding output64chunk_cases decoded_digits2 [OF assms] from64_digit3 [OF sextets(3)] b
    by simp
  then show ?thesis by (simp add: finish64_def is_b64space_def)
qed

lemma b64_decode_encode:
  "decoded i w out done \<Longrightarrow> finish64 (from64_loop (dm_to64 xs) i w out) = done @ xs"
proof (induction xs arbitrary: i w out "done" rule: dm_to64.induct)
  case 1
  then show ?case by (auto simp: decoded_def finish64_def)
next
  case (2 a)
  then show ?case by (simp add: b64_tail1)
next
  case (3 a b)
  then show ?case using b64_tail2 by (simp only: dm_to64.simps)
next
  case (4 a b c rest)
  obtain w' out' where d: "decoded 8 w' out' (done @ [a, b, c])"
    and step: "from64_loop (output64chunk a b c 0 @ dm_to64 rest) i w out =
      from64_loop (dm_to64 rest) 8 w' out'"
    using b64_group [OF "4.prems"] by blast
  show ?case using "4.IH" [OF d] by (simp add: step)
qed

section \<open>Base64: buffer bounds\<close>

lemma dm_to64_length: "length (dm_to64 xs) = 4 * ((length xs + 2) div 3)"
proof (induction xs rule: dm_to64.induct)
  case (4 a b c rest)
  then show ?case by (simp add: output64chunk_def) presburger
qed (auto simp: output64chunk_def)

text \<open>
  The decoder writes at most one byte for every six bits read: \<open>i\<close> never exceeds 8 and
  the bits written and pending never exceed the bits read.
\<close>

lemma from64_loop_length:
  assumes "from64_loop cs i w out = (i', w', out', stopped)" and "i \<le> 8"
  shows "i' \<le> 8 \<and> 8 * length out' + i' \<le> 8 * length out + i + 6 * length cs"
  using assms
proof (induction cs i w out rule: from64_loop.induct)
  case (2 c cs i w out)
  show ?case
  proof (cases "i mod 8 = 0 \<and> is_b64space c \<or> c = 61")
    case True
    with 2 show ?thesis by (fastforce split: if_splits)
  next
    case False
    then have ns: "\<not> (i mod 8 = 0 \<and> is_b64space c)" and ne: "c \<noteq> 61" by auto
    show ?thesis
    proof (cases "8 < i + 6")
      case True
      with "2.prems"(2) have "(i + 6) mod 8 = i - 2" "2 < i" "i - 2 \<le> 8" by (auto simp: mod_if)
      with "2.IH"(2) [OF ns ne refl refl True] "2.prems" ns ne True show ?thesis
        by (simp add: Let_def)
    next
      case less: False
      from "2.prems"(1) ns ne less
      have "from64_loop cs (i + 6) (push_bit 6 (w OR ucast (getbits c))) out = (i', w', out', stopped)"
        by (auto simp: Let_def split: if_splits)
      with "2.IH"(3) [OF ns ne refl refl less] less show ?thesis by simp
    qed
  qed
qed auto

lemma dm_from64_length: "8 * length (dm_from64 cs) \<le> 6 * length cs + 8"
proof -
  obtain i w out stopped where l: "from64_loop cs 0 0 [] = (i, w, out, stopped)"
    by (cases "from64_loop cs 0 0 []") auto
  from from64_loop_length [OF l] show ?thesis
    by (auto simp: dm_from64_def l Let_def)
qed

section \<open>Escaping: the round trip\<close>

lemma is_digit8_add:
  assumes "x \<le> 9"
  shows "is_digit8 (48 + x)"
proof -
  have x: "unat x \<le> 9" using assms by (simp add: word_le_nat_alt)
  then have "unat (48 + x) = 48 + unat x" by (simp add: unat_word_ariths)
  with x show ?thesis by (simp add: is_digit8_def word_le_nat_alt)
qed

lemma octal_digits:
  fixes c :: u8
  shows "is_digit8 (48 + drop_bit 6 c)" "is_digit8 (48 + (drop_bit 3 c AND 7))"
    "is_digit8 (48 + (c AND 7))"
proof -
  have "drop_bit 6 c = drop_bit 6 c AND 3" by (rule u8_eqI) (simp_all add: byte_eq_simps)
  then have "drop_bit 6 c \<le> 3" by (metis word_and_le1)
  moreover have "drop_bit 3 c AND 7 \<le> 7" "c AND 7 \<le> 7" by (rule word_and_le1)+
  ultimately show "is_digit8 (48 + drop_bit 6 c)" "is_digit8 (48 + (drop_bit 3 c AND 7))"
    "is_digit8 (48 + (c AND 7))"
    by (auto intro!: is_digit8_add elim: order_trans)
qed

lemma octal_value: "push_bit 6 (drop_bit 6 c) + push_bit 3 (drop_bit 3 c AND 7) + (c AND 7) = c"
  for c :: u8
proof -
  have "push_bit 6 (drop_bit 6 c) AND push_bit 3 (drop_bit 3 c AND 7) = 0"
    by (rule u8_eqI) (simp_all add: byte_eq_simps)
  moreover have "(push_bit 6 (drop_bit 6 c) OR push_bit 3 (drop_bit 3 c AND 7)) AND (c AND 7) = 0"
    by (rule u8_eqI) (simp_all add: byte_eq_simps)
  moreover have "push_bit 6 (drop_bit 6 c) OR push_bit 3 (drop_bit 3 c AND 7) OR (c AND 7) = c"
    by (rule u8_eqI) (simp_all add: byte_eq_simps)
  ultimately show ?thesis by (simp only: disjunctive_add_eq_or or.assoc)
qed

lemma unescape_escape_byte:
  assumes "length dst < len"
  shows "unescape_loop (escape_byte c @ str) len dst = unescape_loop str len (dst @ [c])"
proof (cases "c \<le> 31 \<or> 127 \<le> c")
  case True
  have "48 + drop_bit 6 c \<noteq> 92"
    using octal_digits(1) [of c] by (auto simp: is_digit8_def)
  with True assms octal_digits [of c] show ?thesis
    by (simp add: escape_byte_def octal3_def octal_value del: push_bit_and)
next
  case False
  with assms show ?thesis by (simp add: escape_byte_def)
qed

lemma unescape_escape:
  "length dst + length data \<le> len \<Longrightarrow>
   unescape_loop (concat (map escape_byte data)) len dst = Some (dst @ data)"
  by (induction data arbitrary: dst) (simp_all add: unescape_escape_byte)

lemma escape_byte_length: "0 < length (escape_byte c) \<and> length (escape_byte c) \<le> 4"
  by (simp add: escape_byte_def octal3_def)

text \<open>
  The escape loop writes the escaped bytes in order, never past the space it has: each
  turn starts with room for the longest escape and the final NUL, or makes it.
\<close>

lemma escape_loop_result:
  assumes "escape_loop alloc data space out = Some (res, space')" and "length out < space"
  shows "res = out @ concat (map escape_byte data) \<and> length res < space'"
  using assms
proof (induction alloc data space out rule: escape_loop.induct)
  case (2 alloc c cs space out)
  have len: "length (out @ escape_byte c) \<le> length out + 4"
    using escape_byte_length [of c] by simp
  show ?case
  proof (cases "space - length out < 5")
    case True
    with 2 len show ?thesis by (force simp: BLOCK_ALLOC_def split: if_splits)
  next
    case False
    with 2 len show ?thesis by (force split: if_splits)
  qed
qed auto

lemma escape_loop_total: "escape_loop (\<lambda>_. True) data space out \<noteq> None"
  by (induction "\<lambda>_::nat. True" data space out rule: escape_loop.induct) auto

section \<open>Properties\<close>

text \<open>
  C26: decoding what \<open>dm_to64\<close> encoded gives the bytes back, for every byte array: the
  full groups, the padded last group and the byte the decoder holds back between groups.
\<close>

theorem base64_roundtrip: "dm_from64 (dm_to64 xs) = xs"
  unfolding dm_from64_finish
  by (subst b64_decode_encode [where ?done = "[]"]) (auto simp: decoded_def)

text \<open>
  The encoder's output and its NUL fit the \<open>((len + 3) * 4) / 3\<close> bytes that
  \<open>serialize_element\<close> and \<open>dm_decode_unknown_as_string\<close> allocate, and the decoder's
  output and its NUL fit the \<open>((strlen + 4) * 3) / 4\<close> bytes that \<open>dm_string2value\<close>
  and \<open>dmconfig_string2value\<close> allocate, whatever the input string is.
\<close>

theorem base64_buffers:
  "length (dm_to64 xs) + 1 \<le> ((length xs + 3) * 4) div 3 \<and>
   length (dm_from64 cs) + 1 \<le> ((length cs + 4) * 3) div 4"
proof
  show "length (dm_to64 xs) + 1 \<le> ((length xs + 3) * 4) div 3"
    unfolding dm_to64_length by presburger
  show "length (dm_from64 cs) + 1 \<le> ((length cs + 4) * 3) div 4"
    using dm_from64_length [of cs] by presburger
qed

text \<open>
  C27: a string made by \<open>dm_escape_string\<close> stays, with its NUL, inside the buffer grown
  for it, and \<open>dm_unescape_string\<close> with room for the data returns exactly the data.
  When no allocation fails, the escaped string is produced.
\<close>

theorem escape_roundtrip:
  "dm_escape_string (\<lambda>_. True) data \<noteq> None \<and>
   (\<forall>str space. dm_escape_string alloc data = Some (str, space) \<longrightarrow> length data \<le> len \<longrightarrow>
      dm_unescape_string str len = Some data \<and> length str + 1 \<le> space)"
proof (intro conjI allI impI)
  show "dm_escape_string (\<lambda>_. True) data \<noteq> None"
    using escape_loop_total by (simp add: dm_escape_string_def Let_def)
next
  fix str space
  assume esc: "dm_escape_string alloc data = Some (str, space)" and len: "length data \<le> len"
  have str: "str = [] @ concat (map escape_byte data) \<and> length str < space"
    by (rule escape_loop_result [where space = "((length data + 8) div BLOCK_ALLOC + 1) * BLOCK_ALLOC"])
      (use esc in \<open>auto simp: dm_escape_string_def Let_def BLOCK_ALLOC_def split: if_splits\<close>)
  then show "length str + 1 \<le> space" by linarith
  from str len unescape_escape [of "[]" data len]
  show "dm_unescape_string str len = Some data"
    by (simp add: dm_unescape_string_def)
qed

theorem escape_roundtrip_witness:
  "dm_escape_string (\<lambda>n. n = 128) [97, 92, 10] = Some ([97, 92, 92, 92, 48, 49, 50], 128) \<and>
   dm_unescape_string [97, 92, 92, 92, 48, 49, 50] 3 = Some [97, 92, 10]"
proof -
  have e: "dm_escape_string (\<lambda>n. n = 128) [97, 92, 10] = Some ([97, 92, 92, 92, 48, 49, 50], 128)"
    by (simp add: dm_escape_string_def BLOCK_ALLOC_def escape_byte_def octal3_def)
  show ?thesis using e escape_roundtrip [of "[97, 92, 10]" "\<lambda>n. n = 128" 3] by auto
qed

end
