(* ===== verification/Dm_Rbtree.thy ===== *)
theory Dm_Rbtree
  imports Dm_Prelude
begin

text \<open>
  The intrusive red-black trees of \<^verbatim>\<open>mand/dm_index.c\<close>, at the level of the pointers.
  An index is a tree of rows; the rows that compare equal to a tree node hang off it in a
  doubly linked list (\<open>rbe_prev\<close>, \<open>rbe_next\<close>), uncoloured (\<open>WHITE\<close>). The memory
  \<open>rbmem\<close> of one index holds, for every row, its \<open>NODE\<close> for this index, and the
  root pointer of the tree. The comparison of rows is a parameter.

  A dereference of \<^verbatim>\<open>NULL\<close> or of a row without a \<open>NODE\<close> is a fault, and a loop that
  does not end has no value: both are \<open>None\<close>. The theorems below state that the
  operations return.
\<close>

section \<open>Nodes\<close>

datatype color = WHITE | BLACK | RED

record rbnode =
  rbe_left :: ptr
  rbe_right :: ptr
  rbe_parent :: ptr
  rbe_color :: color
  rbe_prev :: ptr
  rbe_next :: ptr

record rbmem =
  rbh :: "addr \<Rightarrow> rbnode option"
  rbroot :: ptr

definition zero_node :: rbnode where
  "zero_node = \<lparr>rbe_left = None, rbe_right = None, rbe_parent = None, rbe_color = WHITE,
     rbe_prev = None, rbe_next = None\<rparr>"

definition NODE :: "rbmem \<Rightarrow> ptr \<Rightarrow> rbnode option" where
  "NODE m p = (case p of None \<Rightarrow> None | Some a \<Rightarrow> rbh m a)"

definition NODE_upd :: "(rbnode \<Rightarrow> rbnode) \<Rightarrow> rbmem \<Rightarrow> ptr \<Rightarrow> rbmem option" where
  "NODE_upd f m p = (case p of
     None \<Rightarrow> None
   | Some a \<Rightarrow> do { n \<leftarrow> rbh m a; Some (m\<lparr>rbh := (rbh m)(a \<mapsto> f n)\<rparr>) })"

definition LEFT :: "rbmem \<Rightarrow> ptr \<Rightarrow> ptr option" where
  "LEFT m p = do { n \<leftarrow> NODE m p; Some (rbe_left n) }"
definition RIGHT :: "rbmem \<Rightarrow> ptr \<Rightarrow> ptr option" where
  "RIGHT m p = do { n \<leftarrow> NODE m p; Some (rbe_right n) }"
definition PARENT :: "rbmem \<Rightarrow> ptr \<Rightarrow> ptr option" where
  "PARENT m p = do { n \<leftarrow> NODE m p; Some (rbe_parent n) }"
definition COLOR :: "rbmem \<Rightarrow> ptr \<Rightarrow> color option" where
  "COLOR m p = do { n \<leftarrow> NODE m p; Some (rbe_color n) }"
definition PREV :: "rbmem \<Rightarrow> ptr \<Rightarrow> ptr option" where
  "PREV m p = do { n \<leftarrow> NODE m p; Some (rbe_prev n) }"
definition NEXT :: "rbmem \<Rightarrow> ptr \<Rightarrow> ptr option" where
  "NEXT m p = do { n \<leftarrow> NODE m p; Some (rbe_next n) }"

definition set_LEFT :: "rbmem \<Rightarrow> ptr \<Rightarrow> ptr \<Rightarrow> rbmem option" where
  "set_LEFT m p x = NODE_upd (rbe_left_update (\<lambda>_. x)) m p"
definition set_RIGHT :: "rbmem \<Rightarrow> ptr \<Rightarrow> ptr \<Rightarrow> rbmem option" where
  "set_RIGHT m p x = NODE_upd (rbe_right_update (\<lambda>_. x)) m p"
definition set_PARENT :: "rbmem \<Rightarrow> ptr \<Rightarrow> ptr \<Rightarrow> rbmem option" where
  "set_PARENT m p x = NODE_upd (rbe_parent_update (\<lambda>_. x)) m p"
definition set_COLOR :: "rbmem \<Rightarrow> ptr \<Rightarrow> color \<Rightarrow> rbmem option" where
  "set_COLOR m p x = NODE_upd (rbe_color_update (\<lambda>_. x)) m p"
definition set_PREV :: "rbmem \<Rightarrow> ptr \<Rightarrow> ptr \<Rightarrow> rbmem option" where
  "set_PREV m p x = NODE_upd (rbe_prev_update (\<lambda>_. x)) m p"
definition set_NEXT :: "rbmem \<Rightarrow> ptr \<Rightarrow> ptr \<Rightarrow> rbmem option" where
  "set_NEXT m p x = NODE_upd (rbe_next_update (\<lambda>_. x)) m p"

text \<open>\<^verbatim>\<open>memset (&NODE (elm), 0, sizeof (NODE))\<close>\<close>

definition clear_NODE :: "rbmem \<Rightarrow> ptr \<Rightarrow> rbmem option" where
  "clear_NODE m p = NODE_upd (\<lambda>_. zero_node) m p"

section \<open>Rotations and recolouring\<close>

definition SET :: "rbmem \<Rightarrow> ptr \<Rightarrow> ptr \<Rightarrow> rbmem option" where
  "SET m elm parent = do {
     m \<leftarrow> set_PARENT m elm parent;
     m \<leftarrow> set_RIGHT m elm None;
     m \<leftarrow> set_LEFT m elm None;
     set_COLOR m elm RED }"

definition SET_BLACKRED :: "rbmem \<Rightarrow> ptr \<Rightarrow> ptr \<Rightarrow> rbmem option" where
  "SET_BLACKRED m black red = do { m \<leftarrow> set_COLOR m black BLACK; set_COLOR m red RED }"

definition ROTATE_LEFT :: "rbmem \<Rightarrow> ptr \<Rightarrow> rbmem option" where
  "ROTATE_LEFT m elm = do {
     tmp \<leftarrow> RIGHT m elm;
     l \<leftarrow> LEFT m tmp;
     m \<leftarrow> set_RIGHT m elm l;
     m \<leftarrow> (if l \<noteq> None then do { l \<leftarrow> LEFT m tmp; set_PARENT m l elm } else Some m);
     p \<leftarrow> PARENT m elm;
     m \<leftarrow> set_PARENT m tmp p;
     m \<leftarrow> (if p \<noteq> None
           then do {
             p \<leftarrow> PARENT m elm;
             l \<leftarrow> LEFT m p;
             if elm = l then set_LEFT m p tmp else set_RIGHT m p tmp }
           else Some (m\<lparr>rbroot := tmp\<rparr>));
     m \<leftarrow> set_LEFT m tmp elm;
     set_PARENT m elm tmp }"

definition ROTATE_RIGHT :: "rbmem \<Rightarrow> ptr \<Rightarrow> rbmem option" where
  "ROTATE_RIGHT m elm = do {
     tmp \<leftarrow> LEFT m elm;
     r \<leftarrow> RIGHT m tmp;
     m \<leftarrow> set_LEFT m elm r;
     m \<leftarrow> (if r \<noteq> None then do { r \<leftarrow> RIGHT m tmp; set_PARENT m r elm } else Some m);
     p \<leftarrow> PARENT m elm;
     m \<leftarrow> set_PARENT m tmp p;
     m \<leftarrow> (if p \<noteq> None
           then do {
             p \<leftarrow> PARENT m elm;
             l \<leftarrow> LEFT m p;
             if elm = l then set_LEFT m p tmp else set_RIGHT m p tmp }
           else Some (m\<lparr>rbroot := tmp\<rparr>));
     m \<leftarrow> set_RIGHT m tmp elm;
     set_PARENT m elm tmp }"

text \<open>One pass of the loop of \<open>INSERT_COLOR\<close>; the result is the memory and the next \<^verbatim>\<open>elm\<close>.\<close>

definition insert_color_step :: "rbmem \<Rightarrow> ptr \<Rightarrow> ptr \<Rightarrow> (rbmem \<times> ptr) option" where
  "insert_color_step m elm parent = do {
     gparent \<leftarrow> PARENT m parent;
     gl \<leftarrow> LEFT m gparent;
     if parent = gl
     then do {
       tmp \<leftarrow> RIGHT m gparent;
       red \<leftarrow> (if tmp \<noteq> None then do { c \<leftarrow> COLOR m tmp; Some (c = RED) } else Some False);
       if red
       then do {
         m \<leftarrow> set_COLOR m tmp BLACK;
         m \<leftarrow> SET_BLACKRED m parent gparent;
         Some (m, gparent) }
       else do {
         pr \<leftarrow> RIGHT m parent;
         (m, parent, elm) \<leftarrow> (if pr = elm then do { m \<leftarrow> ROTATE_LEFT m parent; Some (m, elm, parent) }
                             else Some (m, parent, elm));
         m \<leftarrow> SET_BLACKRED m parent gparent;
         m \<leftarrow> ROTATE_RIGHT m gparent;
         Some (m, elm) } }
     else do {
       tmp \<leftarrow> LEFT m gparent;
       red \<leftarrow> (if tmp \<noteq> None then do { c \<leftarrow> COLOR m tmp; Some (c = RED) } else Some False);
       if red
       then do {
         m \<leftarrow> set_COLOR m tmp BLACK;
         m \<leftarrow> SET_BLACKRED m parent gparent;
         Some (m, gparent) }
       else do {
         pl \<leftarrow> LEFT m parent;
         (m, parent, elm) \<leftarrow> (if pl = elm then do { m \<leftarrow> ROTATE_RIGHT m parent; Some (m, elm, parent) }
                             else Some (m, parent, elm));
         m \<leftarrow> SET_BLACKRED m parent gparent;
         m \<leftarrow> ROTATE_LEFT m gparent;
         Some (m, elm) } } }"

partial_function (option) insert_color_loop :: "rbmem \<Rightarrow> ptr \<Rightarrow> rbmem option" where
  "insert_color_loop m elm = do {
     parent \<leftarrow> PARENT m elm;
     red \<leftarrow> (if parent \<noteq> None then do { c \<leftarrow> COLOR m parent; Some (c = RED) } else Some False);
     if red
     then do { me \<leftarrow> insert_color_step m elm parent; insert_color_loop (fst me) (snd me) }
     else Some m }"

declare insert_color_loop.simps [code]

definition INSERT_COLOR :: "rbmem \<Rightarrow> ptr \<Rightarrow> rbmem option" where
  "INSERT_COLOR m elm = do { m \<leftarrow> insert_color_loop m elm; set_COLOR m (rbroot m) BLACK }"

text \<open>\<^verbatim>\<open>!p || COLOR (p) == BLACK\<close>\<close>

definition is_black :: "rbmem \<Rightarrow> ptr \<Rightarrow> bool option" where
  "is_black m p = (if p = None then Some True else do { c \<leftarrow> COLOR m p; Some (c = BLACK) })"

text \<open>
  One pass of the loop of \<open>REMOVE_COLOR\<close>; the result is the memory, the next
  \<^verbatim>\<open>parent\<close> and \<^verbatim>\<open>elm\<close>, and whether the loop was left with \<^verbatim>\<open>break\<close>. The part of each
  branch after the case of a red sibling comes first.
\<close>

definition remove_color_left :: "rbmem \<Rightarrow> ptr \<Rightarrow> ptr \<Rightarrow> (rbmem \<times> ptr \<times> ptr \<times> bool) option" where
  "remove_color_left m parent tmp = do {
     l \<leftarrow> LEFT m tmp;
     lb \<leftarrow> is_black m l;
     r \<leftarrow> RIGHT m tmp;
     rb \<leftarrow> is_black m r;
     if lb \<and> rb
     then do {
       m \<leftarrow> set_COLOR m tmp RED;
       p \<leftarrow> PARENT m parent;
       Some (m, p, parent, False) }
     else do {
       (m, tmp) \<leftarrow> (if rb
                   then do {
                     oleft \<leftarrow> LEFT m tmp;
                     m \<leftarrow> (if oleft \<noteq> None then set_COLOR m oleft BLACK else Some m);
                     m \<leftarrow> set_COLOR m tmp RED;
                     m \<leftarrow> ROTATE_RIGHT m tmp;
                     tmp \<leftarrow> RIGHT m parent;
                     Some (m, tmp) }
                   else Some (m, tmp));
       pc \<leftarrow> COLOR m parent;
       m \<leftarrow> set_COLOR m tmp pc;
       m \<leftarrow> set_COLOR m parent BLACK;
       r \<leftarrow> RIGHT m tmp;
       m \<leftarrow> (if r \<noteq> None then set_COLOR m r BLACK else Some m);
       m \<leftarrow> ROTATE_LEFT m parent;
       Some (m, parent, rbroot m, True) } }"

definition remove_color_right :: "rbmem \<Rightarrow> ptr \<Rightarrow> ptr \<Rightarrow> (rbmem \<times> ptr \<times> ptr \<times> bool) option" where
  "remove_color_right m parent tmp = do {
     l \<leftarrow> LEFT m tmp;
     lb \<leftarrow> is_black m l;
     r \<leftarrow> RIGHT m tmp;
     rb \<leftarrow> is_black m r;
     if lb \<and> rb
     then do {
       m \<leftarrow> set_COLOR m tmp RED;
       p \<leftarrow> PARENT m parent;
       Some (m, p, parent, False) }
     else do {
       (m, tmp) \<leftarrow> (if lb
                   then do {
                     oright \<leftarrow> RIGHT m tmp;
                     m \<leftarrow> (if oright \<noteq> None then set_COLOR m oright BLACK else Some m);
                     m \<leftarrow> set_COLOR m tmp RED;
                     m \<leftarrow> ROTATE_LEFT m tmp;
                     tmp \<leftarrow> LEFT m parent;
                     Some (m, tmp) }
                   else Some (m, tmp));
       pc \<leftarrow> COLOR m parent;
       m \<leftarrow> set_COLOR m tmp pc;
       m \<leftarrow> set_COLOR m parent BLACK;
       l \<leftarrow> LEFT m tmp;
       m \<leftarrow> (if l \<noteq> None then set_COLOR m l BLACK else Some m);
       m \<leftarrow> ROTATE_RIGHT m parent;
       Some (m, parent, rbroot m, True) } }"

definition remove_color_step :: "rbmem \<Rightarrow> ptr \<Rightarrow> ptr \<Rightarrow> (rbmem \<times> ptr \<times> ptr \<times> bool) option" where
  "remove_color_step m parent elm = do {
     pl \<leftarrow> LEFT m parent;
     if pl = elm
     then do {
       tmp \<leftarrow> RIGHT m parent;
       c \<leftarrow> COLOR m tmp;
       if c = RED
       then do {
         m \<leftarrow> SET_BLACKRED m tmp parent;
         m \<leftarrow> ROTATE_LEFT m parent;
         tmp \<leftarrow> RIGHT m parent;
         remove_color_left m parent tmp }
       else remove_color_left m parent tmp }
     else do {
       tmp \<leftarrow> LEFT m parent;
       c \<leftarrow> COLOR m tmp;
       if c = RED
       then do {
         m \<leftarrow> SET_BLACKRED m tmp parent;
         m \<leftarrow> ROTATE_RIGHT m parent;
         tmp \<leftarrow> LEFT m parent;
         remove_color_right m parent tmp }
       else remove_color_right m parent tmp } }"

partial_function (option) remove_color_loop :: "rbmem \<Rightarrow> ptr \<Rightarrow> ptr \<Rightarrow> (rbmem \<times> ptr) option" where
  "remove_color_loop m parent elm = do {
     b \<leftarrow> is_black m elm;
     if b \<and> elm \<noteq> rbroot m
     then do {
       st \<leftarrow> remove_color_step m parent elm;
       case st of (m, parent, elm, brk) \<Rightarrow>
         if brk then Some (m, elm) else remove_color_loop m parent elm }
     else Some (m, elm) }"

declare remove_color_loop.simps [code]

definition REMOVE_COLOR :: "rbmem \<Rightarrow> ptr \<Rightarrow> ptr \<Rightarrow> rbmem option" where
  "REMOVE_COLOR m parent elm = do {
     (m, elm) \<leftarrow> remove_color_loop m parent elm;
     if elm \<noteq> None then set_COLOR m elm BLACK else Some m }"

section \<open>Insertion and removal\<close>

definition REPLACE :: "rbmem \<Rightarrow> ptr \<Rightarrow> ptr \<Rightarrow> rbmem option" where
  "REPLACE m old new = do {
     parent \<leftarrow> PARENT m old;
     l \<leftarrow> LEFT m old;
     m \<leftarrow> set_LEFT m new l;
     l \<leftarrow> LEFT m old;
     m \<leftarrow> (if l \<noteq> None then set_PARENT m l new else Some m);
     r \<leftarrow> RIGHT m old;
     m \<leftarrow> set_RIGHT m new r;
     r \<leftarrow> RIGHT m old;
     m \<leftarrow> (if r \<noteq> None then set_PARENT m r new else Some m);
     c \<leftarrow> COLOR m old;
     m \<leftarrow> set_COLOR m new c;
     m \<leftarrow> set_PARENT m new parent;
     if parent \<noteq> None
     then do {
       l \<leftarrow> LEFT m parent;
       if l = old then set_LEFT m parent new else set_RIGHT m parent new }
     else Some (m\<lparr>rbroot := new\<rparr>) }"

partial_function (option) leftmost :: "rbmem \<Rightarrow> ptr \<Rightarrow> ptr option" where
  "leftmost m elm = do {
     left \<leftarrow> LEFT m elm;
     if left \<noteq> None then leftmost m left else Some elm }"

declare leftmost.simps [code]

text \<open>Put \<open>child\<close> in the place of \<open>elm\<close> under \<open>parent\<close>; the colour of \<open>elm\<close> is returned by the callers.\<close>

definition detach_child :: "rbmem \<Rightarrow> ptr \<Rightarrow> ptr \<Rightarrow> ptr \<Rightarrow> rbmem option" where
  "detach_child m elm child parent = do {
     m \<leftarrow> (if child \<noteq> None then set_PARENT m child parent else Some m);
     if parent \<noteq> None
     then do {
       l \<leftarrow> LEFT m parent;
       if l = elm then set_LEFT m parent child else set_RIGHT m parent child }
     else Some (m\<lparr>rbroot := child\<rparr>) }"

definition remove_from_tree :: "rbmem \<Rightarrow> ptr \<Rightarrow> rbmem option" where
  "remove_from_tree m old = do {
     l \<leftarrow> LEFT m old;
     r \<leftarrow> RIGHT m old;
     (m, parent, child, color) \<leftarrow>
       (if l \<noteq> None \<and> r \<noteq> None
        then do {
          elm \<leftarrow> leftmost m r;
          child \<leftarrow> RIGHT m elm;
          parent \<leftarrow> PARENT m elm;
          color \<leftarrow> COLOR m elm;
          m \<leftarrow> detach_child m elm child parent;
          ep \<leftarrow> PARENT m elm;
          m \<leftarrow> REPLACE m old elm;
          Some (m, if ep = old then elm else parent, child, color) }
        else do {
          let child = (if l = None then r else l);
          parent \<leftarrow> PARENT m old;
          color \<leftarrow> COLOR m old;
          m \<leftarrow> detach_child m old child parent;
          Some (m, parent, child, color) });
     m \<leftarrow> (if color = BLACK then REMOVE_COLOR m parent child else Some m);
     clear_NODE m old }"

text \<open>Detach a row from the list it is in, if there is one.\<close>

definition unlink :: "rbmem \<Rightarrow> ptr \<Rightarrow> rbmem option" where
  "unlink m elm = do {
     p \<leftarrow> PREV m elm;
     m \<leftarrow> (if p \<noteq> None then do { n \<leftarrow> NEXT m elm; set_NEXT m p n } else Some m);
     n \<leftarrow> NEXT m elm;
     if n \<noteq> None then do { p \<leftarrow> PREV m elm; set_PREV m n p } else Some m }"

definition REMOVE :: "rbmem \<Rightarrow> ptr \<Rightarrow> rbmem option" where
  "REMOVE m elm = do {
     m \<leftarrow> unlink m elm;
     c \<leftarrow> COLOR m elm;
     if c = WHITE then clear_NODE m elm
     else do {
       n \<leftarrow> NEXT m elm;
       if n \<noteq> None then do { m \<leftarrow> REPLACE m elm n; clear_NODE m elm }
       else remove_from_tree m elm } }"

text \<open>
  The search of \<open>INSERT\<close>: the node that compares equal, or the parent of the free place
  and the last comparison.
\<close>

partial_function (option) insert_search ::
  "(addr \<Rightarrow> int option) \<Rightarrow> rbmem \<Rightarrow> ptr \<Rightarrow> ptr \<Rightarrow> int \<Rightarrow> (ptr \<times> ptr \<times> int) option" where
  "insert_search cmp m tmp parent cres =
     (case tmp of
        None \<Rightarrow> Some (None, parent, cres)
      | Some a \<Rightarrow> do {
          c \<leftarrow> cmp a;
          if c < 0 then do { l \<leftarrow> LEFT m tmp; insert_search cmp m l tmp c }
          else if c > 0 then do { r \<leftarrow> RIGHT m tmp; insert_search cmp m r tmp c }
          else Some (tmp, tmp, c) })"

declare insert_search.simps [code]

text \<open>
  \<open>INSERT\<close> returns the row already in the tree that the new row was attached to, or
  \<^verbatim>\<open>NULL\<close> when it became a node of the tree.
\<close>

definition attach_behind :: "rbmem \<Rightarrow> ptr \<Rightarrow> ptr \<Rightarrow> rbmem option" where
  "attach_behind m tmp elm = do {
     m \<leftarrow> clear_NODE m elm;
     m \<leftarrow> set_PREV m elm tmp;
     n \<leftarrow> NEXT m tmp;
     m \<leftarrow> set_NEXT m elm n;
     n \<leftarrow> NEXT m tmp;
     m \<leftarrow> (if n \<noteq> None then set_PREV m n elm else Some m);
     set_NEXT m tmp elm }"

definition attach_leaf :: "rbmem \<Rightarrow> ptr \<Rightarrow> int \<Rightarrow> ptr \<Rightarrow> rbmem option" where
  "attach_leaf m parent cres elm = do {
     m \<leftarrow> SET m elm parent;
     if parent \<noteq> None
     then if cres < 0 then set_LEFT m parent elm else set_RIGHT m parent elm
     else Some (m\<lparr>rbroot := elm\<rparr>) }"

definition INSERT :: "(addr \<Rightarrow> int option) \<Rightarrow> rbmem \<Rightarrow> ptr \<Rightarrow> (rbmem \<times> ptr) option" where
  "INSERT cmp m elm = do {
     (tmp, parent, cres) \<leftarrow> insert_search cmp m (rbroot m) None 0;
     if tmp \<noteq> None
     then do { m \<leftarrow> attach_behind m tmp elm; Some (m, tmp) }
     else do {
       m \<leftarrow> attach_leaf m parent cres elm;
       m \<leftarrow> INSERT_COLOR m elm;
       Some (m, None) } }"

partial_function (option) FIND_from :: "(addr \<Rightarrow> int option) \<Rightarrow> rbmem \<Rightarrow> ptr \<Rightarrow> ptr option" where
  "FIND_from cmpv m tmp =
     (case tmp of
        None \<Rightarrow> Some None
      | Some a \<Rightarrow> do {
          c \<leftarrow> cmpv a;
          if c < 0 then do { l \<leftarrow> LEFT m tmp; FIND_from cmpv m l }
          else if c > 0 then do { r \<leftarrow> RIGHT m tmp; FIND_from cmpv m r }
          else Some tmp })"

declare FIND_from.simps [code]

definition FIND :: "(addr \<Rightarrow> int option) \<Rightarrow> rbmem \<Rightarrow> ptr option" where
  "FIND cmpv m = FIND_from cmpv m (rbroot m)"

section \<open>Traversal\<close>

partial_function (option) rightmost :: "rbmem \<Rightarrow> ptr \<Rightarrow> ptr option" where
  "rightmost m elm = do {
     right \<leftarrow> RIGHT m elm;
     if right \<noteq> None then rightmost m right else Some elm }"

declare rightmost.simps [code]

partial_function (option) climb_right :: "rbmem \<Rightarrow> ptr \<Rightarrow> ptr option" where
  "climb_right m elm = do {
     p \<leftarrow> PARENT m elm;
     up \<leftarrow> (if p \<noteq> None then do { r \<leftarrow> RIGHT m p; Some (elm = r) } else Some False);
     if up then climb_right m p else Some elm }"

declare climb_right.simps [code]

partial_function (option) climb_left :: "rbmem \<Rightarrow> ptr \<Rightarrow> ptr option" where
  "climb_left m elm = do {
     p \<leftarrow> PARENT m elm;
     up \<leftarrow> (if p \<noteq> None then do { l \<leftarrow> LEFT m p; Some (elm = l) } else Some False);
     if up then climb_left m p else Some elm }"

declare climb_left.simps [code]

definition TREE_NEXT :: "rbmem \<Rightarrow> ptr \<Rightarrow> ptr option" where
  "TREE_NEXT m elm = do {
     r \<leftarrow> RIGHT m elm;
     if r \<noteq> None then leftmost m r
     else do {
       p \<leftarrow> PARENT m elm;
       isl \<leftarrow> (if p \<noteq> None then do { l \<leftarrow> LEFT m p; Some (elm = l) } else Some False);
       if isl then Some p
       else do { elm \<leftarrow> climb_right m elm; PARENT m elm } } }"

partial_function (option) list_head :: "rbmem \<Rightarrow> ptr \<Rightarrow> ptr option" where
  "list_head m elm = do {
     p \<leftarrow> PREV m elm;
     if p \<noteq> None then list_head m p else Some elm }"

declare list_head.simps [code]

partial_function (option) list_tail :: "rbmem \<Rightarrow> ptr \<Rightarrow> ptr option" where
  "list_tail m elm = do {
     n \<leftarrow> NEXT m elm;
     if n \<noteq> None then list_tail m n else Some elm }"

declare list_tail.simps [code]

definition IDX_NEXT :: "rbmem \<Rightarrow> ptr \<Rightarrow> ptr option" where
  "IDX_NEXT m elm = do {
     n \<leftarrow> NEXT m elm;
     if n \<noteq> None then Some n
     else do { elm \<leftarrow> list_head m elm; TREE_NEXT m elm } }"

definition TREE_PREV :: "rbmem \<Rightarrow> ptr \<Rightarrow> ptr option" where
  "TREE_PREV m elm = do {
     l \<leftarrow> LEFT m elm;
     if l \<noteq> None then rightmost m l
     else do {
       p \<leftarrow> PARENT m elm;
       isr \<leftarrow> (if p \<noteq> None then do { r \<leftarrow> RIGHT m p; Some (elm = r) } else Some False);
       if isr then Some p
       else do { elm \<leftarrow> climb_left m elm; PARENT m elm } } }"

definition IDX_PREV :: "rbmem \<Rightarrow> ptr \<Rightarrow> ptr option" where
  "IDX_PREV m elm = do {
     p \<leftarrow> PREV m elm;
     if p \<noteq> None then Some p
     else do {
       elm \<leftarrow> TREE_PREV m elm;
       if elm \<noteq> None then list_tail m elm else Some None } }"

definition RB_NEGINF :: int where "RB_NEGINF = -1"
definition RB_INF :: int where "RB_INF = 1"

partial_function (option) minmax_loop :: "rbmem \<Rightarrow> int \<Rightarrow> ptr \<Rightarrow> ptr \<Rightarrow> ptr option" where
  "minmax_loop m val tmp parent =
     (if tmp \<noteq> None
      then do {
        t \<leftarrow> (if val < 0 then LEFT m tmp else RIGHT m tmp);
        minmax_loop m val t tmp }
      else Some parent)"

declare minmax_loop.simps [code]

definition MINMAX :: "rbmem \<Rightarrow> int \<Rightarrow> ptr option" where
  "MINMAX m val = do {
     parent \<leftarrow> minmax_loop m val (rbroot m) None;
     if parent \<noteq> None \<and> \<not> val < 0 then list_tail m parent else Some parent }"

section \<open>The tree a memory holds\<close>

text \<open>
  The abstract index: a tree of addresses with colours, each node with the list of the rows
  that hang off it. \<open>tree_at h p t\<close> says that the heap \<open>h\<close> holds exactly the nodes of
  \<open>t\<close>, the parent pointer of its root being \<open>p\<close>.
\<close>

datatype rbt = Lf | Nd rbt color addr "addr list" rbt

fun root_ptr :: "rbt \<Rightarrow> ptr" where
  "root_ptr Lf = None"
| "root_ptr (Nd _ _ a _ _) = Some a"

fun hd_ptr :: "addr list \<Rightarrow> ptr" where
  "hd_ptr [] = None"
| "hd_ptr (a # _) = Some a"

fun chain_at :: "(addr \<Rightarrow> rbnode option) \<Rightarrow> ptr \<Rightarrow> addr list \<Rightarrow> bool" where
  "chain_at h p [] \<longleftrightarrow> True"
| "chain_at h p (d # ds) \<longleftrightarrow>
     h d = Some \<lparr>rbe_left = None, rbe_right = None, rbe_parent = None, rbe_color = WHITE,
       rbe_prev = p, rbe_next = hd_ptr ds\<rparr> \<and> chain_at h (Some d) ds"

fun tree_at :: "(addr \<Rightarrow> rbnode option) \<Rightarrow> ptr \<Rightarrow> rbt \<Rightarrow> bool" where
  "tree_at h p Lf \<longleftrightarrow> True"
| "tree_at h p (Nd l c a ds r) \<longleftrightarrow>
     h a = Some \<lparr>rbe_left = root_ptr l, rbe_right = root_ptr r, rbe_parent = p, rbe_color = c,
       rbe_prev = None, rbe_next = hd_ptr ds\<rparr> \<and>
     chain_at h (Some a) ds \<and> tree_at h (Some a) l \<and> tree_at h (Some a) r"

fun addrs :: "rbt \<Rightarrow> addr list" where
  "addrs Lf = []"
| "addrs (Nd l c a ds r) = addrs l @ a # ds @ addrs r"

text \<open>A tree with a hole: the frames from the hole up to the root.\<close>

datatype frame = FL color addr "addr list" rbt | FR rbt color addr "addr list"

fun plug :: "frame list \<Rightarrow> rbt \<Rightarrow> rbt" where
  "plug [] t = t"
| "plug (FL c a ds r # k) t = plug k (Nd t c a ds r)"
| "plug (FR l c a ds # k) t = plug k (Nd l c a ds t)"

fun top_ptr :: "frame list \<Rightarrow> ptr" where
  "top_ptr [] = None"
| "top_ptr (FL _ a _ _ # _) = Some a"
| "top_ptr (FR _ _ a _ # _) = Some a"

fun ctx_root :: "frame list \<Rightarrow> ptr \<Rightarrow> ptr" where
  "ctx_root [] p = p"
| "ctx_root (FL _ a _ _ # k) p = ctx_root k (Some a)"
| "ctx_root (FR _ _ a _ # k) p = ctx_root k (Some a)"

fun ctx_at :: "(addr \<Rightarrow> rbnode option) \<Rightarrow> frame list \<Rightarrow> ptr \<Rightarrow> bool" where
  "ctx_at h [] p \<longleftrightarrow> True"
| "ctx_at h (FL c a ds r # k) p \<longleftrightarrow>
     h a = Some \<lparr>rbe_left = p, rbe_right = root_ptr r, rbe_parent = top_ptr k, rbe_color = c,
       rbe_prev = None, rbe_next = hd_ptr ds\<rparr> \<and>
     chain_at h (Some a) ds \<and> tree_at h (Some a) r \<and> ctx_at h k (Some a)"
| "ctx_at h (FR l c a ds # k) p \<longleftrightarrow>
     h a = Some \<lparr>rbe_left = root_ptr l, rbe_right = p, rbe_parent = top_ptr k, rbe_color = c,
       rbe_prev = None, rbe_next = hd_ptr ds\<rparr> \<and>
     chain_at h (Some a) ds \<and> tree_at h (Some a) l \<and> ctx_at h k (Some a)"

fun caddrs :: "frame list \<Rightarrow> addr list" where
  "caddrs [] = []"
| "caddrs (FL c a ds r # k) = a # ds @ addrs r @ caddrs k"
| "caddrs (FR l c a ds # k) = a # ds @ addrs l @ caddrs k"

definition repr :: "rbmem \<Rightarrow> rbt \<Rightarrow> bool" where
  "repr m t \<longleftrightarrow> rbroot m = root_ptr t \<and> tree_at (rbh m) None t \<and> distinct (addrs t)"

text \<open>Nothing outside the rows of the tree changes.\<close>

definition unchanged :: "addr set \<Rightarrow> rbmem \<Rightarrow> rbmem \<Rightarrow> bool" where
  "unchanged S m m' \<longleftrightarrow> (\<forall>a. a \<notin> S \<longrightarrow> rbh m' a = rbh m a)"

lemma unchanged_refl [simp]: "unchanged S m m"
  by (simp add: unchanged_def)

lemma unchanged_trans: "unchanged S m m' \<Longrightarrow> unchanged S m' m'' \<Longrightarrow> unchanged S m m''"
  by (simp add: unchanged_def)

lemma unchanged_mono: "unchanged S m m' \<Longrightarrow> S \<subseteq> T \<Longrightarrow> unchanged T m m'"
  by (auto simp: unchanged_def)

lemma chain_at_upd [simp]: "a \<notin> set ds \<Longrightarrow> chain_at (h(a := x)) p ds = chain_at h p ds"
  by (induction ds arbitrary: p) auto

lemma tree_at_upd [simp]: "a \<notin> set (addrs t) \<Longrightarrow> tree_at (h(a := x)) p t = tree_at h p t"
  by (induction t arbitrary: p) auto

lemma ctx_at_upd [simp]: "a \<notin> set (caddrs k) \<Longrightarrow> ctx_at (h(a := x)) k p = ctx_at h k p"
  by (induction h k p rule: ctx_at.induct) auto

lemma root_ptr_in: "root_ptr t = Some a \<Longrightarrow> a \<in> set (addrs t)"
  by (cases t) auto

lemma root_ptr_neq [simp]:
  "a \<notin> set (addrs t) \<Longrightarrow> root_ptr t \<noteq> Some a" "a \<notin> set (addrs t) \<Longrightarrow> Some a \<noteq> root_ptr t"
  using root_ptr_in [of t a] by auto

lemma hd_ptr_neq [simp]:
  "a \<notin> set ds \<Longrightarrow> hd_ptr ds \<noteq> Some a" "a \<notin> set ds \<Longrightarrow> Some a \<noteq> hd_ptr ds"
  by (cases ds; auto)+

lemma tree_at_plug: "tree_at h None (plug k t) \<longleftrightarrow> ctx_at h k (root_ptr t) \<and> tree_at h (top_ptr k) t"
  by (induction k t rule: plug.induct) auto

lemma root_ptr_plug: "root_ptr (plug k t) = ctx_root k (root_ptr t)"
  by (induction k t rule: plug.induct) auto

lemma set_addrs_plug: "set (addrs (plug k t)) = set (caddrs k) \<union> set (addrs t)"
  by (induction k t rule: plug.induct) auto

lemma distinct_addrs_plug: "distinct (addrs (plug k t)) \<longleftrightarrow> distinct (caddrs k @ addrs t)"
  by (induction k t rule: plug.induct) auto

lemma repr_plug:
  "repr m (plug k t) \<longleftrightarrow> rbroot m = ctx_root k (root_ptr t) \<and> ctx_at (rbh m) k (root_ptr t) \<and>
     tree_at (rbh m) (top_ptr k) t \<and> distinct (caddrs k @ addrs t)"
  by (auto simp: repr_def tree_at_plug root_ptr_plug distinct_addrs_plug)

lemma repr_Nd: "repr m (Nd l c a ds r) \<longleftrightarrow> rbroot m = Some a \<and> tree_at (rbh m) None (Nd l c a ds r) \<and>
    distinct (addrs (Nd l c a ds r))"
  by (simp add: repr_def)

lemma repr_Lf: "repr m Lf \<longleftrightarrow> rbroot m = None"
  by (simp add: repr_def)

lemmas access_defs = LEFT_def RIGHT_def PARENT_def COLOR_def PREV_def NEXT_def NODE_def
  set_LEFT_def set_RIGHT_def set_PARENT_def set_COLOR_def set_PREV_def set_NEXT_def clear_NODE_def
  NODE_upd_def

text \<open>Reading and recolouring the node in focus.\<close>

lemma focus_reads:
  assumes "repr m (plug k (Nd l c a ds r))"
  shows "LEFT m (Some a) = Some (root_ptr l)" "RIGHT m (Some a) = Some (root_ptr r)"
    "PARENT m (Some a) = Some (top_ptr k)" "COLOR m (Some a) = Some c"
    "PREV m (Some a) = Some None" "NEXT m (Some a) = Some (hd_ptr ds)"
  using assms by (auto simp: repr_plug access_defs)

lemma set_COLOR_focus:
  assumes "repr m (plug k (Nd l c a ds r))"
  obtains m' where "set_COLOR m (Some a) c' = Some m'" "repr m' (plug k (Nd l c' a ds r))"
    "unchanged (set (addrs (plug k (Nd l c a ds r)))) m m'"
proof -
  let ?m = "m\<lparr>rbh := (rbh m)(a \<mapsto> \<lparr>rbe_left = root_ptr l, rbe_right = root_ptr r,
    rbe_parent = top_ptr k, rbe_color = c', rbe_prev = None, rbe_next = hd_ptr ds\<rparr>)\<rparr>"
  have "set_COLOR m (Some a) c' = Some ?m" using assms by (auto simp: repr_plug access_defs)
  moreover have "repr ?m (plug k (Nd l c' a ds r))" using assms by (auto simp: repr_plug)
  ultimately show thesis by (rule that) (auto simp: unchanged_def set_addrs_plug)
qed

text \<open>A rotation turns the tree in the focus and leaves everything else.\<close>

lemma ROTATE_LEFT_focus:
  assumes "repr m (plug k (Nd a c x xs (Nd b d y ys e)))"
  obtains m' where "ROTATE_LEFT m (Some x) = Some m'" "repr m' (plug k (Nd (Nd a c x xs b) d y ys e))"
    "unchanged (set (addrs (plug k (Nd a c x xs (Nd b d y ys e))))) m m'"
proof -
  have "\<exists>m'. ROTATE_LEFT m (Some x) = Some m' \<and> repr m' (plug k (Nd (Nd a c x xs b) d y ys e)) \<and>
    unchanged (set (addrs (plug k (Nd a c x xs (Nd b d y ys e))))) m m'"
    using assms
    by (cases b; cases k rule: top_ptr.cases)
      (simp_all add: repr_plug repr_Nd access_defs ROTATE_LEFT_def unchanged_def set_addrs_plug)
  with that show thesis by blast
qed

lemma ROTATE_RIGHT_focus:
  assumes "repr m (plug k (Nd (Nd a c x xs b) d y ys e))"
  obtains m' where "ROTATE_RIGHT m (Some y) = Some m'" "repr m' (plug k (Nd a c x xs (Nd b d y ys e)))"
    "unchanged (set (addrs (plug k (Nd (Nd a c x xs b) d y ys e)))) m m'"
proof -
  have "\<exists>m'. ROTATE_RIGHT m (Some y) = Some m' \<and> repr m' (plug k (Nd a c x xs (Nd b d y ys e))) \<and>
    unchanged (set (addrs (plug k (Nd (Nd a c x xs b) d y ys e)))) m m'"
    using assms
    by (cases b; cases k rule: top_ptr.cases)
      (simp_all add: repr_plug repr_Nd access_defs ROTATE_RIGHT_def unchanged_def set_addrs_plug)
  with that show thesis by blast
qed

end
