(* ===== verification/Dm_Rbtree_Insert.thy ===== *)
theory Dm_Rbtree_Insert
  imports Dm_Rbtree
begin

text \<open>
  The red-black invariants on the abstract trees of \<open>Dm_Rbtree\<close>, and the insertion of a
  row into an index: the search, the attachment of an equal row to the list of its node, the
  new red leaf and the recolouring loop.
\<close>

section \<open>Invariants\<close>

fun rcol :: "rbt \<Rightarrow> color" where
  "rcol Lf = BLACK"
| "rcol (Nd _ c _ _ _) = c"

text \<open>\<open>rbi n t\<close>: every path of \<open>t\<close> has \<open>n\<close> black nodes and no red node has a red child.\<close>

fun rbi :: "nat \<Rightarrow> rbt \<Rightarrow> bool" where
  "rbi n Lf \<longleftrightarrow> n = 0"
| "rbi n (Nd l RED a ds r) \<longleftrightarrow> rbi n l \<and> rbi n r \<and> rcol l = BLACK \<and> rcol r = BLACK"
| "rbi (Suc n) (Nd l BLACK a ds r) \<longleftrightarrow> rbi n l \<and> rbi n r"
| "rbi 0 (Nd l BLACK a ds r) \<longleftrightarrow> False"
| "rbi n (Nd l WHITE a ds r) \<longleftrightarrow> False"

definition rb_tree :: "rbt \<Rightarrow> bool" where
  "rb_tree t \<longleftrightarrow> rcol t = BLACK \<and> (\<exists>n. rbi n t)"

text \<open>\<open>ctxi n c k\<close>: a tree of black height \<open>n\<close> with a root of colour \<open>c\<close> fits the hole.\<close>

fun ctxi :: "nat \<Rightarrow> color \<Rightarrow> frame list \<Rightarrow> bool" where
  "ctxi n c [] \<longleftrightarrow> c = BLACK"
| "ctxi n c (FL RED a ds s # k) \<longleftrightarrow> c = BLACK \<and> rbi n s \<and> rcol s = BLACK \<and> ctxi n RED k"
| "ctxi n c (FL BLACK a ds s # k) \<longleftrightarrow> rbi n s \<and> ctxi (Suc n) BLACK k"
| "ctxi n c (FL WHITE a ds s # k) \<longleftrightarrow> False"
| "ctxi n c (FR s RED a ds # k) \<longleftrightarrow> c = BLACK \<and> rbi n s \<and> rcol s = BLACK \<and> ctxi n RED k"
| "ctxi n c (FR s BLACK a ds # k) \<longleftrightarrow> rbi n s \<and> ctxi (Suc n) BLACK k"
| "ctxi n c (FR s WHITE a ds # k) \<longleftrightarrow> False"

fun groups :: "rbt \<Rightarrow> addr list list" where
  "groups Lf = []"
| "groups (Nd l c a ds r) = groups l @ (a # ds) # groups r"

fun ctx_before :: "frame list \<Rightarrow> addr list list" where
  "ctx_before [] = []"
| "ctx_before (FL c a ds r # k) = ctx_before k"
| "ctx_before (FR l c a ds # k) = ctx_before k @ groups l @ [a # ds]"

fun ctx_after :: "frame list \<Rightarrow> addr list list" where
  "ctx_after [] = []"
| "ctx_after (FL c a ds r # k) = (a # ds) # groups r @ ctx_after k"
| "ctx_after (FR l c a ds # k) = ctx_after k"

lemma groups_plug: "groups (plug k t) = ctx_before k @ groups t @ ctx_after k"
  by (induction k t rule: plug.induct) auto

lemma addrs_groups: "addrs t = concat (groups t)"
  by (induction t) auto

lemma rb_tree_plug:
  "rbi n t \<Longrightarrow> ctxi n (rcol t) k \<Longrightarrow> rb_tree (plug k t)"
proof (induction k t arbitrary: n rule: plug.induct)
  case (1 t)
  then show ?case by (auto simp: rb_tree_def)
next
  case (2 c a ds r k t)
  from "2.prems" "2.IH" [of n] "2.IH" [of "Suc n"] show ?case by (cases c) simp_all
next
  case (3 l c a ds k t)
  from "3.prems" "3.IH" [of n] "3.IH" [of "Suc n"] show ?case by (cases c) simp_all
qed

lemma plug_rb_tree:
  assumes "rb_tree (plug k t)"
  obtains n where "rbi n t" "ctxi n (rcol t) k"
proof -
  have "\<exists>n. rbi n t \<and> ctxi n (rcol t) k" using assms
  proof (induction k t rule: plug.induct)
    case (1 t)
    then show ?case by (auto simp: rb_tree_def)
  next
    case (2 c a ds r k t)
    then obtain n where "rbi n (Nd t c a ds r)" "ctxi n (rcol (Nd t c a ds r)) k" by auto
    then show ?case by (cases c; cases n) auto
  next
    case (3 l c a ds k t)
    then obtain n where "rbi n (Nd l c a ds t)" "ctxi n (rcol (Nd l c a ds t)) k" by auto
    then show ?case by (cases c; cases n) auto
  qed
  with that show thesis by blast
qed

lemma ctxi_RED_BLACK: "ctxi n RED k \<Longrightarrow> ctxi n BLACK k"
  by (cases "(n, RED, k)" rule: ctxi.cases) auto

fun paint_black :: "rbt \<Rightarrow> rbt" where
  "paint_black Lf = Lf"
| "paint_black (Nd l c a ds r) = Nd l BLACK a ds r"

lemma paint_black_simps [simp]:
  "groups (paint_black t) = groups t" "addrs (paint_black t) = addrs t"
  "root_ptr (paint_black t) = root_ptr t" "rcol (paint_black t) = BLACK"
  by (cases t; simp)+

lemma paint_black_id: "rcol t = BLACK \<Longrightarrow> paint_black t = t"
  by (cases t) auto

section \<open>The recolouring loop\<close>

text \<open>
  What one operation on the memory of an index does: from a memory that holds the tree
  \<open>t\<close> to one that holds \<open>t'\<close>, with the same rows in the same order.
\<close>

definition reshapes :: "rbmem \<Rightarrow> rbt \<Rightarrow> rbmem \<Rightarrow> rbt \<Rightarrow> bool" where
  "reshapes m t m' t' \<longleftrightarrow> repr m' t' \<and> groups t' = groups t \<and> unchanged (set (addrs t)) m m'"

lemma reshapes_trans: "reshapes m t m' t' \<Longrightarrow> reshapes m' t' m'' t'' \<Longrightarrow> reshapes m t m'' t''"
  by (auto simp: reshapes_def addrs_groups intro: unchanged_trans)

lemma reshapes_refl: "repr m t \<Longrightarrow> reshapes m t m t"
  by (simp add: reshapes_def)

lemma set_COLOR_reshapes:
  assumes "repr m T" and "T = plug k (Nd l c a ds r)"
  obtains m' where "set_COLOR m (Some a) c' = Some m'" "reshapes m T m' (plug k (Nd l c' a ds r))"
  by (rule set_COLOR_focus [OF assms(1) [unfolded assms(2)]])
    (rule that, auto simp: reshapes_def groups_plug assms(2))

lemma ROTATE_LEFT_reshapes:
  assumes "repr m T" and "T = plug k (Nd a c x xs (Nd b d y ys e))"
  obtains m' where "ROTATE_LEFT m (Some x) = Some m'"
    "reshapes m T m' (plug k (Nd (Nd a c x xs b) d y ys e))"
  by (rule ROTATE_LEFT_focus [OF assms(1) [unfolded assms(2)]])
    (rule that, auto simp: reshapes_def groups_plug assms(2))

lemma ROTATE_RIGHT_reshapes:
  assumes "repr m T" and "T = plug k (Nd (Nd a c x xs b) d y ys e)"
  obtains m' where "ROTATE_RIGHT m (Some y) = Some m'"
    "reshapes m T m' (plug k (Nd a c x xs (Nd b d y ys e)))"
  by (rule ROTATE_RIGHT_focus [OF assms(1) [unfolded assms(2)]])
    (rule that, auto simp: reshapes_def groups_plug assms(2))

lemma SET_BLACKRED_reshapes:
  assumes "repr m T" and "T = plug k (Nd l c a ds r)"
    and "plug k (Nd l BLACK a ds r) = plug k' (Nd l' c' a' ds' r')"
  obtains m' where "SET_BLACKRED m (Some a) (Some a') = Some m'"
    "reshapes m T m' (plug k' (Nd l' RED a' ds' r'))"
proof -
  obtain m1 where m1: "set_COLOR m (Some a) BLACK = Some m1" "reshapes m T m1 (plug k (Nd l BLACK a ds r))"
    using set_COLOR_reshapes [OF assms(1,2)] by blast
  then have "repr m1 (plug k' (Nd l' c' a' ds' r'))" using assms(3) by (simp add: reshapes_def)
  then obtain m2 where m2: "set_COLOR m1 (Some a') RED = Some m2"
    "reshapes m1 (plug k' (Nd l' c' a' ds' r')) m2 (plug k' (Nd l' RED a' ds' r'))"
    using set_COLOR_reshapes by blast
  with m1 assms(3) show thesis by (intro that [of m2]) (auto simp: SET_BLACKRED_def intro: reshapes_trans)
qed

fun frame_addr :: "frame \<Rightarrow> addr" where
  "frame_addr (FL _ a _ _) = a"
| "frame_addr (FR _ _ a _) = a"

fun frame_col :: "frame \<Rightarrow> color" where
  "frame_col (FL c _ _ _) = c"
| "frame_col (FR _ c _ _) = c"

fun frame_paint :: "color \<Rightarrow> frame \<Rightarrow> frame" where
  "frame_paint c (FL _ a ds r) = FL c a ds r"
| "frame_paint c (FR l _ a ds) = FR l c a ds"

lemma top_ptr_Cons: "top_ptr (f # k) = Some (frame_addr f)"
  by (cases f) auto

lemma plug_frame_cases:
  obtains l c a ds r where "plug (f # k) t = plug k (Nd l c a ds r)" "a = frame_addr f" "c = frame_col f"
    "\<And>c'. plug (frame_paint c' f # k) t = plug k (Nd l c' a ds r)"
  by (cases f) auto

lemma parent_reads:
  assumes "repr m (plug (f # k) t)"
  shows "PARENT m (Some (frame_addr f)) = Some (top_ptr k)" "COLOR m (Some (frame_addr f)) = Some (frame_col f)"
  using assms by (cases f; auto dest: focus_reads)+

lemma step_red_uncle_left:
  assumes rep: "repr m (plug (f # FL BLACK g gs (Nd ul RED u us ur) # k) t)"
  obtains m' where "insert_color_step m elm (Some (frame_addr f)) = Some (m', Some g)"
    "reshapes m (plug (f # FL BLACK g gs (Nd ul RED u us ur) # k) t)
       m' (plug (frame_paint BLACK f # FL RED g gs (Nd ul BLACK u us ur) # k) t)"
proof -
  obtain pl pc pa ps pr where P: "plug (f # FL BLACK g gs (Nd ul RED u us ur) # k) t =
      plug (FL BLACK g gs (Nd ul RED u us ur) # k) (Nd pl pc pa ps pr)" "pa = frame_addr f"
    and PB: "plug (frame_paint BLACK f # FL RED g gs (Nd ul BLACK u us ur) # k) t =
      plug (FL RED g gs (Nd ul BLACK u us ur) # k) (Nd pl BLACK pa ps pr)"
    by (cases f) auto
  let ?T = "plug k (Nd (Nd pl pc pa ps pr) BLACK g gs (Nd ul RED u us ur))"
  from rep P have rep0: "repr m ?T" by simp
  have rg: "repr m (plug k (Nd (Nd pl pc pa ps pr) BLACK g gs (Nd ul RED u us ur)))" using rep0 .
  have ru: "repr m (plug (FR (Nd pl pc pa ps pr) BLACK g gs # k) (Nd ul RED u us ur))" using rep0 by simp
  have rp: "repr m (plug (FL BLACK g gs (Nd ul RED u us ur) # k) (Nd pl pc pa ps pr))" using rep0 by simp
  obtain m1 where m1: "set_COLOR m (Some u) BLACK = Some m1"
    "reshapes m ?T m1 (plug (FR (Nd pl pc pa ps pr) BLACK g gs # k) (Nd ul BLACK u us ur))"
    by (rule set_COLOR_reshapes [of m ?T "FR (Nd pl pc pa ps pr) BLACK g gs # k", OF rep0]) simp_all
  then have r1: "repr m1 (plug (FL BLACK g gs (Nd ul BLACK u us ur) # k) (Nd pl pc pa ps pr))"
    by (simp add: reshapes_def)
  obtain m2 where m2: "SET_BLACKRED m1 (Some pa) (Some g) = Some m2"
    "reshapes m1 (plug (FL BLACK g gs (Nd ul BLACK u us ur) # k) (Nd pl pc pa ps pr)) m2
      (plug k (Nd (Nd pl BLACK pa ps pr) RED g gs (Nd ul BLACK u us ur)))"
    by (rule SET_BLACKRED_reshapes [OF r1 refl]) simp_all
  have "insert_color_step m elm (Some pa) = Some (m2, Some g)"
    using focus_reads [OF rg] focus_reads [OF ru] focus_reads [OF rp] m1(1) m2(1)
    by (simp add: insert_color_step_def)
  moreover have "reshapes m ?T m2 (plug k (Nd (Nd pl BLACK pa ps pr) RED g gs (Nd ul BLACK u us ur)))"
    using m1(2) m2(2) by (auto intro: reshapes_trans)
  ultimately show thesis using that P PB by simp
qed

lemma step_red_uncle_right:
  assumes rep: "repr m (plug (f # FR (Nd ul RED u us ur) BLACK g gs # k) t)"
  obtains m' where "insert_color_step m elm (Some (frame_addr f)) = Some (m', Some g)"
    "reshapes m (plug (f # FR (Nd ul RED u us ur) BLACK g gs # k) t)
       m' (plug (frame_paint BLACK f # FR (Nd ul BLACK u us ur) RED g gs # k) t)"
proof -
  obtain pl pc pa ps pr where P: "plug (f # FR (Nd ul RED u us ur) BLACK g gs # k) t =
      plug (FR (Nd ul RED u us ur) BLACK g gs # k) (Nd pl pc pa ps pr)" "pa = frame_addr f"
    and PB: "plug (frame_paint BLACK f # FR (Nd ul BLACK u us ur) RED g gs # k) t =
      plug (FR (Nd ul BLACK u us ur) RED g gs # k) (Nd pl BLACK pa ps pr)"
    by (cases f) auto
  let ?T = "plug k (Nd (Nd ul RED u us ur) BLACK g gs (Nd pl pc pa ps pr))"
  from rep P have rep0: "repr m ?T" by simp
  have rg: "repr m (plug k (Nd (Nd ul RED u us ur) BLACK g gs (Nd pl pc pa ps pr)))" using rep0 .
  have ru: "repr m (plug (FL BLACK g gs (Nd pl pc pa ps pr) # k) (Nd ul RED u us ur))" using rep0 by simp
  have rp: "repr m (plug (FR (Nd ul RED u us ur) BLACK g gs # k) (Nd pl pc pa ps pr))" using rep0 by simp
  have neq: "pa \<noteq> u" using rep0 by (auto simp: repr_plug)
  obtain m1 where m1: "set_COLOR m (Some u) BLACK = Some m1"
    "reshapes m ?T m1 (plug (FL BLACK g gs (Nd pl pc pa ps pr) # k) (Nd ul BLACK u us ur))"
    by (rule set_COLOR_reshapes [of m ?T "FL BLACK g gs (Nd pl pc pa ps pr) # k", OF rep0]) simp_all
  then have r1: "repr m1 (plug (FR (Nd ul BLACK u us ur) BLACK g gs # k) (Nd pl pc pa ps pr))"
    by (simp add: reshapes_def)
  obtain m2 where m2: "SET_BLACKRED m1 (Some pa) (Some g) = Some m2"
    "reshapes m1 (plug (FR (Nd ul BLACK u us ur) BLACK g gs # k) (Nd pl pc pa ps pr)) m2
      (plug k (Nd (Nd ul BLACK u us ur) RED g gs (Nd pl BLACK pa ps pr)))"
    by (rule SET_BLACKRED_reshapes [OF r1 refl]) simp_all
  have "insert_color_step m elm (Some pa) = Some (m2, Some g)"
    using focus_reads [OF rg] focus_reads [OF ru] focus_reads [OF rp] m1(1) m2(1) neq
    by (simp add: insert_color_step_def)
  moreover have "reshapes m ?T m2 (plug k (Nd (Nd ul BLACK u us ur) RED g gs (Nd pl BLACK pa ps pr)))"
    using m1(2) m2(2) by (auto intro: reshapes_trans)
  ultimately show thesis using that P PB by simp
qed


lemma red_test:
  assumes "repr m (plug k t)"
  shows "(if root_ptr t \<noteq> None then do { c \<leftarrow> COLOR m (root_ptr t); Some (c = RED) } else Some False) =
    Some (rcol t = RED)"
  using assms by (cases t) (auto dest: focus_reads)

lemma step_outer_left:
  assumes rep: "repr m (plug k (Nd (Nd (Nd l RED e es r) RED p ps s) BLACK g gs u))" and u: "rcol u = BLACK"
  obtains m' where "insert_color_step m (Some e) (Some p) = Some (m', Some e)"
    "reshapes m (plug k (Nd (Nd (Nd l RED e es r) RED p ps s) BLACK g gs u))
       m' (plug k (Nd (Nd l RED e es r) BLACK p ps (Nd s RED g gs u)))"
proof -
  let ?T = "plug k (Nd (Nd (Nd l RED e es r) RED p ps s) BLACK g gs u)"
  let ?E = "Nd l RED e es r"
  have rp: "repr m (plug (FL BLACK g gs u # k) (Nd ?E RED p ps s))" using rep by simp
  have ru: "repr m (plug (FR (Nd ?E RED p ps s) BLACK g gs # k) u)" using rep by simp
  have e: "e \<notin> set (addrs s)" using rep by (auto simp: repr_plug)
  obtain m1 where m1: "SET_BLACKRED m (Some p) (Some g) = Some m1"
    "reshapes m ?T m1 (plug k (Nd (Nd ?E BLACK p ps s) RED g gs u))"
    by (rule SET_BLACKRED_reshapes [of m ?T "FL BLACK g gs u # k" ?E RED p ps s k]) (use rep in simp_all)
  then obtain m2 where m2: "ROTATE_RIGHT m1 (Some g) = Some m2"
    "reshapes m1 (plug k (Nd (Nd ?E BLACK p ps s) RED g gs u)) m2 (plug k (Nd ?E BLACK p ps (Nd s RED g gs u)))"
    using ROTATE_RIGHT_reshapes [OF _ refl] by (metis reshapes_def)
  have "insert_color_step m (Some e) (Some p) = Some (m2, Some e)"
    using focus_reads [OF rep] focus_reads [OF rp] red_test [OF ru] u e m1(1) m2(1)
    by (simp add: insert_color_step_def)
  with m1(2) m2(2) show thesis by (auto intro: that reshapes_trans)
qed

lemma step_inner_left:
  assumes rep: "repr m (plug k (Nd (Nd s RED p ps (Nd l RED e es r)) BLACK g gs u))" and u: "rcol u = BLACK"
  obtains m' where "insert_color_step m (Some e) (Some p) = Some (m', Some p)"
    "reshapes m (plug k (Nd (Nd s RED p ps (Nd l RED e es r)) BLACK g gs u))
       m' (plug k (Nd (Nd s RED p ps l) BLACK e es (Nd r RED g gs u)))"
proof -
  let ?T = "plug k (Nd (Nd s RED p ps (Nd l RED e es r)) BLACK g gs u)"
  let ?P = "Nd s RED p ps (Nd l RED e es r)"
  have rp: "repr m (plug (FL BLACK g gs u # k) ?P)" using rep by simp
  have ru: "repr m (plug (FR ?P BLACK g gs # k) u)" using rep by simp
  obtain m0 where m0: "ROTATE_LEFT m (Some p) = Some m0"
    "reshapes m ?T m0 (plug k (Nd (Nd (Nd s RED p ps l) RED e es r) BLACK g gs u))"
    by (rule ROTATE_LEFT_reshapes [of m ?T "FL BLACK g gs u # k" s RED p ps l RED e es r]) (use rep in simp_all)
  then have r0: "repr m0 (plug (FL BLACK g gs u # k) (Nd (Nd s RED p ps l) RED e es r))"
    by (simp add: reshapes_def)
  obtain m1 where m1: "SET_BLACKRED m0 (Some e) (Some g) = Some m1"
    "reshapes m0 (plug (FL BLACK g gs u # k) (Nd (Nd s RED p ps l) RED e es r))
       m1 (plug k (Nd (Nd (Nd s RED p ps l) BLACK e es r) RED g gs u))"
    by (rule SET_BLACKRED_reshapes [OF r0 refl]) simp_all
  then obtain m2 where m2: "ROTATE_RIGHT m1 (Some g) = Some m2"
    "reshapes m1 (plug k (Nd (Nd (Nd s RED p ps l) BLACK e es r) RED g gs u))
       m2 (plug k (Nd (Nd s RED p ps l) BLACK e es (Nd r RED g gs u)))"
    using ROTATE_RIGHT_reshapes [OF _ refl] by (metis reshapes_def)
  have "insert_color_step m (Some e) (Some p) = Some (m2, Some p)"
    using focus_reads [OF rep] focus_reads [OF rp] red_test [OF ru] u m0(1) m1(1) m2(1)
    by (simp add: insert_color_step_def)
  then show thesis
    by (rule that) (rule reshapes_trans [OF reshapes_trans [OF m0(2)] m2(2)], use m1(2) in simp)
qed

lemma step_outer_right:
  assumes rep: "repr m (plug k (Nd u BLACK g gs (Nd s RED p ps (Nd l RED e es r))))" and u: "rcol u = BLACK"
  obtains m' where "insert_color_step m (Some e) (Some p) = Some (m', Some e)"
    "reshapes m (plug k (Nd u BLACK g gs (Nd s RED p ps (Nd l RED e es r))))
       m' (plug k (Nd (Nd u RED g gs s) BLACK p ps (Nd l RED e es r)))"
proof -
  let ?T = "plug k (Nd u BLACK g gs (Nd s RED p ps (Nd l RED e es r)))"
  let ?E = "Nd l RED e es r"
  have rp: "repr m (plug (FR u BLACK g gs # k) (Nd s RED p ps ?E))" using rep by simp
  have ru: "repr m (plug (FL BLACK g gs (Nd s RED p ps ?E) # k) u)" using rep by simp
  have e: "e \<notin> set (addrs s)" "p \<notin> set (addrs u)" using rep by (auto simp: repr_plug)
  obtain m1 where m1: "SET_BLACKRED m (Some p) (Some g) = Some m1"
    "reshapes m ?T m1 (plug k (Nd u RED g gs (Nd s BLACK p ps ?E)))"
    by (rule SET_BLACKRED_reshapes [of m ?T "FR u BLACK g gs # k" s RED p ps ?E k]) (use rep in simp_all)
  then obtain m2 where m2: "ROTATE_LEFT m1 (Some g) = Some m2"
    "reshapes m1 (plug k (Nd u RED g gs (Nd s BLACK p ps ?E))) m2 (plug k (Nd (Nd u RED g gs s) BLACK p ps ?E))"
    using ROTATE_LEFT_reshapes [OF _ refl] by (metis reshapes_def)
  have "insert_color_step m (Some e) (Some p) = Some (m2, Some e)"
    using focus_reads [OF rep] focus_reads [OF rp] red_test [OF ru] u e m1(1) m2(1)
    by (simp add: insert_color_step_def)
  with m1(2) m2(2) show thesis by (auto intro: that reshapes_trans)
qed

lemma step_inner_right:
  assumes rep: "repr m (plug k (Nd u BLACK g gs (Nd (Nd l RED e es r) RED p ps s)))" and u: "rcol u = BLACK"
  obtains m' where "insert_color_step m (Some e) (Some p) = Some (m', Some p)"
    "reshapes m (plug k (Nd u BLACK g gs (Nd (Nd l RED e es r) RED p ps s)))
       m' (plug k (Nd (Nd u RED g gs l) BLACK e es (Nd r RED p ps s)))"
proof -
  let ?T = "plug k (Nd u BLACK g gs (Nd (Nd l RED e es r) RED p ps s))"
  let ?P = "Nd (Nd l RED e es r) RED p ps s"
  have rp: "repr m (plug (FR u BLACK g gs # k) ?P)" using rep by simp
  have ru: "repr m (plug (FL BLACK g gs ?P # k) u)" using rep by simp
  have p: "p \<notin> set (addrs u)" using rep by (auto simp: repr_plug)
  obtain m0 where m0: "ROTATE_RIGHT m (Some p) = Some m0"
    "reshapes m ?T m0 (plug k (Nd u BLACK g gs (Nd l RED e es (Nd r RED p ps s))))"
    by (rule ROTATE_RIGHT_reshapes [of m ?T "FR u BLACK g gs # k" l RED e es r RED p ps s]) (use rep in simp_all)
  then have r0: "repr m0 (plug (FR u BLACK g gs # k) (Nd l RED e es (Nd r RED p ps s)))"
    by (simp add: reshapes_def)
  obtain m1 where m1: "SET_BLACKRED m0 (Some e) (Some g) = Some m1"
    "reshapes m0 (plug (FR u BLACK g gs # k) (Nd l RED e es (Nd r RED p ps s)))
       m1 (plug k (Nd u RED g gs (Nd l BLACK e es (Nd r RED p ps s))))"
    by (rule SET_BLACKRED_reshapes [OF r0 refl]) simp_all
  then obtain m2 where m2: "ROTATE_LEFT m1 (Some g) = Some m2"
    "reshapes m1 (plug k (Nd u RED g gs (Nd l BLACK e es (Nd r RED p ps s))))
       m2 (plug k (Nd (Nd u RED g gs l) BLACK e es (Nd r RED p ps s)))"
    using ROTATE_LEFT_reshapes [OF _ refl] by (metis reshapes_def)
  have "insert_color_step m (Some e) (Some p) = Some (m2, Some p)"
    using focus_reads [OF rep] focus_reads [OF rp] red_test [OF ru] u p m0(1) m1(1) m2(1)
    by (simp add: insert_color_step_def)
  then show thesis
    by (rule that) (rule reshapes_trans [OF reshapes_trans [OF m0(2)] m2(2)], use m1(2) in simp)
qed

text \<open>
  The loop returns, for a red node in the focus that fits its place except that its parent may
  be red too; what remains is a tree that is red-black once its root is black.
\<close>

lemma insert_color_loop_stop:
  assumes "repr m (plug k (Nd l c e es r))" and "k = [] \<or> (\<exists>f k'. k = f # k' \<and> frame_col f \<noteq> RED)"
  shows "insert_color_loop m (Some e) = Some m"
proof (cases k)
  case Nil
  with focus_reads [OF assms(1)] show ?thesis by (subst insert_color_loop.simps) simp
next
  case (Cons f k')
  with assms have "repr m (plug (f # k') (Nd l c e es r))" "frame_col f \<noteq> RED" by auto
  with parent_reads [of m f k'] focus_reads [OF assms(1)] Cons show ?thesis
    by (subst insert_color_loop.simps) (simp add: top_ptr_Cons)
qed

lemma insert_color_loop_step:
  assumes "repr m (plug (f # k) (Nd l c e es r))" and "frame_col f = RED"
    and "insert_color_step m (Some e) (Some (frame_addr f)) = Some (m', e')"
  shows "insert_color_loop m (Some e) = insert_color_loop m' e'"
  using assms parent_reads [OF assms(1)] focus_reads [OF assms(1)]
  by (subst insert_color_loop.simps) (simp add: top_ptr_Cons)

lemma ctxi_red_top:
  assumes "ctxi n BLACK (f # k)" and "frame_col f = RED"
  obtains g k' where "k = g # k'" "frame_col g = BLACK"
proof -
  have "ctxi n RED k" using assms by (cases f) auto
  then show thesis
  proof (cases "(n, RED, k)" rule: ctxi.cases)
    case (3 n c a ds s k)
    then show thesis by (intro that) auto
  next
    case (6 n c s a ds k)
    then show thesis by (intro that) auto
  qed (use \<open>ctxi n RED k\<close> in auto)
qed

lemma insert_color_finish:
  assumes "repr m (plug (f # k) (Nd l c e es r))" "frame_col f = RED"
    and "insert_color_step m (Some e) (Some (frame_addr f)) = Some (m1, Some x)"
    and "reshapes m T m1 (plug (f' # k') (Nd a d x xs b))" "frame_col f' = BLACK"
    and "rb_tree (plug (f' # k') (Nd a d x xs b))"
  shows "\<exists>m' t'. insert_color_loop m (Some e) = Some m' \<and> reshapes m T m' t' \<and> rb_tree (paint_black t')"
proof -
  have "insert_color_loop m1 (Some x) = Some m1"
    by (rule insert_color_loop_stop [of m1 "f' # k'" a d x xs b])
      (use assms(4,5) in \<open>auto simp: reshapes_def\<close>)
  then have "insert_color_loop m (Some e) = Some m1"
    using insert_color_loop_step [OF assms(1-3)] by simp
  moreover have "rb_tree (paint_black (plug (f' # k') (Nd a d x xs b)))"
    using assms(6) by (simp add: rb_tree_def paint_black_id)
  ultimately show ?thesis using assms(4) by blast
qed

lemma insert_color_climb:
  assumes "repr m (plug (f # k) (Nd l c e es r))" "frame_col f = RED"
    and "insert_color_step m (Some e) (Some (frame_addr f)) = Some (m1, Some x)"
    and "reshapes m T m1 T1"
    and "\<exists>m' t'. insert_color_loop m1 (Some x) = Some m' \<and> reshapes m1 T1 m' t' \<and> rb_tree (paint_black t')"
  shows "\<exists>m' t'. insert_color_loop m (Some e) = Some m' \<and> reshapes m T m' t' \<and> rb_tree (paint_black t')"
  using insert_color_loop_step [OF assms(1-3)] assms(4,5) by (metis reshapes_trans)

text \<open>The cases of one pass, given that the loop is correct from two levels above.\<close>

definition ic_correct :: "rbmem \<Rightarrow> frame list \<Rightarrow> rbt \<Rightarrow> addr \<Rightarrow> bool" where
  "ic_correct m k t e \<longleftrightarrow> (\<exists>m' t'. insert_color_loop m (Some e) = Some m' \<and>
     reshapes m (plug k t) m' t' \<and> rb_tree (paint_black t'))"

lemma red_uncle_left_case:
  assumes rep: "repr m (plug (f # FL BLACK g gs (Nd ul RED u us ur) # k) (Nd l RED e es r))"
    and inv: "frame_col f = RED" "rbi n l" "rbi n r" "rcol l = BLACK" "rcol r = BLACK"
      "ctxi n BLACK (f # FL BLACK g gs (Nd ul RED u us ur) # k)"
    and IH: "\<And>m l e es r. repr m (plug k (Nd l RED e es r)) \<Longrightarrow> rbi (Suc n) l \<Longrightarrow> rbi (Suc n) r \<Longrightarrow>
      rcol l = BLACK \<Longrightarrow> rcol r = BLACK \<Longrightarrow> ctxi (Suc n) BLACK k \<Longrightarrow> ic_correct m k (Nd l RED e es r) e"
  shows "ic_correct m (f # FL BLACK g gs (Nd ul RED u us ur) # k) (Nd l RED e es r) e"
proof -
  obtain m1 where m1: "insert_color_step m (Some e) (Some (frame_addr f)) = Some (m1, Some g)"
    "reshapes m (plug (f # FL BLACK g gs (Nd ul RED u us ur) # k) (Nd l RED e es r)) m1
       (plug (frame_paint BLACK f # FL RED g gs (Nd ul BLACK u us ur) # k) (Nd l RED e es r))"
    by (rule step_red_uncle_left [OF rep])
  let ?P = "plug [frame_paint BLACK f] (Nd l RED e es r)"
  have T1: "plug (frame_paint BLACK f # FL RED g gs (Nd ul BLACK u us ur) # k) (Nd l RED e es r) =
    plug k (Nd ?P RED g gs (Nd ul BLACK u us ur))"
    by (cases f) auto
  have "ic_correct m1 k (Nd ?P RED g gs (Nd ul BLACK u us ur)) g"
    by (rule IH) (use m1(2) T1 inv in \<open>cases f; auto simp: reshapes_def\<close>)+
  with m1 T1 show ?thesis
    unfolding ic_correct_def using insert_color_climb [OF rep inv(1)] by metis
qed

lemma red_uncle_right_case:
  assumes rep: "repr m (plug (f # FR (Nd ul RED u us ur) BLACK g gs # k) (Nd l RED e es r))"
    and inv: "frame_col f = RED" "rbi n l" "rbi n r" "rcol l = BLACK" "rcol r = BLACK"
      "ctxi n BLACK (f # FR (Nd ul RED u us ur) BLACK g gs # k)"
    and IH: "\<And>m l e es r. repr m (plug k (Nd l RED e es r)) \<Longrightarrow> rbi (Suc n) l \<Longrightarrow> rbi (Suc n) r \<Longrightarrow>
      rcol l = BLACK \<Longrightarrow> rcol r = BLACK \<Longrightarrow> ctxi (Suc n) BLACK k \<Longrightarrow> ic_correct m k (Nd l RED e es r) e"
  shows "ic_correct m (f # FR (Nd ul RED u us ur) BLACK g gs # k) (Nd l RED e es r) e"
proof -
  obtain m1 where m1: "insert_color_step m (Some e) (Some (frame_addr f)) = Some (m1, Some g)"
    "reshapes m (plug (f # FR (Nd ul RED u us ur) BLACK g gs # k) (Nd l RED e es r)) m1
       (plug (frame_paint BLACK f # FR (Nd ul BLACK u us ur) RED g gs # k) (Nd l RED e es r))"
    by (rule step_red_uncle_right [OF rep])
  let ?P = "plug [frame_paint BLACK f] (Nd l RED e es r)"
  have T1: "plug (frame_paint BLACK f # FR (Nd ul BLACK u us ur) RED g gs # k) (Nd l RED e es r) =
    plug k (Nd (Nd ul BLACK u us ur) RED g gs ?P)"
    by (cases f) auto
  have "ic_correct m1 k (Nd (Nd ul BLACK u us ur) RED g gs ?P) g"
    by (rule IH) (use m1(2) T1 inv in \<open>cases f; auto simp: reshapes_def\<close>)+
  with m1 T1 show ?thesis
    unfolding ic_correct_def using insert_color_climb [OF rep inv(1)] by metis
qed

lemma black_uncle_left_case:
  assumes rep: "repr m (plug (f # FL BLACK g gs u # k) (Nd l RED e es r))" and u: "rcol u = BLACK"
    and inv: "frame_col f = RED" "rbi n l" "rbi n r" "rcol l = BLACK" "rcol r = BLACK"
      "ctxi n BLACK (f # FL BLACK g gs u # k)"
  shows "ic_correct m (f # FL BLACK g gs u # k) (Nd l RED e es r) e"
proof (cases f)
  case (FL c p ps s)
  with inv(1) have f: "f = FL RED p ps s" by simp
  obtain m1 where m1: "insert_color_step m (Some e) (Some p) = Some (m1, Some e)"
    "reshapes m (plug k (Nd (Nd (Nd l RED e es r) RED p ps s) BLACK g gs u))
       m1 (plug k (Nd (Nd l RED e es r) BLACK p ps (Nd s RED g gs u)))"
    by (rule step_outer_left [of m k l e es r p ps s g gs u]) (use rep f u in simp_all)
  have "rb_tree (plug k (Nd (Nd l RED e es r) BLACK p ps (Nd s RED g gs u)))"
    by (rule rb_tree_plug [of "Suc n"]) (use inv f u in auto)
  then show ?thesis unfolding ic_correct_def
    by (intro insert_color_finish [OF rep inv(1), where f' = "FL BLACK p ps (Nd s RED g gs u)" and k' = k])
      (use m1 f in auto)
next
  case (FR s c p ps)
  with inv(1) have f: "f = FR s RED p ps" by simp
  obtain m1 where m1: "insert_color_step m (Some e) (Some p) = Some (m1, Some p)"
    "reshapes m (plug k (Nd (Nd s RED p ps (Nd l RED e es r)) BLACK g gs u))
       m1 (plug k (Nd (Nd s RED p ps l) BLACK e es (Nd r RED g gs u)))"
    by (rule step_inner_left [of m k s p ps l e es r g gs u]) (use rep f u in simp_all)
  have "rb_tree (plug k (Nd (Nd s RED p ps l) BLACK e es (Nd r RED g gs u)))"
    by (rule rb_tree_plug [of "Suc n"]) (use inv f u in auto)
  then show ?thesis unfolding ic_correct_def
    by (intro insert_color_finish [OF rep inv(1), where f' = "FL BLACK e es (Nd r RED g gs u)" and k' = k])
      (use m1 f in auto)
qed

lemma black_uncle_right_case:
  assumes rep: "repr m (plug (f # FR u BLACK g gs # k) (Nd l RED e es r))" and u: "rcol u = BLACK"
    and inv: "frame_col f = RED" "rbi n l" "rbi n r" "rcol l = BLACK" "rcol r = BLACK"
      "ctxi n BLACK (f # FR u BLACK g gs # k)"
  shows "ic_correct m (f # FR u BLACK g gs # k) (Nd l RED e es r) e"
proof (cases f)
  case (FR s c p ps)
  with inv(1) have f: "f = FR s RED p ps" by simp
  obtain m1 where m1: "insert_color_step m (Some e) (Some p) = Some (m1, Some e)"
    "reshapes m (plug k (Nd u BLACK g gs (Nd s RED p ps (Nd l RED e es r))))
       m1 (plug k (Nd (Nd u RED g gs s) BLACK p ps (Nd l RED e es r)))"
    by (rule step_outer_right [of m k u g gs s p ps l e es r]) (use rep f u in simp_all)
  have "rb_tree (plug k (Nd (Nd u RED g gs s) BLACK p ps (Nd l RED e es r)))"
    by (rule rb_tree_plug [of "Suc n"]) (use inv f u in auto)
  then show ?thesis unfolding ic_correct_def
    by (intro insert_color_finish [OF rep inv(1), where f' = "FR (Nd u RED g gs s) BLACK p ps" and k' = k])
      (use m1 f in auto)
next
  case (FL c p ps s)
  with inv(1) have f: "f = FL RED p ps s" by simp
  obtain m1 where m1: "insert_color_step m (Some e) (Some p) = Some (m1, Some p)"
    "reshapes m (plug k (Nd u BLACK g gs (Nd (Nd l RED e es r) RED p ps s)))
       m1 (plug k (Nd (Nd u RED g gs l) BLACK e es (Nd r RED p ps s)))"
    by (rule step_inner_right [of m k u g gs l e es r p ps s]) (use rep f u in simp_all)
  have "rb_tree (plug k (Nd (Nd u RED g gs l) BLACK e es (Nd r RED p ps s)))"
    by (rule rb_tree_plug [of "Suc n"]) (use inv f u in auto)
  then show ?thesis unfolding ic_correct_def
    by (intro insert_color_finish [OF rep inv(1), where f' = "FR (Nd u RED g gs l) BLACK e es" and k' = k])
      (use m1 f in auto)
qed

lemma insert_color_loop_correct:
  assumes "repr m (plug k (Nd l RED e es r))" and "rbi n l" "rbi n r" "rcol l = BLACK" "rcol r = BLACK"
    and "ctxi n BLACK k"
  shows "ic_correct m k (Nd l RED e es r) e"
  using assms
proof (induction "length k" arbitrary: k l e es r n m rule: less_induct)
  case less
  let ?T = "plug k (Nd l RED e es r)"
  show ?case
  proof (cases "\<exists>f k'. k = f # k' \<and> frame_col f = RED")
    case False
    then have stop: "insert_color_loop m (Some e) = Some m"
      using insert_color_loop_stop [OF less.prems(1)] by (cases k) auto
    have "rb_tree (paint_black ?T)"
    proof (cases k)
      case Nil
      then show ?thesis using less.prems by (auto simp: rb_tree_def intro!: exI [of _ "Suc n"])
    next
      case (Cons f k')
      with False have fc: "frame_col f \<noteq> RED" by auto
      have "rb_tree ?T"
        by (rule rb_tree_plug [of n]) (use less.prems Cons fc in \<open>cases f; cases "frame_col f"; auto\<close>)+
      then show ?thesis by (simp add: rb_tree_def paint_black_id)
    qed
    with stop reshapes_refl [OF less.prems(1)] show ?thesis unfolding ic_correct_def by blast
  next
    case True
    then obtain f k1 where k1: "k = f # k1" and fc: "frame_col f = RED" by blast
    obtain g k' where k: "k = f # g # k'" and gc: "frame_col g = BLACK"
      using ctxi_red_top less.prems(6) k1 fc by blast
    note prems = less.prems [unfolded k]
    have IH: "ic_correct m k' (Nd l RED e es r) e"
      if "repr m (plug k' (Nd l RED e es r))" "rbi (Suc n) l" "rbi (Suc n) r" "rcol l = BLACK"
        "rcol r = BLACK" "ctxi (Suc n) BLACK k'" for m l e es r
      using less.hyps [OF _ that] k by simp
    have uc: "rcol u = BLACK \<or> (\<exists>ul ua us ur. u = Nd ul RED ua us ur)" if "rbi n u" for u
      using that by (cases "(n, u)" rule: rbi.cases) auto
    show ?thesis
    proof (cases g)
      case (FL c ga gs u)
      with gc have g: "g = FL BLACK ga gs u" by simp
      with prems(6) fc have "rbi n u" by (cases f) auto
      from uc [OF this] show ?thesis
      proof
        assume "rcol u = BLACK"
        from black_uncle_left_case [OF prems(1) [unfolded g] this fc prems(2-5) prems(6) [unfolded g]]
        show ?thesis by (simp add: k g)
      next
        assume "\<exists>ul ua us ur. u = Nd ul RED ua us ur"
        then obtain ul ua us ur where u: "u = Nd ul RED ua us ur" by blast
        show ?thesis unfolding k g u
          by (rule red_uncle_left_case [OF prems(1) [unfolded g u] fc prems(2-5) prems(6) [unfolded g u]])
            (rule IH)
      qed
    next
      case (FR u c ga gs)
      with gc have g: "g = FR u BLACK ga gs" by simp
      with prems(6) fc have "rbi n u" by (cases f) auto
      from uc [OF this] show ?thesis
      proof
        assume "rcol u = BLACK"
        from black_uncle_right_case [OF prems(1) [unfolded g] this fc prems(2-5) prems(6) [unfolded g]]
        show ?thesis by (simp add: k g)
      next
        assume "\<exists>ul ua us ur. u = Nd ul RED ua us ur"
        then obtain ul ua us ur where u: "u = Nd ul RED ua us ur" by blast
        show ?thesis unfolding k g u
          by (rule red_uncle_right_case [OF prems(1) [unfolded g u] fc prems(2-5) prems(6) [unfolded g u]])
            (rule IH)
      qed
    qed
  qed
qed

lemma INSERT_COLOR_correct:
  assumes "repr m (plug k (Nd l RED e es r))" and "rbi n l" "rbi n r" "rcol l = BLACK" "rcol r = BLACK"
    and "ctxi n BLACK k"
  obtains m' t' where "INSERT_COLOR m (Some e) = Some m'" "reshapes m (plug k (Nd l RED e es r)) m' t'"
    "rb_tree t'"
proof -
  from insert_color_loop_correct [OF assms] obtain m1 t1 where
    m1: "insert_color_loop m (Some e) = Some m1" "reshapes m (plug k (Nd l RED e es r)) m1 t1"
    and rb: "rb_tree (paint_black t1)"
    by (auto simp: ic_correct_def)
  from m1(2) have "groups t1 \<noteq> []" by (simp add: reshapes_def groups_plug)
  then obtain tl tc ta td tr where t1: "t1 = Nd tl tc ta td tr" by (cases t1) auto
  from m1(2) t1 have rep: "repr m1 t1" "rbroot m1 = Some ta" by (auto simp: reshapes_def repr_def)
  obtain m2 where "set_COLOR m1 (Some ta) BLACK = Some m2"
    "reshapes m1 t1 m2 (plug [] (Nd tl BLACK ta td tr))"
    by (rule set_COLOR_reshapes [OF rep(1), of "[]" tl tc ta td tr BLACK]) (simp_all add: t1)
  with m1 rep rb t1 show thesis
    by (intro that [of m2 "Nd tl BLACK ta td tr"]) (auto simp: INSERT_COLOR_def intro: reshapes_trans)
qed

section \<open>The search\<close>

definition heads :: "rbt \<Rightarrow> addr list" where
  "heads t = map hd (groups t)"

lemma heads_simps [simp]: "heads Lf = []" "heads (Nd l c a ds r) = heads l @ a # heads r"
  by (simp_all add: heads_def)

text \<open>
  \<open>cut c hs\<close>: the comparison of the new row with the nodes in order is positive, then zero
  at most once, then negative.
\<close>

definition cut :: "(addr \<Rightarrow> int) \<Rightarrow> addr list \<Rightarrow> bool" where
  "cut c = sorted_wrt (\<lambda>a b. (c a < 0 \<longrightarrow> c b < 0) \<and> (0 < c b \<longrightarrow> 0 < c a) \<and> \<not> (c a = 0 \<and> c b = 0))"

fun hole_side :: "frame list \<Rightarrow> int \<Rightarrow> bool" where
  "hole_side [] cr \<longleftrightarrow> True"
| "hole_side (FL _ _ _ _ # _) cr \<longleftrightarrow> cr < 0"
| "hole_side (FR _ _ _ _ # _) cr \<longleftrightarrow> cr > 0"

definition hits :: "(addr \<Rightarrow> int) \<Rightarrow> frame list \<Rightarrow> rbt \<Rightarrow> (ptr \<times> ptr \<times> int) option \<Rightarrow> bool" where
  "hits c k t res \<longleftrightarrow> (\<exists>k' l col a ds r. res = Some (Some a, Some a, 0) \<and>
     plug k t = plug k' (Nd l col a ds r) \<and> c a = 0)"

definition misses :: "(addr \<Rightarrow> int) \<Rightarrow> frame list \<Rightarrow> rbt \<Rightarrow> (ptr \<times> ptr \<times> int) option \<Rightarrow> bool" where
  "misses c k t res \<longleftrightarrow> (\<exists>k' cr B A. res = Some (None, top_ptr k', cr) \<and> plug k t = plug k' Lf \<and>
     hole_side k' cr \<and> ctx_before k' = ctx_before k @ B \<and> ctx_after k' = A @ ctx_after k \<and>
     groups t = B @ A \<and> (\<forall>b \<in> set B. 0 < c (hd b)) \<and> (\<forall>a \<in> set A. c (hd a) < 0))"

lemma heads_in: "g \<in> set (groups t) \<Longrightarrow> hd g \<in> set (heads t)"
  by (simp add: heads_def)

lemma cut_split:
  assumes "cut c (heads (Nd l col a ds r))"
  shows "cut c (heads l)" "cut c (heads r)"
    "c a < 0 \<Longrightarrow> g \<in> set (groups r) \<Longrightarrow> c (hd g) < 0"
    "0 < c a \<Longrightarrow> g \<in> set (groups l) \<Longrightarrow> 0 < c (hd g)"
  using assms heads_in [of g r] heads_in [of g l] by (auto simp: cut_def sorted_wrt_append)

lemma misses_left:
  assumes "misses c (FL col a ds r # k) l res" "c a < 0" "\<And>g. g \<in> set (groups r) \<Longrightarrow> c (hd g) < 0"
  shows "misses c k (Nd l col a ds r) res"
proof -
  from assms(1) obtain k' cr B A where "res = Some (None, top_ptr k', cr)"
    "plug k (Nd l col a ds r) = plug k' Lf" "hole_side k' cr" "ctx_before k' = ctx_before k @ B"
    "ctx_after k' = A @ (a # ds) # groups r @ ctx_after k" "groups l = B @ A"
    "\<forall>b \<in> set B. 0 < c (hd b)" "\<forall>a \<in> set A. c (hd a) < 0"
    by (auto simp: misses_def)
  with assms(2,3) show ?thesis unfolding misses_def
    by (intro exI [of _ k'] exI [of _ cr] exI [of _ B] exI [of _ "A @ (a # ds) # groups r"]) auto
qed

lemma misses_right:
  assumes "misses c (FR l col a ds # k) r res" "0 < c a" "\<And>g. g \<in> set (groups l) \<Longrightarrow> 0 < c (hd g)"
  shows "misses c k (Nd l col a ds r) res"
proof -
  from assms(1) obtain k' cr B A where "res = Some (None, top_ptr k', cr)"
    "plug k (Nd l col a ds r) = plug k' Lf" "hole_side k' cr"
    "ctx_before k' = (ctx_before k @ groups l @ [a # ds]) @ B" "ctx_after k' = A @ ctx_after k"
    "groups r = B @ A" "\<forall>b \<in> set B. 0 < c (hd b)" "\<forall>a \<in> set A. c (hd a) < 0"
    by (auto simp: misses_def)
  with assms(2,3) show ?thesis unfolding misses_def
    by (intro exI [of _ k'] exI [of _ cr] exI [of _ "groups l @ (a # ds) # B"] exI [of _ A]) auto
qed

lemma insert_search_spec:
  assumes "repr m (plug k t)" and "\<And>a. a \<in> set (heads t) \<Longrightarrow> cmp a = Some (c a)"
    and "cut c (heads t)" and "par = top_ptr k" and "hole_side k cr"
  shows "hits c k t (insert_search cmp m (root_ptr t) par cr) \<or>
         misses c k t (insert_search cmp m (root_ptr t) par cr)"
  using assms
proof (induction t arbitrary: k par cr)
  case Lf
  then have "insert_search cmp m (root_ptr Lf) par cr = Some (None, top_ptr k, cr)"
    by (subst insert_search.simps) simp
  with Lf show ?case by (auto simp: misses_def intro!: exI [of _ k] exI [of _ "[] :: addr list list"])
next
  case (Nd l col a ds r)
  note reads = focus_reads [OF Nd.prems(1)] and split = cut_split [OF Nd.prems(3)]
  have ca: "cmp a = Some (c a)" using Nd.prems(2) by simp
  consider "c a = 0" | "c a < 0" | "0 < c a" by linarith
  then show ?case
  proof cases
    case 1
    with ca have "insert_search cmp m (Some a) par cr = Some (Some a, Some a, 0)"
      by (subst insert_search.simps) simp
    with 1 have "hits c k (Nd l col a ds r) (insert_search cmp m (Some a) par cr)"
      unfolding hits_def by blast
    then show ?thesis by simp
  next
    case 2
    then have eq: "insert_search cmp m (Some a) par cr = insert_search cmp m (root_ptr l) (Some a) (c a)"
      using ca reads by (subst insert_search.simps) simp
    from Nd.IH(1) [of "FL col a ds r # k" "Some a" "c a"] Nd.prems 2 split(1)
    have "hits c (FL col a ds r # k) l (insert_search cmp m (root_ptr l) (Some a) (c a)) \<or>
      misses c (FL col a ds r # k) l (insert_search cmp m (root_ptr l) (Some a) (c a))" by simp
    with misses_left [of c col a ds r k l] 2 split(3) show ?thesis
      unfolding root_ptr.simps eq by (auto simp: hits_def)
  next
    case 3
    then have eq: "insert_search cmp m (Some a) par cr = insert_search cmp m (root_ptr r) (Some a) (c a)"
      using ca reads by (subst insert_search.simps) simp
    from Nd.IH(2) [of "FR l col a ds # k" "Some a" "c a"] Nd.prems 3 split(2)
    have "hits c (FR l col a ds # k) r (insert_search cmp m (root_ptr r) (Some a) (c a)) \<or>
      misses c (FR l col a ds # k) r (insert_search cmp m (root_ptr r) (Some a) (c a))" by simp
    with misses_right [of c l col a ds k r] 3 split(4) show ?thesis
      unfolding root_ptr.simps eq by (auto simp: hits_def)
  qed
qed

section \<open>Insertion\<close>

text \<open>
  What an insertion makes of the rows in order: a row that compares equal to a node goes right
  behind it, any other row becomes a node between the smaller and the larger ones.
\<close>

definition inserted :: "(addr \<Rightarrow> int) \<Rightarrow> addr \<Rightarrow> addr list list \<Rightarrow> addr list list \<Rightarrow> ptr \<Rightarrow> bool" where
  "inserted c e gs gs' res \<longleftrightarrow>
     (\<exists>B a ds A. res = Some a \<and> c a = 0 \<and> gs = B @ (a # ds) # A \<and> gs' = B @ (a # e # ds) # A) \<or>
     (\<exists>B A. res = None \<and> gs = B @ A \<and> gs' = B @ [e] # A \<and>
        (\<forall>b \<in> set B. 0 < c (hd b)) \<and> (\<forall>a \<in> set A. c (hd a) < 0))"

lemma rb_tree_relabel:
  assumes "rb_tree (plug k (Nd l col a ds r))"
  shows "rb_tree (plug k (Nd l col a' ds' r))"
proof -
  obtain n where "rbi n (Nd l col a ds r)" "ctxi n (rcol (Nd l col a ds r)) k"
    by (rule plug_rb_tree [OF assms])
  then have "rbi n (Nd l col a' ds' r)" "ctxi n (rcol (Nd l col a' ds' r)) k" by (cases col; cases n; auto)+
  then show ?thesis by (rule rb_tree_plug)
qed

lemmas rb_tree_chain = rb_tree_relabel

lemma attach_behind_repr:
  assumes rep: "repr m (plug k (Nd l col a ds r))" and e: "e \<notin> set (addrs (plug k (Nd l col a ds r)))"
    and n: "rbh m e = Some x"
  obtains m' where "attach_behind m (Some a) (Some e) = Some m'" "repr m' (plug k (Nd l col a (e # ds) r))"
    "unchanged (insert e (set (addrs (plug k (Nd l col a ds r))))) m m'"
proof -
  have "\<exists>m'. attach_behind m (Some a) (Some e) = Some m' \<and> repr m' (plug k (Nd l col a (e # ds) r)) \<and>
    unchanged (insert e (set (addrs (plug k (Nd l col a ds r))))) m m'"
    using rep e n
    by (cases ds)
      (simp_all add: attach_behind_def repr_plug access_defs zero_node_def unchanged_def set_addrs_plug)
  with that show thesis by blast
qed

lemma attach_leaf_repr:
  assumes rep: "repr m (plug k Lf)" and e: "e \<notin> set (addrs (plug k Lf))" and n: "rbh m e = Some zero_node"
    and side: "hole_side k cr"
  obtains m' where "attach_leaf m (top_ptr k) cr (Some e) = Some m'"
    "repr m' (plug k (Nd Lf RED e [] Lf))" "unchanged (insert e (set (addrs (plug k Lf)))) m m'"
proof -
  have "\<exists>m'. attach_leaf m (top_ptr k) cr (Some e) = Some m' \<and>
     repr m' (plug k (Nd Lf RED e [] Lf)) \<and> unchanged (insert e (set (addrs (plug k Lf)))) m m'"
    using rep e n side
    by (cases k rule: top_ptr.cases)
      (simp_all add: attach_leaf_def repr_plug repr_Nd repr_Lf access_defs SET_def zero_node_def
        unchanged_def set_addrs_plug)
  with that show thesis by blast
qed

lemma INSERT_spec:
  assumes rep: "repr m t" and rb: "rb_tree t" and e: "e \<notin> set (addrs t)" and n: "rbh m e = Some zero_node"
    and cmp: "\<And>a. a \<in> set (heads t) \<Longrightarrow> cmp a = Some (c a)" and cut: "cut c (heads t)"
  obtains m' res t' where "INSERT cmp m (Some e) = Some (m', res)" "repr m' t'" "rb_tree t'"
    "inserted c e (groups t) (groups t') res" "unchanged (insert e (set (addrs t))) m m'"
proof -
  let ?s = "insert_search cmp m (root_ptr t) None 0"
  have root: "rbroot m = root_ptr t" using rep by (simp add: repr_def)
  from insert_search_spec [of m "[]" t cmp c None 0] rep cmp cut
  consider "hits c [] t ?s" | "misses c [] t ?s" by auto
  then show thesis
  proof cases
    case 1
    then obtain k l col a ds r where s: "?s = Some (Some a, Some a, 0)" and t: "t = plug k (Nd l col a ds r)"
      and ca: "c a = 0" by (auto simp: hits_def)
    obtain m' where m': "attach_behind m (Some a) (Some e) = Some m'"
      "repr m' (plug k (Nd l col a (e # ds) r))" "unchanged (insert e (set (addrs t))) m m'"
      by (rule attach_behind_repr [of m k l col a ds r e]) (use rep e n t in auto)
    show thesis
    proof (rule that)
      show "INSERT cmp m (Some e) = Some (m', Some a)" using s m'(1) root by (simp add: INSERT_def)
      show "rb_tree (plug k (Nd l col a (e # ds) r))" using rb t by (auto intro: rb_tree_chain)
      show "inserted c e (groups t) (groups (plug k (Nd l col a (e # ds) r))) (Some a)"
        unfolding inserted_def using ca t
        by (auto simp: groups_plug intro!: exI [of _ "ctx_before k @ groups l"])
    qed (use m' in auto)
  next
    case 2
    then obtain k cr B A where s: "?s = Some (None, top_ptr k, cr)" and t: "t = plug k Lf"
      and side: "hole_side k cr" and BA: "ctx_before k = B" "ctx_after k = A"
        "\<forall>b \<in> set B. 0 < c (hd b)" "\<forall>a \<in> set A. c (hd a) < 0"
      by (auto simp: misses_def)
    obtain m1 where m1: "attach_leaf m (top_ptr k) cr (Some e) = Some m1"
      "repr m1 (plug k (Nd Lf RED e [] Lf))" "unchanged (insert e (set (addrs t))) m m1"
      by (rule attach_leaf_repr [of m k e cr]) (use rep e n t side in auto)
    obtain n where "rbi n Lf" "ctxi n (rcol Lf) k" by (rule plug_rb_tree [OF rb [unfolded t]])
    then have "ctxi 0 BLACK k" by simp
    obtain m2 t2 where m2: "INSERT_COLOR m1 (Some e) = Some m2"
      "reshapes m1 (plug k (Nd Lf RED e [] Lf)) m2 t2" "rb_tree t2"
      by (rule INSERT_COLOR_correct [OF m1(2), of 0]) (use \<open>ctxi 0 BLACK k\<close> in simp_all)
    show thesis
    proof (rule that)
      show "INSERT cmp m (Some e) = Some (m2, None)"
        using s m1(1) m2(1) root by (simp add: INSERT_def)
      show "repr m2 t2" "rb_tree t2" using m2 by (auto simp: reshapes_def)
      show "inserted c e (groups t) (groups t2) None"
        using m2(2) BA t by (auto simp: inserted_def reshapes_def groups_plug)
      have "unchanged (insert e (set (addrs t))) m1 m2"
        using m2(2) t by (auto simp: reshapes_def set_addrs_plug)
      with m1(3) show "unchanged (insert e (set (addrs t))) m m2" by (rule unchanged_trans)
    qed
  qed
qed

end
