(* ===== verification/Dm_Rbtree_Remove.thy ===== *)
theory Dm_Rbtree_Remove
  imports Dm_Rbtree_Insert
begin

text \<open>
  The removal of a row from an index: a row of a list leaves its list, a node with a list
  passes its place on, and a lone node leaves the tree, which is recoloured.
\<close>

section \<open>The recolouring loop\<close>

text \<open>
  The tree \<open>t\<close> in the focus is one black node short of what its place needs, or red at its
  root and then right once that root is black.
\<close>

definition short :: "nat \<Rightarrow> rbt \<Rightarrow> bool" where
  "short n t \<longleftrightarrow> (rcol t = BLACK \<and> rbi n t) \<or> (rcol t = RED \<and> rbi (Suc n) (paint_black t))"

definition rc_correct :: "rbmem \<Rightarrow> frame list \<Rightarrow> rbt \<Rightarrow> bool" where
  "rc_correct m k t \<longleftrightarrow> (\<exists>m' t'. REMOVE_COLOR m (top_ptr k) (root_ptr t) = Some m' \<and>
     reshapes m (plug k t) m' t' \<and> rb_tree t')"

lemma is_black_focus:
  assumes "repr m (plug k t)"
  shows "is_black m (root_ptr t) = Some (rcol t = BLACK)"
  using assms by (cases t) (auto simp: is_black_def dest: focus_reads)

lemma ctx_root_in: "k \<noteq> [] \<Longrightarrow> \<exists>a \<in> set (caddrs k). ctx_root k p = Some a"
proof (induction k p rule: ctx_root.induct)
  case (2 c a ds r k p)
  then show ?case by (cases "k = []") auto
next
  case (3 l c a ds k p)
  then show ?case by (cases "k = []") auto
qed simp

lemma rc_stop:
  assumes rep: "repr m (plug k t)" and t: "short n t" "ctxi (Suc n) BLACK k"
    and stop: "rcol t = RED \<or> k = []"
  shows "rc_correct m k t"
proof -
  have "rbroot m = root_ptr t" if "k = []" using rep that by (simp add: repr_def)
  with is_black_focus [OF rep] stop have loop: "remove_color_loop m (top_ptr k) (root_ptr t) = Some (m, root_ptr t)"
    by (subst remove_color_loop.simps) auto
  show ?thesis
  proof (cases t)
    case Lf
    with stop have "k = []" by simp
    with loop Lf t show ?thesis
      using reshapes_refl [OF rep] by (auto simp: rc_correct_def REMOVE_COLOR_def rb_tree_def short_def)
  next
    case (Nd l c a ds r)
    obtain m' where m': "set_COLOR m (Some a) BLACK = Some m'"
      "reshapes m (plug k t) m' (plug k (Nd l BLACK a ds r))"
      by (rule set_COLOR_reshapes [of m "plug k t" k l c a ds r BLACK]) (use rep Nd in auto)
    have "rb_tree (plug k (Nd l BLACK a ds r))"
    proof (cases "rcol t = RED")
      case True
      show ?thesis by (rule rb_tree_plug [of "Suc n"]) (use t True Nd in \<open>auto simp: short_def\<close>)
    next
      case False
      with stop t Nd show ?thesis by (auto simp: short_def rb_tree_def)
    qed
    with loop m' Nd show ?thesis by (auto simp: rc_correct_def REMOVE_COLOR_def)
  qed
qed

text \<open>A pass that leaves the loop: the root is black already.\<close>

lemma rc_break:
  assumes rep: "repr m (plug (f # k) t)" and t: "rcol t = BLACK"
    and step: "remove_color_step m (Some (frame_addr f)) (root_ptr t) = Some (m1, p, rbroot m1, True)"
    and res: "reshapes m (plug (f # k) t) m1 t1" and rb: "rb_tree t1"
  shows "rc_correct m (f # k) t"
proof -
  have "root_ptr t \<noteq> rbroot m"
    using rep ctx_root_in [of "f # k" "root_ptr t"] root_ptr_in [of t] by (fastforce simp: repr_plug)
  with step is_black_focus [OF rep] t
  have loop: "remove_color_loop m (Some (frame_addr f)) (root_ptr t) = Some (m1, rbroot m1)"
    by (subst remove_color_loop.simps) simp
  from res have "groups t1 = groups (plug (f # k) t)" by (simp add: reshapes_def)
  then have "groups t1 \<noteq> []" by (cases f) (auto simp: groups_plug)
  then obtain l c a ds r where t1: "t1 = Nd l c a ds r" by (cases t1) auto
  with rb have "c = BLACK" by (simp add: rb_tree_def)
  from res t1 have r1: "repr m1 t1" "rbroot m1 = Some a" by (auto simp: reshapes_def repr_def)
  obtain m2 where "set_COLOR m1 (Some a) BLACK = Some m2" "reshapes m1 t1 m2 t1"
    by (rule set_COLOR_reshapes [OF r1(1), of "[]" l c a ds r BLACK]) (simp_all add: t1 \<open>c = BLACK\<close>)
  with loop r1 res rb show ?thesis
    by (auto simp: rc_correct_def REMOVE_COLOR_def top_ptr_Cons intro: reshapes_trans)
qed

lemma rc_climb:
  assumes rep: "repr m (plug (f # k) t)" and t: "rcol t = BLACK"
    and step: "remove_color_step m (Some (frame_addr f)) (root_ptr t) = Some (m1, top_ptr k1, root_ptr t1, False)"
    and res: "reshapes m (plug (f # k) t) m1 (plug k1 t1)" and rc: "rc_correct m1 k1 t1"
  shows "rc_correct m (f # k) t"
proof -
  have "root_ptr t \<noteq> rbroot m"
    using rep ctx_root_in [of "f # k" "root_ptr t"] root_ptr_in [of t] by (fastforce simp: repr_plug)
  with step is_black_focus [OF rep] t
  have "remove_color_loop m (Some (frame_addr f)) (root_ptr t) = remove_color_loop m1 (top_ptr k1) (root_ptr t1)"
    by (subst remove_color_loop.simps) simp
  then have "REMOVE_COLOR m (Some (frame_addr f)) (root_ptr t) = REMOVE_COLOR m1 (top_ptr k1) (root_ptr t1)"
    by (simp add: REMOVE_COLOR_def)
  with rc res show ?thesis
    unfolding rc_correct_def top_ptr_Cons by (metis reshapes_trans)
qed

section \<open>The passes\<close>

text \<open>Recolouring some node of the tree, found with its place.\<close>

lemma reshapes_repr: "reshapes m t m' t' \<Longrightarrow> repr m' t'"
  by (simp add: reshapes_def)

lemma rcl_black:
  assumes rep: "repr m (plug k (Nd t c p ps (Nd sl BLACK s ss sr)))" and b: "rcol sl = BLACK" "rcol sr = BLACK"
  obtains m' where "remove_color_left m (Some p) (Some s) = Some (m', top_ptr k, Some p, False)"
    "reshapes m (plug k (Nd t c p ps (Nd sl BLACK s ss sr))) m' (plug k (Nd t c p ps (Nd sl RED s ss sr)))"
proof -
  let ?T = "plug k (Nd t c p ps (Nd sl BLACK s ss sr))"
  have rs: "repr m (plug (FR t c p ps # k) (Nd sl BLACK s ss sr))" using rep by simp
  have rl: "repr m (plug (FL BLACK s ss sr # FR t c p ps # k) sl)" using rep by simp
  have rr: "repr m (plug (FR sl BLACK s ss # FR t c p ps # k) sr)" using rep by simp
  obtain m1 where m1: "set_COLOR m (Some s) RED = Some m1" "reshapes m ?T m1 (plug k (Nd t c p ps (Nd sl RED s ss sr)))"
    by (rule set_COLOR_reshapes [of m ?T "FR t c p ps # k" sl BLACK s ss sr RED]) (use rep in simp_all)
  show thesis
    by (rule that [OF _ m1(2)])
      (use focus_reads [OF rs] is_black_focus [OF rl] is_black_focus [OF rr] b m1(1)
         focus_reads [OF reshapes_repr [OF m1(2)]] in \<open>simp add: remove_color_left_def\<close>)
qed

lemma rcl_outer:
  assumes rep: "repr m (plug k (Nd t c p ps (Nd sl BLACK s ss (Nd a RED x xs b))))"
  obtains m' where "remove_color_left m (Some p) (Some s) = Some (m', Some p, rbroot m', True)"
    "reshapes m (plug k (Nd t c p ps (Nd sl BLACK s ss (Nd a RED x xs b))))
       m' (plug k (Nd (Nd t BLACK p ps sl) c s ss (Nd a BLACK x xs b)))"
proof -
  let ?T = "plug k (Nd t c p ps (Nd sl BLACK s ss (Nd a RED x xs b)))"
  let ?R = "Nd a RED x xs b"
  have rs: "repr m (plug (FR t c p ps # k) (Nd sl BLACK s ss ?R))" using rep by simp
  have rl: "repr m (plug (FL BLACK s ss ?R # FR t c p ps # k) sl)" using rep by simp
  have rr: "repr m (plug (FR sl BLACK s ss # FR t c p ps # k) ?R)" using rep by simp
  obtain m1 where m1: "set_COLOR m (Some s) c = Some m1" "reshapes m ?T m1 (plug k (Nd t c p ps (Nd sl c s ss ?R)))"
    by (rule set_COLOR_reshapes [of m ?T "FR t c p ps # k" sl BLACK s ss ?R c]) (use rep in simp_all)
  obtain m2 where m2: "set_COLOR m1 (Some p) BLACK = Some m2"
    "reshapes m1 (plug k (Nd t c p ps (Nd sl c s ss ?R))) m2 (plug k (Nd t BLACK p ps (Nd sl c s ss ?R)))"
    by (rule set_COLOR_reshapes [OF reshapes_repr [OF m1(2)] refl])
  have r2: "repr m2 (plug (FR t BLACK p ps # k) (Nd sl c s ss ?R))" using reshapes_repr [OF m2(2)] by simp
  obtain m3 where m3: "set_COLOR m2 (Some x) BLACK = Some m3"
    "reshapes m2 (plug k (Nd t BLACK p ps (Nd sl c s ss ?R)))
       m3 (plug k (Nd t BLACK p ps (Nd sl c s ss (Nd a BLACK x xs b))))"
    by (rule set_COLOR_reshapes [OF reshapes_repr [OF m2(2)], of "FR sl c s ss # FR t BLACK p ps # k" a RED x xs b BLACK])
      simp_all
  obtain m4 where m4: "ROTATE_LEFT m3 (Some p) = Some m4"
    "reshapes m3 (plug k (Nd t BLACK p ps (Nd sl c s ss (Nd a BLACK x xs b))))
       m4 (plug k (Nd (Nd t BLACK p ps sl) c s ss (Nd a BLACK x xs b)))"
    by (rule ROTATE_LEFT_reshapes [OF reshapes_repr [OF m3(2)] refl])
  have "remove_color_left m (Some p) (Some s) = Some (m4, Some p, rbroot m4, True)"
    using focus_reads [OF rep] focus_reads [OF rs] is_black_focus [OF rl] is_black_focus [OF rr]
      focus_reads [OF r2] m1(1) m2(1) m3(1) m4(1)
    by (simp add: remove_color_left_def)
  then show thesis
    by (rule that) (rule reshapes_trans [OF reshapes_trans [OF reshapes_trans [OF m1(2) m2(2)] m3(2)] m4(2)])
qed

lemma rcl_inner:
  assumes rep: "repr m (plug k (Nd t c p ps (Nd (Nd a RED x xs b) BLACK s ss sr)))" and sr: "rcol sr = BLACK"
  obtains m' where "remove_color_left m (Some p) (Some s) = Some (m', Some p, rbroot m', True)"
    "reshapes m (plug k (Nd t c p ps (Nd (Nd a RED x xs b) BLACK s ss sr)))
       m' (plug k (Nd (Nd t BLACK p ps a) c x xs (Nd b BLACK s ss sr)))"
proof -
  let ?T = "plug k (Nd t c p ps (Nd (Nd a RED x xs b) BLACK s ss sr))"
  let ?L = "Nd a RED x xs b" and ?B = "Nd a BLACK x xs b"
  have rs: "repr m (plug (FR t c p ps # k) (Nd ?L BLACK s ss sr))" using rep by simp
  have rl: "repr m (plug (FL BLACK s ss sr # FR t c p ps # k) ?L)" using rep by simp
  have rr: "repr m (plug (FR ?L BLACK s ss # FR t c p ps # k) sr)" using rep by simp
  obtain m1 where m1: "set_COLOR m (Some x) BLACK = Some m1" "reshapes m ?T m1 (plug k (Nd t c p ps (Nd ?B BLACK s ss sr)))"
    by (rule set_COLOR_reshapes [of m ?T "FL BLACK s ss sr # FR t c p ps # k" a RED x xs b BLACK]) (use rep in simp_all)
  obtain m2 where m2: "set_COLOR m1 (Some s) RED = Some m2"
    "reshapes m1 (plug k (Nd t c p ps (Nd ?B BLACK s ss sr))) m2 (plug k (Nd t c p ps (Nd ?B RED s ss sr)))"
    by (rule set_COLOR_reshapes [OF reshapes_repr [OF m1(2)], of "FR t c p ps # k" ?B BLACK s ss sr RED]) simp_all
  obtain m3 where m3: "ROTATE_RIGHT m2 (Some s) = Some m3"
    "reshapes m2 (plug k (Nd t c p ps (Nd ?B RED s ss sr))) m3 (plug k (Nd t c p ps (Nd a BLACK x xs (Nd b RED s ss sr))))"
    by (rule ROTATE_RIGHT_reshapes [OF reshapes_repr [OF m2(2)], of "FR t c p ps # k" a BLACK x xs b RED s ss sr]) simp_all
  obtain m4 where m4: "set_COLOR m3 (Some x) c = Some m4"
    "reshapes m3 (plug k (Nd t c p ps (Nd a BLACK x xs (Nd b RED s ss sr))))
       m4 (plug k (Nd t c p ps (Nd a c x xs (Nd b RED s ss sr))))"
    by (rule set_COLOR_reshapes [OF reshapes_repr [OF m3(2)], of "FR t c p ps # k" a BLACK x xs "Nd b RED s ss sr" c])
      simp_all
  obtain m5 where m5: "set_COLOR m4 (Some p) BLACK = Some m5"
    "reshapes m4 (plug k (Nd t c p ps (Nd a c x xs (Nd b RED s ss sr))))
       m5 (plug k (Nd t BLACK p ps (Nd a c x xs (Nd b RED s ss sr))))"
    by (rule set_COLOR_reshapes [OF reshapes_repr [OF m4(2)] refl])
  have r5: "repr m5 (plug (FR t BLACK p ps # k) (Nd a c x xs (Nd b RED s ss sr)))"
    using reshapes_repr [OF m5(2)] by simp
  obtain m6 where m6: "set_COLOR m5 (Some s) BLACK = Some m6"
    "reshapes m5 (plug k (Nd t BLACK p ps (Nd a c x xs (Nd b RED s ss sr))))
       m6 (plug k (Nd t BLACK p ps (Nd a c x xs (Nd b BLACK s ss sr))))"
    by (rule set_COLOR_reshapes [OF reshapes_repr [OF m5(2)], of "FR a c x xs # FR t BLACK p ps # k" b RED s ss sr BLACK])
      simp_all
  obtain m7 where m7: "ROTATE_LEFT m6 (Some p) = Some m7"
    "reshapes m6 (plug k (Nd t BLACK p ps (Nd a c x xs (Nd b BLACK s ss sr))))
       m7 (plug k (Nd (Nd t BLACK p ps a) c x xs (Nd b BLACK s ss sr)))"
    by (rule ROTATE_LEFT_reshapes [OF reshapes_repr [OF m6(2)] refl])
  have "remove_color_left m (Some p) (Some s) = Some (m7, Some p, rbroot m7, True)"
    using focus_reads [OF rs] is_black_focus [OF rl] is_black_focus [OF rr] sr
      focus_reads [OF reshapes_repr [OF m3(2)]] focus_reads [OF r5] m1(1) m2(1) m3(1) m4(1) m5(1) m6(1) m7(1)
    by (simp add: remove_color_left_def)
  then show thesis
    by (rule that)
      (rule reshapes_trans [OF reshapes_trans [OF reshapes_trans [OF reshapes_trans [OF reshapes_trans
         [OF reshapes_trans [OF m1(2) m2(2)] m3(2)] m4(2)] m5(2)] m6(2)] m7(2)])
qed

lemma rcr_black:
  assumes rep: "repr m (plug k (Nd (Nd sl BLACK s ss sr) c p ps t))" and a: "rcol sr = BLACK" "rcol sl = BLACK"
  obtains m' where "remove_color_right m (Some p) (Some s) = Some (m', top_ptr k, Some p, False)"
    "reshapes m (plug k (Nd (Nd sl BLACK s ss sr) c p ps t)) m' (plug k (Nd (Nd sl RED s ss sr) c p ps t))"
proof -
  let ?T = "plug k (Nd (Nd sl BLACK s ss sr) c p ps t)"
  have rs: "repr m (plug (FL c p ps t # k) (Nd sl BLACK s ss sr))" using rep by simp
  have rl: "repr m (plug (FR sl BLACK s ss # FL c p ps t # k) sr)" using rep by simp
  have rr: "repr m (plug (FL BLACK s ss sr # FL c p ps t # k) sl)" using rep by simp
  obtain m1 where m1: "set_COLOR m (Some s) RED = Some m1" "reshapes m ?T m1 (plug k (Nd (Nd sl RED s ss sr) c p ps t))"
    by (rule set_COLOR_reshapes [of m ?T "FL c p ps t # k" sl BLACK s ss sr RED]) (use rep in simp_all)
  show thesis
    by (rule that [OF _ m1(2)])
      (use focus_reads [OF rs] is_black_focus [OF rl] is_black_focus [OF rr] a m1(1)
         focus_reads [OF reshapes_repr [OF m1(2)]] in \<open>simp add: remove_color_right_def\<close>)
qed

lemma rcr_outer:
  assumes rep: "repr m (plug k (Nd (Nd (Nd a RED x xs b) BLACK s ss sr) c p ps t))"
  obtains m' where "remove_color_right m (Some p) (Some s) = Some (m', Some p, rbroot m', True)"
    "reshapes m (plug k (Nd (Nd (Nd a RED x xs b) BLACK s ss sr) c p ps t))
       m' (plug k (Nd (Nd a BLACK x xs b) c s ss (Nd sr BLACK p ps t)))"
proof -
  let ?T = "plug k (Nd (Nd (Nd a RED x xs b) BLACK s ss sr) c p ps t)"
  let ?R = "Nd a RED x xs b"
  have rs: "repr m (plug (FL c p ps t # k) (Nd ?R BLACK s ss sr))" using rep by simp
  have rl: "repr m (plug (FR ?R BLACK s ss # FL c p ps t # k) sr)" using rep by simp
  have rr: "repr m (plug (FL BLACK s ss sr # FL c p ps t # k) ?R)" using rep by simp
  obtain m1 where m1: "set_COLOR m (Some s) c = Some m1" "reshapes m ?T m1 (plug k (Nd (Nd ?R c s ss sr) c p ps t))"
    by (rule set_COLOR_reshapes [of m ?T "FL c p ps t # k" ?R BLACK s ss sr c]) (use rep in simp_all)
  obtain m2 where m2: "set_COLOR m1 (Some p) BLACK = Some m2"
    "reshapes m1 (plug k (Nd (Nd ?R c s ss sr) c p ps t)) m2 (plug k (Nd (Nd ?R c s ss sr) BLACK p ps t))"
    by (rule set_COLOR_reshapes [OF reshapes_repr [OF m1(2)] refl])
  have r2: "repr m2 (plug (FL BLACK p ps t # k) (Nd ?R c s ss sr))" using reshapes_repr [OF m2(2)] by simp
  obtain m3 where m3: "set_COLOR m2 (Some x) BLACK = Some m3"
    "reshapes m2 (plug k (Nd (Nd ?R c s ss sr) BLACK p ps t))
       m3 (plug k (Nd (Nd (Nd a BLACK x xs b) c s ss sr) BLACK p ps t))"
    by (rule set_COLOR_reshapes [OF reshapes_repr [OF m2(2)], of "FL c s ss sr # FL BLACK p ps t # k" a RED x xs b BLACK])
      simp_all
  obtain m4 where m4: "ROTATE_RIGHT m3 (Some p) = Some m4"
    "reshapes m3 (plug k (Nd (Nd (Nd a BLACK x xs b) c s ss sr) BLACK p ps t))
       m4 (plug k (Nd (Nd a BLACK x xs b) c s ss (Nd sr BLACK p ps t)))"
    by (rule ROTATE_RIGHT_reshapes [OF reshapes_repr [OF m3(2)] refl])
  have "remove_color_right m (Some p) (Some s) = Some (m4, Some p, rbroot m4, True)"
    using focus_reads [OF rep] focus_reads [OF rs] is_black_focus [OF rl] is_black_focus [OF rr]
      focus_reads [OF r2] m1(1) m2(1) m3(1) m4(1)
    by (simp add: remove_color_right_def)
  then show thesis
    by (rule that) (rule reshapes_trans [OF reshapes_trans [OF reshapes_trans [OF m1(2) m2(2)] m3(2)] m4(2)])
qed

lemma rcr_inner:
  assumes rep: "repr m (plug k (Nd (Nd sl BLACK s ss (Nd a RED x xs b)) c p ps t))" and sl: "rcol sl = BLACK"
  obtains m' where "remove_color_right m (Some p) (Some s) = Some (m', Some p, rbroot m', True)"
    "reshapes m (plug k (Nd (Nd sl BLACK s ss (Nd a RED x xs b)) c p ps t))
       m' (plug k (Nd (Nd sl BLACK s ss a) c x xs (Nd b BLACK p ps t)))"
proof -
  let ?T = "plug k (Nd (Nd sl BLACK s ss (Nd a RED x xs b)) c p ps t)"
  let ?L = "Nd a RED x xs b" and ?B = "Nd a BLACK x xs b"
  have rs: "repr m (plug (FL c p ps t # k) (Nd sl BLACK s ss ?L))" using rep by simp
  have rl: "repr m (plug (FR sl BLACK s ss # FL c p ps t # k) ?L)" using rep by simp
  have rr: "repr m (plug (FL BLACK s ss ?L # FL c p ps t # k) sl)" using rep by simp
  obtain m1 where m1: "set_COLOR m (Some x) BLACK = Some m1" "reshapes m ?T m1 (plug k (Nd (Nd sl BLACK s ss ?B) c p ps t))"
    by (rule set_COLOR_reshapes [of m ?T "FR sl BLACK s ss # FL c p ps t # k" a RED x xs b BLACK]) (use rep in simp_all)
  obtain m2 where m2: "set_COLOR m1 (Some s) RED = Some m2"
    "reshapes m1 (plug k (Nd (Nd sl BLACK s ss ?B) c p ps t)) m2 (plug k (Nd (Nd sl RED s ss ?B) c p ps t))"
    by (rule set_COLOR_reshapes [OF reshapes_repr [OF m1(2)], of "FL c p ps t # k" sl BLACK s ss ?B RED]) simp_all
  obtain m3 where m3: "ROTATE_LEFT m2 (Some s) = Some m3"
    "reshapes m2 (plug k (Nd (Nd sl RED s ss ?B) c p ps t)) m3 (plug k (Nd (Nd (Nd sl RED s ss a) BLACK x xs b) c p ps t))"
    by (rule ROTATE_LEFT_reshapes [OF reshapes_repr [OF m2(2)], of "FL c p ps t # k" sl RED s ss a BLACK x xs b]) simp_all
  obtain m4 where m4: "set_COLOR m3 (Some x) c = Some m4"
    "reshapes m3 (plug k (Nd (Nd (Nd sl RED s ss a) BLACK x xs b) c p ps t))
       m4 (plug k (Nd (Nd (Nd sl RED s ss a) c x xs b) c p ps t))"
    by (rule set_COLOR_reshapes [OF reshapes_repr [OF m3(2)], of "FL c p ps t # k" "Nd sl RED s ss a" BLACK x xs b c])
      simp_all
  obtain m5 where m5: "set_COLOR m4 (Some p) BLACK = Some m5"
    "reshapes m4 (plug k (Nd (Nd (Nd sl RED s ss a) c x xs b) c p ps t))
       m5 (plug k (Nd (Nd (Nd sl RED s ss a) c x xs b) BLACK p ps t))"
    by (rule set_COLOR_reshapes [OF reshapes_repr [OF m4(2)] refl])
  have r5: "repr m5 (plug (FL BLACK p ps t # k) (Nd (Nd sl RED s ss a) c x xs b))"
    using reshapes_repr [OF m5(2)] by simp
  obtain m6 where m6: "set_COLOR m5 (Some s) BLACK = Some m6"
    "reshapes m5 (plug k (Nd (Nd (Nd sl RED s ss a) c x xs b) BLACK p ps t))
       m6 (plug k (Nd (Nd (Nd sl BLACK s ss a) c x xs b) BLACK p ps t))"
    by (rule set_COLOR_reshapes [OF reshapes_repr [OF m5(2)], of "FL c x xs b # FL BLACK p ps t # k" sl RED s ss a BLACK])
      simp_all
  obtain m7 where m7: "ROTATE_RIGHT m6 (Some p) = Some m7"
    "reshapes m6 (plug k (Nd (Nd (Nd sl BLACK s ss a) c x xs b) BLACK p ps t))
       m7 (plug k (Nd (Nd sl BLACK s ss a) c x xs (Nd b BLACK p ps t)))"
    by (rule ROTATE_RIGHT_reshapes [OF reshapes_repr [OF m6(2)] refl])
  have "remove_color_right m (Some p) (Some s) = Some (m7, Some p, rbroot m7, True)"
    using focus_reads [OF rs] is_black_focus [OF rl] is_black_focus [OF rr] sl
      focus_reads [OF reshapes_repr [OF m3(2)]] focus_reads [OF r5] m1(1) m2(1) m3(1) m4(1) m5(1) m6(1) m7(1)
    by (simp add: remove_color_right_def)
  then show thesis
    by (rule that)
      (rule reshapes_trans [OF reshapes_trans [OF reshapes_trans [OF reshapes_trans [OF reshapes_trans
         [OF reshapes_trans [OF m1(2) m2(2)] m3(2)] m4(2)] m5(2)] m6(2)] m7(2)])
qed


text \<open>
  The outcome of the part after a red sibling: the loop goes on one level higher, at a red node
  (where it will stop) or one black node short again, or it is left with a red-black tree.
\<close>

definition rc_out :: "rbmem \<Rightarrow> rbt \<Rightarrow> frame list \<Rightarrow> color \<Rightarrow> addr \<Rightarrow> nat \<Rightarrow> (rbmem \<times> ptr \<times> ptr \<times> bool) option \<Rightarrow> bool" where
  "rc_out m T k c p n res \<longleftrightarrow>
     (\<exists>m' t'. res = Some (m', Some p, rbroot m', True) \<and> reshapes m T m' t' \<and> rb_tree t') \<or>
     (\<exists>m' t'. res = Some (m', top_ptr k, root_ptr t', False) \<and> reshapes m T m' (plug k t') \<and>
        (if c = RED then rcol t' = RED \<and> short n t' \<and> ctxi (Suc n) BLACK k
         else short (Suc n) t' \<and> ctxi (Suc (Suc n)) BLACK k))"

lemma rb_cases:
  assumes "rbi n t"
  shows "rcol t = BLACK \<or> (\<exists>l a ds r. t = Nd l RED a ds r)"
  using assms by (cases "(n, t)" rule: rbi.cases) auto

lemma rcl_out:
  assumes rep: "repr m (plug k (Nd t c p ps s))" and s: "rcol s = BLACK"
    and t: "rcol t = BLACK" "rbi n t" and k: "ctxi (Suc n) BLACK (FL c p ps s # k)"
  shows "rc_out m (plug k (Nd t c p ps s)) k c p n (remove_color_left m (Some p) (root_ptr s))"
proof -
  have c: "c = RED \<or> c = BLACK" using k by (cases c) auto
  from k c have "rbi (Suc n) s" by auto
  with s obtain sl a ss sr where sn: "s = Nd sl BLACK a ss sr" "rbi n sl" "rbi n sr"
    by (cases s) auto
  from rb_cases [OF sn(2)] rb_cases [OF sn(3)]
  consider "rcol sl = BLACK" "rcol sr = BLACK" | x y z w where "sr = Nd x RED y z w"
    | x y z w where "rcol sr = BLACK" "sl = Nd x RED y z w" by blast
  then show ?thesis
  proof cases
    case 1
    obtain m' where m': "remove_color_left m (Some p) (Some a) = Some (m', top_ptr k, Some p, False)"
      "reshapes m (plug k (Nd t c p ps s)) m' (plug k (Nd t c p ps (Nd sl RED a ss sr)))"
      by (rule rcl_black [of m k t c p ps sl a ss sr]) (use rep sn 1 in auto)
    have "if c = RED then rcol (Nd t c p ps (Nd sl RED a ss sr)) = RED \<and> short n (Nd t c p ps (Nd sl RED a ss sr)) \<and>
        ctxi (Suc n) BLACK k
      else short (Suc n) (Nd t c p ps (Nd sl RED a ss sr)) \<and> ctxi (Suc (Suc n)) BLACK k"
      using c k t sn 1 by (auto simp: short_def intro: ctxi_RED_BLACK)
    with m' sn show ?thesis unfolding rc_out_def
      by (intro disjI2 exI [of _ m'] exI [of _ "Nd t c p ps (Nd sl RED a ss sr)"]) simp
  next
    case (2 x y z w)
    obtain m' where m': "remove_color_left m (Some p) (Some a) = Some (m', Some p, rbroot m', True)"
      "reshapes m (plug k (Nd t c p ps s)) m' (plug k (Nd (Nd t BLACK p ps sl) c a ss (Nd x BLACK y z w)))"
      by (rule rcl_outer [of m k t c p ps sl a ss x y z w]) (use rep sn 2 in auto)
    have "rb_tree (plug k (Nd (Nd t BLACK p ps sl) c a ss (Nd x BLACK y z w)))"
      by (rule rb_tree_plug [of "if c = RED then Suc n else Suc (Suc n)"]) (use c k t sn 2 in auto)
    with m' sn show ?thesis unfolding rc_out_def by auto
  next
    case (3 x y z w)
    obtain m' where m': "remove_color_left m (Some p) (Some a) = Some (m', Some p, rbroot m', True)"
      "reshapes m (plug k (Nd t c p ps s)) m' (plug k (Nd (Nd t BLACK p ps x) c y z (Nd w BLACK a ss sr)))"
      by (rule rcl_inner [of m k t c p ps x y z w a ss sr]) (use rep sn 3 in auto)
    have "rb_tree (plug k (Nd (Nd t BLACK p ps x) c y z (Nd w BLACK a ss sr)))"
      by (rule rb_tree_plug [of "if c = RED then Suc n else Suc (Suc n)"]) (use c k t sn 3 in auto)
    with m' sn show ?thesis unfolding rc_out_def by auto
  qed
qed

lemma rc_left:
  assumes rep: "repr m (plug (FL c p ps s # k) t)" and t: "rcol t = BLACK" "rbi n t"
    and k: "ctxi (Suc n) BLACK (FL c p ps s # k)"
    and IH: "\<And>m t. repr m (plug k t) \<Longrightarrow> short (Suc n) t \<Longrightarrow> ctxi (Suc (Suc n)) BLACK k \<Longrightarrow> rc_correct m k t"
  shows "rc_correct m (FL c p ps s # k) t"
proof (cases "rcol s = BLACK")
  case True
  have r: "repr m (plug k (Nd t c p ps s))" using rep by simp
  have rs: "repr m (plug (FR t c p ps # k) s)" using rep by simp
  have "rbi (Suc n) s" using k by (cases c) auto
  with True obtain a where a: "root_ptr s = Some a" by (cases s) auto
  have "COLOR m (root_ptr s) = Some BLACK" using is_black_focus [OF rs] True a
    by (cases "COLOR m (Some a)") (auto simp: is_black_def)
  with focus_reads [OF r] have step: "remove_color_step m (Some p) (root_ptr t) = remove_color_left m (Some p) (root_ptr s)"
    by (simp add: remove_color_step_def)
  from rcl_out [OF r True t k] consider
    m' t' where "remove_color_left m (Some p) (root_ptr s) = Some (m', Some p, rbroot m', True)"
      "reshapes m (plug k (Nd t c p ps s)) m' t'" "rb_tree t'"
    | m' t' where "remove_color_left m (Some p) (root_ptr s) = Some (m', top_ptr k, root_ptr t', False)"
      "reshapes m (plug k (Nd t c p ps s)) m' (plug k t')"
      "if c = RED then rcol t' = RED \<and> short n t' \<and> ctxi (Suc n) BLACK k
       else short (Suc n) t' \<and> ctxi (Suc (Suc n)) BLACK k"
    by (auto simp: rc_out_def)
  then show ?thesis
  proof cases
    case 1
    then show ?thesis using rc_break [OF rep t(1)] step by simp
  next
    case 2
    then have "rc_correct m' k t'"
      using rc_stop [of m' k t' n] IH [of m' t'] by (auto dest: reshapes_repr split: if_splits)
    with 2 show ?thesis using rc_climb [OF rep t(1)] step by simp
  qed
next
  case False
  have "\<exists>l a ds r. s = Nd l RED a ds r" using k False rb_cases [of "Suc n" s] by (cases c) auto
  then obtain sl a ss sr where s: "s = Nd sl RED a ss sr" by blast
  from k s have c: "c = BLACK" by (cases c) auto
  have inv: "rbi (Suc n) sl" "rbi (Suc n) sr" "rcol sl = BLACK" "rcol sr = BLACK" "ctxi (Suc (Suc n)) BLACK k"
    using k s c by auto
  let ?T = "plug k (Nd t BLACK p ps (Nd sl RED a ss sr))"
  have r: "repr m ?T" using rep s c by simp
  have rs: "repr m (plug (FR t BLACK p ps # k) (Nd sl RED a ss sr))" using rep s c by simp
  obtain m1 where m1: "SET_BLACKRED m (Some a) (Some p) = Some m1"
    "reshapes m ?T m1 (plug k (Nd t RED p ps (Nd sl BLACK a ss sr)))"
    by (rule SET_BLACKRED_reshapes [OF r, of "FR t BLACK p ps # k" sl RED a ss sr k t BLACK p ps "Nd sl BLACK a ss sr"])
      simp_all
  obtain m2 where m2: "ROTATE_LEFT m1 (Some p) = Some m2"
    "reshapes m1 (plug k (Nd t RED p ps (Nd sl BLACK a ss sr))) m2 (plug k (Nd (Nd t RED p ps sl) BLACK a ss sr))"
    by (rule ROTATE_LEFT_reshapes [OF reshapes_repr [OF m1(2)] refl])
  let ?k = "FL BLACK a ss sr # k"
  have r2: "repr m2 (plug ?k (Nd t RED p ps sl))" using reshapes_repr [OF m2(2)] by simp
  have k2: "ctxi (Suc n) BLACK (FL RED p ps sl # ?k)" using inv by simp
  have step: "remove_color_step m (Some p) (root_ptr t) = remove_color_left m2 (Some p) (root_ptr sl)"
    using focus_reads [OF r] focus_reads [OF rs] m1(1) m2(1) focus_reads [OF r2] by (simp add: remove_color_step_def)
  have res: "reshapes m (plug (FL c p ps s # k) t) m2 (plug ?k (Nd t RED p ps sl))"
    using reshapes_trans [OF m1(2) m2(2)] s c by simp
  from rcl_out [OF r2 inv(3) t k2] consider
    m' t' where "remove_color_left m2 (Some p) (root_ptr sl) = Some (m', Some p, rbroot m', True)"
      "reshapes m2 (plug ?k (Nd t RED p ps sl)) m' t'" "rb_tree t'"
    | m' t' where "remove_color_left m2 (Some p) (root_ptr sl) = Some (m', top_ptr ?k, root_ptr t', False)"
      "reshapes m2 (plug ?k (Nd t RED p ps sl)) m' (plug ?k t')"
      "rcol t' = RED" "short n t'" "ctxi (Suc n) BLACK ?k"
    unfolding rc_out_def by (auto simp del: plug.simps ctxi.simps top_ptr.simps)
  then show ?thesis
  proof cases
    case 1
    from rc_break [OF rep t(1) _ reshapes_trans [OF res 1(2)] 1(3)] 1(1) step show ?thesis by simp
  next
    case 2
    then have "rc_correct m' ?k t'" using rc_stop reshapes_repr by blast
    with 2 show ?thesis
      using rc_climb [OF rep t(1), of m' ?k t'] step reshapes_trans [OF res] by simp
  qed
qed

lemma rcr_out:
  assumes rep: "repr m (plug k (Nd s c p ps t))" and s: "rcol s = BLACK"
    and t: "rcol t = BLACK" "rbi n t" and k: "ctxi (Suc n) BLACK (FR s c p ps # k)"
  shows "rc_out m (plug k (Nd s c p ps t)) k c p n (remove_color_right m (Some p) (root_ptr s))"
proof -
  have c: "c = RED \<or> c = BLACK" using k by (cases c) auto
  from k c have "rbi (Suc n) s" by auto
  with s obtain sr a ss sl where sn: "s = Nd sl BLACK a ss sr" "rbi n sr" "rbi n sl"
    by (cases s) auto
  from rb_cases [OF sn(2)] rb_cases [OF sn(3)]
  consider "rcol sr = BLACK" "rcol sl = BLACK" | x y z w where "sl = Nd w RED y z x"
    | x y z w where "rcol sl = BLACK" "sr = Nd w RED y z x" by blast
  then show ?thesis
  proof cases
    case 1
    obtain m' where m': "remove_color_right m (Some p) (Some a) = Some (m', top_ptr k, Some p, False)"
      "reshapes m (plug k (Nd s c p ps t)) m' (plug k (Nd (Nd sl RED a ss sr) c p ps t))"
      by (rule rcr_black [of m k sl a ss sr c p ps t]) (use rep sn 1 in auto)
    have "if c = RED then rcol (Nd (Nd sl RED a ss sr) c p ps t) = RED \<and> short n (Nd (Nd sl RED a ss sr) c p ps t) \<and>
        ctxi (Suc n) BLACK k
      else short (Suc n) (Nd (Nd sl RED a ss sr) c p ps t) \<and> ctxi (Suc (Suc n)) BLACK k"
      using c k t sn 1 by (auto simp: short_def intro: ctxi_RED_BLACK)
    with m' sn show ?thesis unfolding rc_out_def
      by (intro disjI2 exI [of _ m'] exI [of _ "Nd (Nd sl RED a ss sr) c p ps t"]) simp
  next
    case (2 x y z w)
    obtain m' where m': "remove_color_right m (Some p) (Some a) = Some (m', Some p, rbroot m', True)"
      "reshapes m (plug k (Nd s c p ps t)) m' (plug k (Nd (Nd w BLACK y z x) c a ss (Nd sr BLACK p ps t)))"
      by (rule rcr_outer [of m k w y z x a ss sr c p ps t]) (use rep sn 2 in auto)
    have "rb_tree (plug k (Nd (Nd w BLACK y z x) c a ss (Nd sr BLACK p ps t)))"
      by (rule rb_tree_plug [of "if c = RED then Suc n else Suc (Suc n)"]) (use c k t sn 2 in auto)
    with m' sn show ?thesis unfolding rc_out_def by auto
  next
    case (3 x y z w)
    obtain m' where m': "remove_color_right m (Some p) (Some a) = Some (m', Some p, rbroot m', True)"
      "reshapes m (plug k (Nd s c p ps t)) m' (plug k (Nd (Nd sl BLACK a ss w) c y z (Nd x BLACK p ps t)))"
      by (rule rcr_inner [of m k sl a ss w y z x c p ps t]) (use rep sn 3 in auto)
    have "rb_tree (plug k (Nd (Nd sl BLACK a ss w) c y z (Nd x BLACK p ps t)))"
      by (rule rb_tree_plug [of "if c = RED then Suc n else Suc (Suc n)"]) (use c k t sn 3 in auto)
    with m' sn show ?thesis unfolding rc_out_def by auto
  qed
qed

lemma rc_right:
  assumes rep: "repr m (plug (FR s c p ps # k) t)" and t: "rcol t = BLACK" "rbi n t"
    and k: "ctxi (Suc n) BLACK (FR s c p ps # k)"
    and IH: "\<And>m t. repr m (plug k t) \<Longrightarrow> short (Suc n) t \<Longrightarrow> ctxi (Suc (Suc n)) BLACK k \<Longrightarrow> rc_correct m k t"
  shows "rc_correct m (FR s c p ps # k) t"
proof (cases "rcol s = BLACK")
  case True
  have r: "repr m (plug k (Nd s c p ps t))" using rep by simp
  have rs: "repr m (plug (FL c p ps t # k) s)" using rep by simp
  have "rbi (Suc n) s" using k by (cases c) auto
  with True obtain a where a: "root_ptr s = Some a" by (cases s) auto
  have "COLOR m (root_ptr s) = Some BLACK" using is_black_focus [OF rs] True a
    by (cases "COLOR m (Some a)") (auto simp: is_black_def)
  moreover have "root_ptr s \<noteq> root_ptr t"
    using rep a root_ptr_in [of s a] root_ptr_in [of t a] by (auto simp: repr_plug)
  ultimately have step: "remove_color_step m (Some p) (root_ptr t) = remove_color_right m (Some p) (root_ptr s)"
    using focus_reads [OF r] by (simp add: remove_color_step_def)
  from rcr_out [OF r True t k] consider
    m' t' where "remove_color_right m (Some p) (root_ptr s) = Some (m', Some p, rbroot m', True)"
      "reshapes m (plug k (Nd s c p ps t)) m' t'" "rb_tree t'"
    | m' t' where "remove_color_right m (Some p) (root_ptr s) = Some (m', top_ptr k, root_ptr t', False)"
      "reshapes m (plug k (Nd s c p ps t)) m' (plug k t')"
      "if c = RED then rcol t' = RED \<and> short n t' \<and> ctxi (Suc n) BLACK k
       else short (Suc n) t' \<and> ctxi (Suc (Suc n)) BLACK k"
    by (auto simp: rc_out_def)
  then show ?thesis
  proof cases
    case 1
    then show ?thesis using rc_break [OF rep t(1)] step by simp
  next
    case 2
    then have "rc_correct m' k t'"
      using rc_stop [of m' k t' n] IH [of m' t'] by (auto dest: reshapes_repr split: if_splits)
    with 2 show ?thesis using rc_climb [OF rep t(1)] step by simp
  qed
next
  case False
  have "\<exists>l a ds r. s = Nd r RED a ds l" using k False rb_cases [of "Suc n" s] by (cases c) auto
  then obtain sr a ss sl where s: "s = Nd sl RED a ss sr" by blast
  from k s have c: "c = BLACK" by (cases c) auto
  have inv: "rbi (Suc n) sr" "rbi (Suc n) sl" "rcol sr = BLACK" "rcol sl = BLACK" "ctxi (Suc (Suc n)) BLACK k"
    using k s c by auto
  let ?T = "plug k (Nd (Nd sl RED a ss sr) BLACK p ps t)"
  have r: "repr m ?T" using rep s c by simp
  have rs: "repr m (plug (FL BLACK p ps t # k) (Nd sl RED a ss sr))" using rep s c by simp
  obtain m1 where m1: "SET_BLACKRED m (Some a) (Some p) = Some m1"
    "reshapes m ?T m1 (plug k (Nd (Nd sl BLACK a ss sr) RED p ps t))"
    by (rule SET_BLACKRED_reshapes [OF r, of "FL BLACK p ps t # k" sl RED a ss sr k "Nd sl BLACK a ss sr" BLACK p ps t])
      simp_all
  obtain m2 where m2: "ROTATE_RIGHT m1 (Some p) = Some m2"
    "reshapes m1 (plug k (Nd (Nd sl BLACK a ss sr) RED p ps t)) m2 (plug k (Nd sl BLACK a ss (Nd sr RED p ps t)))"
    by (rule ROTATE_RIGHT_reshapes [OF reshapes_repr [OF m1(2)] refl])
  let ?k = "FR sl BLACK a ss # k"
  have r2: "repr m2 (plug ?k (Nd sr RED p ps t))" using reshapes_repr [OF m2(2)] by simp
  have k2: "ctxi (Suc n) BLACK (FR sr RED p ps # ?k)" using inv by simp
  have "Some a \<noteq> root_ptr t" using r root_ptr_in [of t a] by (auto simp: repr_plug)
  then have step: "remove_color_step m (Some p) (root_ptr t) = remove_color_right m2 (Some p) (root_ptr sr)"
    using focus_reads [OF r] focus_reads [OF rs] m1(1) m2(1) focus_reads [OF r2] by (simp add: remove_color_step_def)
  have res: "reshapes m (plug (FR s c p ps # k) t) m2 (plug ?k (Nd sr RED p ps t))"
    using reshapes_trans [OF m1(2) m2(2)] s c by simp
  from rcr_out [OF r2 inv(3) t k2] consider
    m' t' where "remove_color_right m2 (Some p) (root_ptr sr) = Some (m', Some p, rbroot m', True)"
      "reshapes m2 (plug ?k (Nd sr RED p ps t)) m' t'" "rb_tree t'"
    | m' t' where "remove_color_right m2 (Some p) (root_ptr sr) = Some (m', top_ptr ?k, root_ptr t', False)"
      "reshapes m2 (plug ?k (Nd sr RED p ps t)) m' (plug ?k t')"
      "rcol t' = RED" "short n t'" "ctxi (Suc n) BLACK ?k"
    unfolding rc_out_def by (auto simp del: plug.simps ctxi.simps top_ptr.simps)
  then show ?thesis
  proof cases
    case 1
    from rc_break [OF rep t(1) _ reshapes_trans [OF res 1(2)] 1(3)] 1(1) step show ?thesis by simp
  next
    case 2
    then have "rc_correct m' ?k t'" using rc_stop reshapes_repr by blast
    with 2 show ?thesis
      using rc_climb [OF rep t(1), of m' ?k t'] step reshapes_trans [OF res] by simp
  qed
qed

end
