(* ===== verification/Dm_Rbtree_Delete.thy ===== *)
theory Dm_Rbtree_Delete
  imports Dm_Rbtree_Remove
begin

text \<open>
  \<open>REMOVE\<close> as a whole: the removed row leaves the index, all other rows stay in their
  order, the tree stays red-black and the removed row's \<open>NODE\<close> is cleared.
\<close>

section \<open>The recolouring after a removal\<close>

lemma REMOVE_COLOR_correct:
  assumes "repr m (plug k t)" "short n t" "ctxi (Suc n) BLACK k"
  shows "rc_correct m k t"
  using assms
proof (induction k arbitrary: m t n)
  case Nil
  then show ?case using rc_stop by blast
next
  case (Cons f k)
  show ?case
  proof (cases "rcol t = RED")
    case True
    then show ?thesis using Cons.prems rc_stop by blast
  next
    case False
    with Cons.prems(2) have t: "rcol t = BLACK" "rbi n t" by (auto simp: short_def)
    show ?thesis
    proof (cases f)
      case (FL c p ps s)
      show ?thesis unfolding FL
        by (rule rc_left [OF Cons.prems(1) [unfolded FL] t Cons.prems(3) [unfolded FL]]) (rule Cons.IH)
    next
      case (FR s c p ps)
      show ?thesis unfolding FR
        by (rule rc_right [OF Cons.prems(1) [unfolded FR] t Cons.prems(3) [unfolded FR]]) (rule Cons.IH)
    qed
  qed
qed

lemma rbi_short: "rbi n t \<Longrightarrow> short n t"
  by (cases "(n, t)" rule: rbi.cases) (auto simp: short_def)

text \<open>A node of colour \<open>c\<close> gave its place to its only child.\<close>

lemma recolour_after:
  assumes rep: "repr m (plug k t)" and t: "rbi n t" "c = RED \<Longrightarrow> rcol t = BLACK"
    and k: "ctxi (if c = BLACK then Suc n else n) c k" and c: "c \<noteq> WHITE"
  obtains m' t' where "(if c = BLACK then REMOVE_COLOR m (top_ptr k) (root_ptr t) else Some m) = Some m'"
    "reshapes m (plug k t) m' t'" "rb_tree t'"
proof (cases "c = BLACK")
  case True
  with k t rbi_short have "rc_correct m k t" using REMOVE_COLOR_correct [OF rep, of n] by simp
  with True that show thesis by (auto simp: rc_correct_def)
next
  case False
  with c have "c = RED" by (cases c) auto
  have "rb_tree (plug k t)"
    by (rule rb_tree_plug [OF t(1)]) (use k t \<open>c = RED\<close> in \<open>auto intro: ctxi_RED_BLACK\<close>)
  with False that reshapes_refl [OF rep] show thesis by auto
qed

section \<open>Unlinking\<close>

lemma chain_at_cong: "(\<And>d. d \<in> set ds \<Longrightarrow> h' d = h d) \<Longrightarrow> chain_at h' p ds = chain_at h p ds"
  by (induction ds arbitrary: p) auto

lemma detach_child_repr:
  assumes rep: "repr m (plug k (Nd l c a ds r))" and one: "l = Lf \<or> r = Lf"
    and ch: "ch = (if l = Lf then r else l)"
  obtains m' where "detach_child m (Some a) (root_ptr ch) (top_ptr k) = Some m'" "repr m' (plug k ch)"
    "unchanged (set (addrs (plug k ch))) m m'"
proof -
  have "\<exists>m'. detach_child m (Some a) (root_ptr r) (top_ptr k) = Some m' \<and> repr m' (plug k r) \<and>
    unchanged (set (addrs (plug k r))) m m'" if "l = Lf"
    using rep that
    by (cases r; cases k rule: top_ptr.cases)
      (simp_all add: detach_child_def repr_plug repr_Nd repr_Lf access_defs unchanged_def set_addrs_plug
        Int_Un_distrib)
  moreover have "\<exists>m'. detach_child m (Some a) (root_ptr l) (top_ptr k) = Some m' \<and> repr m' (plug k l) \<and>
    unchanged (set (addrs (plug k l))) m m'" if "r = Lf"
    using rep that
    by (cases l; cases k rule: top_ptr.cases)
      (simp_all add: detach_child_def repr_plug repr_Nd repr_Lf access_defs unchanged_def set_addrs_plug
        Int_Un_distrib)
  ultimately show thesis using one ch that by (metis (full_types))
qed

text \<open>\<open>REPLACE\<close> reads everything of the old node except its list.\<close>

definition node_links :: "rbnode \<Rightarrow> ptr \<Rightarrow> ptr \<Rightarrow> ptr \<Rightarrow> color \<Rightarrow> bool" where
  "node_links n l r p c \<longleftrightarrow> rbe_left n = l \<and> rbe_right n = r \<and> rbe_parent n = p \<and> rbe_color n = c"

lemma REPLACE_repr:
  assumes old: "rbh m a = Some n" "node_links n (root_ptr l) (root_ptr r) (top_ptr k) c"
    and ctx: "ctx_at (rbh m) k (Some a)" "rbroot m = ctx_root k (Some a)"
    and sub: "tree_at (rbh m) (Some a) l" "tree_at (rbh m) (Some a) r"
    and new: "rbh m e = Some x" "rbe_prev x = None" "rbe_next x = hd_ptr es" "chain_at (rbh m) (Some e) es"
    and dist: "distinct (addrs (plug k (Nd l c e es r)))" "a \<notin> set (addrs (plug k (Nd l c e es r)))"
  obtains m' where "REPLACE m (Some a) (Some e) = Some m'" "repr m' (plug k (Nd l c e es r))"
    "unchanged (set (addrs (plug k (Nd l c e es r)))) m m'"
proof -
  have "\<exists>m'. REPLACE m (Some a) (Some e) = Some m' \<and> repr m' (plug k (Nd l c e es r)) \<and>
    unchanged (set (addrs (plug k (Nd l c e es r)))) m m'"
    using assms
    by (cases l; cases r; cases k rule: top_ptr.cases; cases x)
      (simp_all add: REPLACE_def node_links_def repr_plug repr_Nd access_defs unchanged_def set_addrs_plug
        distinct_addrs_plug, auto)
  with that show thesis by blast
qed

section \<open>A lone node leaves the tree\<close>

lemma plug_append: "plug (j @ k) t = plug k (plug j t)"
  by (induction j t rule: plug.induct) auto

lemma top_ptr_append: "top_ptr (j @ k) = (if j = [] then top_ptr k else top_ptr j)"
  by (cases j rule: top_ptr.cases) auto

lemma leftmost_spec:
  assumes "repr m (plug k r)" "r \<noteq> Lf"
  shows "\<exists>j c e es er. leftmost m (root_ptr r) = Some (Some e) \<and> r = plug j (Nd Lf c e es er) \<and> ctx_before j = []"
  using assms
proof (induction r arbitrary: k)
  case (Nd l c a ds r)
  note reads = focus_reads [OF Nd.prems(1)]
  show ?case
  proof (cases "l = Lf")
    case True
    with reads have "leftmost m (Some a) = Some (Some a)" by (subst leftmost.simps) simp
    with True show ?thesis by (intro exI [of _ "[]"]) simp
  next
    case False
    have "repr m (plug (FL c a ds r # k) l)" using Nd.prems(1) by simp
    from Nd.IH(1) [OF this False] obtain j c' e es er where
      *: "leftmost m (root_ptr l) = Some (Some e)" "l = plug j (Nd Lf c' e es er)" "ctx_before j = []" by blast
    have "root_ptr l \<noteq> None" using False by (cases l) auto
    with * reads have "leftmost m (Some a) = Some (Some e)" by (subst leftmost.simps) simp
    moreover have "Nd l c a ds r = plug (j @ [FL c a ds r]) (Nd Lf c' e es er)"
      using * by (simp add: plug_append)
    moreover have "ctx_before (j @ [FL c a ds r]) = []"
      using *(3) by (induction j rule: ctx_before.induct) auto
    ultimately show ?thesis unfolding root_ptr.simps by blast
  qed
qed simp

lemma clear_NODE_repr:
  assumes "repr m t" "a \<notin> set (addrs t)" "rbh m a = Some x"
  shows "\<exists>m'. clear_NODE m (Some a) = Some m' \<and> repr m' t \<and> rbh m' a = Some zero_node \<and> unchanged {a} m m'"
  using assms by (auto simp: access_defs repr_def unchanged_def)

text \<open>The node in the focus has at most one child.\<close>

lemma remove_single:
  assumes rep: "repr m (plug k (Nd l c a [] r))" and rb: "rb_tree (plug k (Nd l c a [] r))"
    and one: "l = Lf \<or> r = Lf"
  obtains m' t' where "remove_from_tree m (Some a) = Some m'" "repr m' t'" "rb_tree t'"
    "groups t' = ctx_before k @ groups l @ groups r @ ctx_after k" "rbh m' a = Some zero_node"
    "unchanged (set (addrs (plug k (Nd l c a [] r)))) m m'"
proof -
  define ch where "ch = (if l = Lf then r else l)"
  let ?S = "set (addrs (plug k (Nd l c a [] r)))"
  obtain m1 where m1: "detach_child m (Some a) (root_ptr ch) (top_ptr k) = Some m1" "repr m1 (plug k ch)"
    "unchanged (set (addrs (plug k ch))) m m1"
    by (rule detach_child_repr [OF rep one ch_def])
  have sub: "set (addrs (plug k ch)) \<subseteq> ?S" and a: "a \<notin> set (addrs (plug k ch))" "a \<in> ?S"
    using rep by (auto simp: ch_def set_addrs_plug repr_plug)
  obtain n where n: "rbi n (Nd l c a [] r)" "ctxi n (rcol (Nd l c a [] r)) k" by (rule plug_rb_tree [OF rb])
  obtain n' where n': "rbi n' ch" "c = RED \<Longrightarrow> rcol ch = BLACK" "ctxi (if c = BLACK then Suc n' else n') c k" "c \<noteq> WHITE"
    using n one by (cases c; cases n) (auto simp: ch_def)
  obtain m2 t2 where m2: "(if c = BLACK then REMOVE_COLOR m1 (top_ptr k) (root_ptr ch) else Some m1) = Some m2"
    "reshapes m1 (plug k ch) m2 t2" "rb_tree t2"
    by (rule recolour_after [OF m1(2) n'])
  have a2: "a \<notin> set (addrs t2)" "repr m2 t2" "unchanged (set (addrs (plug k ch))) m1 m2"
    using m2(2) a by (auto simp: reshapes_def addrs_groups)
  have "rbh m2 a = rbh m a" using m1(3) a2(3) a by (auto simp: unchanged_def)
  moreover obtain x where "rbh m a = Some x" using rep by (auto simp: repr_plug)
  ultimately obtain m3 where m3: "clear_NODE m2 (Some a) = Some m3" "repr m3 t2" "rbh m3 a = Some zero_node"
    "unchanged {a} m2 m3" using clear_NODE_repr [OF a2(2,1)] by auto
  have single: "\<not> (root_ptr l \<noteq> None \<and> root_ptr r \<noteq> None)" using one by auto
  have ch: "(if root_ptr l = None then root_ptr r else root_ptr l) = root_ptr ch"
    using one by (cases l) (auto simp: ch_def)
  have "remove_from_tree m (Some a) = Some m3"
    using focus_reads [OF rep] single ch m1(1) m2(1) m3(1) by (auto simp: remove_from_tree_def)
  moreover have "groups t2 = ctx_before k @ groups l @ groups r @ ctx_after k"
    using m2(2) one by (auto simp: reshapes_def groups_plug ch_def)
  moreover have "unchanged ?S m m3"
    using m1(3) a2(3) m3(4) sub a by (meson empty_subsetI insert_subset unchanged_mono unchanged_trans)
  ultimately show thesis using that m3 m2(3) by blast
qed

text \<open>
  The node in the focus has two children: the least node of the right subtree takes its place.
\<close>

lemma ctxi_relabel: "ctxi n c (j @ FR l d a ds # k) = ctxi n c (j @ FR l d e es # k)"
  by (induction n c j rule: ctxi.induct) (cases d; simp)+

lemma replace_by_successor:
  assumes rep: "repr m (plug k (Nd l c a [] (plug j er)))"
    and e: "rbh m e = Some x" "rbe_prev x = None" "rbe_next x = hd_ptr es" "chain_at (rbh m) (Some e) es"
    and dist: "distinct (addrs (plug k (Nd l c e es (plug j er))))"
      "a \<notin> set (addrs (plug k (Nd l c e es (plug j er))))"
  obtains m' where "REPLACE m (Some a) (Some e) = Some m'" "repr m' (plug (j @ FR l c e es # k) er)"
    "unchanged (set (addrs (plug k (Nd l c e es (plug j er))))) m m'"
proof -
  from rep have r: "ctx_at (rbh m) k (Some a)" "rbroot m = ctx_root k (Some a)"
    "tree_at (rbh m) (top_ptr k) (Nd l c a [] (plug j er))" by (auto simp: repr_plug)
  show thesis
    by (rule REPLACE_repr [of m a _ l "plug j er" k c e x es])
      (use r e dist that in \<open>auto simp: node_links_def plug_append\<close>)
qed

lemma top_ptr_in: "top_ptr k = Some a \<Longrightarrow> a \<in> set (caddrs k)"
  by (cases k rule: top_ptr.cases) auto

lemma remove_double:
  assumes rep: "repr m (plug k (Nd l c a [] r))" and rb: "rb_tree (plug k (Nd l c a [] r))"
    and two: "l \<noteq> Lf" "r \<noteq> Lf"
  obtains m' t' where "remove_from_tree m (Some a) = Some m'" "repr m' t'" "rb_tree t'"
    "groups t' = ctx_before k @ groups l @ groups r @ ctx_after k" "rbh m' a = Some zero_node"
    "unchanged (set (addrs (plug k (Nd l c a [] r)))) m m'"
proof -
  let ?S = "set (addrs (plug k (Nd l c a [] r)))"
  have "repr m (plug (FR l c a [] # k) r)" using rep by simp
  from leftmost_spec [OF this two(2)] obtain j d e es er where
    lm: "leftmost m (root_ptr r) = Some (Some e)" and r: "r = plug j (Nd Lf d e es er)" and j: "ctx_before j = []"
    by blast
  let ?k = "j @ FR l c a [] # k" and ?k' = "j @ FR l c e es # k"
  have T: "plug k (Nd l c a [] r) = plug ?k (Nd Lf d e es er)" by (simp add: plug_append r)
  have re: "repr m (plug ?k (Nd Lf d e es er))" using rep T by simp
  obtain m1 where m1: "detach_child m (Some e) (root_ptr er) (top_ptr ?k) = Some m1" "repr m1 (plug ?k er)"
    "unchanged (set (addrs (plug ?k er))) m m1"
    by (rule detach_child_repr [OF re, of er]) auto
  have dist: "distinct (addrs (plug ?k (Nd Lf d e es er)))" using re by (simp add: repr_def)
  have dist': "distinct (addrs (plug k (Nd l c e es (plug j er))))" "a \<notin> set (addrs (plug k (Nd l c e es (plug j er))))"
    "e \<notin> set (addrs (plug ?k er))" "set es \<inter> set (addrs (plug ?k er)) = {}" "e \<noteq> a"
    using dist by (auto simp: distinct_addrs_plug set_addrs_plug plug_append)
  have same: "rbh m1 y = rbh m y" if "y = e \<or> y \<in> set es" for y
    using that m1(3) dist'(3,4) by (auto simp: unchanged_def)
  have en: "rbh m1 e = Some \<lparr>rbe_left = None, rbe_right = root_ptr er, rbe_parent = top_ptr ?k, rbe_color = d,
      rbe_prev = None, rbe_next = hd_ptr es\<rparr>" "chain_at (rbh m1) (Some e) es"
    using re same chain_at_cong [of es "rbh m1" "rbh m"] by (auto simp: repr_plug)
  obtain m2 where m2: "REPLACE m1 (Some a) (Some e) = Some m2" "repr m2 (plug ?k' er)"
    "unchanged (set (addrs (plug k (Nd l c e es (plug j er))))) m1 m2"
    by (rule replace_by_successor [of m1 k l c a j er e _ es]) (use m1(2) en dist' in \<open>auto simp: plug_append\<close>)
  obtain n where n: "rbi n (Nd Lf d e es er)" "ctxi n (rcol (Nd Lf d e es er)) ?k"
    by (rule plug_rb_tree [of ?k "Nd Lf d e es er"]) (use rb T in auto)
  obtain n' where n': "rbi n' er" "d = RED \<Longrightarrow> rcol er = BLACK" "ctxi (if d = BLACK then Suc n' else n') d ?k'" "d \<noteq> WHITE"
    using n ctxi_relabel [of _ d j l c a "[]" k e es] by (cases d; cases n) auto
  obtain m3 t3 where m3: "(if d = BLACK then REMOVE_COLOR m2 (top_ptr ?k') (root_ptr er) else Some m2) = Some m3"
    "reshapes m2 (plug ?k' er) m3 t3" "rb_tree t3"
    by (rule recolour_after [OF m2(2) n'])
  let ?U = "set (addrs (plug k (Nd l c e es (plug j er))))"
  have U: "?U = set (addrs (plug ?k' er))" "?U \<subseteq> ?S" "set (addrs (plug ?k er)) \<subseteq> ?S" "a \<in> ?S"
    unfolding T by (auto simp: set_addrs_plug plug_append)
  have a3: "a \<notin> set (addrs t3)" "repr m3 t3" "unchanged ?U m2 m3"
    using m3(2) dist'(2) U(1) by (auto simp: reshapes_def addrs_groups)
  have "rbh m3 a = rbh m1 a" using m2(3) a3(3) dist'(2) by (simp add: unchanged_def)
  moreover obtain z where "rbh m1 a = Some z" using m1(2) by (auto simp: plug_append repr_plug)
  ultimately obtain m4 where m4: "clear_NODE m3 (Some a) = Some m4" "repr m4 t3" "rbh m4 a = Some zero_node"
    "unchanged {a} m3 m4" using clear_NODE_repr [OF a3(2,1)] by auto
  have "a \<notin> set (caddrs j)" using dist by (auto simp: distinct_addrs_plug plug_append set_addrs_plug)
  then have par: "(if top_ptr ?k = Some a then Some e else top_ptr ?k) = top_ptr ?k'"
    using top_ptr_in [of j a] by (auto simp: top_ptr_append)
  have ep: "PARENT m1 (Some e) = Some (top_ptr ?k)" using en by (simp add: access_defs)
  have "root_ptr l \<noteq> None" "root_ptr r \<noteq> None" using two by (cases l; cases r; simp)+
  then have "remove_from_tree m (Some a) = Some m4"
    using focus_reads [OF rep] focus_reads [OF re] lm m1(1) ep m2(1) par m3(1) m4(1)
    by (simp add: remove_from_tree_def)
  moreover have "groups t3 = ctx_before k @ groups l @ groups r @ ctx_after k"
    using m3(2) j by (simp add: reshapes_def plug_append groups_plug r)
  moreover have "unchanged ?S m m4"
    using unchanged_mono [OF m1(3) U(3)] unchanged_mono [OF m2(3) U(2)] unchanged_mono [OF a3(3) U(2)]
      unchanged_mono [OF m4(4), of ?S] U(4) by (auto simp: unchanged_def)
  ultimately show thesis using that m4 m3(3) by blast
qed

section \<open>Rows of a list\<close>

definition remove_row :: "addr \<Rightarrow> addr list list \<Rightarrow> addr list list" where
  "remove_row e gs = filter (\<lambda>g. g \<noteq> []) (map (filter (\<lambda>x. x \<noteq> e)) gs)"

lemma remove_row_append [simp]: "remove_row e (xs @ ys) = remove_row e xs @ remove_row e ys"
  by (simp add: remove_row_def)

lemma groups_nonempty: "[] \<notin> set (groups t)"
  by (induction t) auto

lemma remove_row_other: "e \<notin> set (concat gs) \<Longrightarrow> [] \<notin> set gs \<Longrightarrow> remove_row e gs = gs"
proof (induction gs)
  case (Cons g gs)
  then have "filter (\<lambda>x. x \<noteq> e) g = g" by (auto simp: filter_id_conv)
  with Cons show ?case by (auto simp: remove_row_def)
qed (simp add: remove_row_def)

lemma distinct_middle: "distinct (xs @ ys @ zs) \<Longrightarrow> e \<in> set ys \<Longrightarrow> e \<notin> set xs \<and> e \<notin> set zs"
  by auto

lemma remove_row_focus:
  assumes "distinct (addrs (plug k (Nd l c a ds r)))" "e \<in> set (a # ds)"
  shows "remove_row e (groups (plug k (Nd l c a ds r))) =
    ctx_before k @ groups l @ remove_row e [a # ds] @ groups r @ ctx_after k"
proof -
  let ?G = "ctx_before k @ groups l" and ?H = "groups r @ ctx_after k"
  have d: "distinct (concat ?G @ (a # ds) @ concat ?H)" and ne: "[] \<notin> set ?G" "[] \<notin> set ?H"
    using assms(1) groups_nonempty [of "plug k (Nd l c a ds r)"]
    by (simp_all add: addrs_groups [of "plug k (Nd l c a ds r)"] groups_plug)
  from distinct_middle [OF d assms(2)] ne have "remove_row e ?G = ?G" "remove_row e ?H = ?H"
    using remove_row_other [of e ?G] remove_row_other [of e ?H] by blast+
  then show ?thesis
    using remove_row_append [of e ?G "[a # ds] @ ?H"] remove_row_append [of e "[a # ds]" ?H]
    by (simp add: groups_plug)
qed

lemma locate:
  assumes "e \<in> set (addrs t)"
  shows "\<exists>k l c a ds r. t = plug k (Nd l c a ds r) \<and> e \<in> set (a # ds)"
  using assms
proof (induction t)
  case (Nd l c a ds r)
  then consider "e \<in> set (a # ds)" | "e \<in> set (addrs l)" | "e \<in> set (addrs r)" by auto
  then show ?case
  proof cases
    case 1
    then show ?thesis by (intro exI [of _ "[]"]) auto
  next
    case 2
    with Nd.IH(1) obtain k l' c' a' ds' r' where "l = plug k (Nd l' c' a' ds' r')" "e \<in> set (a' # ds')" by blast
    then have "Nd l c a ds r = plug (k @ [FL c a ds r]) (Nd l' c' a' ds' r')" by (simp add: plug_append)
    with \<open>e \<in> set (a' # ds')\<close> show ?thesis by blast
  next
    case 3
    with Nd.IH(2) obtain k l' c' a' ds' r' where "r = plug k (Nd l' c' a' ds' r')" "e \<in> set (a' # ds')" by blast
    then have "Nd l c a ds r = plug (k @ [FR l c a ds]) (Nd l' c' a' ds' r')" by (simp add: plug_append)
    with \<open>e \<in> set (a' # ds')\<close> show ?thesis by blast
  qed
qed simp

lemma chain_drop:
  assumes "chain_at h p (xs @ x # e # ys)" "distinct (xs @ x # e # ys)"
    and "\<And>d. d \<in> set xs \<union> set (tl ys) \<Longrightarrow> h' d = h d"
    and "h' x = map_option (rbe_next_update (\<lambda>_. hd_ptr ys)) (h x)"
    and "ys \<noteq> [] \<Longrightarrow> h' (hd ys) = map_option (rbe_prev_update (\<lambda>_. Some x)) (h (hd ys))"
  shows "chain_at h' p (xs @ x # ys)"
  using assms
proof (induction xs arbitrary: p)
  case Nil
  then show ?case by (cases ys) (auto simp: chain_at_cong [of _ h' h])
next
  case (Cons d xs)
  have "hd_ptr (xs @ x # e # ys) = hd_ptr (xs @ x # ys)" by (cases xs) auto
  moreover have "chain_at h' (Some d) (xs @ x # ys)" by (rule Cons.IH) (use Cons.prems in auto)
  ultimately show ?case using Cons.prems by auto
qed

lemma chain_node:
  assumes "chain_at h p (xs @ e # ys)"
  shows "h e = Some \<lparr>rbe_left = None, rbe_right = None, rbe_parent = None, rbe_color = WHITE,
     rbe_prev = (if xs = [] then p else Some (last xs)), rbe_next = hd_ptr ys\<rparr>"
  using assms by (induction xs arbitrary: p) (auto split: if_splits)

lemma remove_listed:
  assumes rep: "repr m (plug k (Nd l c a (xs @ e # ys) r))"
  obtains m' where "REMOVE m (Some e) = Some m'" "repr m' (plug k (Nd l c a (xs @ ys) r))"
    "rbh m' e = Some zero_node" "unchanged (set (addrs (plug k (Nd l c a (xs @ e # ys) r)))) m m'"
proof -
  from rep have chain: "chain_at (rbh m) (Some a) (xs @ e # ys)" by (simp add: repr_plug)
  note ne = chain_node [OF chain]
  have ny: "ys = [] \<or> (\<exists>y ys'. ys = y # ys' \<and> rbh m y = Some \<lparr>rbe_left = None, rbe_right = None,
      rbe_parent = None, rbe_color = WHITE, rbe_prev = Some e, rbe_next = hd_ptr ys'\<rparr>)"
  proof (cases ys)
    case (Cons y ys')
    with chain_node [of "rbh m" "Some a" "xs @ [e]" y ys'] chain show ?thesis by simp
  qed simp
  have "\<exists>m'. REMOVE m (Some e) = Some m' \<and> repr m' (plug k (Nd l c a (xs @ ys) r)) \<and>
    rbh m' e = Some zero_node \<and> unchanged (set (addrs (plug k (Nd l c a (xs @ e # ys) r)))) m m'"
  proof (cases xs rule: rev_cases)
    case Nil
    show ?thesis
      by (cases ys) (use rep Nil ne ny in
        \<open>simp_all add: REMOVE_def unlink_def repr_plug access_defs unchanged_def set_addrs_plug Int_Un_distrib\<close>)
  next
    case (snoc xs' x)
    with chain have nx: "rbh m x = Some \<lparr>rbe_left = None, rbe_right = None, rbe_parent = None, rbe_color = WHITE,
       rbe_prev = (if xs' = [] then Some a else Some (last xs')), rbe_next = Some e\<rparr>"
      using chain_node [of "rbh m" "Some a" xs' x "e # ys"] by simp
    have hd: "hd_ptr (xs' @ x # e # ys) = hd_ptr (xs' @ x # ys)" by (cases xs') auto
    have d: "distinct (xs' @ x # e # ys)" using rep snoc by (auto simp: repr_plug)
    let ?h = "(rbh m)(x \<mapsto> \<lparr>rbe_left = None, rbe_right = None, rbe_parent = None, rbe_color = WHITE,
       rbe_prev = (if xs' = [] then Some a else Some (last xs')), rbe_next = hd_ptr ys\<rparr>)"
    let ?h2 = "case ys of [] \<Rightarrow> ?h | y # ys' \<Rightarrow> ?h(y \<mapsto> \<lparr>rbe_left = None, rbe_right = None,
      rbe_parent = None, rbe_color = WHITE, rbe_prev = Some x, rbe_next = hd_ptr ys'\<rparr>)"
    let ?m = "m\<lparr>rbh := ?h2(e \<mapsto> zero_node)\<rparr>"
    have "REMOVE m (Some e) = Some ?m"
      using ne nx ny snoc d by (cases ys) (auto simp: REMOVE_def unlink_def access_defs)
    moreover have "chain_at (rbh ?m) (Some a) (xs' @ x # ys)"
      by (rule chain_drop [of "rbh m" _ xs' x e ys]) (use chain snoc d nx ny in \<open>cases ys; auto\<close>)+
    then have "repr ?m (plug k (Nd l c a (xs @ ys) r))"
      using rep snoc hd by (cases ys) (auto simp: repr_plug)
    ultimately show ?thesis using snoc by (cases ys) (auto simp: unchanged_def set_addrs_plug)
  qed
  with that show thesis by blast
qed

lemma remove_head:
  assumes rep: "repr m (plug k (Nd l c a (d # ds) r))" and c: "c \<noteq> WHITE"
  obtains m' where "REMOVE m (Some a) = Some m'" "repr m' (plug k (Nd l c d ds r))"
    "rbh m' a = Some zero_node" "unchanged (set (addrs (plug k (Nd l c a (d # ds) r)))) m m'"
proof -
  let ?nd = "\<lparr>rbe_left = None, rbe_right = None, rbe_parent = None, rbe_color = WHITE,
    rbe_prev = None, rbe_next = hd_ptr ds\<rparr>"
  let ?m = "m\<lparr>rbh := (rbh m)(d \<mapsto> ?nd)\<rparr>"
  have u: "unlink m (Some a) = Some ?m" using rep by (auto simp: repr_plug unlink_def access_defs)
  have dist: "distinct (addrs (plug k (Nd l c d ds r)))" "a \<notin> set (addrs (plug k (Nd l c d ds r)))"
    using rep by (auto simp: repr_def distinct_addrs_plug set_addrs_plug)
  let ?na = "\<lparr>rbe_left = root_ptr l, rbe_right = root_ptr r, rbe_parent = top_ptr k, rbe_color = c,
    rbe_prev = None, rbe_next = Some d\<rparr>"
  obtain m1 where m1: "REPLACE ?m (Some a) (Some d) = Some m1" "repr m1 (plug k (Nd l c d ds r))"
    "unchanged (set (addrs (plug k (Nd l c d ds r)))) ?m m1"
    by (rule REPLACE_repr [of ?m a ?na l r k c d ?nd ds]) (use rep dist in \<open>auto simp: repr_plug node_links_def\<close>)
  have a: "a \<noteq> d" "rbh ?m a = Some ?na" using rep by (auto simp: repr_plug)
  with m1(3) dist(2) have "rbh m1 a = Some ?na" by (simp add: unchanged_def)
  from clear_NODE_repr [OF m1(2) dist(2) this] obtain m2 where
    m2: "clear_NODE m1 (Some a) = Some m2" "repr m2 (plug k (Nd l c d ds r))" "rbh m2 a = Some zero_node"
      "unchanged {a} m1 m2" by blast
  have "REMOVE m (Some a) = Some m2"
    using u m1(1) m2(1) a c by (simp add: REMOVE_def COLOR_def NEXT_def NODE_def)
  moreover have "unchanged (set (addrs (plug k (Nd l c a (d # ds) r)))) m m2"
    using m1(3) m2(4) by (auto simp: unchanged_def set_addrs_plug)
  ultimately show thesis using that m2 by blast
qed

lemma rb_tree_not_white: "rb_tree (plug k (Nd l c a ds r)) \<Longrightarrow> c \<noteq> WHITE"
  by (erule plug_rb_tree) (cases c; auto)

section \<open>Removal\<close>

lemma REMOVE_spec:
  assumes rep: "repr m t" and rb: "rb_tree t" and e: "e \<in> set (addrs t)"
  obtains m' t' where "REMOVE m (Some e) = Some m'" "repr m' t'" "rb_tree t'"
    "groups t' = remove_row e (groups t)" "rbh m' e = Some zero_node" "unchanged (set (addrs t)) m m'"
proof -
  from locate [OF e] obtain k l c a ds r where t: "t = plug k (Nd l c a ds r)" and in_g: "e \<in> set (a # ds)" by blast
  have dist: "distinct (addrs (plug k (Nd l c a ds r)))" using rep t by (simp add: repr_def)
  note gr = remove_row_focus [OF dist in_g]
  have white: "c \<noteq> WHITE" using rb t by (auto dest: rb_tree_not_white)
  have dg: "distinct (a # ds)" using dist by (auto simp: distinct_addrs_plug)
  show thesis
  proof (cases "e = a")
    case True
    show thesis
    proof (cases ds)
      case Nil
      have u: "REMOVE m (Some a) = remove_from_tree m (Some a)"
        using rep white t Nil by (auto simp: REMOVE_def unlink_def repr_plug access_defs)
      have "remove_row e [a # ds] = []" using True Nil by (simp add: remove_row_def)
      with gr have g: "remove_row e (groups t) = ctx_before k @ groups l @ groups r @ ctx_after k"
        by (simp add: t)
      show thesis
      proof (cases "l = Lf \<or> r = Lf")
        case True
        show thesis
          by (rule remove_single [of m k l c a r]) (use rep rb t Nil True u g \<open>e = a\<close> in \<open>auto intro!: that\<close>)
      next
        case False
        show thesis
          by (rule remove_double [of m k l c a r]) (use rep rb t Nil False u g \<open>e = a\<close> in \<open>auto intro!: that\<close>)
      qed
    next
      case (Cons d ds')
      obtain m' where m': "REMOVE m (Some a) = Some m'" "repr m' (plug k (Nd l c d ds' r))"
        "rbh m' a = Some zero_node" "unchanged (set (addrs t)) m m'"
        by (rule remove_head [of m k l c a d ds' r]) (use rep t Cons white in auto)
      have "remove_row e [a # ds] = [ds]" using True Cons dg by (auto simp: remove_row_def filter_id_conv)
      with gr Cons have "groups (plug k (Nd l c d ds' r)) = remove_row e (groups t)" by (simp add: t groups_plug)
      moreover have "rb_tree (plug k (Nd l c d ds' r))"
        using rb t rb_tree_relabel by blast
      ultimately show thesis using that m' True by blast
    qed
  next
    case False
    with in_g obtain xs ys where ds: "ds = xs @ e # ys" by (meson set_ConsD split_list)
    obtain m' where m': "REMOVE m (Some e) = Some m'" "repr m' (plug k (Nd l c a (xs @ ys) r))"
      "rbh m' e = Some zero_node" "unchanged (set (addrs t)) m m'"
      by (rule remove_listed [of m k l c a xs e ys r]) (use rep t ds in auto)
    have "filter (\<lambda>x. x \<noteq> e) xs = xs" "filter (\<lambda>x. x \<noteq> e) ys = ys"
      using ds dg by (auto simp: filter_id_conv)
    then have "remove_row e [a # ds] = [a # xs @ ys]" using False ds by (simp add: remove_row_def)
    with gr have "groups (plug k (Nd l c a (xs @ ys) r)) = remove_row e (groups t)" by (simp add: t groups_plug)
    moreover have "rb_tree (plug k (Nd l c a (xs @ ys) r))" using rb t rb_tree_chain by blast
    ultimately show thesis using that m' by blast
  qed
qed

end
