(* ===== verification/Dm_Rbtree_Walk.thy ===== *)
theory Dm_Rbtree_Walk
  imports Dm_Rbtree_Delete
begin

text \<open>
  Searching and walking an index: \<open>FIND\<close> finds the node a comparison is zero at,
  \<open>MINMAX\<close> the first and the last row, and \<open>IDX_NEXT\<close> and \<open>IDX_PREV\<close> step
  through the rows of the index in order.
\<close>

section \<open>Search\<close>

lemma FIND_from_spec:
  assumes "repr m (plug k t)" and "\<And>a. a \<in> set (heads t) \<Longrightarrow> cmpv a = Some (c a)" and "cut c (heads t)"
  shows "(\<exists>a \<in> set (heads t). c a = 0 \<and> FIND_from cmpv m (root_ptr t) = Some (Some a)) \<or>
    (\<forall>a \<in> set (heads t). c a \<noteq> 0) \<and> FIND_from cmpv m (root_ptr t) = Some None"
  using assms
proof (induction t arbitrary: k)
  case Lf
  then show ?case by (subst FIND_from.simps) simp
next
  case (Nd l col a ds r)
  note reads = focus_reads [OF Nd.prems(1)] and split = cut_split [OF Nd.prems(3)]
  have ca: "cmpv a = Some (c a)" using Nd.prems(2) by simp
  have r: "repr m (plug (FL col a ds r # k) l)" "repr m (plug (FR l col a ds # k) r)" using Nd.prems(1) by auto
  consider "c a = 0" | "c a < 0" | "0 < c a" by linarith
  then show ?case
  proof cases
    case 1
    with ca show ?thesis by (subst (1 2) FIND_from.simps) simp
  next
    case 2
    then have "\<forall>b \<in> set (heads r). c b < 0"
      using Nd.prems(3) by (auto simp: cut_def sorted_wrt_append)
    moreover have "FIND_from cmpv m (Some a) = FIND_from cmpv m (root_ptr l)"
      using 2 ca reads by (subst FIND_from.simps) simp
    ultimately show ?thesis using Nd.IH(1) [OF r(1) _ split(1)] Nd.prems(2) 2 by fastforce
  next
    case 3
    then have "\<forall>b \<in> set (heads l). 0 < c b"
      using Nd.prems(3) by (auto simp: cut_def sorted_wrt_append)
    moreover have "FIND_from cmpv m (Some a) = FIND_from cmpv m (root_ptr r)"
      using 3 ca reads by (subst FIND_from.simps) simp
    ultimately show ?thesis using Nd.IH(2) [OF r(2) _ split(2)] Nd.prems(2) 3 by fastforce
  qed
qed

lemma FIND_spec:
  assumes "repr m t" and "\<And>a. a \<in> set (heads t) \<Longrightarrow> cmpv a = Some (c a)" and "cut c (heads t)"
  shows "(\<exists>a \<in> set (heads t). c a = 0 \<and> FIND cmpv m = Some (Some a)) \<or>
    (\<forall>a \<in> set (heads t). c a \<noteq> 0) \<and> FIND cmpv m = Some None"
  using FIND_from_spec [of m "[]" t cmpv c] assms by (simp add: FIND_def repr_def)

section \<open>Forwards\<close>

lemma hd_ptr_append: "hd_ptr (xs @ ys) = (if xs = [] then hd_ptr ys else hd_ptr xs)"
  by (cases xs) auto

lemma addrs_plug: "addrs (plug k t) = concat (ctx_before k) @ addrs t @ concat (ctx_after k)"
  by (simp add: addrs_groups groups_plug)

lemma leftmost_first:
  assumes "repr m (plug k r)" "r \<noteq> Lf"
  shows "leftmost m (root_ptr r) = Some (hd_ptr (addrs r))"
proof -
  from leftmost_spec [OF assms] obtain j c e es er where
    "leftmost m (root_ptr r) = Some (Some e)" "r = plug j (Nd Lf c e es er)" "ctx_before j = []" by blast
  then show ?thesis by (simp add: addrs_plug)
qed

lemma climb_right_spec:
  assumes "repr m (plug k (Nd l c a ds r))"
  shows "(climb_right m (Some a) \<bind> PARENT m) = Some (hd_ptr (concat (ctx_after k)))"
  using assms
proof (induction k arbitrary: l c a ds r)
  case Nil
  then show ?case using focus_reads [OF Nil] by (subst climb_right.simps) simp
next
  case (Cons f k)
  note reads = focus_reads [OF Cons.prems]
  show ?case
  proof (cases f)
    case (FL c' p ps s)
    have "repr m (plug k (Nd (Nd l c a ds r) c' p ps s))" using Cons.prems FL by simp
    note rp = focus_reads [OF this]
    have "a \<notin> set (addrs s)" using Cons.prems FL by (auto simp: repr_plug)
    with rp reads FL show ?thesis by (subst climb_right.simps) simp
  next
    case (FR s c' p ps)
    have r: "repr m (plug k (Nd s c' p ps (Nd l c a ds r)))" using Cons.prems FR by simp
    from focus_reads [OF r] reads FR have "climb_right m (Some a) = climb_right m (Some p)"
      by (subst climb_right.simps) simp
    with Cons.IH [OF r] FR show ?thesis by simp
  qed
qed

lemma TREE_NEXT_spec:
  assumes rep: "repr m (plug k (Nd l c a ds r))"
  shows "TREE_NEXT m (Some a) = Some (hd_ptr (addrs r @ concat (ctx_after k)))"
proof (cases "r = Lf")
  case False
  have "repr m (plug (FR l c a ds # k) r)" using rep by simp
  from leftmost_first [OF this False] False focus_reads [OF rep] show ?thesis
    by (cases r) (auto simp: TREE_NEXT_def hd_ptr_append)
next
  case True
  note reads = focus_reads [OF rep]
  show ?thesis
  proof (cases k rule: top_ptr.cases)
    case (2 c' p ps s k')
    have "repr m (plug k' (Nd (Nd l c a ds r) c' p ps s))" using rep 2 by simp
    with focus_reads [OF this] reads True 2 show ?thesis by (simp add: TREE_NEXT_def)
  next
    case (3 s c' p ps k')
    have rp: "repr m (plug k' (Nd s c' p ps (Nd l c a ds r)))" using rep 3 by simp
    have "a \<notin> set (addrs s)" using rep 3 by (auto simp: repr_plug)
    with focus_reads [OF rp] reads True 3 climb_right_spec [OF rep] show ?thesis by (simp add: TREE_NEXT_def)
  next
    case 1
    with reads True climb_right_spec [OF rep] show ?thesis by (simp add: TREE_NEXT_def)
  qed
qed

lemma list_head_chain:
  assumes "chain_at (rbh m) (Some a) (xs @ e # ys)" and "PREV m (Some a) = Some None"
  shows "list_head m (Some e) = Some (Some a)"
  using assms(1)
proof (induction xs arbitrary: e ys rule: rev_induct)
  case Nil
  have "list_head m (Some a) = Some (Some a)" using assms(2) by (subst list_head.simps) simp
  moreover have "PREV m (Some e) = Some (Some a)" using Nil by (simp add: access_defs)
  ultimately show ?case by (subst list_head.simps) simp
next
  case (snoc x xs)
  from snoc.IH [of x "e # ys"] snoc.prems have "list_head m (Some x) = Some (Some a)" by simp
  moreover have "PREV m (Some e) = Some (Some x)"
    using chain_node [of "rbh m" "Some a" "xs @ [x]" e ys] snoc.prems by (simp add: access_defs)
  ultimately show ?case by (subst list_head.simps) simp
qed

lemma IDX_NEXT_spec:
  assumes rep: "repr m t" and e: "addrs t = xs @ e # ys"
  shows "IDX_NEXT m (Some e) = Some (hd_ptr ys)"
proof -
  from e have "e \<in> set (addrs t)" by simp
  then obtain k l c a ds r where t: "t = plug k (Nd l c a ds r)" and g: "e \<in> set (a # ds)"
    using locate by blast
  then obtain us vs where uv: "a # ds = us @ e # vs" using split_list by fast
  have dist: "distinct (addrs t)" using rep by (simp add: repr_def)
  have "addrs t = (concat (ctx_before k) @ addrs l @ us) @ e # vs @ addrs r @ concat (ctx_after k)"
    using uv by (simp add: t addrs_plug)
  with e dist have ys: "ys = vs @ addrs r @ concat (ctx_after k)"
    using append_Cons_eq_iff [of e xs ys "concat (ctx_before k) @ addrs l @ us" "vs @ addrs r @ concat (ctx_after k)"]
    by auto
  note rep' = rep [unfolded t] and reads = focus_reads [OF rep [unfolded t]]
  have chain: "chain_at (rbh m) (Some a) ds" using rep' by (simp add: repr_plug)
  show ?thesis
  proof (cases us)
    case Nil
    with uv have "e = a" "vs = ds" by auto
    moreover have "list_head m (Some a) = Some (Some a)" using reads by (subst list_head.simps) simp
    ultimately show ?thesis using reads TREE_NEXT_spec [OF rep'] ys
      by (cases ds) (auto simp: IDX_NEXT_def)
  next
    case (Cons u us')
    with uv have ds: "ds = us' @ e # vs" by simp
    have "NEXT m (Some e) = Some (hd_ptr vs)"
      using chain_node [of "rbh m" "Some a" us' e vs] chain ds by (simp add: access_defs)
    moreover have "list_head m (Some e) = Some (Some a)"
      by (rule list_head_chain [of m a us' e vs]) (use chain ds reads in auto)
    ultimately show ?thesis using TREE_NEXT_spec [OF rep'] ys
      by (cases vs) (auto simp: IDX_NEXT_def)
  qed
qed

section \<open>Backwards\<close>

definition last_ptr :: "addr list \<Rightarrow> ptr" where
  "last_ptr xs = (if xs = [] then None else Some (last xs))"

lemma last_ptr_simps [simp]: "last_ptr [] = None" "last_ptr (xs @ [x]) = Some x"
  by (simp_all add: last_ptr_def)

lemma last_ptr_append: "last_ptr (xs @ ys) = (if ys = [] then last_ptr xs else last_ptr ys)"
  by (simp add: last_ptr_def)

lemma rightmost_spec:
  assumes "repr m (plug k r)" "r \<noteq> Lf"
  shows "\<exists>j c e es el. rightmost m (root_ptr r) = Some (Some e) \<and> r = plug j (Nd el c e es Lf) \<and> ctx_after j = []"
  using assms
proof (induction r arbitrary: k)
  case (Nd l c a ds r)
  note reads = focus_reads [OF Nd.prems(1)]
  show ?case
  proof (cases "r = Lf")
    case True
    with reads have "rightmost m (Some a) = Some (Some a)" by (subst rightmost.simps) simp
    with True show ?thesis by (intro exI [of _ "[]"]) simp
  next
    case False
    have "repr m (plug (FR l c a ds # k) r)" using Nd.prems(1) by simp
    from Nd.IH(2) [OF this False] obtain j c' e es el where
      *: "rightmost m (root_ptr r) = Some (Some e)" "r = plug j (Nd el c' e es Lf)" "ctx_after j = []" by blast
    have "root_ptr r \<noteq> None" using False by (cases r) auto
    with * reads have "rightmost m (Some a) = Some (Some e)" by (subst rightmost.simps) simp
    moreover have "Nd l c a ds r = plug (j @ [FR l c a ds]) (Nd el c' e es Lf)"
      using * by (simp add: plug_append)
    moreover have "ctx_after (j @ [FR l c a ds]) = []"
      using *(3) by (induction j rule: ctx_after.induct) auto
    ultimately show ?thesis unfolding root_ptr.simps by blast
  qed
qed simp

lemma climb_left_spec:
  assumes "repr m (plug k (Nd l c a ds r))"
  shows "(climb_left m (Some a) \<bind> PARENT m) = Some (last_ptr (map hd (ctx_before k)))"
  using assms
proof (induction k arbitrary: l c a ds r)
  case Nil
  then show ?case using focus_reads [OF Nil] by (subst climb_left.simps) simp
next
  case (Cons f k)
  note reads = focus_reads [OF Cons.prems]
  show ?case
  proof (cases f)
    case (FR s c' p ps)
    have "repr m (plug k (Nd s c' p ps (Nd l c a ds r)))" using Cons.prems FR by simp
    note rp = focus_reads [OF this]
    have "a \<notin> set (addrs s)" using Cons.prems FR by (auto simp: repr_plug)
    with rp reads FR show ?thesis
      using last_ptr_simps(2) [of "map hd (ctx_before k) @ map hd (groups s)" p]
      by (subst climb_left.simps) simp
  next
    case (FL c' p ps s)
    have r: "repr m (plug k (Nd (Nd l c a ds r) c' p ps s))" using Cons.prems FL by simp
    from focus_reads [OF r] reads FL have "climb_left m (Some a) = climb_left m (Some p)"
      by (subst climb_left.simps) simp
    with Cons.IH [OF r] FL show ?thesis by simp
  qed
qed

lemma TREE_PREV_spec:
  assumes rep: "repr m (plug k (Nd l c a ds r))"
  shows "TREE_PREV m (Some a) = Some (last_ptr (map hd (ctx_before k @ groups l)))"
proof (cases "l = Lf")
  case False
  have "repr m (plug (FL c a ds r # k) l)" using rep by simp
  from rightmost_spec [OF this False] obtain j c' e es el where
    "rightmost m (root_ptr l) = Some (Some e)" "l = plug j (Nd el c' e es Lf)" "ctx_after j = []" by blast
  moreover have "root_ptr l \<noteq> None" using False by (cases l) auto
  ultimately show ?thesis
    using focus_reads [OF rep]
      last_ptr_simps(2) [of "map hd (ctx_before k) @ map hd (ctx_before j) @ map hd (groups el)" e]
    by (auto simp: TREE_PREV_def groups_plug)
next
  case True
  note reads = focus_reads [OF rep]
  show ?thesis
  proof (cases k rule: top_ptr.cases)
    case (3 s c' p ps k')
    have "repr m (plug k' (Nd s c' p ps (Nd l c a ds r)))" using rep 3 by simp
    with focus_reads [OF this] reads True 3 show ?thesis
      using last_ptr_simps(2) [of "map hd (ctx_before k') @ map hd (groups s)" p] by (simp add: TREE_PREV_def)
  next
    case (2 c' p ps s k')
    have rp: "repr m (plug k' (Nd (Nd l c a ds r) c' p ps s))" using rep 2 by simp
    have "a \<notin> set (addrs s)" using rep 2 by (auto simp: repr_plug)
    with focus_reads [OF rp] reads True 2 climb_left_spec [OF rep] show ?thesis by (simp add: TREE_PREV_def)
  next
    case 1
    with reads True climb_left_spec [OF rep] show ?thesis by (simp add: TREE_PREV_def)
  qed
qed

lemma list_tail_chain:
  assumes "chain_at (rbh m) p ds" "NEXT m (Some a) = Some (hd_ptr ds)"
  shows "list_tail m (Some a) = Some (Some (last (a # ds)))"
  using assms
proof (induction ds arbitrary: a p)
  case Nil
  then show ?case by (subst list_tail.simps) simp
next
  case (Cons d ds)
  then have "NEXT m (Some d) = Some (hd_ptr ds)" by (simp add: access_defs)
  with Cons.IH [of "Some d" d] Cons.prems show ?case by (subst list_tail.simps) simp
qed

lemma ctx_append:
  "ctx_before (j @ k) = ctx_before k @ ctx_before j" "ctx_after (j @ k) = ctx_after j @ ctx_after k"
  by (induction j rule: ctx_before.induct) auto

lemma groups_focus:
  assumes "groups t = B @ (a # ds) # A"
  shows "\<exists>k l c r. t = plug k (Nd l c a ds r) \<and> ctx_before k @ groups l = B \<and> groups r @ ctx_after k = A"
  using assms
proof (induction t arbitrary: B A)
  case (Nd l c b bs r)
  from Nd.prems consider "B = groups l" "b = a" "bs = ds" "A = groups r"
    | us where "groups l = B @ (a # ds) # us" "A = us @ (b # bs) # groups r"
    | us where "groups r = us @ (a # ds) # A" "B = groups l @ (b # bs) # us"
    by (auto simp: append_eq_append_conv2 append_eq_Cons_conv Cons_eq_append_conv)
  then show ?case
  proof cases
    case 1
    then show ?thesis by (intro exI [of _ "[]"]) auto
  next
    case 2
    from Nd.IH(1) [OF 2(1)] obtain k l' c' r' where
      "l = plug k (Nd l' c' a ds r')" "ctx_before k @ groups l' = B" "groups r' @ ctx_after k = us" by blast
    with 2 show ?thesis
      by (intro exI [of _ "k @ [FL c b bs r]"] exI [of _ l'] exI [of _ c'] exI [of _ r'])
        (auto simp: plug_append ctx_append)
  next
    case 3
    from Nd.IH(2) [OF 3(1)] obtain k l' c' r' where
      "r = plug k (Nd l' c' a ds r')" "ctx_before k @ groups l' = us" "groups r' @ ctx_after k = A" by blast
    with 3 show ?thesis
      by (intro exI [of _ "k @ [FR l c b bs]"] exI [of _ l'] exI [of _ c'] exI [of _ r'])
        (auto simp: plug_append ctx_append)
  qed
qed simp

lemma list_tail_head:
  assumes "repr m t" "groups t = B @ (a # ds) # A"
  shows "list_tail m (Some a) = Some (last_ptr (a # ds))"
proof -
  from groups_focus [OF assms(2)] obtain k l c r where t: "t = plug k (Nd l c a ds r)" by blast
  with assms(1) have "repr m (plug k (Nd l c a ds r))" by simp
  from list_tail_chain [of m "Some a" ds a] focus_reads [OF this] this show ?thesis
    by (simp add: repr_plug last_ptr_def)
qed

lemma IDX_PREV_spec:
  assumes rep: "repr m t" and e: "addrs t = xs @ e # ys"
  shows "IDX_PREV m (Some e) = Some (last_ptr xs)"
proof -
  from e have "e \<in> set (addrs t)" by simp
  then obtain k l c a ds r where t: "t = plug k (Nd l c a ds r)" and g: "e \<in> set (a # ds)"
    using locate by blast
  then obtain us vs where uv: "a # ds = us @ e # vs" using split_list by fast
  have dist: "distinct (addrs t)" using rep by (simp add: repr_def)
  have "addrs t = (concat (ctx_before k) @ addrs l @ us) @ e # vs @ addrs r @ concat (ctx_after k)"
    using uv by (simp add: t addrs_plug)
  with e dist have xs: "xs = concat (ctx_before k @ groups l) @ us"
    using append_Cons_eq_iff [of e xs ys "concat (ctx_before k) @ addrs l @ us" "vs @ addrs r @ concat (ctx_after k)"]
    by (auto simp: addrs_groups)
  note rep' = rep [unfolded t] and reads = focus_reads [OF rep [unfolded t]]
  show ?thesis
  proof (cases us)
    case Nil
    with uv have ea: "e = a" by auto
    show ?thesis
    proof (cases "ctx_before k @ groups l" rule: rev_cases)
      case Nil
      with \<open>us = []\<close> ea reads TREE_PREV_spec [OF rep'] xs show ?thesis by (simp add: IDX_PREV_def)
    next
      case (snoc B g)
      then have gt: "groups t = B @ g # (a # ds) # groups r @ ctx_after k"
        unfolding t groups_plug by (metis append.assoc append_Cons append_Nil groups.simps(2))
      then obtain b bs where gb: "g = b # bs" using groups_nonempty [of t] by (cases g) auto
      from list_tail_head [OF rep, of B b bs] gt gb have tl: "list_tail m (Some b) = Some (last_ptr g)" by simp
      have tp: "TREE_PREV m (Some a) = Some (Some b)"
        unfolding TREE_PREV_spec [OF rep'] snoc gb by (simp add: last_ptr_def)
      have "last_ptr xs = last_ptr g" unfolding xs snoc using \<open>us = []\<close> gb by (simp add: last_ptr_append)
      with ea reads tp tl show ?thesis by (simp add: IDX_PREV_def)
    qed
  next
    case (Cons u us')
    with uv have ds: "ds = us' @ e # vs" and "u = a" by auto
    have chain: "chain_at (rbh m) (Some a) ds" using rep' by (simp add: repr_plug)
    have "PREV m (Some e) = Some (Some (last (a # us')))"
      using chain_node [of "rbh m" "Some a" us' e vs] chain ds by (simp add: access_defs)
    moreover have "last_ptr xs = Some (last (a # us'))" using xs Cons \<open>u = a\<close> by (simp add: last_ptr_def)
    ultimately show ?thesis by (simp add: IDX_PREV_def)
  qed
qed

section \<open>The ends\<close>

lemma minmax_loop_min:
  assumes "repr m (plug k t)" "val < 0"
  shows "minmax_loop m val (root_ptr t) p = Some (if t = Lf then p else hd_ptr (addrs t))"
  using assms
proof (induction t arbitrary: k p)
  case Lf
  then show ?case by (subst minmax_loop.simps) simp
next
  case (Nd l c a ds r)
  have "repr m (plug (FL c a ds r # k) l)" using Nd.prems by simp
  from Nd.IH(1) [OF this Nd.prems(2), of "Some a"] focus_reads [OF Nd.prems(1)] Nd.prems(2) show ?case
    by (subst minmax_loop.simps) (cases l; simp add: hd_ptr_append)
qed

lemma minmax_loop_max:
  assumes "repr m (plug k t)" "\<not> val < 0"
  shows "minmax_loop m val (root_ptr t) p = Some (if t = Lf then p else last_ptr (heads t))"
  using assms
proof (induction t arbitrary: k p)
  case Lf
  then show ?case by (subst minmax_loop.simps) simp
next
  case (Nd l c a ds r)
  have "repr m (plug (FR l c a ds # k) r)" using Nd.prems by simp
  from Nd.IH(2) [OF this Nd.prems(2), of "Some a"] focus_reads [OF Nd.prems(1)] Nd.prems(2) show ?case
    by (subst minmax_loop.simps) (cases r; simp add: last_ptr_def)
qed

lemma MINMAX_first:
  assumes "repr m t"
  shows "MINMAX m RB_NEGINF = Some (hd_ptr (addrs t))"
  using minmax_loop_min [of m "[]" t "-1" None] assms
  by (cases t) (auto simp: MINMAX_def RB_NEGINF_def repr_def)

lemma MINMAX_last:
  assumes "repr m t"
  shows "MINMAX m RB_INF = Some (last_ptr (addrs t))"
proof -
  have loop: "minmax_loop m 1 (rbroot m) None = Some (last_ptr (heads t))"
    using minmax_loop_max [of m "[]" t 1 None] assms by (cases t) (auto simp: repr_def)
  show ?thesis
  proof (cases "groups t" rule: rev_cases)
    case Nil
    then have "t = Lf" by (cases t) auto
    with loop show ?thesis by (simp add: MINMAX_def RB_INF_def)
  next
    case (snoc B g)
    then obtain b bs where gb: "g = b # bs" using groups_nonempty [of t] by (cases g) auto
    with list_tail_head [OF assms, of B b bs] snoc loop show ?thesis
      by (simp add: MINMAX_def RB_INF_def heads_def addrs_groups last_ptr_append last_ptr_def [of "[b]"])
  qed
qed

end
