(* ===== verification/Dm_Rbtree_Props.thy ===== *)
theory Dm_Rbtree_Props
  imports Dm_Rbtree_Walk
begin

text \<open>
  The red-black trees of \<^verbatim>\<open>dm_index.c\<close> as a whole: what insertion and removal do to the
  sequence of rows, that the tree stays balanced, and that the walk runs through the rows in
  both directions.
\<close>

fun rbt_height :: "rbt \<Rightarrow> nat" where
  "rbt_height Lf = 0"
| "rbt_height (Nd l _ _ _ r) = Suc (max (rbt_height l) (rbt_height r))"

lemma rbi_nodes: "rbi n t \<Longrightarrow> 2 ^ n \<le> length (groups t) + 1"
proof (induction n t rule: rbi.induct)
  case (2 n l a ds r)
  then show ?case by simp
next
  case (3 n l a ds r)
  then show ?case by simp
qed auto

lemma rbi_height: "rbi n t \<Longrightarrow> rbt_height t \<le> 2 * n + (if rcol t = RED then 1 else 0)"
proof (induction n t rule: rbi.induct)
  case (3 n l a ds r)
  then show ?case by (auto split: if_splits)
qed auto

lemma rb_tree_balanced: "rb_tree t \<Longrightarrow> 2 ^ rbt_height t \<le> (length (groups t) + 1) ^ 2"
proof -
  assume "rb_tree t"
  then obtain n where n: "rbi n t" "rcol t = BLACK" by (auto simp: rb_tree_def)
  have "rbt_height t \<le> 2 * n" using rbi_height [OF n(1)] n(2) by simp
  then have "2 ^ rbt_height t \<le> (2 :: nat) ^ (2 * n)" by (rule power_increasing) simp
  also have "\<dots> = (2 ^ n) ^ 2" by (simp add: power_mult [symmetric] mult.commute)
  also have "\<dots> \<le> (length (groups t) + 1) ^ 2" by (rule power_mono [OF rbi_nodes [OF n(1)]]) simp
  finally show ?thesis .
qed

text \<open>
  C12: Inserting a row into an index: a row that compares equal to a node goes into the list of
  that node, right behind it, and the node is returned; any other row becomes a node between
  the smaller and the larger ones. The tree is a red-black tree again, of a height logarithmic
  in its nodes, and no memory outside of it is written.
\<close>
theorem rbtree_insert:
  assumes "repr m t" "rb_tree t" "e \<notin> set (addrs t)" "rbh m e = Some zero_node"
    and "\<And>a. a \<in> set (heads t) \<Longrightarrow> cmp a = Some (c a)" "cut c (heads t)"
  shows "\<exists>m' res t'. INSERT cmp m (Some e) = Some (m', res) \<and> repr m' t' \<and> rb_tree t' \<and>
    inserted c e (groups t) (groups t') res \<and> unchanged (insert e (set (addrs t))) m m' \<and>
    2 ^ rbt_height t' \<le> (length (groups t') + 1) ^ 2"
proof -
  obtain m' res t' where "INSERT cmp m (Some e) = Some (m', res)" "repr m' t'" "rb_tree t'"
    "inserted c e (groups t) (groups t') res" "unchanged (insert e (set (addrs t))) m m'"
    by (rule INSERT_spec [OF assms(1-5)]) (use assms in auto)
  with rb_tree_balanced [of t'] show ?thesis by blast
qed

text \<open>Three nodes, 5, 6 and 7, whose addresses are their keys; the row 4 goes to the left end.\<close>

definition three_nodes :: rbt where
  "three_nodes = Nd (Nd Lf RED 5 [] Lf) BLACK 6 [] (Nd Lf RED 7 [9] Lf)"

definition three_nodes_mem :: rbmem where
  "three_nodes_mem = \<lparr>rbh = [4 \<mapsto> zero_node,
     5 \<mapsto> \<lparr>rbe_left = None, rbe_right = None, rbe_parent = Some 6, rbe_color = RED, rbe_prev = None, rbe_next = None\<rparr>,
     6 \<mapsto> \<lparr>rbe_left = Some 5, rbe_right = Some 7, rbe_parent = None, rbe_color = BLACK, rbe_prev = None, rbe_next = None\<rparr>,
     7 \<mapsto> \<lparr>rbe_left = None, rbe_right = None, rbe_parent = Some 6, rbe_color = RED, rbe_prev = None, rbe_next = Some 9\<rparr>,
     9 \<mapsto> \<lparr>rbe_left = None, rbe_right = None, rbe_parent = None, rbe_color = WHITE, rbe_prev = Some 7, rbe_next = None\<rparr>],
     rbroot = Some 6\<rparr>"

lemma three_nodes_repr: "repr three_nodes_mem three_nodes" "rb_tree three_nodes"
  by (simp_all add: repr_def three_nodes_mem_def three_nodes_def rb_tree_def exI [of _ "1 :: nat"])

theorem rbtree_insert_witness:
  "\<exists>m' t'. INSERT (\<lambda>a. Some (4 - int a)) three_nodes_mem (Some 4) = Some (m', None) \<and> repr m' t' \<and>
    addrs t' = [4, 5, 6, 7, 9] \<and> rb_tree t'"
proof -
  have "cut (\<lambda>a. 4 - int a) (heads three_nodes)" "4 \<notin> set (addrs three_nodes)" "rbh three_nodes_mem 4 = Some zero_node"
    by (simp_all add: cut_def heads_def three_nodes_def three_nodes_mem_def)
  from rbtree_insert [OF three_nodes_repr this(2,3) refl this(1)] obtain m' res t'
    where r: "INSERT (\<lambda>a. Some (4 - int a)) three_nodes_mem (Some 4) = Some (m', res)" "repr m' t'" "rb_tree t'"
      "inserted (\<lambda>a. 4 - int a) 4 (groups three_nodes) (groups t') res" by blast
  from r(4) have "res = None" "groups t' = [[4], [5], [6], [7, 9]]"
    by (auto simp: inserted_def three_nodes_def append_eq_Cons_conv Cons_eq_append_conv)
  with r show ?thesis by (auto simp: addrs_groups)
qed

text \<open>
  C13: Removing a row takes exactly it out of the index, from the list of a node or together with
  its node; the tree is a red-black tree again, of logarithmic height, the links of the row are
  cleared and no memory outside of the tree is written.
\<close>
theorem rbtree_remove:
  assumes "repr m t" "rb_tree t" "e \<in> set (addrs t)"
  shows "\<exists>m' t'. REMOVE m (Some e) = Some m' \<and> repr m' t' \<and> rb_tree t' \<and>
    groups t' = remove_row e (groups t) \<and> rbh m' e = Some zero_node \<and> unchanged (set (addrs t)) m m' \<and>
    2 ^ rbt_height t' \<le> (length (groups t') + 1) ^ 2"
proof -
  obtain m' t' where "REMOVE m (Some e) = Some m'" "repr m' t'" "rb_tree t'"
    "groups t' = remove_row e (groups t)" "rbh m' e = Some zero_node" "unchanged (set (addrs t)) m m'"
    by (rule REMOVE_spec [OF assms])
  with rb_tree_balanced [of t'] show ?thesis by blast
qed

theorem rbtree_remove_witness:
  "\<exists>m' t'. REMOVE three_nodes_mem (Some 6) = Some m' \<and> repr m' t' \<and> addrs t' = [5, 7, 9] \<and> rb_tree t'"
proof -
  have "6 \<in> set (addrs three_nodes)" by (simp add: three_nodes_def)
  from rbtree_remove [OF three_nodes_repr this] obtain m' t' where
    r: "REMOVE three_nodes_mem (Some 6) = Some m'" "repr m' t'" "rb_tree t'" "groups t' = remove_row 6 (groups three_nodes)"
    by blast
  from r(4) have "addrs t' = [5, 7, 9]" by (simp add: addrs_groups remove_row_def three_nodes_def)
  with r show ?thesis by blast
qed

text \<open>
  C16: The walk over an index: it starts with the first and ends with the last row, the next row
  of each is the following one, and going back undoes going forwards; the rows of a node's list
  come right after the node.
\<close>
theorem rbtree_walk:
  assumes "repr m t"
  shows "MINMAX m RB_NEGINF = Some (hd_ptr (concat (groups t))) \<and>
    MINMAX m RB_INF = Some (last_ptr (concat (groups t))) \<and>
    (\<forall>xs e ys. concat (groups t) = xs @ e # ys \<longrightarrow>
       IDX_NEXT m (Some e) = Some (hd_ptr ys) \<and> IDX_PREV m (Some e) = Some (last_ptr xs))"
  using MINMAX_first [OF assms] MINMAX_last [OF assms] IDX_NEXT_spec [OF assms] IDX_PREV_spec [OF assms]
  by (simp add: addrs_groups)

theorem rbtree_walk_witness:
  "MINMAX three_nodes_mem RB_NEGINF = Some (Some 5) \<and> IDX_NEXT three_nodes_mem (Some 7) = Some (Some 9) \<and>
   IDX_PREV three_nodes_mem (Some 5) = Some None"
proof -
  have g: "concat (groups three_nodes) = [5, 6, 7, 9]" by (simp add: three_nodes_def)
  note w = rbtree_walk [OF three_nodes_repr(1), unfolded g]
  from w have "MINMAX three_nodes_mem RB_NEGINF = Some (Some 5)" by simp
  moreover have "IDX_NEXT three_nodes_mem (Some 7) = Some (Some 9)"
    using w [THEN conjunct2, THEN conjunct2, rule_format, of "[5, 6]" 7 "[9]"] by simp
  moreover have "IDX_PREV three_nodes_mem (Some 5) = Some None"
    using w [THEN conjunct2, THEN conjunct2, rule_format, of "[]" 5 "[6, 7, 9]"] by (simp add: last_ptr_def)
  ultimately show ?thesis by blast
qed

end
