(* ===== verification/Dm_Token.thy ===== *)
theory Dm_Token
  imports Dm_Prelude
begin

text \<open>
  The data model vocabulary of \<^verbatim>\<open>mand/dm_token.h\<close>: selectors (paths of 16-bit
  identifiers), typed values with their union, flag words and type-checked accessors, and
  the schema (elements, tables, index definitions) that a generator emits as C tables. The
  comparison functions of \<^verbatim>\<open>dm_store.c\<close> that need no store are here as well.

  The union \<^verbatim>\<open>_v\<close> is sixteen bytes: a 128-bit number of a little-endian LP64
  machine, or a pointer to a live object. The parity word and the structure magics are
  detectors for memory corruption by other code and are not modelled; using a freed object
  is a fault of the model instead.
\<close>

section \<open>Selectors\<close>

type_synonym cstr = "u8 list"
type_synonym dm_id = u16
type_synonym dm_selector = "dm_id list"

definition DM_SELECTOR_LEN :: nat where
  "DM_SELECTOR_LEN = 16"

definition DM_ERR :: dm_id where
  "DM_ERR = 0xFFFF"

text \<open>A \<open>dm_selector\<close> object is an array of sixteen identifiers.\<close>

definition is_selector :: "dm_selector \<Rightarrow> bool" where
  "is_selector sel \<longleftrightarrow> length sel = DM_SELECTOR_LEN"

function sellen_from :: "nat \<Rightarrow> dm_selector \<Rightarrow> nat option" where
  "sellen_from i sel =
     (if i < DM_SELECTOR_LEN
      then do { id \<leftarrow> nth_opt sel i; if id \<noteq> 0 then sellen_from (i + 1) sel else Some i }
      else Some i)"
  by pat_completeness auto
termination by (relation "measure (\<lambda>(i, _). DM_SELECTOR_LEN - i)") auto

definition dm_sellen :: "dm_selector \<Rightarrow> nat option" where
  "dm_sellen sel = sellen_from 0 sel"

text \<open>\<^verbatim>\<open>memcpy (s1, s2, sizeof (dm_selector))\<close>; the result is the new \<^verbatim>\<open>s1\<close>.\<close>

definition dm_selcpy :: "dm_selector \<Rightarrow> dm_selector \<Rightarrow> dm_selector option" where
  "dm_selcpy s1 s2 = do { oassert (is_selector s1); oassert (is_selector s2); Some s2 }"

function selcat_from :: "nat \<Rightarrow> dm_selector \<Rightarrow> dm_id \<Rightarrow> dm_selector option" where
  "selcat_from i sel new =
     (if i < DM_SELECTOR_LEN
      then do {
        x \<leftarrow> nth_opt sel i;
        if x = 0
        then do {
          sel \<leftarrow> upd_opt sel i new;
          if i + 1 < DM_SELECTOR_LEN then upd_opt sel (i + 1) 0 else Some sel }
        else selcat_from (i + 1) sel new }
      else Some sel)"
  by pat_completeness auto
termination by (relation "measure (\<lambda>(i, _). DM_SELECTOR_LEN - i)") auto

definition dm_selcat :: "dm_selector \<Rightarrow> dm_id \<Rightarrow> dm_selector option" where
  "dm_selcat sel new = selcat_from 0 sel new"

text \<open>
  \<open>dm_selcmp\<close> compares at most \<open>len\<close> identifiers and stops where both selectors end;
  \<^verbatim>\<open>NULL\<close> is below every selector, and equal to nothing.
\<close>

function selcmp_from :: "nat \<Rightarrow> dm_selector \<Rightarrow> dm_selector \<Rightarrow> nat \<Rightarrow> int option" where
  "selcmp_from i s1 s2 len =
     (if i < len
      then do {
        x \<leftarrow> nth_opt s1 i;
        y \<leftarrow> nth_opt s2 i;
        if x = 0 \<and> y = 0 then Some 0
        else if x < y then Some (-1)
        else if x > y then Some 1
        else selcmp_from (i + 1) s1 s2 len }
      else Some 0)"
  by pat_completeness auto
termination by (relation "measure (\<lambda>(i, _, _, len). len - i)") auto

definition dm_selcmp :: "dm_selector option \<Rightarrow> dm_selector option \<Rightarrow> nat \<Rightarrow> int option" where
  "dm_selcmp s1 s2 len =
     (case (s1, s2) of
        (Some a, Some b) \<Rightarrow> selcmp_from 0 a b len
      | (Some a, None) \<Rightarrow> Some 1
      | (None, _) \<Rightarrow> Some (-1))"

declare sellen_from.simps [simp del] selcat_from.simps [simp del] selcmp_from.simps [simp del]

text \<open>The path a selector stands for: its identifiers before the first zero.\<close>

definition path :: "dm_selector \<Rightarrow> dm_id list" where
  "path sel = takeWhile (\<lambda>x. x \<noteq> 0) (take DM_SELECTOR_LEN sel)"

text \<open>Three-way comparison of paths as lists of numbers.\<close>

fun path_cmp :: "dm_id list \<Rightarrow> dm_id list \<Rightarrow> int" where
  "path_cmp [] [] = 0"
| "path_cmp [] (_ # _) = -1"
| "path_cmp (_ # _) [] = 1"
| "path_cmp (x # xs) (y # ys) = (if x < y then -1 else if y < x then 1 else path_cmp xs ys)"

section \<open>Three-way comparisons\<close>

text \<open>
  What the ordered containers (the index trees and the queues) need of a comparison
  function on the domain \<open>D\<close>: it does not fault, it is antisymmetric in sign, and
  its order is transitive.
\<close>

locale three_way =
  fixes D :: "'a \<Rightarrow> bool" and cmp :: "'a \<Rightarrow> 'a \<Rightarrow> int option"
  assumes cmp_total: "D x \<Longrightarrow> D y \<Longrightarrow> \<exists>r. cmp x y = Some r"
    and cmp_refl: "D x \<Longrightarrow> cmp x x = Some 0"
    and cmp_flip: "D x \<Longrightarrow> D y \<Longrightarrow> cmp x y = Some r \<Longrightarrow> \<exists>q. cmp y x = Some q \<and> sgn q = - sgn r"
    and cmp_trans: "D x \<Longrightarrow> D y \<Longrightarrow> D z \<Longrightarrow> cmp x y = Some r \<Longrightarrow> cmp y z = Some q \<Longrightarrow>
      r \<le> 0 \<Longrightarrow> q \<le> 0 \<Longrightarrow> \<exists>p. cmp x z = Some p \<and> p \<le> 0 \<and> (p = 0 \<longrightarrow> r = 0 \<and> q = 0)"
begin

definition lt :: "'a \<Rightarrow> 'a \<Rightarrow> bool" where
  "lt x y \<longleftrightarrow> (\<exists>r. cmp x y = Some r \<and> r < 0)"

definition eqv :: "'a \<Rightarrow> 'a \<Rightarrow> bool" where
  "eqv x y \<longleftrightarrow> cmp x y = Some 0"

lemma lt_iff: "D x \<Longrightarrow> D y \<Longrightarrow> lt x y \<longleftrightarrow> (\<exists>r. cmp y x = Some r \<and> 0 < r)"
  unfolding lt_def by (metis cmp_flip neg_0_less_iff_less neg_less_0_iff_less sgn_greater sgn_less)

lemma eqv_refl: "D x \<Longrightarrow> eqv x x"
  by (simp add: eqv_def cmp_refl)

lemma eqv_sym: "D x \<Longrightarrow> D y \<Longrightarrow> eqv x y \<Longrightarrow> eqv y x"
  unfolding eqv_def by (metis cmp_flip neg_equal_0_iff_equal sgn_0 sgn_eq_0_iff)

lemma lt_irrefl: "D x \<Longrightarrow> \<not> lt x x"
  by (simp add: lt_def cmp_refl)

lemma lt_trans: "D x \<Longrightarrow> D y \<Longrightarrow> D z \<Longrightarrow> lt x y \<Longrightarrow> lt y z \<Longrightarrow> lt x z"
  unfolding lt_def using cmp_trans [of x y z] by fastforce

lemma eqv_trans: "D x \<Longrightarrow> D y \<Longrightarrow> D z \<Longrightarrow> eqv x y \<Longrightarrow> eqv y z \<Longrightarrow> eqv x z"
proof -
  assume *: "D x" "D y" "D z" "eqv x y" "eqv y z"
  then obtain p where p: "cmp x z = Some p" "p \<le> 0" unfolding eqv_def by (metis cmp_trans order_refl)
  from * have "eqv z y" "eqv y x" by (auto intro: eqv_sym)
  with * obtain q where q: "cmp z x = Some q" "q \<le> 0" unfolding eqv_def by (metis cmp_trans order_refl)
  from cmp_flip [OF *(1,3) p(1)] q p have "p = 0" by (auto simp: sgn_if split: if_splits)
  with p show "eqv x z" by (simp add: eqv_def)
qed

lemma lt_eqv_trans: "D x \<Longrightarrow> D y \<Longrightarrow> D z \<Longrightarrow> lt x y \<Longrightarrow> eqv y z \<Longrightarrow> lt x z"
  unfolding lt_def eqv_def using cmp_trans [of x y z] by fastforce

lemma eqv_lt_trans: "D x \<Longrightarrow> D y \<Longrightarrow> D z \<Longrightarrow> eqv x y \<Longrightarrow> lt y z \<Longrightarrow> lt x z"
  unfolding lt_def eqv_def using cmp_trans [of x y z] by fastforce

lemma trichotomy: "D x \<Longrightarrow> D y \<Longrightarrow> lt x y \<or> eqv x y \<or> lt y x"
  using cmp_total [of x y] lt_iff [of y x] 
  by (auto simp: lt_def eqv_def not_less le_less)

lemma lt_not_eqv: "D x \<Longrightarrow> D y \<Longrightarrow> lt x y \<Longrightarrow> \<not> eqv x y \<and> \<not> eqv y x \<and> \<not> lt y x"
  using eqv_sym lt_irrefl lt_trans by (metis eqv_def less_irrefl lt_def option.inject)

end

section \<open>Selectors are paths\<close>

abbreviation nz :: "dm_id \<Rightarrow> bool" where
  "nz x \<equiv> x \<noteq> 0"

lemma path_selector: "is_selector sel \<Longrightarrow> path sel = takeWhile nz sel"
  by (simp add: path_def is_selector_def)

lemma path_length: "length (path sel) \<le> 16"
proof -
  have "length (path sel) \<le> length (take 16 sel)"
    unfolding path_def DM_SELECTOR_LEN_def by (rule length_takeWhile_le)
  then show ?thesis by simp
qed

lemma path_nz: "x \<in> set (path sel) \<Longrightarrow> x \<noteq> 0"
  by (auto simp: path_def dest: set_takeWhileD)

lemma drop_Cons_nth: "i < length xs \<Longrightarrow> drop i xs = xs ! i # drop (Suc i) xs"
  by (rule Cons_nth_drop_Suc [symmetric])

lemma selcmp_from_path:
  assumes "is_selector a" "is_selector b"
  shows "selcmp_from i a b 16 = Some (path_cmp (takeWhile nz (drop i a)) (takeWhile nz (drop i b)))"
  using assms
proof (induction i a b "16::nat" rule: selcmp_from.induct)
  case (1 i a b)
  show ?case
  proof (cases "i < 16")
    case True
    with 1 have "i < length a" "i < length b" by (simp_all add: is_selector_def DM_SELECTOR_LEN_def)
    note unfold = drop_Cons_nth [OF this(1)] drop_Cons_nth [OF this(2)]
    from 1 True \<open>i < length a\<close> \<open>i < length b\<close> show ?thesis
      by (subst selcmp_from.simps) (auto simp: unfold word_neq_0_conv not_less_iff_gr_or_eq)
  next
    case False
    with 1 show ?thesis
      by (subst selcmp_from.simps) (simp add: is_selector_def DM_SELECTOR_LEN_def)
  qed
qed

lemma dm_selcmp_path:
  "is_selector a \<Longrightarrow> is_selector b \<Longrightarrow>
   dm_selcmp (Some a) (Some b) DM_SELECTOR_LEN = Some (path_cmp (path a) (path b))"
  by (simp add: dm_selcmp_def DM_SELECTOR_LEN_def selcmp_from_path path_selector)

lemma path_cmp_zero [simp]: "path_cmp xs ys = 0 \<longleftrightarrow> xs = ys"
  by (induction xs ys rule: path_cmp.induct) auto

lemma path_cmp_flip: "path_cmp ys xs = - path_cmp xs ys"
  by (induction xs ys rule: path_cmp.induct) auto

lemma path_cmp_le_trans: "path_cmp xs ys \<le> 0 \<Longrightarrow> path_cmp ys zs \<le> 0 \<Longrightarrow> path_cmp xs zs \<le> 0"
proof (induction xs ys arbitrary: zs rule: path_cmp.induct)
  case (2 y ys)
  then show ?case by (cases zs) auto
next
  case (4 x xs y ys)
  then show ?case by (cases zs) (auto split: if_splits)
qed (auto split: if_splits)

lemma sellen_from_path:
  assumes "is_selector sel" "i \<le> 16"
  shows "sellen_from i sel = Some (i + length (takeWhile nz (drop i sel)))"
  using assms
proof (induction i sel rule: sellen_from.induct)
  case (1 i sel)
  show ?case
  proof (cases "i < 16")
    case True
    with 1 have "i < length sel" by (simp add: is_selector_def DM_SELECTOR_LEN_def)
    with 1 True show ?thesis
      by (subst sellen_from.simps) (simp add: DM_SELECTOR_LEN_def drop_Cons_nth)
  next
    case False
    with 1 show ?thesis
      by (subst sellen_from.simps) (simp add: is_selector_def DM_SELECTOR_LEN_def)
  qed
qed

lemma dm_sellen_path: "is_selector sel \<Longrightarrow> dm_sellen sel = Some (length (path sel))"
  by (simp add: dm_sellen_def sellen_from_path path_selector)

text \<open>
  Appending: the first free place gets the identifier and, where there is room, a zero
  behind it. A selector of sixteen identifiers stays as it is.
\<close>

lemma selcat_from_result:
  assumes "is_selector sel" "i \<le> length (path sel)"
  shows "selcat_from i sel new =
    Some (let n = length (path sel) in
          if n < 16 then (if n + 1 < 16 then sel[n := new, n + 1 := 0] else sel[n := new]) else sel)"
  using assms
proof (induction i sel new rule: selcat_from.induct)
  case (1 i sel new)
  from 1 have len: "length sel = 16" by (simp add: is_selector_def DM_SELECTOR_LEN_def)
  have le: "length (path sel) \<le> 16" by (rule path_length)
  show ?case
  proof (cases "i < length (path sel)")
    case True
    with le len have "i < 16" "i < length sel" by auto
    moreover have "sel ! i \<noteq> 0"
      using path_nz [OF nth_mem [OF True]] True 1(2)
      by (simp add: path_selector takeWhile_nth)
    moreover from True have "i + 1 \<le> length (path sel)" by simp
    ultimately show ?thesis using 1
      by (subst selcat_from.simps) (simp add: DM_SELECTOR_LEN_def)
  next
    case False
    with 1 have i: "i = length (path sel)" by simp
    show ?thesis
    proof (cases "i < 16")
      case True
      with i 1 len have "sel ! i = 0"
        using nth_length_takeWhile [of nz sel] by (simp add: path_selector)
      with True i len show ?thesis
        by (subst selcat_from.simps) (simp add: DM_SELECTOR_LEN_def Let_def)
    next
      case False
      with i show ?thesis by (subst selcat_from.simps) (simp add: DM_SELECTOR_LEN_def)
    qed
  qed
qed

lemma dm_selcat_result:
  "is_selector sel \<Longrightarrow> dm_selcat sel new =
    Some (let n = length (path sel) in
          if n < 16 then (if n + 1 < 16 then sel[n := new, n + 1 := 0] else sel[n := new]) else sel)"
  by (simp add: dm_selcat_def selcat_from_result)

lemma take_path: "is_selector sel \<Longrightarrow> take (length (path sel)) sel = path sel"
  by (metis path_selector takeWhile_eq_take)

lemma path_selcat:
  assumes "is_selector sel" and "length (path sel) < 16"
  obtains sel' where "dm_selcat sel new = Some sel'" "is_selector sel'"
    "path sel' = (if new = 0 then path sel else path sel @ [new])"
proof -
  let ?n = "length (path sel)"
  let ?s = "if ?n + 1 < 16 then sel[?n := new, ?n + 1 := 0] else sel[?n := new]"
  have len: "length sel = 16" using assms by (simp add: is_selector_def DM_SELECTOR_LEN_def)
  then have s: "is_selector ?s" by (simp add: is_selector_def DM_SELECTOR_LEN_def)
  have split: "?s = path sel @ new # drop (Suc ?n) ?s"
  proof -
    have "take ?n ?s = path sel" using take_path [OF assms(1)] by simp
    moreover have "?s ! ?n = new" using assms(2) len by simp
    ultimately show ?thesis
      using id_take_nth_drop [of ?n ?s] assms(2) len by simp
  qed
  have rest: "takeWhile nz (drop (Suc ?n) ?s) = []"
  proof (cases "?n + 1 < 16")
    case True
    then have "drop (Suc ?n) ?s = ?s ! Suc ?n # drop (Suc (Suc ?n)) ?s"
      using len by (intro drop_Cons_nth) simp
    with True len show ?thesis by simp
  qed (use len in simp)
  have nzp: "\<forall>x \<in> set (path sel). nz x" by (auto dest: path_nz)
  have "path ?s = takeWhile nz (path sel @ new # drop (Suc ?n) ?s)"
    using path_selector [OF s] split by simp
  also have "\<dots> = (if new = 0 then path sel else path sel @ [new])"
    using nzp rest by (simp add: takeWhile_append2)
  finally have "path ?s = (if new = 0 then path sel else path sel @ [new])" .
  moreover have "dm_selcat sel new = Some ?s"
    using assms by (simp add: dm_selcat_result Let_def)
  ultimately show thesis using s that by blast
qed

interpretation sel_order: three_way is_selector "\<lambda>a b. dm_selcmp (Some a) (Some b) DM_SELECTOR_LEN"
proof
  fix x y z :: dm_selector
  show "\<exists>r. dm_selcmp (Some x) (Some y) DM_SELECTOR_LEN = Some r" if "is_selector x" "is_selector y"
    using that by (simp add: dm_selcmp_path)
  show "dm_selcmp (Some x) (Some x) DM_SELECTOR_LEN = Some 0" if "is_selector x"
    using that by (simp add: dm_selcmp_path)
  show "\<exists>q. dm_selcmp (Some y) (Some x) DM_SELECTOR_LEN = Some q \<and> sgn q = - sgn r"
    if "is_selector x" "is_selector y" "dm_selcmp (Some x) (Some y) DM_SELECTOR_LEN = Some r" for r
    using that path_cmp_flip [of "path y" "path x"] by (auto simp: dm_selcmp_path sgn_minus)
  show "\<exists>p. dm_selcmp (Some x) (Some z) DM_SELECTOR_LEN = Some p \<and> p \<le> 0 \<and> (p = 0 \<longrightarrow> r = 0 \<and> q = 0)"
    if "is_selector x" "is_selector y" "is_selector z"
      "dm_selcmp (Some x) (Some y) DM_SELECTOR_LEN = Some r"
      "dm_selcmp (Some y) (Some z) DM_SELECTOR_LEN = Some q" "r \<le> 0" "q \<le> 0" for r q
  proof -
    from that have rq: "r = path_cmp (path x) (path y)" "q = path_cmp (path y) (path z)"
      by (simp_all add: dm_selcmp_path)
    have "path_cmp (path x) (path z) \<le> 0" using that rq path_cmp_le_trans by auto
    moreover have "r = 0 \<and> q = 0" if "path x = path z"
      using that rq \<open>r \<le> 0\<close> \<open>q \<le> 0\<close> path_cmp_flip [of "path z" "path y"] by auto
    ultimately show ?thesis using that by (simp add: dm_selcmp_path)
  qed
qed

end
