(* ===== verification/Dm_Rc.thy ===== *)
theory Dm_Rc
  imports Dm_Prelude
begin

text \<open>
  The result codes of the configuration protocol, which \<^verbatim>\<open>libdmconfig/dmconfig.xml\<close> defines
  and the build turns into \<^verbatim>\<open>codes.h\<close>.
\<close>

datatype rc =
    RC_OK | RC_ERR_CONNECTION | RC_ERR_MISC | RC_ERR_ALLOC | RC_ERR_INVALID_AVP_LENGTH
  | RC_ERR_AVP_MISFORMED | RC_ERR_AVP_END | RC_ERR_INVALID_SESSIONID | RC_ERR_REQUIRES_CFGSESSION
  | RC_ERR_CANNOT_OPEN_CFGSESSION | RC_ERR_CANNOT_SUBSCRIBE_NOTIFY | RC_ERR_REQUIRES_NOTIFY
  | RC_ERR_TIMEOUT | RC_ERR_OPERATION_IN_PROGRESS | RC_ERR_HOSTNAME_RESOLUTION
  | RC_ERR_INVALID_AVP_TYPE | RC_ERR_VALUE_NOT_FOUND
  | RC_ONE \<comment> \<open>the literal 1 that some encoders return\<close>

fun rc_number :: "rc \<Rightarrow> u32" where
  "rc_number RC_OK = 0"
| "rc_number RC_ERR_CONNECTION = 0x8001"
| "rc_number RC_ERR_MISC = 0x8002"
| "rc_number RC_ERR_ALLOC = 0x8003"
| "rc_number RC_ERR_INVALID_AVP_LENGTH = 0x8004"
| "rc_number RC_ERR_AVP_MISFORMED = 0x8005"
| "rc_number RC_ERR_AVP_END = 0x8006"
| "rc_number RC_ERR_INVALID_SESSIONID = 0x8007"
| "rc_number RC_ERR_REQUIRES_CFGSESSION = 0x8008"
| "rc_number RC_ERR_CANNOT_OPEN_CFGSESSION = 0x8009"
| "rc_number RC_ERR_CANNOT_SUBSCRIBE_NOTIFY = 0x800A"
| "rc_number RC_ERR_REQUIRES_NOTIFY = 0x800B"
| "rc_number RC_ERR_TIMEOUT = 0x800C"
| "rc_number RC_ERR_OPERATION_IN_PROGRESS = 0x800D"
| "rc_number RC_ERR_HOSTNAME_RESOLUTION = 0x800E"
| "rc_number RC_ERR_INVALID_AVP_TYPE = 0x800F"
| "rc_number RC_ERR_VALUE_NOT_FOUND = 0x8010"
| "rc_number RC_ONE = 1"

end
