(* ===== verification/Dm_Value.thy ===== *)
theory Dm_Value
  imports Dm_Token Dm_Rc
begin

text \<open>
  Types, flags, values and the schema of \<^verbatim>\<open>mand/dm_token.h\<close>, and the store-independent
  functions of \<^verbatim>\<open>dm_store.c\<close> on enumerations, bytes and strings.

  A value is its union, its notification levels (two bits for each of sixteen slots), its
  flags and the type tag that the accessors assert. An \<^verbatim>\<open>int\<close> is a 32-bit word read
  with \<open>sint\<close>. Function pointers of the generated tables are numbers that an
  environment resolves (theory \<open>Dm_State\<close>).
\<close>

section \<open>Types, flags and results\<close>

datatype dm_type =
    T_NONE | T_ANY
  | T_TOKEN | T_OBJECT | T_INSTANCE
  | T_POINTER
  | T_ELEMENT | T_UINT | T_INT | T_BOOL | T_STR | T_BINARY | T_BASE64 | T_DATE | T_COUNTER
  | T_ENUM | T_SELECTOR | T_IPADDR4 | T_IPADDR6 | T_INT64 | T_UINT64 | T_TICKS

definition F_READ :: u16 where "F_READ = push_bit 0 1"
definition F_WRITE :: u16 where "F_WRITE = push_bit 1 1"
definition F_GET :: u16 where "F_GET = push_bit 2 1"
definition F_SET :: u16 where "F_SET = push_bit 3 1"
definition F_ADD :: u16 where "F_ADD = push_bit 4 1"
definition F_DEL :: u16 where "F_DEL = push_bit 5 1"
definition F_SYSTEM :: u16 where "F_SYSTEM = push_bit 6 1"
definition F_INDEX :: u16 where "F_INDEX = push_bit 7 1"
definition F_ACS_NTFY :: u16 where "F_ACS_NTFY = push_bit 9 1"
definition F_ACS_NO_NTFY :: u16 where "F_ACS_NO_NTFY = push_bit 10 1"
definition F_INTERNAL :: u16 where "F_INTERNAL = push_bit 11 1"
definition F_MAP_ID :: u16 where "F_MAP_ID = push_bit 12 1"
definition F_VERSION :: u16 where "F_VERSION = push_bit 13 1"
definition F_DATETIME :: u16 where "F_DATETIME = push_bit 14 1"
definition F_ARRAY :: u16 where "F_ARRAY = push_bit 15 1"

definition IDX_UNIQUE :: u16 where "IDX_UNIQUE = push_bit 0 1"

definition NO_NOTIFY :: u32 where "NO_NOTIFY = 0"
definition PASSIVE_NOTIFY :: u32 where "PASSIVE_NOTIFY = 1"
definition ACTIVE_NOTIFY :: u32 where "ACTIVE_NOTIFY = 2"

definition DV_NONE :: u16 where "DV_NONE = 0"
definition DV_NOTIFY :: u16 where "DV_NOTIFY = push_bit 0 1"
definition DV_UPDATE_PENDING :: u16 where "DV_UPDATE_PENDING = push_bit 1 1"
definition DV_UPDATED :: u16 where "DV_UPDATED = push_bit 2 1"
definition DV_DELETED :: u16 where "DV_DELETED = push_bit 3 1"

lemmas dv_flag_defs = DV_NONE_def DV_NOTIFY_def DV_UPDATE_PENDING_def DV_UPDATED_def DV_DELETED_def

text \<open>\<^verbatim>\<open>flags & F\<close> used as a condition.\<close>

definition has :: "u16 \<Rightarrow> u16 \<Rightarrow> bool" where
  "has flags f \<longleftrightarrow> flags AND f \<noteq> 0"

text \<open>
  The server's callbacks return protocol codes through the enumeration as well: \<open>DM_RC\<close>. The
  numbers 0 and 1 are \<open>DM_OK\<close> and \<open>DM_ERROR\<close> in both.
\<close>

datatype DM_RESULT =
    DM_OK | DM_ERROR | DM_OOM | DM_INVALID_TYPE | DM_INVALID_VALUE | DM_VALUE_NOT_FOUND
  | DM_FILE_NOT_FOUND
  | DM_RC rc

definition as_result :: "rc \<Rightarrow> DM_RESULT" where
  "as_result r = (if r = RC_OK then DM_OK else if r = RC_ONE then DM_ERROR else DM_RC r)"

fun result_number :: "DM_RESULT \<Rightarrow> u32" where
  "result_number DM_OK = 0"
| "result_number DM_ERROR = 1"
| "result_number DM_OOM = 2"
| "result_number DM_INVALID_TYPE = 3"
| "result_number DM_INVALID_VALUE = 4"
| "result_number DM_VALUE_NOT_FOUND = 5"
| "result_number DM_FILE_NOT_FOUND = 6"
| "result_number (DM_RC r) = rc_number r"

section \<open>Values\<close>

datatype dm_union = V_bits "128 word" | V_ptr addr

record DM_VALUE =
  dv_v :: dm_union
  dv_notify :: u32
  dv_flags :: u16
  dv_type :: dm_type

definition zero_value :: DM_VALUE where
  "zero_value = \<lparr>dv_v = V_bits 0, dv_notify = 0, dv_flags = 0, dv_type = T_NONE\<rparr>"

text \<open>
  Reading and writing a member of the union. A pointer is read from the low eight bytes:
  all zero is \<^verbatim>\<open>NULL\<close>, and any other number is not the address of an object. Writing a
  member leaves the bytes above it; the unspecified high bytes left by a pointer read as zero.
\<close>

fun rd32 :: "dm_union \<Rightarrow> u32 option" where
  "rd32 (V_bits w) = Some (ucast w)"
| "rd32 (V_ptr _) = None"

fun rd64 :: "dm_union \<Rightarrow> u64 option" where
  "rd64 (V_bits w) = Some (ucast w)"
| "rd64 (V_ptr _) = None"

fun rd128 :: "dm_union \<Rightarrow> 128 word option" where
  "rd128 (V_bits w) = Some w"
| "rd128 (V_ptr _) = None"

fun rdptr :: "dm_union \<Rightarrow> ptr option" where
  "rdptr (V_bits w) = (if (ucast w :: u64) = 0 then Some None else None)"
| "rdptr (V_ptr a) = Some (Some a)"

fun wr32 :: "u32 \<Rightarrow> dm_union \<Rightarrow> dm_union" where
  "wr32 x (V_bits w) = V_bits (push_bit 32 (drop_bit 32 w) OR ucast x)"
| "wr32 x (V_ptr _) = V_bits (ucast x)"

fun wr64 :: "u64 \<Rightarrow> dm_union \<Rightarrow> dm_union" where
  "wr64 x (V_bits w) = V_bits (push_bit 64 (drop_bit 64 w) OR ucast x)"
| "wr64 x (V_ptr _) = V_bits (ucast x)"

fun wrptr :: "ptr \<Rightarrow> dm_union \<Rightarrow> dm_union" where
  "wrptr None v = wr64 0 v"
| "wrptr (Some a) v = V_ptr a"

definition DM_type_assert :: "DM_VALUE \<Rightarrow> dm_type \<Rightarrow> unit option" where
  "DM_type_assert val t = oassert (dv_type val = T_NONE \<or> dv_type val = t)"

definition DM_PTR :: "DM_VALUE \<Rightarrow> ptr option" where
  "DM_PTR val = do { DM_type_assert val T_POINTER; rdptr (dv_v val) }"
definition set_DM_PTR :: "DM_VALUE \<Rightarrow> ptr \<Rightarrow> DM_VALUE" where
  "set_DM_PTR val t = val\<lparr>dv_v := wrptr t (dv_v val), dv_type := T_POINTER\<rparr>"
definition init_DM_PTR :: "ptr \<Rightarrow> u16 \<Rightarrow> DM_VALUE" where
  "init_DM_PTR n f = (set_DM_PTR zero_value n)\<lparr>dv_flags := f\<rparr>"

definition DM_INT :: "DM_VALUE \<Rightarrow> u32 option" where
  "DM_INT val = do { DM_type_assert val T_INT; rd32 (dv_v val) }"
definition set_DM_INT :: "DM_VALUE \<Rightarrow> u32 \<Rightarrow> DM_VALUE" where
  "set_DM_INT val t = val\<lparr>dv_v := wr32 t (dv_v val), dv_type := T_INT\<rparr>"
definition init_DM_INT :: "u32 \<Rightarrow> u16 \<Rightarrow> DM_VALUE" where
  "init_DM_INT n f = (set_DM_INT zero_value n)\<lparr>dv_flags := f\<rparr>"

definition DM_UINT :: "DM_VALUE \<Rightarrow> u32 option" where
  "DM_UINT val = do { DM_type_assert val T_UINT; rd32 (dv_v val) }"
definition set_DM_UINT :: "DM_VALUE \<Rightarrow> u32 \<Rightarrow> DM_VALUE" where
  "set_DM_UINT val t = val\<lparr>dv_v := wr32 t (dv_v val), dv_type := T_UINT\<rparr>"
definition init_DM_UINT :: "u32 \<Rightarrow> u16 \<Rightarrow> DM_VALUE" where
  "init_DM_UINT n f = (set_DM_UINT zero_value n)\<lparr>dv_flags := f\<rparr>"

definition DM_ENUM :: "DM_VALUE \<Rightarrow> u32 option" where
  "DM_ENUM val = do { DM_type_assert val T_ENUM; rd32 (dv_v val) }"
definition set_DM_ENUM :: "DM_VALUE \<Rightarrow> u32 \<Rightarrow> DM_VALUE" where
  "set_DM_ENUM val t = val\<lparr>dv_v := wr32 t (dv_v val), dv_type := T_ENUM\<rparr>"
definition init_DM_ENUM :: "u32 \<Rightarrow> u16 \<Rightarrow> DM_VALUE" where
  "init_DM_ENUM n f = (set_DM_ENUM zero_value n)\<lparr>dv_flags := f\<rparr>"

definition DM_BOOL :: "DM_VALUE \<Rightarrow> u32 option" where
  "DM_BOOL val = do { DM_type_assert val T_BOOL; rd32 (dv_v val) }"
definition set_DM_BOOL :: "DM_VALUE \<Rightarrow> u32 \<Rightarrow> DM_VALUE" where
  "set_DM_BOOL val t = val\<lparr>dv_v := wr32 t (dv_v val), dv_type := T_BOOL\<rparr>"
definition init_DM_BOOL :: "u32 \<Rightarrow> u16 \<Rightarrow> DM_VALUE" where
  "init_DM_BOOL n f = (set_DM_BOOL zero_value n)\<lparr>dv_flags := f\<rparr>"

definition DM_TIME :: "DM_VALUE \<Rightarrow> u64 option" where
  "DM_TIME val = do { DM_type_assert val T_DATE; rd64 (dv_v val) }"
definition set_DM_TIME :: "DM_VALUE \<Rightarrow> u64 \<Rightarrow> DM_VALUE" where
  "set_DM_TIME val t = val\<lparr>dv_v := wr64 t (dv_v val), dv_type := T_DATE\<rparr>"
definition init_DM_TIME :: "u64 \<Rightarrow> u16 \<Rightarrow> DM_VALUE" where
  "init_DM_TIME n f = (set_DM_TIME zero_value n)\<lparr>dv_flags := f\<rparr>"

definition DM_STRING :: "DM_VALUE \<Rightarrow> ptr option" where
  "DM_STRING val = do { DM_type_assert val T_STR; rdptr (dv_v val) }"
definition set_DM_STRING :: "DM_VALUE \<Rightarrow> ptr \<Rightarrow> DM_VALUE" where
  "set_DM_STRING val t = val\<lparr>dv_v := wrptr t (dv_v val), dv_type := T_STR\<rparr>"
definition init_DM_STRING :: "ptr \<Rightarrow> u16 \<Rightarrow> DM_VALUE" where
  "init_DM_STRING n f = (set_DM_STRING zero_value n)\<lparr>dv_flags := f\<rparr>"

definition DM_BINARY :: "DM_VALUE \<Rightarrow> ptr option" where
  "DM_BINARY val = do { DM_type_assert val T_BINARY; rdptr (dv_v val) }"
definition set_DM_BINARY :: "DM_VALUE \<Rightarrow> ptr \<Rightarrow> DM_VALUE" where
  "set_DM_BINARY val t = val\<lparr>dv_v := wrptr t (dv_v val), dv_type := T_BINARY\<rparr>"
definition init_DM_BINARY :: "ptr \<Rightarrow> u16 \<Rightarrow> DM_VALUE" where
  "init_DM_BINARY n f = (set_DM_BINARY zero_value n)\<lparr>dv_flags := f\<rparr>"

definition DM_SELECTOR :: "DM_VALUE \<Rightarrow> ptr option" where
  "DM_SELECTOR val = do { DM_type_assert val T_SELECTOR; rdptr (dv_v val) }"
definition set_DM_SELECTOR :: "DM_VALUE \<Rightarrow> ptr \<Rightarrow> DM_VALUE" where
  "set_DM_SELECTOR val t = val\<lparr>dv_v := wrptr t (dv_v val), dv_type := T_SELECTOR\<rparr>"
definition init_DM_SELECTOR :: "ptr \<Rightarrow> u16 \<Rightarrow> DM_VALUE" where
  "init_DM_SELECTOR n f = (set_DM_SELECTOR zero_value n)\<lparr>dv_flags := f\<rparr>"

definition DM_IP4 :: "DM_VALUE \<Rightarrow> u32 option" where
  "DM_IP4 val = do { DM_type_assert val T_IPADDR4; rd32 (dv_v val) }"
definition set_DM_IP4 :: "DM_VALUE \<Rightarrow> u32 \<Rightarrow> DM_VALUE" where
  "set_DM_IP4 val t = val\<lparr>dv_v := wr32 t (dv_v val), dv_type := T_IPADDR4\<rparr>"
definition init_DM_IP4 :: "u32 \<Rightarrow> u16 \<Rightarrow> DM_VALUE" where
  "init_DM_IP4 n f = (set_DM_IP4 zero_value n)\<lparr>dv_flags := f\<rparr>"

definition DM_IP6 :: "DM_VALUE \<Rightarrow> 128 word option" where
  "DM_IP6 val = do { DM_type_assert val T_IPADDR6; rd128 (dv_v val) }"
definition set_DM_IP6 :: "DM_VALUE \<Rightarrow> 128 word \<Rightarrow> DM_VALUE" where
  "set_DM_IP6 val t = val\<lparr>dv_v := V_bits t, dv_type := T_IPADDR6\<rparr>"
definition init_DM_IP6 :: "128 word \<Rightarrow> u16 \<Rightarrow> DM_VALUE" where
  "init_DM_IP6 n f = (set_DM_IP6 zero_value n)\<lparr>dv_flags := f\<rparr>"

definition DM_TABLE :: "DM_VALUE \<Rightarrow> ptr option" where
  "DM_TABLE val = do { DM_type_assert val T_TOKEN; rdptr (dv_v val) }"
definition set_DM_TABLE :: "DM_VALUE \<Rightarrow> ptr \<Rightarrow> DM_VALUE" where
  "set_DM_TABLE val t = val\<lparr>dv_v := wrptr t (dv_v val), dv_type := T_TOKEN\<rparr>"

text \<open>\<^verbatim>\<open>DM_INSTANCE (val)->instance\<close>: the tree that an object element points to.\<close>

definition DM_INSTANCE :: "DM_VALUE \<Rightarrow> ptr option" where
  "DM_INSTANCE val = do { DM_type_assert val T_OBJECT; rdptr (dv_v val) }"
definition set_instance :: "DM_VALUE \<Rightarrow> ptr \<Rightarrow> DM_VALUE" where
  "set_instance val t = val\<lparr>dv_v := wrptr t (dv_v val)\<rparr>"

definition DM_NODE :: "DM_VALUE \<Rightarrow> ptr option" where
  "DM_NODE val = do { DM_type_assert val T_INSTANCE; rdptr (dv_v val) }"

definition DM_INT64 :: "DM_VALUE \<Rightarrow> u64 option" where
  "DM_INT64 val = do { DM_type_assert val T_INT64; rd64 (dv_v val) }"
definition set_DM_INT64 :: "DM_VALUE \<Rightarrow> u64 \<Rightarrow> DM_VALUE" where
  "set_DM_INT64 val t = val\<lparr>dv_v := wr64 t (dv_v val), dv_type := T_INT64\<rparr>"
definition init_DM_INT64 :: "u64 \<Rightarrow> u16 \<Rightarrow> DM_VALUE" where
  "init_DM_INT64 n f = (set_DM_INT64 zero_value n)\<lparr>dv_flags := f\<rparr>"

definition DM_UINT64 :: "DM_VALUE \<Rightarrow> u64 option" where
  "DM_UINT64 val = do { DM_type_assert val T_UINT64; rd64 (dv_v val) }"
definition set_DM_UINT64 :: "DM_VALUE \<Rightarrow> u64 \<Rightarrow> DM_VALUE" where
  "set_DM_UINT64 val t = val\<lparr>dv_v := wr64 t (dv_v val), dv_type := T_UINT64\<rparr>"
definition init_DM_UINT64 :: "u64 \<Rightarrow> u16 \<Rightarrow> DM_VALUE" where
  "init_DM_UINT64 n f = (set_DM_UINT64 zero_value n)\<lparr>dv_flags := f\<rparr>"

definition DM_TICKS :: "DM_VALUE \<Rightarrow> u64 option" where
  "DM_TICKS val = do { DM_type_assert val T_TICKS; rd64 (dv_v val) }"
definition set_DM_TICKS :: "DM_VALUE \<Rightarrow> u64 \<Rightarrow> DM_VALUE" where
  "set_DM_TICKS val t = val\<lparr>dv_v := wr64 t (dv_v val), dv_type := T_TICKS\<rparr>"
definition init_DM_TICKS :: "u64 \<Rightarrow> u16 \<Rightarrow> DM_VALUE" where
  "init_DM_TICKS n f = (set_DM_TICKS zero_value n)\<lparr>dv_flags := f\<rparr>"

lemmas set_DM_defs =
  set_DM_PTR_def set_DM_INT_def set_DM_UINT_def set_DM_ENUM_def set_DM_BOOL_def set_DM_TIME_def
  set_DM_STRING_def set_DM_BINARY_def set_DM_SELECTOR_def set_DM_IP4_def set_DM_IP6_def
  set_DM_TABLE_def set_instance_def set_DM_INT64_def set_DM_UINT64_def set_DM_TICKS_def

lemmas DM_defs =
  DM_PTR_def DM_INT_def DM_UINT_def DM_ENUM_def DM_BOOL_def DM_TIME_def DM_STRING_def
  DM_BINARY_def DM_SELECTOR_def DM_IP4_def DM_IP6_def DM_TABLE_def DM_INSTANCE_def DM_NODE_def
  DM_INT64_def DM_UINT64_def DM_TICKS_def DM_type_assert_def

section \<open>The schema\<close>

type_synonym fkt = "nat option"

record value_fkts =
  vf_validate :: fkt
  vf_get :: fkt
  vf_set :: fkt

record instance_fkts =
  if_add :: fkt
  if_del :: fkt

datatype dm_fkts = Fk_value value_fkts | Fk_instance instance_fkts

record dm_enum =
  en_cnt :: nat
  en_data :: "u8 list"

record idx_entry =
  ix_flags :: u16
  ix_type :: dm_type
  ix_element :: dm_id

type_synonym index_definition = "idx_entry list"

datatype dm_table = DmTable (tab_name: cstr) (tab_index: index_definition) (tab_elems: "dm_element list")
  and dm_element = Element (el_key: cstr) (el_type: dm_type) (el_flags: u16) (el_action: u16)
      (el_fkts: dm_fkts) (el_u: dm_elem_u)
  and dm_elem_u = U_none | U_table "dm_table option" u32 | U_limits u32 u32 | U_enum dm_enum | U_counter dm_id

text \<open>Members of the union \<^verbatim>\<open>u\<close>; a union initialised to zero is \<open>U_none\<close>.\<close>

fun u_table :: "dm_element \<Rightarrow> dm_table option option" where
  "u_table (Element _ _ _ _ _ (U_table t _)) = Some t"
| "u_table (Element _ _ _ _ _ U_none) = Some None"
| "u_table _ = None"

fun u_max :: "dm_element \<Rightarrow> u32 option" where
  "u_max (Element _ _ _ _ _ (U_table _ m)) = Some m"
| "u_max (Element _ _ _ _ _ U_none) = Some 0"
| "u_max _ = None"

fun u_counter_ref :: "dm_element \<Rightarrow> dm_id option" where
  "u_counter_ref (Element _ _ _ _ _ (U_counter r)) = Some r"
| "u_counter_ref (Element _ _ _ _ _ U_none) = Some 0"
| "u_counter_ref _ = None"

fun u_enum :: "dm_element \<Rightarrow> dm_enum option" where
  "u_enum (Element _ _ _ _ _ (U_enum e)) = Some e"
| "u_enum _ = None"

fun value_fkts_of :: "dm_element \<Rightarrow> value_fkts option" where
  "value_fkts_of (Element _ _ _ _ (Fk_value f) _) = Some f"
| "value_fkts_of _ = None"

fun instance_fkts_of :: "dm_element \<Rightarrow> instance_fkts option" where
  "instance_fkts_of (Element _ _ _ _ (Fk_instance f) _) = Some f"
| "instance_fkts_of _ = None"

definition tab_size :: "dm_table \<Rightarrow> nat" where
  "tab_size kw = length (tab_elems kw)"

definition notify_default :: "dm_element \<Rightarrow> u32" where
  "notify_default elem = (if has (el_flags elem) F_ACS_NTFY then ACTIVE_NOTIFY else 0)"

section \<open>Enumerations\<close>

text \<open>The C string at the start of a byte array; no NUL in it is a fault.\<close>

definition cstr_at :: "u8 list \<Rightarrow> cstr option" where
  "cstr_at d = do { oassert (0 \<in> set d); Some (takeWhile (\<lambda>b. b \<noteq> 0) d) }"

function enum2int_loop :: "nat \<Rightarrow> nat \<Rightarrow> u8 list \<Rightarrow> cstr \<Rightarrow> int option" where
  "enum2int_loop i cnt d ident =
     (if i < cnt
      then do {
        s \<leftarrow> cstr_at d;
        if s = ident then Some (int i)
        else enum2int_loop (i + 1) cnt (drop (length s + 1) d) ident }
      else Some (-1))"
  by pat_completeness auto
termination by (relation "measure (\<lambda>(i, cnt, _). cnt - i)") auto

definition dm_enum2int :: "dm_enum option \<Rightarrow> cstr \<Rightarrow> int option" where
  "dm_enum2int e ident =
     (case e of None \<Rightarrow> Some (-1) | Some e \<Rightarrow> enum2int_loop 0 (en_cnt e) (en_data e) ident)"

fun int2enum_loop :: "nat \<Rightarrow> u8 list \<Rightarrow> u8 list option" where
  "int2enum_loop 0 d = Some d"
| "int2enum_loop (Suc n) d = do { s \<leftarrow> cstr_at d; int2enum_loop n (drop (length s + 1) d) }"

definition dm_int2enum :: "dm_enum option \<Rightarrow> int \<Rightarrow> cstr option" where
  "dm_int2enum e ident =
     (case e of
        None \<Rightarrow> Some []
      | Some e \<Rightarrow> if ident < 0 \<or> ident \<ge> int (en_cnt e) then Some []
                  else do { d \<leftarrow> int2enum_loop (nat ident) (en_data e); cstr_at d })"

declare enum2int_loop.simps [simp del]

section \<open>Comparing bytes, strings and numbers\<close>

text \<open>Only the sign of \<^verbatim>\<open>memcmp\<close> and \<^verbatim>\<open>strcmp\<close> is specified and used.\<close>

fun memcmp :: "u8 list \<Rightarrow> u8 list \<Rightarrow> int" where
  "memcmp (x # xs) (y # ys) = (if x < y then -1 else if y < x then 1 else memcmp xs ys)"
| "memcmp _ _ = 0"

fun strcmp :: "cstr \<Rightarrow> cstr \<Rightarrow> int" where
  "strcmp [] [] = 0"
| "strcmp [] (_ # _) = -1"
| "strcmp (_ # _) [] = 1"
| "strcmp (x # xs) (y # ys) = (if x < y then -1 else if y < x then 1 else strcmp xs ys)"

text \<open>A \<open>binary_t\<close> is its data, \<^verbatim>\<open>len\<close> being their number.\<close>

definition dm_binarycmp :: "u8 list option \<Rightarrow> u8 list option \<Rightarrow> int" where
  "dm_binarycmp a b =
     (case (a, b) of
        (Some a, Some b) \<Rightarrow>
          let l = (if length a > length b then length b else length a);
              r = memcmp (take l a) (take l b)
          in if r \<noteq> 0 then r
             else if length a > length b then 1
             else if length a > length b then -1
             else 0
      | (None, Some _) \<Rightarrow> -1
      | (Some _, None) \<Rightarrow> 1
      | (None, None) \<Rightarrow> 0)"

definition INTCMP :: "int \<Rightarrow> int \<Rightarrow> int" where
  "INTCMP a b = (if a < b then -1 else if a > b then 1 else 0)"

text \<open>The bytes of a number in memory, lowest address first.\<close>

definition bytes_of :: "nat \<Rightarrow> 'a::len word \<Rightarrow> u8 list" where
  "bytes_of n w = map (\<lambda>i. ucast (drop_bit (8 * i) w)) [0..<n]"

section \<open>Lemmas\<close>

lemma ucast_wr32: "(ucast (push_bit 32 (drop_bit 32 w) OR ucast x :: 128 word) :: u32) = x"
  for x :: u32 and w :: "128 word"
  by (rule bit_word_eqI) (simp add: bit_simps)

lemma ucast_wr64: "(ucast (push_bit 64 (drop_bit 64 w) OR ucast x :: 128 word) :: u64) = x"
  for x :: u64 and w :: "128 word"
  by (rule bit_word_eqI) (simp add: bit_simps)

lemma ucast_ucast_up:
  "(ucast (ucast x :: 128 word) :: u32) = x" "(ucast (ucast y :: 128 word) :: u64) = y"
  by (rule bit_word_eqI, simp add: bit_simps)+

lemma rd32_wr32 [simp]: "rd32 (wr32 x v) = Some x"
  by (cases v) (simp_all add: ucast_wr32 ucast_ucast_up)

lemma rd64_wr64 [simp]: "rd64 (wr64 x v) = Some x"
  by (cases v) (simp_all add: ucast_wr64 ucast_ucast_up)

lemma rdptr_wrptr [simp]: "rdptr (wrptr p v) = Some p"
proof (cases p)
  case None
  show ?thesis
  proof (cases v)
    case (V_bits w)
    with None ucast_wr64 [of w 0] show ?thesis by simp
  qed (simp add: None)
qed simp

lemma zero_value_reads [simp]:
  "dv_v zero_value = V_bits 0" "dv_type zero_value = T_NONE" "dv_notify zero_value = 0"
  "dv_flags zero_value = 0"
  by (simp_all add: zero_value_def)

lemma DM_set_DM [simp]:
  "DM_PTR (set_DM_PTR v p) = Some p" "DM_INT (set_DM_INT v x) = Some x"
  "DM_UINT (set_DM_UINT v x) = Some x" "DM_ENUM (set_DM_ENUM v x) = Some x"
  "DM_BOOL (set_DM_BOOL v x) = Some x" "DM_TIME (set_DM_TIME v y) = Some y"
  "DM_STRING (set_DM_STRING v p) = Some p" "DM_BINARY (set_DM_BINARY v p) = Some p"
  "DM_SELECTOR (set_DM_SELECTOR v p) = Some p" "DM_IP4 (set_DM_IP4 v x) = Some x"
  "DM_IP6 (set_DM_IP6 v z) = Some z" "DM_TABLE (set_DM_TABLE v p) = Some p"
  "DM_INT64 (set_DM_INT64 v y) = Some y" "DM_UINT64 (set_DM_UINT64 v y) = Some y"
  "DM_TICKS (set_DM_TICKS v y) = Some y"
  by (simp_all add: DM_defs set_DM_defs)

text \<open>The data of a generated enumeration: the names, each with its NUL.\<close>

definition enum_of :: "cstr list \<Rightarrow> dm_enum" where
  "enum_of names = \<lparr>en_cnt = length names, en_data = concat (map (\<lambda>n. n @ [0]) names)\<rparr>"

definition enum_names :: "cstr list \<Rightarrow> bool" where
  "enum_names names \<longleftrightarrow> distinct names \<and> (\<forall>n \<in> set names. 0 \<notin> set n)"

lemma cstr_at_append: "0 \<notin> set n \<Longrightarrow> cstr_at (n @ 0 # d) = Some n"
  by (auto simp: cstr_at_def intro!: takeWhile_append_stop)

lemma enum2int_loop_names:
  assumes "\<forall>n \<in> set names. 0 \<notin> set n" and "cnt = i + length names"
  shows "enum2int_loop i cnt (concat (map (\<lambda>n. n @ [0]) names)) ident =
    Some (if ident \<in> set names then int i + int (length (takeWhile (\<lambda>n. n \<noteq> ident) names)) else -1)"
  using assms
proof (induction names arbitrary: i)
  case Nil
  then show ?case by (simp add: enum2int_loop.simps)
next
  case (Cons n names)
  then have at: "cstr_at (n @ 0 # concat (map (\<lambda>n. n @ [0]) names)) = Some n"
    by (simp add: cstr_at_append)
  show ?case
  proof (cases "n = ident")
    case True
    with at Cons.prems show ?thesis by (subst enum2int_loop.simps) simp
  next
    case False
    have "enum2int_loop (i + 1) cnt (concat (map (\<lambda>n. n @ [0]) names)) ident =
      Some (if ident \<in> set names
            then int (i + 1) + int (length (takeWhile (\<lambda>n. n \<noteq> ident) names)) else -1)"
      by (rule Cons.IH) (use Cons.prems in auto)
    with at Cons.prems False show ?thesis by (subst enum2int_loop.simps) simp
  qed
qed

lemma int2enum_loop_names:
  assumes "\<forall>n \<in> set names. 0 \<notin> set n" and "k \<le> length names"
  shows "int2enum_loop k (concat (map (\<lambda>n. n @ [0]) names)) =
    Some (concat (map (\<lambda>n. n @ [0]) (drop k names)))"
  using assms
proof (induction k arbitrary: names)
  case (Suc k)
  then obtain n ns where names: "names = n # ns" by (cases names) auto
  with Suc show ?case by (simp add: cstr_at_append)
qed simp

lemma memcmp_flip: "memcmp ys xs = - memcmp xs ys"
  by (induction xs ys rule: memcmp.induct) (auto split: list.splits)

lemma strcmp_zero [simp]: "strcmp xs ys = 0 \<longleftrightarrow> xs = ys"
  by (induction xs ys rule: strcmp.induct) auto

lemma strcmp_flip: "strcmp ys xs = - strcmp xs ys"
  by (induction xs ys rule: strcmp.induct) auto

lemma strcmp_le_trans: "strcmp xs ys \<le> 0 \<Longrightarrow> strcmp ys zs \<le> 0 \<Longrightarrow> strcmp xs zs \<le> 0"
proof (induction xs ys arbitrary: zs rule: strcmp.induct)
  case (2 y ys)
  then show ?case by (cases zs) auto
next
  case (4 x xs y ys)
  then show ?case by (cases zs) (auto split: if_splits)
qed (auto split: if_splits)

section \<open>Properties\<close>

text \<open>
  Selectors are ordered as paths: \<open>dm_selcmp\<close> on two selectors returns 0 exactly
  when they have the same identifiers before their first zero (whatever follows it), the sign
  flips when the arguments are exchanged, and the order is transitive; \<open>dm_sellen\<close> is
  the length of the path and \<open>dm_selcat\<close> extends it while there is room.
\<close>

theorem selector_order:
  assumes "is_selector a" "is_selector b" "is_selector c" and "ident \<noteq> 0"
  shows "\<exists>r q p. dm_selcmp (Some a) (Some b) DM_SELECTOR_LEN = Some r \<and>
      dm_selcmp (Some b) (Some a) DM_SELECTOR_LEN = Some (- r) \<and>
      dm_selcmp (Some b) (Some c) DM_SELECTOR_LEN = Some q \<and>
      dm_selcmp (Some a) (Some c) DM_SELECTOR_LEN = Some p \<and>
      (r = 0 \<longleftrightarrow> path a = path b) \<and> (r \<le> 0 \<longrightarrow> q \<le> 0 \<longrightarrow> p \<le> 0) \<and>
      dm_sellen a = Some (length (path a)) \<and>
      (length (path a) < 16 \<longrightarrow> (\<exists>a'. dm_selcat a ident = Some a' \<and> is_selector a' \<and> path a' = path a @ [ident])) \<and>
      (length (path a) = 16 \<longrightarrow> dm_selcat a ident = Some a)"
proof -
  have cat: "\<exists>a'. dm_selcat a ident = Some a' \<and> is_selector a' \<and> path a' = path a @ [ident]"
    if "length (path a) < 16"
    by (rule path_selcat [OF assms(1) that, of ident]) (use assms(4) in auto)
  show ?thesis
    using assms cat path_cmp_flip [of "path b" "path a"] path_cmp_le_trans [of "path a" "path b" "path c"]
    by (auto simp: dm_selcmp_path dm_sellen_path dm_selcat_result Let_def)
qed

theorem selector_order_witness:
  "dm_selcmp (Some ([1, 2] @ replicate 14 0)) (Some ([1, 2, 0, 7] @ replicate 12 0)) DM_SELECTOR_LEN = Some 0"
proof -
  have "path ([1, 2] @ replicate 14 0) = path ([1, 2, 0, 7] @ replicate 12 0)"
    by (simp add: path_def DM_SELECTOR_LEN_def)
  moreover have "is_selector ([1, 2] @ replicate 14 0)" "is_selector ([1, 2, 0, 7] @ replicate 12 0)"
    by (simp_all add: is_selector_def DM_SELECTOR_LEN_def)
  ultimately show ?thesis
    using selector_order [of "[1, 2] @ replicate 14 0" "[1, 2, 0, 7] @ replicate 12 0" "[1, 2] @ replicate 14 0" 1]
    by fastforce
qed

text \<open>
  For the packed data that the generator emits (distinct names without NUL),
  \<open>dm_enum2int\<close> and \<open>dm_int2enum\<close> are inverse: every name has the position it is
  listed at, every position gives its name back, an unknown name gives -1 and a position out
  of range gives the empty string. Neither reads past the data.
\<close>

theorem enum_roundtrip:
  assumes "enum_names names"
  shows "(\<forall>k < length names. dm_int2enum (Some (enum_of names)) (int k) = Some (names ! k) \<and>
            dm_enum2int (Some (enum_of names)) (names ! k) = Some (int k)) \<and>
         (\<forall>ident. ident \<notin> set names \<longrightarrow> dm_enum2int (Some (enum_of names)) ident = Some (-1)) \<and>
         (\<forall>k. k < 0 \<or> int (length names) \<le> k \<longrightarrow> dm_int2enum (Some (enum_of names)) k = Some [])"
proof (intro conjI allI impI)
  from assms have nul: "\<forall>n \<in> set names. 0 \<notin> set n" and dist: "distinct names"
    by (auto simp: enum_names_def)
  note loop = enum2int_loop_names [OF nul, of "length names" 0]
  fix k assume k: "k < length names"
  from int2enum_loop_names [OF nul, of k] k nul
  show "dm_int2enum (Some (enum_of names)) (int k) = Some (names ! k)"
    by (simp add: dm_int2enum_def enum_of_def drop_Cons_nth cstr_at_append)
  have "length (takeWhile (\<lambda>n. n \<noteq> names ! k) names) = k"
  proof -
    have "takeWhile (\<lambda>n. n \<noteq> names ! k) (take k names @ names ! k # drop (Suc k) names) = take k names"
      by (rule takeWhile_append_stop) (use dist k in \<open>auto simp: in_set_conv_nth nth_eq_iff_index_eq\<close>)
    with k show ?thesis by (simp flip: id_take_nth_drop)
  qed
  with loop [of "names ! k"] k show "dm_enum2int (Some (enum_of names)) (names ! k) = Some (int k)"
    by (simp add: dm_enum2int_def enum_of_def)
next
  fix ident assume "ident \<notin> set names"
  with assms enum2int_loop_names [of names "length names" 0 ident]
  show "dm_enum2int (Some (enum_of names)) ident = Some (-1)"
    by (simp add: enum_names_def dm_enum2int_def enum_of_def)
next
  fix k :: int assume "k < 0 \<or> int (length names) \<le> k"
  then show "dm_int2enum (Some (enum_of names)) k = Some []"
    by (auto simp: dm_int2enum_def enum_of_def)
qed

theorem enum_roundtrip_witness:
  "dm_enum2int (Some (enum_of [[79, 102, 102], [79, 110]])) [79, 110] = Some 1"
proof -
  have "enum_names [[79, 102, 102], [79, 110]]" by (simp add: enum_names_def)
  from enum_roundtrip [OF this] show ?thesis
    by (metis One_nat_def int_ops(2) length_Cons lessI list.size(3) nth_Cons_0 nth_Cons_Suc)
qed

text \<open>
  \<open>dm_binarycmp\<close> is not an order. The test for a shorter first argument repeats the
  test for a longer one, so whenever the first value is a proper prefix of the second the
  result is 0, while the exchanged comparison returns 1.
\<close>

theorem dm_binarycmp_prefix_asymmetric:
  assumes "rest \<noteq> []"
  shows "dm_binarycmp (Some a) (Some (a @ rest)) = 0 \<and> dm_binarycmp (Some (a @ rest)) (Some a) = 1"
proof -
  have refl: "memcmp a a = 0" by (induction a) auto
  with assms show ?thesis by (simp add: dm_binarycmp_def Let_def)
qed

theorem dm_binarycmp_prefix_asymmetric_witness:
  "dm_binarycmp (Some [1]) (Some ([1] @ [2])) = 0 \<and> dm_binarycmp (Some ([1] @ [2])) (Some [1]) = 1"
  by (rule dm_binarycmp_prefix_asymmetric) simp

end
