(* ===== verification/Dm_Bitmap.thy ===== *)
theory Dm_Bitmap
  imports Dm_Prelude
begin

text \<open>
  The bit maps of \<^verbatim>\<open>mand/bitmap.h\<close>: an array of 32-bit words (\<open>bits_t\<close>) used for
  the notification slots and for the stable instance identifiers of an object. An access
  outside the array is a fault (\<open>None\<close>). Shown: the map is a set of numbers, the
  operations are the set operations, and \<open>map_ffz\<close>/\<open>map_ffs\<close> find the least
  free and the least used number and report \<open>-1\<close> exactly when there is none.
\<close>

type_synonym bits_t = u32

definition bits_size :: nat where
  "bits_size = 4 * 8"

definition map_size :: "nat \<Rightarrow> nat" where
  "map_size x = (x + bits_size - 1) div bits_size"

definition map_get_bit :: "bits_t list \<Rightarrow> nat \<Rightarrow> bool option" where
  "map_get_bit m n = do {
     w \<leftarrow> nth_opt m (n div bits_size);
     Some (drop_bit (n mod bits_size) w AND 1 \<noteq> 0) }"

definition map_set_bit :: "bits_t list \<Rightarrow> nat \<Rightarrow> bits_t list option" where
  "map_set_bit m n = do {
     w \<leftarrow> nth_opt m (n div bits_size);
     upd_opt m (n div bits_size) (w OR push_bit (n mod bits_size) 1) }"

definition map_clear_bit :: "bits_t list \<Rightarrow> nat \<Rightarrow> bits_t list option" where
  "map_clear_bit m n = do {
     w \<leftarrow> nth_opt m (n div bits_size);
     upd_opt m (n div bits_size) (w AND NOT (push_bit (n mod bits_size) 1)) }"

text \<open>
  \<^verbatim>\<open>ffs\<close> of the C library: one plus the index of the least bit set, zero if none is.
\<close>

definition ffs :: "bits_t \<Rightarrow> nat" where
  "ffs w = (case filter (bit w) [0..<32] of [] \<Rightarrow> 0 | n # _ \<Rightarrow> n + 1)"

fun map_ffz_from :: "nat \<Rightarrow> bits_t list \<Rightarrow> int" where
  "map_ffz_from i [] = -1"
| "map_ffz_from i (w # ws) =
     (if ffs (NOT w) \<noteq> 0 then int (i * bits_size + ffs (NOT w)) - 1 else map_ffz_from (i + 1) ws)"

definition map_ffz :: "bits_t list \<Rightarrow> int" where
  "map_ffz m = map_ffz_from 0 m"

fun map_ffs_from :: "nat \<Rightarrow> bits_t list \<Rightarrow> int" where
  "map_ffs_from i [] = -1"
| "map_ffs_from i (w # ws) =
     (if ffs w \<noteq> 0 then int (i * bits_size + ffs w) - 1 else map_ffs_from (i + 1) ws)"

definition map_ffs :: "bits_t list \<Rightarrow> int" where
  "map_ffs m = map_ffs_from 0 m"

section \<open>A bit map is a set of numbers\<close>

definition bits_of :: "bits_t list \<Rightarrow> nat set" where
  "bits_of m = {n. n < 32 * length m \<and> bit (m ! (n div 32)) (n mod 32)}"

lemma bits_of_bound: "n \<in> bits_of m \<Longrightarrow> n < 32 * length m"
  by (simp add: bits_of_def)

lemma finite_bits_of [simp]: "finite (bits_of m)"
  by (rule finite_subset [of _ "{..<32 * length m}"]) (auto simp: bits_of_def)

lemma div32_less: "n < 32 * k \<longleftrightarrow> n div 32 < k" for n k :: nat
  by (simp add: less_mult_imp_div_less mult.commute) (simp add: div_less_iff_less_mult)

lemma div_mod_32_eq: "n = k \<longleftrightarrow> n div 32 = k div 32 \<and> n mod 32 = k mod 32" for n k :: nat
  by (metis div_mult_mod_eq)

lemma bits_of_empty [simp]: "bits_of (replicate n 0) = {}"
  by (auto simp: bits_of_def div32_less)

lemma map_get_bit_spec:
  "map_get_bit m n = (if n < 32 * length m then Some (n \<in> bits_of m) else None)"
  by (auto simp: map_get_bit_def bits_size_def bits_of_def div32_less nth_opt_def and_one_eq
      odd_iff_mod_2_eq_one [symmetric] bit_iff_odd_drop_bit)

lemma map_set_bit_spec:
  assumes "n < 32 * length m"
  obtains m' where "map_set_bit m n = Some m'" "length m' = length m" "bits_of m' = insert n (bits_of m)"
proof
  let ?m = "m[n div 32 := m ! (n div 32) OR push_bit (n mod 32) 1]"
  show "map_set_bit m n = Some ?m"
    using assms by (simp add: map_set_bit_def bits_size_def div32_less)
  show "bits_of ?m = insert n (bits_of m)"
    using assms
    by (auto simp: bits_of_def div32_less nth_list_update bit_or_iff bit_push_bit_iff bit_1_iff bit_exp_iff
        div_mod_32_eq [of _ n] split: if_splits)
qed simp

lemma map_clear_bit_spec:
  assumes "n < 32 * length m"
  obtains m' where "map_clear_bit m n = Some m'" "length m' = length m" "bits_of m' = bits_of m - {n}"
proof
  let ?m = "m[n div 32 := m ! (n div 32) AND NOT (push_bit (n mod 32) 1)]"
  show "map_clear_bit m n = Some ?m"
    using assms by (simp add: map_clear_bit_def bits_size_def div32_less)
  show "bits_of ?m = bits_of m - {n}"
    using assms
    by (auto simp: bits_of_def div32_less nth_list_update bit_and_iff bit_not_iff bit_push_bit_iff bit_1_iff bit_exp_iff
        div_mod_32_eq [of _ n] split: if_splits)
qed simp


section \<open>Searching\<close>

lemma ffs_zero_iff: "ffs w = 0 \<longleftrightarrow> w = 0"
proof -
  have "filter (bit w) [0..<32] = [] \<longleftrightarrow> (\<forall>n < 32. \<not> bit w n)" by (auto simp: filter_empty_conv)
  also have "\<dots> \<longleftrightarrow> w = 0" by (auto simp: bit_eq_iff dest: bit_imp_le_length)
  finally show ?thesis by (auto simp: ffs_def split: list.splits)
qed

lemma filter_upt_first:
  assumes "filter P [i..<j] = n # ns"
  shows "i \<le> n" "n < j" "P n" "\<And>k. i \<le> k \<Longrightarrow> k < n \<Longrightarrow> \<not> P k"
proof -
  from assms have "n \<in> set (filter P [i..<j])" by simp
  then show "i \<le> n" "n < j" "P n" by auto
  have "sorted (filter P [i..<j])"
    using sorted_wrt_filter [of "(\<le>)" "[i..<j]" P] by simp
  then have le: "\<forall>k \<in> set ns. n \<le> k" using assms by simp
  fix k assume k: "i \<le> k" "k < n"
  show "\<not> P k"
  proof
    assume "P k"
    with k \<open>n < j\<close> have "k \<in> set (filter P [i..<j])" by simp
    with assms le k show False by auto
  qed
qed

lemma ffs_least:
  assumes "ffs w \<noteq> 0"
  shows "ffs w \<le> 32" "bit w (ffs w - 1)" "\<And>k. k < ffs w - 1 \<Longrightarrow> \<not> bit w k"
proof -
  from assms obtain n ns where f: "filter (bit w) [0..<32] = n # ns"
    by (auto simp: ffs_def split: list.splits)
  then have n: "ffs w = n + 1" by (simp add: ffs_def)
  from filter_upt_first [OF f] n
  show "ffs w \<le> 32" "bit w (ffs w - 1)" "\<And>k. k < ffs w - 1 \<Longrightarrow> \<not> bit w k" by auto
qed

lemma bits_of_Nil [simp]: "bits_of [] = {}"
  by (simp add: bits_of_def)

lemma bits_of_Cons: "n \<in> bits_of (w # ws) \<longleftrightarrow> (if n < 32 then bit w n else n - 32 \<in> bits_of ws)"
proof (cases "n < 32")
  case False
  then obtain k where "n = k + 32" by (metis add.commute le_Suc_ex not_less)
  moreover have "(k + 32) div 32 = k div 32 + 1" by simp
  ultimately show ?thesis by (simp add: bits_of_def)
qed (simp add: bits_of_def)

text \<open>
  Both searches follow one scheme: the least number of a set of bits given word by word.
\<close>

definition least_in :: "nat set \<Rightarrow> nat \<Rightarrow> int \<Rightarrow> bool" where
  "least_in S base r \<longleftrightarrow>
     (r = -1 \<and> S = {}) \<or> (\<exists>n. r = int (base + n) \<and> n \<in> S \<and> (\<forall>k < n. k \<notin> S))"

lemma least_in_word:
  assumes "ffs w \<noteq> 0" and "\<And>n. n < 32 \<Longrightarrow> n \<in> S \<longleftrightarrow> bit w n"
  shows "least_in S (i * 32) (int (i * bits_size + ffs w) - 1)"
  unfolding least_in_def
proof (intro disjI2 exI conjI allI impI)
  show "int (i * bits_size + ffs w) - 1 = int (i * 32 + (ffs w - 1))"
    using assms(1) by (simp add: bits_size_def of_nat_diff)
  show "ffs w - 1 \<in> S" using ffs_least [OF assms(1)] assms by auto
  fix k assume "k < ffs w - 1"
  with ffs_least [OF assms(1)] assms(2) [of k] show "k \<notin> S" by auto
qed

lemma least_in_skip:
  assumes "least_in T ((i + 1) * 32) r"
    and "\<And>n. n \<in> S \<longleftrightarrow> 32 \<le> n \<and> n - 32 \<in> T"
  shows "least_in S (i * 32) r"
proof (cases "r = -1 \<and> T = {}")
  case True
  then show ?thesis using assms(2) by (auto simp: least_in_def)
next
  case False
  with assms(1) obtain n where n: "r = int ((i + 1) * 32 + n)" "n \<in> T" "\<forall>k < n. k \<notin> T"
    by (auto simp: least_in_def)
  show ?thesis unfolding least_in_def
  proof (intro disjI2 exI conjI allI impI)
    show "r = int (i * 32 + (n + 32))" using n(1) by simp
    show "n + 32 \<in> S" using n(2) assms(2) by simp
    fix k assume "k < n + 32"
    then show "k \<notin> S" using n(3) assms(2) [of k] by (auto simp: less_diff_conv2)
  qed
qed

lemma map_ffs_from_least: "least_in (bits_of m) (i * 32) (map_ffs_from i m)"
proof (induction i m rule: map_ffs_from.induct)
  case (2 i w ws)
  show ?case
  proof (cases "ffs w = 0")
    case True
    with 2 have "least_in (bits_of ws) ((i + 1) * 32) (map_ffs_from i (w # ws))" by simp
    then show ?thesis
      by (rule least_in_skip) (use True in \<open>auto simp: bits_of_Cons ffs_zero_iff\<close>)
  next
    case False
    with least_in_word [OF False, of "bits_of (w # ws)" i] show ?thesis
      by (simp add: bits_of_Cons)
  qed
qed (simp add: least_in_def)

lemma map_ffz_from_least:
  "least_in ({..<32 * length m} - bits_of m) (i * 32) (map_ffz_from i m)"
proof (induction i m rule: map_ffz_from.induct)
  case (2 i w ws)
  show ?case
  proof (cases "ffs (NOT w) = 0")
    case True
    then have "NOT w = 0" by (simp add: ffs_zero_iff)
    then have "w = NOT 0" by (metis bit.double_compl)
    then have full: "\<And>n. n < 32 \<Longrightarrow> bit w n" by (simp add: bit_not_iff)
    from 2 True have
      "least_in ({..<32 * length ws} - bits_of ws) ((i + 1) * 32) (map_ffz_from i (w # ws))" by simp
    then show ?thesis
      by (rule least_in_skip) (use full in \<open>auto simp: bits_of_Cons\<close>)
  next
    case False
    with least_in_word [OF False, of "{..<32 * length (w # ws)} - bits_of (w # ws)" i] show ?thesis
      by (simp add: bits_of_Cons bit_not_iff)
  qed
qed (simp add: least_in_def)

section \<open>A pool of numbers\<close>

text \<open>
  What the object index relies on: numbers below a capacity, of which some are taken; a
  search for the least free one, and operations that take and release a number.
\<close>

locale number_pool =
  fixes used :: "'m \<Rightarrow> nat set"
    and capacity :: "'m \<Rightarrow> nat"
    and acquire :: "'m \<Rightarrow> nat \<Rightarrow> 'm option"
    and release :: "'m \<Rightarrow> nat \<Rightarrow> 'm option"
    and search :: "'m \<Rightarrow> int"
  assumes used_bound: "used m \<subseteq> {..<capacity m}"
    and acquire_law: "n < capacity m \<Longrightarrow>
      \<exists>m'. acquire m n = Some m' \<and> capacity m' = capacity m \<and> used m' = insert n (used m)"
    and release_law: "n < capacity m \<Longrightarrow>
      \<exists>m'. release m n = Some m' \<and> capacity m' = capacity m \<and> used m' = used m - {n}"
    and search_law: "least_in ({..<capacity m} - used m) 0 (search m)"
begin

lemma search_full: "search m = -1 \<longleftrightarrow> used m = {..<capacity m}"
  using search_law [of m] used_bound [of m] by (auto simp: least_in_def)

lemma search_range: "search m = -1 \<or> 0 \<le> search m \<and> nat (search m) < capacity m"
  using search_law [of m] by (auto simp: least_in_def)

lemma search_acquire:
  assumes "search m \<noteq> -1"
  obtains m' where "acquire m (nat (search m)) = Some m'" "capacity m' = capacity m"
    "nat (search m) \<notin> used m" "used m' = insert (nat (search m)) (used m)"
    "\<forall>k < nat (search m). k \<in> used m"
proof -
  from search_law [of m] assms obtain n where n: "search m = int n" "n < capacity m" "n \<notin> used m"
    "\<forall>k < n. k \<in> {..<capacity m} - used m \<longrightarrow> False"
    by (auto simp: least_in_def)
  from acquire_law [OF n(2)] obtain m' where "acquire m n = Some m'" "capacity m' = capacity m"
    "used m' = insert n (used m)" by blast
  with n show thesis by (auto intro!: that)
qed

lemma release_acquired:
  assumes "n \<in> used m"
  obtains m' where "release m n = Some m'" "capacity m' = capacity m" "used m' = used m - {n}"
    "search m' \<noteq> -1" "nat (search m') \<le> n"
proof -
  from assms used_bound [of m] have n: "n < capacity m" by auto
  from release_law [OF n] obtain m' where m': "release m n = Some m'" "capacity m' = capacity m"
    "used m' = used m - {n}" by blast
  with n have "search m' \<noteq> -1" by (auto simp: search_full)
  with search_law [of m'] m' n have "nat (search m') \<le> n"
    by (force simp: least_in_def not_le [symmetric])
  with m' \<open>search m' \<noteq> -1\<close> show thesis by (rule that)
qed

end

interpretation id_map: number_pool bits_of "\<lambda>m. 32 * length m" map_set_bit map_clear_bit map_ffz
proof
  show "bits_of m \<subseteq> {..<32 * length m}" for m by (auto dest: bits_of_bound)
  show "\<exists>m'. map_set_bit m n = Some m' \<and> 32 * length m' = 32 * length m \<and> bits_of m' = insert n (bits_of m)"
    if "n < 32 * length m" for n m
    using that by (metis map_set_bit_spec)
  show "\<exists>m'. map_clear_bit m n = Some m' \<and> 32 * length m' = 32 * length m \<and> bits_of m' = bits_of m - {n}"
    if "n < 32 * length m" for n m
    using that by (metis map_clear_bit_spec)
  show "least_in ({..<32 * length m} - bits_of m) 0 (map_ffz m)" for m
    using map_ffz_from_least [of m 0] by (simp add: map_ffz_def)
qed

section \<open>Properties\<close>

text \<open>
  C28: \<open>map_ffz\<close> returns -1 exactly when every bit is set and otherwise the least clear
  bit, \<open>map_ffs\<close> returns -1 exactly when no bit is set and otherwise the least set bit;
  both results are positions that \<open>map_get_bit\<close> confirms and accepts as in bounds.
\<close>

theorem map_search_least:
  "(map_ffz m = -1 \<longleftrightarrow> (\<forall>n < 32 * length m. map_get_bit m n = Some True)) \<and>
   (map_ffz m \<noteq> -1 \<longrightarrow> map_get_bit m (nat (map_ffz m)) = Some False \<and>
      (\<forall>k < nat (map_ffz m). map_get_bit m k = Some True)) \<and>
   (map_ffs m = -1 \<longleftrightarrow> (\<forall>n < 32 * length m. map_get_bit m n = Some False)) \<and>
   (map_ffs m \<noteq> -1 \<longrightarrow> map_get_bit m (nat (map_ffs m)) = Some True \<and>
      (\<forall>k < nat (map_ffs m). map_get_bit m k = Some False))"
proof (intro conjI impI)
  show "map_ffz m = -1 \<longleftrightarrow> (\<forall>n < 32 * length m. map_get_bit m n = Some True)"
    using id_map.used_bound [of m] by (auto simp: id_map.search_full map_get_bit_spec)
  have s: "least_in (bits_of m) 0 (map_ffs m)"
    using map_ffs_from_least [of m 0] by (simp add: map_ffs_def)
  then show "map_ffs m = -1 \<longleftrightarrow> (\<forall>n < 32 * length m. map_get_bit m n = Some False)"
    by (auto simp: least_in_def map_get_bit_spec dest: bits_of_bound)
  have z: "map_get_bit m (nat (map_ffz m)) = Some False \<and>
      (\<forall>k < nat (map_ffz m). map_get_bit m k = Some True)" if free: "map_ffz m \<noteq> -1"
  proof -
    from free id_map.search_range [of m] have r: "nat (map_ffz m) < 32 * length m" by auto
    have "nat (map_ffz m) \<notin> bits_of m \<and> (\<forall>k < nat (map_ffz m). k \<in> bits_of m)"
      by (rule id_map.search_acquire [OF free]) blast
    with r show ?thesis by (simp add: map_get_bit_spec)
  qed
  have o: "map_get_bit m (nat (map_ffs m)) = Some True \<and>
      (\<forall>k < nat (map_ffs m). map_get_bit m k = Some False)" if "map_ffs m \<noteq> -1"
  proof -
    from s that obtain n where n: "map_ffs m = int n" "n \<in> bits_of m" "\<forall>k < n. k \<notin> bits_of m"
      by (auto simp: least_in_def)
    with bits_of_bound [OF n(2)] show ?thesis by (simp add: map_get_bit_spec)
  qed
  show "map_get_bit m (nat (map_ffz m)) = Some False" if "map_ffz m \<noteq> -1"
    using z [OF that] by blast
  show "\<forall>k < nat (map_ffz m). map_get_bit m k = Some True" if "map_ffz m \<noteq> -1"
    using z [OF that] by blast
  show "map_get_bit m (nat (map_ffs m)) = Some True" if "map_ffs m \<noteq> -1"
    using o [OF that] by blast
  show "\<forall>k < nat (map_ffs m). map_get_bit m k = Some False" if "map_ffs m \<noteq> -1"
    using o [OF that] by blast
qed

theorem map_search_least_witness:
  "map_ffz [0xFFFFFFFF, 5] \<noteq> -1 \<and> map_get_bit [0xFFFFFFFF, 5] (nat (map_ffz [0xFFFFFFFF, 5])) = Some False"
proof -
  have "map_get_bit [0xFFFFFFFF, 5] 33 \<noteq> Some True"
    by (simp add: map_get_bit_def bits_size_def)
  then have "map_ffz [0xFFFFFFFF, 5] \<noteq> -1"
    using spec [of _ 33, OF iffD1 [OF conjunct1 [OF map_search_least [of "[0xFFFFFFFF, 5]"]]]] by force
  with map_search_least [of "[0xFFFFFFFF, 5]"] show ?thesis by blast
qed

end
