(* ===== verification/Dm_State.thy ===== *)
theory Dm_State
  imports Dm_Value Dm_Bitmap Dm_Rbtree
begin

text \<open>
  The state of the daemon's store as one record: the heap with its typed objects, the global
  variables of \<^verbatim>\<open>dm_store.c\<close>, \<^verbatim>\<open>dm_notify.c\<close>, \<^verbatim>\<open>dm_action.c\<close> and
  \<^verbatim>\<open>dm_cache.c\<close>, and the environment of generated tables and functions that the
  daemon is linked with.

  Heap. Objects of different kinds live in different maps. An address that is not in the map is
  not, or no longer, an object of this kind, and using it is a fault. An instance node and the
  value table that follows it in memory have the same address, so the casts between the two are
  the identity. The \<open>NODE\<close>s of a row stand in front of it, one for each index of the
  object: \<open>idxmem i a\<close> is the one of row \<open>a\<close> for index \<open>i\<close>. A
  \<^verbatim>\<open>DM_VALUE *\<close> points to an element of a table or to the \<open>table\<close> member of a node.

  The allocator hands out a new address at every call and may fail at any call.
\<close>

section \<open>Objects\<close>

datatype blob = B_str cstr | B_bin "u8 list" | B_sel dm_selector

record value_table =
  vt_id :: dm_selector
  vt_values :: "DM_VALUE list"

record instance_tree =
  it_def :: index_definition
  it_cntr_base :: ptr
  it_cntr_id :: dm_id
  it_id_map :: "bits_t list"
  it_cnt :: u32
  it_root :: "ptr list"

text \<open>
  \<open>in_indexed\<close> is the magic in front of the \<open>NODE\<close>s: \<open>INDEX_MAGIC\<close> (true) or
  \<open>INDEX_FREE_MAGIC\<close>. An \<open>id_map\<close> of \<^verbatim>\<open>NULL\<close> is the empty list.
\<close>

record instance_node =
  in_table :: DM_VALUE
  in_instance :: dm_id
  in_idm :: int
  in_root :: ptr
  in_indexed :: bool

datatype vref = VTab addr nat | VNode addr

datatype notify_type = NOTIFY_ADD | NOTIFY_CHANGE | NOTIFY_DEL

record notify_item =
  ni_level :: u32
  ni_sb :: dm_selector
  ni_type :: notify_type
  ni_value :: DM_VALUE

text \<open>The callback of a slot: the one of slot 0, or a session's with its number as data.\<close>

datatype notify_cb = CB_dm_notify | CB_session

record slot =
  sl_cb :: "notify_cb option"
  sl_data :: nat
  sl_queue :: "notify_item list"

datatype dm_action_type = DM_ADD | DM_CHANGE | DM_DEL

record exec_node =
  ex_action :: u16
  ex_sel :: dm_selector
  ex_type :: dm_action_type

record cache_item =
  ci_id :: dm_id
  ci_sb :: dm_selector
  ci_name :: cstr
  ci_elem :: dm_element
  ci_base :: ptr
  ci_old_value :: vref
  ci_new_value :: DM_VALUE
  ci_code :: u32
  ci_msg :: "cstr option"

section \<open>The state\<close>

record dmst =
  st_oom :: "nat \<Rightarrow> bool"
  st_brk :: nat
  dm_mem :: int
  blobs :: "addr \<Rightarrow> blob option"
  tables :: "addr \<Rightarrow> value_table option"
  trees :: "addr \<Rightarrow> instance_tree option"
  nodes :: "addr \<Rightarrow> instance_node option"
  idxmem :: "nat \<Rightarrow> addr \<Rightarrow> rbnode option"
  dm_value_store :: ptr
  notify_pending :: bool
  slot_map :: u16
  slot_cnt :: int
  slots :: "slot list"
  exec_chain :: "exec_node list option"
  cache :: "cache_item list"

record dm_action =
  ac_sel_len :: int
  ac_pre :: fkt
  ac_action :: fkt
  ac_post :: fkt
  ac_chain :: "u16 list"

text \<open>
  What the generated code provides: the root of the schema, the table of actions, and the
  functions behind the function pointers. Each gets the state and returns the new one; a
  \<open>get\<close> function may ask another process and update the store before it answers.
  \<open>rb_root\<close> tells which of the \<open>n\<close> elements of a tree of \<^verbatim>\<open>sys/tree.h\<close>, counted in
  order, is at its root; it depends on how the tree came about and is left open.
\<close>

record dm_env =
  dm_root :: dm_table
  dm_actions :: "u16 \<Rightarrow> dm_action option"
  fk_get :: "nat \<Rightarrow> dmst \<Rightarrow> ptr \<Rightarrow> dm_id \<Rightarrow> dm_element \<Rightarrow> DM_VALUE \<Rightarrow> (DM_VALUE \<times> dmst) option"
  fk_set :: "nat \<Rightarrow> dmst \<Rightarrow> ptr \<Rightarrow> dm_id \<Rightarrow> dm_element \<Rightarrow> vref \<Rightarrow> DM_VALUE \<Rightarrow> (DM_RESULT \<times> dmst) option"
  fk_validate :: "nat \<Rightarrow> dmst \<Rightarrow> ptr \<Rightarrow> dm_id \<Rightarrow> dm_element \<Rightarrow> DM_VALUE \<Rightarrow> u32 \<Rightarrow> cstr option \<Rightarrow>
    (u32 \<times> u32 \<times> cstr option) option"
  fk_add :: "nat \<Rightarrow> dmst \<Rightarrow> dm_table \<Rightarrow> dm_id \<Rightarrow> vref \<Rightarrow> addr \<Rightarrow> dmst option"
  fk_del :: "nat \<Rightarrow> dmst \<Rightarrow> dm_table \<Rightarrow> dm_id \<Rightarrow> vref \<Rightarrow> addr \<Rightarrow> dmst option"
  fk_action :: "nat \<Rightarrow> dm_selector \<Rightarrow> dm_action_type \<Rightarrow> dmst \<Rightarrow> dmst option"
  rb_root :: "nat \<Rightarrow> nat"

section \<open>Memory\<close>

definition malloc :: "dmst \<Rightarrow> ptr \<times> dmst" where
  "malloc s = (if st_oom s (st_brk s) then None else Some (st_brk s), s\<lparr>st_brk := st_brk s + 1\<rparr>)"

definition DM_MEM_ADD :: "int \<Rightarrow> dmst \<Rightarrow> dmst" where
  "DM_MEM_ADD x s = s\<lparr>dm_mem := dm_mem s + x\<rparr>"

definition DM_MEM_SUB :: "int \<Rightarrow> dmst \<Rightarrow> dmst" where
  "DM_MEM_SUB x s = s\<lparr>dm_mem := dm_mem s - x\<rparr>"

text \<open>Sizes on an LP64 machine with the debugging members.\<close>

definition sizeof_value_table :: int where "sizeof_value_table = 40"
definition sizeof_DM_VALUE :: int where "sizeof_DM_VALUE = 32"
definition sizeof_binary_t :: int where "sizeof_binary_t = 4"
definition sizeof_dm_selector :: int where "sizeof_dm_selector = 32"
definition sizeof_NODE :: int where "sizeof_NODE = 48"
definition sizeof_ENTRY :: int where "sizeof_ENTRY = 64"
definition sizeof_index_nodes :: int where "sizeof_index_nodes = 4"

text \<open>Strings, binaries and selectors behind a pointer; \<^verbatim>\<open>NULL\<close> is no object.\<close>

definition str_of :: "dmst \<Rightarrow> ptr \<Rightarrow> cstr option option" where
  "str_of s p = (case p of None \<Rightarrow> Some None
     | Some a \<Rightarrow> (case blobs s a of Some (B_str x) \<Rightarrow> Some (Some x) | _ \<Rightarrow> None))"

definition bin_of :: "dmst \<Rightarrow> ptr \<Rightarrow> u8 list option option" where
  "bin_of s p = (case p of None \<Rightarrow> Some None
     | Some a \<Rightarrow> (case blobs s a of Some (B_bin x) \<Rightarrow> Some (Some x) | _ \<Rightarrow> None))"

definition sel_of :: "dmst \<Rightarrow> ptr \<Rightarrow> dm_selector option option" where
  "sel_of s p = (case p of None \<Rightarrow> Some None
     | Some a \<Rightarrow> (case blobs s a of Some (B_sel x) \<Rightarrow> Some (Some x) | _ \<Rightarrow> None))"

definition new_blob :: "blob \<Rightarrow> dmst \<Rightarrow> ptr \<times> dmst" where
  "new_blob b s = (let (p, s) = malloc s in
     case p of None \<Rightarrow> (None, s) | Some a \<Rightarrow> (Some a, s\<lparr>blobs := (blobs s)(a \<mapsto> b)\<rparr>))"

definition free_blob :: "ptr \<Rightarrow> dmst \<Rightarrow> dmst option" where
  "free_blob p s = (case p of None \<Rightarrow> Some s
     | Some a \<Rightarrow> do { _ \<leftarrow> blobs s a; Some (s\<lparr>blobs := (blobs s)(a := None)\<rparr>) })"

definition tab :: "dmst \<Rightarrow> ptr \<Rightarrow> value_table option" where
  "tab s p = (case p of None \<Rightarrow> None | Some a \<Rightarrow> tables s a)"

definition node :: "dmst \<Rightarrow> ptr \<Rightarrow> instance_node option" where
  "node s p = (case p of None \<Rightarrow> None | Some a \<Rightarrow> nodes s a)"

definition tree :: "dmst \<Rightarrow> ptr \<Rightarrow> instance_tree option" where
  "tree s p = (case p of None \<Rightarrow> None | Some a \<Rightarrow> trees s a)"

definition tree_upd :: "(instance_tree \<Rightarrow> instance_tree) \<Rightarrow> dmst \<Rightarrow> ptr \<Rightarrow> dmst option" where
  "tree_upd f s p = (case p of None \<Rightarrow> None
     | Some a \<Rightarrow> do { t \<leftarrow> trees s a; Some (s\<lparr>trees := (trees s)(a \<mapsto> f t)\<rparr>) })"

definition node_upd :: "(instance_node \<Rightarrow> instance_node) \<Rightarrow> dmst \<Rightarrow> ptr \<Rightarrow> dmst option" where
  "node_upd f s p = (case p of None \<Rightarrow> None
     | Some a \<Rightarrow> do { t \<leftarrow> nodes s a; Some (s\<lparr>nodes := (nodes s)(a \<mapsto> f t)\<rparr>) })"

text \<open>\<^verbatim>\<open>*r\<close> and \<^verbatim>\<open>*r = v\<close> for a \<^verbatim>\<open>DM_VALUE *r\<close>.\<close>

fun getv :: "dmst \<Rightarrow> vref \<Rightarrow> DM_VALUE option" where
  "getv s (VTab a i) = do { t \<leftarrow> tables s a; nth_opt (vt_values t) i }"
| "getv s (VNode a) = do { n \<leftarrow> nodes s a; Some (in_table n) }"

fun putv :: "dmst \<Rightarrow> vref \<Rightarrow> DM_VALUE \<Rightarrow> dmst option" where
  "putv s (VTab a i) v = do {
     t \<leftarrow> tables s a;
     vs \<leftarrow> upd_opt (vt_values t) i v;
     Some (s\<lparr>tables := (tables s)(a \<mapsto> t\<lparr>vt_values := vs\<rparr>)\<rparr>) }"
| "putv s (VNode a) v = do {
     n \<leftarrow> nodes s a;
     Some (s\<lparr>nodes := (nodes s)(a \<mapsto> n\<lparr>in_table := v\<rparr>)\<rparr>) }"

definition or_flags :: "dmst \<Rightarrow> vref \<Rightarrow> u16 \<Rightarrow> dmst option" where
  "or_flags s r f = do { v \<leftarrow> getv s r; putv s r (v\<lparr>dv_flags := dv_flags v OR f\<rparr>) }"

definition clear_flags :: "dmst \<Rightarrow> vref \<Rightarrow> u16 \<Rightarrow> dmst option" where
  "clear_flags s r f = do { v \<leftarrow> getv s r; putv s r (v\<lparr>dv_flags := dv_flags v AND NOT f\<rparr>) }"

text \<open>\<open>ift->values[id - 1]\<close>; the identifier 0 would index before the table.\<close>

definition val_ref :: "ptr \<Rightarrow> dm_id \<Rightarrow> vref option" where
  "val_ref p i = (case p of None \<Rightarrow> None | Some a \<Rightarrow> if i = 0 then None else Some (VTab a (unat i - 1)))"

section \<open>Comparing values\<close>

definition cmp3 :: "'a::linorder \<Rightarrow> 'a \<Rightarrow> int" where
  "cmp3 a b = (if a > b then 1 else if a < b then -1 else 0)"

definition ptr_cmp :: "('a \<Rightarrow> 'a \<Rightarrow> int) \<Rightarrow> 'a option \<Rightarrow> 'a option \<Rightarrow> int" where
  "ptr_cmp f a b = (case (a, b) of (Some x, Some y) \<Rightarrow> f x y
     | (None, Some _) \<Rightarrow> -1 | (Some _, None) \<Rightarrow> 1 | (None, None) \<Rightarrow> 0)"

text \<open>The default case subtracts the addresses of unrelated objects, which C leaves undefined.\<close>

fun dm_compare_values :: "dmst \<Rightarrow> dm_type \<Rightarrow> DM_VALUE \<Rightarrow> DM_VALUE \<Rightarrow> int option" where
  "dm_compare_values s T_INSTANCE a b = do {
     p \<leftarrow> DM_NODE a; x \<leftarrow> node s p; q \<leftarrow> DM_NODE b; y \<leftarrow> node s q;
     Some (cmp3 (unat (in_instance x)) (unat (in_instance y))) }"
| "dm_compare_values s T_UINT a b = do { x \<leftarrow> DM_UINT a; y \<leftarrow> DM_UINT b; Some (cmp3 (unat x) (unat y)) }"
| "dm_compare_values s T_INT a b = do { x \<leftarrow> DM_INT a; y \<leftarrow> DM_INT b; Some (cmp3 (sint x) (sint y)) }"
| "dm_compare_values s T_UINT64 a b = do { x \<leftarrow> DM_UINT64 a; y \<leftarrow> DM_UINT64 b; Some (cmp3 (unat x) (unat y)) }"
| "dm_compare_values s T_INT64 a b = do { x \<leftarrow> DM_INT64 a; y \<leftarrow> DM_INT64 b; Some (cmp3 (sint x) (sint y)) }"
| "dm_compare_values s T_BOOL a b = do { x \<leftarrow> DM_BOOL a; y \<leftarrow> DM_BOOL b; Some (if x = y then 0 else 1) }"
| "dm_compare_values s T_STR a b = do {
     p \<leftarrow> DM_STRING a; x \<leftarrow> str_of s p; q \<leftarrow> DM_STRING b; y \<leftarrow> str_of s q;
     Some (ptr_cmp strcmp x y) }"
| "dm_compare_values s T_BINARY a b = do {
     p \<leftarrow> DM_BINARY a; x \<leftarrow> bin_of s p; q \<leftarrow> DM_BINARY b; y \<leftarrow> bin_of s q; Some (dm_binarycmp x y) }"
| "dm_compare_values s T_BASE64 a b = do {
     p \<leftarrow> DM_BINARY a; x \<leftarrow> bin_of s p; q \<leftarrow> DM_BINARY b; y \<leftarrow> bin_of s q; Some (dm_binarycmp x y) }"
| "dm_compare_values s T_DATE a b = do { x \<leftarrow> DM_TIME a; y \<leftarrow> DM_TIME b; Some (cmp3 (sint x) (sint y)) }"
| "dm_compare_values s T_TICKS a b = do { x \<leftarrow> DM_TICKS a; y \<leftarrow> DM_TICKS b; Some (cmp3 (sint x) (sint y)) }"
| "dm_compare_values s T_ENUM a b = do {
     x \<leftarrow> DM_ENUM a; y \<leftarrow> DM_ENUM b;
     Some (if sint x > sint y then 1 else if x - y \<noteq> 0 then -1 else 0) }"
| "dm_compare_values s T_SELECTOR a b = do {
     p \<leftarrow> DM_SELECTOR a; x \<leftarrow> sel_of s p; q \<leftarrow> DM_SELECTOR b; y \<leftarrow> sel_of s q;
     case (x, y) of
       (Some x, Some y) \<Rightarrow> dm_selcmp (Some x) (Some y) DM_SELECTOR_LEN
     | (None, Some _) \<Rightarrow> Some (-1) | (Some _, None) \<Rightarrow> Some 1 | (None, None) \<Rightarrow> Some 0 }"
| "dm_compare_values s T_IPADDR4 a b = do {
     x \<leftarrow> DM_IP4 a; y \<leftarrow> DM_IP4 b; Some (memcmp (bytes_of 4 x) (bytes_of 4 y)) }"
| "dm_compare_values s T_IPADDR6 a b = do {
     x \<leftarrow> DM_IP6 a; y \<leftarrow> DM_IP6 b; Some (memcmp (bytes_of 16 x) (bytes_of 16 y)) }"
| "dm_compare_values s _ a b = None"

end
