(* ===== verification/Dm_Queue.thy ===== *)
theory Dm_Queue
  imports Dm_State
begin

text \<open>
  The ordered trees of \<^verbatim>\<open>sys/tree.h\<close> that the notification queues, the cache and the
  chain of actions are kept in, as the lists of their elements in order. \<open>rb_find\<close>,
  \<open>rb_insert\<close> and \<open>rb_remove_nth\<close> are what \<^verbatim>\<open>RB_FIND\<close>, \<^verbatim>\<open>RB_INSERT\<close> and
  \<^verbatim>\<open>RB_REMOVE\<close> do to that sequence; which element \<^verbatim>\<open>RB_ROOT\<close> returns is left open by the
  function \<open>root\<close>, and every theorem holds for all of them.
\<close>

fun rb_find :: "('a \<Rightarrow> 'a \<Rightarrow> int option) \<Rightarrow> 'a \<Rightarrow> 'a list \<Rightarrow> 'a option option" where
  "rb_find cmp x [] = Some None"
| "rb_find cmp x (y # ys) = do { c \<leftarrow> cmp x y; if c = 0 then Some (Some y) else rb_find cmp x ys }"

fun rb_insert :: "('a \<Rightarrow> 'a \<Rightarrow> int option) \<Rightarrow> 'a \<Rightarrow> 'a list \<Rightarrow> ('a option \<times> 'a list) option" where
  "rb_insert cmp x [] = Some (None, [x])"
| "rb_insert cmp x (y # ys) = do {
     c \<leftarrow> cmp x y;
     if c < 0 then Some (None, x # y # ys)
     else if c = 0 then Some (Some y, y # ys)
     else do { (r, ys') \<leftarrow> rb_insert cmp x ys; Some (r, y # ys') } }"

text \<open>Writing to the element found: the one that compares equal is replaced.\<close>

fun rb_update :: "('a \<Rightarrow> 'a \<Rightarrow> int option) \<Rightarrow> 'a \<Rightarrow> ('a \<Rightarrow> 'a) \<Rightarrow> 'a list \<Rightarrow> 'a list option" where
  "rb_update cmp x f [] = Some []"
| "rb_update cmp x f (y # ys) = do {
     c \<leftarrow> cmp x y;
     if c = 0 then Some (f y # ys) else do { ys' \<leftarrow> rb_update cmp x f ys; Some (y # ys') } }"

definition root_index :: "(nat \<Rightarrow> nat) \<Rightarrow> 'a list \<Rightarrow> nat" where
  "root_index root xs = root (length xs) mod length xs"

definition RB_ROOT :: "(nat \<Rightarrow> nat) \<Rightarrow> 'a list \<Rightarrow> 'a option" where
  "RB_ROOT root xs = (if xs = [] then None else Some (xs ! root_index root xs))"

definition rb_remove_nth :: "nat \<Rightarrow> 'a list \<Rightarrow> 'a list" where
  "rb_remove_nth i xs = take i xs @ drop (Suc i) xs"

definition remove_root :: "(nat \<Rightarrow> nat) \<Rightarrow> 'a list \<Rightarrow> 'a list" where
  "remove_root root xs = rb_remove_nth (root_index root xs) xs"

lemma root_index_less: "xs \<noteq> [] \<Longrightarrow> root_index root xs < length xs"
  by (simp add: root_index_def)

lemma length_remove_root: "xs \<noteq> [] \<Longrightarrow> length (remove_root root xs) = length xs - 1"
  using root_index_less [of xs root] by (simp add: remove_root_def rb_remove_nth_def)

lemma set_remove_root: "xs \<noteq> [] \<Longrightarrow> set xs = insert (xs ! root_index root xs) (set (remove_root root xs))"
  using id_take_nth_drop [OF root_index_less [of xs root]]
  by (metis Un_insert_right list.simps(15) rb_remove_nth_def remove_root_def set_append)

text \<open>An ordered collection with unique keys.\<close>

locale ordered_queue = three_way D cmp for D :: "'a \<Rightarrow> bool" and cmp :: "'a \<Rightarrow> 'a \<Rightarrow> int option"
begin

definition queue_inv :: "'a list \<Rightarrow> bool" where
  "queue_inv xs \<longleftrightarrow> (\<forall>x \<in> set xs. D x) \<and> sorted_wrt lt xs"

lemma queue_inv_Nil [simp]: "queue_inv []"
  by (simp add: queue_inv_def)

lemma queue_inv_Cons: "queue_inv (y # ys) \<longleftrightarrow> D y \<and> (\<forall>z \<in> set ys. lt y z) \<and> queue_inv ys"
  by (auto simp: queue_inv_def)

lemma cmp_cases:
  assumes "D x" "D y"
  obtains c where "cmp x y = Some c" "c < 0 \<longleftrightarrow> lt x y" "c = 0 \<longleftrightarrow> eqv x y" "0 < c \<longleftrightarrow> lt y x"
  using cmp_total [OF assms] lt_iff [OF assms(2,1)] by (auto simp: lt_def eqv_def)

lemma queue_unique:
  assumes "queue_inv xs" "y \<in> set xs" "z \<in> set xs" "eqv y z"
  shows "y = z"
  using assms
proof (induction xs)
  case (Cons x xs)
  from Cons.prems have "D y" "D z" by (auto simp: queue_inv_def)
  with Cons show ?case using lt_not_eqv by (auto simp: queue_inv_Cons)
qed simp

lemma rb_find_spec:
  assumes "queue_inv xs" "D x"
  shows "(\<exists>y \<in> set xs. eqv x y \<and> rb_find cmp x xs = Some (Some y)) \<or>
    (\<forall>y \<in> set xs. \<not> eqv x y) \<and> rb_find cmp x xs = Some None"
  using assms(1)
proof (induction xs)
  case (Cons y ys)
  then have "D y" "queue_inv ys" by (auto simp: queue_inv_Cons)
  obtain c where "cmp x y = Some c" "c = 0 \<longleftrightarrow> eqv x y" by (rule cmp_cases [OF assms(2) \<open>D y\<close>])
  with Cons.IH [OF \<open>queue_inv ys\<close>] show ?case by (cases "c = 0") auto
qed simp

lemma rb_insert_spec:
  assumes "queue_inv xs" "D x"
  shows "(\<exists>y \<in> set xs. eqv x y \<and> rb_insert cmp x xs = Some (Some y, xs)) \<or>
    (\<forall>y \<in> set xs. \<not> eqv x y) \<and> (\<exists>ys zs. xs = ys @ zs \<and> rb_insert cmp x xs = Some (None, ys @ x # zs) \<and>
       queue_inv (ys @ x # zs))"
  using assms(1)
proof (induction xs)
  case Nil
  then show ?case using assms(2) by (auto simp: queue_inv_def)
next
  case (Cons y ys)
  then have y: "D y" "queue_inv ys" "\<And>z. z \<in> set ys \<Longrightarrow> lt y z \<and> D z" by (auto simp: queue_inv_Cons queue_inv_def)
  obtain c where c: "cmp x y = Some c" "c < 0 \<longleftrightarrow> lt x y" "c = 0 \<longleftrightarrow> eqv x y" "0 < c \<longleftrightarrow> lt y x"
    by (rule cmp_cases [OF assms(2) y(1)])
  consider "c < 0" | "c = 0" | "0 < c" by linarith
  then show ?case
  proof cases
    case 1
    have xy: "lt x y" using 1 c(2) by simp
    have "lt x z \<and> D z" if "z \<in> set (y # ys)" for z
    proof (cases "z = y")
      case False
      with that have z: "lt y z" "D z" using y(3) [of z] by simp_all
      from lt_trans [OF assms(2) y(1) z(2) xy z(1)] z(2) show ?thesis by simp
    qed (simp add: xy y(1))
    then have lts: "\<forall>z \<in> set (y # ys). lt x z \<and> D z" by (rule ballI)
    then have "queue_inv (x # y # ys)" using assms(2) Cons.prems by (simp add: queue_inv_Cons)
    moreover have "\<forall>z \<in> set (y # ys). \<not> eqv x z" using lts lt_not_eqv [OF assms(2)] by blast
    ultimately have "queue_inv (x # y # ys)" "\<forall>z \<in> set (y # ys). \<not> eqv x z" .
    with 1 c show ?thesis by (intro disjI2 conjI exI [of _ "[]"] exI [of _ "y # ys"]) auto
  next
    case 2
    with c show ?thesis by auto
  next
    case 3
    from Cons.IH [OF y(2)] show ?thesis
    proof (elim disjE conjE exE)
      assume "\<exists>z \<in> set ys. eqv x z \<and> rb_insert cmp x ys = Some (Some z, ys)"
      with 3 c show ?thesis by auto
    next
      fix us vs assume *: "\<forall>z \<in> set ys. \<not> eqv x z" "ys = us @ vs" "rb_insert cmp x ys = Some (None, us @ x # vs)"
        "queue_inv (us @ x # vs)"
      with 3 c y have "queue_inv ((y # us) @ x # vs)" by (auto simp: queue_inv_Cons)
      with * 3 c show ?thesis
        by (intro disjI2 conjI exI [of _ "y # us"] exI [of _ vs]) (auto simp: queue_inv_Cons)
    qed
  qed
qed

lemma queue_inv_sub: "queue_inv (xs @ y # ys) \<Longrightarrow> queue_inv (xs @ ys)"
  by (auto simp: queue_inv_def sorted_wrt_append)

lemma queue_inv_remove: "queue_inv xs \<Longrightarrow> i < length xs \<Longrightarrow> queue_inv (rb_remove_nth i xs)"
  unfolding rb_remove_nth_def by (metis id_take_nth_drop queue_inv_sub)

text \<open>Replacing the element found by one with the same key.\<close>

lemma rb_update_spec:
  assumes "queue_inv xs" "D x" "y \<in> set xs" "eqv x y" "D (f y)" "eqv y (f y)"
  shows "\<exists>us vs. xs = us @ y # vs \<and> rb_update cmp x f xs = Some (us @ f y # vs) \<and> queue_inv (us @ f y # vs)"
  using assms(1,3)
proof (induction xs)
  case (Cons z zs)
  then have z: "D z" "queue_inv zs" "\<And>w. w \<in> set zs \<Longrightarrow> lt z w \<and> D w" by (auto simp: queue_inv_Cons queue_inv_def)
  obtain c where c: "cmp x z = Some c" "c = 0 \<longleftrightarrow> eqv x z" by (rule cmp_cases [OF assms(2) z(1)])
  have Dy: "D y" using Cons.prems by (auto simp: queue_inv_def)
  show ?case
  proof (cases "z = y")
    case True
    have "\<And>w. w \<in> set zs \<Longrightarrow> lt (f y) w"
      using z True assms(5,6) eqv_sym [of y "f y"] eqv_lt_trans [of "f y" y] Dy by blast
    with True z assms(4,5) c show ?thesis
      by (intro exI [of _ "[]"] exI [of _ zs]) (auto simp: queue_inv_Cons)
  next
    case False
    then have "y \<in> set zs" using Cons.prems by simp
    moreover have "\<not> eqv x z"
    proof
      assume "eqv x z"
      then have "eqv z y" using assms(2,4) z Dy eqv_sym eqv_trans by blast
      with queue_unique [OF Cons.prems(1), of z y] Cons.prems False show False by simp
    qed
    ultimately obtain us vs where *: "zs = us @ y # vs" "rb_update cmp x f zs = Some (us @ f y # vs)"
      "queue_inv (us @ f y # vs)" using Cons.IH [OF z(2)] by blast
    have "lt z (f y)" using z \<open>y \<in> set zs\<close> assms(5,6) lt_eqv_trans Dy by blast
    with * z c \<open>\<not> eqv x z\<close> show ?thesis
      by (intro exI [of _ "z # us"] exI [of _ vs]) (auto simp: queue_inv_Cons)
  qed
qed simp

end

lemma ordered_queue_key:
  assumes "three_way D cmp"
  shows "ordered_queue (\<lambda>x. D (k x)) (\<lambda>x y. cmp (k x) (k y))"
proof -
  from assms have *: "three_way D cmp" .
  show ?thesis
    unfolding ordered_queue_def
    by (unfold_locales)
      (auto intro: three_way.cmp_total [OF *] three_way.cmp_refl [OF *] three_way.cmp_flip [OF *]
        three_way.cmp_trans [OF *])
qed

text \<open>Comparing by a key in a linear order, and by one criterion after the other.\<close>

lemma three_way_cmp3: "three_way D (\<lambda>a b. Some (cmp3 (k a) (k b)))"
  by unfold_locales (auto simp: cmp3_def split: if_splits)

lemma three_way_lex:
  assumes "three_way D c1" "three_way D c2"
  shows "three_way D (\<lambda>a b. do { r \<leftarrow> c1 a b; if r = 0 then c2 a b else Some r })"
proof
  note t1 = assms(1) and t2 = assms(2)
  fix x y z assume D: "D x" "D y"
  obtain r1 r2 where r: "c1 x y = Some r1" "c2 x y = Some r2"
    using three_way.cmp_total [OF t1 D] three_way.cmp_total [OF t2 D] by blast
  obtain q1 q2 where q: "c1 y x = Some q1" "sgn q1 = - sgn r1" "c2 y x = Some q2" "sgn q2 = - sgn r2"
    using three_way.cmp_flip [OF t1 D r(1)] three_way.cmp_flip [OF t2 D r(2)] by blast
  have z1: "q1 = 0 \<longleftrightarrow> r1 = 0" using q(2) by (metis neg_0_equal_iff_equal sgn_0_0)
  show "\<exists>r. (do { r \<leftarrow> c1 x y; if r = 0 then c2 x y else Some r }) = Some r" using r by auto
  show "\<exists>q. (do { r \<leftarrow> c1 y x; if r = 0 then c2 y x else Some r }) = Some q \<and> sgn q = - sgn r"
    if "(do { r \<leftarrow> c1 x y; if r = 0 then c2 x y else Some r }) = Some r" for r
    using that r q z1 by (auto split: if_splits)
  fix r p assume z: "D z" and
    c: "(do { r \<leftarrow> c1 x y; if r = 0 then c2 x y else Some r }) = Some r"
      "(do { r \<leftarrow> c1 y z; if r = 0 then c2 y z else Some r }) = Some p" "r \<le> 0" "p \<le> 0"
  obtain p1 p2 where p: "c1 y z = Some p1" "c2 y z = Some p2"
    using three_way.cmp_total [OF t1 D(2) z] three_way.cmp_total [OF t2 D(2) z] by blast
  have le: "r1 \<le> 0" "p1 \<le> 0" using c r p by (auto split: if_splits)
  obtain w1 where w1: "c1 x z = Some w1" "w1 \<le> 0" "w1 = 0 \<Longrightarrow> r1 = 0 \<and> p1 = 0"
    using three_way.cmp_trans [OF t1 D z r(1) p(1) le] by auto
  show "\<exists>w. (do { r \<leftarrow> c1 x z; if r = 0 then c2 x z else Some r }) = Some w \<and> w \<le> 0 \<and> (w = 0 \<longrightarrow> r = 0 \<and> p = 0)"
  proof (cases "w1 = 0")
    case True
    then have "r1 = 0" "p1 = 0" using w1 by auto
    then have "r2 \<le> 0" "p2 \<le> 0" "r = r2" "p = p2" using c r p by auto
    with three_way.cmp_trans [OF t2 D z r(2) p(2)] True w1 show ?thesis by auto
  qed (use w1 in auto)
next
  show "(do { r \<leftarrow> c1 x x; if r = 0 then c2 x x else Some r }) = Some 0" if "D x" for x
    using three_way.cmp_refl [OF assms(1) that] three_way.cmp_refl [OF assms(2) that] by simp
qed

end
