(* ===== verification/Dm_Notify.thy ===== *)
theory Dm_Notify
  imports Dm_Queue
begin

text \<open>
  The notification queues of \<^verbatim>\<open>mand/dm_notify.c\<close>: sixteen slots, each with a callback and
  a queue of changes ordered by selector. A value carries two bits of notification level for
  each slot; a change of the value is put into the queue of every slot with a level other than
  zero, except the one that made the change. The functions that set the levels in the store are
  in theory \<open>Dm_Walk\<close>.

  \<open>queue_view\<close> is the abstract content of a queue, a map from paths to the last change.
  Shown: what \<open>notify_sel\<close> does to these maps, that it keeps the queues in order, that
  slots are handed out once, and what happens to the queue contents on delivery. A failing
  allocation in \<open>notify_sel\<close> skips the shift of the level word, with the consequence
  stated in \<open>notify_oom_wrong_slot\<close>.
\<close>

section \<open>Model\<close>

definition SLOTS :: nat where
  "SLOTS = 16"

definition no_selector :: dm_selector where
  "no_selector = replicate DM_SELECTOR_LEN 0"

definition notify_compare :: "notify_item \<Rightarrow> notify_item \<Rightarrow> int option" where
  "notify_compare a b = dm_selcmp (Some (ni_sb a)) (Some (ni_sb b)) DM_SELECTOR_LEN"

definition slots_init :: "slot list" where
  "slots_init = \<lparr>sl_cb = Some CB_dm_notify, sl_data = 0, sl_queue = []\<rparr> #
     replicate 15 \<lparr>sl_cb = None, sl_data = 0, sl_queue = []\<rparr>"

text \<open>The state in which the program starts.\<close>

definition initial_state :: dmst where
  "initial_state = \<lparr>st_oom = (\<lambda>_. False), st_brk = 0, dm_mem = 0, blobs = Map.empty, tables = Map.empty,
     trees = Map.empty, nodes = Map.empty, idxmem = (\<lambda>_. Map.empty), dm_value_store = None,
     notify_pending = False, slot_map = 0x0001, slot_cnt = 1, slots = slots_init, exec_chain = None,
     cache = []\<rparr>"

definition notify_is_valid :: "dm_element \<Rightarrow> u32 \<Rightarrow> bool" where
  "notify_is_valid elem ntfy =
     (if has (el_flags elem) F_ACS_NTFY \<and> ntfy \<noteq> ACTIVE_NOTIFY then False
      else if has (el_flags elem) F_ACS_NO_NTFY \<and> sint ntfy \<ge> sint ACTIVE_NOTIFY then False
      else True)"

text \<open>The slot number, or \<open>-1\<close> when all are in use.\<close>

definition alloc_slot :: "notify_cb option \<Rightarrow> nat \<Rightarrow> dmst \<Rightarrow> (int \<times> dmst) option" where
  "alloc_slot cb data s =
     (if slot_cnt s \<ge> 16 then Some (-1, s)
      else do {
        let slot = ffs (NOT (ucast (slot_map s) :: u32)) - 1;
        let s = s\<lparr>slot_map := slot_map s OR ucast (push_bit slot 1 :: u32), slot_cnt := slot_cnt s + 1\<rparr>;
        sl \<leftarrow> nth_opt (slots s) slot;
        Some (int slot, s\<lparr>slots := (slots s)[slot := sl\<lparr>sl_data := data, sl_cb := cb\<rparr>]\<rparr>) })"

text \<open>
  One round of the loop over the slots, with the rest of the level word. When the item cannot be
  allocated the \<^verbatim>\<open>continue\<close> goes to the next slot without the shift.
\<close>

definition notify_slot ::
  "int \<Rightarrow> dm_selector \<Rightarrow> DM_VALUE \<Rightarrow> notify_type \<Rightarrow> nat \<Rightarrow> u32 \<times> dmst \<Rightarrow> (u32 \<times> dmst) option" where
  "notify_slot slot sel value type i = (\<lambda>(ntfy, s).
     let level = ntfy AND 0x0003;
         si = \<lparr>ni_level = level, ni_sb = sel, ni_type = type, ni_value = value\<rparr>
     in if int i \<noteq> slot \<and> level \<noteq> 0
        then do {
          sl \<leftarrow> nth_opt (slots s) i;
          item \<leftarrow> rb_find notify_compare si (sl_queue sl);
          case item of
            Some _ \<Rightarrow> do {
              q \<leftarrow> rb_update notify_compare si
                    (\<lambda>it. it\<lparr>ni_level := level, ni_type := type, ni_value := value\<rparr>) (sl_queue sl);
              Some (drop_bit 2 ntfy, s\<lparr>slots := (slots s)[i := sl\<lparr>sl_queue := q\<rparr>]\<rparr>) }
          | None \<Rightarrow> (case malloc s of
              (None, s) \<Rightarrow> Some (ntfy, s)
            | (Some _, s) \<Rightarrow> do {
                (_, q) \<leftarrow> rb_insert notify_compare si (sl_queue sl);
                Some (drop_bit 2 ntfy,
                      s\<lparr>slots := (slots s)[i := sl\<lparr>sl_queue := q\<rparr>], notify_pending := True\<rparr>) }) }
        else Some (drop_bit 2 ntfy, s))"

definition notify_sel :: "int \<Rightarrow> dm_selector \<Rightarrow> DM_VALUE \<Rightarrow> notify_type \<Rightarrow> dmst \<Rightarrow> dmst option" where
  "notify_sel slot sel value type s =
     (if dv_notify value = 0 then Some s
      else do {
        sel \<leftarrow> dm_selcpy no_selector sel;
        (_, s) \<leftarrow> ofold (notify_slot slot sel value type) [0..<SLOTS] (dv_notify value, s);
        Some s })"

definition notify :: "int \<Rightarrow> dm_selector \<Rightarrow> dm_id \<Rightarrow> DM_VALUE \<Rightarrow> notify_type \<Rightarrow> dmst \<Rightarrow> dmst option" where
  "notify slot sel i value type s =
     (if dv_notify value = 0 then Some s
      else do {
        nsl \<leftarrow> dm_selcpy no_selector sel;
        nsl \<leftarrow> dm_selcat nsl i;
        notify_sel slot nsl value type s })"

function clear_notify_queue :: "(nat \<Rightarrow> nat) \<Rightarrow> notify_item list \<Rightarrow> notify_item list" where
  "clear_notify_queue root queue =
     (case RB_ROOT root queue of
        None \<Rightarrow> queue
      | Some _ \<Rightarrow> clear_notify_queue root (remove_root root queue))"
  by pat_completeness auto
termination
proof (relation "measure (\<lambda>(_, q). length q)")
  fix root :: "nat \<Rightarrow> nat" and q :: "notify_item list" and x
  assume "RB_ROOT root q = Some x"
  then have "q \<noteq> []" by (auto simp: RB_ROOT_def)
  then show "((root, remove_root root q), root, q) \<in> measure (\<lambda>(_, q). length q)"
    by (simp add: length_remove_root)
qed simp

declare clear_notify_queue.simps [simp del]

definition dm_notify :: "(nat \<Rightarrow> nat) \<Rightarrow> notify_item list \<Rightarrow> notify_item list" where
  "dm_notify root queue = clear_notify_queue root queue"

text \<open>
  Delivery. The callback of a session gets its data, the queue and the store to read, and
  returns the rest of the queue and the messages it has sent.
\<close>

type_synonym 'm session_cb = "nat \<Rightarrow> notify_item list \<Rightarrow> dmst \<Rightarrow> 'm \<Rightarrow> (notify_item list \<times> 'm) option"

definition deliver_slot ::
  "(nat \<Rightarrow> nat) \<Rightarrow> 'm session_cb \<Rightarrow> nat \<Rightarrow> 'm \<times> dmst \<Rightarrow> ('m \<times> dmst) option" where
  "deliver_slot root scb i = (\<lambda>(m, s). do {
     sl \<leftarrow> nth_opt (slots s) i;
     case sl_cb sl of
       None \<Rightarrow> Some (m, s)
     | Some cb \<Rightarrow>
         if RB_ROOT root (sl_queue sl) = None then Some (m, s)
         else do {
           (q, m) \<leftarrow> (case cb of CB_dm_notify \<Rightarrow> Some (dm_notify root (sl_queue sl), m)
                       | CB_session \<Rightarrow> scb (sl_data sl) (sl_queue sl) s m);
           Some (m, s\<lparr>slots := (slots s)[i := sl\<lparr>sl_queue := q\<rparr>]\<rparr>) } })"

definition exec_pending_notifications ::
  "(nat \<Rightarrow> nat) \<Rightarrow> 'm session_cb \<Rightarrow> 'm \<times> dmst \<Rightarrow> ('m \<times> dmst) option" where
  "exec_pending_notifications root scb ms =
     (if \<not> notify_pending (snd ms) then Some ms
      else do {
        (m, s) \<leftarrow> ofold (deliver_slot root scb) [0..<SLOTS] ms;
        Some (m, s\<lparr>notify_pending := False\<rparr>) })"

text \<open>
  Sets the level of one slot in a value. A slot number that is negative or too large would be a
  shift by an undefined amount.
\<close>

definition set_notify_single_slot_element ::
  "dm_element \<Rightarrow> DM_VALUE \<Rightarrow> int \<Rightarrow> u32 \<Rightarrow> (DM_RESULT \<times> DM_VALUE) option" where
  "set_notify_single_slot_element elem value slot ntfy = do {
     oassert (0 \<le> slot \<and> slot < 16);
     let mask = NOT (push_bit (nat slot * 2) (0x0003 :: u32));
     let n = (dv_notify value AND mask) OR push_bit (nat slot * 2) (ntfy AND 0x0003);
     if slot = 0
     then if \<not> notify_is_valid elem (n AND 0x0003) then Some (DM_INVALID_VALUE, value)
          else let value = value\<lparr>dv_notify := n\<rparr>
               in Some (DM_OK,
                    if notify_default elem \<noteq> (dv_notify value AND 0x0003)
                    then value\<lparr>dv_flags := dv_flags value OR DV_NOTIFY\<rparr>
                    else value\<lparr>dv_flags := dv_flags value AND NOT DV_NOTIFY\<rparr>)
     else Some (DM_OK, value\<lparr>dv_notify := n\<rparr>) }"

section \<open>The queues are maps\<close>

interpretation notify_order: ordered_queue "\<lambda>it. is_selector (ni_sb it)" notify_compare
  unfolding notify_compare_def by (rule ordered_queue_key) (rule sel_order.three_way_axioms)

lemma notify_eqv: "is_selector (ni_sb a) \<Longrightarrow> is_selector (ni_sb b) \<Longrightarrow>
    notify_order.eqv a b \<longleftrightarrow> path (ni_sb a) = path (ni_sb b)"
  by (simp add: notify_order.eqv_def notify_compare_def dm_selcmp_path)

type_synonym change = "u32 \<times> notify_type \<times> DM_VALUE"

definition change_of :: "notify_item \<Rightarrow> change" where
  "change_of it = (ni_level it, ni_type it, ni_value it)"

definition queue_view :: "notify_item list \<Rightarrow> dm_id list \<Rightarrow> change option" where
  "queue_view q p = map_option change_of (find (\<lambda>it. path (ni_sb it) = p) q)"

definition level_of :: "u32 \<Rightarrow> nat \<Rightarrow> u32" where
  "level_of w i = drop_bit (2 * i) w AND 3"

definition slots_inv :: "dmst \<Rightarrow> bool" where
  "slots_inv s \<longleftrightarrow> length (slots s) = SLOTS \<and> (\<forall>sl \<in> set (slots s). notify_order.queue_inv (sl_queue sl))"

definition view :: "dmst \<Rightarrow> nat \<Rightarrow> dm_id list \<Rightarrow> change option" where
  "view s i = queue_view (sl_queue (slots s ! i))"

lemma queue_paths_distinct: "notify_order.queue_inv q \<Longrightarrow> distinct (map (path \<circ> ni_sb) q)"
proof (induction q)
  case (Cons y ys)
  then have D: "is_selector (ni_sb y)" "\<forall>z \<in> set ys. is_selector (ni_sb z)"
    by (auto simp: notify_order.queue_inv_def)
  have "path (ni_sb y) \<noteq> path (ni_sb z)" if "z \<in> set ys" for z
  proof -
    from that Cons.prems have "notify_order.lt y z" by (simp add: notify_order.queue_inv_Cons)
    with that D have "\<not> notify_order.eqv y z" using notify_order.lt_not_eqv [of y z] by auto
    with that D show ?thesis by (simp add: notify_eqv)
  qed
  then show ?case using Cons by (auto simp: notify_order.queue_inv_Cons)
qed simp

lemma find_distinct:
  "distinct (map f q) \<Longrightarrow> y \<in> set q \<Longrightarrow> find (\<lambda>x. f x = f y) q = Some y"
  by (induction q) (auto simp: image_iff)

lemma queue_view_Cons: "queue_view (y # ys) p = (if path (ni_sb y) = p then Some (change_of y) else queue_view ys p)"
  by (simp add: queue_view_def)

lemma queue_view_app: "queue_view (us @ vs) p = (case queue_view us p of None \<Rightarrow> queue_view vs p | Some c \<Rightarrow> Some c)"
  by (induction us) (auto simp: queue_view_def)

lemma queue_view_split:
  assumes "distinct (map (path \<circ> ni_sb) (us @ y # vs))"
  shows "queue_view (us @ y # vs) = (queue_view (us @ vs))(path (ni_sb y) \<mapsto> change_of y)"
proof
  fix p
  have "find (\<lambda>it. path (ni_sb it) = path (ni_sb y)) (us @ y # vs) = Some y"
    using find_distinct [OF assms, of y] by simp
  then show "queue_view (us @ y # vs) p = ((queue_view (us @ vs))(path (ni_sb y) \<mapsto> change_of y)) p"
    by (cases "p = path (ni_sb y)") (simp add: queue_view_def, auto simp: queue_view_app queue_view_Cons split: option.split)
qed

lemma enqueue_cases:
  fixes level :: u32 and type :: notify_type and "value" :: DM_VALUE and sel :: dm_selector
  assumes q: "notify_order.queue_inv q" and sel: "is_selector sel"
  defines "si \<equiv> \<lparr>ni_level = level, ni_sb = sel, ni_type = type, ni_value = value\<rparr>"
  obtains
    (found) y q' where "rb_find notify_compare si q = Some (Some y)"
      "rb_update notify_compare si (\<lambda>it. it\<lparr>ni_level := level, ni_type := type, ni_value := value\<rparr>) q = Some q'"
      "notify_order.queue_inv q'" "queue_view q' = (queue_view q)(path sel \<mapsto> (level, type, value))"
  | (new) q' where "rb_find notify_compare si q = Some None"
      "rb_insert notify_compare si q = Some (None, q')"
      "notify_order.queue_inv q'" "queue_view q' = (queue_view q)(path sel \<mapsto> (level, type, value))"
proof -
  let ?f = "\<lambda>it. it\<lparr>ni_level := level, ni_type := type, ni_value := value\<rparr>"
  have D: "is_selector (ni_sb si)" and ch: "change_of si = (level, type, value)" "ni_sb si = sel"
    by (simp_all add: si_def sel change_of_def)
  from notify_order.rb_find_spec [OF q D] show thesis
  proof (elim disjE bexE conjE)
    fix y assume y: "y \<in> set q" "notify_order.eqv si y" "rb_find notify_compare si q = Some (Some y)"
    have Dy: "is_selector (ni_sb y)" using y q by (simp add: notify_order.queue_inv_def)
    have "notify_order.eqv y (?f y)" using Dy by (simp add: notify_eqv)
    from notify_order.rb_update_spec [OF q D y(1,2), of ?f, OF _ this] Dy obtain us vs
      where *: "q = us @ y # vs" "rb_update notify_compare si ?f q = Some (us @ ?f y # vs)"
        "notify_order.queue_inv (us @ ?f y # vs)" by auto
    have p: "path (ni_sb y) = path sel" using y D Dy ch by (simp add: notify_eqv)
    have "queue_view (us @ ?f y # vs) = (queue_view q)(path sel \<mapsto> (level, type, value))"
      using queue_view_split [OF queue_paths_distinct [OF *(3)]] p
        queue_view_split [OF queue_paths_distinct [OF q [unfolded *(1)]]] *(1)
      by (simp add: change_of_def)
    from found [OF y(3) *(2,3) this] show thesis .
  next
    assume n: "\<forall>y\<in>set q. \<not> notify_order.eqv si y" "rb_find notify_compare si q = Some None"
    with notify_order.rb_insert_spec [OF q D] obtain us vs
      where *: "q = us @ vs" "rb_insert notify_compare si q = Some (None, us @ si # vs)"
        "notify_order.queue_inv (us @ si # vs)" by blast
    from queue_view_split [OF queue_paths_distinct [OF *(3)]]
    have "queue_view (us @ si # vs) = (queue_view q)(path sel \<mapsto> (level, type, value))"
      by (simp add: ch *(1))
    from new [OF n(2) *(2,3) this] show thesis .
  qed
qed

text \<open>One round of the loop, as long as memory lasts.\<close>

lemma notify_slot_step:
  assumes "slots_inv s" "is_selector sel" "i < SLOTS" "\<forall>n. \<not> st_oom s n"
  obtains s' where "notify_slot slot sel value type i (ntfy, s) = Some (drop_bit 2 ntfy, s')"
    "slots_inv s'" "st_oom s' = st_oom s"
    "view s' = (if int i \<noteq> slot \<and> ntfy AND 3 \<noteq> 0
       then (view s)(i := (view s i)(path sel \<mapsto> (ntfy AND 3, type, value))) else view s)"
proof (cases "int i \<noteq> slot \<and> ntfy AND 3 \<noteq> 0")
  case False
  then show thesis using assms(1) that [of s] by (auto simp: notify_slot_def Let_def)
next
  case True
  let ?sl = "slots s ! i"
  have i: "i < length (slots s)" using assms(1,3) by (simp add: slots_inv_def)
  then have "?sl \<in> set (slots s)" by simp
  then have q: "notify_order.queue_inv (sl_queue ?sl)" using assms(1) by (simp add: slots_inv_def)
  have inv: "slots_inv (s\<lparr>slots := (slots s)[i := ?sl\<lparr>sl_queue := q'\<rparr>]\<rparr>)" if "notify_order.queue_inv q'" for q'
    using that assms(1) set_update_subset_insert [of "slots s" i "?sl\<lparr>sl_queue := q'\<rparr>"]
    by (auto simp: slots_inv_def)
  have vw: "view (s\<lparr>slots := (slots s)[i := ?sl\<lparr>sl_queue := q'\<rparr>]\<rparr>) = (view s)(i := queue_view q')" for q'
    using i by (auto simp: view_def fun_eq_iff nth_list_update)
  show thesis
  proof (cases rule: enqueue_cases [OF q assms(2), of "ntfy AND 3" "type" "value"])
    case (1 y q')
    note found = this
    show thesis
      by (rule that [of "s\<lparr>slots := (slots s)[i := ?sl\<lparr>sl_queue := q'\<rparr>]\<rparr>"])
        (use True found i inv [of q'] vw [of q'] in \<open>simp_all add: notify_slot_def Let_def view_def\<close>)
  next
    case (2 q')
    note new = this
    define s1 where "s1 = s\<lparr>st_brk := st_brk s + 1\<rparr>"
    let ?s = "s1\<lparr>slots := (slots s)[i := ?sl\<lparr>sl_queue := q'\<rparr>], notify_pending := True\<rparr>"
    have m: "malloc s = (Some (st_brk s), s1)" and keep: "slots s1 = slots s" "st_oom s1 = st_oom s"
      using assms(4) by (simp_all add: malloc_def s1_def)
    have "slots_inv ?s" using inv [of q'] new by (simp add: slots_inv_def)
    moreover have "view ?s = (view s)(i := queue_view q')" using vw [of q'] by (simp add: view_def fun_eq_iff)
    ultimately show thesis
      by (intro that [of ?s])
        (use True new i keep in \<open>simp_all add: notify_slot_def Let_def view_def m\<close>)
  qed
qed

section \<open>Queueing a change\<close>

lemma notify_slots:
  assumes "slots_inv s" "is_selector sel" "\<forall>n. \<not> st_oom s n" "k \<le> SLOTS"
  shows "\<exists>s'. ofold (notify_slot slot sel value type) [0..<k] (ntfy, s) = Some (drop_bit (2 * k) ntfy, s') \<and>
    slots_inv s' \<and> st_oom s' = st_oom s \<and>
    (\<forall>i p. view s' i p = (if i < k \<and> int i \<noteq> slot \<and> level_of ntfy i \<noteq> 0 \<and> p = path sel
       then Some (level_of ntfy i, type, value) else view s i p))"
  using assms(4)
proof (induction k)
  case 0
  then show ?case using assms(1) by simp
next
  case (Suc k)
  then obtain s1 where s1: "ofold (notify_slot slot sel value type) [0..<k] (ntfy, s) = Some (drop_bit (2 * k) ntfy, s1)"
    "slots_inv s1" "st_oom s1 = st_oom s"
    "\<forall>i p. view s1 i p = (if i < k \<and> int i \<noteq> slot \<and> level_of ntfy i \<noteq> 0 \<and> p = path sel
       then Some (level_of ntfy i, type, value) else view s i p)" by auto
  from Suc.prems have k: "k < SLOTS" by simp
  obtain s2 where s2: "notify_slot slot sel value type k (drop_bit (2 * k) ntfy, s1) =
      Some (drop_bit 2 (drop_bit (2 * k) ntfy), s2)" "slots_inv s2" "st_oom s2 = st_oom s1"
    "view s2 = (if int k \<noteq> slot \<and> drop_bit (2 * k) ntfy AND 3 \<noteq> 0
       then (view s1)(k := (view s1 k)(path sel \<mapsto> (drop_bit (2 * k) ntfy AND 3, type, value))) else view s1)"
    using notify_slot_step [OF s1(2) assms(2) k, of slot "value" "type" "drop_bit (2 * k) ntfy"] s1(3) assms(3)
    by metis
  have "drop_bit 2 (drop_bit (2 * k) ntfy) = drop_bit (2 * Suc k) ntfy" by (simp add: add.commute)
  moreover have "view s2 i p = (if i < Suc k \<and> int i \<noteq> slot \<and> level_of ntfy i \<noteq> 0 \<and> p = path sel
       then Some (level_of ntfy i, type, value) else view s i p)" for i p
    using s1(4) s2(4) by (cases "i = k") (auto simp: level_of_def)
  ultimately show ?case using s1 s2 by (simp add: ofold_append)
qed

lemma level_of_0 [simp]: "level_of 0 i = 0"
  by (simp add: level_of_def)

lemma level_of_high: "SLOTS \<le> i \<Longrightarrow> level_of w i = 0"
  by (rule bit_word_eqI) (auto simp: level_of_def SLOTS_def bit_simps dest: bit_imp_le_length)


lemma slots_inv_initial: "slots_inv initial_state"
  by (simp add: slots_inv_def initial_state_def slots_init_def SLOTS_def)

lemma initial_oom: "\<not> st_oom initial_state n"
  by (simp add: initial_state_def)


text \<open>
  When the item for a slot cannot be allocated, the level word is not shifted, and the
  level of that slot is used for the next one: here a value that only slot 0 watches, at 1.2,
  ends up in the queue of slot 1, which did not ask for it.
\<close>
theorem notify_oom_wrong_slot:
  "level_of 1 1 = 0 \<and>
   (\<exists>s'. notify_sel (-1) ([1, 2] @ replicate 14 0) (zero_value\<lparr>dv_notify := 1\<rparr>) NOTIFY_CHANGE
        (initial_state\<lparr>st_oom := (\<lambda>n. n = 0)\<rparr>) = Some s' \<and>
      view s' 0 [1, 2] = None \<and> view s' 1 [1, 2] = Some (1, NOTIFY_CHANGE, zero_value\<lparr>dv_notify := 1\<rparr>))"
proof
  show "level_of 1 1 = 0" by (simp add: level_of_def)
  let ?sel = "[1, 2] @ replicate 14 0 :: dm_selector" and ?v = "zero_value\<lparr>dv_notify := 1\<rparr>"
  let ?s = "initial_state\<lparr>st_oom := (\<lambda>n. n = 0)\<rparr>"
  show "\<exists>s'. notify_sel (-1) ?sel ?v NOTIFY_CHANGE ?s = Some s' \<and>
      view s' 0 [1, 2] = None \<and> view s' 1 [1, 2] = Some (1, NOTIFY_CHANGE, ?v)"
    by (simp add: notify_sel_def notify_slot_def SLOTS_def upt_rec malloc_def initial_state_def slots_init_def
     dm_selcpy_def is_selector_def DM_SELECTOR_LEN_def no_selector_def view_def queue_view_def Let_def
     path_def change_of_def numeral_eq_Suc)
qed

section \<open>Slots\<close>

definition used_slots :: "dmst \<Rightarrow> nat set" where
  "used_slots s = {i. bit (slot_map s) i}"

definition slot_inv :: "dmst \<Rightarrow> bool" where
  "slot_inv s \<longleftrightarrow> slots_inv s \<and> slot_cnt s = int (card (used_slots s))"

lemma used_slots_bound: "used_slots s \<subseteq> {..<16}"
  by (auto simp: used_slots_def dest: bit_imp_le_length)

lemma used_slots_full: "card (used_slots s) \<ge> 16 \<Longrightarrow> used_slots s = {..<16}"
  by (intro card_seteq used_slots_bound) simp_all

lemma first_free_slot:
  assumes "used_slots s \<noteq> {..<16}"
  obtains n where "ffs (NOT (ucast (slot_map s) :: u32)) = Suc n" "n < 16" "n \<notin> used_slots s"
    "\<forall>k < n. k \<in> used_slots s"
proof -
  let ?w = "NOT (ucast (slot_map s) :: u32)"
  have bit: "bit ?w k \<longleftrightarrow> k < 32 \<and> k \<notin> used_slots s" for k
    by (auto simp: bit_simps used_slots_def dest: bit_imp_le_length)
  from assms used_slots_bound obtain m where m: "m < 16" "m \<notin> used_slots s" by blast
  then have "bit ?w m" by (simp add: bit)
  then have "ffs ?w \<noteq> 0" by (metis bit_0_eq bot_apply bot_bool_def ffs_zero_iff)
  note l = ffs_least [OF this]
  define n where "n = ffs ?w - 1"
  have "ffs ?w = Suc n" using \<open>ffs ?w \<noteq> 0\<close> by (simp add: n_def)
  moreover have "n \<le> m" using l(3) [of m] \<open>bit ?w m\<close> by (metis bit l(2) linorder_not_less n_def not_less_iff_gr_or_eq)
  moreover have "n \<notin> used_slots s" using l(2) bit by (simp add: n_def)
  moreover have "\<forall>k < n. k \<in> used_slots s" using l(3) bit m \<open>n \<le> m\<close> by (auto simp: n_def)
  ultimately show thesis using m that by auto
qed

text \<open>
  A new slot is the least free one of the sixteen; it gets the callback and its data, no
  other slot is touched, the count keeps step with the slot map, and \<open>-1\<close> is returned
  exactly when all are in use.
\<close>
theorem alloc_slot_fresh:
  assumes "slot_inv s"
  shows "if used_slots s = {..<16} then alloc_slot cb data s = Some (-1, s)
    else \<exists>n s'. alloc_slot cb data s = Some (int n, s') \<and> n < 16 \<and> n \<notin> used_slots s \<and>
      (\<forall>k < n. k \<in> used_slots s) \<and> used_slots s' = insert n (used_slots s) \<and> slot_inv s' \<and>
      slots s' = (slots s)[n := (slots s ! n)\<lparr>sl_data := data, sl_cb := cb\<rparr>]"
proof (cases "used_slots s = {..<16}")
  case True
  then show ?thesis using assms by (simp add: alloc_slot_def slot_inv_def)
next
  case False
  then have cnt: "\<not> slot_cnt s \<ge> 16" using assms used_slots_full [of s] by (auto simp: slot_inv_def)
  obtain n where n: "ffs (NOT (ucast (slot_map s) :: u32)) = Suc n" "n < 16" "n \<notin> used_slots s"
    "\<forall>k < n. k \<in> used_slots s" by (rule first_free_slot [OF False])
  let ?sl = "(slots s ! n)\<lparr>sl_data := data, sl_cb := cb\<rparr>"
  let ?s = "s\<lparr>slot_map := slot_map s OR ucast (push_bit n 1 :: u32), slot_cnt := slot_cnt s + 1,
    slots := (slots s)[n := ?sl]\<rparr>"
  have len: "n < length (slots s)" using assms n by (simp add: slot_inv_def slots_inv_def SLOTS_def)
  then have "slots s ! n \<in> set (slots s)" by simp
  then have inv: "slots_inv ?s"
    using assms set_update_subset_insert [of "slots s" n ?sl]
    by (auto simp: slot_inv_def slots_inv_def)
  have used: "used_slots ?s = insert n (used_slots s)"
    using n(2) by (auto simp: used_slots_def bit_simps)
  have "finite (used_slots s)" using used_slots_bound finite_subset by blast
  with used n(3) assms inv have "slot_inv ?s" by (simp add: slot_inv_def)
  moreover have "alloc_slot cb data s = Some (int n, ?s)"
    using cnt n(1) len by (simp add: alloc_slot_def)
  ultimately show ?thesis using False n used by auto
qed

lemma slot_inv_initial: "slot_inv initial_state"
proof -
  have "used_slots initial_state = {0}"
    by (auto simp: used_slots_def initial_state_def bit_1_iff)
  then show ?thesis by (simp add: slot_inv_def slots_inv_initial) (simp add: initial_state_def)
qed

theorem alloc_slot_fresh_witness:
  "\<exists>n s'. alloc_slot (Some CB_session) 7 initial_state = Some (int n, s') \<and> n \<noteq> 0 \<and> n < 16 \<and> slot_inv s'"
proof -
  have "0 \<in> used_slots initial_state" "1 \<notin> used_slots initial_state"
    by (simp_all add: used_slots_def initial_state_def bit_1_iff)
  moreover from this have "used_slots initial_state \<noteq> {..<16}" by (metis lessThan_iff one_less_numeral_iff semiring_norm(76))
  ultimately show ?thesis using alloc_slot_fresh [OF slot_inv_initial, of "Some CB_session" 7] by metis
qed

section \<open>Delivery and levels\<close>

lemma clear_notify_queue_empty: "clear_notify_queue root q = []"
proof (induction root q rule: clear_notify_queue.induct)
  case (1 root q)
  show ?case
  proof (cases q)
    case (Cons x xs)
    with 1 show ?thesis by (subst clear_notify_queue.simps) (simp add: RB_ROOT_def)
  qed (subst clear_notify_queue.simps, simp add: RB_ROOT_def)
qed

lemma three_mask: "(3 :: u32) = mask 2"
  by (simp add: mask_eq_exp_minus_1)

lemma level_of_bit: "bit (level_of w i) k \<longleftrightarrow> k < 2 \<and> bit w (2 * i + k)"
  unfolding level_of_def three_mask by (auto simp: bit_simps dest: bit_imp_le_length)

lemma level_of_set:
  assumes "k < 16"
  shows "level_of ((w AND NOT (push_bit (k * 2) 3)) OR push_bit (k * 2) (n AND 3)) i =
    (if i = k then n AND 3 else level_of w i)"
proof (rule bit_word_eqI)
  fix m assume "m < LENGTH(32)"
  show "bit (level_of ((w AND NOT (push_bit (k * 2) 3)) OR push_bit (k * 2) (n AND 3)) i) m =
    bit (if i = k then n AND 3 else level_of w i) m"
  proof (cases "m < 2")
    case True
    then have "2 * i + m - k * 2 < 2 \<and> k * 2 \<le> 2 * i + m \<longleftrightarrow> i = k" by auto
    with True assms show ?thesis unfolding level_of_bit three_mask
      by (auto simp: bit_simps level_of_bit dest: bit_imp_le_length)
  qed (auto simp: level_of_bit three_mask bit_simps)
qed

text \<open>
  Setting the level of a slot in a value changes the level of this slot and of no other;
  the value proper is kept. For slot 0 a level that the element does not allow is refused and
  leaves the value as it is, and \<open>DV_NOTIFY\<close> says whether the level differs from the
  default of the element.
\<close>
theorem set_notify_level:
  assumes "k < 16"
  shows "if k = 0 \<and> \<not> notify_is_valid elem (ntfy AND 3)
    then set_notify_single_slot_element elem v (int k) ntfy = Some (DM_INVALID_VALUE, v)
    else \<exists>v'. set_notify_single_slot_element elem v (int k) ntfy = Some (DM_OK, v') \<and>
      (\<forall>i. level_of (dv_notify v') i = (if i = k then ntfy AND 3 else level_of (dv_notify v) i)) \<and>
      dv_v v' = dv_v v \<and> dv_type v' = dv_type v \<and>
      (k = 0 \<longrightarrow> (has (dv_flags v') DV_NOTIFY \<longleftrightarrow> notify_default elem \<noteq> ntfy AND 3))"
proof -
  let ?n = "(dv_notify v AND NOT (push_bit (k * 2) 3)) OR push_bit (k * 2) (ntfy AND 3)"
  note lv = level_of_set [OF assms, of "dv_notify v" ntfy]
  have low: "?n AND 3 = ntfy AND 3" if "k = 0" using lv [of 0] that by (simp add: level_of_def)
  have fl: "has (f OR DV_NOTIFY) DV_NOTIFY" "\<not> has (f AND NOT DV_NOTIFY) DV_NOTIFY" for f
    unfolding has_def DV_NOTIFY_def word_and_one_bit by (simp_all add: bit_simps)
  define n where "n = ?n"
  have n: "\<And>i. level_of n i = (if i = k then ntfy AND 3 else level_of (dv_notify v) i)"
    "k = 0 \<Longrightarrow> n AND 3 = ntfy AND 3" using lv low by (simp_all only: n_def)
  have "set_notify_single_slot_element elem v (int k) ntfy =
      (if k = 0
       then if \<not> notify_is_valid elem (n AND 3) then Some (DM_INVALID_VALUE, v)
            else Some (DM_OK, v\<lparr>dv_notify := n, dv_flags :=
              (if notify_default elem \<noteq> n AND 3 then dv_flags v OR DV_NOTIFY else dv_flags v AND NOT DV_NOTIFY)\<rparr>)
       else Some (DM_OK, v\<lparr>dv_notify := n\<rparr>))"
    unfolding n_def using assms by (simp add: set_notify_single_slot_element_def Let_def)
  with n fl show ?thesis by (cases "k = 0") simp_all
qed

theorem set_notify_level_witness:
  "\<exists>v'. set_notify_single_slot_element (Element [] T_UINT 0 0 (Fk_value \<lparr>vf_validate = None, vf_get = None, vf_set = None\<rparr>) U_none)
      (zero_value\<lparr>dv_notify := 3\<rparr>) 2 2 = Some (DM_OK, v') \<and> level_of (dv_notify v') 2 = 2 \<and> level_of (dv_notify v') 0 = 3"
proof -
  have "level_of 3 0 = 3" "(2 :: u32) AND 3 = 2" by (simp_all add: level_of_def)
  with set_notify_level [of 2 "Element [] T_UINT 0 0 (Fk_value \<lparr>vf_validate = None, vf_get = None, vf_set = None\<rparr>) U_none"
      2 "zero_value\<lparr>dv_notify := 3\<rparr>"]
  show ?thesis by auto
qed

text \<open>
  An item already queued is overwritten without setting \<open>notify_pending\<close>: when the
  passive item of slot 1 becomes an active one, and nothing else is pending, the next round of
  deliveries leaves it where it is, whatever the callback of the session would have done.
\<close>
theorem notify_upgrade_not_delivered:
  assumes "slots_inv s" "is_selector sel" "\<not> notify_pending s" "view s 1 (path sel) = Some (PASSIVE_NOTIFY, t, v)"
    "dv_notify w = push_bit 2 ACTIVE_NOTIFY"
  shows "\<exists>s'. notify_sel (-1) sel w NOTIFY_CHANGE s = Some s' \<and>
    view s' 1 (path sel) = Some (ACTIVE_NOTIFY, NOTIFY_CHANGE, w) \<and>
    exec_pending_notifications root scb (m, s') = Some (m, s')"
proof -
  let ?sl = "slots s ! 1"
  have len: "1 < length (slots s)" using assms(1) by (simp add: slots_inv_def SLOTS_def)
  then have "?sl \<in> set (slots s)" by simp
  then have q: "notify_order.queue_inv (sl_queue ?sl)" using assms(1) by (simp add: slots_inv_def)
  let ?si = "\<lparr>ni_level = 2, ni_sb = sel, ni_type = NOTIFY_CHANGE, ni_value = w\<rparr>"
  obtain it where it: "it \<in> set (sl_queue ?sl)" "path (ni_sb it) = path sel"
    using assms(4) nth_mem by (fastforce simp: view_def queue_view_def find_Some_iff)
  then have "notify_order.eqv ?si it" using q assms(2) notify_eqv [of ?si it]
    by (simp add: notify_order.queue_inv_def)
  with it notify_order.rb_find_spec [OF q, of ?si] assms(2)
  obtain y where y: "rb_find notify_compare ?si (sl_queue ?sl) = Some (Some y)" by auto
  obtain q' where q': "rb_update notify_compare ?si (\<lambda>it. it\<lparr>ni_level := 2, ni_type := NOTIFY_CHANGE, ni_value := w\<rparr>)
      (sl_queue ?sl) = Some q'" "queue_view q' = (queue_view (sl_queue ?sl))(path sel \<mapsto> (2, NOTIFY_CHANGE, w))"
    by (rule enqueue_cases [OF q assms(2), of 2 NOTIFY_CHANGE w]) (use y in auto)
  let ?s = "s\<lparr>slots := (slots s)[1 := ?sl\<lparr>sl_queue := q'\<rparr>]\<rparr>"
  have "dm_selcpy no_selector sel = Some sel" "dv_notify w = 8"
    using assms(2,5) by (simp_all add: dm_selcpy_def no_selector_def is_selector_def ACTIVE_NOTIFY_def)
  then have "notify_sel (-1) sel w NOTIFY_CHANGE s = Some ?s"
    using y q' len by (simp add: notify_sel_def notify_slot_def SLOTS_def upt_rec Let_def)
  moreover have "view ?s 1 (path sel) = Some (ACTIVE_NOTIFY, NOTIFY_CHANGE, w)"
    using q' len by (simp add: view_def ACTIVE_NOTIFY_def)
  moreover have "exec_pending_notifications root scb (m, ?s) = Some (m, ?s)"
    using assms(3) by (simp add: exec_pending_notifications_def)
  ultimately show ?thesis by blast
qed

theorem notify_upgrade_not_delivered_witness:
  "\<exists>s s'. \<not> notify_pending s \<and> view s 1 [3] = Some (PASSIVE_NOTIFY, NOTIFY_ADD, zero_value) \<and>
    notify_sel (-1) (3 # replicate 15 0) (zero_value\<lparr>dv_notify := push_bit 2 ACTIVE_NOTIFY\<rparr>) NOTIFY_CHANGE s = Some s' \<and>
    exec_pending_notifications (\<lambda>_. 0) (\<lambda>_ q _ m. Some ([], Suc m)) (0, s') = Some (0, s')"
proof -
  let ?it = "\<lparr>ni_level = PASSIVE_NOTIFY, ni_sb = 3 # replicate 15 0, ni_type = NOTIFY_ADD, ni_value = zero_value\<rparr>"
  let ?s = "initial_state\<lparr>slots := slots_init[1 := \<lparr>sl_cb = Some CB_session, sl_data = 7, sl_queue = [?it]\<rparr>]\<rparr>"
  have p: "path (3 # replicate 15 0) = [3]" and sel: "is_selector (3 # replicate 15 0)"
    by (simp_all add: path_def is_selector_def DM_SELECTOR_LEN_def)
  have v: "view ?s 1 [3] = Some (PASSIVE_NOTIFY, NOTIFY_ADD, zero_value)"
    by (simp add: view_def queue_view_Cons slots_init_def p change_of_def)
  have np: "\<not> notify_pending ?s" by (simp add: initial_state_def)
  have "set (slots ?s) \<subseteq> insert \<lparr>sl_cb = Some CB_session, sl_data = 7, sl_queue = [?it]\<rparr> (set slots_init)"
    using set_update_subset_insert [of slots_init 1] by simp
  then have "slots_inv ?s" using sel
    by (auto simp: slots_inv_def SLOTS_def slots_init_def notify_order.queue_inv_Cons)
  then obtain s' where "notify_sel (-1) (3 # replicate 15 0) (zero_value\<lparr>dv_notify := push_bit 2 ACTIVE_NOTIFY\<rparr>) NOTIFY_CHANGE ?s = Some s'"
    "exec_pending_notifications (\<lambda>_. 0) (\<lambda>_ q _ m. Some ([], Suc m)) (0, s') = Some (0, s')"
    using notify_upgrade_not_delivered [OF _ sel np, of NOTIFY_ADD zero_value
      "zero_value\<lparr>dv_notify := push_bit 2 ACTIVE_NOTIFY\<rparr>" "\<lambda>_. 0" "\<lambda>_ q _ m. Some ([], Suc m)" 0] v p by auto
  with v np show ?thesis by blast
qed

end
