(* ===== verification/Dm_Index.thy ===== *)
theory Dm_Index
  imports Dm_Notify
begin

text \<open>
  Instance trees of \<^verbatim>\<open>mand/dm_index.c\<close>: the rows of an object, with one red-black tree for
  each index of its definition. The algorithms on one index are those of theory
  \<open>Dm_Rbtree\<close>, applied to the slice of the store that index \<open>idx\<close> of a tree owns
  (\<open>rb_of\<close>, \<open>rb_put\<close>). Where the C functions take a \<^verbatim>\<open>struct dm_instance *\<close>
  only to read its member \<^verbatim>\<open>instance\<close>, the model takes that member, the pointer to the tree.

  The structure magics are detectors of memory corruption; the one that tells whether the
  \<open>NODE\<close>s of a row are in use is kept, because the code asserts it on correct memory.
\<close>

section \<open>Slices\<close>

definition rb_of :: "dmst \<Rightarrow> addr \<Rightarrow> nat \<Rightarrow> rbmem option" where
  "rb_of s ta idx = do {
     t \<leftarrow> trees s ta;
     r \<leftarrow> nth_opt (it_root t) idx;
     Some \<lparr>rbh = idxmem s idx, rbroot = r\<rparr> }"

definition rb_put :: "dmst \<Rightarrow> addr \<Rightarrow> nat \<Rightarrow> rbmem \<Rightarrow> dmst option" where
  "rb_put s ta idx m = do {
     t \<leftarrow> trees s ta;
     rs \<leftarrow> upd_opt (it_root t) idx (rbroot m);
     Some (s\<lparr>idxmem := (idxmem s)(idx := rbh m), trees := (trees s)(ta \<mapsto> t\<lparr>it_root := rs\<rparr>)\<rparr>) }"

text \<open>Loops over rows: \<^verbatim>\<open>for (p = first; p; p = next (p))\<close>, and with an early return.\<close>

partial_function (option) for_rows ::
  "(dmst \<Rightarrow> addr \<Rightarrow> ptr option) \<Rightarrow> (addr \<Rightarrow> 'b \<times> dmst \<Rightarrow> ('b \<times> dmst) option) \<Rightarrow> ptr \<Rightarrow> 'b \<times> dmst \<Rightarrow> ('b \<times> dmst) option" where
  "for_rows next_row body p bs =
     (case p of
        None \<Rightarrow> Some bs
      | Some a \<Rightarrow> do {
          bs \<leftarrow> body a bs;
          q \<leftarrow> next_row (snd bs) a;
          for_rows next_row body q bs })"

declare for_rows.simps [code]

partial_function (option) find_row ::
  "(addr \<Rightarrow> ptr option) \<Rightarrow> (addr \<Rightarrow> bool option) \<Rightarrow> ptr \<Rightarrow> ptr option" where
  "find_row next_row test p =
     (case p of
        None \<Rightarrow> Some None
      | Some a \<Rightarrow> do {
          b \<leftarrow> test a;
          if b then Some (Some a) else do { q \<leftarrow> next_row a; find_row next_row test q } })"

declare find_row.simps [code]

section \<open>Trees\<close>

text \<open>Sets \<^verbatim>\<open>inst->instance\<close> in the value at \<open>inst\<close>; returns the tree.\<close>

definition dm_alloc_instance :: "dm_element \<Rightarrow> vref \<Rightarrow> dmst \<Rightarrow> (ptr \<times> dmst) option" where
  "dm_alloc_instance kw inst s = do {
     kt \<leftarrow> u_table kw;
     kt \<leftarrow> kt;
     mx \<leftarrow> u_max kw;
     let def = tab_index kt;
     let msize = (if el_flags kw AND F_MAP_ID = F_MAP_ID \<and> mx > 0 then map_size (unat mx) else 0);
     case malloc s of
       (None, s) \<Rightarrow> Some (None, s)
     | (Some a, s) \<Rightarrow> do {
         let t = \<lparr>it_def = def, it_cntr_base = None, it_cntr_id = 0, it_id_map = replicate msize 0,
                  it_cnt = 0, it_root = replicate (length def) None\<rparr>;
         let s = s\<lparr>trees := (trees s)(a \<mapsto> t)\<rparr>;
         v \<leftarrow> getv s inst;
         s \<leftarrow> putv s inst (set_instance v (Some a));
         Some (Some a, s) } }"

definition dm_free_instance :: "ptr \<Rightarrow> dmst \<Rightarrow> dmst option" where
  "dm_free_instance inst s = do {
     a \<leftarrow> inst;
     _ \<leftarrow> trees s a;
     Some (s\<lparr>trees := (trees s)(a := None)\<rparr>) }"

definition dm_instance_set_counter :: "ptr \<Rightarrow> ptr \<Rightarrow> dm_id \<Rightarrow> dmst \<Rightarrow> dmst option" where
  "dm_instance_set_counter inst cntr_base cntr_id s =
     tree_upd (\<lambda>t. t\<lparr>it_cntr_base := cntr_base, it_cntr_id := cntr_id\<rparr>) s inst"

section \<open>Comparing rows\<close>

text \<open>\<^verbatim>\<open>DM_TABLE (row->table)->values[element - 1]\<close>.\<close>

definition row_value :: "dmst \<Rightarrow> addr \<Rightarrow> dm_id \<Rightarrow> DM_VALUE option" where
  "row_value s a element = do {
     n \<leftarrow> nodes s a;
     p \<leftarrow> DM_TABLE (in_table n);
     r \<leftarrow> val_ref p element;
     getv s r }"

definition cmp_entry :: "dmst \<Rightarrow> index_definition \<Rightarrow> nat \<Rightarrow> addr \<Rightarrow> addr \<Rightarrow> int option" where
  "cmp_entry s def idx a b = do {
     d \<leftarrow> nth_opt def idx;
     if ix_type d = T_INSTANCE
     then do {
       x \<leftarrow> nodes s a;
       y \<leftarrow> nodes s b;
       Some (INTCMP (uint (in_instance x)) (uint (in_instance y))) }
     else do {
       va \<leftarrow> row_value s a (ix_element d);
       vb \<leftarrow> row_value s b (ix_element d);
       dm_compare_values s (ix_type d) va vb } }"

definition cmp_value :: "dmst \<Rightarrow> index_definition \<Rightarrow> nat \<Rightarrow> DM_VALUE \<Rightarrow> addr \<Rightarrow> int option" where
  "cmp_value s def idx val b = do {
     d \<leftarrow> nth_opt def idx;
     if ix_type d = T_INSTANCE
     then do {
       x \<leftarrow> DM_INT val;
       y \<leftarrow> nodes s b;
       Some (INTCMP (sint x) (uint (in_instance y))) }
     else do {
       vb \<leftarrow> row_value s b (ix_element d);
       dm_compare_values s (ix_type d) val vb } }"

text \<open>The magic in front of a row is checked when the row belongs to a tree.\<close>

definition assert_index_magic :: "dmst \<Rightarrow> addr \<Rightarrow> bool \<Rightarrow> unit option" where
  "assert_index_magic s row magic = do {
     n \<leftarrow> nodes s row;
     oassert (in_root n = None \<or> in_indexed n = magic) }"

definition idx_INSERT :: "addr \<Rightarrow> nat \<Rightarrow> addr \<Rightarrow> dmst \<Rightarrow> (ptr \<times> dmst) option" where
  "idx_INSERT ta idx row s = do {
     t \<leftarrow> trees s ta;
     m \<leftarrow> rb_of s ta idx;
     (m, dup) \<leftarrow> INSERT (\<lambda>tmp. do { assert_index_magic s tmp True; cmp_entry s (it_def t) idx row tmp })
                   m (Some row);
     s \<leftarrow> rb_put s ta idx m;
     Some (dup, s) }"

definition idx_REMOVE :: "addr \<Rightarrow> nat \<Rightarrow> addr \<Rightarrow> dmst \<Rightarrow> dmst option" where
  "idx_REMOVE ta idx row s = do {
     assert_index_magic s row True;
     m \<leftarrow> rb_of s ta idx;
     m \<leftarrow> REMOVE m (Some row);
     rb_put s ta idx m }"

definition idx_FIND :: "addr \<Rightarrow> nat \<Rightarrow> DM_VALUE \<Rightarrow> dmst \<Rightarrow> ptr option" where
  "idx_FIND ta idx val s = do {
     t \<leftarrow> trees s ta;
     m \<leftarrow> rb_of s ta idx;
     FIND (\<lambda>tmp. do { assert_index_magic s tmp True; cmp_value s (it_def t) idx val tmp }) m }"

section \<open>Traversal\<close>

fun id2idx_from :: "nat \<Rightarrow> index_definition \<Rightarrow> dm_id \<Rightarrow> int" where
  "id2idx_from i [] x = -1"
| "id2idx_from i (d # ds) x = (if ix_element d = x then int i else id2idx_from (i + 1) ds x)"

definition id2idx :: "index_definition \<Rightarrow> dm_id \<Rightarrow> int" where
  "id2idx def x = id2idx_from 0 def x"

definition dm_instance_root :: "dmst \<Rightarrow> ptr \<Rightarrow> ptr option" where
  "dm_instance_root s inst = (case inst of None \<Rightarrow> Some None
     | Some ta \<Rightarrow> do { m \<leftarrow> rb_of s ta 0; Some (rbroot m) })"

definition dm_instance_first :: "dmst \<Rightarrow> ptr \<Rightarrow> ptr option" where
  "dm_instance_first s inst = (case inst of None \<Rightarrow> Some None
     | Some ta \<Rightarrow> do { m \<leftarrow> rb_of s ta 0; MINMAX m RB_NEGINF })"

definition dm_instance_last :: "dmst \<Rightarrow> ptr \<Rightarrow> ptr option" where
  "dm_instance_last s inst = (case inst of None \<Rightarrow> Some None
     | Some ta \<Rightarrow> do { m \<leftarrow> rb_of s ta 0; MINMAX m RB_INF })"

definition dm_instance_next :: "dmst \<Rightarrow> ptr \<Rightarrow> addr \<Rightarrow> ptr option" where
  "dm_instance_next s inst nd = do { ta \<leftarrow> inst; m \<leftarrow> rb_of s ta 0; IDX_NEXT m (Some nd) }"

definition dm_instance_prev :: "dmst \<Rightarrow> ptr \<Rightarrow> addr \<Rightarrow> ptr option" where
  "dm_instance_prev s inst nd = do { ta \<leftarrow> inst; m \<leftarrow> rb_of s ta 0; IDX_PREV m (Some nd) }"

definition dm_instance_first_idx :: "dmst \<Rightarrow> ptr \<Rightarrow> dm_id \<Rightarrow> ptr option" where
  "dm_instance_first_idx s inst x = (case inst of None \<Rightarrow> Some None
     | Some ta \<Rightarrow> do {
         t \<leftarrow> trees s ta;
         let idx = id2idx (it_def t) x;
         if idx < 0 then Some None else do { m \<leftarrow> rb_of s ta (nat idx); MINMAX m RB_NEGINF } })"

definition dm_instance_last_idx :: "dmst \<Rightarrow> ptr \<Rightarrow> dm_id \<Rightarrow> ptr option" where
  "dm_instance_last_idx s inst x = (case inst of None \<Rightarrow> Some None
     | Some ta \<Rightarrow> do {
         t \<leftarrow> trees s ta;
         let idx = id2idx (it_def t) x;
         if idx < 0 then Some None else do { m \<leftarrow> rb_of s ta (nat idx); MINMAX m RB_INF } })"

definition dm_instance_next_idx :: "dmst \<Rightarrow> ptr \<Rightarrow> dm_id \<Rightarrow> addr \<Rightarrow> ptr option" where
  "dm_instance_next_idx s inst x nd = do {
     ta \<leftarrow> inst;
     t \<leftarrow> trees s ta;
     let idx = id2idx (it_def t) x;
     oassert (idx \<ge> 0);
     m \<leftarrow> rb_of s ta (nat idx);
     IDX_NEXT m (Some nd) }"

definition dm_instance_prev_idx :: "dmst \<Rightarrow> ptr \<Rightarrow> dm_id \<Rightarrow> addr \<Rightarrow> ptr option" where
  "dm_instance_prev_idx s inst x nd = do {
     ta \<leftarrow> inst;
     t \<leftarrow> trees s ta;
     let idx = id2idx (it_def t) x;
     oassert (idx \<ge> 0);
     m \<leftarrow> rb_of s ta (nat idx);
     IDX_PREV m (Some nd) }"

definition dm_idm2id :: "dmst \<Rightarrow> ptr \<Rightarrow> int \<Rightarrow> dm_id option" where
  "dm_idm2id s inst idm =
     (if idm \<noteq> 0
      then do {
        p \<leftarrow> dm_instance_first s inst;
        r \<leftarrow> find_row (dm_instance_next s inst) (\<lambda>a. do { n \<leftarrow> nodes s a; Some (in_idm n = idm) }) p;
        case r of None \<Rightarrow> Some DM_ERR | Some a \<Rightarrow> do { n \<leftarrow> nodes s a; Some (in_instance n) } }
      else Some DM_ERR)"

definition dm_instance_node_count :: "dmst \<Rightarrow> ptr \<Rightarrow> u32 option" where
  "dm_instance_node_count s inst = do { t \<leftarrow> tree s inst; Some (it_cnt t) }"

section \<open>Counters\<close>

definition dm_incr_counter_by_id :: "ptr \<Rightarrow> dm_id \<Rightarrow> dmst \<Rightarrow> dmst option" where
  "dm_incr_counter_by_id ift i s = do {
     r \<leftarrow> val_ref ift i;
     v \<leftarrow> getv s r;
     n \<leftarrow> DM_UINT v;
     let v = set_DM_UINT v (n + 1);
     s \<leftarrow> putv s r v;
     t \<leftarrow> tab s ift;
     notify (-1) (vt_id t) i v NOTIFY_CHANGE s }"

definition dm_decr_counter_by_id :: "ptr \<Rightarrow> dm_id \<Rightarrow> dmst \<Rightarrow> dmst option" where
  "dm_decr_counter_by_id ift i s = do {
     r \<leftarrow> val_ref ift i;
     v \<leftarrow> getv s r;
     n \<leftarrow> DM_UINT v;
     let v = set_DM_UINT v (n - 1);
     s \<leftarrow> putv s r v;
     t \<leftarrow> tab s ift;
     notify (-1) (vt_id t) i v NOTIFY_CHANGE s }"

section \<open>Rows come and go\<close>

definition clear_nodes :: "nat \<Rightarrow> addr \<Rightarrow> dmst \<Rightarrow> dmst" where
  "clear_nodes n_idx row s =
     s\<lparr>idxmem := (\<lambda>i. if i < n_idx then (idxmem s i)(row \<mapsto> zero_node) else idxmem s i)\<rparr>"

definition init_indexes :: "addr \<Rightarrow> nat \<Rightarrow> dmst \<Rightarrow> dmst option" where
  "init_indexes row n_idx s = do {
     n \<leftarrow> nodes s row;
     oassert (\<not> in_indexed n);
     Some (clear_nodes n_idx row (s\<lparr>nodes := (nodes s)(row \<mapsto> n\<lparr>in_indexed := True\<rparr>)\<rparr>)) }"

definition clear_indexes :: "addr \<Rightarrow> nat \<Rightarrow> dmst \<Rightarrow> dmst option" where
  "clear_indexes row n_idx s = do {
     n \<leftarrow> nodes s row;
     oassert (in_indexed n);
     Some (clear_nodes n_idx row (s\<lparr>nodes := (nodes s)(row \<mapsto> n\<lparr>in_indexed := False\<rparr>)\<rparr>)) }"

definition insert_into_index :: "addr \<Rightarrow> addr \<Rightarrow> nat \<Rightarrow> dmst \<Rightarrow> dmst option" where
  "insert_into_index ta row i s = do {
     (dup, s) \<leftarrow> idx_INSERT ta i row s;
     t \<leftarrow> trees s ta;
     d \<leftarrow> nth_opt (it_def t) i;
     if dup \<noteq> None \<and> has (ix_flags d) IDX_UNIQUE then idx_REMOVE ta i row s else Some s }"

definition assign_idm :: "addr \<Rightarrow> addr \<Rightarrow> dmst \<Rightarrow> dmst option" where
  "assign_idm ta row s = do {
     t \<leftarrow> trees s ta;
     let idm = map_ffz (it_id_map t);
     if it_id_map t \<noteq> [] \<and> idm \<ge> 0
     then do {
       m \<leftarrow> map_set_bit (it_id_map t) (nat idm);
       node_upd (\<lambda>n. n\<lparr>in_idm := idm + 1\<rparr>) (s\<lparr>trees := (trees s)(ta \<mapsto> t\<lparr>it_id_map := m\<rparr>)\<rparr>) (Some row) }
     else Some s }"

definition insert_instance :: "ptr \<Rightarrow> addr \<Rightarrow> dmst \<Rightarrow> dmst option" where
  "insert_instance inst row s = do {
     ta \<leftarrow> inst;
     s \<leftarrow> tree_upd (\<lambda>t. t\<lparr>it_cnt := it_cnt t + 1\<rparr>) s inst;
     t \<leftarrow> trees s ta;
     s \<leftarrow> init_indexes row (length (it_def t)) s;
     s \<leftarrow> node_upd (\<lambda>n. n\<lparr>in_root := Some ta\<rparr>) s (Some row);
     s \<leftarrow> ofold (insert_into_index ta row) [0..<length (it_def t)] s;
     s \<leftarrow> assign_idm ta row s;
     if it_cntr_base t \<noteq> None then dm_incr_counter_by_id (it_cntr_base t) (it_cntr_id t) s else Some s }"

text \<open>\<open>bits_size\<close> is an unsigned number, the quotient is taken of the positive \<open>idm\<close>.\<close>

definition release_idm :: "addr \<Rightarrow> addr \<Rightarrow> dmst \<Rightarrow> dmst option" where
  "release_idm ta row s = do {
     t \<leftarrow> trees s ta;
     n \<leftarrow> nodes s row;
     if it_id_map t \<noteq> [] \<and> in_idm n > 0
     then do {
       oassert (nat (in_idm n) div bits_size < length (it_id_map t));
       m \<leftarrow> map_clear_bit (it_id_map t) (nat (in_idm n - 1));
       Some (s\<lparr>trees := (trees s)(ta \<mapsto> t\<lparr>it_id_map := m\<rparr>)\<rparr>) }
     else Some s }"

definition remove_instance :: "ptr \<Rightarrow> addr \<Rightarrow> dmst \<Rightarrow> dmst option" where
  "remove_instance inst row s = do {
     ta \<leftarrow> inst;
     t \<leftarrow> trees s ta;
     assert_index_magic s row True;
     s \<leftarrow> tree_upd (\<lambda>t. t\<lparr>it_cnt := it_cnt t - 1\<rparr>) s inst;
     s \<leftarrow> ofold (\<lambda>i. idx_REMOVE ta i row) [0..<length (it_def t)] s;
     s \<leftarrow> clear_indexes row (length (it_def t)) s;
     s \<leftarrow> node_upd (\<lambda>n. n\<lparr>in_root := None\<rparr>) s (Some row);
     s \<leftarrow> release_idm ta row s;
     if it_cntr_base t \<noteq> None then dm_decr_counter_by_id (it_cntr_base t) (it_cntr_id t) s else Some s }"

definition update_idx :: "addr \<Rightarrow> addr \<Rightarrow> nat \<Rightarrow> dmst \<Rightarrow> dmst option" where
  "update_idx ta row idx s = do { s \<leftarrow> idx_REMOVE ta idx row s; insert_into_index ta row idx s }"

definition update_index :: "dm_id \<Rightarrow> addr \<Rightarrow> dmst \<Rightarrow> dmst option" where
  "update_index x row s = do {
     n \<leftarrow> nodes s row;
     case in_root n of
       None \<Rightarrow> Some s
     | Some ta \<Rightarrow> do {
         t \<leftarrow> trees s ta;
         let idx = id2idx (it_def t) x;
         if idx < 0 then Some s
         else do {
           assert_index_magic s row True;
           s \<leftarrow> update_idx ta row (nat idx) s;
           assert_index_magic s row True;
           Some s } } }"

definition update_instance_node_index :: "addr \<Rightarrow> dmst \<Rightarrow> dmst option" where
  "update_instance_node_index row s = do {
     n \<leftarrow> nodes s row;
     case in_root n of
       None \<Rightarrow> Some s
     | Some ta \<Rightarrow> do {
         t \<leftarrow> trees s ta;
         assert_index_magic s row True;
         s \<leftarrow> ofold (update_idx ta row) [0..<length (it_def t)] s;
         assert_index_magic s row True;
         Some s } }"

definition find_instance :: "dmst \<Rightarrow> ptr \<Rightarrow> dm_id \<Rightarrow> dm_type \<Rightarrow> DM_VALUE \<Rightarrow> ptr option" where
  "find_instance s inst x type val = (case inst of None \<Rightarrow> Some None
     | Some ta \<Rightarrow> do {
         t \<leftarrow> trees s ta;
         let idx = id2idx (it_def t) x;
         if idx < 0
         then do {
           m \<leftarrow> rb_of s ta 0;
           p \<leftarrow> MINMAX m RB_NEGINF;
           find_row (\<lambda>a. TREE_NEXT m (Some a))
             (\<lambda>a. do {
                assert_index_magic s a True;
                v \<leftarrow> row_value s a x;
                c \<leftarrow> dm_compare_values s type val v;
                Some (c = 0) }) p }
         else idx_FIND ta (nat idx) val s })"

end
