(* ===== verification/Dm_Action.thy ===== *)
theory Dm_Action
  imports Dm_Notify
begin

text \<open>
  The chain of pending actions of \<^verbatim>\<open>mand/dm_action.c\<close>: every change of a value with an
  action is entered once, under the action, the selector cut to the length the action asks for,
  and the kind of change. The chain is run in three phases when a configuration session ends.

  The actions themselves are functions of the environment. \<open>bcast\<close> is
  \<^verbatim>\<open>dm_event_broadcast\<close> of \<^verbatim>\<open>dm_dmconfig.c\<close>, which only sends messages.
\<close>

section \<open>Model\<close>

definition DM_NONE :: u16 where "DM_NONE = 0"

fun type_ord :: "dm_action_type \<Rightarrow> nat" where
  "type_ord DM_ADD = 0"
| "type_ord DM_CHANGE = 1"
| "type_ord DM_DEL = 2"

definition cmp_action :: "exec_node \<Rightarrow> exec_node \<Rightarrow> int option" where
  "cmp_action a b =
     (if ex_action a < ex_action b then Some (-1)
      else if ex_action a > ex_action b then Some 1
      else do {
        r \<leftarrow> dm_selcmp (Some (ex_sel a)) (Some (ex_sel b)) DM_SELECTOR_LEN;
        if r = 0
        then if type_ord (ex_type a) < type_ord (ex_type b) then Some (-1)
             else if type_ord (ex_type a) > type_ord (ex_type b) then Some 1
             else Some r
        else Some r })"

definition insert_action :: "dm_env \<Rightarrow> u16 \<Rightarrow> dm_selector \<Rightarrow> dm_action_type \<Rightarrow> dmst \<Rightarrow> dmst option" where
  "insert_action env action sel type s = do {
     act \<leftarrow> dm_actions env action;
     case malloc s of
       (None, s) \<Rightarrow> Some s
     | (Some _, s) \<Rightarrow> do {
         sl \<leftarrow> dm_selcpy no_selector sel;
         sl \<leftarrow> (if ac_sel_len act \<ge> 0 then upd_opt sl (nat (ac_sel_len act)) 0 else Some sl);
         chain \<leftarrow> exec_chain s;
         (_, chain) \<leftarrow> rb_insert cmp_action \<lparr>ex_action = action, ex_sel = sl, ex_type = type\<rparr> chain;
         Some (s\<lparr>exec_chain := Some chain\<rparr>) } }"

definition action_sel :: "dm_env \<Rightarrow> u16 \<Rightarrow> dm_selector \<Rightarrow> dm_action_type \<Rightarrow> dmst \<Rightarrow> dmst option" where
  "action_sel env action sel type s =
     (if action = DM_NONE then Some s
      else do {
        let s = (if exec_chain s = None
                 then (case malloc s of (None, s) \<Rightarrow> s | (Some _, s) \<Rightarrow> s\<lparr>exec_chain := Some []\<rparr>)
                 else s);
        if exec_chain s = None then Some s
        else do {
          s \<leftarrow> insert_action env action sel type s;
          act \<leftarrow> dm_actions env action;
          ofold (\<lambda>a. insert_action env a sel type) (ac_chain act) s } })"

definition action :: "dm_env \<Rightarrow> u16 \<Rightarrow> dm_selector \<Rightarrow> dm_id \<Rightarrow> dm_action_type \<Rightarrow> dmst \<Rightarrow> dmst option" where
  "action env act sel i type s =
     (if act = DM_NONE then Some s
      else do {
        sl \<leftarrow> dm_selcpy no_selector sel;
        sl \<leftarrow> dm_selcat sl i;
        action_sel env act sl type s })"

text \<open>
  \<^verbatim>\<open>RB_FOREACH\<close> over the chain. The functions it calls may enter further actions, so the
  successor is looked up in the chain as it is then.
\<close>

fun chain_next :: "exec_node \<Rightarrow> exec_node list \<Rightarrow> exec_node option option" where
  "chain_next x [] = None"
| "chain_next x (y # ys) = (if x = y then Some (case ys of [] \<Rightarrow> None | z # _ \<Rightarrow> Some z) else chain_next x ys)"

partial_function (option) foreach_action ::
  "(exec_node \<Rightarrow> 'm \<times> dmst \<Rightarrow> ('m \<times> dmst) option) \<Rightarrow> exec_node option \<Rightarrow> 'm \<times> dmst \<Rightarrow> ('m \<times> dmst) option" where
  "foreach_action body x ms =
     (case x of
        None \<Rightarrow> Some ms
      | Some n \<Rightarrow> do {
          ms \<leftarrow> body n ms;
          chain \<leftarrow> exec_chain (snd ms);
          nxt \<leftarrow> chain_next n chain;
          foreach_action body nxt ms })"

declare foreach_action.simps [code]

definition chain_min :: "exec_node list \<Rightarrow> exec_node option" where
  "chain_min chain = (case chain of [] \<Rightarrow> None | x # _ \<Rightarrow> Some x)"

definition call_fkt :: "dm_env \<Rightarrow> fkt \<Rightarrow> exec_node \<Rightarrow> 'm \<times> dmst \<Rightarrow> ('m \<times> dmst) option" where
  "call_fkt env f n = (\<lambda>(m, s). case f of
     None \<Rightarrow> Some (m, s)
   | Some k \<Rightarrow> do { s \<leftarrow> fk_action env k (ex_sel n) (ex_type n) s; Some (m, s) })"

definition exec_actions_pre :: "dm_env \<Rightarrow> 'm \<times> dmst \<Rightarrow> ('m \<times> dmst) option" where
  "exec_actions_pre env ms = (case exec_chain (snd ms) of
     None \<Rightarrow> Some ms
   | Some chain \<Rightarrow>
       foreach_action (\<lambda>n ms. do { act \<leftarrow> dm_actions env (ex_action n); call_fkt env (ac_pre act) n ms })
         (chain_min chain) ms)"

definition clear_actions :: "dmst \<Rightarrow> dmst" where
  "clear_actions s = s\<lparr>exec_chain := None\<rparr>"

type_synonym 'm bcast = "dm_selector \<Rightarrow> dm_action_type \<Rightarrow> 'm \<times> dmst \<Rightarrow> ('m \<times> dmst) option"

definition exec_actions :: "dm_env \<Rightarrow> 'm bcast \<Rightarrow> 'm \<times> dmst \<Rightarrow> ('m \<times> dmst) option" where
  "exec_actions env bcast ms = (case exec_chain (snd ms) of
     None \<Rightarrow> Some ms
   | Some chain \<Rightarrow> do {
       ms \<leftarrow> foreach_action (\<lambda>n ms. do {
               act \<leftarrow> dm_actions env (ex_action n);
               ms \<leftarrow> call_fkt env (ac_action act) n ms;
               bcast (ex_sel n) (ex_type n) ms }) (chain_min chain) ms;
       chain \<leftarrow> exec_chain (snd ms);
       ms \<leftarrow> foreach_action (\<lambda>n ms. do {
               act \<leftarrow> dm_actions env (ex_action n);
               call_fkt env (ac_post act) n ms }) (chain_min chain) ms;
       Some (fst ms, clear_actions (snd ms)) })"

section \<open>The chain is a set\<close>

lemma is_selector_no_selector: "is_selector no_selector"
  by (simp add: is_selector_def no_selector_def)

lemma cmp_action_lex: "cmp_action a b =
  (do { r \<leftarrow> Some (cmp3 (ex_action a) (ex_action b));
        if r = 0 then do {
          r \<leftarrow> dm_selcmp (Some (ex_sel a)) (Some (ex_sel b)) DM_SELECTOR_LEN;
          if r = 0 then Some (cmp3 (type_ord (ex_type a)) (type_ord (ex_type b))) else Some r }
        else Some r })"
  by (auto simp: cmp_action_def cmp3_def intro!: bind_option_cong)

lemma three_way_action: "three_way (\<lambda>n. is_selector (ex_sel n)) cmp_action"
proof -
  have "three_way (\<lambda>n. is_selector (ex_sel n)) (\<lambda>a b. dm_selcmp (Some (ex_sel a)) (Some (ex_sel b)) DM_SELECTOR_LEN)"
    using ordered_queue_key [OF sel_order.three_way_axioms, of ex_sel] by (simp add: ordered_queue_def)
  then show ?thesis
    unfolding cmp_action_lex [abs_def] by (intro three_way_lex three_way_cmp3)
qed

interpretation action_order: ordered_queue "\<lambda>n. is_selector (ex_sel n)" cmp_action
  unfolding ordered_queue_def by (rule three_way_action)

definition entry_of :: "exec_node \<Rightarrow> u16 \<times> dm_id list \<times> dm_action_type" where
  "entry_of n = (ex_action n, path (ex_sel n), ex_type n)"

definition pending :: "dmst \<Rightarrow> (u16 \<times> dm_id list \<times> dm_action_type) set" where
  "pending s = (case exec_chain s of None \<Rightarrow> {} | Some chain \<Rightarrow> entry_of ` set chain)"

definition chain_inv :: "dmst \<Rightarrow> bool" where
  "chain_inv s \<longleftrightarrow> (\<forall>chain. exec_chain s = Some chain \<longrightarrow> action_order.queue_inv chain)"

lemma type_ord_inj: "type_ord a = type_ord b \<longleftrightarrow> a = b"
  by (cases a; cases b) simp_all

lemma action_eqv: "is_selector (ex_sel a) \<Longrightarrow> is_selector (ex_sel b) \<Longrightarrow>
    action_order.eqv a b \<longleftrightarrow> entry_of a = entry_of b"
  by (auto simp: action_order.eqv_def cmp_action_lex dm_selcmp_path entry_of_def cmp3_def type_ord_inj
      split: if_splits)

definition cut_path :: "int \<Rightarrow> dm_id list \<Rightarrow> dm_id list" where
  "cut_path n p = (if n \<ge> 0 then take (nat n) p else p)"

lemma takeWhile_take_eq: "takeWhile P (take n xs) = take n (takeWhile P xs)"
proof (induction xs arbitrary: n)
  case (Cons x xs)
  then show ?case by (cases n) auto
qed simp

lemma path_cut:
  assumes "is_selector sel" "n < 16"
  obtains sl where "(if n \<ge> 0 then upd_opt sel (nat n) 0 else Some sel) = Some sl"
    "is_selector sl" "path sl = cut_path n (path sel)"
proof (cases "n \<ge> 0")
  case True
  have len: "length sel = 16" using assms by (simp add: is_selector_def DM_SELECTOR_LEN_def)
  have "takeWhile nz (sel[nat n := 0]) = take (nat n) (takeWhile nz sel)"
  proof -
    have "sel[nat n := 0] = take (nat n) sel @ 0 # drop (Suc (nat n)) sel"
      using len assms(2) True by (simp add: upd_conv_take_nth_drop)
    then show ?thesis
      by (simp add: takeWhile_tail takeWhile_take_eq)
  qed
  then have "path (sel[nat n := 0]) = cut_path n (path sel)"
    using assms(1) True by (simp add: path_selector cut_path_def is_selector_def)
  with True len assms show thesis by (intro that [of "sel[nat n := 0]"]) (simp_all add: is_selector_def)
qed (use assms in \<open>simp add: cut_path_def\<close>)

lemma insert_action_pending:
  assumes "dm_actions env a = Some act" "ac_sel_len act < 16" "is_selector sel" "\<forall>n. \<not> st_oom s n"
    "chain_inv s" "exec_chain s \<noteq> None"
  obtains s' where "insert_action env a sel type s = Some s'" "chain_inv s'" "exec_chain s' \<noteq> None"
    "st_oom s' = st_oom s" "pending s' = insert (a, cut_path (ac_sel_len act) (path sel), type) (pending s)"
proof -
  obtain sl where sl: "(if ac_sel_len act \<ge> 0 then upd_opt sel (nat (ac_sel_len act)) 0 else Some sel) = Some sl"
    "is_selector sl" "path sl = cut_path (ac_sel_len act) (path sel)"
    by (rule path_cut [OF assms(3,2)])
  obtain chain where chain: "exec_chain s = Some chain" "action_order.queue_inv chain"
    using assms(5,6) by (auto simp: chain_inv_def)
  let ?x = "\<lparr>ex_action = a, ex_sel = sl, ex_type = type\<rparr>"
  have D: "is_selector (ex_sel ?x)" using sl by simp
  have ent: "entry_of ?x = (a, cut_path (ac_sel_len act) (path sel), type)" using sl by (simp add: entry_of_def)
  have cp: "dm_selcpy no_selector sel = Some sel"
    using assms(3) by (simp add: dm_selcpy_def no_selector_def is_selector_def)
  obtain r chain' where ins: "rb_insert cmp_action ?x chain = Some (r, chain')" "action_order.queue_inv chain'"
    "entry_of ` set chain' = insert (entry_of ?x) (entry_of ` set chain)"
    using action_order.rb_insert_spec [OF chain(2) D]
  proof (elim disjE bexE conjE exE)
    fix y assume y: "y \<in> set chain" "action_order.eqv ?x y" "rb_insert cmp_action ?x chain = Some (Some y, chain)"
    then have "entry_of ?x = entry_of y"
      using action_eqv [OF D, of y] chain(2) by (simp add: action_order.queue_inv_def)
    then show thesis using y chain(2) that by auto
  next
    fix us vs assume "chain = us @ vs" "rb_insert cmp_action ?x chain = Some (None, us @ ?x # vs)"
      "action_order.queue_inv (us @ ?x # vs)"
    then show thesis using that by auto
  qed
  have m: "malloc s = (Some (st_brk s), s\<lparr>st_brk := st_brk s + 1\<rparr>)" using assms(4) by (simp add: malloc_def)
  let ?s = "s\<lparr>st_brk := st_brk s + 1, exec_chain := Some chain'\<rparr>"
  have "insert_action env a sel type s = Some ?s"
    using assms(1) m cp sl chain ins(1) by (simp add: insert_action_def)
  then show thesis
    by (rule that) (use ins ent chain in \<open>simp_all add: chain_inv_def pending_def\<close>)
qed

lemma insert_actions_pending:
  assumes "\<forall>a \<in> set as. \<exists>act. dm_actions env a = Some act \<and> ac_sel_len act < 16" "is_selector sel"
    "\<forall>n. \<not> st_oom s n" "chain_inv s" "exec_chain s \<noteq> None"
  shows "\<exists>s'. ofold (\<lambda>a. insert_action env a sel type) as s = Some s' \<and> chain_inv s' \<and>
    pending s' = pending s \<union> {(a, cut_path (ac_sel_len act) (path sel), type) | a act. a \<in> set as \<and> dm_actions env a = Some act}"
  using assms
proof (induction as arbitrary: s)
  case (Cons a as)
  from Cons.prems(1) obtain act where act: "dm_actions env a = Some act" "ac_sel_len act < 16" by auto
  obtain s1 where s1: "insert_action env a sel type s = Some s1" "chain_inv s1" "exec_chain s1 \<noteq> None"
    "st_oom s1 = st_oom s" "pending s1 = insert (a, cut_path (ac_sel_len act) (path sel), type) (pending s)"
    by (rule insert_action_pending [OF act Cons.prems(2-5)])
  from Cons.IH [of s1] Cons.prems s1 obtain s' where
    "ofold (\<lambda>a. insert_action env a sel type) as s1 = Some s'" "chain_inv s'"
    "pending s' = pending s1 \<union> {(a, cut_path (ac_sel_len act) (path sel), type) | a act. a \<in> set as \<and> dm_actions env a = Some act}"
    by auto
  with s1 act show ?case by auto
qed simp

text \<open>
  C24: A change of a value with an action enters the action and the actions chained to it, each
  for the selector cut to the length that action asks for, into the set of pending actions;
  what is pending already stays as it is and is not entered twice.
\<close>
theorem action_sel_pending:
  assumes "dm_actions env a = Some act"
    and "\<forall>b \<in> set (a # ac_chain act). \<exists>bct. dm_actions env b = Some bct \<and> ac_sel_len bct < 16"
    and "is_selector sel" "\<forall>n. \<not> st_oom s n" "chain_inv s" "a \<noteq> DM_NONE"
  shows "\<exists>s'. action_sel env a sel type s = Some s' \<and> chain_inv s' \<and>
    pending s' = pending s \<union> {(b, cut_path (ac_sel_len bct) (path sel), type) | b bct.
      b \<in> set (a # ac_chain act) \<and> dm_actions env b = Some bct}"
proof -
  define s0 where "s0 = (if exec_chain s = None
     then s\<lparr>st_brk := st_brk s + 1, exec_chain := Some []\<rparr> else s)"
  have s0: "\<forall>n. \<not> st_oom s0 n" "chain_inv s0" "exec_chain s0 \<noteq> None" "pending s0 = pending s"
    using assms(4,5) by (auto simp: s0_def chain_inv_def pending_def)
  have "action_sel env a sel type s = ofold (\<lambda>b. insert_action env b sel type) (a # ac_chain act) s0"
    using assms(1,4,6) by (auto simp: action_sel_def malloc_def s0_def)
  with insert_actions_pending [OF assms(2,3) s0(1-3)] s0(4) show ?thesis by simp
qed

section \<open>Running the chain\<close>

lemma chain_next_app: "distinct (xs @ x # ys) \<Longrightarrow> chain_next x (xs @ x # ys) = Some (chain_min ys)"
  by (induction xs) (auto simp: chain_min_def)

lemma foreach_action_rest:
  assumes "\<And>n ms ms'. body n ms = Some ms' \<Longrightarrow> exec_chain (snd ms') = exec_chain (snd ms)"
    and "exec_chain (snd ms) = Some (xs @ ys)" "distinct (xs @ ys)"
  shows "foreach_action body (chain_min ys) ms = ofold body ys ms"
  using assms(2,3)
proof (induction ys arbitrary: xs ms)
  case Nil
  then show ?case by (simp add: chain_min_def foreach_action.simps)
next
  case (Cons y ys)
  show ?case
  proof (cases "body y ms")
    case None
    then show ?thesis by (simp add: chain_min_def foreach_action.simps)
  next
    case (Some ms')
    with assms(1) Cons.prems have "exec_chain (snd ms') = Some ((xs @ [y]) @ ys)" by simp
    moreover have "distinct ((xs @ [y]) @ ys)" using Cons.prems by simp
    ultimately have "foreach_action body (chain_min ys) ms' = ofold body ys ms'" by (rule Cons.IH)
    moreover have "chain_next y (xs @ y # ys) = Some (chain_min ys)"
      by (rule chain_next_app) (use Cons.prems in simp)
    ultimately show ?thesis using Some Cons.prems assms(1) [OF Some]
      by (subst foreach_action.simps) (simp add: chain_min_def)
  qed
qed

lemma queue_inv_distinct: "action_order.queue_inv chain \<Longrightarrow> distinct chain"
proof (induction chain)
  case (Cons x xs)
  then have "x \<notin> set xs"
    using action_order.lt_irrefl [of x] by (auto simp: action_order.queue_inv_Cons)
  with Cons show ?case by (simp add: action_order.queue_inv_Cons)
qed simp


text \<open>An environment with two actions, the first chained to the second, for the witnesses.\<close>

definition env_example :: dm_env where
  "env_example = \<lparr>dm_root = DmTable [] [] [],
     dm_actions = (\<lambda>a. if a = 1 then Some \<lparr>ac_sel_len = 2, ac_pre = None, ac_action = Some 0, ac_post = None, ac_chain = [2]\<rparr>
        else if a = 2 then Some \<lparr>ac_sel_len = -1, ac_pre = None, ac_action = None, ac_post = Some 1, ac_chain = []\<rparr>
        else None),
     fk_get = (\<lambda>_ s _ _ _ v. Some (v, s)), fk_set = (\<lambda>_ s _ _ _ _ _. Some (DM_OK, s)),
     fk_validate = (\<lambda>_ _ _ _ _ _ c m. Some (1, c, m)),
     fk_add = (\<lambda>_ s _ _ _ _. Some s), fk_del = (\<lambda>_ s _ _ _ _. Some s),
     fk_action = (\<lambda>k _ _ s. Some (s\<lparr>dm_mem := dm_mem s + 1\<rparr>)), rb_root = (\<lambda>_. 0)\<rparr>"

theorem action_sel_pending_witness:
  "\<exists>s'. action_sel env_example 1 ([5, 6, 7] @ replicate 13 0) DM_CHANGE initial_state = Some s' \<and>
     (1, [5, 6], DM_CHANGE) \<in> pending s' \<and> (2, [5, 6, 7], DM_CHANGE) \<in> pending s'"
proof -
  let ?sel = "[5, 6, 7] @ replicate 13 0 :: dm_selector"
  let ?a1 = "\<lparr>ac_sel_len = 2, ac_pre = None, ac_action = Some 0, ac_post = None, ac_chain = [2]\<rparr> :: dm_action"
  let ?a2 = "\<lparr>ac_sel_len = -1, ac_pre = None, ac_action = None, ac_post = Some 1, ac_chain = []\<rparr> :: dm_action"
  have a: "dm_actions env_example 1 = Some ?a1" "dm_actions env_example 2 = Some ?a2" by (simp_all add: env_example_def)
  have sel: "is_selector ?sel" "path ?sel = [5, 6, 7]" by (simp_all add: is_selector_def path_def DM_SELECTOR_LEN_def)
  have "chain_inv initial_state" by (simp add: chain_inv_def initial_state_def)
  moreover have "\<forall>b \<in> set (1 # ac_chain ?a1). \<exists>bct. dm_actions env_example b = Some bct \<and> ac_sel_len bct < 16"
    using a by simp
  moreover have "\<forall>n. \<not> st_oom initial_state n" "(1 :: u16) \<noteq> DM_NONE" by (simp_all add: initial_oom DM_NONE_def)
  ultimately obtain s' where
    "action_sel env_example 1 ?sel DM_CHANGE initial_state = Some s'"
    "pending s' = pending initial_state \<union> {(b, cut_path (ac_sel_len bct) (path ?sel), DM_CHANGE) | b bct.
      b \<in> set (1 # ac_chain ?a1) \<and> dm_actions env_example b = Some bct}"
    using action_sel_pending [OF a(1) _ sel(1), of initial_state DM_CHANGE] by blast
  moreover have "cut_path 2 (path ?sel) = [5, 6]" "cut_path (-1) (path ?sel) = [5, 6, 7]"
    using sel(2) by (simp_all add: cut_path_def)
  ultimately have "action_sel env_example 1 ?sel DM_CHANGE initial_state = Some s'"
    "(1, [5, 6], DM_CHANGE) \<in> pending s'" "(2, [5, 6, 7], DM_CHANGE) \<in> pending s'"
    using a by auto
  then show ?thesis by blast
qed


end
