(* ===== verification/Dm_Table.thy ===== *)
theory Dm_Table
  imports Dm_Index Dm_Action
begin

text \<open>
  The schema and the tables of \<^verbatim>\<open>mand/dm_store.c\<close>: printing a selector as a dotted name,
  looking up elements by name and by selector, and allocating the tables and the rows that the
  schema describes. The recursion follows the schema and ends with it.
\<close>

section \<open>Names\<close>

text \<open>\<^verbatim>\<open>snprintf (n, size, "%hu", x)\<close>: the decimal digits.\<close>

fun decimal :: "nat \<Rightarrow> cstr" where
  "decimal n = (if n < 10 then [of_nat (48 + n)] else decimal (n div 10) @ [of_nat (48 + n mod 10)])"

declare decimal.simps [simp del]

text \<open>
  The loop of \<open>dm_sel2name\<close>: \<open>out\<close> is what the buffer holds, \<open>sz\<close> the room left.
  \<open>Some None\<close> is \<^verbatim>\<open>NULL\<close>.
\<close>

function sel2name_loop ::
  "dm_selector \<Rightarrow> nat \<Rightarrow> dm_type \<Rightarrow> dm_table option \<Rightarrow> cstr \<Rightarrow> int \<Rightarrow> cstr option option" where
  "sel2name_loop sel i t kw out sz =
     (if i < DM_SELECTOR_LEN
      then do {
        x \<leftarrow> nth_opt sel i;
        case kw of
          None \<Rightarrow> Some (Some out)
        | Some k \<Rightarrow>
            if x = 0 \<or> sz \<le> 1 then Some (Some out)
            else do {
              let (out, sz) = (if i \<noteq> 0 then (out @ [46], sz - 1) else (out, sz));
              if t = T_OBJECT
              then let d = decimal (unat x)
                   in sel2name_loop sel (i + 1) T_TOKEN kw (out @ take (nat (sz - 1)) d) (sz - int (length d))
              else if unat x - 1 \<ge> tab_size k then Some None
              else do {
                e \<leftarrow> nth_opt (tab_elems k) (unat x - 1);
                if int (length (el_key e)) \<ge> sz then Some None
                else if el_type e = T_TOKEN \<or> el_type e = T_OBJECT
                then do {
                  kt \<leftarrow> u_table e;
                  sel2name_loop sel (i + 1) (el_type e) kt (out @ el_key e) (sz - int (length (el_key e))) }
                else Some (Some (out @ el_key e)) } } }
      else Some (Some out))"
  by pat_completeness auto
termination by (relation "measure (\<lambda>(_, i, _). DM_SELECTOR_LEN - i)") auto

declare sel2name_loop.simps [simp del]

definition dm_sel2name :: "dm_env \<Rightarrow> dm_selector \<Rightarrow> int \<Rightarrow> cstr option option" where
  "dm_sel2name env sel sz = sel2name_loop sel 0 T_TOKEN (Some (dm_root env)) [] sz"

function element_by_selector_loop ::
  "dm_selector \<Rightarrow> nat \<Rightarrow> dm_type \<Rightarrow> dm_table option \<Rightarrow> dm_element option \<Rightarrow> (dm_type \<times> dm_element option) option" where
  "element_by_selector_loop sel i t kw elm =
     (if i < DM_SELECTOR_LEN
      then do {
        x \<leftarrow> nth_opt sel i;
        case kw of
          None \<Rightarrow> Some (t, elm)
        | Some k \<Rightarrow>
            if x = 0 then Some (t, elm)
            else if t = T_OBJECT then element_by_selector_loop sel (i + 1) T_TOKEN kw elm
            else if unat x - 1 \<ge> tab_size k then Some (T_NONE, elm)
            else do {
              e \<leftarrow> nth_opt (tab_elems k) (unat x - 1);
              if el_type e = T_TOKEN \<or> el_type e = T_OBJECT
              then do { kt \<leftarrow> u_table e; element_by_selector_loop sel (i + 1) (el_type e) kt (Some e) }
              else Some (el_type e, Some e) } }
      else Some (t, elm))"
  by pat_completeness auto
termination by (relation "measure (\<lambda>(_, i, _). DM_SELECTOR_LEN - i)") auto

declare element_by_selector_loop.simps [simp del]

definition dm_get_element_by_selector :: "dm_env \<Rightarrow> dm_selector \<Rightarrow> (dm_type \<times> dm_element option) option" where
  "dm_get_element_by_selector env sel = element_by_selector_loop sel 0 T_TOKEN (Some (dm_root env)) None"

fun element_id_from :: "nat \<Rightarrow> cstr \<Rightarrow> dm_element list \<Rightarrow> dm_id" where
  "element_id_from i name [] = DM_ERR"
| "element_id_from i name (e # es) = (if el_key e = name then of_nat (i + 1) else element_id_from (i + 1) name es)"

text \<open>\<^verbatim>\<open>name\<close> with its length \<^verbatim>\<open>l\<close>; keys of generated tables are never \<^verbatim>\<open>NULL\<close>.\<close>

definition dm_get_element_id_by_name :: "cstr \<Rightarrow> dm_table option \<Rightarrow> dm_id" where
  "dm_get_element_id_by_name name kw = (case kw of None \<Rightarrow> DM_ERR | Some k \<Rightarrow> element_id_from 0 name (tab_elems k))"

section \<open>Tables\<close>

text \<open>The counter at place \<open>i\<close> finds or makes the tree of the object it counts.\<close>

definition init_counter :: "dm_table \<Rightarrow> addr \<Rightarrow> nat \<Rightarrow> dm_element \<Rightarrow> dmst \<Rightarrow> dmst option" where
  "init_counter kwt t i e s = do {
     v \<leftarrow> getv s (VTab t i);
     s \<leftarrow> putv s (VTab t i) (v\<lparr>dv_type := T_UINT\<rparr>);
     ref \<leftarrow> u_counter_ref e;
     if ref = 0 then Some s
     else do {
       r \<leftarrow> val_ref (Some t) ref;
       v \<leftarrow> getv s r;
       p \<leftarrow> DM_INSTANCE v;
       (ok, s) \<leftarrow> (if p = None
          then do {
            e' \<leftarrow> nth_opt (tab_elems kwt) (unat ref - 1);
            (q, s) \<leftarrow> dm_alloc_instance e' r s;
            Some (q \<noteq> None, s) }
          else Some (True, s));
       if \<not> ok then Some s
       else do {
         v \<leftarrow> getv s r;
         p \<leftarrow> DM_INSTANCE v;
         dm_instance_set_counter p (Some t) (of_nat (i + 1)) s } } }"

definition zero_table :: "dm_table \<Rightarrow> value_table" where
  "zero_table kwt = \<lparr>vt_id = no_selector, vt_values = replicate (tab_size kwt) zero_value\<rparr>"

definition table_mem :: "dm_table \<Rightarrow> int" where
  "table_mem kwt = sizeof_value_table + sizeof_DM_VALUE * int (tab_size kwt)"

definition u_table_list :: "dm_element \<Rightarrow> dm_table list" where
  "u_table_list e = (case u_table e of Some (Some t) \<Rightarrow> [t] | _ \<Rightarrow> [])"

lemma size_elem_less: "e \<in> set (tab_elems kwt) \<Longrightarrow> size e < size kwt"
  by (cases kwt) (auto dest: size_list_estimation' [where f = size and y = "size e"] simp: less_Suc_eq_le
      intro: le_trans)

lemma size_u_table_less: "u_table e = Some (Some t) \<Longrightarrow> size t < size e"
  by (cases e rule: u_table.cases) auto

lemma enumerate_snd: "(i, e) \<in> set (enumerate n xs) \<Longrightarrow> e \<in> set xs"
  by (auto simp: in_set_enumerate_eq)

text \<open>
  \<open>dm_init_table\<close> fills a zeroed table at \<open>t\<close>; \<open>dm_alloc_table\<close> makes the
  table first. A token element gets its own table, an object element its tree.
\<close>

function dm_init_table :: "dm_table \<Rightarrow> addr \<Rightarrow> dm_selector \<Rightarrow> dm_id \<Rightarrow> dmst \<Rightarrow> dmst option"
  and dm_alloc_table :: "dm_table \<Rightarrow> dm_selector \<Rightarrow> dm_id \<Rightarrow> dmst \<Rightarrow> (ptr \<times> dmst) option" where
  "dm_init_table kwt t base x s = do {
     tb \<leftarrow> tables s t;
     sl \<leftarrow> dm_selcpy (vt_id tb) base;
     sl \<leftarrow> dm_selcat sl x;
     let s = s\<lparr>tables := (tables s)(t \<mapsto> tb\<lparr>vt_id := sl\<rparr>)\<rparr>;
     ofold (\<lambda>(i, e) s. do {
         v \<leftarrow> getv s (VTab t i);
         s \<leftarrow> putv s (VTab t i) (v\<lparr>dv_notify := notify_default e, dv_type := el_type e\<rparr>);
         case el_type e of
           T_COUNTER \<Rightarrow> init_counter kwt t i e s
         | T_TOKEN \<Rightarrow> (case u_table e of
               Some (Some kt) \<Rightarrow> do {
                 tb \<leftarrow> tables s t;
                 (q, s) \<leftarrow> dm_alloc_table kt (vt_id tb) (of_nat (i + 1)) s;
                 v \<leftarrow> getv s (VTab t i);
                 putv s (VTab t i) (set_DM_TABLE v q) }
             | _ \<Rightarrow> None)
         | T_OBJECT \<Rightarrow> do {
             v \<leftarrow> getv s (VTab t i);
             p \<leftarrow> DM_INSTANCE v;
             if p = None then do { (_, s) \<leftarrow> dm_alloc_instance e (VTab t i) s; Some s } else Some s }
         | T_BASE64 \<Rightarrow> do {
             v \<leftarrow> getv s (VTab t i);
             putv s (VTab t i) (v\<lparr>dv_type := T_BINARY\<rparr>) }
         | _ \<Rightarrow> Some s }) (enumerate 0 (tab_elems kwt)) s }"
| "dm_alloc_table kwt base x s = (case malloc s of
     (None, s) \<Rightarrow> Some (None, s)
   | (Some t, s) \<Rightarrow> do {
       let s = DM_MEM_ADD (table_mem kwt) s;
       s \<leftarrow> dm_init_table kwt t base x (s\<lparr>tables := (tables s)(t \<mapsto> zero_table kwt)\<rparr>);
       Some (Some t, s) })"
  by pat_completeness auto
termination
proof (relation "measure (case_sum (\<lambda>(kwt, _). 2 * size kwt) (\<lambda>(kwt, _). 2 * size kwt + 1))", goal_cases)
  case 1
  show ?case by simp
next
  case (2 kwt t base x s tb sl sl' s' p s'' i e)
  then show ?case by (auto dest!: enumerate_snd size_elem_less size_u_table_less)
next
  case 3
  then show ?case by simp
qed

declare dm_init_table.simps [simp del] dm_alloc_table.simps [simp del]

definition dm_free_table :: "dm_table \<Rightarrow> ptr \<Rightarrow> dmst \<Rightarrow> dmst option" where
  "dm_free_table kwt st s = do {
     a \<leftarrow> st;
     _ \<leftarrow> tables s a;
     Some (DM_MEM_SUB (table_mem kwt) (s\<lparr>tables := (tables s)(a := None)\<rparr>)) }"

section \<open>Rows\<close>

definition row_mem :: "dm_table \<Rightarrow> int" where
  "row_mem kw = sizeof_index_nodes + sizeof_NODE * int (length (tab_index kw)) + sizeof_ENTRY + table_mem kw"

definition dm_alloc_instance_node :: "dm_table \<Rightarrow> dm_selector \<Rightarrow> dm_id \<Rightarrow> dmst \<Rightarrow> (ptr \<times> dmst) option" where
  "dm_alloc_instance_node kw base x s = (case malloc s of
     (None, s) \<Rightarrow> Some (None, s)
   | (Some a, s) \<Rightarrow> do {
       let s = DM_MEM_ADD (row_mem kw) s;
       let s = clear_nodes (length (tab_index kw)) a s;
       let n = \<lparr>in_table = zero_value, in_instance = x, in_idm = 0, in_root = None, in_indexed = False\<rparr>;
       let s = s\<lparr>nodes := (nodes s)(a \<mapsto> n), tables := (tables s)(a \<mapsto> zero_table kw)\<rparr>;
       s \<leftarrow> dm_init_table kw a base x s;
       v \<leftarrow> getv s (VNode a);
       s \<leftarrow> putv s (VNode a) (set_DM_TABLE v (Some a));
       Some (Some a, s) })"

definition dm_free_instance_node :: "dm_table \<Rightarrow> addr \<Rightarrow> dmst \<Rightarrow> dmst option" where
  "dm_free_instance_node kw row s = do {
     n \<leftarrow> nodes s row;
     oassert (\<not> in_indexed n);
     p \<leftarrow> DM_TABLE (in_table n);
     _ \<leftarrow> tab s p;
     let s = DM_MEM_SUB (row_mem kw) s;
     Some (s\<lparr>nodes := (nodes s)(row := None), tables := (tables s)(row := None),
             idxmem := (\<lambda>i. (idxmem s i)(row := None))\<rparr>) }"

end
