(* ===== verification/Dm_Ref.thy ===== *)
theory Dm_Ref
  imports Dm_Table
begin

text \<open>
  References of \<^verbatim>\<open>mand/dm_store.c\<close>: following a selector through schema and store to the
  element and the value it names, and the functions that read a value by selector.

  The C code keeps the current table and the current object in one pointer \<open>st_base\<close>,
  cast to and fro; here the two cases are told apart, and using one as the other is a fault.
  A reference outside a table, which the C code does not check, is a fault as well.
\<close>

datatype st_base = SB_tab ptr | SB_inst vref

record dm_element_ref =
  er_id :: dm_id
  er_kw_base :: "dm_table option"
  er_kw_elem :: "dm_element option"
  er_st_type :: dm_type
  er_st_base :: st_base
  er_st_value :: "vref option"

definition dm_get_instance_node_ref_by_id :: "dmst \<Rightarrow> ptr \<Rightarrow> dm_id \<Rightarrow> vref option option" where
  "dm_get_instance_node_ref_by_id s base x = do {
     n \<leftarrow> find_instance s base 0 T_INSTANCE (init_DM_INT (ucast x) 0);
     Some (map_option VNode n) }"

definition dm_get_instance_node_by_id :: "dmst \<Rightarrow> ptr \<Rightarrow> dm_id \<Rightarrow> ptr option" where
  "dm_get_instance_node_by_id s base x = find_instance s base 0 T_INSTANCE (init_DM_INT (ucast x) 0)"

function element_ref_loop ::
  "dmst \<Rightarrow> dm_selector \<Rightarrow> nat \<Rightarrow> dm_table option \<Rightarrow> st_base \<Rightarrow> dm_element_ref \<Rightarrow> bool \<Rightarrow> (bool \<times> dm_element_ref) option" where
  "element_ref_loop s sel i kw_base st_base ref r =
     (if kw_base = None \<or> st_base = SB_tab None then Some (False, ref)
      else do {
        x \<leftarrow> nth_opt sel i;
        if x = 0 then Some (r, ref)
        else do {
          let ref = ref\<lparr>er_id := x, er_kw_base := kw_base, er_st_base := st_base\<rparr>;
          if er_st_type ref = T_OBJECT
          then do {
            sv \<leftarrow> er_st_value ref;
            v \<leftarrow> getv s sv;
            inst \<leftarrow> DM_INSTANCE v;
            nv \<leftarrow> dm_get_instance_node_ref_by_id s inst x;
            let ref = ref\<lparr>er_st_type := T_INSTANCE, er_st_value := nv\<rparr>;
            case nv of
              None \<Rightarrow> Some (False, ref)
            | Some nv \<Rightarrow> do {
                v \<leftarrow> getv s nv;
                p \<leftarrow> DM_TABLE v;
                element_ref_loop s sel (i + 1) kw_base (SB_tab p) ref True } }
          else do {
            kwb \<leftarrow> kw_base;
            e \<leftarrow> nth_opt (tab_elems kwb) (unat x - 1);
            ta \<leftarrow> (case st_base of SB_tab p \<Rightarrow> p | SB_inst _ \<Rightarrow> None);
            v \<leftarrow> getv s (VTab ta (unat x - 1));
            let ref = ref\<lparr>er_kw_elem := Some e, er_st_value := Some (VTab ta (unat x - 1))\<rparr>;
            if el_type e = T_TOKEN \<or> el_type e = T_OBJECT
            then if er_st_type ref = T_TOKEN \<or> er_st_type ref = T_INSTANCE
              then do {
                let ref = ref\<lparr>er_st_type := el_type e\<rparr>;
                kt \<leftarrow> u_table e;
                sb \<leftarrow> (if el_type e \<noteq> T_OBJECT
                      then do { p \<leftarrow> DM_TABLE v; Some (SB_tab p) }
                      else do { _ \<leftarrow> DM_INSTANCE v; Some (SB_inst (VTab ta (unat x - 1))) });
                element_ref_loop s sel (i + 1) kt sb ref True }
              else element_ref_loop s sel (i + 1) kw_base st_base ref True
            else Some (True, ref) } } })"
  by pat_completeness auto
termination
  by (relation "measure (\<lambda>(_, sel, i, _). length sel - i)")
    (auto simp: nth_opt_eq_Some)

declare element_ref_loop.simps [simp del]

definition zero_ref :: dm_element_ref where
  "zero_ref = \<lparr>er_id = 0, er_kw_base = None, er_kw_elem = None, er_st_type = T_TOKEN,
     er_st_base = SB_tab None, er_st_value = None\<rparr>"

definition dm_get_element_ref :: "dm_env \<Rightarrow> dmst \<Rightarrow> dm_selector \<Rightarrow> (bool \<times> dm_element_ref) option" where
  "dm_get_element_ref env s sel =
     element_ref_loop s sel 0 (Some (dm_root env)) (SB_tab (dm_value_store s)) zero_ref False"

definition dm_get_element_type_from_ref :: "dm_element_ref \<Rightarrow> dm_type" where
  "dm_get_element_type_from_ref ref = (case er_kw_elem ref of
     None \<Rightarrow> T_NONE | Some e \<Rightarrow> if el_type e = T_COUNTER then T_UINT else el_type e)"

definition dm_get_element_from_ref :: "dm_element_ref \<Rightarrow> dm_element option" where
  "dm_get_element_from_ref ref = er_kw_elem ref"

text \<open>The table that a callback or a notification takes from \<open>st_base\<close>.\<close>

definition base_tab :: "dm_element_ref \<Rightarrow> ptr option" where
  "base_tab ref = (case er_st_base ref of SB_tab p \<Rightarrow> Some p | SB_inst _ \<Rightarrow> None)"

definition dm_get_element_value :: "dm_env \<Rightarrow> dm_type \<Rightarrow> dm_element_ref \<Rightarrow> dmst \<Rightarrow> (DM_VALUE \<times> dmst) option" where
  "dm_get_element_value env type ref s =
     (case (er_kw_elem ref, er_st_value ref) of
        (Some e, Some r) \<Rightarrow> do {
          v \<leftarrow> getv s r;
          if el_type e = T_COUNTER
          then Some (if type = T_ANY \<or> type = T_INT \<or> type = T_UINT then v else init_DM_UINT 0 0, s)
          else if has (el_flags e) F_GET
          then do {
            f \<leftarrow> value_fkts_of e;
            k \<leftarrow> vf_get f;
            b \<leftarrow> base_tab ref;
            fk_get env k s b (er_id ref) e v }
          else Some (if type = T_ANY \<or> el_type e = type then v else init_DM_UINT 0 0, s) }
      | _ \<Rightarrow> Some (init_DM_UINT 0 0, s))"

definition dm_get_any_value_by_selector :: "dm_env \<Rightarrow> dm_selector \<Rightarrow> dm_type \<Rightarrow> dmst \<Rightarrow> (DM_VALUE \<times> dmst) option" where
  "dm_get_any_value_by_selector env sel type s = do {
     (found, ref) \<leftarrow> dm_get_element_ref env s sel;
     if found then dm_get_element_value env type ref s else Some (zero_value, s) }"

definition dm_get_instance_ref_by_selector :: "dm_env \<Rightarrow> dmst \<Rightarrow> dm_selector \<Rightarrow> vref option option" where
  "dm_get_instance_ref_by_selector env s sel = do {
     (found, ref) \<leftarrow> dm_get_element_ref env s sel;
     if found
     then do {
       e \<leftarrow> er_kw_elem ref;
       if el_type e = T_OBJECT \<and> er_st_type ref = T_OBJECT
       then do { r \<leftarrow> er_st_value ref; v \<leftarrow> getv s r; _ \<leftarrow> DM_INSTANCE v; Some (Some r) }
       else Some None }
     else Some None }"

text \<open>The node that a reference of an instance stands for.\<close>

fun cast_node_table_ref2node :: "vref \<Rightarrow> addr option" where
  "cast_node_table_ref2node (VNode a) = Some a"
| "cast_node_table_ref2node (VTab _ _) = None"

definition dm_get_instance_node_by_selector :: "dm_env \<Rightarrow> dmst \<Rightarrow> dm_selector \<Rightarrow> ptr option" where
  "dm_get_instance_node_by_selector env s sel = do {
     (found, ref) \<leftarrow> dm_get_element_ref env s sel;
     if found
     then do {
       e \<leftarrow> er_kw_elem ref;
       if el_type e = T_OBJECT \<and> er_st_type ref = T_INSTANCE
       then do { r \<leftarrow> er_st_value ref; a \<leftarrow> cast_node_table_ref2node r; _ \<leftarrow> nodes s a; Some (Some a) }
       else Some None }
     else Some None }"

text \<open>What is stored through the \<^verbatim>\<open>void *\<close> of a typed read, or read from it by a typed write.\<close>

datatype c_value = C_int u32 | C_uint u32 | C_int64 u64 | C_uint64 u64 | C_str ptr | C_bin ptr
  | C_sel ptr | C_bool u8 | C_time u64 | C_ticks u64

definition dm_get_value_by_selector ::
  "dm_env \<Rightarrow> dm_selector \<Rightarrow> dm_type \<Rightarrow> dmst \<Rightarrow> (c_value option \<times> dmst) option" where
  "dm_get_value_by_selector env sel type s = do {
     (found, ref) \<leftarrow> dm_get_element_ref env s sel;
     if found
     then do {
       (val, s) \<leftarrow> dm_get_element_value env type ref s;
       c \<leftarrow> (case type of
          T_ENUM \<Rightarrow> do { x \<leftarrow> DM_INT val; Some (Some (C_int x)) }
        | T_INT \<Rightarrow> do { x \<leftarrow> DM_INT val; Some (Some (C_int x)) }
        | T_UINT \<Rightarrow> do { x \<leftarrow> DM_UINT val; Some (Some (C_uint x)) }
        | T_INT64 \<Rightarrow> do { x \<leftarrow> DM_INT64 val; Some (Some (C_int64 x)) }
        | T_UINT64 \<Rightarrow> do { x \<leftarrow> DM_UINT64 val; Some (Some (C_uint64 x)) }
        | T_STR \<Rightarrow> do { x \<leftarrow> DM_STRING val; Some (Some (C_str x)) }
        | T_BINARY \<Rightarrow> do { x \<leftarrow> DM_BINARY val; Some (Some (C_bin x)) }
        | T_BASE64 \<Rightarrow> do { x \<leftarrow> DM_BINARY val; Some (Some (C_bin x)) }
        | T_SELECTOR \<Rightarrow> do { x \<leftarrow> DM_SELECTOR val; Some (Some (C_sel x)) }
        | T_BOOL \<Rightarrow> do { x \<leftarrow> DM_BOOL val; Some (Some (C_bool (ucast x))) }
        | _ \<Rightarrow> Some None);
       Some (c, s) }
     else Some (None, s) }"

text \<open>Reads with a callback; \<open>'u\<close> is the callback's own data.\<close>

definition dm_get_value_by_selector_cb ::
  "dm_env \<Rightarrow> dm_selector \<Rightarrow> dm_type \<Rightarrow>
   (dm_selector \<Rightarrow> dm_element option \<Rightarrow> dm_type \<Rightarrow> DM_VALUE \<Rightarrow> 'u \<times> dmst \<Rightarrow> (DM_RESULT \<times> 'u \<times> dmst) option) \<Rightarrow>
   'u \<times> dmst \<Rightarrow> (DM_RESULT \<times> 'u \<times> dmst) option" where
  "dm_get_value_by_selector_cb env sel type cb = (\<lambda>(u, s). do {
     (found, ref) \<leftarrow> dm_get_element_ref env s sel;
     if found
     then do {
       (val, s) \<leftarrow> dm_get_element_value env type ref s;
       cb sel (dm_get_element_from_ref ref) (er_st_type ref) val (u, s) }
     else Some (DM_VALUE_NOT_FOUND, u, s) })"

definition dm_get_value_ref_by_selector_cb ::
  "dm_env \<Rightarrow> dm_selector \<Rightarrow>
   (dm_selector \<Rightarrow> dm_element option \<Rightarrow> st_base \<Rightarrow> vref option \<Rightarrow> 'u \<times> dmst \<Rightarrow> (DM_RESULT \<times> 'u \<times> dmst) option) \<Rightarrow>
   'u \<times> dmst \<Rightarrow> (DM_RESULT \<times> 'u \<times> dmst) option" where
  "dm_get_value_ref_by_selector_cb env sel cb = (\<lambda>(u, s). do {
     (found, ref) \<leftarrow> dm_get_element_ref env s sel;
     if found then cb sel (dm_get_element_from_ref ref) (er_st_base ref) (er_st_value ref) (u, s)
     else Some (DM_VALUE_NOT_FOUND, u, s) })"

definition dm_get_object_table_by_selector :: "dm_env \<Rightarrow> dmst \<Rightarrow> dm_selector \<Rightarrow> dm_table option option" where
  "dm_get_object_table_by_selector env s sel = do {
     (found, ref) \<leftarrow> dm_get_element_ref env s sel;
     if found
     then do { e \<leftarrow> er_kw_elem ref; if el_type e = T_OBJECT then u_table e else Some None }
     else Some None }"

end
