(* ===== verification/Dm_Store.thy ===== *)
theory Dm_Store
  imports Dm_Ref
begin

text \<open>
  Writing the store: the setters of \<^verbatim>\<open>mand/dm_store.c\<close> and \<^verbatim>\<open>dm_store.h\<close> for
  strings, binaries and selectors with their memory accounting, setting and overwriting by
  selector with the index, notification and action that follow a change, and adding and
  deleting rows and tables.

  A function on a \<^verbatim>\<open>DM_VALUE *\<close> is a function on the value; \<open>at_ref\<close> applies it to a
  value of the store.
\<close>

section \<open>Values with memory of their own\<close>

definition at_ref :: "vref \<Rightarrow> (DM_VALUE \<Rightarrow> dmst \<Rightarrow> ('a \<times> DM_VALUE \<times> dmst) option) \<Rightarrow> dmst \<Rightarrow> ('a \<times> dmst) option" where
  "at_ref r f s = do {
     v \<leftarrow> getv s r;
     (x, v, s) \<leftarrow> f v s;
     s \<leftarrow> putv s r v;
     Some (x, s) }"

definition dm_free_string_value :: "DM_VALUE \<Rightarrow> dmst \<Rightarrow> (DM_VALUE \<times> dmst) option" where
  "dm_free_string_value st s = do {
     p \<leftarrow> DM_STRING st;
     x \<leftarrow> str_of s p;
     case x of
       None \<Rightarrow> Some (st, s)
     | Some str \<Rightarrow> do {
         s \<leftarrow> free_blob p (DM_MEM_SUB (int (length str)) s);
         Some (set_DM_STRING st None, s) } }"

definition dm_free_binary_value :: "DM_VALUE \<Rightarrow> dmst \<Rightarrow> (DM_VALUE \<times> dmst) option" where
  "dm_free_binary_value st s = do {
     p \<leftarrow> DM_BINARY st;
     x \<leftarrow> bin_of s p;
     case x of
       None \<Rightarrow> Some (st, s)
     | Some b \<Rightarrow> do {
         s \<leftarrow> free_blob p (DM_MEM_SUB (sizeof_binary_t + int (length b)) s);
         Some (set_DM_BINARY st None, s) } }"

definition dm_free_selector_value :: "DM_VALUE \<Rightarrow> dmst \<Rightarrow> (DM_VALUE \<times> dmst) option" where
  "dm_free_selector_value st s = do {
     p \<leftarrow> DM_SELECTOR st;
     x \<leftarrow> sel_of s p;
     case x of
       None \<Rightarrow> Some (st, s)
     | Some _ \<Rightarrow> do {
         s \<leftarrow> free_blob p s;
         Some (set_DM_SELECTOR st None, DM_MEM_SUB sizeof_dm_selector s) } }"

definition dm_free_any_value :: "dm_element \<Rightarrow> DM_VALUE \<Rightarrow> dmst \<Rightarrow> (DM_VALUE \<times> dmst) option" where
  "dm_free_any_value elem st s = (case el_type elem of
     T_STR \<Rightarrow> dm_free_string_value st s
   | T_BINARY \<Rightarrow> dm_free_binary_value st s
   | T_SELECTOR \<Rightarrow> dm_free_selector_value st s
   | _ \<Rightarrow> Some (st, s))"

definition dm_set_string_value :: "cstr option \<Rightarrow> DM_VALUE \<Rightarrow> dmst \<Rightarrow> (DM_RESULT \<times> DM_VALUE \<times> dmst) option" where
  "dm_set_string_value str st s = do {
     (st, s) \<leftarrow> dm_free_string_value st s;
     case str of
       Some (c # cs) \<Rightarrow> (case new_blob (B_str (c # cs)) s of
           (None, s) \<Rightarrow> Some (DM_OOM, set_DM_STRING st None, s)
         | (Some a, s) \<Rightarrow> Some (DM_OK, set_DM_STRING st (Some a), DM_MEM_ADD (int (length (c # cs))) s))
     | _ \<Rightarrow> Some (DM_OK, set_DM_STRING st None, s) }"

definition dm_set_binary_value :: "u8 list option \<Rightarrow> DM_VALUE \<Rightarrow> dmst \<Rightarrow> (DM_RESULT \<times> DM_VALUE \<times> dmst) option" where
  "dm_set_binary_value t st s = do {
     (st, s) \<leftarrow> dm_free_binary_value st s;
     case t of
       Some (b # bs) \<Rightarrow> (case new_blob (B_bin (b # bs)) s of
           (None, s) \<Rightarrow> Some (DM_OOM, st, s)
         | (Some a, s) \<Rightarrow> Some (DM_OK, set_DM_BINARY st (Some a),
                                 DM_MEM_ADD (sizeof_binary_t + int (length (b # bs))) s))
     | _ \<Rightarrow> Some (DM_OK, set_DM_BINARY st None, s) }"

text \<open>\<open>data\<close> of \<^verbatim>\<open>NULL\<close> is \<open>None\<close>; its length is \<^verbatim>\<open>len\<close>.\<close>

definition dm_set_binary_data :: "u8 list option \<Rightarrow> DM_VALUE \<Rightarrow> dmst \<Rightarrow> (DM_RESULT \<times> DM_VALUE \<times> dmst) option" where
  "dm_set_binary_data data st s = do {
     (st, s) \<leftarrow> dm_free_binary_value st s;
     case data of
       Some (b # bs) \<Rightarrow> (case new_blob (B_bin (b # bs)) s of
           (None, s) \<Rightarrow> Some (DM_OOM, st, s)
         | (Some a, s) \<Rightarrow> Some (DM_OK, set_DM_BINARY st (Some a),
                                 DM_MEM_ADD (sizeof_binary_t + int (length (b # bs))) s))
     | _ \<Rightarrow> Some (DM_OK, set_DM_BINARY st None, s) }"

definition dm_set_selector_value :: "dm_selector option \<Rightarrow> DM_VALUE \<Rightarrow> dmst \<Rightarrow> (DM_RESULT \<times> DM_VALUE \<times> dmst) option" where
  "dm_set_selector_value sl st s = do {
     DM_type_assert st T_SELECTOR;
     fst_id \<leftarrow> (case sl of None \<Rightarrow> Some 0 | Some x \<Rightarrow> nth_opt x 0);
     case sl of
       Some x \<Rightarrow>
         if fst_id = 0 then do { (st, s) \<leftarrow> dm_free_selector_value st s; Some (DM_OK, st, s) }
         else do {
           x \<leftarrow> dm_selcpy no_selector x;
           p \<leftarrow> DM_SELECTOR st;
           case p of
             None \<Rightarrow> (case new_blob (B_sel x) s of
                 (None, s) \<Rightarrow> Some (DM_OOM, set_DM_SELECTOR st None, s)
               | (Some a, s) \<Rightarrow> Some (DM_OK, set_DM_SELECTOR st (Some a), DM_MEM_ADD sizeof_dm_selector s))
           | Some a \<Rightarrow> do {
               _ \<leftarrow> sel_of s p;
               Some (DM_OK, st, s\<lparr>blobs := (blobs s)(a \<mapsto> B_sel x)\<rparr>) } }
     | None \<Rightarrow> do { (st, s) \<leftarrow> dm_free_selector_value st s; Some (DM_OK, st, s) } }"

section \<open>Setting by selector\<close>

text \<open>\<open>er_st_base\<close> is read as a table; the row it belongs to has the same address.\<close>

definition value_update_action :: "dm_env \<Rightarrow> dm_element_ref \<Rightarrow> int \<Rightarrow> dmst \<Rightarrow> dmst option" where
  "value_update_action env ref slot s = do {
     r \<leftarrow> er_st_value ref;
     e \<leftarrow> er_kw_elem ref;
     s \<leftarrow> or_flags s r DV_UPDATED;
     p \<leftarrow> base_tab ref;
     s \<leftarrow> (if has (el_flags e) F_INDEX then do { row \<leftarrow> p; update_index (er_id ref) row s } else Some s);
     t \<leftarrow> tab s p;
     v \<leftarrow> getv s r;
     s \<leftarrow> notify slot (vt_id t) (er_id ref) v NOTIFY_CHANGE s;
     t \<leftarrow> tab s p;
     action env (el_action e) (vt_id t) (er_id ref) DM_CHANGE s }"

text \<open>\<^verbatim>\<open>memcpy (&st_value->_v, &val._v, sizeof (val._v))\<close>.\<close>

definition copy_v :: "vref \<Rightarrow> DM_VALUE \<Rightarrow> dmst \<Rightarrow> dmst option" where
  "copy_v r val s = do { v \<leftarrow> getv s r; putv s r (v\<lparr>dv_v := dv_v val\<rparr>) }"

definition call_set :: "dm_env \<Rightarrow> dm_element_ref \<Rightarrow> dm_element \<Rightarrow> vref \<Rightarrow> DM_VALUE \<Rightarrow> dmst \<Rightarrow> (DM_RESULT \<times> dmst) option" where
  "call_set env ref e r val s = do {
     f \<leftarrow> value_fkts_of e;
     k \<leftarrow> vf_set f;
     b \<leftarrow> base_tab ref;
     fk_set env k s b (er_id ref) e r val }"

definition dm_set_value :: "dm_env \<Rightarrow> dm_type \<Rightarrow> dm_element_ref \<Rightarrow> DM_VALUE \<Rightarrow> dmst \<Rightarrow> (DM_RESULT \<times> dmst) option" where
  "dm_set_value env type ref val s =
     (case (er_kw_elem ref, er_st_value ref) of
        (Some e, Some r) \<Rightarrow>
          if el_type e = type
          then do {
            (res, s) \<leftarrow>
              (if has (el_flags e) F_SET then call_set env ref e r val s
               else if el_type e = T_STR then do {
                 p \<leftarrow> DM_STRING val; x \<leftarrow> str_of s p; at_ref r (dm_set_string_value x) s }
               else if el_type e = T_BINARY \<or> el_type e = T_BASE64 then do {
                 p \<leftarrow> DM_BINARY val; x \<leftarrow> bin_of s p; at_ref r (dm_set_binary_value x) s }
               else if el_type e = T_SELECTOR then do {
                 p \<leftarrow> DM_SELECTOR val; x \<leftarrow> sel_of s p;
                 if p = None then do {
                   (_, s) \<leftarrow> at_ref r (\<lambda>v s. do { (v, s) \<leftarrow> dm_free_selector_value v s; Some ((), v, s) }) s;
                   Some (DM_OK, s) }
                 else at_ref r (dm_set_selector_value x) s }
               else do { s \<leftarrow> copy_v r val s; Some (DM_OK, s) });
            s \<leftarrow> (if res = DM_OK \<and> has (dv_flags val) DV_UPDATED
                 then value_update_action env ref (-1) s else Some s);
            Some (res, s) }
          else Some (DM_INVALID_TYPE, s)
      | _ \<Rightarrow> Some (DM_VALUE_NOT_FOUND, s))"

definition dm_set_any_value_by_selector ::
  "dm_env \<Rightarrow> dm_selector \<Rightarrow> dm_type \<Rightarrow> DM_VALUE \<Rightarrow> dmst \<Rightarrow> (DM_RESULT \<times> dmst) option" where
  "dm_set_any_value_by_selector env sel type val s = do {
     (found, ref) \<leftarrow> dm_get_element_ref env s sel;
     if found then dm_set_value env type ref val s else Some (DM_VALUE_NOT_FOUND, s) }"

definition dm_overwrite_value ::
  "dm_env \<Rightarrow> dm_type \<Rightarrow> dm_element_ref \<Rightarrow> DM_VALUE \<Rightarrow> int \<Rightarrow> dmst \<Rightarrow> (DM_RESULT \<times> dmst) option" where
  "dm_overwrite_value env type ref val slot s =
     (case (er_kw_elem ref, er_st_value ref) of
        (Some e, Some r) \<Rightarrow>
          if el_type e = type
          then do {
            _ \<leftarrow> getv s r;
            (res, val, s) \<leftarrow>
              (if has (el_flags e) F_SET
               then do {
                 (res, s) \<leftarrow> call_set env ref e r val s;
                 if res = DM_OK
                 then do { (val, s) \<leftarrow> dm_free_any_value e val s; Some (res, val, s) }
                 else Some (res, val, s) }
               else do { s \<leftarrow> copy_v r val s; Some (DM_OK, val, s) });
            s \<leftarrow> (if res = DM_OK \<and> has (dv_flags val) DV_UPDATED
                 then value_update_action env ref slot s else Some s);
            Some (res, s) }
          else Some (DM_INVALID_TYPE, s)
      | _ \<Rightarrow> Some (DM_VALUE_NOT_FOUND, s))"

definition dm_overwrite_any_value_by_selector ::
  "dm_env \<Rightarrow> dm_selector \<Rightarrow> dm_type \<Rightarrow> DM_VALUE \<Rightarrow> int \<Rightarrow> dmst \<Rightarrow> (DM_RESULT \<times> dmst) option" where
  "dm_overwrite_any_value_by_selector env sel type val slot s = do {
     (found, ref) \<leftarrow> dm_get_element_ref env s sel;
     if found then dm_overwrite_value env type ref val slot s else Some (DM_VALUE_NOT_FOUND, s) }"

definition dm_mark_updated_by_selector :: "dm_env \<Rightarrow> dm_selector \<Rightarrow> dmst \<Rightarrow> dmst option" where
  "dm_mark_updated_by_selector env sel s = do {
     (found, ref) \<leftarrow> dm_get_element_ref env s sel;
     if found then do { r \<leftarrow> er_st_value ref; or_flags s r DV_UPDATED } else Some s }"

text \<open>
  A typed write through a \<^verbatim>\<open>void *\<close>; \<open>None\<close> is \<^verbatim>\<open>NULL\<close>. The types are
  tested in the order of the switch; the value read must be one of that type.
\<close>

definition value_from_c :: "dm_type \<Rightarrow> c_value \<Rightarrow> DM_VALUE option option" where
  "value_from_c type c = (case type of
     T_ENUM \<Rightarrow> (case c of C_uint x \<Rightarrow> Some (Some (set_DM_UINT zero_value x)) | _ \<Rightarrow> None)
   | T_UINT \<Rightarrow> (case c of C_uint x \<Rightarrow> Some (Some (set_DM_UINT zero_value x)) | _ \<Rightarrow> None)
   | T_INT \<Rightarrow> (case c of C_int x \<Rightarrow> Some (Some (set_DM_INT zero_value x)) | _ \<Rightarrow> None)
   | T_UINT64 \<Rightarrow> (case c of C_uint64 x \<Rightarrow> Some (Some (set_DM_UINT64 zero_value x)) | _ \<Rightarrow> None)
   | T_INT64 \<Rightarrow> (case c of C_int64 x \<Rightarrow> Some (Some (set_DM_INT64 zero_value x)) | _ \<Rightarrow> None)
   | T_BOOL \<Rightarrow> (case c of C_bool x \<Rightarrow> Some (Some (set_DM_BOOL zero_value (scast x))) | _ \<Rightarrow> None)
   | T_STR \<Rightarrow> (case c of C_str x \<Rightarrow> Some (Some (set_DM_STRING zero_value x)) | _ \<Rightarrow> None)
   | T_BINARY \<Rightarrow> (case c of C_bin x \<Rightarrow> Some (Some (set_DM_BINARY zero_value x)) | _ \<Rightarrow> None)
   | T_BASE64 \<Rightarrow> (case c of C_bin x \<Rightarrow> Some (Some (set_DM_BINARY zero_value x)) | _ \<Rightarrow> None)
   | T_DATE \<Rightarrow> (case c of C_time x \<Rightarrow> Some (Some (set_DM_TIME zero_value x)) | _ \<Rightarrow> None)
   | T_TICKS \<Rightarrow> (case c of C_ticks x \<Rightarrow> Some (Some (set_DM_TICKS zero_value x)) | _ \<Rightarrow> None)
   | T_SELECTOR \<Rightarrow> (case c of C_sel x \<Rightarrow> Some (Some (set_DM_SELECTOR zero_value x)) | _ \<Rightarrow> None)
   | _ \<Rightarrow> Some None)"

definition dm_set_value_by_selector ::
  "dm_env \<Rightarrow> dm_selector \<Rightarrow> dm_type \<Rightarrow> c_value option \<Rightarrow> dmst \<Rightarrow> (DM_RESULT \<times> dmst) option" where
  "dm_set_value_by_selector env sel type value s = (case value of
     None \<Rightarrow> Some (DM_INVALID_VALUE, s)
   | Some c \<Rightarrow> do {
       v \<leftarrow> value_from_c type c;
       case v of
         None \<Rightarrow> Some (DM_INVALID_TYPE, s)
       | Some val \<Rightarrow> dm_set_any_value_by_selector env sel type (val\<lparr>dv_flags := DV_UPDATED\<rparr>) s })"

definition dm_set_value_by_selector_cb ::
  "dm_env \<Rightarrow> dm_selector \<Rightarrow>
   (dm_selector \<Rightarrow> dm_element option \<Rightarrow> DM_VALUE \<Rightarrow> 'u \<times> dmst \<Rightarrow> (DM_RESULT \<times> DM_VALUE \<times> 'u \<times> dmst) option) \<Rightarrow>
   'u \<times> dmst \<Rightarrow> (DM_RESULT \<times> 'u \<times> dmst) option" where
  "dm_set_value_by_selector_cb env sel cb = (\<lambda>(u, s). do {
     (found, ref) \<leftarrow> dm_get_element_ref env s sel;
     if found
     then do {
       (r, val, u, s) \<leftarrow> cb sel (dm_get_element_from_ref ref) zero_value (u, s);
       if r \<noteq> DM_OK then Some (r, u, s)
       else do { (r, s) \<leftarrow> dm_set_value env (dm_get_element_type_from_ref ref) ref val s; Some (r, u, s) } }
     else Some (DM_VALUE_NOT_FOUND, u, s) })"

definition dm_set_binary_data_by_selector ::
  "dm_env \<Rightarrow> dm_selector \<Rightarrow> u8 list option \<Rightarrow> u16 \<Rightarrow> dmst \<Rightarrow> (DM_RESULT \<times> dmst) option" where
  "dm_set_binary_data_by_selector env sel data flags s = do {
     (found, ref) \<leftarrow> dm_get_element_ref env s sel;
     case (found, er_kw_elem ref, er_st_value ref) of
       (True, Some e, Some r) \<Rightarrow>
         if el_type e \<noteq> T_BINARY \<and> el_type e \<noteq> T_BASE64 then Some (DM_INVALID_TYPE, s)
         else do {
           (res, s) \<leftarrow> at_ref r (dm_set_binary_data data) s;
           s \<leftarrow> (if res = DM_OK \<and> has flags DV_UPDATED then value_update_action env ref (-1) s else Some s);
           Some (res, s) }
     | _ \<Rightarrow> Some (DM_VALUE_NOT_FOUND, s) }"

end
