(* ===== verification/Dm_Object.thy ===== *)
theory Dm_Object
  imports Dm_Store
begin

text \<open>
  Adding and deleting rows and tables (\<^verbatim>\<open>mand/dm_store.c\<close>), and the setters by identifier
  that the generated code uses. Deleting follows the schema; the loop that empties an object
  takes the root of its first index until there is none.
\<close>

section \<open>Adding\<close>

definition DM_ID_USER_OBJECT :: dm_id where "DM_ID_USER_OBJECT = 0x8000"
definition DM_ID_AUTO_OBJECT :: dm_id where "DM_ID_AUTO_OBJECT = 0xC000"
definition DM_ID_MASK :: dm_id where "DM_ID_MASK = 0x3FFF"

text \<open>The search for a free identifier from \<open>x\<close> on, at the row \<open>elem\<close>.\<close>

partial_function (option) free_id :: "dmst \<Rightarrow> ptr \<Rightarrow> ptr \<Rightarrow> dm_id \<Rightarrow> dm_id option" where
  "free_id s base elem x =
     (case elem of
        None \<Rightarrow> Some x
      | Some a \<Rightarrow> do {
          let x = x + 1;
          elem \<leftarrow> dm_instance_next s base a;
          case elem of
            None \<Rightarrow> Some x
          | Some b \<Rightarrow> do {
              n \<leftarrow> nodes s b;
              if in_instance n > x then Some x else free_id s base elem x } })"

declare free_id.simps [code]

definition choose_id :: "dmst \<Rightarrow> ptr \<Rightarrow> dm_id \<Rightarrow> dm_id option" where
  "choose_id s base x =
     (if x AND DM_ID_MASK = 0
      then do {
        let x = x + 1;
        elem \<leftarrow> find_instance s base 0 T_INSTANCE (set_DM_INT zero_value (ucast x));
        free_id s base elem x }
      else Some x)"

definition dm_add_instance ::
  "dm_env \<Rightarrow> dm_element \<Rightarrow> vref \<Rightarrow> dm_selector \<Rightarrow> dm_id \<Rightarrow> dmst \<Rightarrow> (ptr \<times> dmst) option" where
  "dm_add_instance env kw base basesel x s =
     (if el_type kw \<noteq> T_OBJECT then Some (None, s)
      else do {
        (found, baseref) \<leftarrow> dm_get_element_ref env s basesel;
        if \<not> found then Some (None, s)
        else do {
          v \<leftarrow> getv s base;
          inst \<leftarrow> rdptr (dv_v v);
          (inst, s) \<leftarrow> (if inst = None then dm_alloc_instance kw base s else Some (inst, s));
          if inst = None then Some (None, s)
          else do {
            cnt \<leftarrow> dm_instance_node_count s inst;
            mx \<leftarrow> u_max kw;
            if cnt \<ge> mx then Some (None, s)
            else do {
              x \<leftarrow> choose_id s inst x;
              kt \<leftarrow> u_table kw;
              kt \<leftarrow> kt;
              (ret, s) \<leftarrow> dm_alloc_instance_node kt basesel x s;
              case ret of
                None \<Rightarrow> Some (None, s)
              | Some row \<Rightarrow> do {
                  s \<leftarrow> insert_instance inst row s;
                  f \<leftarrow> instance_fkts_of kw;
                  s \<leftarrow> (case if_add f of
                       Some k \<Rightarrow> if has (el_flags kw) F_ADD then fk_add env k s kt x base row else Some s
                     | None \<Rightarrow> Some s);
                  r \<leftarrow> er_st_value baseref;
                  v \<leftarrow> getv s r;
                  s \<leftarrow> notify (-1) basesel x v NOTIFY_ADD s;
                  Some (ret, s) } } } } })"

text \<open>The row, and its identifier that is written back to \<^verbatim>\<open>*id\<close>.\<close>

definition dm_add_instance_by_selector ::
  "dm_env \<Rightarrow> dm_selector \<Rightarrow> dm_id \<Rightarrow> dmst \<Rightarrow> (ptr \<times> dm_id \<times> dmst) option" where
  "dm_add_instance_by_selector env sel x s = do {
     (found, ref) \<leftarrow> dm_get_element_ref env s sel;
     if found \<and> er_st_type ref = T_OBJECT
     then do {
       e \<leftarrow> er_kw_elem ref;
       r \<leftarrow> er_st_value ref;
       v \<leftarrow> getv s r;
       _ \<leftarrow> DM_INSTANCE v;
       (nd, s) \<leftarrow> dm_add_instance env e r sel x s;
       case nd of
         None \<Rightarrow> Some (None, x, s)
       | Some a \<Rightarrow> do {
           s \<leftarrow> or_flags s (VNode a) DV_UPDATED;
           s \<leftarrow> or_flags s r DV_UPDATED;
           n \<leftarrow> nodes s a;
           Some (nd, in_instance n, s) } }
     else Some (None, x, s) }"

definition dm_add_table_by_selector :: "dm_env \<Rightarrow> dm_selector \<Rightarrow> dmst \<Rightarrow> (bool \<times> dmst) option" where
  "dm_add_table_by_selector env sel s = do {
     (found, ref) \<leftarrow> dm_get_element_ref env s sel;
     if found
     then do {
       e \<leftarrow> er_kw_elem ref;
       if el_type e = T_TOKEN
       then do {
         r \<leftarrow> er_st_value ref;
         v \<leftarrow> getv s r;
         p \<leftarrow> DM_TABLE v;
         if p = None
         then do {
           kt \<leftarrow> u_table e;
           kt \<leftarrow> kt;
           (q, s) \<leftarrow> dm_alloc_table kt sel 0 s;
           v \<leftarrow> getv s r;
           s \<leftarrow> putv s r (set_DM_TABLE v q);
           Some (True, s) }
         else Some (False, s) }
       else Some (False, s) }
     else Some (False, s) }"

section \<open>Deleting\<close>

partial_function (option) while_rows ::
  "(dmst \<Rightarrow> ptr option) \<Rightarrow> (addr \<Rightarrow> dmst \<Rightarrow> dmst option) \<Rightarrow> dmst \<Rightarrow> dmst option" where
  "while_rows get body s = do {
     p \<leftarrow> get s;
     case p of None \<Rightarrow> Some s | Some a \<Rightarrow> do { s \<leftarrow> body a s; while_rows get body s } }"

declare while_rows.simps [code]

definition free_at :: "(DM_VALUE \<Rightarrow> dmst \<Rightarrow> (DM_VALUE \<times> dmst) option) \<Rightarrow> vref \<Rightarrow> dmst \<Rightarrow> dmst option" where
  "free_at f r s = do { v \<leftarrow> getv s r; (v, s) \<leftarrow> f v s; putv s r v }"

text \<open>
  What \<open>dm_del_instance\<close> does before it deletes the table of the row: the row leaves the
  tree, the environment is told, and the deletion is announced.
\<close>

definition del_announce :: "dm_env \<Rightarrow> dm_element \<Rightarrow> dm_table \<Rightarrow> vref \<Rightarrow> addr \<Rightarrow> dmst \<Rightarrow> (addr \<times> dmst) option" where
  "del_announce env e kw base nd s = do {
     v \<leftarrow> getv s base;
     inst \<leftarrow> rdptr (dv_v v);
     s \<leftarrow> remove_instance inst nd s;
     n \<leftarrow> nodes s nd;
     f \<leftarrow> instance_fkts_of e;
     s \<leftarrow> (case if_del f of
          Some k \<Rightarrow> if has (el_flags e) F_DEL then fk_del env k s kw (in_instance n) base nd else Some s
        | None \<Rightarrow> Some s);
     s \<leftarrow> or_flags s (VNode nd) DV_DELETED;
     n \<leftarrow> nodes s nd;
     p \<leftarrow> DM_TABLE (in_table n);
     t \<leftarrow> tab s p;
     s \<leftarrow> notify_sel (-1) (vt_id t) (in_table n) NOTIFY_DEL s;
     s \<leftarrow> action_sel env (el_action e) (vt_id t) DM_DEL s;
     a \<leftarrow> p;
     Some (a, s) }"

text \<open>
  \<open>dm_del_table\<close>, \<open>dm_del_element\<close>, \<open>dm_del_object\<close> and \<open>dm_del_instance\<close>. The
  object is the value at \<open>base\<close>. The table of a token is freed but the value keeps its address.
\<close>

function dm_del_table :: "dm_env \<Rightarrow> dm_table \<Rightarrow> addr \<Rightarrow> dmst \<Rightarrow> dmst option"
  and dm_del_element :: "dm_env \<Rightarrow> dm_element \<Rightarrow> vref \<Rightarrow> dmst \<Rightarrow> dmst option"
  and dm_del_object :: "dm_env \<Rightarrow> dm_element \<Rightarrow> vref \<Rightarrow> dmst \<Rightarrow> dmst option"
  and dm_del_instance :: "dm_env \<Rightarrow> dm_element \<Rightarrow> vref \<Rightarrow> addr \<Rightarrow> dmst \<Rightarrow> dmst option" where
  "dm_del_table env kw st s =
     ofold (\<lambda>(i, e) s. do {
       s \<leftarrow> dm_del_element env e (VTab st i) s;
       t \<leftarrow> tables s st;
       action env (el_action e) (vt_id t) (of_nat (i + 1)) DM_DEL s }) (rev (enumerate 0 (tab_elems kw))) s"
| "dm_del_element env e r s = (case el_type e of
     T_TOKEN \<Rightarrow> do {
       v \<leftarrow> getv s r;
       p \<leftarrow> DM_TABLE v;
       case p of
         None \<Rightarrow> Some s
       | Some a \<Rightarrow> (case u_table e of
           Some (Some kt) \<Rightarrow> do {
             s \<leftarrow> dm_del_table env kt a s;
             v \<leftarrow> getv s r;
             p \<leftarrow> DM_TABLE v;
             dm_free_table kt p s }
         | _ \<Rightarrow> None) }
   | T_OBJECT \<Rightarrow> do {
       v \<leftarrow> getv s r;
       _ \<leftarrow> DM_INSTANCE v;
       s \<leftarrow> dm_del_object env e r s;
       v \<leftarrow> getv s r;
       inst \<leftarrow> DM_INSTANCE v;
       dm_free_instance inst s }
   | T_STR \<Rightarrow> free_at dm_free_string_value r s
   | T_BINARY \<Rightarrow> free_at dm_free_binary_value r s
   | T_BASE64 \<Rightarrow> free_at dm_free_binary_value r s
   | T_SELECTOR \<Rightarrow> free_at dm_free_selector_value r s
   | _ \<Rightarrow> Some s)"
| "dm_del_object env e base s =
     while_rows (\<lambda>s. do { v \<leftarrow> getv s base; inst \<leftarrow> rdptr (dv_v v); dm_instance_root s inst })
       (\<lambda>nd s. dm_del_instance env e base nd s) s"
| "dm_del_instance env e base nd s = (case u_table e of
     Some (Some kw) \<Rightarrow> do {
       (a, s) \<leftarrow> del_announce env e kw base nd s;
       s \<leftarrow> dm_del_table env kw a s;
       dm_free_instance_node kw nd s }
   | _ \<Rightarrow> None)"
  by pat_completeness auto
termination
proof (relation "measure (\<lambda>x. case x of
    Inl (Inl (_, kw, _)) \<Rightarrow> 4 * size kw | Inl (Inr (_, e, _)) \<Rightarrow> 4 * size e + 3
  | Inr (Inl (_, e, _)) \<Rightarrow> 4 * size e + 2 | Inr (Inr (_, e, _)) \<Rightarrow> 4 * size e + 1)", goal_cases)
  case 1
  show ?case by simp
next
  case (2 env kw st s p s' i e)
  then have "e \<in> set (tab_elems kw)" by (auto dest: enumerate_snd)
  then have "size e < size kw" by (rule size_elem_less)
  then show ?case by simp
qed (auto dest: size_u_table_less)

declare dm_del_table.simps [simp del] dm_del_element.simps [simp del]
  dm_del_object.simps [simp del] dm_del_instance.simps [simp del]

definition dm_del_object_instance :: "dm_env \<Rightarrow> dm_element_ref \<Rightarrow> dmst \<Rightarrow> dmst option" where
  "dm_del_object_instance env ref s =
     (case (er_kw_elem ref, er_st_value ref) of
        (Some e, Some r) \<Rightarrow> do {
          inst \<leftarrow> (case er_st_base ref of SB_inst b \<Rightarrow> Some b | SB_tab _ \<Rightarrow> None);
          nd \<leftarrow> cast_node_table_ref2node r;
          dm_del_instance env e inst nd s }
      | _ \<Rightarrow> Some s)"

definition dm_del_object_by_selector :: "dm_env \<Rightarrow> dm_selector \<Rightarrow> dmst \<Rightarrow> (bool \<times> dmst) option" where
  "dm_del_object_by_selector env sel s = do {
     (found, ref) \<leftarrow> dm_get_element_ref env s sel;
     if found \<and> er_st_type ref = T_INSTANCE
     then do { s \<leftarrow> dm_del_object_instance env ref s; Some (True, s) }
     else Some (False, s) }"

definition dm_del_table_by_selector :: "dm_env \<Rightarrow> dm_selector \<Rightarrow> dmst \<Rightarrow> (bool \<times> dmst) option" where
  "dm_del_table_by_selector env sel s = do {
     (found, ref) \<leftarrow> dm_get_element_ref env s sel;
     if found
     then do {
       s \<leftarrow> (if er_st_type ref = T_INSTANCE then dm_del_object_instance env ref s
         else do {
           e \<leftarrow> er_kw_elem ref;
           r \<leftarrow> er_st_value ref;
           s \<leftarrow> (if er_st_type ref = T_OBJECT
                then do { v \<leftarrow> getv s r; _ \<leftarrow> DM_INSTANCE v; dm_del_object env e r s }
                else dm_del_element env e r s);
           p \<leftarrow> base_tab ref;
           t \<leftarrow> tab s p;
           action env (el_action e) (vt_id t) (er_id ref) DM_DEL s });
       Some (True, s) }
     else Some (False, s) }"

section \<open>Setters by identifier\<close>

definition DM_NOTIFY_BY_ID :: "ptr \<Rightarrow> dm_id \<Rightarrow> dmst \<Rightarrow> dmst option" where
  "DM_NOTIFY_BY_ID ift x s = do {
     r \<leftarrow> val_ref ift x;
     s \<leftarrow> or_flags s r DV_UPDATED;
     t \<leftarrow> tab s ift;
     v \<leftarrow> getv s r;
     notify (-1) (vt_id t) x v NOTIFY_CHANGE s }"

definition set_by_id :: "(DM_VALUE \<Rightarrow> DM_VALUE) \<Rightarrow> ptr \<Rightarrow> dm_id \<Rightarrow> dmst \<Rightarrow> dmst option" where
  "set_by_id f ift x s = do {
     r \<leftarrow> val_ref ift x;
     v \<leftarrow> getv s r;
     s \<leftarrow> putv s r (f v);
     DM_NOTIFY_BY_ID ift x s }"

definition dm_set_bool_by_id :: "ptr \<Rightarrow> dm_id \<Rightarrow> u8 \<Rightarrow> dmst \<Rightarrow> dmst option" where
  "dm_set_bool_by_id ift x b = set_by_id (\<lambda>v. set_DM_BOOL v (scast b)) ift x"
definition dm_set_enum_by_id :: "ptr \<Rightarrow> dm_id \<Rightarrow> u32 \<Rightarrow> dmst \<Rightarrow> dmst option" where
  "dm_set_enum_by_id ift x n = set_by_id (\<lambda>v. set_DM_ENUM v n) ift x"
definition dm_set_counter_by_id :: "ptr \<Rightarrow> dm_id \<Rightarrow> u32 \<Rightarrow> dmst \<Rightarrow> dmst option" where
  "dm_set_counter_by_id ift x n = set_by_id (\<lambda>v. set_DM_UINT v n) ift x"
definition dm_set_int_by_id :: "ptr \<Rightarrow> dm_id \<Rightarrow> u32 \<Rightarrow> dmst \<Rightarrow> dmst option" where
  "dm_set_int_by_id ift x n = set_by_id (\<lambda>v. set_DM_INT v n) ift x"
definition dm_set_uint_by_id :: "ptr \<Rightarrow> dm_id \<Rightarrow> u32 \<Rightarrow> dmst \<Rightarrow> dmst option" where
  "dm_set_uint_by_id ift x n = set_by_id (\<lambda>v. set_DM_UINT v n) ift x"
definition dm_set_int64_by_id :: "ptr \<Rightarrow> dm_id \<Rightarrow> u64 \<Rightarrow> dmst \<Rightarrow> dmst option" where
  "dm_set_int64_by_id ift x n = set_by_id (\<lambda>v. set_DM_INT64 v n) ift x"
definition dm_set_uint64_by_id :: "ptr \<Rightarrow> dm_id \<Rightarrow> u64 \<Rightarrow> dmst \<Rightarrow> dmst option" where
  "dm_set_uint64_by_id ift x n = set_by_id (\<lambda>v. set_DM_UINT64 v n) ift x"
definition dm_set_time_by_id :: "ptr \<Rightarrow> dm_id \<Rightarrow> u64 \<Rightarrow> dmst \<Rightarrow> dmst option" where
  "dm_set_time_by_id ift x n = set_by_id (\<lambda>v. set_DM_TIME v n) ift x"
definition dm_set_ticks_by_id :: "ptr \<Rightarrow> dm_id \<Rightarrow> u64 \<Rightarrow> dmst \<Rightarrow> dmst option" where
  "dm_set_ticks_by_id ift x n = set_by_id (\<lambda>v. set_DM_TICKS v n) ift x"
definition dm_set_ipv4_by_id :: "ptr \<Rightarrow> dm_id \<Rightarrow> u32 \<Rightarrow> dmst \<Rightarrow> dmst option" where
  "dm_set_ipv4_by_id ift x n = set_by_id (\<lambda>v. set_DM_IP4 v n) ift x"
definition dm_set_ipv6_by_id :: "ptr \<Rightarrow> dm_id \<Rightarrow> 128 word \<Rightarrow> dmst \<Rightarrow> dmst option" where
  "dm_set_ipv6_by_id ift x n = set_by_id (\<lambda>v. set_DM_IP6 v n) ift x"

definition set_blob_by_id ::
  "(DM_VALUE \<Rightarrow> dmst \<Rightarrow> (DM_RESULT \<times> DM_VALUE \<times> dmst) option) \<Rightarrow> ptr \<Rightarrow> dm_id \<Rightarrow> dmst \<Rightarrow> dmst option" where
  "set_blob_by_id f ift x s = do {
     r \<leftarrow> val_ref ift x;
     (_, s) \<leftarrow> at_ref r f s;
     DM_NOTIFY_BY_ID ift x s }"

definition dm_set_string_by_id :: "ptr \<Rightarrow> dm_id \<Rightarrow> cstr option \<Rightarrow> dmst \<Rightarrow> dmst option" where
  "dm_set_string_by_id ift x str = set_blob_by_id (dm_set_string_value str) ift x"
definition dm_set_binary_by_id :: "ptr \<Rightarrow> dm_id \<Rightarrow> u8 list option \<Rightarrow> dmst \<Rightarrow> dmst option" where
  "dm_set_binary_by_id ift x b = set_blob_by_id (dm_set_binary_value b) ift x"
definition dm_set_binary_data_by_id :: "ptr \<Rightarrow> dm_id \<Rightarrow> u8 list option \<Rightarrow> dmst \<Rightarrow> dmst option" where
  "dm_set_binary_data_by_id ift x b = set_blob_by_id (dm_set_binary_data b) ift x"
definition dm_set_selector_by_id :: "ptr \<Rightarrow> dm_id \<Rightarrow> dm_selector option \<Rightarrow> dmst \<Rightarrow> dmst option" where
  "dm_set_selector_by_id ift x sl = set_blob_by_id (dm_set_selector_value sl) ift x"

end
