(* ===== verification/Dm_Rbtree_Order.thy ===== *)
theory Dm_Rbtree_Order
  imports Dm_Rbtree_Walk Dm_Token
begin

text \<open>
  An index over rows that a three-way comparison orders: the nodes are strictly ascending and
  the rows of a node's list are equal to it. The invariant of a whole index is kept by
  \<open>INSERT\<close> and \<open>REMOVE\<close>, which insert into and remove from the ordered sequence of
  rows, and \<open>FIND\<close> finds a row exactly when one compares equal.
\<close>

locale ordered_index = three_way D cmp for D :: "addr \<Rightarrow> bool" and cmp :: "addr \<Rightarrow> addr \<Rightarrow> int option"
begin

definition ordered :: "addr list list \<Rightarrow> bool" where
  "ordered gs \<longleftrightarrow> (\<forall>g \<in> set gs. g \<noteq> [] \<and> (\<forall>x \<in> set g. D x \<and> eqv (hd g) x)) \<and> sorted_wrt lt (map hd gs)"

definition index_inv :: "rbmem \<Rightarrow> rbt \<Rightarrow> bool" where
  "index_inv m t \<longleftrightarrow> repr m t \<and> rb_tree t \<and> ordered (groups t)"

definition sgn_cmp :: "addr \<Rightarrow> addr \<Rightarrow> int" where
  "sgn_cmp e a = the (cmp e a)"

lemma ordered_hd: "ordered gs \<Longrightarrow> g \<in> set gs \<Longrightarrow> D (hd g)"
  by (auto simp: ordered_def)

lemma cmp_sgn: "D e \<Longrightarrow> D a \<Longrightarrow> cmp e a = Some (sgn_cmp e a)"
  unfolding sgn_cmp_def using cmp_total [of e a] by auto

lemma sgn_cmp_lt: "D e \<Longrightarrow> D a \<Longrightarrow> sgn_cmp e a < 0 \<longleftrightarrow> lt e a"
  by (simp add: lt_def cmp_sgn)

lemma sgn_cmp_gt: "D e \<Longrightarrow> D a \<Longrightarrow> 0 < sgn_cmp e a \<longleftrightarrow> lt a e"
  by (simp add: lt_iff cmp_sgn)

lemma sgn_cmp_eq: "D e \<Longrightarrow> D a \<Longrightarrow> sgn_cmp e a = 0 \<longleftrightarrow> eqv e a"
  by (simp add: eqv_def cmp_sgn)

lemma ordered_cut:
  assumes "ordered gs" "D e"
  shows "cut (sgn_cmp e) (map hd gs)"
proof -
  have D: "\<forall>a \<in> set (map hd gs). D a" using assms(1) by (auto simp: ordered_def)
  have "sorted_wrt lt (map hd gs)" using assms(1) by (simp add: ordered_def)
  then show ?thesis unfolding cut_def
  proof (rule sorted_wrt_mono_rel [rotated])
    fix a b assume ab: "a \<in> set (map hd gs)" "b \<in> set (map hd gs)" "lt a b"
    with D have "D a" "D b" by auto
    with ab(3) assms(2) show "(sgn_cmp e a < 0 \<longrightarrow> sgn_cmp e b < 0) \<and>
      (0 < sgn_cmp e b \<longrightarrow> 0 < sgn_cmp e a) \<and> \<not> (sgn_cmp e a = 0 \<and> sgn_cmp e b = 0)"
      unfolding sgn_cmp_lt [OF assms(2) \<open>D a\<close>] sgn_cmp_lt [OF assms(2) \<open>D b\<close>]
        sgn_cmp_gt [OF assms(2) \<open>D a\<close>] sgn_cmp_gt [OF assms(2) \<open>D b\<close>]
        sgn_cmp_eq [OF assms(2) \<open>D a\<close>] sgn_cmp_eq [OF assms(2) \<open>D b\<close>]
      using lt_trans [of e a b] lt_trans [of a b e] eqv_sym [of e a] eqv_trans [of a e b] lt_not_eqv [of a b]
      by blast
  qed
qed

lemma ordered_inserted:
  assumes "ordered gs" "D e" "inserted (sgn_cmp e) e gs gs' res"
  shows "ordered gs'"
  using assms(3) unfolding inserted_def
proof (elim disjE exE conjE)
  fix B a ds A assume *: "sgn_cmp e a = 0" "gs = B @ (a # ds) # A" "gs' = B @ (a # e # ds) # A"
  from assms(1) * have "D a" by (auto simp: ordered_def)
  with * assms(2) have "eqv a e" using sgn_cmp_eq eqv_sym by blast
  with * assms(1,2) show ?thesis by (auto simp: ordered_def)
next
  fix B A assume *: "gs = B @ A" "gs' = B @ [e] # A" "\<forall>b \<in> set B. 0 < sgn_cmp e (hd b)"
    "\<forall>a \<in> set A. sgn_cmp e (hd a) < 0"
  from assms(1) * have D: "\<And>g. g \<in> set B \<Longrightarrow> D (hd g)" "\<And>g. g \<in> set A \<Longrightarrow> D (hd g)"
    using ordered_hd [OF assms(1)] by auto
  have "\<And>b. b \<in> set B \<Longrightarrow> lt (hd b) e" "\<And>a. a \<in> set A \<Longrightarrow> lt e (hd a)"
    using *(3,4) D sgn_cmp_gt [OF assms(2)] sgn_cmp_lt [OF assms(2)] by auto
  with * assms(1,2) eqv_refl show ?thesis
    by (auto simp: ordered_def sorted_wrt_append sorted_wrt_map)
qed

lemma ordered_removed:
  assumes "ordered gs"
  shows "ordered (remove_row e gs)"
  using assms
proof (induction gs)
  case Nil
  then show ?case by (simp add: remove_row_def)
next
  case (Cons g gs)
  let ?f = "filter (\<lambda>x. x \<noteq> e)"
  have ord: "ordered gs" using Cons.prems by (auto simp: ordered_def)
  have split: "remove_row e (g # gs) = (if ?f g = [] then remove_row e gs else ?f g # remove_row e gs)"
    by (simp add: remove_row_def)
  show ?case
  proof (cases "?f g = []")
    case True
    with split Cons.IH [OF ord] show ?thesis by simp
  next
    case False
    have g: "\<And>x. x \<in> set g \<Longrightarrow> D x" "\<And>x. x \<in> set g \<Longrightarrow> eqv (hd g) x" "g \<noteq> []"
      using Cons.prems by (auto simp: ordered_def)
    have sub: "hd (?f g) \<in> set g" using False by (metis filter_is_subset hd_in_set subsetD)
    have D0: "D (hd g)" "D (hd (?f g))" using g sub by auto
    have eq: "eqv (hd (?f g)) (hd g)" using g(2) [OF sub] eqv_sym D0 by blast
    have "lt (hd (?f g)) (hd g')" if "g' \<in> set (remove_row e gs)" for g'
    proof -
      from that obtain g0 where g0: "g0 \<in> set gs" "g' = ?f g0" "g' \<noteq> []" by (auto simp: remove_row_def)
      then have in0: "hd g' \<in> set g0" by (metis filter_is_subset hd_in_set subsetD)
      have "D (hd g0)" "D (hd g')" "eqv (hd g0) (hd g')" "lt (hd g) (hd g0)"
        using Cons.prems g0(1) in0 by (auto simp: ordered_def)
      with eq D0 show ?thesis using eqv_lt_trans lt_eqv_trans by metis
    qed
    moreover have "eqv (hd (?f g)) x" if "x \<in> set (?f g)" for x
    proof -
      have "D x" "eqv (hd g) x" using that g by auto
      then show ?thesis using eq eqv_trans D0 by blast
    qed
    moreover have "\<And>x. x \<in> set (?f g) \<Longrightarrow> D x" using g by auto
    ultimately show ?thesis
      using split False Cons.IH [OF ord] by (auto simp: ordered_def)
  qed
qed

lemma heads_D: "ordered (groups t) \<Longrightarrow> a \<in> set (heads t) \<Longrightarrow> D a"
  by (auto simp: heads_def ordered_def)

lemma index_insert:
  assumes inv: "index_inv m t" and e: "D e" "e \<notin> set (addrs t)" "rbh m e = Some zero_node"
    and key: "\<And>a. a \<in> set (heads t) \<Longrightarrow> cmpv a = cmp e a"
  obtains m' res t' where "INSERT cmpv m (Some e) = Some (m', res)" "index_inv m' t'"
    "inserted (sgn_cmp e) e (groups t) (groups t') res" "unchanged (insert e (set (addrs t))) m m'"
    "res = None \<longleftrightarrow> (\<forall>a \<in> set (heads t). \<not> eqv e a)"
proof -
  have ord: "ordered (groups t)" and rep: "repr m t" and rb: "rb_tree t"
    using inv by (auto simp: index_inv_def)
  have cmpD: "cmpv a = Some (sgn_cmp e a)" if "a \<in> set (heads t)" for a
    using that heads_D [OF ord] e(1) cmp_sgn key by simp
  obtain m' res t' where r: "INSERT cmpv m (Some e) = Some (m', res)" "repr m' t'" "rb_tree t'"
    "inserted (sgn_cmp e) e (groups t) (groups t') res" "unchanged (insert e (set (addrs t))) m m'"
    by (rule INSERT_spec [OF rep rb e(2,3) cmpD]) (use ordered_cut [OF ord e(1)] in \<open>simp_all add: heads_def\<close>)
  have "res = None \<longleftrightarrow> (\<forall>a \<in> set (heads t). sgn_cmp e a \<noteq> 0)"
    using r(4) by (force simp: inserted_def heads_def)
  also have "\<dots> \<longleftrightarrow> (\<forall>a \<in> set (heads t). \<not> eqv e a)"
    using heads_D [OF ord] sgn_cmp_eq [OF e(1)] by blast
  finally have res: "res = None \<longleftrightarrow> (\<forall>a \<in> set (heads t). \<not> eqv e a)" .
  have "index_inv m' t'" using r ordered_inserted [OF ord e(1)] by (auto simp: index_inv_def)
  from that [OF r(1) this r(4,5) res] show thesis .
qed

lemma index_remove:
  assumes inv: "index_inv m t" and e: "e \<in> set (addrs t)"
  obtains m' t' where "REMOVE m (Some e) = Some m'" "index_inv m' t'"
    "groups t' = remove_row e (groups t)" "rbh m' e = Some zero_node" "unchanged (set (addrs t)) m m'"
proof -
  obtain m' t' where "REMOVE m (Some e) = Some m'" "repr m' t'" "rb_tree t'"
    "groups t' = remove_row e (groups t)" "rbh m' e = Some zero_node" "unchanged (set (addrs t)) m m'"
    by (rule REMOVE_spec [of m t e]) (use inv e in \<open>auto simp: index_inv_def\<close>)
  with that ordered_removed [of "groups t" e] inv show thesis by (auto simp: index_inv_def)
qed

text \<open>Searching for a key that is compared like some (virtual) row \<open>e\<close>.\<close>

lemma index_find:
  assumes inv: "index_inv m t" and e: "D e" and key: "\<And>a. a \<in> set (heads t) \<Longrightarrow> cmpv a = cmp e a"
  shows "(\<exists>a \<in> set (heads t). eqv e a \<and> FIND cmpv m = Some (Some a)) \<or>
    (\<forall>a \<in> set (addrs t). \<not> eqv e a) \<and> FIND cmpv m = Some None"
proof -
  have ord: "ordered (groups t)" and rep: "repr m t" using inv by (auto simp: index_inv_def)
  have cmpD: "cmpv a = Some (sgn_cmp e a)" if "a \<in> set (heads t)" for a
    using that heads_D [OF ord] e cmp_sgn key by simp
  have cut: "cut (sgn_cmp e) (heads t)" using ordered_cut [OF ord e] by (simp add: heads_def)
  have all: "\<not> eqv e x" if "\<forall>a \<in> set (heads t). sgn_cmp e a \<noteq> 0" "x \<in> set (addrs t)" for x
  proof
    assume ex: "eqv e x"
    from that(2) obtain g where g: "g \<in> set (groups t)" "x \<in> set g" by (auto simp: addrs_groups)
    then have "D x" "D (hd g)" "eqv (hd g) x" using ord by (auto simp: ordered_def)
    then have "eqv e (hd g)" using ex e eqv_trans eqv_sym by blast
    with sgn_cmp_eq [OF e \<open>D (hd g)\<close>] have "sgn_cmp e (hd g) = 0" by simp
    with that(1) g show False by (auto simp: heads_def)
  qed
  from FIND_spec [OF rep cmpD cut] show ?thesis
    using sgn_cmp_eq [OF e] heads_D [OF ord] all by auto
qed

end

end
