(* ===== verification/Dm_Index_Order.thy ===== *)
theory Dm_Index_Order
  imports Dm_Index Dm_Rbtree_Order
begin

text \<open>
  Which indexes are ordered: every value of a type other than boolean and binary has a key, a
  list of numbers, and comparing two values is comparing their keys lexicographically. (Booleans
  compare as equal or greater, binaries are treated in \<open>dm_binarycmp_prefix_asymmetric\<close>.)
  The interpretation \<open>rows\<close> carries the results on ordered red-black trees over to the rows
  of the store.
\<close>

section \<open>Keys\<close>

fun lcmp :: "'a::linorder list \<Rightarrow> 'a list \<Rightarrow> int" where
  "lcmp [] [] = 0"
| "lcmp [] (_ # _) = -1"
| "lcmp (_ # _) [] = 1"
| "lcmp (x # xs) (y # ys) = (if x < y then -1 else if y < x then 1 else lcmp xs ys)"

lemma lcmp_zero [simp]: "lcmp xs ys = 0 \<longleftrightarrow> xs = ys"
  by (induction xs ys rule: lcmp.induct) auto

lemma lcmp_flip: "lcmp ys xs = - lcmp xs ys"
  by (induction xs ys rule: lcmp.induct) auto

lemma lcmp_trans: "lcmp xs ys \<le> 0 \<Longrightarrow> lcmp ys zs \<le> 0 \<Longrightarrow> lcmp xs zs \<le> 0"
proof (induction xs ys arbitrary: zs rule: lcmp.induct)
  case (2 y ys)
  then show ?case by (cases zs) auto
next
  case (4 x xs y ys)
  then show ?case by (cases zs) (auto split: if_splits)
qed (auto split: if_splits)

lemma three_way_key:
  assumes "\<And>x y. D x \<Longrightarrow> D y \<Longrightarrow> cmp x y = Some (lcmp (k x) (k y))"
  shows "three_way D cmp"
proof
  fix x y z
  show "D x \<Longrightarrow> D y \<Longrightarrow> \<exists>r. cmp x y = Some r" "D x \<Longrightarrow> cmp x x = Some 0" by (simp_all add: assms)
  show "\<exists>q. cmp y x = Some q \<and> sgn q = - sgn r" if "D x" "D y" "cmp x y = Some r" for r
    using that assms lcmp_flip [of "k y" "k x"] by (auto simp: sgn_minus)
  show "\<exists>p. cmp x z = Some p \<and> p \<le> 0 \<and> (p = 0 \<longrightarrow> r = 0 \<and> q = 0)"
    if "D x" "D y" "D z" "cmp x y = Some r" "cmp y z = Some q" "r \<le> 0" "q \<le> 0" for r q
  proof -
    have rq: "r = lcmp (k x) (k y)" "q = lcmp (k y) (k z)" using that assms by auto
    then have "lcmp (k x) (k z) \<le> 0" using that lcmp_trans by auto
    moreover have "r = 0 \<and> q = 0" if "k x = k z"
      using that rq \<open>r \<le> 0\<close> \<open>q \<le> 0\<close> lcmp_flip [of "k z" "k y"] by auto
    ultimately show ?thesis using that assms by auto
  qed
qed

definition str_key :: "cstr option \<Rightarrow> int list" where
  "str_key p = (case p of None \<Rightarrow> [] | Some x \<Rightarrow> 0 # map uint x)"

definition sel_key :: "dm_selector option \<Rightarrow> int list option" where
  "sel_key p = (case p of None \<Rightarrow> Some [] | Some x \<Rightarrow> if is_selector x then Some (0 # map uint (path x)) else None)"

definition vkey :: "dmst \<Rightarrow> dm_type \<Rightarrow> DM_VALUE \<Rightarrow> int list option" where
  "vkey s ty v = (case ty of
     T_UINT \<Rightarrow> map_option (\<lambda>x. [uint x]) (DM_UINT v)
   | T_INT \<Rightarrow> map_option (\<lambda>x. [sint x]) (DM_INT v)
   | T_UINT64 \<Rightarrow> map_option (\<lambda>x. [uint x]) (DM_UINT64 v)
   | T_INT64 \<Rightarrow> map_option (\<lambda>x. [sint x]) (DM_INT64 v)
   | T_DATE \<Rightarrow> map_option (\<lambda>x. [sint x]) (DM_TIME v)
   | T_TICKS \<Rightarrow> map_option (\<lambda>x. [sint x]) (DM_TICKS v)
   | T_ENUM \<Rightarrow> map_option (\<lambda>x. [sint x]) (DM_ENUM v)
   | T_STR \<Rightarrow> do { p \<leftarrow> DM_STRING v; x \<leftarrow> str_of s p; Some (str_key x) }
   | T_SELECTOR \<Rightarrow> do { p \<leftarrow> DM_SELECTOR v; x \<leftarrow> sel_of s p; sel_key x }
   | T_IPADDR4 \<Rightarrow> map_option (\<lambda>x. map uint (bytes_of 4 x)) (DM_IP4 v)
   | T_IPADDR6 \<Rightarrow> map_option (\<lambda>x. map uint (bytes_of 16 x)) (DM_IP6 v)
   | _ \<Rightarrow> None)"

lemma cmp3_unat: "cmp3 (unat x) (unat y) = lcmp [uint x] [uint y]" for x y :: "'a::len word"
proof -
  have lt: "unat x < unat y \<longleftrightarrow> uint x < uint y" "unat y < unat x \<longleftrightarrow> uint y < uint x"
    by (simp_all only: word_less_def [symmetric] word_less_nat_alt [symmetric])
  show ?thesis unfolding cmp3_def lt by simp
qed

lemma cmp3_int: "cmp3 x y = lcmp [x] [y]" for x :: int
  by (simp add: cmp3_def)

lemma strcmp_lcmp: "strcmp x y = lcmp (map uint x) (map uint y)"
  by (induction x y rule: strcmp.induct) (auto simp: word_less_def)

lemma ptr_cmp_strcmp: "ptr_cmp strcmp x y = lcmp (str_key x) (str_key y)"
  by (auto simp: ptr_cmp_def str_key_def strcmp_lcmp split: option.split)

lemma memcmp_lcmp: "length x = length y \<Longrightarrow> memcmp x y = lcmp (map uint x) (map uint y)"
  by (induction x y rule: list_induct2) (auto simp: word_less_def)

lemma path_cmp_lcmp: "path_cmp x y = lcmp (map uint x) (map uint y)"
  by (induction x y rule: path_cmp.induct) (auto simp: word_less_def)

lemma sint_enum: "(if sint x > sint y then 1 else if x - y \<noteq> 0 then -1 else 0) = lcmp [sint x] [sint y]"
  for x y :: "'a::len word"
  using signed_word_eqI [of x y] by auto

lemma dm_compare_values_key:
  assumes "vkey s ty a = Some ka" "vkey s ty b = Some kb"
  shows "dm_compare_values s ty a b = Some (lcmp ka kb)"
  using assms
  by (cases ty)
    (auto simp: vkey_def cmp3_unat cmp3_int ptr_cmp_strcmp sint_enum memcmp_lcmp bytes_of_def
      sel_key_def dm_selcmp_path path_cmp_lcmp split: option.splits if_splits Option.bind_split_asm)

section \<open>Rows\<close>

definition row_key :: "dmst \<Rightarrow> idx_entry \<Rightarrow> addr \<Rightarrow> int list option" where
  "row_key s d a =
     (if ix_type d = T_INSTANCE then do { n \<leftarrow> nodes s a; Some [uint (in_instance n)] }
      else do { v \<leftarrow> row_value s a (ix_element d); vkey s (ix_type d) v })"

definition row_ok :: "dmst \<Rightarrow> index_definition \<Rightarrow> nat \<Rightarrow> addr \<Rightarrow> bool" where
  "row_ok s def idx a \<longleftrightarrow> idx < length def \<and> row_key s (def ! idx) a \<noteq> None"

lemma INTCMP_lcmp: "INTCMP x y = lcmp [x] [y]"
  by (simp add: INTCMP_def)

lemma cmp_entry_key:
  assumes "row_ok s def idx a" "row_ok s def idx b"
  shows "cmp_entry s def idx a b = Some (lcmp (the (row_key s (def ! idx) a)) (the (row_key s (def ! idx) b)))"
  using assms
  by (cases "ix_type (def ! idx) = T_INSTANCE")
    (auto simp: row_ok_def row_key_def cmp_entry_def INTCMP_lcmp dm_compare_values_key split: Option.bind_split_asm)

interpretation rows: ordered_index "row_ok s def idx" "cmp_entry s def idx" for s def idx
  unfolding ordered_index_def by (rule three_way_key) (rule cmp_entry_key)

lemma rows_eqv: "row_ok s def idx a \<Longrightarrow> row_ok s def idx b \<Longrightarrow>
    rows.eqv s def idx a b \<longleftrightarrow> row_key s (def ! idx) a = row_key s (def ! idx) b"
  by (auto simp: rows.eqv_def cmp_entry_key) (auto simp: row_ok_def)

text \<open>The comparisons read the objects and not the index.\<close>

lemma getv_index [simp]: "getv (s\<lparr>idxmem := x\<rparr>) r = getv s r" "getv (s\<lparr>trees := y\<rparr>) r = getv s r"
  by (cases r; simp)+

lemma blob_index [simp]:
  "str_of (s\<lparr>idxmem := x\<rparr>) p = str_of s p" "str_of (s\<lparr>trees := y\<rparr>) p = str_of s p"
  "bin_of (s\<lparr>idxmem := x\<rparr>) p = bin_of s p" "bin_of (s\<lparr>trees := y\<rparr>) p = bin_of s p"
  "sel_of (s\<lparr>idxmem := x\<rparr>) p = sel_of s p" "sel_of (s\<lparr>trees := y\<rparr>) p = sel_of s p"
  "node (s\<lparr>idxmem := x\<rparr>) p = node s p" "node (s\<lparr>trees := y\<rparr>) p = node s p"
  by (simp_all add: str_of_def bin_of_def sel_of_def node_def cong: option.case_cong)

lemma dm_compare_values_index [simp]:
  "dm_compare_values (s\<lparr>idxmem := x\<rparr>) ty = dm_compare_values s ty"
  "dm_compare_values (s\<lparr>trees := y\<rparr>) ty = dm_compare_values s ty"
  by (intro ext, cases ty, simp_all)+

lemma row_value_index [simp]:
  "row_value (s\<lparr>idxmem := x\<rparr>) = row_value s" "row_value (s\<lparr>trees := y\<rparr>) = row_value s"
  by (auto simp: row_value_def fun_eq_iff)

lemma cmp_entry_index [simp]:
  "cmp_entry (s\<lparr>idxmem := x\<rparr>) = cmp_entry s" "cmp_entry (s\<lparr>trees := y\<rparr>) = cmp_entry s"
  by (auto simp: cmp_entry_def fun_eq_iff cong: if_cong)

lemma vkey_index [simp]: "vkey (s\<lparr>idxmem := x\<rparr>) = vkey s" "vkey (s\<lparr>trees := y\<rparr>) = vkey s"
  by (auto simp: vkey_def fun_eq_iff split: dm_type.split)

lemma row_key_index [simp]: "row_key (s\<lparr>idxmem := x\<rparr>) = row_key s" "row_key (s\<lparr>trees := y\<rparr>) = row_key s"
  by (auto simp: row_key_def fun_eq_iff cong: if_cong)

lemma row_ok_index [simp]: "row_ok (s\<lparr>idxmem := x\<rparr>) = row_ok s" "row_ok (s\<lparr>trees := y\<rparr>) = row_ok s"
  by (auto simp: row_ok_def fun_eq_iff)

end
