(* ===== verification/Dm_Index_Spec.thy ===== *)
theory Dm_Index_Spec
  imports Dm_Index_Order
begin

text \<open>
  What the operations on instance trees do to the set of rows of an object. The invariant
  \<open>inst_inv\<close> says that every index is an ordered red-black tree over rows of the object, that
  the first index, unique over the instance numbers, holds all of them, and that the rows
  know their tree. Seen from outside the object is the map from instance numbers to rows
  (\<open>row_map\<close>): \<open>insert_instance\<close> adds to it, \<open>remove_instance\<close> takes away, and
  \<open>find_instance\<close> looks up.
\<close>

section \<open>One index\<close>

definition index_at :: "dmst \<Rightarrow> instance_tree \<Rightarrow> nat \<Rightarrow> rbt \<Rightarrow> bool" where
  "index_at s t i r \<longleftrightarrow> rows.index_inv s (it_def t) i \<lparr>rbh = idxmem s i, rbroot = it_root t ! i\<rparr> r"

definition live_row :: "dmst \<Rightarrow> addr \<Rightarrow> addr \<Rightarrow> bool" where
  "live_row s ta a \<longleftrightarrow> (\<exists>n. nodes s a = Some n \<and> in_root n = Some ta \<and> in_indexed n)"

definition put_idx :: "dmst \<Rightarrow> addr \<Rightarrow> instance_tree \<Rightarrow> nat \<Rightarrow> rbmem \<Rightarrow> dmst" where
  "put_idx s ta t i m = s\<lparr>idxmem := (idxmem s)(i := rbh m),
     trees := (trees s)(ta \<mapsto> t\<lparr>it_root := (it_root t)[i := rbroot m]\<rparr>)\<rparr>"

lemma live_row_magic: "live_row s ta a \<Longrightarrow> assert_index_magic s a True = Some ()"
  by (auto simp: live_row_def assert_index_magic_def)

lemma rb_of_Some: "trees s ta = Some t \<Longrightarrow> i < length (it_root t) \<Longrightarrow>
    rb_of s ta i = Some \<lparr>rbh = idxmem s i, rbroot = it_root t ! i\<rparr>"
  by (simp add: rb_of_def)

lemma rb_put_Some: "trees s ta = Some t \<Longrightarrow> i < length (it_root t) \<Longrightarrow> rb_put s ta i m = Some (put_idx s ta t i m)"
  by (simp add: rb_put_def put_idx_def)

lemma index_inv_put:
  "rows.index_inv (put_idx s ta t i m) = rows.index_inv s"
  by (intro ext) (simp add: put_idx_def rows.index_inv_def rows.ordered_def rows.eqv_def rows.lt_def)

lemma index_at_put:
  assumes "i < length (it_root t)" "rows.index_inv s (it_def t) i m r"
  shows "index_at (put_idx s ta t i m) (t\<lparr>it_root := (it_root t)[i := rbroot m]\<rparr>) i r"
  using assms by (cases m) (simp add: index_at_def index_inv_put, simp add: put_idx_def)

lemma index_rows:
  assumes "index_at s t i r" "a \<in> set (addrs r)"
  shows "row_ok s (it_def t) i a"
  using assms by (auto simp: index_at_def rows.index_inv_def rows.ordered_def addrs_groups)

lemma inserted_addrs: "inserted c e (groups r) (groups r') res \<Longrightarrow> set (addrs r') = insert e (set (addrs r))"
  by (auto simp: inserted_def addrs_groups)

lemma index_key_head:
  assumes "index_at s t i r" "row_ok s (it_def t) i e"
  shows "(\<forall>a \<in> set (heads r). \<not> rows.eqv s (it_def t) i e a) \<longleftrightarrow>
    (\<forall>a \<in> set (addrs r). row_key s (it_def t ! i) a \<noteq> row_key s (it_def t ! i) e)"
proof -
  have ord: "rows.ordered s (it_def t) i (groups r)" using assms by (simp add: index_at_def rows.index_inv_def)
  have g: "row_key s (it_def t ! i) (hd g) = row_key s (it_def t ! i) x" "hd g \<in> set g"
    if "g \<in> set (groups r)" "x \<in> set g" for g x
  proof -
    from ord that have "row_ok s (it_def t) i x" "row_ok s (it_def t) i (hd g)" "rows.eqv s (it_def t) i (hd g) x"
      "g \<noteq> []" by (auto simp: rows.ordered_def)
    then show "row_key s (it_def t ! i) (hd g) = row_key s (it_def t ! i) x" "hd g \<in> set g" by (simp_all add: rows_eqv)
  qed
  have h: "rows.eqv s (it_def t) i e a \<longleftrightarrow> row_key s (it_def t ! i) a = row_key s (it_def t ! i) e"
    if "a \<in> set (heads r)" for a
    using rows_eqv [OF assms(2), of a] rows.heads_D [OF ord that] by auto
  have "rows.eqv s (it_def t) i e (hd g) \<longleftrightarrow> row_key s (it_def t ! i) x = row_key s (it_def t ! i) e"
    if "g \<in> set (groups r)" "x \<in> set g" for g x
    using g [OF that] h [of "hd g"] that(1) by (simp add: heads_def)
  moreover have "\<exists>x. x \<in> set g" if "g \<in> set (groups r)" for g
    using groups_nonempty [of r] that by (cases g) auto
  ultimately show ?thesis unfolding addrs_groups heads_def by simp blast
qed

lemma idx_INSERT_spec:
  assumes t: "trees s ta = Some t" "i < length (it_root t)" and r: "index_at s t i r"
    and e: "e \<notin> set (addrs r)" "idxmem s i e = Some zero_node" "row_ok s (it_def t) i e"
    and live: "\<And>a. a \<in> set (addrs r) \<Longrightarrow> live_row s ta a"
  obtains m' r' dup where "idx_INSERT ta i e s = Some (dup, put_idx s ta t i m')"
    "index_at (put_idx s ta t i m') (t\<lparr>it_root := (it_root t)[i := rbroot m']\<rparr>) i r'"
    "set (addrs r') = insert e (set (addrs r))" "rows.index_inv s (it_def t) i m' r'"
    "inserted (rows.sgn_cmp s (it_def t) i e) e (groups r) (groups r') dup"
    "unchanged (insert e (set (addrs r))) \<lparr>rbh = idxmem s i, rbroot = it_root t ! i\<rparr> m'"
    "dup = None \<longleftrightarrow> (\<forall>a \<in> set (addrs r). row_key s (it_def t ! i) a \<noteq> row_key s (it_def t ! i) e)"
proof -
  let ?m = "\<lparr>rbh = idxmem s i, rbroot = it_root t ! i\<rparr>"
  let ?c = "\<lambda>tmp. do { assert_index_magic s tmp True; cmp_entry s (it_def t) i e tmp }"
  have inv: "rows.index_inv s (it_def t) i ?m r" using r by (simp add: index_at_def)
  have key: "?c a = cmp_entry s (it_def t) i e a" if "a \<in> set (heads r)" for a
  proof -
    have "a \<in> set (addrs r)" using that by (auto simp: heads_def addrs_groups) (metis groups_nonempty hd_in_set)
    then show ?thesis using live_row_magic [OF live] by simp
  qed
  obtain m' dup r' where ins: "INSERT ?c ?m (Some e) = Some (m', dup)" "rows.index_inv s (it_def t) i m' r'"
    "inserted (rows.sgn_cmp s (it_def t) i e) e (groups r) (groups r') dup" "unchanged (insert e (set (addrs r))) ?m m'"
    "dup = None \<longleftrightarrow> (\<forall>a \<in> set (heads r). \<not> rows.eqv s (it_def t) i e a)"
    by (rule rows.index_insert [OF inv e(3,1) _ key]) (use e(2) in simp_all)
  have "idx_INSERT ta i e s = Some (dup, put_idx s ta t i m')"
    using t ins(1) by (simp add: idx_INSERT_def rb_of_Some rb_put_Some)
  then show thesis
    by (rule that) (use ins t index_at_put [OF t(2) ins(2)] inserted_addrs index_key_head [OF r e(3)] in \<open>simp_all\<close>)
qed

text \<open>Removing a row that is not in the index, as the duplicates of a unique index are not.\<close>

lemma REMOVE_absent: "rbh m e = Some zero_node \<Longrightarrow> REMOVE m (Some e) = Some m"
  by (simp add: REMOVE_def unlink_def access_defs zero_node_def fun_upd_idem)

lemma set_remove_row: "set (concat (remove_row e gs)) = set (concat gs) - {e}"
  by (induction gs) (auto simp: remove_row_def filter_empty_conv)

lemma idx_REMOVE_spec:
  assumes t: "trees s ta = Some t" "i < length (it_root t)" and r: "index_at s t i r"
    and e: "e \<in> set (addrs r) \<or> idxmem s i e = Some zero_node" "assert_index_magic s e True = Some ()"
  obtains m' r' where "idx_REMOVE ta i e s = Some (put_idx s ta t i m')"
    "index_at (put_idx s ta t i m') (t\<lparr>it_root := (it_root t)[i := rbroot m']\<rparr>) i r'"
    "set (addrs r') = set (addrs r) - {e}" "rbh m' e = Some zero_node"
    "unchanged (set (addrs r)) \<lparr>rbh = idxmem s i, rbroot = it_root t ! i\<rparr> m'"
    "groups r' = (if e \<in> set (addrs r) then remove_row e (groups r) else groups r)"
proof -
  let ?m = "\<lparr>rbh = idxmem s i, rbroot = it_root t ! i\<rparr>"
  have inv: "rows.index_inv s (it_def t) i ?m r" using r by (simp add: index_at_def)
  show thesis
  proof (cases "e \<in> set (addrs r)")
    case True
    obtain m' r' where rm: "REMOVE ?m (Some e) = Some m'" "rows.index_inv s (it_def t) i m' r'"
      "groups r' = remove_row e (groups r)" "rbh m' e = Some zero_node" "unchanged (set (addrs r)) ?m m'"
      by (rule rows.index_remove [OF inv True])
    have call: "idx_REMOVE ta i e s = Some (put_idx s ta t i m')"
      using t rm(1) e(2) by (simp add: idx_REMOVE_def rb_of_Some rb_put_Some)
    have st: "set (addrs r') = set (addrs r) - {e}"
      unfolding addrs_groups rm(3) by (rule set_remove_row)
    show thesis
      by (rule that [of m' r']) (use call st rm t index_at_put [OF t(2) rm(2)] True in simp_all)
  next
    case False
    then have z: "idxmem s i e = Some zero_node" using e(1) by simp
    then have "idx_REMOVE ta i e s = Some (put_idx s ta t i ?m)"
      using t e(2) REMOVE_absent [of ?m e] by (simp add: idx_REMOVE_def rb_of_Some rb_put_Some)
    then show thesis
      by (rule that [of ?m r]) (use z t index_at_put [OF t(2) inv] False in simp_all)
  qed
qed

section \<open>All indexes\<close>

text \<open>States that differ from \<open>s\<close> only in the indexes of the tree at \<open>ta\<close>.\<close>

definition with_idx :: "dmst \<Rightarrow> addr \<Rightarrow> instance_tree \<Rightarrow> (nat \<Rightarrow> addr \<Rightarrow> rbnode option) \<Rightarrow> ptr list \<Rightarrow> dmst" where
  "with_idx s ta t X rr = s\<lparr>idxmem := X, trees := (trees s)(ta \<mapsto> t\<lparr>it_root := rr\<rparr>)\<rparr>"

lemma with_idx_sel [simp]:
  "trees (with_idx s ta t X rr) ta = Some (t\<lparr>it_root := rr\<rparr>)" "idxmem (with_idx s ta t X rr) = X"
  "nodes (with_idx s ta t X rr) = nodes s" "row_ok (with_idx s ta t X rr) = row_ok s"
  "row_key (with_idx s ta t X rr) = row_key s" "rows.index_inv (with_idx s ta t X rr) = rows.index_inv s"
  "cmp_entry (with_idx s ta t X rr) = cmp_entry s"
  "live_row (with_idx s ta t X rr) = live_row s" "assert_index_magic (with_idx s ta t X rr) = assert_index_magic s"
  by (auto simp: with_idx_def live_row_def assert_index_magic_def rows.index_inv_def
      rows.ordered_def rows.eqv_def rows.lt_def fun_eq_iff)

lemma put_with_idx:
  "put_idx (with_idx s ta t X rr) ta (t\<lparr>it_root := rr\<rparr>) i m = with_idx s ta t (X(i := rbh m)) (rr[i := rbroot m])"
  by (simp add: put_idx_def with_idx_def)

lemma with_idx_start: "trees s ta = Some t \<Longrightarrow> with_idx s ta t (idxmem s) (it_root t) = s"
  by (simp add: with_idx_def fun_upd_idem)

definition duplicate :: "dmst \<Rightarrow> idx_entry \<Rightarrow> addr set \<Rightarrow> addr \<Rightarrow> bool" where
  "duplicate s d A e \<longleftrightarrow> has (ix_flags d) IDX_UNIQUE \<and> (\<exists>a \<in> A. row_key s d a = row_key s d e)"

lemma insert_into_index_spec:
  assumes i: "i < length (it_def t)" "length rr = length (it_def t)"
    and r: "rows.index_inv s (it_def t) i \<lparr>rbh = X i, rbroot = rr ! i\<rparr> r"
    and e: "e \<notin> set (addrs r)" "X i e = Some zero_node" "row_ok s (it_def t) i e" "live_row s ta e"
    and live: "\<And>a. a \<in> set (addrs r) \<Longrightarrow> live_row s ta a"
  shows "\<exists>m' r'. insert_into_index ta e i (with_idx s ta t X rr) = Some (with_idx s ta t (X(i := rbh m')) (rr[i := rbroot m'])) \<and>
    rows.index_inv s (it_def t) i m' r' \<and>
    set (addrs r') = (if duplicate s (it_def t ! i) (set (addrs r)) e then set (addrs r) else insert e (set (addrs r))) \<and>
    (e \<notin> set (addrs r') \<longrightarrow> rbh m' e = Some zero_node) \<and>
    (\<forall>a. a \<notin> insert e (set (addrs r)) \<longrightarrow> rbh m' a = X i a)"
proof -
  let ?s = "with_idx s ta t X rr" and ?t = "t\<lparr>it_root := rr\<rparr>" and ?d = "it_def t ! i"
  have at: "index_at ?s ?t i r" using r by (simp add: index_at_def)
  obtain m1 r1 dup where 1: "idx_INSERT ta i e ?s = Some (dup, put_idx ?s ta ?t i m1)"
    "index_at (put_idx ?s ta ?t i m1) (?t\<lparr>it_root := (it_root ?t)[i := rbroot m1]\<rparr>) i r1"
    "set (addrs r1) = insert e (set (addrs r))" "rows.index_inv ?s (it_def ?t) i m1 r1"
    "unchanged (insert e (set (addrs r))) \<lparr>rbh = idxmem ?s i, rbroot = it_root ?t ! i\<rparr> m1"
    "dup = None \<longleftrightarrow> (\<forall>a \<in> set (addrs r). row_key ?s (it_def ?t ! i) a \<noteq> row_key ?s (it_def ?t ! i) e)"
    by (rule idx_INSERT_spec [of ?s ta ?t i r e]) (use i at e live in simp_all)
  let ?X1 = "X(i := rbh m1)" and ?rr1 = "rr[i := rbroot m1]"
  have s1: "put_idx ?s ta ?t i m1 = with_idx s ta t ?X1 ?rr1" by (rule put_with_idx)
  have un: "dup \<noteq> None \<and> has (ix_flags ?d) IDX_UNIQUE \<longleftrightarrow> duplicate s ?d (set (addrs r)) e"
    using 1(6) by (auto simp: duplicate_def)
  show ?thesis
  proof (cases "duplicate s ?d (set (addrs r)) e")
    case False
    then have "insert_into_index ta e i ?s = Some (with_idx s ta t ?X1 ?rr1)"
      using 1(1) s1 un i by (auto simp: insert_into_index_def)
    with 1 False show ?thesis by (intro exI [of _ m1] exI [of _ r1]) (auto simp: unchanged_def)
  next
    case True
    let ?t1 = "t\<lparr>it_root := ?rr1\<rparr>" and ?s1 = "with_idx s ta t ?X1 ?rr1"
    have at1: "index_at ?s1 ?t1 i r1" using 1(4) i by (cases m1) (simp add: index_at_def)
    obtain m2 r2 where 2: "idx_REMOVE ta i e ?s1 = Some (put_idx ?s1 ta ?t1 i m2)"
      "index_at (put_idx ?s1 ta ?t1 i m2) (?t1\<lparr>it_root := (it_root ?t1)[i := rbroot m2]\<rparr>) i r2"
      "set (addrs r2) = set (addrs r1) - {e}" "rbh m2 e = Some zero_node"
      "unchanged (set (addrs r1)) \<lparr>rbh = idxmem ?s1 i, rbroot = it_root ?t1 ! i\<rparr> m2"
      by (rule idx_REMOVE_spec [of ?s1 ta ?t1 i r1 e]) (use i at1 1(3) live_row_magic [OF e(4)] in simp_all)
    have s2: "put_idx ?s1 ta ?t1 i m2 = with_idx s ta t (X(i := rbh m2)) (rr[i := rbroot m2])"
      by (simp add: put_with_idx)
    have "insert_into_index ta e i ?s = Some (with_idx s ta t (X(i := rbh m2)) (rr[i := rbroot m2]))"
      using 1(1) 2(1) s1 s2 un True i by (auto simp: insert_into_index_def)
    moreover have "rows.index_inv s (it_def t) i m2 r2"
      using 2(2) i unfolding s2 by (cases m2) (simp add: index_at_def)
    ultimately show ?thesis using 1 2 True e(1)
      by (intro exI [of _ m2] exI [of _ r2]) (auto simp: unchanged_def)
  qed
qed

lemma insert_all_indexes:
  assumes len: "length (it_root t) = length (it_def t)" and t: "trees s ta = Some t"
    and r: "\<And>i. i < length (it_def t) \<Longrightarrow> index_at s t i (rs i) \<and> e \<notin> set (addrs (rs i)) \<and>
        idxmem s i e = Some zero_node \<and> row_ok s (it_def t) i e \<and> (\<forall>a \<in> set (addrs (rs i)). live_row s ta a)"
    and live: "live_row s ta e" and k: "k \<le> length (it_def t)"
  shows "\<exists>X rr rs'. ofold (insert_into_index ta e) [0..<k] s = Some (with_idx s ta t X rr) \<and>
    length rr = length (it_def t) \<and> (\<forall>i \<ge> k. X i = idxmem s i \<and> rr ! i = it_root t ! i) \<and>
    (\<forall>i < k. rows.index_inv s (it_def t) i \<lparr>rbh = X i, rbroot = rr ! i\<rparr> (rs' i) \<and>
      set (addrs (rs' i)) = (if duplicate s (it_def t ! i) (set (addrs (rs i))) e then set (addrs (rs i))
                             else insert e (set (addrs (rs i)))) \<and>
      (e \<notin> set (addrs (rs' i)) \<longrightarrow> X i e = Some zero_node) \<and>
      (\<forall>a. a \<notin> insert e (set (addrs (rs i))) \<longrightarrow> X i a = idxmem s i a))"
  using k
proof (induction k)
  case 0
  show ?case using len t by (intro exI [of _ "idxmem s"] exI [of _ "it_root t"] exI [of _ rs]) (simp add: with_idx_start)
next
  case (Suc k)
  then obtain X rr rs' where IH: "ofold (insert_into_index ta e) [0..<k] s = Some (with_idx s ta t X rr)"
    "length rr = length (it_def t)" "\<And>i. i \<ge> k \<Longrightarrow> X i = idxmem s i \<and> rr ! i = it_root t ! i"
    "\<And>i. i < k \<Longrightarrow> rows.index_inv s (it_def t) i \<lparr>rbh = X i, rbroot = rr ! i\<rparr> (rs' i) \<and>
      set (addrs (rs' i)) = (if duplicate s (it_def t ! i) (set (addrs (rs i))) e then set (addrs (rs i))
                             else insert e (set (addrs (rs i)))) \<and>
      (e \<notin> set (addrs (rs' i)) \<longrightarrow> X i e = Some zero_node) \<and>
      (\<forall>a. a \<notin> insert e (set (addrs (rs i))) \<longrightarrow> X i a = idxmem s i a)"
    by (metis Suc_leD)
  have kl: "k < length (it_def t)" using Suc.prems by simp
  have Xk: "X k = idxmem s k" "rr ! k = it_root t ! k" using IH(3) [of k] by simp_all
  have "rows.index_inv s (it_def t) k \<lparr>rbh = X k, rbroot = rr ! k\<rparr> (rs k)"
    using r [OF kl] Xk by (simp add: index_at_def)
  from insert_into_index_spec [where X = X and rr = rr and t = t and s = s and ta = ta and e = e and i = k, OF kl IH(2) this]
    r [OF kl] live Xk
  obtain m' r' where st: "insert_into_index ta e k (with_idx s ta t X rr) = Some (with_idx s ta t (X(k := rbh m')) (rr[k := rbroot m']))"
    "rows.index_inv s (it_def t) k m' r'"
    "set (addrs r') = (if duplicate s (it_def t ! k) (set (addrs (rs k))) e then set (addrs (rs k)) else insert e (set (addrs (rs k))))"
    "e \<notin> set (addrs r') \<longrightarrow> rbh m' e = Some zero_node" "\<forall>a. a \<notin> insert e (set (addrs (rs k))) \<longrightarrow> rbh m' a = X k a"
    by metis
  show ?case
  proof (intro exI conjI allI impI)
    show "ofold (insert_into_index ta e) [0..<Suc k] s = Some (with_idx s ta t (X(k := rbh m')) (rr[k := rbroot m']))"
      using IH(1) st(1) by (simp add: ofold_append)
    fix i assume "i < Suc k"
    then show "rows.index_inv s (it_def t) i \<lparr>rbh = (X(k := rbh m')) i, rbroot = rr[k := rbroot m'] ! i\<rparr> ((rs'(k := r')) i)"
      using IH(2) IH(4) [of i] st(2) kl by (cases "i = k"; cases m') simp_all
  qed (use IH st Xk kl in \<open>auto simp: less_Suc_eq\<close>)
qed


lemma remove_from_index_spec:
  assumes i: "i < length (it_def t)" "length rr = length (it_def t)"
    and r: "rows.index_inv s (it_def t) i \<lparr>rbh = X i, rbroot = rr ! i\<rparr> r"
    and e: "e \<in> set (addrs r) \<or> X i e = Some zero_node" "live_row s ta e"
  shows "\<exists>m' r'. idx_REMOVE ta i e (with_idx s ta t X rr) = Some (with_idx s ta t (X(i := rbh m')) (rr[i := rbroot m'])) \<and>
    rows.index_inv s (it_def t) i m' r' \<and> set (addrs r') = set (addrs r) - {e} \<and> rbh m' e = Some zero_node \<and>
    (\<forall>a. a \<notin> set (addrs r) \<longrightarrow> rbh m' a = X i a)"
proof -
  let ?s = "with_idx s ta t X rr" and ?t = "t\<lparr>it_root := rr\<rparr>"
  have at: "index_at ?s ?t i r" using r by (simp add: index_at_def)
  obtain m' r' where 1: "idx_REMOVE ta i e ?s = Some (put_idx ?s ta ?t i m')"
    "index_at (put_idx ?s ta ?t i m') (?t\<lparr>it_root := (it_root ?t)[i := rbroot m']\<rparr>) i r'"
    "set (addrs r') = set (addrs r) - {e}" "rbh m' e = Some zero_node"
    "unchanged (set (addrs r)) \<lparr>rbh = idxmem ?s i, rbroot = it_root ?t ! i\<rparr> m'"
    by (rule idx_REMOVE_spec [of ?s ta ?t i r e]) (use i at e live_row_magic [OF e(2)] in simp_all)
  have "rows.index_inv s (it_def t) i m' r'"
    using 1(2) i unfolding put_with_idx by (cases m') (simp add: index_at_def)
  with 1 show ?thesis by (intro exI [of _ m'] exI [of _ r']) (auto simp: unchanged_def put_with_idx)
qed

lemma remove_all_indexes:
  assumes len: "length (it_root t) = length (it_def t)" and t: "trees s ta = Some t"
    and r: "\<And>i. i < length (it_def t) \<Longrightarrow> index_at s t i (rs i) \<and> (e \<in> set (addrs (rs i)) \<or> idxmem s i e = Some zero_node)"
    and live: "live_row s ta e" and k: "k \<le> length (it_def t)"
  shows "\<exists>X rr rs'. ofold (\<lambda>i. idx_REMOVE ta i e) [0..<k] s = Some (with_idx s ta t X rr) \<and>
    length rr = length (it_def t) \<and> (\<forall>i \<ge> k. X i = idxmem s i \<and> rr ! i = it_root t ! i) \<and>
    (\<forall>i < k. rows.index_inv s (it_def t) i \<lparr>rbh = X i, rbroot = rr ! i\<rparr> (rs' i) \<and>
      set (addrs (rs' i)) = set (addrs (rs i)) - {e} \<and> X i e = Some zero_node \<and>
      (\<forall>a. a \<notin> set (addrs (rs i)) \<longrightarrow> X i a = idxmem s i a))"
  using k
proof (induction k)
  case 0
  show ?case using len t by (intro exI [of _ "idxmem s"] exI [of _ "it_root t"] exI [of _ rs]) (simp add: with_idx_start)
next
  case (Suc k)
  then obtain X rr rs' where IH: "ofold (\<lambda>i. idx_REMOVE ta i e) [0..<k] s = Some (with_idx s ta t X rr)"
    "length rr = length (it_def t)" "\<And>i. i \<ge> k \<Longrightarrow> X i = idxmem s i \<and> rr ! i = it_root t ! i"
    "\<And>i. i < k \<Longrightarrow> rows.index_inv s (it_def t) i \<lparr>rbh = X i, rbroot = rr ! i\<rparr> (rs' i) \<and>
      set (addrs (rs' i)) = set (addrs (rs i)) - {e} \<and> X i e = Some zero_node \<and>
      (\<forall>a. a \<notin> set (addrs (rs i)) \<longrightarrow> X i a = idxmem s i a)"
    by (metis Suc_leD)
  have kl: "k < length (it_def t)" using Suc.prems by simp
  have Xk: "X k = idxmem s k" "rr ! k = it_root t ! k" using IH(3) [of k] by simp_all
  have "rows.index_inv s (it_def t) k \<lparr>rbh = X k, rbroot = rr ! k\<rparr> (rs k)"
    using r [OF kl] Xk by (simp add: index_at_def)
  from remove_from_index_spec [where X = X and rr = rr and t = t and s = s and ta = ta and e = e and i = k, OF kl IH(2) this]
    r [OF kl] live Xk
  obtain m' r' where st: "idx_REMOVE ta k e (with_idx s ta t X rr) = Some (with_idx s ta t (X(k := rbh m')) (rr[k := rbroot m']))"
    "rows.index_inv s (it_def t) k m' r'" "set (addrs r') = set (addrs (rs k)) - {e}"
    "rbh m' e = Some zero_node" "\<forall>a. a \<notin> set (addrs (rs k)) \<longrightarrow> rbh m' a = X k a"
    by metis
  show ?case
  proof (intro exI conjI allI impI)
    show "ofold (\<lambda>i. idx_REMOVE ta i e) [0..<Suc k] s = Some (with_idx s ta t (X(k := rbh m')) (rr[k := rbroot m']))"
      using IH(1) st(1) by (simp add: ofold_append)
    fix i assume "i < Suc k"
    then show "rows.index_inv s (it_def t) i \<lparr>rbh = (X(k := rbh m')) i, rbroot = rr[k := rbroot m'] ! i\<rparr> ((rs'(k := r')) i)"
      using IH(2) IH(4) [of i] st(2) kl by (cases "i = k"; cases m') simp_all
  qed (use IH st Xk kl in \<open>auto simp: less_Suc_eq\<close>)
qed

section \<open>Frame\<close>

text \<open>An index depends on the keys of its rows only.\<close>

lemma rows_lt: "row_ok s def idx a \<Longrightarrow> row_ok s def idx b \<Longrightarrow>
    rows.lt s def idx a b \<longleftrightarrow> lcmp (the (row_key s (def ! idx) a)) (the (row_key s (def ! idx) b)) < 0"
  by (simp add: rows.lt_def cmp_entry_key)

lemma index_inv_frame:
  assumes "rows.index_inv s def i m r"
    and key: "\<And>a. a \<in> set (addrs r) \<Longrightarrow> row_key s' (def ! i) a = row_key s (def ! i) a"
  shows "rows.index_inv s' def i m r"
proof -
  have ord: "rows.ordered s def i (groups r)" and rest: "repr m r" "rb_tree r"
    using assms(1) by (simp_all add: rows.index_inv_def)
  have ok: "row_ok s def i a" "row_ok s' def i a" if "a \<in> set (addrs r)" for a
    using that ord key [OF that] by (auto simp: rows.ordered_def addrs_groups row_ok_def)
  have mem: "a \<in> set (addrs r)" if "g \<in> set (groups r)" "a \<in> set g" for g a
    using that by (auto simp: addrs_groups)
  have eqv: "rows.eqv s' def i a b = rows.eqv s def i a b" "rows.lt s' def i a b = rows.lt s def i a b"
    if "a \<in> set (addrs r)" "b \<in> set (addrs r)" for a b
    using that ok key by (simp_all add: rows_eqv rows_lt)
  have hd: "hd g \<in> set (addrs r)" if "g \<in> set (groups r)" for g
    using mem [OF that] groups_nonempty [of r] that by (metis hd_in_set)
  have "sorted_wrt (rows.lt s def i) (map hd (groups r))" using ord by (simp add: rows.ordered_def)
  then have "sorted_wrt (rows.lt s' def i) (map hd (groups r))"
    by (rule sorted_wrt_mono_rel [rotated]) (use eqv(2) hd in auto)
  then have "rows.ordered s' def i (groups r)"
    using ord ok(2) mem eqv(1) hd by (auto simp: rows.ordered_def)
  then show ?thesis using rest by (simp add: rows.index_inv_def)
qed

end
