(* ===== verification/Dm_Notify_Frame.thy ===== *)
theory Dm_Notify_Frame
  imports Dm_Notify
begin

text \<open>
  What the rest of the store may rely on when it announces a change: \<open>notify\<close> never faults
  on well-formed queues, memory or not, and it touches nothing but the queues, the pending flag
  and the allocator.
\<close>

definition notified :: "dmst \<Rightarrow> dmst \<Rightarrow> bool" where
  "notified s s' \<longleftrightarrow> slots_inv s' \<and> st_brk s \<le> st_brk s' \<and>
     s' = s\<lparr>slots := slots s', notify_pending := notify_pending s', st_brk := st_brk s'\<rparr>"

lemma notified_sel:
  assumes "notified s s'"
  shows "slots_inv s'" "st_oom s' = st_oom s" "dm_mem s' = dm_mem s" "blobs s' = blobs s" "tables s' = tables s"
    "trees s' = trees s" "nodes s' = nodes s" "idxmem s' = idxmem s" "dm_value_store s' = dm_value_store s"
    "slot_map s' = slot_map s" "slot_cnt s' = slot_cnt s" "exec_chain s' = exec_chain s" "cache s' = cache s"
    "st_brk s \<le> st_brk s'"
  using assms by (cases s, cases s', simp add: notified_def)+

lemma notified_refl: "slots_inv s \<Longrightarrow> notified s s"
  by (simp add: notified_def)

lemma notified_trans: "notified s s' \<Longrightarrow> notified s' s'' \<Longrightarrow> notified s s''"
  by (cases s, cases s', cases s'') (simp add: notified_def)

lemma slots_inv_set:
  assumes "slots_inv s" "i < SLOTS" "notify_order.queue_inv q"
  shows "slots_inv (s\<lparr>slots := (slots s)[i := (slots s ! i)\<lparr>sl_queue := q\<rparr>]\<rparr>)"
  using assms set_update_subset_insert [of "slots s" i "(slots s ! i)\<lparr>sl_queue := q\<rparr>"]
  by (auto simp: slots_inv_def)

lemma notify_slot_total:
  assumes s: "slots_inv s" and sel: "is_selector sel" and i: "i < SLOTS"
  shows "\<exists>n s'. notify_slot slot sel value type i (ntfy, s) = Some (n, s') \<and> notified s s'"
proof (cases "int i \<noteq> slot \<and> ntfy AND 3 \<noteq> 0")
  case False
  then show ?thesis using s by (auto simp: notify_slot_def Let_def intro: notified_refl)
next
  case True
  let ?sl = "slots s ! i"
  have il: "i < length (slots s)" using s i by (simp add: slots_inv_def)
  then have q: "notify_order.queue_inv (sl_queue ?sl)" using s by (simp add: slots_inv_def)
  have inv: "slots_inv (s\<lparr>slots := (slots s)[i := ?sl\<lparr>sl_queue := q'\<rparr>], notify_pending := np, st_brk := br\<rparr>)"
    if "notify_order.queue_inv q'" for q' and np :: bool and br :: nat
    using slots_inv_set [OF s i that] by (simp add: slots_inv_def)
  show ?thesis
  proof (cases rule: enqueue_cases [OF q sel, of "ntfy AND 3" "type" "value"])
    case (1 y q')
    have "notified s (s\<lparr>slots := (slots s)[i := ?sl\<lparr>sl_queue := q'\<rparr>]\<rparr>)"
      using inv [OF 1(3), where np = "notify_pending s" and br = "st_brk s"] by (simp add: notified_def)
    then show ?thesis using True il 1 by (auto simp: notify_slot_def Let_def)
  next
    case (2 q')
    have "notified s (s\<lparr>st_brk := st_brk s + 1\<rparr>)"
      using s by (simp add: notified_def slots_inv_def)
    moreover have "notified s (s\<lparr>st_brk := st_brk s + 1, slots := (slots s)[i := ?sl\<lparr>sl_queue := q'\<rparr>], notify_pending := True\<rparr>)"
      using inv [OF 2(3), where np = True and br = "st_brk s + 1"]
      by (simp add: notified_def slots_inv_def)
    ultimately show ?thesis using True il 2 by (auto simp: notify_slot_def Let_def malloc_def)
  qed
qed

lemma notify_sel_total:
  assumes "slots_inv s" "is_selector sel"
  shows "\<exists>s'. notify_sel slot sel value type s = Some s' \<and> notified s s'"
proof -
  let ?P = "\<lambda>(n :: u32, s'). notified s s'"
  have "\<exists>r. ofold (notify_slot slot sel value type) [0..<SLOTS] (dv_notify value, s) = Some r \<and> ?P r"
  proof (rule ofold_total [of ?P])
    show "?P (dv_notify value, s)" using assms by (simp add: notified_refl)
    fix i r assume i: "i \<in> set [0..<SLOTS]" and "?P r"
    obtain n s' where r: "r = (n, s')" and P: "notified s s'" using \<open>?P r\<close> by (cases r) auto
    have "slots_inv s'" using P by (rule notified_sel)
    from notify_slot_total [OF this assms(2), of i slot "value" "type" n] i
    obtain n' s'' where "notify_slot slot sel value type i r = Some (n', s'')" "notified s' s''" unfolding r by auto
    with notified_trans [OF P] show "\<exists>r'. notify_slot slot sel value type i r = Some r' \<and> ?P r'" by auto
  qed
  moreover have "dm_selcpy no_selector sel = Some sel"
    using assms(2) by (simp add: dm_selcpy_def no_selector_def is_selector_def)
  ultimately show ?thesis using assms by (auto simp: notify_sel_def intro: notified_refl)
qed

lemma notify_total:
  assumes "slots_inv s" "is_selector sel"
  shows "\<exists>s'. notify slot sel i value type s = Some s' \<and> notified s s'"
proof -
  have "dm_selcpy no_selector sel = Some sel"
    using assms(2) by (simp add: dm_selcpy_def no_selector_def is_selector_def)
  moreover obtain sel' where "dm_selcat sel i = Some sel'" "is_selector sel'"
    using dm_selcat_result [OF assms(2), of i] assms(2) by (simp add: Let_def is_selector_def)
  ultimately show ?thesis using notify_sel_total [OF assms(1)] assms(1)
    by (auto simp: notify_def intro: notified_refl)
qed

end
