(* ===== verification/Dm_Instances.thy ===== *)
theory Dm_Instances
  imports Dm_Index_Spec Dm_Notify_Frame
begin

text \<open>
  An object as its clients see it: a finite map from instance numbers to rows. The relation
  \<open>object_at\<close> says that an instance tree of \<^verbatim>\<open>dm_index.c\<close> represents such a map:
  the first index, unique over the instance numbers, holds every row; an index that is not
  unique holds every row too, a unique one some of them; each index is an ordered red-black
  tree; and the rows know their tree. \<open>insert_instance\<close> and \<open>remove_instance\<close> act
  on this map like update and removal, and \<open>find_instance\<close> looks up in it.
\<close>

section \<open>Frame\<close>

definition row_table :: "dmst \<Rightarrow> addr \<Rightarrow> ptr" where
  "row_table s a = do { n \<leftarrow> nodes s a; p \<leftarrow> DM_TABLE (in_table n); p }"

text \<open>Row \<open>a\<close> has the same content in both states; its flags, number and tree may differ.\<close>

definition same_row :: "dmst \<Rightarrow> dmst \<Rightarrow> addr \<Rightarrow> bool" where
  "same_row s s' a \<longleftrightarrow> blobs s' = blobs s \<and>
     map_option (\<lambda>n. (in_table n, in_instance n)) (nodes s' a) = map_option (\<lambda>n. (in_table n, in_instance n)) (nodes s a) \<and>
     (\<forall>p. row_table s a = Some p \<longrightarrow> tables s' p = tables s p)"

lemma vkey_blobs:
  assumes "blobs s' = blobs s" shows "vkey s' = vkey s"
proof -
  have "str_of s' = str_of s" "sel_of s' = sel_of s" using assms
    by (simp_all add: str_of_def sel_of_def fun_eq_iff cong: option.case_cong)
  then show ?thesis by (simp add: vkey_def fun_eq_iff cong: dm_type.case_cong)
qed

lemma same_row_key:
  assumes "same_row s s' a" shows "row_key s' d a = row_key s d a"
proof -
  have nd: "map_option (\<lambda>n. (in_table n, in_instance n)) (nodes s' a) = map_option (\<lambda>n. (in_table n, in_instance n)) (nodes s a)"
    and bl: "blobs s' = blobs s" and tb: "\<And>p. row_table s a = Some p \<Longrightarrow> tables s' p = tables s p"
    using assms by (auto simp: same_row_def)
  show ?thesis
  proof (cases "nodes s a")
    case None
    with nd show ?thesis by (simp add: row_key_def row_value_def cong: if_cong)
  next
    case (Some n)
    with nd obtain n' where n': "nodes s' a = Some n'" "in_table n' = in_table n" "in_instance n' = in_instance n"
      by (cases "nodes s' a") auto
    have "row_value s' a x = row_value s a x" for x
      using tb Some n'
      by (auto simp: row_value_def row_table_def val_ref_def split: option.splits Option.bind_split)
    then show ?thesis using Some n' vkey_blobs [OF bl] by (simp add: row_key_def cong: if_cong)
  qed
qed

section \<open>Objects as maps\<close>

definition instance_index :: "idx_entry \<Rightarrow> bool" where
  "instance_index d \<longleftrightarrow> ix_type d = T_INSTANCE \<and> ix_element d = 0 \<and> has (ix_flags d) IDX_UNIQUE"

definition instance_no :: "dmst \<Rightarrow> addr \<Rightarrow> dm_id option" where
  "instance_no s a = map_option in_instance (nodes s a)"

definition object_at :: "dmst \<Rightarrow> addr \<Rightarrow> instance_tree \<Rightarrow> (dm_id \<Rightarrow> addr option) \<Rightarrow> (nat \<Rightarrow> rbt) \<Rightarrow> bool" where
  "object_at s ta t M rs \<longleftrightarrow>
     it_def t \<noteq> [] \<and> instance_index (hd (it_def t)) \<and> length (it_root t) = length (it_def t) \<and>
     it_cnt t = of_nat (card (dom M)) \<and> finite (dom M) \<and>
     (\<forall>x a. M x = Some a \<longrightarrow> live_row s ta a \<and> instance_no s a = Some x) \<and>
     set (addrs (rs 0)) = ran M \<and>
     (\<forall>i < length (it_def t). index_at s t i (rs i) \<and> set (addrs (rs i)) \<subseteq> ran M \<and>
        (\<not> has (ix_flags (it_def t ! i)) IDX_UNIQUE \<longrightarrow> set (addrs (rs i)) = ran M) \<and>
        (\<forall>a \<in> ran M. row_ok s (it_def t) i a) \<and>
        (\<forall>a \<in> ran M - set (addrs (rs i)). idxmem s i a = Some zero_node))"

definition object_rep :: "dmst \<Rightarrow> addr \<Rightarrow> (dm_id \<Rightarrow> addr option) \<Rightarrow> bool" where
  "object_rep s ta M \<longleftrightarrow> (\<exists>t rs. trees s ta = Some t \<and> object_at s ta t M rs)"

lemma object_at_frame:
  assumes ob: "object_at s ta t M rs"
    and t: "it_def t' = it_def t" "it_root t' = it_root t" "it_cnt t' = it_cnt t"
    and rows: "\<And>a. a \<in> ran M \<Longrightarrow> same_row s s' a \<and> live_row s' ta a"
    and ix: "idxmem s' = idxmem s"
  shows "object_at s' ta t' M rs"
proof -
  have key: "row_key s' d a = row_key s d a" if "a \<in> ran M" for a d
    using rows [OF that] same_row_key by blast
  have no: "instance_no s' a = instance_no s a" if "a \<in> ran M" for a
    using rows [OF that] by (cases "nodes s a"; cases "nodes s' a") (auto simp: same_row_def instance_no_def)
  have idx: "index_at s' t' i (rs i)" if "i < length (it_def t)" for i
  proof -
    have "index_at s t i (rs i)" "set (addrs (rs i)) \<subseteq> ran M" using ob that by (simp_all add: object_at_def)
    then show ?thesis unfolding index_at_def t ix by (elim index_inv_frame) (blast intro: key)
  qed
  have "row_ok s' (it_def t) i a = row_ok s (it_def t) i a" if "a \<in> ran M" for a i
    using key [OF that] by (simp add: row_ok_def)
  moreover have "live_row s' ta a \<and> instance_no s' a = Some x" if "M x = Some a" for x a
  proof -
    have "a \<in> ran M" using that by (rule ranI)
    then show ?thesis using rows no ob that by (simp add: object_at_def)
  qed
  ultimately show ?thesis using ob idx t by (simp add: object_at_def ix)
qed

section \<open>Counters\<close>

definition counter_ok :: "dmst \<Rightarrow> ptr \<Rightarrow> dm_id \<Rightarrow> bool" where
  "counter_ok s base i \<longleftrightarrow> (case base of None \<Rightarrow> True | Some c \<Rightarrow> i \<noteq> 0 \<and>
     (\<exists>ct. tables s c = Some ct \<and> is_selector (vt_id ct) \<and> unat i - 1 < length (vt_values ct) \<and>
        DM_UINT (vt_values ct ! (unat i - 1)) \<noteq> None))"

definition counter_value :: "dmst \<Rightarrow> addr \<Rightarrow> dm_id \<Rightarrow> u32 option" where
  "counter_value s c i = do { v \<leftarrow> getv s (VTab c (unat i - 1)); DM_UINT v }"

text \<open>The state after a change of the counter, as far as the rest of the store is concerned.\<close>

definition counted :: "dmst \<Rightarrow> addr \<Rightarrow> dmst \<Rightarrow> bool" where
  "counted s c s' \<longleftrightarrow> slots_inv s' \<and> blobs s' = blobs s \<and> trees s' = trees s \<and> nodes s' = nodes s \<and> idxmem s' = idxmem s \<and>
     (\<forall>p. p \<noteq> c \<longrightarrow> tables s' p = tables s p)"

lemma counter_step:
  assumes ok: "counter_ok s (Some c) i" and sl: "slots_inv s"
  obtains n where "counter_value s c i = Some n"
    "\<exists>s'. dm_incr_counter_by_id (Some c) i s = Some s' \<and> counted s c s' \<and> counter_value s' c i = Some (n + 1)"
    "\<exists>s'. dm_decr_counter_by_id (Some c) i s = Some s' \<and> counted s c s' \<and> counter_value s' c i = Some (n - 1)"
proof -
  from ok obtain ct n where ct: "tables s c = Some ct" "is_selector (vt_id ct)" "unat i - 1 < length (vt_values ct)"
    "DM_UINT (vt_values ct ! (unat i - 1)) = Some n" "i \<noteq> 0" by (auto simp: counter_ok_def)
  let ?v = "\<lambda>k. set_DM_UINT (vt_values ct ! (unat i - 1)) k"
  let ?s = "\<lambda>k. s\<lparr>tables := (tables s)(c \<mapsto> ct\<lparr>vt_values := (vt_values ct)[unat i - 1 := ?v k]\<rparr>)\<rparr>"
  have "\<exists>s'. notify (-1) (vt_id ct) i (?v k) NOTIFY_CHANGE (?s k) = Some s' \<and> counted s c s' \<and> counter_value s' c i = Some k" for k
  proof -
    have "slots_inv (?s k)" using sl by (simp add: slots_inv_def)
    from notify_total [OF this ct(2), of "-1" i "?v k" NOTIFY_CHANGE] obtain s'
      where s': "notify (-1) (vt_id ct) i (?v k) NOTIFY_CHANGE (?s k) = Some s'" "notified (?s k) s'" by auto
    with notified_sel [OF s'(2)] ct show ?thesis by (auto simp: counted_def counter_value_def)
  qed
  with ct that [of n] show thesis
    by (simp add: counter_value_def dm_incr_counter_by_id_def dm_decr_counter_by_id_def val_ref_def tab_def Let_def)
qed


section \<open>Inserting a row\<close>

text \<open>The row is in no tree, has values that every index of the tree can compare, and a free number.\<close>

definition insertable :: "dmst \<Rightarrow> addr \<Rightarrow> (dm_id \<Rightarrow> addr option) \<Rightarrow> dm_id \<Rightarrow> addr \<Rightarrow> bool" where
  "insertable s ta M x e \<longleftrightarrow> M x = None \<and> (\<exists>n. nodes s e = Some n \<and> in_instance n = x \<and> \<not> in_indexed n) \<and>
     (\<exists>t. trees s ta = Some t \<and> (\<forall>i < length (it_def t). row_ok s (it_def t) i e) \<and>
        counter_ok s (it_cntr_base t) (it_cntr_id t) \<and>
        (\<forall>c. it_cntr_base t = Some c \<longrightarrow> (\<forall>a \<in> insert e (ran M). row_table s a \<noteq> Some c)))"

definition joined :: "dmst \<Rightarrow> addr \<Rightarrow> instance_tree \<Rightarrow> addr \<Rightarrow> instance_node \<Rightarrow> dmst" where
  "joined s ta t e n = s\<lparr>trees := (trees s)(ta \<mapsto> t\<lparr>it_cnt := it_cnt t + 1\<rparr>),
     idxmem := (\<lambda>i. if i < length (it_def t) then (idxmem s i)(e \<mapsto> zero_node) else idxmem s i),
     nodes := (nodes s)(e \<mapsto> n\<lparr>in_indexed := True, in_root := Some ta\<rparr>)\<rparr>"

lemma insert_instance_joined:
  assumes "trees s ta = Some t" "nodes s e = Some n" "\<not> in_indexed n"
  shows "insert_instance (Some ta) e s = do {
     s \<leftarrow> ofold (insert_into_index ta e) [0..<length (it_def t)] (joined s ta t e n);
     s \<leftarrow> assign_idm ta e s;
     if it_cntr_base t \<noteq> None then dm_incr_counter_by_id (it_cntr_base t) (it_cntr_id t) s else Some s }"
  using assms by (simp add: insert_instance_def tree_upd_def init_indexes_def node_upd_def clear_nodes_def joined_def cong: if_cong)

lemma joined_row:
  assumes "nodes s e = Some n" shows "same_row s (joined s ta t e n) a"
  using assms by (simp add: same_row_def joined_def)

lemma joined_nodes: "nodes (joined s ta t e n) = (nodes s)(e \<mapsto> n\<lparr>in_indexed := True, in_root := Some ta\<rparr>)"
  by (simp add: joined_def)

lemma joined_live: "live_row (joined s ta t e n) ta a \<longleftrightarrow> a = e \<or> live_row s ta a"
  by (auto simp: live_row_def joined_def)

lemma object_row_notin:
  assumes "object_at s ta t M rs" "nodes s e = Some n" "\<not> in_indexed n"
  shows "e \<notin> ran M"
proof
  assume "e \<in> ran M"
  then obtain x where "M x = Some e" by (auto simp: ran_def)
  then have "live_row s ta e" using assms(1) by (simp add: object_at_def)
  with assms(2,3) show False by (simp add: live_row_def)
qed

lemma instance_key:
  assumes "object_at s ta t M rs" "a \<in> ran M"
  shows "\<exists>x. M x = Some a \<and> row_key s (it_def t ! 0) a = Some [uint x]"
proof -
  from assms(2) obtain x where x: "M x = Some a" by (auto simp: ran_def)
  then have "instance_no s a = Some x" using assms(1) by (simp add: object_at_def)
  moreover have "ix_type (it_def t ! 0) = T_INSTANCE"
    using assms(1) by (cases "it_def t") (simp_all add: object_at_def instance_index_def)
  ultimately show ?thesis using x by (auto simp: row_key_def instance_no_def)
qed


lemma index_inv_upd:
  assumes "rows.index_inv s def i \<lparr>rbh = h, rbroot = p\<rparr> r" "e \<notin> set (addrs r)"
  shows "rows.index_inv s def i \<lparr>rbh = h(e \<mapsto> x), rbroot = p\<rparr> r"
  using assms by (simp add: rows.index_inv_def repr_def)

lemma insert_rows:
  assumes ob: "object_at s ta t M rs" and t: "trees s ta = Some t"
    and n: "nodes s e = Some n" "\<not> in_indexed n" "in_instance n = x" and x: "M x = None"
    and ok: "\<And>i. i < length (it_def t) \<Longrightarrow> row_ok s (it_def t) i e"
  defines "s1 \<equiv> joined s ta t e n" and "t1 \<equiv> t\<lparr>it_cnt := it_cnt t + 1\<rparr>"
  shows "\<exists>X rr rs'. ofold (insert_into_index ta e) [0..<length (it_def t)] s1 = Some (with_idx s1 ta t1 X rr) \<and>
    object_at (with_idx s1 ta t1 X rr) ta (t1\<lparr>it_root := rr\<rparr>) (M(x \<mapsto> e)) rs'"
proof -
  have e: "e \<notin> ran M" by (rule object_row_notin [OF ob n(1,2)])
  have key: "row_key s1 d a = row_key s d a" for a d
    unfolding s1_def by (rule same_row_key [OF joined_row [OF n(1)]])
  have rok: "row_ok s1 def i a = row_ok s def i a" for a i and "def" by (simp add: row_ok_def key)
  have t1: "trees s1 ta = Some t1" "it_def t1 = it_def t" "it_root t1 = it_root t"
    "length (it_root t1) = length (it_def t1)"
    using ob by (simp_all add: s1_def t1_def joined_def object_at_def)
  have idx: "index_at s1 t1 i (rs i)" "set (addrs (rs i)) \<subseteq> ran M" "e \<notin> set (addrs (rs i))"
    "idxmem s1 i e = Some zero_node" "\<forall>a \<in> set (addrs (rs i)). live_row s1 ta a" if i: "i < length (it_def t)" for i
  proof -
    have ia: "index_at s t i (rs i)" and sub: "set (addrs (rs i)) \<subseteq> ran M" using ob i by (simp_all add: object_at_def)
    then show "set (addrs (rs i)) \<subseteq> ran M" and ne: "e \<notin> set (addrs (rs i))" using e by auto
    show "index_at s1 t1 i (rs i)"
      using index_inv_frame [OF index_inv_upd [OF ia [unfolded index_at_def] ne, of zero_node], of s1] key i t1
      by (simp add: index_at_def s1_def joined_def)
    show "idxmem s1 i e = Some zero_node" using i by (simp add: s1_def joined_def)
    have "live_row s ta a" if "a \<in> ran M" for a using that ob by (auto simp: object_at_def ran_def)
    then show "\<forall>a \<in> set (addrs (rs i)). live_row s1 ta a" using sub by (auto simp: s1_def joined_live)
  qed
  have live: "live_row s1 ta e" by (simp add: s1_def joined_live)
  obtain X rr rs' where loop: "ofold (insert_into_index ta e) [0..<length (it_def t1)] s1 = Some (with_idx s1 ta t1 X rr)"
    "length rr = length (it_def t1)" and each: "\<And>i. i < length (it_def t1) \<Longrightarrow> rows.index_inv s1 (it_def t1) i \<lparr>rbh = X i, rbroot = rr ! i\<rparr> (rs' i) \<and>
      set (addrs (rs' i)) = (if duplicate s1 (it_def t1 ! i) (set (addrs (rs i))) e then set (addrs (rs i))
                             else insert e (set (addrs (rs i)))) \<and>
      (e \<notin> set (addrs (rs' i)) \<longrightarrow> X i e = Some zero_node) \<and>
      (\<forall>a. a \<notin> insert e (set (addrs (rs i))) \<longrightarrow> X i a = idxmem s1 i a)"
    using insert_all_indexes [OF t1(4,1) _ live order_refl, of rs] idx ok t1(2) rok by auto
  have nodup: "\<not> duplicate s1 (it_def t ! 0) (set (addrs (rs 0))) e"
  proof -
    have "row_key s (it_def t ! 0) a \<noteq> row_key s (it_def t ! 0) e" if a: "a \<in> ran M" for a
      using instance_key [OF ob a] x n ob
      by (cases "it_def t") (auto simp: row_key_def object_at_def instance_index_def dest!: unsigned_word_eqI)
    then show ?thesis using ob by (simp add: duplicate_def key object_at_def)
  qed
  let ?s = "with_idx s1 ta t1 X rr" and ?t = "t1\<lparr>it_root := rr\<rparr>" and ?M = "M(x \<mapsto> e)"
  have ran: "ran ?M = insert e (ran M)" using x by (rule ran_map_upd)
  have "it_def t \<noteq> []" "instance_index (hd (it_def t))" "finite (dom M)" using ob by (simp_all add: object_at_def)
  note basic = this
  have zero: "0 < length (it_def t)" using basic by simp
  have cnt: "it_cnt ?t = of_nat (card (dom ?M))"
    using ob x by (simp add: object_at_def t1_def card_insert_if domIff add.commute)
  have rows: "live_row ?s ta a \<and> instance_no ?s a = Some y" if "?M y = Some a" for y a
    using that ob n e by (auto simp: object_at_def s1_def joined_live instance_no_def joined_nodes ranI split: if_splits)
  have set0: "set (addrs (rs' 0)) = ran ?M"
    using each [of 0] zero nodup ob by (simp add: t1 ran object_at_def)
  have indexes: "index_at ?s ?t i (rs' i) \<and> set (addrs (rs' i)) \<subseteq> ran ?M \<and>
        (\<not> has (ix_flags (it_def ?t ! i)) IDX_UNIQUE \<longrightarrow> set (addrs (rs' i)) = ran ?M) \<and>
        (\<forall>a \<in> ran ?M. row_ok ?s (it_def ?t) i a) \<and>
        (\<forall>a \<in> ran ?M - set (addrs (rs' i)). idxmem ?s i a = Some zero_node)" if i: "i < length (it_def t)" for i
  proof (intro conjI)
    have obi: "set (addrs (rs i)) \<subseteq> ran M" "\<not> has (ix_flags (it_def t ! i)) IDX_UNIQUE \<longrightarrow> set (addrs (rs i)) = ran M"
      "\<forall>a \<in> ran M. row_ok s (it_def t) i a" "\<forall>a \<in> ran M - set (addrs (rs i)). idxmem s i a = Some zero_node"
      using ob i by (simp_all add: object_at_def)
    show "index_at ?s ?t i (rs' i)" using each [of i] i t1 by (simp add: index_at_def)
    show "set (addrs (rs' i)) \<subseteq> ran ?M" using each [of i] i t1 obi(1) ran by (auto split: if_splits)
    show "\<not> has (ix_flags (it_def ?t ! i)) IDX_UNIQUE \<longrightarrow> set (addrs (rs' i)) = ran ?M"
      using each [of i] i t1 obi(2) ran by (auto simp: duplicate_def split: if_splits)
    show "\<forall>a \<in> ran ?M. row_ok ?s (it_def ?t) i a" using obi(3) ok [OF i] t1 ran rok by auto
    have old: "idxmem s1 i a = Some zero_node" if "a \<in> ran M - set (addrs (rs i))" for a
      using that obi(4) e by (auto simp: s1_def joined_def)
    show "\<forall>a \<in> ran ?M - set (addrs (rs' i)). idxmem ?s i a = Some zero_node"
    proof
      fix a assume a: "a \<in> ran ?M - set (addrs (rs' i))"
      show "idxmem ?s i a = Some zero_node"
        by (cases "a = e") (use each [of i] i t1 old [of a] a ran in \<open>auto split: if_splits\<close>)
    qed
  qed
  have "object_at ?s ta ?t ?M rs'"
    using basic loop(2) cnt rows set0 indexes t1 by (simp add: object_at_def)
  with loop t1 show ?thesis by auto
qed


lemma map_ffz_range: "0 \<le> map_ffz m \<Longrightarrow> nat (map_ffz m) < 32 * length m"
  using map_ffz_from_least [of m 0] by (auto simp: least_in_def map_ffz_def)

text \<open>The number for the external interfaces is written into the row, and marked as used.\<close>

lemma assign_idm_spec:
  assumes ob: "object_at s ta t M rs" and t: "trees s ta = Some t" and n: "nodes s e = Some n"
  obtains s' t' where "assign_idm ta e s = Some s'" "trees s' ta = Some t'" "object_at s' ta t' M rs"
    "it_def t' = it_def t" "it_cntr_base t' = it_cntr_base t" "it_cntr_id t' = it_cntr_id t"
    "\<And>a. same_row s s' a" "tables s' = tables s" "slots s' = slots s"
proof (cases "it_id_map t \<noteq> [] \<and> map_ffz (it_id_map t) \<ge> 0")
  case False
  then show thesis using that [of s t] ob t by (auto simp: assign_idm_def Let_def same_row_def)
next
  case True
  then obtain m' where m': "map_set_bit (it_id_map t) (nat (map_ffz (it_id_map t))) = Some m'"
    using map_set_bit_spec [OF map_ffz_range] by metis
  let ?n = "n\<lparr>in_idm := map_ffz (it_id_map t) + 1\<rparr>"
  let ?s = "s\<lparr>trees := (trees s)(ta \<mapsto> t\<lparr>it_id_map := m'\<rparr>), nodes := (nodes s)(e \<mapsto> ?n)\<rparr>"
  have row: "same_row s ?s a" for a using n by (simp add: same_row_def)
  have "live_row ?s ta a = live_row s ta a" for a using n by (auto simp: live_row_def)
  moreover have "live_row s ta a" if "a \<in> ran M" for a using ob that by (auto simp: object_at_def ran_def)
  ultimately have "object_at ?s ta (t\<lparr>it_id_map := m'\<rparr>) M rs"
    by (intro object_at_frame [OF ob]) (use row in auto)
  then show thesis
    by (intro that [of ?s "t\<lparr>it_id_map := m'\<rparr>"]) (use True m' t n row in \<open>simp_all add: assign_idm_def node_upd_def\<close>)
qed

lemma object_counted:
  assumes "object_at s ta t M rs" "counted s c s'" "\<forall>a \<in> ran M. row_table s a \<noteq> Some c"
  shows "object_at s' ta t M rs"
proof -
  have "live_row s ta a" if "a \<in> ran M" for a using assms(1) that by (auto simp: object_at_def ran_def)
  then show ?thesis using assms(2,3)
    by (intro object_at_frame [OF assms(1)]) (auto simp: counted_def same_row_def live_row_def)
qed

lemma row_table_same: "same_row s s' a \<Longrightarrow> row_table s' a = row_table s a"
  by (cases "nodes s a"; cases "nodes s' a") (auto simp: same_row_def row_table_def)

lemma counter_same:
  assumes "tables s' = tables s"
  shows "counter_ok s' c i = counter_ok s c i" "counter_value s' b i = counter_value s b i"
  using assms by (simp_all add: counter_ok_def counter_value_def cong: option.case_cong)

lemma same_row_trans: "same_row s s' a \<Longrightarrow> same_row s' s'' a \<Longrightarrow> same_row s s'' a"
  using row_table_same [of s s' a] by (auto simp: same_row_def)

text \<open>
  C1: Inserting a row under a free instance number adds it to the object, and adds one to the
  counter of the object, if it has one; the object is well-formed again in every index, also
  where a unique index refuses the row.
\<close>
theorem insert_instance_adds:
  assumes "object_rep s ta M" "insertable s ta M x e" "slots_inv s"
  shows "\<exists>s'. insert_instance (Some ta) e s = Some s' \<and> object_rep s' ta (M(x \<mapsto> e)) \<and> slots_inv s' \<and>
    (\<forall>t c. trees s ta = Some t \<and> it_cntr_base t = Some c \<longrightarrow>
       counter_value s' c (it_cntr_id t) = map_option (\<lambda>n. n + 1) (counter_value s c (it_cntr_id t)))"
proof -
  obtain t rs n where t: "trees s ta = Some t" and ob: "object_at s ta t M rs"
    and n: "nodes s e = Some n" "\<not> in_indexed n" "in_instance n = x" and x: "M x = None"
    and ok: "\<And>i. i < length (it_def t) \<Longrightarrow> row_ok s (it_def t) i e"
    and cok: "counter_ok s (it_cntr_base t) (it_cntr_id t)"
    and sep: "\<And>c. it_cntr_base t = Some c \<Longrightarrow> \<forall>a \<in> insert e (ran M). row_table s a \<noteq> Some c"
    using assms(1,2) by (auto simp: object_rep_def insertable_def)
  let ?t1 = "t\<lparr>it_cnt := it_cnt t + 1\<rparr>" and ?s1 = "joined s ta t e n" and ?M = "M(x \<mapsto> e)"
  obtain X rr rs' where loop: "ofold (insert_into_index ta e) [0..<length (it_def t)] ?s1 = Some (with_idx ?s1 ta ?t1 X rr)"
    "object_at (with_idx ?s1 ta ?t1 X rr) ta (?t1\<lparr>it_root := rr\<rparr>) ?M rs'"
    using insert_rows [OF ob t n x ok] by auto
  let ?s2 = "with_idx ?s1 ta ?t1 X rr"
  have s2: "nodes ?s2 e = Some (n\<lparr>in_indexed := True, in_root := Some ta\<rparr>)" "tables ?s2 = tables s" "slots ?s2 = slots s"
    by (simp_all add: joined_nodes, simp_all add: with_idx_def joined_def)
  have row2: "same_row s ?s2 a" for a
    using joined_row [OF n(1), of ta t a] by (simp add: same_row_def with_idx_def)
  obtain s3 t3 where idm: "assign_idm ta e ?s2 = Some s3" "trees s3 ta = Some t3" "object_at s3 ta t3 ?M rs'"
    "\<And>a. same_row ?s2 s3 a" "tables s3 = tables s" "slots s3 = slots s"
    by (rule assign_idm_spec [OF loop(2) _ s2(1)]) (use s2 in simp_all)
  have row3: "row_table s3 a = row_table s a" for a using row2 idm(4) row_table_same by metis
  have sl3: "slots_inv s3" using assms(3) idm(6) by (simp add: slots_inv_def)
  note call = insert_instance_joined [OF t n(1,2)] loop(1) idm(1)
  show ?thesis
  proof (cases "it_cntr_base t")
    case None
    then show ?thesis using call idm sl3 t by (auto simp: object_rep_def)
  next
    case (Some c)
    have "counter_ok s3 (Some c) (it_cntr_id t)" using cok Some idm(5) counter_same by metis
    from counter_step [OF this sl3] obtain k s4 where s4: "counter_value s3 c (it_cntr_id t) = Some k"
      "dm_incr_counter_by_id (Some c) (it_cntr_id t) s3 = Some s4" "counted s3 c s4" "counter_value s4 c (it_cntr_id t) = Some (k + 1)"
      by metis
    have "object_at s4 ta t3 ?M rs'"
      by (rule object_counted [OF idm(3) s4(3)]) (use sep [OF Some] row3 ran_map_upd [of M x e] x in simp)
    moreover have "counter_value s c (it_cntr_id t) = Some k" using s4(1) counter_same(2) [OF idm(5)] by simp
    moreover have "trees s4 ta = Some t3" "slots_inv s4" using s4(3) idm(2) by (simp_all add: counted_def)
    ultimately show ?thesis using call Some s4 t by (auto simp: object_rep_def)
  qed
qed


section \<open>Removing a row\<close>

text \<open>The number for external interfaces must be below the last one of the map, see \<open>release_idm\<close>.\<close>

definition removable :: "dmst \<Rightarrow> addr \<Rightarrow> (dm_id \<Rightarrow> addr option) \<Rightarrow> dm_id \<Rightarrow> addr \<Rightarrow> bool" where
  "removable s ta M x e \<longleftrightarrow> M x = Some e \<and>
     (\<exists>t n. trees s ta = Some t \<and> nodes s e = Some n \<and>
        (it_id_map t = [] \<or> in_idm n \<le> 0 \<or> nat (in_idm n) < 32 * length (it_id_map t)) \<and>
        counter_ok s (it_cntr_base t) (it_cntr_id t) \<and>
        (\<forall>c. it_cntr_base t = Some c \<longrightarrow> (\<forall>a \<in> ran M. row_table s a \<noteq> Some c)))"

lemma ran_remove:
  assumes "object_at s ta t M rs" "M x = Some e"
  shows "ran (M(x := None)) = ran M - {e}"
proof -
  have rows: "\<forall>x a. M x = Some a \<longrightarrow> live_row s ta a \<and> instance_no s a = Some x" using assms(1) by (simp add: object_at_def)
  have "y = x" if "M y = Some e" for y
    using rows [rule_format, of y e] rows [rule_format, of x e] that assms(2) by simp
  then have "b \<noteq> e" if "M y = Some b" "y \<noteq> x" for y b using that by blast
  then show ?thesis using assms(2) unfolding ran_def by (auto split: if_splits) (metis option.inject)
qed

lemma remove_rows:
  assumes ob: "object_at s ta t M rs" and t: "trees s ta = Some t" and x: "M x = Some e"
  defines "t1 \<equiv> t\<lparr>it_cnt := it_cnt t - 1\<rparr>"
  defines "s1 \<equiv> s\<lparr>trees := (trees s)(ta \<mapsto> t1)\<rparr>"
  shows "\<exists>X rr rs'. ofold (\<lambda>i. idx_REMOVE ta i e) [0..<length (it_def t)] s1 = Some (with_idx s1 ta t1 X rr) \<and>
    object_at (with_idx s1 ta t1 X rr) ta (t1\<lparr>it_root := rr\<rparr>) (M(x := None)) rs' \<and>
    (\<forall>i < length (it_def t). X i e = Some zero_node)"
proof -
  have e: "e \<in> ran M" using x by (rule ranI)
  have key: "row_key s1 = row_key s" and rok: "row_ok s1 = row_ok s" by (simp_all add: s1_def)
  have nd: "nodes s1 = nodes s" by (simp add: s1_def)
  have live1: "live_row s1 = live_row s" by (simp add: s1_def live_row_def fun_eq_iff)
  have live: "live_row s1 ta e" using ob x by (auto simp: object_at_def live1)
  have t1: "trees s1 ta = Some t1" "it_def t1 = it_def t" "length (it_root t1) = length (it_def t1)"
    using ob by (simp_all add: s1_def t1_def object_at_def)
  have idx: "index_at s1 t1 i (rs i) \<and> (e \<in> set (addrs (rs i)) \<or> idxmem s1 i e = Some zero_node)"
    if i: "i < length (it_def t1)" for i
    using ob i e by (auto simp: object_at_def index_at_def s1_def t1_def)
  obtain X rr rs' where loop: "ofold (\<lambda>i. idx_REMOVE ta i e) [0..<length (it_def t1)] s1 = Some (with_idx s1 ta t1 X rr)"
    "length rr = length (it_def t1)" and each: "\<And>i. i < length (it_def t1) \<Longrightarrow>
      rows.index_inv s1 (it_def t1) i \<lparr>rbh = X i, rbroot = rr ! i\<rparr> (rs' i) \<and>
      set (addrs (rs' i)) = set (addrs (rs i)) - {e} \<and> X i e = Some zero_node \<and>
      (\<forall>a. a \<notin> set (addrs (rs i)) \<longrightarrow> X i a = idxmem s1 i a)"
    using remove_all_indexes [OF t1(3,1) idx live order_refl] by auto
  let ?s = "with_idx s1 ta t1 X rr" and ?t = "t1\<lparr>it_root := rr\<rparr>" and ?M = "M(x := None)"
  have ran: "ran ?M = ran M - {e}" by (rule ran_remove [OF ob x])
  have basic: "it_def t \<noteq> []" "instance_index (hd (it_def t))" "finite (dom M)" using ob by (simp_all add: object_at_def)
  have "card (dom M) = Suc (card (dom ?M))"
    using card_Suc_Diff1 [OF basic(3), of x] x by (simp add: domI [of M x e] del: card_Diff_insert card_Diff_singleton)
  then have cnt: "it_cnt ?t = of_nat (card (dom ?M))" using ob by (simp add: object_at_def t1_def)
  have rows: "live_row ?s ta a \<and> instance_no ?s a = Some y" if "?M y = Some a" for y a
    using that ob nd by (auto simp: object_at_def live1 instance_no_def split: if_splits)
  have set0: "set (addrs (rs' 0)) = ran ?M"
    using each [of 0] basic ob by (simp add: t1 ran object_at_def)
  have indexes: "index_at ?s ?t i (rs' i) \<and> set (addrs (rs' i)) \<subseteq> ran ?M \<and>
        (\<not> has (ix_flags (it_def ?t ! i)) IDX_UNIQUE \<longrightarrow> set (addrs (rs' i)) = ran ?M) \<and>
        (\<forall>a \<in> ran ?M. row_ok ?s (it_def ?t) i a) \<and>
        (\<forall>a \<in> ran ?M - set (addrs (rs' i)). idxmem ?s i a = Some zero_node)" if i: "i < length (it_def t)" for i
    using each [of i] ob i t1 ran by (auto simp: object_at_def index_at_def rok s1_def)
  have "object_at ?s ta ?t ?M rs'"
    using basic loop(2) cnt rows set0 indexes t1 by (simp add: object_at_def)
  with loop each t1 show ?thesis by auto
qed


text \<open>The rest of \<open>remove_instance\<close>: the row leaves the tree and gives back its number.\<close>

definition left :: "dmst \<Rightarrow> addr \<Rightarrow> instance_node \<Rightarrow> dmst" where
  "left s e n = s\<lparr>nodes := (nodes s)(e \<mapsto> n\<lparr>in_indexed := False, in_root := None\<rparr>)\<rparr>"

lemma remove_instance_left:
  assumes t: "trees s ta = Some t" and n: "nodes s e = Some n" "live_row s ta e"
    and loop: "ofold (\<lambda>i. idx_REMOVE ta i e) [0..<length (it_def t)] (s\<lparr>trees := (trees s)(ta \<mapsto> t\<lparr>it_cnt := it_cnt t - 1\<rparr>)\<rparr>) = Some s2"
    and s2: "nodes s2 = nodes s" "\<forall>i < length (it_def t). idxmem s2 i e = Some zero_node"
  shows "remove_instance (Some ta) e s = do {
     s \<leftarrow> release_idm ta e (left s2 e n);
     if it_cntr_base t \<noteq> None then dm_decr_counter_by_id (it_cntr_base t) (it_cntr_id t) s else Some s }"
proof -
  have ix: "(\<lambda>i. if i < length (it_def t) then (idxmem s2 i)(e \<mapsto> zero_node) else idxmem s2 i) = idxmem s2"
    using s2(2) by (auto simp: fun_eq_iff)
  have "in_indexed n" using n by (simp add: live_row_def)
  then show ?thesis
    using t n live_row_magic [OF n(2)] loop s2(1) ix
    by (simp add: remove_instance_def tree_upd_def clear_indexes_def clear_nodes_def node_upd_def left_def cong: if_cong)
qed

lemma release_idm_spec:
  assumes ob: "object_at s ta t M rs" and t: "trees s ta = Some t" and n: "nodes s e = Some n"
    and idm: "it_id_map t = [] \<or> in_idm n \<le> 0 \<or> nat (in_idm n) < 32 * length (it_id_map t)"
  obtains s' t' where "release_idm ta e s = Some s'" "trees s' ta = Some t'" "object_at s' ta t' M rs"
    "nodes s' = nodes s" "blobs s' = blobs s" "tables s' = tables s" "slots s' = slots s"
proof (cases "it_id_map t \<noteq> [] \<and> in_idm n > 0")
  case False
  then show thesis using that [of s t] ob t n by (auto simp: release_idm_def)
next
  case True
  with idm have lt: "nat (in_idm n) < 32 * length (it_id_map t)" by auto
  then have "nat (in_idm n - 1) < 32 * length (it_id_map t)" by linarith
  then obtain m' where m': "map_clear_bit (it_id_map t) (nat (in_idm n - 1)) = Some m'" by (rule map_clear_bit_spec)
  let ?s = "s\<lparr>trees := (trees s)(ta \<mapsto> t\<lparr>it_id_map := m'\<rparr>)\<rparr>"
  have "live_row s ta a" if "a \<in> ran M" for a using ob that by (auto simp: object_at_def ran_def)
  then have "object_at ?s ta (t\<lparr>it_id_map := m'\<rparr>) M rs"
    by (intro object_at_frame [OF ob]) (auto simp: same_row_def live_row_def)
  moreover have "nat (in_idm n) div bits_size < length (it_id_map t)" using lt by (simp add: bits_size_def div32_less)
  ultimately show thesis
    by (intro that [of ?s "t\<lparr>it_id_map := m'\<rparr>"]) (use True m' t n in \<open>simp_all add: release_idm_def\<close>)
qed

lemma object_left:
  assumes ob: "object_at s ta t M rs" and e: "e \<notin> ran M" "nodes s e = Some n"
  shows "object_at (left s e n) ta t M rs"
proof -
  have "live_row s ta a" if "a \<in> ran M" for a using ob that by (auto simp: object_at_def ran_def)
  then show ?thesis
    by (intro object_at_frame [OF ob]) (use e in \<open>auto simp: left_def same_row_def live_row_def\<close>)
qed

text \<open>
  C2: Removing a row takes it out of the object, and one from the counter of the object, if it
  has one; the row itself is left outside of every tree.
\<close>
theorem remove_instance_removes:
  assumes "object_rep s ta M" "removable s ta M x e" "slots_inv s"
  shows "\<exists>s'. remove_instance (Some ta) e s = Some s' \<and> object_rep s' ta (M(x := None)) \<and> slots_inv s' \<and>
    (\<exists>n. nodes s' e = Some n \<and> in_root n = None \<and> \<not> in_indexed n) \<and>
    (\<forall>t c. trees s ta = Some t \<and> it_cntr_base t = Some c \<longrightarrow>
       counter_value s' c (it_cntr_id t) = map_option (\<lambda>n. n - 1) (counter_value s c (it_cntr_id t)))"
proof -
  obtain t rs n where t: "trees s ta = Some t" and ob: "object_at s ta t M rs"
    and n: "nodes s e = Some n" and x: "M x = Some e"
    and idm: "it_id_map t = [] \<or> in_idm n \<le> 0 \<or> nat (in_idm n) < 32 * length (it_id_map t)"
    and cok: "counter_ok s (it_cntr_base t) (it_cntr_id t)"
    and sep: "\<And>c. it_cntr_base t = Some c \<Longrightarrow> \<forall>a \<in> ran M. row_table s a \<noteq> Some c"
    using assms(1,2) by (auto simp: object_rep_def removable_def)
  let ?t1 = "t\<lparr>it_cnt := it_cnt t - 1\<rparr>" and ?M = "M(x := None)"
  let ?s1 = "s\<lparr>trees := (trees s)(ta \<mapsto> ?t1)\<rparr>"
  have live: "live_row s ta e" using ob x by (simp add: object_at_def)
  obtain X rr rs' where loop: "ofold (\<lambda>i. idx_REMOVE ta i e) [0..<length (it_def t)] ?s1 = Some (with_idx ?s1 ta ?t1 X rr)"
    "object_at (with_idx ?s1 ta ?t1 X rr) ta (?t1\<lparr>it_root := rr\<rparr>) ?M rs'" "\<forall>i < length (it_def t). X i e = Some zero_node"
    using remove_rows [OF ob t x] by auto
  let ?s2 = "with_idx ?s1 ta ?t1 X rr"
  let ?s3 = "left ?s2 e n" and ?t3 = "?t1\<lparr>it_root := rr\<rparr>"
  have s2: "nodes ?s2 = nodes s" "tables ?s2 = tables s" "slots ?s2 = slots s" "blobs ?s2 = blobs s"
    by simp (simp_all add: with_idx_def)
  have ran: "ran ?M = ran M - {e}" by (rule ran_remove [OF ob x])
  have ob3: "object_at ?s3 ta ?t3 ?M rs'" by (rule object_left [OF loop(2)]) (use ran s2 n in simp_all)
  have n3: "nodes ?s3 e = Some (n\<lparr>in_indexed := False, in_root := None\<rparr>)" by (simp add: left_def)
  obtain s4 t4 where rel: "release_idm ta e ?s3 = Some s4" "trees s4 ta = Some t4" "object_at s4 ta t4 ?M rs'"
    "nodes s4 = nodes ?s3" "blobs s4 = blobs s" "tables s4 = tables s" "slots s4 = slots s"
    by (rule release_idm_spec [OF ob3 _ n3]) (use idm s2 in \<open>simp_all add: left_def\<close>)
  have row4: "row_table s4 a = row_table s a" if "a \<noteq> e" for a using that rel(4) s2 by (simp add: row_table_def left_def)
  have sl4: "slots_inv s4" using assms(3) rel(7) by (simp add: slots_inv_def)
  note call = remove_instance_left [OF t n live loop(1)] s2(1) loop(3) rel(1)
  show ?thesis
  proof (cases "it_cntr_base t")
    case None
    then show ?thesis using call rel n3 sl4 t by (auto simp: object_rep_def)
  next
    case (Some c)
    have "counter_ok s4 (Some c) (it_cntr_id t)" using cok Some rel(6) counter_same by metis
    from counter_step [OF this sl4] obtain k s5 where s5: "counter_value s4 c (it_cntr_id t) = Some k"
      "dm_decr_counter_by_id (Some c) (it_cntr_id t) s4 = Some s5" "counted s4 c s5" "counter_value s5 c (it_cntr_id t) = Some (k - 1)"
      by metis
    have "object_at s5 ta t4 ?M rs'"
      by (rule object_counted [OF rel(3) s5(3)]) (use sep [OF Some] row4 ran in auto)
    moreover have "counter_value s c (it_cntr_id t) = Some k" using s5(1) counter_same(2) [OF rel(6)] by simp
    moreover have "trees s5 ta = Some t4" "slots_inv s5" "nodes s5 = nodes ?s3"
      using s5(3) rel(2,4) by (simp_all add: counted_def)
    ultimately show ?thesis using call Some s5 t n3 by (auto simp: object_rep_def)
  qed
qed

end
