(* ===== verification/Dm_Search.thy ===== *)
theory Dm_Search
  imports Dm_Instances
begin

text \<open>
  Reading an object: the search by a value, through an index or row by row, and the loops over
  the rows in the order of an index.
\<close>

section \<open>Through an index\<close>

lemma index_key_order:
  assumes "index_at s t i r"
  shows "sorted_wrt (\<lambda>a b. lcmp (the (row_key s (it_def t ! i) a)) (the (row_key s (it_def t ! i) b)) < 0) (heads r)"
proof -
  have ord: "rows.ordered s (it_def t) i (groups r)" using assms by (simp add: index_at_def rows.index_inv_def)
  then have "sorted_wrt (rows.lt s (it_def t) i) (heads r)" by (simp add: rows.ordered_def heads_def)
  then show ?thesis
    by (rule sorted_wrt_mono_rel [rotated]) (use rows.heads_D [OF ord] in \<open>simp add: rows_lt\<close>)
qed

lemma key_cut:
  assumes "index_at s t i r"
  shows "cut (\<lambda>a. lcmp k (the (row_key s (it_def t ! i) a))) (heads r)"
  using index_key_order [OF assms] unfolding cut_def
proof (rule sorted_wrt_mono_rel [rotated])
  fix a b
  let ?a = "the (row_key s (it_def t ! i) a)" and ?b = "the (row_key s (it_def t ! i) b)"
  assume ab: "lcmp ?a ?b < 0"
  then show "(lcmp k ?a < 0 \<longrightarrow> lcmp k ?b < 0) \<and> (0 < lcmp k ?b \<longrightarrow> 0 < lcmp k ?a) \<and> \<not> (lcmp k ?a = 0 \<and> lcmp k ?b = 0)"
    using lcmp_trans [of k ?a ?b] lcmp_trans [of k ?b ?a] lcmp_flip [of ?a ?b] lcmp_flip [of k ?a] lcmp_flip [of k ?b]
      lcmp_trans [of ?b ?a k] lcmp_trans [of ?a ?b k] lcmp_zero [of k ?a] lcmp_zero [of k ?b] lcmp_zero [of ?a ?b]
    by (smt (verit))
qed

lemma heads_addrs: "a \<in> set (heads r) \<Longrightarrow> a \<in> set (addrs r)"
  by (auto simp: heads_def addrs_groups) (metis groups_nonempty hd_in_set)

lemma index_search:
  assumes at: "index_at s t i r"
    and cmpv: "\<And>a. a \<in> set (addrs r) \<Longrightarrow> cmpv a = Some (lcmp k (the (row_key s (it_def t ! i) a)))"
  shows "(\<exists>a \<in> set (heads r). row_key s (it_def t ! i) a = Some k \<and>
       FIND cmpv \<lparr>rbh = idxmem s i, rbroot = it_root t ! i\<rparr> = Some (Some a)) \<or>
     (\<forall>a \<in> set (addrs r). row_key s (it_def t ! i) a \<noteq> Some k) \<and>
       FIND cmpv \<lparr>rbh = idxmem s i, rbroot = it_root t ! i\<rparr> = Some None"
proof -
  let ?m = "\<lparr>rbh = idxmem s i, rbroot = it_root t ! i\<rparr>" and ?c = "\<lambda>a. lcmp k (the (row_key s (it_def t ! i) a))"
  have ord: "rows.ordered s (it_def t) i (groups r)" and rep: "repr ?m r"
    using at by (simp_all add: index_at_def rows.index_inv_def)
  have key: "?c a = 0 \<longleftrightarrow> row_key s (it_def t ! i) a = Some k" if "a \<in> set (addrs r)" for a
    using index_rows [OF at that] by (auto simp: row_ok_def)
  have all: "row_key s (it_def t ! i) a \<noteq> Some k" if h: "\<forall>a \<in> set (heads r). ?c a \<noteq> 0" and a: "a \<in> set (addrs r)" for a
  proof
    assume k: "row_key s (it_def t ! i) a = Some k"
    from a obtain g where g: "g \<in> set (groups r)" "a \<in> set g" by (auto simp: addrs_groups)
    then have "hd g \<in> set (heads r)" by (simp add: heads_def)
    moreover have "rows.eqv s (it_def t) i (hd g) a" "row_ok s (it_def t) i (hd g)" "row_ok s (it_def t) i a"
      using g ord rows.heads_D [OF ord \<open>hd g \<in> set (heads r)\<close>] by (auto simp: rows.ordered_def)
    ultimately show False using h k by (auto simp: rows_eqv)
  qed
  from FIND_spec [OF rep, of cmpv ?c] cmpv heads_addrs key_cut [OF at, of k] show ?thesis
    using key heads_addrs all by blast
qed

lemma object_live: "object_at s ta t M rs \<Longrightarrow> a \<in> ran M \<Longrightarrow> live_row s ta a"
  by (auto simp: object_at_def ran_def)

lemma object_index:
  assumes "object_at s ta t M rs" "i < length (it_def t)"
  shows "index_at s t i (rs i)" "set (addrs (rs i)) \<subseteq> ran M" "i < length (it_root t)"
    "\<not> has (ix_flags (it_def t ! i)) IDX_UNIQUE \<Longrightarrow> set (addrs (rs i)) = ran M"
  using assms by (simp_all add: object_at_def)

lemma idx_FIND_spec:
  assumes t: "trees s ta = Some t" and ob: "object_at s ta t M rs" and i: "i < length (it_def t)"
    and cmpv: "\<And>a. a \<in> ran M \<Longrightarrow> cmp_value s (it_def t) i val a = Some (lcmp k (the (row_key s (it_def t ! i) a)))"
  shows "(\<exists>a \<in> set (addrs (rs i)). row_key s (it_def t ! i) a = Some k \<and> idx_FIND ta i val s = Some (Some a)) \<or>
    (\<forall>a \<in> set (addrs (rs i)). row_key s (it_def t ! i) a \<noteq> Some k) \<and> idx_FIND ta i val s = Some None"
proof -
  let ?c = "\<lambda>tmp. do { assert_index_magic s tmp True; cmp_value s (it_def t) i val tmp }"
  note idx = object_index [OF ob i]
  have "?c a = Some (lcmp k (the (row_key s (it_def t ! i) a)))" if "a \<in> set (addrs (rs i))" for a
  proof -
    have "a \<in> ran M" using that idx(2) by blast
    then show ?thesis using cmpv live_row_magic [OF object_live [OF ob]] by simp
  qed
  from index_search [OF idx(1) this] t idx(3) heads_addrs show ?thesis
    by (simp add: idx_FIND_def rb_of_Some) blast
qed

lemma sint_ucast_id: "sint (ucast (x :: dm_id) :: u32) = uint x"
proof -
  have "uint x < 2 ^ 16" using unsigned_less [of x] by simp
  moreover have "- (2 ^ 31) \<le> uint x" by (rule order_trans [of _ 0]) simp_all
  ultimately have "signed_take_bit 31 (uint x) = uint x" by (intro signed_take_bit_int_eq_self) simp_all
  then show ?thesis by (simp add: signed_ucast_eq)
qed

lemma find_instance_number:
  assumes "object_rep s ta M"
  shows "find_instance s (Some ta) 0 T_INSTANCE (set_DM_INT v (ucast x)) = Some (M x)"
proof -
  from assms obtain t rs where t: "trees s ta = Some t" and ob: "object_at s ta t M rs" by (auto simp: object_rep_def)
  then obtain d ds where d: "it_def t = d # ds" "ix_type d = T_INSTANCE" "ix_element d = 0"
    by (cases "it_def t") (auto simp: object_at_def instance_index_def)
  have key: "\<exists>y. M y = Some a \<and> row_key s d a = Some [uint y]" if "a \<in> ran M" for a
    using instance_key [OF ob that] d by simp
  have sx: "sint (ucast x :: u32) = uint x" by (rule sint_ucast_id)
  have cmpv: "cmp_value s (it_def t) 0 (set_DM_INT v (ucast x)) a = Some (lcmp [uint x] (the (row_key s (it_def t ! 0) a)))"
    if "a \<in> ran M" for a
    using key [OF that] d sx by (auto simp: cmp_value_def row_key_def INTCMP_lcmp split: Option.bind_split_asm)
  have inj: "M y = Some a \<Longrightarrow> M z = Some a \<Longrightarrow> y = z" for y z a
    using ob unfolding object_at_def by (metis option.inject)
  have call: "find_instance s (Some ta) 0 T_INSTANCE (set_DM_INT v (ucast x)) = idx_FIND ta 0 (set_DM_INT v (ucast x)) s"
    using t d by (simp add: find_instance_def id2idx_def)
  have set0: "set (addrs (rs 0)) = ran M" using ob by (simp add: object_at_def)
  from idx_FIND_spec [OF t ob _ cmpv] d set0
  consider a where "a \<in> ran M" "row_key s d a = Some [uint x]" "idx_FIND ta 0 (set_DM_INT v (ucast x)) s = Some (Some a)"
    | "\<forall>a \<in> ran M. row_key s d a \<noteq> Some [uint x]" "idx_FIND ta 0 (set_DM_INT v (ucast x)) s = Some None"
    by auto
  then show ?thesis
  proof cases
    case 1
    then have "M x = Some a" using key by (fastforce dest!: unsigned_word_eqI)
    then show ?thesis using call 1 by simp
  next
    case 2
    have "M x = None"
    proof (rule ccontr)
      assume "M x \<noteq> None"
      then obtain a where a: "M x = Some a" by auto
      then have "a \<in> ran M" by (rule ranI)
      then show False using key [of a] inj [OF a] 2 by blast
    qed
    then show ?thesis using call 2 by simp
  qed
qed


text \<open>
  C3: Looking up an instance number in an object finds its row, and nothing when there is none;
  looking it up in the object of a null pointer finds nothing.
\<close>
theorem find_instance_lookup:
  assumes "object_rep s ta M"
  shows "find_instance s (Some ta) 0 T_INSTANCE (set_DM_INT v (ucast x)) = Some (M x) \<and>
    find_instance s None 0 T_INSTANCE (set_DM_INT v (ucast x)) = Some None"
  using find_instance_number [OF assms] by (simp add: find_instance_def)

section \<open>Row by row\<close>

lemma find_row_list:
  assumes "\<And>us a vs. xs = us @ a # vs \<Longrightarrow> next_row a = Some (hd_ptr vs)"
    and "\<And>a. a \<in> set xs \<Longrightarrow> test a = Some (b a)"
  shows "find_row next_row test (hd_ptr xs) = Some (find b xs)"
  using assms
proof (induction xs)
  case Nil
  then show ?case by (simp add: find_row.simps)
next
  case (Cons y ys)
  have "find_row next_row test (hd_ptr ys) = Some (find b ys)"
  proof (rule Cons.IH)
    show "next_row a = Some (hd_ptr vs)" if "ys = us @ a # vs" for us a vs
      using Cons.prems(1) [of "y # us" a vs] that by simp
  qed (use Cons.prems(2) in simp)
  with Cons.prems(1) [of "[]" y ys] Cons.prems(2) [of y] show ?case
    by (subst find_row.simps) simp
qed

lemma unique_groups:
  assumes ob: "object_at s ta t M rs" and g: "g \<in> set (groups (rs 0))"
  shows "\<exists>a. g = [a]"
proof -
  have zero: "0 < length (it_def t)" using ob by (simp add: object_at_def)
  have at: "index_at s t 0 (rs 0)" and sub: "set (addrs (rs 0)) = ran M" using ob zero by (simp_all add: object_at_def)
  then have ord: "rows.ordered s (it_def t) 0 (groups (rs 0))" and dist: "distinct (addrs (rs 0))"
    by (simp_all add: index_at_def rows.index_inv_def repr_def)
  have same: "a = b" if ab: "a \<in> set g" "b \<in> set g" for a b
  proof -
    have mem: "a \<in> ran M" "b \<in> ran M" using ab g sub by (auto simp: addrs_groups)
    have gg: "row_ok s (it_def t) 0 c" "rows.eqv s (it_def t) 0 (hd g) c" "row_ok s (it_def t) 0 (hd g)" if "c \<in> set g" for c
      using ord g that by (auto simp: rows.ordered_def)
    have "row_key s (it_def t ! 0) a = row_key s (it_def t ! 0) b"
      using gg [OF ab(1)] gg [OF ab(2)] by (simp add: rows_eqv)
    with instance_key [OF ob mem(1)] instance_key [OF ob mem(2)] show ?thesis by (auto dest!: unsigned_word_eqI)
  qed
  have dg: "distinct g" using dist g by (simp add: addrs_groups distinct_concat_iff)
  obtain a where a: "a \<in> set g" using groups_nonempty [of "rs 0"] g by (cases g) auto
  with same have "set g = {a}" by blast
  with distinct_card [OF dg] have "length g = 1" by simp
  with a show ?thesis by (cases g) auto
qed

lemma TREE_NEXT_single:
  assumes rep: "repr m t" and sing: "\<And>g. g \<in> set (groups t) \<Longrightarrow> \<exists>a. g = [a]" and e: "addrs t = us @ e # vs"
  shows "TREE_NEXT m (Some e) = Some (hd_ptr vs)"
proof -
  from e have "e \<in> set (addrs t)" by simp
  then obtain k l c a ds r where t: "t = plug k (Nd l c a ds r)" and g: "e \<in> set (a # ds)" using locate by blast
  have "a # ds \<in> set (groups t)" by (simp add: t groups_plug)
  then have "ds = []" using sing by auto
  with g have ds: "ds = []" "e = a" by simp_all
  have dist: "distinct (addrs t)" using rep by (simp add: repr_def)
  have "addrs t = (concat (ctx_before k) @ addrs l) @ e # addrs r @ concat (ctx_after k)"
    using ds by (simp add: t addrs_plug)
  with e dist have "vs = addrs r @ concat (ctx_after k)"
    using append_Cons_eq_iff [of e us vs "concat (ctx_before k) @ addrs l" "addrs r @ concat (ctx_after k)"] by auto
  with TREE_NEXT_spec [OF rep [unfolded t]] ds show ?thesis by simp
qed


text \<open>The key of a row for a search by type and element.\<close>

definition value_key :: "dmst \<Rightarrow> dm_type \<Rightarrow> dm_id \<Rightarrow> addr \<Rightarrow> int list option" where
  "value_key s ty x a = do { v \<leftarrow> row_value s a x; vkey s ty v }"

lemma linear_search:
  assumes t: "trees s ta = Some t" and ob: "object_at s ta t M rs" and x: "id2idx (it_def t) x < 0"
    and k: "vkey s ty val = Some k" and rows: "\<forall>a \<in> ran M. value_key s ty x a \<noteq> None"
  shows "find_instance s (Some ta) x ty val = Some (find (\<lambda>a. value_key s ty x a = Some k) (addrs (rs 0)))"
proof -
  let ?m = "\<lparr>rbh = idxmem s 0, rbroot = it_root t ! 0\<rparr>"
  let ?test = "\<lambda>a. do { assert_index_magic s a True; v \<leftarrow> row_value s a x; c \<leftarrow> dm_compare_values s ty val v; Some (c = 0) }"
  have zero: "0 < length (it_def t)" and set0: "set (addrs (rs 0)) = ran M" using ob by (simp_all add: object_at_def)
  note idx = object_index [OF ob zero]
  have rep: "repr ?m (rs 0)" using idx(1) by (simp add: index_at_def rows.index_inv_def)
  have test: "?test a = Some (value_key s ty x a = Some k)" if a: "a \<in> set (addrs (rs 0))" for a
  proof -
    have aM: "a \<in> ran M" using a set0 by simp
    then obtain v k' where "row_value s a x = Some v" "vkey s ty v = Some k'" "value_key s ty x a = Some k'"
      using rows by (fastforce simp: value_key_def split: Option.bind_splits)
    then show ?thesis using live_row_magic [OF object_live [OF ob aM]] dm_compare_values_key [OF k] by auto
  qed
  have "find_row (\<lambda>a. TREE_NEXT ?m (Some a)) ?test (hd_ptr (addrs (rs 0))) =
      Some (find (\<lambda>a. value_key s ty x a = Some k) (addrs (rs 0)))"
    by (rule find_row_list) (use TREE_NEXT_single [OF rep unique_groups [OF ob]] test in auto)
  then show ?thesis using t x idx(3) MINMAX_first [OF rep] by (simp add: find_instance_def rb_of_Some Let_def)
qed

lemma id2idx_from_index:
  "id2idx_from j def x \<ge> 0 \<Longrightarrow> \<exists>i < length def. id2idx_from j def x = int (j + i) \<and> ix_element (def ! i) = x"
proof (induction j "def" x rule: id2idx_from.induct)
  case (2 j d ds x)
  show ?case
  proof (cases "ix_element d = x")
    case False
    with 2 obtain i where "i < length ds" "id2idx_from (j + 1) ds x = int (j + 1 + i)" "ix_element (ds ! i) = x" by auto
    with False show ?thesis by (intro exI [of _ "Suc i"]) simp
  qed (intro exI [of _ 0], simp)
qed simp



section \<open>Loops over the rows\<close>

definition rows_of :: "(dm_id \<Rightarrow> addr option) \<Rightarrow> addr list" where
  "rows_of M = map (\<lambda>x. the (M x)) (sorted_list_of_set (dom M))"

lemma set_rows_of: "finite (dom M) \<Longrightarrow> set (rows_of M) = ran M"
  by (auto simp: rows_of_def ran_def dom_def image_iff) (metis option.sel)

lemma groups_single: "(\<And>g. g \<in> set gs \<Longrightarrow> \<exists>a. g = [a]) \<Longrightarrow> concat gs = map hd gs"
  by (induction gs) force+

lemma object_rows:
  assumes ob: "object_at s ta t M rs"
  shows "addrs (rs 0) = rows_of M"
proof -
  have zero: "0 < length (it_def t)" and set0: "set (addrs (rs 0)) = ran M" and fin: "finite (dom M)"
    using ob by (simp_all add: object_at_def)
  have hd: "addrs (rs 0) = heads (rs 0)"
    unfolding addrs_groups heads_def using unique_groups [OF ob] by (rule groups_single)
  define no where "no a = the (instance_no s a)" for a
  have no: "instance_no s a = Some (no a)" "M (no a) = Some a" "row_key s (it_def t ! 0) a = Some [uint (no a)]" if "a \<in> ran M" for a
  proof -
    from instance_key [OF ob that] obtain x where x: "M x = Some a" "row_key s (it_def t ! 0) a = Some [uint x]" by auto
    then have "instance_no s a = Some x" using ob by (simp add: object_at_def)
    then show "instance_no s a = Some (no a)" "M (no a) = Some a" "row_key s (it_def t ! 0) a = Some [uint (no a)]"
      using x by (simp_all add: no_def)
  qed
  have "sorted_wrt (\<lambda>a b. no a < no b) (addrs (rs 0))"
    using index_key_order [OF object_index(1) [OF ob zero]] unfolding hd [symmetric]
    by (rule sorted_wrt_mono_rel [rotated]) (use no(3) set0 in \<open>auto simp: word_less_def split: if_splits\<close>)
  then have "sorted_wrt (<) (map no (addrs (rs 0)))" by (simp add: sorted_wrt_map)
  moreover have "set (map no (addrs (rs 0))) = dom M"
  proof -
    have "no a \<in> dom M" if "a \<in> ran M" for a using no(2) [OF that] by auto
    moreover have "x \<in> no ` ran M" if x: "M x = Some a" for x a
    proof -
      have "instance_no s a = Some x" using x ob by (simp add: object_at_def)
      then have "no a = x" by (simp add: no_def)
      then show ?thesis using ranI [of M x a] x by force
    qed
    ultimately show ?thesis using set0 by auto
  qed
  ultimately have "map no (addrs (rs 0)) = sorted_list_of_set (dom M)"
    using fin by (metis sorted_list_of_set.idem_if_sorted_distinct sorted_list_of_set.sorted_sorted_key_list_of_set
        strict_sorted_iff sorted_distinct_set_unique finite_set sorted_list_of_set.distinct_sorted_key_list_of_set
        sorted_list_of_set.set_sorted_key_list_of_set)
  then have "rows_of M = map (\<lambda>a. the (M (no a))) (addrs (rs 0))" by (simp add: rows_of_def comp_def flip: \<open>map no _ = _\<close>)
  also have "\<dots> = addrs (rs 0)" by (rule map_idI) (use no(2) set0 in simp)
  finally show ?thesis ..
qed

lemma object_step:
  assumes "object_rep s ta M"
  shows "dm_instance_first s (Some ta) = Some (hd_ptr (rows_of M))"
    "rows_of M = us @ a # vs \<Longrightarrow> dm_instance_next s (Some ta) a = Some (hd_ptr vs)"
    "finite (dom M)"
proof -
  from assms obtain t rs where t: "trees s ta = Some t" and ob: "object_at s ta t M rs" by (auto simp: object_rep_def)
  then have zero: "0 < length (it_def t)" by (simp add: object_at_def)
  note idx = object_index [OF ob zero]
  let ?m = "\<lparr>rbh = idxmem s 0, rbroot = it_root t ! 0\<rparr>"
  have rep: "repr ?m (rs 0)" using idx(1) by (simp add: index_at_def rows.index_inv_def)
  have m: "rb_of s ta 0 = Some ?m" by (rule rb_of_Some [OF t idx(3)])
  show "dm_instance_first s (Some ta) = Some (hd_ptr (rows_of M))"
    using m MINMAX_first [OF rep] object_rows [OF ob] by (simp add: dm_instance_first_def)
  show "dm_instance_next s (Some ta) a = Some (hd_ptr vs)" if "rows_of M = us @ a # vs"
    using m IDX_NEXT_spec [OF rep, of us a vs] object_rows [OF ob] that by (simp add: dm_instance_next_def)
  show "finite (dom M)" using ob by (simp add: object_at_def)
qed

lemma for_rows_suffix:
  assumes keep: "\<And>a bs bs'. a \<in> ran M \<Longrightarrow> object_rep (snd bs) ta M \<Longrightarrow> body a bs = Some bs' \<Longrightarrow> object_rep (snd bs') ta M"
    and "rows_of M = us @ ws" "object_rep (snd bs) ta M"
  shows "for_rows (\<lambda>s. dm_instance_next s (Some ta)) body (hd_ptr ws) bs = ofold body ws bs"
  using assms(2,3)
proof (induction ws arbitrary: us bs)
  case Nil
  then show ?case by (simp add: for_rows.simps)
next
  case (Cons w ws)
  have w: "w \<in> ran M" using set_rows_of [OF object_step(3) [OF Cons.prems(2)]] Cons.prems(1) by auto
  show ?case
  proof (cases "body w bs")
    case None
    then show ?thesis by (subst for_rows.simps) simp
  next
    case (Some bs')
    have ob: "object_rep (snd bs') ta M" by (rule keep [OF w Cons.prems(2) Some])
    have "dm_instance_next (snd bs') (Some ta) w = Some (hd_ptr ws)"
      by (rule object_step(2) [OF ob Cons.prems(1)])
    with Cons.IH [of "us @ [w]" bs'] Cons.prems(1) ob Some show ?thesis by (subst for_rows.simps) simp
  qed
qed

text \<open>
  C11: A loop over the rows of an object, from its first row on with the next row of each, runs
  its body once for every row, in ascending order of the instance numbers, as long as the body
  leaves the object as it is.
\<close>
theorem for_rows_in_order:
  assumes "object_rep s ta M"
    and "\<And>a bs bs'. a \<in> ran M \<Longrightarrow> object_rep (snd bs) ta M \<Longrightarrow> body a bs = Some bs' \<Longrightarrow> object_rep (snd bs') ta M"
  shows "do { p \<leftarrow> dm_instance_first s (Some ta); for_rows (\<lambda>s. dm_instance_next s (Some ta)) body p (b, s) } =
    ofold body (map (\<lambda>x. the (M x)) (sorted_list_of_set (dom M))) (b, s)"
proof -
  have "for_rows (\<lambda>s. dm_instance_next s (Some ta)) body (hd_ptr (rows_of M)) (b, s) = ofold body (rows_of M) (b, s)"
    by (rule for_rows_suffix [of M ta body "[]"]) (use assms in simp_all)
  then show ?thesis using object_step(1) [OF assms(1)] by (simp add: rows_of_def)
qed

end
