(* ===== verification/Dm_Instance_Examples.thy ===== *)
theory Dm_Instance_Examples
  imports Dm_Search
begin

text \<open>
  A small store with an object of one row, number 7, that is indexed by its instance number and
  by its first element and counted in another table, and with a second row, number 9 and equal
  to the first in that element, that is not in the object yet. The results about objects are
  applied to it. Last, the number for external interfaces that cannot be given back.
\<close>

definition example_tree :: instance_tree where
  "example_tree = \<lparr>it_def = [\<lparr>ix_flags = IDX_UNIQUE, ix_type = T_INSTANCE, ix_element = 0\<rparr>,
       \<lparr>ix_flags = 0, ix_type = T_UINT, ix_element = 1\<rparr>],
     it_cntr_base = Some 5, it_cntr_id = 1, it_id_map = [1], it_cnt = 1, it_root = [Some 3, Some 3]\<rparr>"

definition example_row :: "addr \<Rightarrow> dm_id \<Rightarrow> bool \<Rightarrow> instance_node" where
  "example_row a x b = \<lparr>in_table = set_DM_TABLE zero_value (Some a), in_instance = x, in_idm = (if b then 1 else 0),
     in_root = (if b then Some 0 else None), in_indexed = b\<rparr>"

definition example_table :: "u32 \<Rightarrow> value_table" where
  "example_table n = \<lparr>vt_id = 4 # replicate 15 0, vt_values = [set_DM_UINT zero_value n]\<rparr>"

definition example_store :: dmst where
  "example_store = initial_state\<lparr>trees := [0 \<mapsto> example_tree],
     nodes := [3 \<mapsto> example_row 3 7 True, 4 \<mapsto> example_row 4 9 False],
     tables := [3 \<mapsto> example_table 3, 4 \<mapsto> example_table 3, 5 \<mapsto> example_table 1],
     idxmem := (\<lambda>i. [3 \<mapsto> zero_node\<lparr>rbe_color := BLACK\<rparr>])\<rparr>"

lemma example_sel:
  "trees example_store = [0 \<mapsto> example_tree]" "tables example_store = [3 \<mapsto> example_table 3, 4 \<mapsto> example_table 3, 5 \<mapsto> example_table 1]"
  "nodes example_store = [3 \<mapsto> example_row 3 7 True, 4 \<mapsto> example_row 4 9 False]"
  "idxmem example_store i = [3 \<mapsto> zero_node\<lparr>rbe_color := BLACK\<rparr>]" "slots example_store = slots_init"
  by (simp_all add: example_store_def initial_state_def)

lemma example_key:
  "row_key example_store \<lparr>ix_flags = f, ix_type = T_UINT, ix_element = 1\<rparr> 3 = Some [3]"
  "row_key example_store \<lparr>ix_flags = f, ix_type = T_UINT, ix_element = 1\<rparr> 4 = Some [3]"
  "row_key example_store \<lparr>ix_flags = f, ix_type = T_INSTANCE, ix_element = 0\<rparr> 3 = Some [7]"
  "row_key example_store \<lparr>ix_flags = f, ix_type = T_INSTANCE, ix_element = 0\<rparr> 4 = Some [9]"
  by (simp_all add: row_key_def row_value_def vkey_def val_ref_def example_sel example_row_def example_table_def)

lemma example_row_ok:
  assumes "i < length (it_def example_tree)"
  shows "row_ok example_store (it_def example_tree) i 3" "row_ok example_store (it_def example_tree) i 4"
proof -
  have "i = 0 \<or> i = 1" using assms by (auto simp: example_tree_def)
  then show "row_ok example_store (it_def example_tree) i 3" "row_ok example_store (it_def example_tree) i 4"
    by (auto simp: row_ok_def example_tree_def example_key)
qed

lemma example_index:
  assumes "i < length (it_def example_tree)"
  shows "index_at example_store example_tree i (Nd Lf BLACK 3 [] Lf)"
proof -
  have "it_root example_tree ! i = Some 3" using assms by (auto simp: example_tree_def nth_Cons')
  then have "repr \<lparr>rbh = idxmem example_store i, rbroot = it_root example_tree ! i\<rparr> (Nd Lf BLACK 3 [] Lf)"
    by (simp add: repr_def example_sel zero_node_def)
  moreover have "rb_tree (Nd Lf BLACK 3 [] Lf)" by (auto simp: rb_tree_def intro!: exI [of _ 1])
  moreover have "rows.ordered example_store (it_def example_tree) i (groups (Nd Lf BLACK 3 [] Lf))"
    using example_row_ok [OF assms] by (simp add: rows.ordered_def rows_eqv)
  ultimately show ?thesis by (simp add: index_at_def rows.index_inv_def)
qed

lemma example_object_at: "object_at example_store 0 example_tree [7 \<mapsto> 3] (\<lambda>_. Nd Lf BLACK 3 [] Lf)"
proof -
  have "it_def example_tree \<noteq> []" "instance_index (hd (it_def example_tree))" "length (it_root example_tree) = length (it_def example_tree)"
    "it_cnt example_tree = 1" by (simp_all add: example_tree_def instance_index_def has_def IDX_UNIQUE_def)
  moreover have "live_row example_store 0 3" "instance_no example_store 3 = Some 7"
    by (simp_all add: live_row_def instance_no_def example_sel example_row_def)
  ultimately show ?thesis using example_index example_row_ok(1) by (simp add: object_at_def)
qed

lemma example_object: "object_rep example_store 0 [7 \<mapsto> 3]"
  using example_object_at by (auto simp: object_rep_def example_sel)

lemma example_counter: "counter_ok example_store (Some 5) 1" "counter_value example_store 5 1 = Some 1"
  by (simp_all add: counter_ok_def counter_value_def example_sel example_table_def is_selector_def DM_SELECTOR_LEN_def)

lemma example_row_table: "row_table example_store 3 = Some 3" "row_table example_store 4 = Some 4"
  by (simp_all add: row_table_def example_sel example_row_def)

lemma example_slots: "slots_inv example_store"
  using slots_inv_initial by (simp add: slots_inv_def example_sel initial_state_def)

section \<open>The results about objects\<close>

theorem insert_instance_adds_witness:
  "\<exists>s'. insert_instance (Some 0) 4 example_store = Some s' \<and> object_rep s' 0 [7 \<mapsto> 3, 9 \<mapsto> 4] \<and>
    counter_value s' 5 1 = Some 2"
proof -
  have "insertable example_store 0 [7 \<mapsto> 3] 9 4"
    unfolding insertable_def using example_row_ok(2) example_counter(1) example_row_table
    by (simp add: example_sel(1,3)) (simp add: example_tree_def example_row_def)
  from insert_instance_adds [OF example_object this example_slots] obtain s' where
    "insert_instance (Some 0) 4 example_store = Some s'" "object_rep s' 0 [7 \<mapsto> 3, 9 \<mapsto> 4]"
    "counter_value s' 5 (it_cntr_id example_tree) = map_option (\<lambda>n. n + 1) (counter_value example_store 5 (it_cntr_id example_tree))"
    by (auto simp: example_sel example_tree_def)
  then show ?thesis using example_counter by (auto simp: example_tree_def)
qed

theorem remove_instance_removes_witness:
  "\<exists>s'. remove_instance (Some 0) 3 example_store = Some s' \<and> object_rep s' 0 Map.empty \<and> counter_value s' 5 1 = Some 0"
proof -
  have "removable example_store 0 [7 \<mapsto> 3] 7 3"
    unfolding removable_def using example_counter(1) example_row_table
    by (simp add: example_sel(1,3)) (simp add: example_tree_def example_row_def)
  from remove_instance_removes [OF example_object this example_slots] obtain s' where
    "remove_instance (Some 0) 3 example_store = Some s'" "object_rep s' 0 ([7 \<mapsto> 3](7 := None))"
    "counter_value s' 5 (it_cntr_id example_tree) = map_option (\<lambda>n. n - 1) (counter_value example_store 5 (it_cntr_id example_tree))"
    by (auto simp: example_sel example_tree_def)
  then show ?thesis using example_counter by (auto simp: example_tree_def)
qed

theorem find_instance_lookup_witness:
  "find_instance example_store (Some 0) 0 T_INSTANCE (set_DM_INT zero_value (ucast (7 :: dm_id))) = Some (Some 3) \<and>
   find_instance example_store (Some 0) 0 T_INSTANCE (set_DM_INT zero_value (ucast (9 :: dm_id))) = Some None"
  using find_instance_lookup [OF example_object, of zero_value 7] find_instance_lookup [OF example_object, of zero_value 9]
  by simp


theorem for_rows_in_order_witness:
  "do { p \<leftarrow> dm_instance_first example_store (Some 0);
        for_rows (\<lambda>s. dm_instance_next s (Some 0)) (\<lambda>a (n, s). Some (n + a, s)) p (0, example_store) } =
   Some (3, example_store)"
  by (subst for_rows_in_order [OF example_object]) auto

section \<open>Numbers for external interfaces\<close>

text \<open>
  The last number of an object that maps its rows to small numbers can be given to a row but
  not taken back: the assertion in \<open>remove_instance\<close> looks at the word of the following number.
\<close>
theorem last_idm_not_released:
  assumes "trees s ta = Some t" "nodes s e = Some n" "it_id_map t \<noteq> []"
    "map_ffz (it_id_map t) = int (32 * length (it_id_map t)) - 1"
  shows "\<exists>s'. assign_idm ta e s = Some s' \<and> release_idm ta e s' = None"
proof -
  have len: "0 < length (it_id_map t)" using assms(3) by simp
  then have ge: "0 \<le> map_ffz (it_id_map t)" using assms(4) by linarith
  obtain m' where m': "map_set_bit (it_id_map t) (nat (map_ffz (it_id_map t))) = Some m'" "length m' = length (it_id_map t)"
    by (rule map_set_bit_spec [OF map_ffz_range [OF ge]])
  let ?n = "n\<lparr>in_idm := map_ffz (it_id_map t) + 1\<rparr>"
  let ?s = "s\<lparr>trees := (trees s)(ta \<mapsto> t\<lparr>it_id_map := m'\<rparr>), nodes := (nodes s)(e \<mapsto> ?n)\<rparr>"
  have "assign_idm ta e s = Some ?s" using assms ge m' by (simp add: assign_idm_def node_upd_def)
  moreover have "release_idm ta e ?s = None"
    using len assms(4) m' by (auto simp: release_idm_def bits_size_def)
  ultimately show ?thesis by blast
qed

theorem last_idm_not_released_witness:
  "\<exists>s'. assign_idm 0 4 (example_store\<lparr>trees := [0 \<mapsto> example_tree\<lparr>it_id_map := [0x7FFFFFFF]\<rparr>]\<rparr>) = Some s' \<and>
    release_idm 0 4 s' = None"
proof (rule last_idm_not_released)
  show "map_ffz (it_id_map (example_tree\<lparr>it_id_map := [0x7FFFFFFF]\<rparr>)) = int (32 * length (it_id_map (example_tree\<lparr>it_id_map := [0x7FFFFFFF]\<rparr>))) - 1"
    by (simp, code_simp)
qed (auto simp: example_sel)

end
