(* ===== verification/Dm_Object_Props.thy ===== *)
theory Dm_Object_Props
  imports Dm_Object Dm_Instance_Examples
begin

text \<open>
  The numbers of new rows: the search of \<open>dm_add_instance\<close> for a free number in a range
  returns the least one; a number that the caller asks for is not looked up, and the row is
  counted and kept although the object has one of that number.
\<close>

section \<open>The next row\<close>

lemma sorted_split_above:
  assumes "finite A" "z \<in> A"
  obtains us vs where "sorted_list_of_set A = us @ z # vs" "vs = sorted_list_of_set {w \<in> A. z < w}"
proof -
  let ?l = "sorted_list_of_set A"
  have "z \<in> set ?l" using assms by simp
  then obtain us vs where l: "?l = us @ z # vs" using split_list by fast
  have s: "sorted_wrt (<) (us @ z # vs)" using strict_sorted_list_of_set [of A] unfolding l .
  have "set ?l = A" using assms(1) by simp
  then have A: "A = set us \<union> {z} \<union> set vs" unfolding l by auto
  have "{w \<in> A. z < w} = set vs" unfolding A using s by (auto simp: sorted_wrt_append)
  moreover have "sorted_list_of_set (set vs) = vs"
    using s by (intro sorted_list_of_set.idem_if_sorted_distinct) (auto simp: sorted_wrt_append strict_sorted_iff)
  ultimately show thesis using that l by simp
qed

lemma next_row:
  assumes ob: "object_rep s ta M" and z: "M z = Some a"
  shows "dm_instance_next s (Some ta) a =
    Some (if {w \<in> dom M. z < w} = {} then None else M (Min {w \<in> dom M. z < w}))"
proof -
  have fin: "finite (dom M)" by (rule object_step(3) [OF ob])
  have "z \<in> dom M" using z by auto
  then obtain us vs where l: "sorted_list_of_set (dom M) = us @ z # vs" "vs = sorted_list_of_set {w \<in> dom M. z < w}"
    by (rule sorted_split_above [OF fin])
  have "rows_of M = map (\<lambda>x. the (M x)) us @ a # map (\<lambda>x. the (M x)) vs" using l(1) z by (simp add: rows_of_def)
  from object_step(2) [OF ob this] have nx: "dm_instance_next s (Some ta) a = Some (hd_ptr (map (\<lambda>x. the (M x)) vs))" .
  show ?thesis
  proof (cases "{w \<in> dom M. z < w} = {}")
    case True
    then have "vs = []" unfolding l(2) by simp
    then show ?thesis using nx True by simp
  next
    case False
    have fin': "finite {w \<in> dom M. z < w}" using fin by simp
    have "vs = Min {w \<in> dom M. z < w} # sorted_list_of_set ({w \<in> dom M. z < w} - {Min {w \<in> dom M. z < w}})"
      unfolding l(2) by (rule sorted_list_of_set_nonempty [OF fin' False])
    moreover obtain b where "M (Min {w \<in> dom M. z < w}) = Some b" using Min_in [OF fin' False] by blast
    ultimately have "dm_instance_next s (Some ta) a = Some (M (Min {w \<in> dom M. z < w}))" using nx by simp
    then show ?thesis using False by (simp only: if_False)
  qed
qed

section \<open>Free numbers\<close>

lemma word_Suc_le: "z < y \<Longrightarrow> z < z + 1 \<and> z + 1 \<le> y" for z y :: "'a::len word"
proof -
  assume lt: "z < y"
  then have u: "unat z < unat y" by (simp add: word_less_nat_alt)
  have "unat y < 2 ^ LENGTH('a)" by (rule unsigned_less)
  with u have "unat z + 1 < 2 ^ LENGTH('a)" by linarith
  then have "unat (z + 1) = unat z + 1" by (simp add: unat_word_ariths)
  with u show ?thesis by (simp add: word_less_nat_alt word_le_nat_alt)
qed

lemma object_number:
  assumes "object_rep s ta M" "M x = Some b"
  obtains n where "nodes s b = Some n" "in_instance n = x"
proof -
  have "instance_no s b = Some x" using assms by (auto simp: object_rep_def object_at_def)
  then show thesis using that by (auto simp: instance_no_def)
qed

lemma free_id_least:
  assumes ob: "object_rep s ta M" and y: "M y = None"
  shows "M z = Some a \<Longrightarrow> z < y \<Longrightarrow> (\<And>w. z < w \<Longrightarrow> w < y \<Longrightarrow> M w \<noteq> None) \<Longrightarrow> free_id s (Some ta) (Some a) z = Some y"
proof (induction "unat y - unat z" arbitrary: z a rule: less_induct)
  case less
  let ?A = "{w \<in> dom M. z < w}"
  have fin: "finite ?A" using object_step(3) [OF ob] by simp
  have z1: "z < z + 1" "z + 1 \<le> y" using word_Suc_le [OF less.prems(2)] by auto
  have above: "z + 1 \<le> w" if "z < w" for w using word_Suc_le [OF that] by simp
  show ?case
  proof (cases "z + 1 = y")
    case True
    have gt: "y < w" if "w \<in> ?A" for w using that above [of w] y True by (auto simp: order_less_le)
    show ?thesis
    proof (cases "?A = {}")
      case True
      then show ?thesis using next_row [OF ob less.prems(1)] \<open>z + 1 = y\<close> by (subst free_id.simps) simp
    next
      case False
      have m: "Min ?A \<in> ?A" by (rule Min_in [OF fin False])
      then obtain b where b: "M (Min ?A) = Some b" by auto
      then obtain n where "nodes s b = Some n" "in_instance n = Min ?A" by (rule object_number [OF ob])
      then show ?thesis using next_row [OF ob less.prems(1), unfolded if_not_P [OF False]] b gt [OF m] \<open>z + 1 = y\<close>
        by (subst free_id.simps) simp
    qed
  next
    case False
    then have lt: "z + 1 < y" using z1 by simp
    then obtain b where b: "M (z + 1) = Some b" using less.prems(3) [of "z + 1"] z1 by auto
    have "Min ?A = z + 1"
      by (rule Min_eqI) (use fin b z1 above in auto)
    moreover have "?A \<noteq> {}" using b z1 by auto
    moreover obtain n where n: "nodes s b = Some n" "in_instance n = z + 1" by (rule object_number [OF ob b])
    moreover have "free_id s (Some ta) (Some b) (z + 1) = Some y"
    proof (rule less.hyps)
      have "unat z < unat (z + 1)" "unat (z + 1) < unat y" using z1 lt by (simp_all only: word_less_nat_alt)
      then show "unat y - unat (z + 1) < unat y - unat z" by linarith
    qed (use b lt z1 less.prems(3) in auto)
    ultimately show ?thesis using next_row [OF ob less.prems(1), unfolded if_not_P [OF \<open>?A \<noteq> {}\<close>]] b
      by (subst free_id.simps) simp
  qed
qed

text \<open>
  C17: A new row without a number of its own (the identifier is the start of one of the ranges
  for numbers) gets the least free number above that start, if there is one.
\<close>
theorem choose_id_least_free:
  assumes "object_rep s ta M" "x AND DM_ID_MASK = 0" "x < y" "M y = None"
    and "\<And>w. x < w \<Longrightarrow> w < y \<Longrightarrow> M w \<noteq> None"
  shows "choose_id s (Some ta) x = Some y"
proof -
  have x1: "x < x + 1" "x + 1 \<le> y" using word_Suc_le [OF assms(3)] by auto
  have find: "find_instance s (Some ta) 0 T_INSTANCE (set_DM_INT zero_value (ucast (x + 1))) = Some (M (x + 1))"
    by (rule find_instance_number [OF assms(1)])
  show ?thesis
  proof (cases "x + 1 = y")
    case True
    then show ?thesis using find assms(2,4) by (simp add: choose_id_def free_id.simps Let_def)
  next
    case False
    then have lt: "x + 1 < y" using x1 by simp
    then obtain a where a: "M (x + 1) = Some a" using assms(5) [of "x + 1"] x1 by auto
    have "free_id s (Some ta) (Some a) (x + 1) = Some y"
      by (rule free_id_least [OF assms(1,4) a lt]) (use assms(5) x1 in force)
    then show ?thesis using find a assms(2) by (simp add: choose_id_def Let_def)
  qed
qed


theorem choose_id_least_free_witness: "choose_id example_store (Some 0) 0 = Some 1"
proof (rule choose_id_least_free [OF example_object])
  show "(0 :: dm_id) AND DM_ID_MASK = 0" "(0 :: dm_id) < 1" "[7 \<mapsto> 3] (1 :: dm_id) = None" by simp_all
  show "[7 \<mapsto> 3] w \<noteq> None" if "0 < w" "w < 1" for w :: dm_id using that by (simp add: word_less_nat_alt)
qed

definition duplicate_store :: dmst where
  "duplicate_store = example_store\<lparr>nodes := [3 \<mapsto> example_row 3 7 True, 4 \<mapsto> example_row 4 7 False]\<rparr>"

text \<open>
  A number that the caller asks for is taken without looking whether the object has it: in
  the example with the rows 7 and 7 the second one is counted, by the object and by its counter,
  and marked as indexed, but the index by number does not hold it and looking the number up finds
  the first one.
\<close>
theorem duplicate_number_counted:
  "choose_id duplicate_store (Some 0) 7 = Some 7 \<and>
   map_option (\<lambda>s. (map_option it_cnt (trees s 0), counter_value s 5 1, map_option in_indexed (nodes s 4), idxmem s 0 4,
       find_instance s (Some 0) 0 T_INSTANCE (set_DM_INT zero_value 7)))
     (insert_instance (Some 0) 4 duplicate_store) =
   Some (Some 2, Some 2, Some True, Some zero_node, Some (Some 3))"
  by (intro conjI) code_simp+

end
