(* ===== verification/Dm_Announce.thy ===== *)
theory Dm_Announce
  imports Dm_Notify_Frame Dm_Action
begin

text \<open>
  A change of the store is announced to the notification queues and to the chain of actions.
  Announcing never faults on well-formed queues, chains and action tables, memory or not, and
  touches nothing but them: this is all the writing functions need to know of both.
\<close>

definition announced :: "dmst \<Rightarrow> dmst \<Rightarrow> bool" where
  "announced s s' \<longleftrightarrow> slots_inv s' \<and> chain_inv s' \<and> st_brk s \<le> st_brk s' \<and>
     s' = s\<lparr>slots := slots s', notify_pending := notify_pending s', st_brk := st_brk s', exec_chain := exec_chain s'\<rparr>"

definition action_ok :: "dm_env \<Rightarrow> u16 \<Rightarrow> bool" where
  "action_ok env a \<longleftrightarrow> a = DM_NONE \<or> (\<exists>act. dm_actions env a = Some act \<and>
     (\<forall>b \<in> set (a # ac_chain act). \<exists>bct. dm_actions env b = Some bct \<and> ac_sel_len bct < 16))"

lemma announced_sel:
  assumes "announced s s'"
  shows "slots_inv s'" "chain_inv s'" "st_oom s' = st_oom s" "dm_mem s' = dm_mem s" "blobs s' = blobs s" "tables s' = tables s"
    "trees s' = trees s" "nodes s' = nodes s" "idxmem s' = idxmem s" "dm_value_store s' = dm_value_store s"
    "slot_map s' = slot_map s" "slot_cnt s' = slot_cnt s" "cache s' = cache s" "st_brk s \<le> st_brk s'"
  using assms by (cases s, cases s', simp add: announced_def)+

lemma announced_refl: "slots_inv s \<Longrightarrow> chain_inv s \<Longrightarrow> announced s s"
  by (simp add: announced_def)

lemma announced_trans: "announced s s' \<Longrightarrow> announced s' s'' \<Longrightarrow> announced s s''"
  by (cases s, cases s', cases s'') (simp add: announced_def)

lemma notified_announced: "notified s s' \<Longrightarrow> chain_inv s \<Longrightarrow> announced s s'"
  by (cases s, cases s') (simp add: notified_def announced_def chain_inv_def)

lemma insert_action_total:
  assumes "dm_actions env a = Some act" "ac_sel_len act < 16" "is_selector sel" "chain_inv s" "slots_inv s" "exec_chain s = Some chain"
  shows "\<exists>s' chain'. insert_action env a sel type s = Some s' \<and> announced s s' \<and> exec_chain s' = Some chain'"
proof -
  obtain sl where sl: "(if ac_sel_len act \<ge> 0 then upd_opt sel (nat (ac_sel_len act)) 0 else Some sel) = Some sl" "is_selector sl"
    by (rule path_cut [OF assms(3,2)])
  let ?n = "\<lparr>ex_action = a, ex_sel = sl, ex_type = type\<rparr>"
  have cp: "dm_selcpy no_selector sel = Some sel"
    using assms(3) by (simp add: dm_selcpy_def is_selector_no_selector)
  have q: "action_order.queue_inv chain" using assms(4,6) by (simp add: chain_inv_def)
  then obtain r chain' where ins: "rb_insert cmp_action ?n chain = Some (r, chain')" "action_order.queue_inv chain'"
    using action_order.rb_insert_spec [OF q, of ?n] sl(2) by auto
  show ?thesis
    using assms cp sl(1) ins
    by (cases "st_oom s (st_brk s)")
      (auto simp: insert_action_def malloc_def announced_def slots_inv_def chain_inv_def)
qed

lemma action_sel_total:
  assumes a: "action_ok env a" and sel: "is_selector sel" and inv: "chain_inv s" "slots_inv s"
  shows "\<exists>s'. action_sel env a sel type s = Some s' \<and> announced s s'"
proof (cases "a = DM_NONE")
  case True
  then show ?thesis using inv by (auto simp: action_sel_def intro: announced_refl)
next
  case False
  then obtain act where act: "dm_actions env a = Some act"
    and all: "\<And>b. b \<in> set (a # ac_chain act) \<Longrightarrow> \<exists>bct. dm_actions env b = Some bct \<and> ac_sel_len bct < 16"
    using a by (auto simp: action_ok_def)
  let ?s0 = "if exec_chain s = None then (case malloc s of (None, s) \<Rightarrow> s | (Some _, s) \<Rightarrow> s\<lparr>exec_chain := Some []\<rparr>) else s"
  have s0: "announced s ?s0" using inv by (auto simp: malloc_def announced_def chain_inv_def slots_inv_def)
  let ?P = "\<lambda>s'. announced s s' \<and> exec_chain s' \<noteq> None"
  have step: "\<exists>s''. insert_action env b sel type s' = Some s'' \<and> ?P s''" if b: "b \<in> set (a # ac_chain act)" and P: "?P s'" for b s'
  proof -
    obtain bct where bct: "dm_actions env b = Some bct" "ac_sel_len bct < 16" using all [OF b] by blast
    obtain chain where ch: "exec_chain s' = Some chain" using P by blast
    have an: "announced s s'" using P by simp
    from insert_action_total [OF bct sel announced_sel(2,1) [OF an] ch, of "type"]
    show ?thesis using announced_trans [OF an] by auto
  qed
  show ?thesis
  proof (cases "exec_chain ?s0")
    case None
    then show ?thesis using False s0 by (auto simp: action_sel_def Let_def)
  next
    case (Some chain)
    then obtain s1 where s1: "insert_action env a sel type ?s0 = Some s1" "?P s1" using step [of a ?s0] s0 by auto
    have "\<exists>s'. ofold (\<lambda>b. insert_action env b sel type) (ac_chain act) s1 = Some s' \<and> ?P s'"
      by (rule ofold_total [of ?P]) (use s1 step in auto)
    then show ?thesis using False act s1 Some by (auto simp: action_sel_def Let_def)
  qed
qed

lemma action_total:
  assumes a: "action_ok env a" and sel: "is_selector sel" and inv: "chain_inv s" "slots_inv s"
  shows "\<exists>s'. action env a sel i type s = Some s' \<and> announced s s'"
proof -
  have "dm_selcpy no_selector sel = Some sel"
    using sel by (simp add: dm_selcpy_def is_selector_no_selector)
  moreover obtain sel' where "dm_selcat sel i = Some sel'" "is_selector sel'"
    using dm_selcat_result [OF sel, of i] sel by (simp add: Let_def is_selector_def)
  ultimately show ?thesis using action_sel_total [OF a _ inv] inv
    by (auto simp: action_def intro: announced_refl)
qed

end
