(* ===== verification/Dm_Cells.thy ===== *)
theory Dm_Cells
  imports Dm_State
begin

text \<open>
  The places of values, \<^verbatim>\<open>DM_VALUE *\<close>, behave like variables: writing one changes this one
  only, and nothing of the store but the values.
\<close>

named_theorems cells \<open>reading after writing\<close>

lemma putv_getv: "getv s r = Some v \<Longrightarrow> \<exists>s'. putv s r w = Some s'"
  by (cases r) (auto simp: nth_opt_eq_Some split: Option.bind_splits)

lemma putv_frame:
  assumes "putv s r w = Some s'"
  shows "s' = s\<lparr>tables := tables s', nodes := nodes s'\<rparr>"
  using assms by (cases r) (auto split: Option.bind_splits)

lemma putv_sel [cells]:
  assumes "putv s r w = Some s'"
  shows "st_oom s' = st_oom s" "st_brk s' = st_brk s" "dm_mem s' = dm_mem s" "blobs s' = blobs s" "trees s' = trees s"
    "idxmem s' = idxmem s" "dm_value_store s' = dm_value_store s" "notify_pending s' = notify_pending s"
    "slot_map s' = slot_map s" "slot_cnt s' = slot_cnt s" "slots s' = slots s" "exec_chain s' = exec_chain s" "cache s' = cache s"
  using assms by (cases r; auto split: Option.bind_splits)+

lemma getv_putv [cells]: "putv s r w = Some s' \<Longrightarrow> getv s' r = Some w"
  by (cases r) (auto simp: upd_opt_eq_Some split: Option.bind_splits)

lemma getv_putv_other [cells]: "putv s r w = Some s' \<Longrightarrow> r' \<noteq> r \<Longrightarrow> getv s' r' = getv s r'"
  by (cases r; cases r') (auto simp: upd_opt_eq_Some nth_opt_def split: Option.bind_split_asm)

lemma putv_putv [cells]: "putv s r v = Some s' \<Longrightarrow> putv s' r w = putv s r w"
  by (cases r) (auto simp: upd_opt_eq_Some upd_opt_def split: Option.bind_splits)

lemma putv_other_fields [cells]: "putv (s\<lparr>cache := c\<rparr>) r w = map_option (\<lambda>s. s\<lparr>cache := c\<rparr>) (putv s r w)"
  by (cases r) (auto split: Option.bind_split)

lemma getv_fields: "tables s' = tables s \<Longrightarrow> nodes s' = nodes s \<Longrightarrow> getv s' r = getv s r"
  by (cases r) auto

lemma getv_cache [simp]: "getv (s\<lparr>cache := c\<rparr>) r = getv s r"
  by (cases r) auto

end
