(* ===== verification/Dm_Store_Props.thy ===== *)
theory Dm_Store_Props
  imports Dm_Access Dm_Announce Dm_Cells Dm_Instances
begin

text \<open>
  Writing to the store: the strings of values with the memory they own, and that a value set by
  selector is what is read back, and nothing else changes.
\<close>

section \<open>Strings\<close>

definition slen :: "cstr option \<Rightarrow> int" where
  "slen x = (case x of None \<Rightarrow> 0 | Some c \<Rightarrow> int (length c))"

text \<open>The value points to a string or to nothing, and the allocator hands out unused memory.\<close>

definition string_at :: "dmst \<Rightarrow> DM_VALUE \<Rightarrow> ptr \<Rightarrow> cstr option \<Rightarrow> bool" where
  "string_at s v p x \<longleftrightarrow> DM_STRING v = Some p \<and> str_of s p = Some x"

definition heap_ok :: "dmst \<Rightarrow> bool" where
  "heap_ok s \<longleftrightarrow> (\<forall>a \<ge> st_brk s. blobs s a = None)"

lemma set_string_spec:
  assumes "string_at s v p x" "heap_ok s"
  shows "\<exists>r v' s' q. dm_set_string_value y v s = Some (r, v', s') \<and>
    r = (if y \<noteq> None \<and> y \<noteq> Some [] \<and> st_oom s (st_brk s) then DM_OOM else DM_OK) \<and>
    string_at s' v' q (if r = DM_OK \<and> y \<noteq> Some [] then y else None) \<and>
    dm_mem s' = dm_mem s - slen x + slen (if r = DM_OK then y else None) \<and>
    (\<forall>a. Some a \<noteq> p \<and> Some a \<noteq> q \<longrightarrow> blobs s' a = blobs s a) \<and> (\<forall>a. p = Some a \<longrightarrow> blobs s' a = None) \<and> heap_ok s'"
proof -
  have p: "DM_STRING v = Some p" "str_of s p = Some x" using assms(1) by (simp_all add: string_at_def)
  obtain v1 s1 where fr: "dm_free_string_value v s = Some (v1, s1)" "DM_STRING v1 = Some None" "dm_mem s1 = dm_mem s - slen x"
    "st_brk s1 = st_brk s" "st_oom s1 = st_oom s" "heap_ok s1"
    "\<And>a. blobs s1 a = (if Some a = p then None else blobs s a)"
  proof (cases p)
    case None
    then have "x = None" using p(2) by (simp add: str_of_def)
    then show thesis using that [of v s] p None assms(2) by (simp add: dm_free_string_value_def slen_def)
  next
    case (Some a)
    then obtain c where c: "blobs s a = Some (B_str c)" "x = Some c"
      using p(2) by (auto simp: str_of_def split: option.splits blob.splits)
    let ?s = "(DM_MEM_SUB (int (length c)) s)\<lparr>blobs := (blobs s)(a := None)\<rparr>"
    have "dm_free_string_value v s = Some (set_DM_STRING v None, ?s)"
      using p Some c by (simp add: dm_free_string_value_def free_blob_def DM_MEM_SUB_def)
    then show thesis
      by (rule that) (use c Some assms(2) in \<open>auto simp: slen_def DM_MEM_SUB_def heap_ok_def\<close>)
  qed
  show ?thesis
  proof (cases "y = None \<or> y = Some []")
    case True
    then have "dm_set_string_value y v s = Some (DM_OK, set_DM_STRING v1 None, s1)" using fr by (auto simp: dm_set_string_value_def)
    then show ?thesis using True fr
      by (intro exI [of _ DM_OK] exI [of _ "set_DM_STRING v1 None"] exI [of _ s1] exI [of _ None])
        (auto simp: string_at_def str_of_def slen_def)
  next
    case False
    then obtain c cs where y: "y = Some (c # cs)" by (cases y) (auto simp: neq_Nil_conv)
    let ?a = "st_brk s" and ?s = "s1\<lparr>st_brk := st_brk s + 1\<rparr>"
    have fresh: "p \<noteq> Some ?a" using p(2) assms(2) by (auto simp: str_of_def heap_ok_def)
    show ?thesis
    proof (cases "st_oom s ?a")
      case True
      then have "dm_set_string_value y v s = Some (DM_OOM, set_DM_STRING v1 None, ?s)"
        using fr y by (simp add: dm_set_string_value_def new_blob_def malloc_def)
      then show ?thesis using True fr y
        by (intro exI [of _ DM_OOM] exI [of _ "set_DM_STRING v1 None"] exI [of _ ?s] exI [of _ None])
          (auto simp: string_at_def str_of_def slen_def heap_ok_def)
    next
      case ok: False
      let ?s' = "DM_MEM_ADD (int (length (c # cs))) (?s\<lparr>blobs := (blobs s1)(?a \<mapsto> B_str (c # cs))\<rparr>)"
      have "dm_set_string_value y v s = Some (DM_OK, set_DM_STRING v1 (Some ?a), ?s')"
        using ok fr y by (simp add: dm_set_string_value_def new_blob_def malloc_def)
      then show ?thesis using ok fr y fresh
        by (intro exI [of _ DM_OK] exI [of _ "set_DM_STRING v1 (Some ?a)"] exI [of _ ?s'] exI [of _ "Some ?a"])
          (auto simp: string_at_def str_of_def slen_def heap_ok_def DM_MEM_ADD_def)
    qed
  qed
qed




section \<open>Values\<close>

text \<open>Every index definition that the generator emits starts with the instance number.\<close>

definition trees_wf :: "dmst \<Rightarrow> bool" where
  "trees_wf s \<longleftrightarrow> (\<forall>ta t. trees s ta = Some t \<longrightarrow> it_def t \<noteq> [] \<and> instance_index (hd (it_def t)))"

text \<open>\<open>s'\<close> differs from \<open>s\<close> in the contents of values that lead nowhere.\<close>

definition same_shape :: "dmst \<Rightarrow> dmst \<Rightarrow> bool" where
  "same_shape s s' \<longleftrightarrow> trees s' = trees s \<and> idxmem s' = idxmem s \<and> nodes s' = nodes s \<and>
     dm_value_store s' = dm_value_store s \<and>
     (\<forall>r. getv s' r = getv s r \<or>
        (\<exists>v v'. getv s r = Some v \<and> getv s' r = Some v' \<and> dv_type v' = dv_type v \<and>
           dv_type v \<notin> {T_NONE, T_TOKEN, T_OBJECT}))"

lemma find_instance_shape:
  assumes "same_shape s s'" "trees_wf s"
  shows "find_instance s' inst 0 T_INSTANCE val = find_instance s inst 0 T_INSTANCE val"
proof (cases inst)
  case (Some ta)
  have eq: "trees s' = trees s" "idxmem s' = idxmem s" "nodes s' = nodes s" using assms(1) by (simp_all add: same_shape_def)
  show ?thesis
  proof (cases "trees s ta")
    case (Some t)
    then have "it_def t \<noteq> [] \<and> instance_index (hd (it_def t))" using assms(2) unfolding trees_wf_def by blast
    then obtain d ds where d: "it_def t = d # ds" "ix_type d = T_INSTANCE" "ix_element d = 0"
      by (cases "it_def t") (auto simp: instance_index_def)
    have "assert_index_magic s' = assert_index_magic s" "rb_of s' = rb_of s"
      unfolding assert_index_magic_def rb_of_def eq by (rule refl)+
    moreover have "cmp_value s' (it_def t) 0 val = cmp_value s (it_def t) 0 val"
      using d eq by (simp add: cmp_value_def fun_eq_iff)
    ultimately show ?thesis using \<open>inst = Some ta\<close> Some d eq
      by (simp add: find_instance_def id2idx_def idx_FIND_def)
  qed (simp add: \<open>inst = Some ta\<close> find_instance_def eq)
qed (simp add: find_instance_def)

lemma shape_value:
  assumes "same_shape s s'"
  shows "(getv s' r = None \<and> getv s r = None) \<or>
    (\<exists>v v'. getv s r = Some v \<and> getv s' r = Some v' \<and> DM_TABLE v' = DM_TABLE v \<and> DM_INSTANCE v' = DM_INSTANCE v)"
proof -
  consider "getv s' r = getv s r" |
    v v' where "getv s r = Some v" "getv s' r = Some v'" "dv_type v' = dv_type v" "dv_type v \<notin> {T_NONE, T_TOKEN, T_OBJECT}"
    using assms unfolding same_shape_def by blast
  then show ?thesis
  proof cases
    case 1
    then show ?thesis by (cases "getv s r") auto
  next
    case 2
    then have "DM_TABLE v = None" "DM_TABLE v' = None" "DM_INSTANCE v = None" "DM_INSTANCE v' = None"
      by (auto simp: DM_TABLE_def DM_INSTANCE_def DM_type_assert_def)
    with 2 show ?thesis by simp
  qed
qed

lemma shape_reads:
  assumes "same_shape s s'"
  shows "(do { v \<leftarrow> getv s' r; p \<leftarrow> DM_TABLE v; f p }) = (do { v \<leftarrow> getv s r; p \<leftarrow> DM_TABLE v; f p })"
    "(do { v \<leftarrow> getv s' r; p \<leftarrow> DM_INSTANCE v; f p }) = (do { v \<leftarrow> getv s r; p \<leftarrow> DM_INSTANCE v; f p })"
  using shape_value [OF assms, of r] by auto

lemma element_ref_shape:
  assumes sh: "same_shape s s'" and wf: "trees_wf s"
  shows "element_ref_loop s' sel i kw sb ref r = element_ref_loop s sel i kw sb ref r"
proof (induction "length sel - i" arbitrary: i kw sb ref r rule: less_induct)
  case less
  have ids: "dm_get_instance_node_ref_by_id s' b y = dm_get_instance_node_ref_by_id s b y" for b y
    by (simp add: dm_get_instance_node_ref_by_id_def find_instance_shape [OF sh wf])
  note reads = shape_reads [OF sh]
  show ?case
  proof (cases "nth_opt sel i")
    case None
    then show ?thesis by (subst (1 2) element_ref_loop.simps) simp
  next
    case (Some x)
    then have i: "i < length sel" by (simp add: nth_opt_eq_Some)
    have IH: "element_ref_loop s' sel (Suc i) kw sb ref r = element_ref_loop s sel (Suc i) kw sb ref r" for kw sb ref r
      by (rule less) (use i in simp)
    show ?thesis
    proof (cases "er_st_type ref = T_OBJECT")
      case True
      then show ?thesis
        by (subst (1 2) element_ref_loop.simps) (simp add: Some Let_def reads IH ids cong: if_cong option.case_cong)
    next
      case False
      show ?thesis
      proof (cases "\<exists>ta. sb = SB_tab (Some ta)")
        case True
        then obtain ta where ta: "sb = SB_tab (Some ta)" ..
        let ?r = "VTab ta (unat x - 1)"
        consider "getv s' ?r = None" "getv s ?r = None"
          | v v' where "getv s ?r = Some v" "getv s' ?r = Some v'" "DM_TABLE v' = DM_TABLE v" "DM_INSTANCE v' = DM_INSTANCE v"
          using shape_value [OF sh, of ?r] by (metis (no_types))
        then show ?thesis
          by cases (subst (1 2) element_ref_loop.simps, simp add: Some ta False Let_def IH cong: if_cong del: getv.simps)+
      next
        case nt: False
        then show ?thesis using False
          by (subst (1 2) element_ref_loop.simps) (cases sb; simp add: Some Let_def IH cong: if_cong)
      qed
    qed
  qed
qed


lemma get_ref_shape:
  assumes "same_shape s s'" "trees_wf s"
  shows "dm_get_element_ref env s' sel = dm_get_element_ref env s sel"
  using element_ref_shape [OF assms] assms(1) by (simp add: dm_get_element_ref_def same_shape_def)

lemma putv_same_shape:
  assumes "getv s (VTab a i) = Some v" "putv s (VTab a i) w = Some s'" "dv_type w = dv_type v" "dv_type v \<notin> {T_NONE, T_TOKEN, T_OBJECT}"
  shows "same_shape s s'"
  unfolding same_shape_def
proof (intro conjI allI)
  show "nodes s' = nodes s" using assms(2) by (auto split: Option.bind_splits)
  show "getv s' r = getv s r \<or> (\<exists>v v'. getv s r = Some v \<and> getv s' r = Some v' \<and> dv_type v' = dv_type v \<and>
      dv_type v \<notin> {T_NONE, T_TOKEN, T_OBJECT})" for r
  proof (cases "r = VTab a i")
    case True
    then show ?thesis using getv_putv [OF assms(2)] assms by blast
  qed (use getv_putv_other [OF assms(2)] in blast)
qed (rule putv_sel [OF assms(2)])+

lemma same_shape_announced:
  assumes "same_shape s s1" "announced s1 s'"
  shows "same_shape s s'"
proof -
  note an = announced_sel [OF assms(2)]
  have "getv s' r = getv s1 r" for r using an(6,8) by (rule getv_fields)
  then show ?thesis using assms(1) an unfolding same_shape_def by simp
qed

text \<open>Elements that are stored in the union itself and are neither set nor read by a function.\<close>

definition plain_element :: "dm_env \<Rightarrow> dm_element \<Rightarrow> bool" where
  "plain_element env e \<longleftrightarrow>
     el_type e \<notin> {T_STR, T_BINARY, T_BASE64, T_SELECTOR, T_COUNTER, T_NONE, T_TOKEN, T_OBJECT} \<and>
     \<not> has (el_flags e) F_SET \<and> \<not> has (el_flags e) F_GET \<and> \<not> has (el_flags e) F_INDEX \<and> action_ok env (el_action e)"

definition set_flags :: "u16 \<Rightarrow> DM_VALUE \<Rightarrow> DM_VALUE" where
  "set_flags f v = (if has f DV_UPDATED then v\<lparr>dv_flags := dv_flags v OR DV_UPDATED\<rparr> else v)"

lemma set_value_plain:
  assumes e: "plain_element env e" "er_kw_elem ref = Some e" "er_st_value ref = Some (VTab a i)"
    and b: "er_st_base ref = SB_tab (Some b)" "tables s b = Some bt" "is_selector (vt_id bt)"
    and v: "getv s (VTab a i) = Some v" "dv_type v = el_type e" and inv: "slots_inv s" "chain_inv s"
  obtains s1 s' where "putv s (VTab a i) (set_flags (dv_flags val) (v\<lparr>dv_v := dv_v val\<rparr>)) = Some s1" "announced s1 s'"
    "dm_set_value env (el_type e) ref val s = Some (DM_OK, s')"
proof -
  let ?r = "VTab a i" and ?v = "v\<lparr>dv_v := dv_v val\<rparr>"
  obtain s0 where s0: "putv s ?r ?v = Some s0" using putv_getv [OF v(1)] by blast
  have copy: "copy_v ?r val s = Some s0" using v s0 by (simp add: copy_v_def del: getv.simps putv.simps)
  have inv0: "slots_inv s0" "chain_inv s0" using inv putv_sel [OF s0] by (simp_all add: slots_inv_def chain_inv_def)
  have set0: "dm_set_value env (el_type e) ref val s =
      (if has (dv_flags val) DV_UPDATED then do { s \<leftarrow> value_update_action env ref (-1) s0; Some (DM_OK, s) } else Some (DM_OK, s0))"
    using e copy by (auto simp: dm_set_value_def plain_element_def)
  show thesis
  proof (cases "has (dv_flags val) DV_UPDATED")
    case False
    then show thesis using that [of s0 s0] s0 set0 announced_refl [OF inv0] by (simp add: set_flags_def)
  next
    case True
    let ?w = "?v\<lparr>dv_flags := dv_flags v OR DV_UPDATED\<rparr>"
    obtain s1 where s1: "putv s ?r ?w = Some s1" using putv_getv [OF v(1)] by blast
    have fl: "or_flags s0 ?r DV_UPDATED = Some s1"
      using getv_putv [OF s0] putv_putv [OF s0] s1 by (simp add: or_flags_def del: getv.simps putv.simps)
    have inv1: "slots_inv s1" "chain_inv s1" using inv putv_sel [OF s1] by (simp_all add: slots_inv_def chain_inv_def)
    obtain bt' where bt': "tables s1 b = Some bt'" "vt_id bt' = vt_id bt"
      using s1 b(2) by (cases "b = a") (auto split: Option.bind_splits)
    have sel: "is_selector (vt_id bt')" using b(3) bt'(2) by simp
    obtain s2 where s2: "notify (-1) (vt_id bt') (er_id ref) ?w NOTIFY_CHANGE s1 = Some s2" "notified s1 s2"
      using notify_total [OF inv1(1) sel] by blast
    have an: "announced s1 s2" by (rule notified_announced [OF s2(2) inv1(2)])
    obtain s3 where s3: "action env (el_action e) (vt_id bt') (er_id ref) DM_CHANGE s2 = Some s3" "announced s2 s3"
      using action_total [OF _ sel announced_sel(2,1) [OF an]] e(1) unfolding plain_element_def by blast
    have "value_update_action env ref (-1) s0 = Some s3"
      using e b(1) fl getv_putv [OF s1] bt' s2(1) s3(1) announced_sel(6) [OF an]
      by (simp add: value_update_action_def base_tab_def tab_def plain_element_def del: getv.simps putv.simps)
    then show thesis using that [of s1 s3] True s1 set0 announced_trans [OF an s3(2)] by (simp add: set_flags_def)
  qed
qed



text \<open>A schema of one number, and its store.\<close>

definition number_element :: dm_element where
  "number_element = Element [110] T_UINT 0 0 (Fk_value \<lparr>vf_validate = None, vf_get = None, vf_set = None\<rparr>) U_none"

definition number_env :: dm_env where
  "number_env = env_example\<lparr>dm_root := DmTable [114] [] [number_element]\<rparr>"

definition number_store :: dmst where
  "number_store = initial_state\<lparr>dm_value_store := Some 3,
     tables := [3 \<mapsto> \<lparr>vt_id = replicate 16 0, vt_values = [set_DM_UINT zero_value 1]\<rparr>]\<rparr>"


end
