(* ===== verification/Dm_Cache.thy ===== *)
theory Dm_Cache
  imports Dm_Access
begin

text \<open>
  The cache of \<^verbatim>\<open>mand/dm_cache.c\<close>: the changes that a configuration session has made and
  not yet committed, one item for each selector, with the place of the value and its new
  content. The value in the store carries \<open>DV_UPDATE_PENDING\<close> meanwhile, and the reading
  functions of the cache answer with the new content for such a value.

  \<open>cache_apply\<close> and \<open>cache_reset\<close> take items from the root of the tree until it is
  empty; which one that is, the function \<open>rb_root\<close> of the environment leaves open.
\<close>

section \<open>Model\<close>

definition cache_compare :: "cache_item \<Rightarrow> cache_item \<Rightarrow> int option" where
  "cache_compare a b = dm_selcmp (Some (ci_sb a)) (Some (ci_sb b)) DM_SELECTOR_LEN"

text \<open>An item to search with, of which only the selector is set.\<close>

definition cache_key :: "dm_selector \<Rightarrow> cache_item" where
  "cache_key sel = \<lparr>ci_id = 0, ci_sb = sel, ci_name = [],
     ci_elem = Element [] T_NONE 0 0 (Fk_value \<lparr>vf_validate = None, vf_get = None, vf_set = None\<rparr>) U_none,
     ci_base = None, ci_old_value = VTab 0 0, ci_new_value = zero_value, ci_code = 0, ci_msg = None\<rparr>"

partial_function (option) while_cache ::
  "(nat \<Rightarrow> nat) \<Rightarrow> (cache_item \<Rightarrow> dmst \<Rightarrow> dmst option) \<Rightarrow> dmst \<Rightarrow> dmst option" where
  "while_cache root body s = (case RB_ROOT root (cache s) of
     None \<Rightarrow> Some s
   | Some item \<Rightarrow> do {
       s \<leftarrow> body item (s\<lparr>cache := remove_root root (cache s)\<rparr>);
       while_cache root body s })"

declare while_cache.simps [code]

definition cache_free :: "dm_env \<Rightarrow> dmst \<Rightarrow> dmst option" where
  "cache_free env = while_cache (rb_root env) (\<lambda>item s. do {
     (_, s) \<leftarrow> dm_free_any_value (ci_elem item) (ci_new_value item) s;
     Some s })"

definition cache_reset :: "dm_env \<Rightarrow> dmst \<Rightarrow> dmst option" where
  "cache_reset env = while_cache (rb_root env) (\<lambda>item s. do {
     (_, s) \<leftarrow> dm_free_any_value (ci_elem item) (ci_new_value item) s;
     clear_flags s (ci_old_value item) DV_UPDATE_PENDING })"

text \<open>The last identifier of the selector; 1 for the empty one.\<close>

fun last_id :: "dm_id \<Rightarrow> dm_selector \<Rightarrow> dm_id" where
  "last_id x [] = x"
| "last_id x (y # ys) = (if y = 0 then x else last_id y ys)"

definition cache_add ::
  "dm_selector \<Rightarrow> cstr option \<Rightarrow> dm_element \<Rightarrow> ptr \<Rightarrow> vref \<Rightarrow> DM_VALUE \<Rightarrow> u32 \<Rightarrow> cstr option \<Rightarrow> dmst \<Rightarrow> dmst option" where
  "cache_add sb name elem base old_value new_value code msg s = (case name of
     None \<Rightarrow> Some s
   | Some name \<Rightarrow> do {
       sb \<leftarrow> dm_selcpy no_selector sb;
       item \<leftarrow> rb_find cache_compare (cache_key sb) (cache s);
       case item of
         Some _ \<Rightarrow> do {
           c \<leftarrow> rb_update cache_compare (cache_key sb)
                 (\<lambda>it. it\<lparr>ci_new_value := new_value, ci_code := code, ci_msg := msg\<rparr>) (cache s);
           Some (s\<lparr>cache := c\<rparr>) }
       | None \<Rightarrow> (case malloc s of
           (None, s) \<Rightarrow> Some s
         | (Some _, s) \<Rightarrow> do {
             (_, c) \<leftarrow> rb_insert cache_compare
               \<lparr>ci_id = last_id 1 sb, ci_sb = sb, ci_name = name, ci_elem = elem, ci_base = base,
                 ci_old_value = old_value, ci_new_value = new_value, ci_code = code, ci_msg = msg\<rparr> (cache s);
             Some (s\<lparr>cache := c\<rparr>) }) })"

text \<open>
  The loop of \<open>cache_validate\<close>: the items before the current one, the current one and those
  behind it. A validation function only looks at the store.
\<close>

fun validate_items :: "dm_env \<Rightarrow> dmst \<Rightarrow> u32 \<Rightarrow> cache_item list \<Rightarrow> (u32 \<times> cache_item list) option" where
  "validate_items env s r [] = Some (r, [])"
| "validate_items env s r (it # its) = do {
     (r, it) \<leftarrow> (if ci_code it = 0
       then do {
         f \<leftarrow> value_fkts_of (ci_elem it);
         case vf_validate f of
           None \<Rightarrow> Some (r, it)
         | Some k \<Rightarrow> do {
             (x, code, msg) \<leftarrow> fk_validate env k s (ci_base it) (ci_id it) (ci_elem it) (ci_new_value it)
                                 (ci_code it) (ci_msg it);
             Some (r AND x, it\<lparr>ci_code := code, ci_msg := msg\<rparr>) } }
       else Some (r, it));
     (r, its) \<leftarrow> validate_items env s r its;
     Some (r, it # its) }"

definition cache_validate :: "dm_env \<Rightarrow> dmst \<Rightarrow> (u32 \<times> dmst) option" where
  "cache_validate env s = do {
     (r, c) \<leftarrow> validate_items env s 1 (cache s);
     Some (r, s\<lparr>cache := c\<rparr>) }"

definition apply_item :: "dm_env \<Rightarrow> int \<Rightarrow> cache_item \<Rightarrow> dmst \<Rightarrow> dmst option" where
  "apply_item env slot item s = do {
     let e = ci_elem item;
     s \<leftarrow> (if has (el_flags e) F_SET
          then do {
            f \<leftarrow> value_fkts_of e;
            k \<leftarrow> vf_set f;
            (_, s) \<leftarrow> fk_set env k s (ci_base item) (ci_id item) e (ci_old_value item) (ci_new_value item);
            (_, s) \<leftarrow> dm_free_any_value e (ci_new_value item) s;
            Some s }
          else copy_v (ci_old_value item) (ci_new_value item) s);
     s \<leftarrow> clear_flags s (ci_old_value item) DV_UPDATE_PENDING;
     s \<leftarrow> or_flags s (ci_old_value item) DV_UPDATED;
     s \<leftarrow> (if has (el_flags e) F_INDEX then do { row \<leftarrow> ci_base item; update_index (ci_id item) row s } else Some s);
     v \<leftarrow> getv s (ci_old_value item);
     s \<leftarrow> notify_sel slot (ci_sb item) v NOTIFY_CHANGE s;
     action_sel env (el_action e) (ci_sb item) DM_CHANGE s }"

definition cache_apply :: "dm_env \<Rightarrow> int \<Rightarrow> dmst \<Rightarrow> dmst option" where
  "cache_apply env slot = while_cache (rb_root env) (apply_item env slot)"

definition cache_is_empty :: "dm_env \<Rightarrow> dmst \<Rightarrow> bool" where
  "cache_is_empty env s \<longleftrightarrow> RB_ROOT (rb_root env) (cache s) = None"

section \<open>Reading through the cache\<close>

definition any_value :: DM_VALUE where
  "any_value = zero_value\<lparr>dv_type := T_ANY\<rparr>"

definition is_pending :: "DM_VALUE \<Rightarrow> bool" where
  "is_pending v \<longleftrightarrow> dv_flags v AND DV_UPDATE_PENDING = DV_UPDATE_PENDING"

definition cache_lookup :: "dm_selector \<Rightarrow> dmst \<Rightarrow> DM_VALUE option option" where
  "cache_lookup sel s = do {
     sb \<leftarrow> dm_selcpy no_selector sel;
     i \<leftarrow> rb_find cache_compare (cache_key sb) (cache s);
     Some (map_option ci_new_value i) }"

definition dm_cache_get_any_value_by_id :: "ptr \<Rightarrow> dm_id \<Rightarrow> dmst \<Rightarrow> DM_VALUE option" where
  "dm_cache_get_any_value_by_id ift x s = (case ift of
     None \<Rightarrow> Some any_value
   | Some a \<Rightarrow> do {
       r \<leftarrow> val_ref ift x;
       v \<leftarrow> getv s r;
       if is_pending v
       then do {
         t \<leftarrow> tables s a;
         sl \<leftarrow> dm_selcpy no_selector (vt_id t);
         sl \<leftarrow> dm_selcat sl x;
         i \<leftarrow> cache_lookup sl s;
         Some (case i of None \<Rightarrow> any_value | Some v \<Rightarrow> v) }
       else Some v })"

definition dm_cache_get_any_value_by_selector ::
  "dm_env \<Rightarrow> dm_selector \<Rightarrow> dm_type \<Rightarrow> dmst \<Rightarrow> (DM_VALUE \<times> dmst) option" where
  "dm_cache_get_any_value_by_selector env sel type s = do {
     (found, ref) \<leftarrow> dm_get_element_ref env s sel;
     if \<not> found then Some (any_value, s)
     else do {
       e \<leftarrow> er_kw_elem ref;
       if el_type e = T_INSTANCE \<or> el_type e = T_OBJECT then Some (any_value, s)
       else do {
         pend \<leftarrow> (case er_st_value ref of None \<Rightarrow> Some False
                  | Some r \<Rightarrow> do { v \<leftarrow> getv s r; Some (is_pending v) });
         if pend
         then do { i \<leftarrow> cache_lookup sel s; Some (case i of None \<Rightarrow> any_value | Some v \<Rightarrow> v, s) }
         else dm_get_element_value env type ref s } } }"

definition dm_cache_get_value_by_selector_cb ::
  "dm_env \<Rightarrow> dm_selector \<Rightarrow> dm_type \<Rightarrow>
   (dm_selector \<Rightarrow> dm_element option \<Rightarrow> dm_type \<Rightarrow> DM_VALUE \<Rightarrow> 'u \<times> dmst \<Rightarrow> (DM_RESULT \<times> 'u \<times> dmst) option) \<Rightarrow>
   'u \<times> dmst \<Rightarrow> (DM_RESULT \<times> 'u \<times> dmst) option" where
  "dm_cache_get_value_by_selector_cb env sel type cb = (\<lambda>(u, s). do {
     (found, ref) \<leftarrow> dm_get_element_ref env s sel;
     if \<not> found then Some (DM_VALUE_NOT_FOUND, u, s)
     else do {
       e \<leftarrow> er_kw_elem ref;
       if el_type e = T_INSTANCE \<or> el_type e = T_OBJECT then Some (DM_INVALID_TYPE, u, s)
       else if type \<noteq> T_ANY \<and> el_type e \<noteq> type then Some (DM_INVALID_TYPE, u, s)
       else do {
         r \<leftarrow> er_st_value ref;
         v \<leftarrow> getv s r;
         if is_pending v
         then do {
           i \<leftarrow> cache_lookup sel s;
           case i of
             None \<Rightarrow> Some (DM_VALUE_NOT_FOUND, u, s)
           | Some v \<Rightarrow> cb sel (Some e) (er_st_type ref) v (u, s) }
         else do {
           (v, s) \<leftarrow> dm_get_element_value env type ref s;
           cb sel (Some e) (er_st_type ref) v (u, s) } } } })"

definition cache_get_by_selector ::
  "(DM_VALUE \<Rightarrow> 'a option) \<Rightarrow> dm_type \<Rightarrow> dm_env \<Rightarrow> dm_selector \<Rightarrow> dmst \<Rightarrow> ('a \<times> dmst) option" where
  "cache_get_by_selector rd type env sel s = do {
     (v, s) \<leftarrow> dm_cache_get_any_value_by_selector env sel type s;
     x \<leftarrow> rd v;
     Some (x, s) }"

definition cache_get_by_id :: "(DM_VALUE \<Rightarrow> 'a option) \<Rightarrow> ptr \<Rightarrow> dm_id \<Rightarrow> dmst \<Rightarrow> 'a option" where
  "cache_get_by_id rd ift x s = do { v \<leftarrow> dm_cache_get_any_value_by_id ift x s; rd v }"

definition dm_cache_get_by_selector :: "dm_env \<Rightarrow> dm_selector \<Rightarrow> dmst \<Rightarrow> (DM_VALUE \<times> dmst) option" where
  "dm_cache_get_by_selector env sel s = dm_cache_get_any_value_by_selector env sel T_ANY s"
definition dm_cache_get_bool_by_selector :: "dm_env \<Rightarrow> dm_selector \<Rightarrow> dmst \<Rightarrow> (u32 \<times> dmst) option" where
  "dm_cache_get_bool_by_selector = cache_get_by_selector DM_BOOL T_BOOL"
definition dm_cache_get_bool_by_id :: "ptr \<Rightarrow> dm_id \<Rightarrow> dmst \<Rightarrow> u32 option" where
  "dm_cache_get_bool_by_id = cache_get_by_id DM_BOOL"
definition dm_cache_get_string_by_selector :: "dm_env \<Rightarrow> dm_selector \<Rightarrow> dmst \<Rightarrow> (ptr \<times> dmst) option" where
  "dm_cache_get_string_by_selector = cache_get_by_selector DM_STRING T_STR"
definition dm_cache_get_string_by_id :: "ptr \<Rightarrow> dm_id \<Rightarrow> dmst \<Rightarrow> ptr option" where
  "dm_cache_get_string_by_id = cache_get_by_id DM_STRING"
definition dm_cache_get_enum_by_selector :: "dm_env \<Rightarrow> dm_selector \<Rightarrow> dmst \<Rightarrow> (u32 \<times> dmst) option" where
  "dm_cache_get_enum_by_selector = cache_get_by_selector DM_ENUM T_ENUM"
definition dm_cache_get_enum_by_id :: "ptr \<Rightarrow> dm_id \<Rightarrow> dmst \<Rightarrow> u32 option" where
  "dm_cache_get_enum_by_id = cache_get_by_id DM_ENUM"
definition dm_cache_get_int_by_selector :: "dm_env \<Rightarrow> dm_selector \<Rightarrow> dmst \<Rightarrow> (u32 \<times> dmst) option" where
  "dm_cache_get_int_by_selector = cache_get_by_selector DM_INT T_INT"
definition dm_cache_get_int_by_id :: "ptr \<Rightarrow> dm_id \<Rightarrow> dmst \<Rightarrow> u32 option" where
  "dm_cache_get_int_by_id = cache_get_by_id DM_INT"
definition dm_cache_get_uint_by_selector :: "dm_env \<Rightarrow> dm_selector \<Rightarrow> dmst \<Rightarrow> (u32 \<times> dmst) option" where
  "dm_cache_get_uint_by_selector = cache_get_by_selector DM_UINT T_UINT"
definition dm_cache_get_uint_by_id :: "ptr \<Rightarrow> dm_id \<Rightarrow> dmst \<Rightarrow> u32 option" where
  "dm_cache_get_uint_by_id = cache_get_by_id DM_UINT"
definition dm_cache_get_time_by_selector :: "dm_env \<Rightarrow> dm_selector \<Rightarrow> dmst \<Rightarrow> (u64 \<times> dmst) option" where
  "dm_cache_get_time_by_selector = cache_get_by_selector DM_TIME T_DATE"
definition dm_cache_get_time_by_id :: "ptr \<Rightarrow> dm_id \<Rightarrow> dmst \<Rightarrow> u64 option" where
  "dm_cache_get_time_by_id = cache_get_by_id DM_TIME"
definition dm_cache_get_ipv4_by_selector :: "dm_env \<Rightarrow> dm_selector \<Rightarrow> dmst \<Rightarrow> (u32 \<times> dmst) option" where
  "dm_cache_get_ipv4_by_selector = cache_get_by_selector DM_IP4 T_IPADDR4"
definition dm_cache_get_ipv4_by_id :: "ptr \<Rightarrow> dm_id \<Rightarrow> dmst \<Rightarrow> u32 option" where
  "dm_cache_get_ipv4_by_id = cache_get_by_id DM_IP4"
definition dm_cache_get_ipv6_by_selector :: "dm_env \<Rightarrow> dm_selector \<Rightarrow> dmst \<Rightarrow> (128 word \<times> dmst) option" where
  "dm_cache_get_ipv6_by_selector = cache_get_by_selector DM_IP6 T_IPADDR6"
definition dm_cache_get_ipv6_by_id :: "ptr \<Rightarrow> dm_id \<Rightarrow> dmst \<Rightarrow> 128 word option" where
  "dm_cache_get_ipv6_by_id = cache_get_by_id DM_IP6"

end
