(* ===== verification/Dm_Queue_Map.thy ===== *)
theory Dm_Queue_Map
  imports Dm_Notify
begin

text \<open>
  An ordered tree whose comparison distinguishes exactly the keys of the items is a finite map:
  looking up finds the item under the key, overwriting the item found and inserting a new one
  are updates of the map.
\<close>

locale keyed_queue = ordered_queue D cmp
  for D :: "'a \<Rightarrow> bool" and cmp :: "'a \<Rightarrow> 'a \<Rightarrow> int option" +
  fixes key :: "'a \<Rightarrow> 'k"
  assumes eqv_key: "D x \<Longrightarrow> D y \<Longrightarrow> eqv x y \<longleftrightarrow> key x = key y"
begin

definition items :: "'a list \<Rightarrow> 'k \<Rightarrow> 'a option" where
  "items q k = find (\<lambda>x. key x = k) q"

lemma items_Cons: "items (y # ys) k = (if key y = k then Some y else items ys k)"
  by (simp add: items_def)

lemma items_Nil [simp]: "items [] k = None"
  by (simp add: items_def)

lemma items_None: "items q k = None \<longleftrightarrow> (\<forall>x \<in> set q. key x \<noteq> k)"
  by (auto simp: items_def find_None_iff)

lemma keys_distinct: "queue_inv q \<Longrightarrow> distinct (map key q)"
proof (induction q)
  case (Cons y ys)
  then have D: "D y" "\<forall>z \<in> set ys. D z" by (auto simp: queue_inv_def)
  have "key y \<noteq> key z" if "z \<in> set ys" for z
  proof -
    from that Cons.prems have "lt y z" by (simp add: queue_inv_Cons)
    with that D have "\<not> eqv y z" using lt_not_eqv [of y z] by auto
    with that D show ?thesis by (simp add: eqv_key)
  qed
  then show ?case using Cons by (auto simp: queue_inv_Cons)
qed simp

lemma items_Some: "queue_inv q \<Longrightarrow> items q k = Some x \<longleftrightarrow> x \<in> set q \<and> key x = k"
proof (induction q)
  case (Cons y ys)
  have "key y \<notin> key ` set ys" using keys_distinct [OF Cons.prems] by simp
  with Cons show ?case by (auto simp: items_Cons queue_inv_Cons)
qed simp

lemma items_split:
  assumes "queue_inv (us @ y # vs)"
  shows "items (us @ y # vs) = (items (us @ vs))(key y \<mapsto> y)"
proof
  fix k
  have nk: "key y \<notin> key ` set (us @ vs)" using keys_distinct [OF assms] by auto
  have "items (us @ y # vs) k = items (us @ vs) k" if "k \<noteq> key y"
    using that by (induction us) (auto simp: items_Cons)
  moreover have "items (us @ y # vs) (key y) = Some y" using items_Some [OF assms] by auto
  ultimately show "items (us @ y # vs) k = ((items (us @ vs))(key y \<mapsto> y)) k" by simp
qed

lemma find_items:
  assumes "queue_inv q" "D x"
  shows "rb_find cmp x q = Some (items q (key x))"
  using rb_find_spec [OF assms]
proof (elim disjE bexE conjE)
  fix y assume y: "y \<in> set q" "eqv x y" "rb_find cmp x q = Some (Some y)"
  then have "key y = key x" using assms eqv_key [of x y] by (auto simp: queue_inv_def)
  then show ?thesis using y items_Some [OF assms(1)] by metis
next
  assume n: "\<forall>y \<in> set q. \<not> eqv x y" "rb_find cmp x q = Some None"
  then have "items q (key x) = None"
    using assms eqv_key [of x] by (auto simp: items_None queue_inv_def)
  then show ?thesis using n by simp
qed

lemma update_items:
  assumes "queue_inv q" "D x" "items q (key x) = Some y" "D (f y)" "key (f y) = key y"
  obtains q' where "rb_update cmp x f q = Some q'" "queue_inv q'" "items q' = (items q)(key x \<mapsto> f y)"
proof -
  have y: "y \<in> set q" "key y = key x" using assms(1,3) by (simp_all add: items_Some)
  then have Dy: "D y" using assms(1) by (simp add: queue_inv_def)
  have "eqv x y" "eqv y (f y)" using y Dy assms by (simp_all add: eqv_key)
  from rb_update_spec [where f = f, OF assms(1,2) y(1) this(1) assms(4) this(2)] obtain us vs
    where *: "q = us @ y # vs" "rb_update cmp x f q = Some (us @ f y # vs)" "queue_inv (us @ f y # vs)" by auto
  have "items (us @ f y # vs) = (items q)(key x \<mapsto> f y)"
    using items_split [OF *(3)] items_split [OF assms(1) [unfolded *(1)]] *(1) assms(5) y(2) by simp
  with * that show thesis by blast
qed

lemma insert_items:
  assumes "queue_inv q" "D x" "items q (key x) = None"
  obtains q' where "rb_insert cmp x q = Some (None, q')" "queue_inv q'" "items q' = (items q)(key x \<mapsto> x)"
proof -
  have "\<not> eqv x y" if "y \<in> set q" for y
    using that assms by (auto simp: items_None queue_inv_def eqv_key)
  with rb_insert_spec [OF assms(1,2)] obtain us vs
    where *: "q = us @ vs" "rb_insert cmp x q = Some (None, us @ x # vs)" "queue_inv (us @ x # vs)" by blast
  with items_split [OF *(3)] that show thesis by simp
qed

end

interpretation notify_map: keyed_queue "\<lambda>it. is_selector (ni_sb it)" notify_compare "\<lambda>it. path (ni_sb it)"
  by unfold_locales (rule notify_eqv)

end
