(* ===== verification/Dm_Cache_Props.thy ===== *)
theory Dm_Cache_Props
  imports Dm_Cache Dm_Announce Dm_Queue_Map Dm_Cells
begin

text \<open>
  The cache is a map from the paths of the changed values to their new contents: adding a change
  updates it and reading looks up in it. Committing writes every cached value to its place and
  empties the cache, in whatever order the tree hands out its items; resetting discards them.
\<close>

section \<open>The cache as a map\<close>

interpretation cache_order: ordered_queue "\<lambda>it. is_selector (ci_sb it)" cache_compare
  unfolding cache_compare_def by (rule ordered_queue_key) (rule sel_order.three_way_axioms)

lemma cache_eqv: "is_selector (ci_sb a) \<Longrightarrow> is_selector (ci_sb b) \<Longrightarrow>
    cache_order.eqv a b \<longleftrightarrow> path (ci_sb a) = path (ci_sb b)"
  by (simp add: cache_order.eqv_def cache_compare_def dm_selcmp_path)

interpretation cache_map: keyed_queue "\<lambda>it. is_selector (ci_sb it)" cache_compare "\<lambda>it. path (ci_sb it)"
  by unfold_locales (rule cache_eqv)

definition cache_inv :: "dmst \<Rightarrow> bool" where
  "cache_inv s \<longleftrightarrow> cache_order.queue_inv (cache s)"

definition cached :: "dmst \<Rightarrow> dm_id list \<Rightarrow> DM_VALUE option" where
  "cached s p = map_option ci_new_value (cache_map.items (cache s) p)"

lemma cache_lookup_cached:
  assumes "cache_inv s" "is_selector sel"
  shows "cache_lookup sel s = Some (cached s (path sel))"
proof -
  have "dm_selcpy no_selector sel = Some sel" using assms(2) by (simp add: dm_selcpy_def is_selector_no_selector)
  with cache_map.find_items [of "cache s" "cache_key sel"] assms show ?thesis
    by (simp add: cache_lookup_def cached_def cache_inv_def cache_key_def)
qed

text \<open>
  C21: Adding a change to the cache makes it the one that is read back for its path, replacing an
  earlier one, and leaves the other changes alone; only a new change that no memory is left for
  is dropped.
\<close>
theorem cache_add_cached:
  assumes "cache_inv s" "is_selector sb"
  shows "\<exists>s'. cache_add sb (Some name) elem base old_value new_value code msg s = Some s' \<and> cache_inv s' \<and>
    cached s' = (if cached s (path sb) = None \<and> st_oom s (st_brk s) then cached s else (cached s)(path sb \<mapsto> new_value)) \<and>
    (\<forall>sel. is_selector sel \<longrightarrow> cache_lookup sel s' = Some (cached s' (path sel)))"
proof -
  let ?it = "\<lparr>ci_id = last_id 1 sb, ci_sb = sb, ci_name = name, ci_elem = elem, ci_base = base,
    ci_old_value = old_value, ci_new_value = new_value, ci_code = code, ci_msg = msg\<rparr>"
  let ?f = "\<lambda>it. it\<lparr>ci_new_value := new_value, ci_code := code, ci_msg := msg\<rparr>"
  have cp: "dm_selcpy no_selector sb = Some sb" using assms(2) by (simp add: dm_selcpy_def is_selector_no_selector)
  have q: "cache_order.queue_inv (cache s)" using assms(1) by (simp add: cache_inv_def)
  have k: "is_selector (ci_sb (cache_key sb))" "path (ci_sb (cache_key sb)) = path sb" using assms(2) by (simp_all add: cache_key_def)
  note find = cache_map.find_items [OF q k(1), unfolded k(2)]
  have "\<exists>s'. cache_add sb (Some name) elem base old_value new_value code msg s = Some s' \<and> cache_inv s' \<and>
    cached s' = (if cached s (path sb) = None \<and> st_oom s (st_brk s) then cached s else (cached s)(path sb \<mapsto> new_value))"
  proof (cases "cache_map.items (cache s) (path sb)")
    case (Some y)
    have y: "y \<in> set (cache s)" using Some q by (simp add: cache_map.items_Some)
    then have "is_selector (ci_sb y)" using q by (simp add: cache_order.queue_inv_def)
    then obtain q' where q': "rb_update cache_compare (cache_key sb) ?f (cache s) = Some q'" "cache_order.queue_inv q'"
      "cache_map.items q' = (cache_map.items (cache s))(path sb \<mapsto> ?f y)"
      using cache_map.update_items [OF q k(1), of y ?f] Some k(2) by auto
    have "cached (s\<lparr>cache := q'\<rparr>) = (cached s)(path sb \<mapsto> new_value)" by (auto simp: cached_def q'(3))
    then show ?thesis using cp find Some q' by (auto simp: cache_add_def cache_inv_def cached_def)
  next
    case None
    show ?thesis
    proof (cases "st_oom s (st_brk s)")
      case True
      then have "cached (s\<lparr>st_brk := st_brk s + 1\<rparr>) = cached s" by (auto simp: cached_def)
      then show ?thesis using cp find None True assms(1)
        by (simp add: cache_add_def malloc_def cache_inv_def) (simp add: cached_def)
    next
      case False
      have it: "is_selector (ci_sb ?it)" "path (ci_sb ?it) = path sb" using assms(2) by simp_all
      then obtain q' where q': "rb_insert cache_compare ?it (cache s) = Some (None, q')" "cache_order.queue_inv q'"
        "cache_map.items q' = (cache_map.items (cache s))(path sb \<mapsto> ?it)"
        using cache_map.insert_items [OF q it(1)] None by auto
      have "cached (s\<lparr>st_brk := st_brk s + 1, cache := q'\<rparr>) = (cached s)(path sb \<mapsto> new_value)"
        by (auto simp: cached_def q'(3))
      then show ?thesis using cp find None False q' by (simp add: cache_add_def malloc_def cache_inv_def)
    qed
  qed
  then show ?thesis using cache_lookup_cached by fastforce
qed

text \<open>A change of the value 4.1, none of 4.2.\<close>

lemma cache_inv_initial: "cache_inv initial_state"
  by (simp add: cache_inv_def initial_state_def)

theorem cache_add_cached_witness:
  "\<exists>s'. cache_add ([4, 1] @ replicate 14 0) (Some [97]) (ci_elem (cache_key [])) None (VTab 0 0)
      (init_DM_UINT 5 0) 0 None initial_state = Some s' \<and>
    cache_lookup ([4, 1] @ replicate 14 0) s' = Some (Some (init_DM_UINT 5 0)) \<and>
    cache_lookup ([4, 2] @ replicate 14 0) s' = Some None"
proof -
  let ?a = "[4, 1] @ replicate 14 0 :: dm_selector" and ?b = "[4, 2] @ replicate 14 0 :: dm_selector"
  have sel: "is_selector ?a" "is_selector ?b" "path ?a = [4, 1]" "path ?b = [4, 2]"
    by (simp_all add: is_selector_def path_def DM_SELECTOR_LEN_def)
  have e: "cached initial_state p = None" for p by (simp add: cached_def initial_state_def)
  from cache_add_cached [OF cache_inv_initial sel(1), of "[97]" "ci_elem (cache_key [])" None "VTab 0 0" "init_DM_UINT 5 0" 0 None]
  obtain s' where "cache_add ?a (Some [97]) (ci_elem (cache_key [])) None (VTab 0 0) (init_DM_UINT 5 0) 0 None initial_state = Some s'"
    "cached s' = (cached initial_state)([4, 1] \<mapsto> init_DM_UINT 5 0)"
    "\<forall>sel. is_selector sel \<longrightarrow> cache_lookup sel s' = Some (cached s' (path sel))"
    using initial_oom sel(3) by auto
  with sel e show ?thesis by (intro exI [of _ s']) simp
qed


section \<open>Committing and discarding\<close>

text \<open>What a value is when a change of it has been committed.\<close>

definition committed :: "DM_VALUE \<Rightarrow> DM_VALUE \<Rightarrow> DM_VALUE" where
  "committed new v = v\<lparr>dv_v := dv_v new, dv_flags := (dv_flags v AND NOT DV_UPDATE_PENDING) OR DV_UPDATED\<rparr>"

text \<open>Items without a \<open>set\<close> function and an index, whose actions are defined.\<close>

definition plain_item :: "dm_env \<Rightarrow> cache_item \<Rightarrow> bool" where
  "plain_item env it \<longleftrightarrow> \<not> has (el_flags (ci_elem it)) F_SET \<and> \<not> has (el_flags (ci_elem it)) F_INDEX \<and>
     action_ok env (el_action (ci_elem it))"

lemma apply_plain:
  assumes it: "plain_item env it" "is_selector (ci_sb it)" and v: "getv s (ci_old_value it) = Some v"
    and inv: "slots_inv s" "chain_inv s"
  obtains s1 s' where "putv s (ci_old_value it) (committed (ci_new_value it) v) = Some s1"
    "apply_item env slot it s = Some s'" "announced s1 s'"
proof -
  let ?r = "ci_old_value it"
  let ?v1 = "v\<lparr>dv_v := dv_v (ci_new_value it)\<rparr>"
  let ?v2 = "?v1\<lparr>dv_flags := dv_flags v AND NOT DV_UPDATE_PENDING\<rparr>"
  obtain a where a: "putv s ?r ?v1 = Some a" using putv_getv [OF v] by blast
  obtain b where b: "putv s ?r ?v2 = Some b" using putv_getv [OF v] by blast
  obtain s1 where s1: "putv s ?r (committed (ci_new_value it) v) = Some s1" using putv_getv [OF v] by blast
  have steps: "copy_v ?r (ci_new_value it) s = Some a" "clear_flags a ?r DV_UPDATE_PENDING = Some b"
    "or_flags b ?r DV_UPDATED = Some s1"
    using v a b s1 getv_putv [OF a] getv_putv [OF b] putv_putv [OF a] putv_putv [OF b]
    by (simp_all add: copy_v_def clear_flags_def or_flags_def committed_def)
  have inv1: "slots_inv s1" "chain_inv s1" using inv putv_sel [OF s1] by (simp_all add: slots_inv_def chain_inv_def)
  obtain s2 where s2: "notify_sel slot (ci_sb it) (committed (ci_new_value it) v) NOTIFY_CHANGE s1 = Some s2" "notified s1 s2"
    using notify_sel_total [OF inv1(1) it(2)] by blast
  have an: "announced s1 s2" by (rule notified_announced [OF s2(2) inv1(2)])
  obtain s3 where s3: "action_sel env (el_action (ci_elem it)) (ci_sb it) DM_CHANGE s2 = Some s3" "announced s2 s3"
    using action_sel_total [OF _ it(2) announced_sel(2,1) [OF an]] it(1) unfolding plain_item_def by blast
  have "apply_item env slot it s = Some s3"
    using it(1) steps getv_putv [OF s1] s2 s3 by (simp add: apply_item_def plain_item_def)
  with s1 announced_trans [OF an s3(2)] that show thesis by blast
qed

lemma remove_root_split:
  assumes "q \<noteq> []"
  obtains us it vs where "q = us @ it # vs" "RB_ROOT root q = Some it" "remove_root root q = us @ vs"
proof -
  let ?i = "root_index root q"
  have "q = take ?i q @ q ! ?i # drop (Suc ?i) q" by (rule id_take_nth_drop [OF root_index_less [OF assms]])
  then show thesis
    using assms by (intro that [of "take ?i q" "q ! ?i" "drop (Suc ?i) q"])
      (simp_all add: RB_ROOT_def remove_root_def rb_remove_nth_def)
qed

text \<open>
  A loop over the cache whose body writes the place of the item and announces it, in any order
  of the items.
\<close>

lemma while_cache_writes:
  assumes body: "\<And>it s v. P it \<Longrightarrow> is_selector (ci_sb it) \<Longrightarrow> getv s (ci_old_value it) = Some v \<Longrightarrow> slots_inv s \<Longrightarrow> chain_inv s \<Longrightarrow>
      \<exists>s1 s'. putv s (ci_old_value it) (w it v) = Some s1 \<and> body it s = Some s' \<and> announced s1 s'"
    and "cache_inv s" "slots_inv s" "chain_inv s" "\<forall>it \<in> set (cache s). P it \<and> getv s (ci_old_value it) \<noteq> None"
    "distinct (map ci_old_value (cache s))"
  shows "\<exists>s'. while_cache root body s = Some s' \<and> cache s' = [] \<and>
    (\<forall>it \<in> set (cache s). getv s' (ci_old_value it) = map_option (w it) (getv s (ci_old_value it))) \<and>
    (\<forall>r. r \<notin> ci_old_value ` set (cache s) \<longrightarrow> getv s' r = getv s r)"
  using assms(2-)
proof (induction "length (cache s)" arbitrary: s)
  case 0
  then have "cache s = []" by simp
  moreover from this have "while_cache root body s = Some s" by (subst while_cache.simps) (simp add: RB_ROOT_def)
  ultimately show ?case by simp
next
  case (Suc n)
  then have "cache s \<noteq> []" by auto
  then obtain us it vs where q: "cache s = us @ it # vs" "RB_ROOT root (cache s) = Some it" "remove_root root (cache s) = us @ vs"
    by (rule remove_root_split)
  let ?s0 = "s\<lparr>cache := us @ vs\<rparr>"
  have qi: "cache_order.queue_inv (us @ it # vs)" using Suc.prems(1) q by (simp add: cache_inv_def)
  have it: "P it" "is_selector (ci_sb it)" using Suc.prems(4) q qi by (auto simp: cache_order.queue_inv_def)
  obtain v where v: "getv ?s0 (ci_old_value it) = Some v" using Suc.prems(4) q by auto
  have inv0: "slots_inv ?s0" "chain_inv ?s0" using Suc.prems by (simp_all add: slots_inv_def chain_inv_def)
  obtain s1 s2 where st: "putv ?s0 (ci_old_value it) (w it v) = Some s1" "body it ?s0 = Some s2" "announced s1 s2"
    using body [OF it v inv0] by blast
  note an = announced_sel [OF st(3)]
  have c2: "cache s2 = us @ vs" using an(13) putv_sel(13) [OF st(1)] by simp
  have gv: "getv s2 r = getv s1 r" for r using an(6,8) by (rule getv_fields)
  have g2: "getv s2 r = getv s r" if "r \<noteq> ci_old_value it" for r
    using gv [of r] getv_putv_other [OF st(1) that] by simp
  have gi: "getv s2 (ci_old_value it) = Some (w it v)" using gv [of "ci_old_value it"] getv_putv [OF st(1)] by simp
  have ne: "ci_old_value x \<noteq> ci_old_value it" if "x \<in> set (us @ vs)" for x
  proof -
    have "ci_old_value it \<notin> ci_old_value ` set (us @ vs)" using Suc.prems(5) q(1) by auto
    then show ?thesis using that by (metis imageI)
  qed
  have "\<exists>s'. while_cache root body s2 = Some s' \<and> cache s' = [] \<and>
    (\<forall>it \<in> set (cache s2). getv s' (ci_old_value it) = map_option (w it) (getv s2 (ci_old_value it))) \<and>
    (\<forall>r. r \<notin> ci_old_value ` set (cache s2) \<longrightarrow> getv s' r = getv s2 r)"
  proof (rule Suc.hyps(1))
    show "n = length (cache s2)" using Suc.hyps(2) q c2 by simp
    show "cache_inv s2" using cache_order.queue_inv_sub [OF qi] c2 by (simp add: cache_inv_def)
    show "slots_inv s2" "chain_inv s2" by (rule an)+
    show "\<forall>it \<in> set (cache s2). P it \<and> getv s2 (ci_old_value it) \<noteq> None"
      using Suc.prems(4) q c2 g2 [OF ne] by simp
    show "distinct (map ci_old_value (cache s2))" using Suc.prems(5) q c2 by simp
  qed
  then obtain s' where IH: "while_cache root body s2 = Some s'" "cache s' = []"
    "\<And>x. x \<in> set (us @ vs) \<Longrightarrow> getv s' (ci_old_value x) = map_option (w x) (getv s2 (ci_old_value x))"
    "\<And>r. r \<notin> ci_old_value ` set (us @ vs) \<Longrightarrow> getv s' r = getv s2 r"
    unfolding c2 by blast
  have "while_cache root body s = Some s'"
    by (subst while_cache.simps) (use q st(2) IH(1) in simp)
  moreover have "getv s' (ci_old_value x) = map_option (w x) (getv s (ci_old_value x))" if "x \<in> set (cache s)" for x
  proof (cases "x = it")
    case True
    have "ci_old_value it \<notin> ci_old_value ` set (us @ vs)" using ne by force
    then show ?thesis using IH(4) gi v True by simp
  next
    case False
    then have "x \<in> set (us @ vs)" using that q by auto
    then show ?thesis using IH(3) g2 [OF ne] by simp
  qed
  moreover have "getv s' r = getv s r" if "r \<notin> ci_old_value ` set (cache s)" for r
    using that IH(4) g2 q by auto
  ultimately show ?case using IH(2) by blast
qed



text \<open>The cache of a session that has set the value 4.1, the first one of the table at 3, to 8.\<close>

definition cached_change :: cache_item where
  "cached_change = \<lparr>ci_id = 1, ci_sb = [4, 1] @ replicate 14 0, ci_name = [97],
     ci_elem = Element [97] T_UINT 0 0 (Fk_value \<lparr>vf_validate = None, vf_get = None, vf_set = None\<rparr>) U_none,
     ci_base = Some 3, ci_old_value = VTab 3 0, ci_new_value = init_DM_UINT 8 DV_UPDATED, ci_code = 0, ci_msg = None\<rparr>"

definition pending_store :: dmst where
  "pending_store = initial_state\<lparr>tables := [3 \<mapsto> \<lparr>vt_id = 4 # replicate 15 0, vt_values = [init_DM_UINT 1 DV_UPDATE_PENDING]\<rparr>],
     cache := [cached_change]\<rparr>"

lemma pending_store_inv:
  "cache_inv pending_store" "slots_inv pending_store" "chain_inv pending_store" "cache pending_store = [cached_change]"
  "getv pending_store (VTab 3 0) = Some (init_DM_UINT 1 DV_UPDATE_PENDING)"
proof -
  have "is_selector (ci_sb cached_change)" by (simp add: cached_change_def is_selector_def DM_SELECTOR_LEN_def)
  then show "cache_inv pending_store" by (simp add: pending_store_def cache_inv_def cache_order.queue_inv_Cons)
  show "slots_inv pending_store" using slots_inv_initial by (simp add: pending_store_def slots_inv_def)
qed (simp_all add: pending_store_def chain_inv_def initial_state_def)


text \<open>The loop of \<open>cache_reset\<close> ends and has cleared the marks, for values that own no memory.\<close>

lemma cache_reset_returns:
  assumes "cache_inv s" "slots_inv s" "chain_inv s"
    and "\<forall>it \<in> set (cache s). el_type (ci_elem it) \<notin> {T_STR, T_BINARY, T_SELECTOR} \<and> getv s (ci_old_value it) \<noteq> None"
    and "distinct (map ci_old_value (cache s))"
  shows "\<exists>s'. cache_reset env s = Some s' \<and> cache_is_empty env s' \<and>
    (\<forall>it \<in> set (cache s). getv s' (ci_old_value it) =
       map_option (\<lambda>v. v\<lparr>dv_flags := dv_flags v AND NOT DV_UPDATE_PENDING\<rparr>) (getv s (ci_old_value it))) \<and>
    (\<forall>r. r \<notin> ci_old_value ` set (cache s) \<longrightarrow> getv s' r = getv s r)"
proof -
  let ?body = "\<lambda>item s. do { (_, s) \<leftarrow> dm_free_any_value (ci_elem item) (ci_new_value item) s;
     clear_flags s (ci_old_value item) DV_UPDATE_PENDING }"
  let ?w = "\<lambda>it v. v\<lparr>dv_flags := dv_flags v AND NOT DV_UPDATE_PENDING\<rparr>"
  have body: "\<exists>s1 s'. putv s (ci_old_value it) (?w it v) = Some s1 \<and> ?body it s = Some s' \<and> announced s1 s'"
    if ty: "el_type (ci_elem it) \<notin> {T_STR, T_BINARY, T_SELECTOR}" and v: "getv s (ci_old_value it) = Some v"
      and inv: "slots_inv s" "chain_inv s" for it s v
  proof -
    obtain s1 where s1: "putv s (ci_old_value it) (?w it v) = Some s1" using putv_getv [OF v] by blast
    have "dm_free_any_value (ci_elem it) (ci_new_value it) s = Some (ci_new_value it, s)"
      using ty by (simp add: dm_free_any_value_def split: dm_type.split)
    moreover have "announced s1 s1"
      using inv putv_sel [OF s1] by (intro announced_refl) (simp_all add: slots_inv_def chain_inv_def)
    ultimately show ?thesis using s1 v by (simp add: clear_flags_def)
  qed
  have "\<exists>s'. while_cache (rb_root env) ?body s = Some s' \<and> cache s' = [] \<and>
    (\<forall>it \<in> set (cache s). getv s' (ci_old_value it) = map_option (?w it) (getv s (ci_old_value it))) \<and>
    (\<forall>r. r \<notin> ci_old_value ` set (cache s) \<longrightarrow> getv s' r = getv s r)"
    by (rule while_cache_writes [where P = "\<lambda>it. el_type (ci_elem it) \<notin> {T_STR, T_BINARY, T_SELECTOR}"])
      (use body assms in blast)+
  then show ?thesis by (auto simp: cache_reset_def cache_is_empty_def RB_ROOT_def)
qed



end
