(* ===== verification/Dm_Walk.thy ===== *)
theory Dm_Walk
  imports Dm_Object
begin

text \<open>
  Recursion over the whole data model: the walkers and the flag update of
  \<^verbatim>\<open>mand/dm_store.c\<close>, and the functions of \<^verbatim>\<open>mand/dm_notify.c\<close> that set and reset the
  notification levels in the store and release a slot.

  A walk callback has data \<open>'u\<close> of its own and says whether to descend.
\<close>

section \<open>Walkers\<close>

datatype CB_type = CB_element | CB_table_start | CB_table_end | CB_object_start | CB_object_end
  | CB_object_instance_start | CB_object_instance_end

type_synonym 'u walk_cb = "CB_type \<Rightarrow> dm_id \<Rightarrow> dm_element \<Rightarrow> DM_VALUE \<Rightarrow> 'u \<times> dmst \<Rightarrow> (bool \<times> 'u \<times> dmst) option"

text \<open>The element reference of a walk names the table at \<open>t\<close> and the element at place \<open>i\<close>.\<close>

definition walk_ref :: "dm_table \<Rightarrow> addr \<Rightarrow> nat \<Rightarrow> dm_element \<Rightarrow> dm_element_ref" where
  "walk_ref kw t i e = \<lparr>er_id = of_nat (i + 1), er_kw_base = Some kw, er_kw_elem = Some e, er_st_type = T_NONE,
     er_st_base = SB_tab (Some t), er_st_value = Some (VTab t i)\<rparr>"

function dm_walk_table_cb ::
    "dm_env \<Rightarrow> int \<Rightarrow> 'u walk_cb \<Rightarrow> dm_table \<Rightarrow> ptr \<Rightarrow> 'u \<times> dmst \<Rightarrow> (bool \<times> 'u \<times> dmst) option"
  and dm_walk_element_cb ::
    "dm_env \<Rightarrow> int \<Rightarrow> 'u walk_cb \<Rightarrow> dm_element_ref \<Rightarrow> dm_element \<Rightarrow> 'u \<times> dmst \<Rightarrow> (bool \<times> 'u \<times> dmst) option"
  and dm_walk_object_cb ::
    "dm_env \<Rightarrow> int \<Rightarrow> 'u walk_cb \<Rightarrow> dm_id \<Rightarrow> dm_element \<Rightarrow> DM_VALUE \<Rightarrow> 'u \<times> dmst \<Rightarrow> (bool \<times> 'u \<times> dmst) option" where
  "dm_walk_table_cb env level cb kw_base st_base us = (case st_base of
     None \<Rightarrow> Some (False, us)
   | Some t \<Rightarrow>
       ofold (\<lambda>(i, e) (ret, us). do {
           (r, us) \<leftarrow> dm_walk_element_cb env level cb (walk_ref kw_base t i e) e us;
           Some (ret \<and> r, us) }) (enumerate 0 (tab_elems kw_base)) (True, us))"
| "dm_walk_element_cb env level cb ref e us = do {
     (v, s) \<leftarrow> dm_get_element_value env T_ANY ref (snd us);
     let us = (fst us, s);
     case el_type e of
       T_TOKEN \<Rightarrow> do {
         p \<leftarrow> DM_TABLE v;
         if p = None then Some (True, us)
         else do {
           (go, us) \<leftarrow> cb CB_table_start (er_id ref) e v us;
           if go
           then do {
             (ret, us) \<leftarrow> (if level - 1 \<noteq> 0
               then (case u_table e of
                   Some (Some kt) \<Rightarrow> dm_walk_table_cb env (level - 1) cb kt p us
                 | Some None \<Rightarrow> Some (False, us)
                 | None \<Rightarrow> None)
               else Some (True, us));
             (_, us) \<leftarrow> cb CB_table_end (er_id ref) e v us;
             Some (ret, us) }
           else Some (True, us) } }
     | T_OBJECT \<Rightarrow> dm_walk_object_cb env level cb (er_id ref) e v us
     | _ \<Rightarrow> do { (_, us) \<leftarrow> cb CB_element (er_id ref) e v us; Some (True, us) } }"
| "dm_walk_object_cb env level cb x e v us = do {
     (go, us) \<leftarrow> cb CB_object_start x e v us;
     if go
     then do {
       (ret, us) \<leftarrow> (if level - 1 \<noteq> 0
         then do {
           inst \<leftarrow> DM_INSTANCE v;
           p \<leftarrow> dm_instance_first (snd us) inst;
           ((ret, u), s) \<leftarrow> for_rows (\<lambda>s nd. dm_instance_next s inst nd)
             (\<lambda>nd ((ret, u), s). do {
                n \<leftarrow> nodes s nd;
                (go, us) \<leftarrow> cb CB_object_instance_start (in_instance n) e (in_table n) (u, s);
                if go
                then do {
                  n \<leftarrow> nodes (snd us) nd;
                  (r, us) \<leftarrow> (if level - 2 \<noteq> 0
                    then (case u_table e of
                        Some (Some kt) \<Rightarrow> do {
                          q \<leftarrow> DM_TABLE (in_table n);
                          dm_walk_table_cb env (level - 2) cb kt q us }
                      | Some None \<Rightarrow> Some (False, us)
                      | None \<Rightarrow> None)
                    else Some (True, us));
                  n \<leftarrow> nodes (snd us) nd;
                  (_, us) \<leftarrow> cb CB_object_instance_end (in_instance n) e (in_table n) us;
                  Some ((ret \<and> r, fst us), snd us) }
                else Some ((ret, fst us), snd us) }) p ((True, fst us), snd us);
           Some (ret, u, s) }
         else Some (True, us));
       (_, us) \<leftarrow> cb CB_object_end x e v us;
       Some (ret, us) }
     else Some (True, us) }"
  by pat_completeness auto
termination
proof (relation "measure (\<lambda>x. case x of
    Inl (_, _, _, kw, _) \<Rightarrow> 3 * size kw
  | Inr (Inl (_, _, _, _, e, _)) \<Rightarrow> 3 * size e + 2
  | Inr (Inr (_, _, _, _, e, _)) \<Rightarrow> 3 * size e + 1)", goal_cases)
  case 1
  show ?case by simp
next
  case (2 env level cb kw st us t p q i e)
  then have "e \<in> set (tab_elems kw)" by (auto dest: enumerate_snd)
  then have "size e < size kw" by (rule size_elem_less)
  then show ?case by simp
qed (auto dest: size_u_table_less)

declare dm_walk_table_cb.simps [simp del] dm_walk_element_cb.simps [simp del] dm_walk_object_cb.simps [simp del]

definition dm_walk_instance_cb ::
  "dm_env \<Rightarrow> int \<Rightarrow> 'u walk_cb \<Rightarrow> dm_id \<Rightarrow> dm_element \<Rightarrow> DM_VALUE \<Rightarrow> 'u \<times> dmst \<Rightarrow> (bool \<times> 'u \<times> dmst) option" where
  "dm_walk_instance_cb env level cb x e v us = do {
     (go, us) \<leftarrow> cb CB_object_instance_start x e v us;
     if go
     then do {
       (ret, us) \<leftarrow> (if level - 1 \<noteq> 0
         then do {
           kt \<leftarrow> u_table e;
           q \<leftarrow> DM_TABLE v;
           case kt of None \<Rightarrow> Some (False, us) | Some kt \<Rightarrow> dm_walk_table_cb env (level - 1) cb kt q us }
         else Some (True, us));
       (_, us) \<leftarrow> cb CB_object_instance_end x e v us;
       Some (ret, us) }
     else Some (True, us) }"

definition dm_walk_by_selector_cb ::
  "dm_env \<Rightarrow> dm_selector \<Rightarrow> int \<Rightarrow> 'u walk_cb \<Rightarrow> 'u \<times> dmst \<Rightarrow> (bool \<times> 'u \<times> dmst) option" where
  "dm_walk_by_selector_cb env sel level cb us = do {
     (found, ref) \<leftarrow> dm_get_element_ref env (snd us) sel;
     if found
     then do {
       e \<leftarrow> er_kw_elem ref;
       r \<leftarrow> er_st_value ref;
       v \<leftarrow> getv (snd us) r;
       if el_type e = T_OBJECT
       then if er_st_type ref = T_INSTANCE
            then dm_walk_instance_cb env level cb (er_id ref) e v us
            else dm_walk_object_cb env level cb (er_id ref) e v us
       else dm_walk_element_cb env level cb ref e us }
     else Some (True, us) }"

section \<open>Propagating flags\<close>

function update_flags_table :: "dm_table \<Rightarrow> ptr \<Rightarrow> dmst \<Rightarrow> (u16 \<times> dmst) option"
  and update_flags_element :: "addr \<Rightarrow> nat \<Rightarrow> dm_element \<Rightarrow> dmst \<Rightarrow> (u16 \<times> dmst) option"
  and update_flags_object :: "dm_element \<Rightarrow> ptr \<Rightarrow> dmst \<Rightarrow> (u16 \<times> dmst) option" where
  "update_flags_table kw st s = (case st of
     None \<Rightarrow> Some (0, s)
   | Some t \<Rightarrow>
       ofold (\<lambda>(i, e) (ret, s). do {
         (r, s) \<leftarrow> update_flags_element t i e s;
         Some (ret OR r, s) }) (enumerate 0 (tab_elems kw)) (0, s))"
| "update_flags_element t i e s = do {
     v \<leftarrow> getv s (VTab t i);
     let ret = dv_flags v AND (DV_UPDATED OR DV_NOTIFY);
     (r, s) \<leftarrow> (case el_type e of
         T_TOKEN \<Rightarrow> do {
           p \<leftarrow> DM_TABLE v;
           if p = None then Some (0, s)
           else (case u_table e of
               Some (Some kt) \<Rightarrow> update_flags_table kt p s
             | Some None \<Rightarrow> Some (0, s)
             | None \<Rightarrow> None) }
       | T_OBJECT \<Rightarrow> do { inst \<leftarrow> DM_INSTANCE v; update_flags_object e inst s }
       | _ \<Rightarrow> Some (0, s));
     let ret = ret OR r;
     s \<leftarrow> (if ret \<noteq> 0 then or_flags s (VTab t i) ret else Some s);
     Some (ret, s) }"
| "update_flags_object e inst s = do {
     p \<leftarrow> dm_instance_first s inst;
     for_rows (\<lambda>s nd. dm_instance_next s inst nd)
       (\<lambda>nd (ret, s). do {
          n \<leftarrow> nodes s nd;
          (r, s) \<leftarrow> (case u_table e of
              Some (Some kt) \<Rightarrow> do { q \<leftarrow> DM_TABLE (in_table n); update_flags_table kt q s }
            | Some None \<Rightarrow> Some (0, s)
            | None \<Rightarrow> None);
          s \<leftarrow> (if r \<noteq> 0 then or_flags s (VNode nd) r else Some s);
          n \<leftarrow> nodes s nd;
          Some (ret OR dv_flags (in_table n), s) }) p (0, s) }"
  by pat_completeness auto
termination
proof (relation "measure (\<lambda>x. case x of
    Inl (kw, _) \<Rightarrow> 3 * size kw | Inr (Inl (_, _, e, _)) \<Rightarrow> 3 * size e + 2 | Inr (Inr (e, _)) \<Rightarrow> 3 * size e + 1)", goal_cases)
  case 1
  show ?case by simp
next
  case (2 kw st s t p q i e)
  then have "e \<in> set (tab_elems kw)" by (auto dest: enumerate_snd)
  then have "size e < size kw" by (rule size_elem_less)
  then show ?case by simp
qed (auto dest: size_u_table_less)

declare update_flags_table.simps [simp del] update_flags_element.simps [simp del] update_flags_object.simps [simp del]

definition dm_update_flags :: "dm_env \<Rightarrow> dmst \<Rightarrow> dmst option" where
  "dm_update_flags env s = do { (_, s) \<leftarrow> update_flags_table (dm_root env) (dm_value_store s) s; Some s }"

section \<open>Notification levels in the store\<close>

definition mask_notify :: "u32 \<Rightarrow> vref \<Rightarrow> dmst \<Rightarrow> dmst option" where
  "mask_notify msk r s = do { v \<leftarrow> getv s r; putv s r (v\<lparr>dv_notify := dv_notify v AND msk\<rparr>) }"

function reset_notify_table :: "u32 \<Rightarrow> dm_table \<Rightarrow> ptr \<Rightarrow> dmst \<Rightarrow> dmst option"
  and reset_notify_element :: "u32 \<Rightarrow> addr \<Rightarrow> nat \<Rightarrow> dm_element \<Rightarrow> dmst \<Rightarrow> dmst option"
  and reset_notify_object :: "u32 \<Rightarrow> dm_element \<Rightarrow> ptr \<Rightarrow> dmst \<Rightarrow> dmst option" where
  "reset_notify_table msk kw st s = (case st of
     None \<Rightarrow> Some s
   | Some t \<Rightarrow> ofold (\<lambda>(i, e). reset_notify_element msk t i e) (enumerate 0 (tab_elems kw)) s)"
| "reset_notify_element msk t i e s = do {
     v \<leftarrow> getv s (VTab t i);
     s \<leftarrow> (case el_type e of
         T_TOKEN \<Rightarrow> do {
           p \<leftarrow> DM_TABLE v;
           if p = None then Some s
           else (case u_table e of
               Some (Some kt) \<Rightarrow> reset_notify_table msk kt p s
             | Some None \<Rightarrow> Some s
             | None \<Rightarrow> None) }
       | T_OBJECT \<Rightarrow> do { inst \<leftarrow> DM_INSTANCE v; reset_notify_object msk e inst s }
       | _ \<Rightarrow> Some s);
     mask_notify msk (VTab t i) s }"
| "reset_notify_object msk e inst s = do {
     p \<leftarrow> dm_instance_first s inst;
     (_, s) \<leftarrow> for_rows (\<lambda>s nd. dm_instance_next s inst nd)
       (\<lambda>nd (b, s). do {
          n \<leftarrow> nodes s nd;
          s \<leftarrow> (case u_table e of
              Some (Some kt) \<Rightarrow> do { q \<leftarrow> DM_TABLE (in_table n); reset_notify_table msk kt q s }
            | Some None \<Rightarrow> Some s
            | None \<Rightarrow> None);
          Some (b, s) }) p ((), s);
     Some s }"
  by pat_completeness auto
termination
proof (relation "measure (\<lambda>x. case x of
    Inl (_, kw, _) \<Rightarrow> 3 * size kw | Inr (Inl (_, _, _, e, _)) \<Rightarrow> 3 * size e + 2 | Inr (Inr (_, e, _)) \<Rightarrow> 3 * size e + 1)", goal_cases)
  case 1
  show ?case by simp
next
  case (2 msk kw st s t p q i e)
  then have "e \<in> set (tab_elems kw)" by (auto dest: enumerate_snd)
  then have "size e < size kw" by (rule size_elem_less)
  then show ?case by simp
qed (auto dest: size_u_table_less)

declare reset_notify_table.simps [simp del] reset_notify_element.simps [simp del] reset_notify_object.simps [simp del]

definition dm_reset_notify_slot :: "dm_env \<Rightarrow> nat \<Rightarrow> dmst \<Rightarrow> dmst option" where
  "dm_reset_notify_slot env slot s =
     reset_notify_table (NOT (push_bit (slot * 2) 3)) (dm_root env) (dm_value_store s) s"

definition free_slot :: "dm_env \<Rightarrow> int \<Rightarrow> dmst \<Rightarrow> dmst option" where
  "free_slot env slot s =
     (if slot < 1 \<or> slot > 15 then Some s
      else if \<not> bit (slot_map s) (nat slot) then Some s
      else do {
        sl \<leftarrow> nth_opt (slots s) (nat slot);
        let s = s\<lparr>slots := (slots s)[nat slot := sl\<lparr>sl_queue := clear_notify_queue (rb_root env) (sl_queue sl)\<rparr>]\<rparr>;
        let s = s\<lparr>slot_map := slot_map s AND NOT (push_bit (nat slot) 1), slot_cnt := slot_cnt s - 1,
                  slots := (slots s)[nat slot := \<lparr>sl_cb = None, sl_data = 0, sl_queue = []\<rparr>]\<rparr>;
        dm_reset_notify_slot env (nat slot) s })"

definition set_notify_at :: "dm_element \<Rightarrow> vref \<Rightarrow> int \<Rightarrow> u32 \<Rightarrow> dmst \<Rightarrow> (DM_RESULT \<times> dmst) option" where
  "set_notify_at e r slot ntfy s = do {
     v \<leftarrow> getv s r;
     (res, v) \<leftarrow> set_notify_single_slot_element e v slot ntfy;
     s \<leftarrow> putv s r v;
     Some (res, s) }"

definition dm_set_notify_by_selector ::
  "dm_env \<Rightarrow> dm_selector \<Rightarrow> int \<Rightarrow> u32 \<Rightarrow> dmst \<Rightarrow> (DM_RESULT \<times> dmst) option" where
  "dm_set_notify_by_selector env sel slot ntfy s = do {
     (found, ref) \<leftarrow> dm_get_element_ref env s sel;
     if found
     then do {
       e \<leftarrow> er_kw_elem ref;
       r \<leftarrow> er_st_value ref;
       if el_type e = T_TOKEN then Some (DM_INVALID_TYPE, s)
       else if el_type e = T_OBJECT \<and> er_st_type ref = T_INSTANCE
       then do { nd \<leftarrow> cast_node_table_ref2node r; set_notify_at e (VNode nd) slot ntfy s }
       else set_notify_at e r slot ntfy s }
     else Some (DM_VALUE_NOT_FOUND, s) }"

function set_notify_slot_table :: "int \<Rightarrow> u32 \<Rightarrow> dm_table \<Rightarrow> ptr \<Rightarrow> dmst \<Rightarrow> dmst option"
  and set_notify_slot_element :: "int \<Rightarrow> u32 \<Rightarrow> addr \<Rightarrow> nat \<Rightarrow> dm_element \<Rightarrow> dmst \<Rightarrow> dmst option"
  and set_notify_slot_object :: "int \<Rightarrow> u32 \<Rightarrow> dm_element \<Rightarrow> ptr \<Rightarrow> dmst \<Rightarrow> dmst option" where
  "set_notify_slot_table slot ntfy kw st s = (case st of
     None \<Rightarrow> Some s
   | Some t \<Rightarrow> ofold (\<lambda>(i, e). set_notify_slot_element slot ntfy t i e) (enumerate 0 (tab_elems kw)) s)"
| "set_notify_slot_element slot ntfy t i e s = do {
     v \<leftarrow> getv s (VTab t i);
     s \<leftarrow> (case el_type e of
         T_TOKEN \<Rightarrow> do {
           p \<leftarrow> DM_TABLE v;
           if p = None then Some s
           else (case u_table e of
               Some (Some kt) \<Rightarrow> set_notify_slot_table slot ntfy kt p s
             | Some None \<Rightarrow> Some s
             | None \<Rightarrow> None) }
       | T_OBJECT \<Rightarrow> do { inst \<leftarrow> DM_INSTANCE v; set_notify_slot_object slot ntfy e inst s }
       | _ \<Rightarrow> Some s);
     (_, s) \<leftarrow> set_notify_at e (VTab t i) slot ntfy s;
     Some s }"
| "set_notify_slot_object slot ntfy e inst s = do {
     p \<leftarrow> dm_instance_first s inst;
     (_, s) \<leftarrow> for_rows (\<lambda>s nd. dm_instance_next s inst nd)
       (\<lambda>nd (b, s). do {
          (_, s) \<leftarrow> set_notify_at e (VNode nd) slot ntfy s;
          n \<leftarrow> nodes s nd;
          s \<leftarrow> (case u_table e of
              Some (Some kt) \<Rightarrow> do { q \<leftarrow> DM_TABLE (in_table n); set_notify_slot_table slot ntfy kt q s }
            | Some None \<Rightarrow> Some s
            | None \<Rightarrow> None);
          Some (b, s) }) p ((), s);
     Some s }"
  by pat_completeness auto
termination
proof (relation "measure (\<lambda>x. case x of
    Inl (_, _, kw, _) \<Rightarrow> 3 * size kw | Inr (Inl (_, _, _, _, e, _)) \<Rightarrow> 3 * size e + 2 | Inr (Inr (_, _, e, _)) \<Rightarrow> 3 * size e + 1)", goal_cases)
  case 1
  show ?case by simp
next
  case (2 slot ntfy kw st s t p q i e)
  then have "e \<in> set (tab_elems kw)" by (auto dest: enumerate_snd)
  then have "size e < size kw" by (rule size_elem_less)
  then show ?case by simp
qed (auto dest: size_u_table_less)

declare set_notify_slot_table.simps [simp del] set_notify_slot_element.simps [simp del]
  set_notify_slot_object.simps [simp del]

definition dm_set_notify_by_selector_recursive ::
  "dm_env \<Rightarrow> dm_selector \<Rightarrow> int \<Rightarrow> u32 \<Rightarrow> dmst \<Rightarrow> (DM_RESULT \<times> dmst) option" where
  "dm_set_notify_by_selector_recursive env sel slot ntfy s = do {
     (found, ref) \<leftarrow> dm_get_element_ref env s sel;
     if \<not> found then Some (DM_VALUE_NOT_FOUND, s)
     else do {
       e \<leftarrow> er_kw_elem ref;
       r \<leftarrow> er_st_value ref;
       v \<leftarrow> getv s r;
       case el_type e of
         T_TOKEN \<Rightarrow> do {
           p \<leftarrow> DM_TABLE v;
           s \<leftarrow> (if p = None then Some s
                else do { kt \<leftarrow> u_table e;
                  case kt of None \<Rightarrow> Some s | Some kt \<Rightarrow> set_notify_slot_table slot ntfy kt p s });
           Some (DM_OK, s) }
       | T_OBJECT \<Rightarrow>
           if er_st_type ref = T_OBJECT
           then do {
             (_, s) \<leftarrow> set_notify_at e r slot ntfy s;
             v \<leftarrow> getv s r;
             inst \<leftarrow> DM_INSTANCE v;
             s \<leftarrow> set_notify_slot_object slot ntfy e inst s;
             Some (DM_OK, s) }
           else do {
             nd \<leftarrow> cast_node_table_ref2node r;
             (_, s) \<leftarrow> set_notify_at e (VNode nd) slot ntfy s;
             n \<leftarrow> nodes s nd;
             q \<leftarrow> DM_TABLE (in_table n);
             kt \<leftarrow> u_table e;
             s \<leftarrow> (case kt of None \<Rightarrow> Some s | Some kt \<Rightarrow> set_notify_slot_table slot ntfy kt q s);
             Some (DM_OK, s) }
       | _ \<Rightarrow> Some (DM_INVALID_TYPE, s) } }"

end
