(* ===== verification/Dm_Msg.thy ===== *)
theory Dm_Msg
  imports Dm_Rc
begin

text \<open>
  The messages of the configuration protocol: \<^verbatim>\<open>libdmconfig/dmmsg.c\<close> and
  \<^verbatim>\<open>libdmconfig/dmmsg.h\<close>. A message is a header of 20 bytes and a sequence of AVPs
  (attribute, value), each a header of 8 bytes, 12 with a vendor, and a value padded to a
  multiple of four; the value of a group is again a sequence of AVPs.

  Memory is a list of bytes. A pointer into a block is the rest of the block from
  there on, so that an access past the end of the block is a fault while one past the end
  of a group inside the block is not. Integers are stored in network order, which is
  independent of the host. Sizes and positions (\<^verbatim>\<open>size_t\<close>) are natural numbers: they
  count bytes of a block and do not wrap, except for the one subtraction in
  \<open>dm_init_packet\<close>. \<open>mem n\<close> says whether talloc can provide a block of \<open>n\<close> bytes;
  the contexts that own the blocks are not modelled.
\<close>

section \<open>Constants\<close>

definition DM_BLOCK_ALLOC :: nat where "DM_BLOCK_ALLOC = 2048"
definition TIME_SINCE_EPOCH :: int where "TIME_SINCE_EPOCH = 2208988800"
definition IANA_INET :: u16 where "IANA_INET = 1"
definition IANA_INET6 :: u16 where "IANA_INET6 = 2"
definition AVP_FLAG_VENDOR :: u8 where "AVP_FLAG_VENDOR = push_bit 7 1"
definition CMD_FLAG_REQUEST :: u8 where "CMD_FLAG_REQUEST = push_bit 7 1"

text \<open>\<^verbatim>\<open>sizeof (struct dm_packet)\<close>\<close>

definition sizeof_dm_packet :: nat where "sizeof_dm_packet = 20"

definition VP_TRAVELPING :: u32 where "VP_TRAVELPING = 18681"
definition APP_ID :: u32 where "APP_ID = 16777217"
definition AVP_CONTAINER :: u32 where "AVP_CONTAINER = 1025"

section \<open>Bytes\<close>

definition PAD32 :: "nat \<Rightarrow> nat" where
  "PAD32 x = (x + 3) div 4 * 4"

definition uint24to32 :: "u8 list \<Rightarrow> u32" where
  "uint24to32 i24 = push_bit 16 (ucast (i24 ! 0)) OR push_bit 8 (ucast (i24 ! 1)) OR ucast (i24 ! 2)"

definition uint32to24 :: "u32 \<Rightarrow> u8 list" where
  "uint32to24 i32 =
     [ucast (drop_bit 16 i32 AND 0xff), ucast (drop_bit 8 i32 AND 0xff), ucast (i32 AND 0xff)]"

text \<open>\<open>htons\<close>, \<open>htonl\<close> and \<open>htonll\<close> followed by a store, and the loads back.\<close>

definition htons :: "u16 \<Rightarrow> u8 list" where
  "htons w = [ucast (drop_bit 8 w), ucast w]"

definition htonl :: "u32 \<Rightarrow> u8 list" where
  "htonl w = [ucast (drop_bit 24 w), ucast (drop_bit 16 w), ucast (drop_bit 8 w), ucast w]"

definition htonll :: "u64 \<Rightarrow> u8 list" where
  "htonll w = htonl (ucast (drop_bit 32 w)) @ htonl (ucast w)"

definition ntohs :: "u8 list \<Rightarrow> u16" where
  "ntohs b = push_bit 8 (ucast (b ! 0)) OR ucast (b ! 1)"

definition ntohl :: "u8 list \<Rightarrow> u32" where
  "ntohl b = push_bit 24 (ucast (b ! 0)) OR push_bit 16 (ucast (b ! 1)) OR push_bit 8 (ucast (b ! 2)) OR ucast (b ! 3)"

definition ntohll :: "u8 list \<Rightarrow> u64" where
  "ntohll b = push_bit 32 (ucast (ntohl b)) OR ucast (ntohl (drop 4 b))"

definition read_at :: "nat \<Rightarrow> nat \<Rightarrow> u8 list \<Rightarrow> u8 list option" where
  "read_at p n m = (if p + n \<le> length m then Some (take n (drop p m)) else None)"

definition write_at :: "nat \<Rightarrow> u8 list \<Rightarrow> u8 list \<Rightarrow> u8 list option" where
  "write_at p b m = (if p + length b \<le> length m then Some (take p m @ b @ drop (p + length b) m) else None)"

section \<open>Reading a header\<close>

definition dm_packet_length :: "u8 list \<Rightarrow> u32 option" where
  "dm_packet_length pkt = map_option uint24to32 (read_at 1 3 pkt)"

definition dm_packet_flags :: "u8 list \<Rightarrow> u8 option" where
  "dm_packet_flags pkt = map_option hd (read_at 4 1 pkt)"

definition dm_packet_code :: "u8 list \<Rightarrow> u32 option" where
  "dm_packet_code pkt = map_option uint24to32 (read_at 5 3 pkt)"

definition dm_app_id :: "u8 list \<Rightarrow> u32 option" where
  "dm_app_id pkt = map_option ntohl (read_at 8 4 pkt)"

definition dm_hop2hop_id :: "u8 list \<Rightarrow> u32 option" where
  "dm_hop2hop_id pkt = map_option ntohl (read_at 12 4 pkt)"

definition dm_end2end_id :: "u8 list \<Rightarrow> u32 option" where
  "dm_end2end_id pkt = map_option ntohl (read_at 16 4 pkt)"

definition dm_avp_length :: "u8 list \<Rightarrow> u32 option" where
  "dm_avp_length avp = map_option uint24to32 (read_at 5 3 avp)"

section \<open>Decoding\<close>

record DM2_AVPGRP =
  ag_data :: "u8 list"
  ag_size :: nat
  ag_pos :: nat

definition dm_init_avpgrp :: "u8 list \<Rightarrow> nat \<Rightarrow> DM2_AVPGRP" where
  "dm_init_avpgrp data sz = \<lparr>ag_data = data, ag_size = sz, ag_pos = 0\<rparr>"

text \<open>The size is computed in \<^verbatim>\<open>size_t\<close>: it wraps when the length is less than the header's.\<close>

definition dm_init_packet :: "u8 list \<Rightarrow> DM2_AVPGRP option" where
  "dm_init_packet packet = do {
     n \<leftarrow> dm_packet_length packet;
     Some (dm_init_avpgrp (drop sizeof_dm_packet packet)
             (unat (ucast n - of_nat sizeof_dm_packet :: u64))) }"

definition dm_copy_avpgrp :: "(nat \<Rightarrow> bool) \<Rightarrow> DM2_AVPGRP \<Rightarrow> DM2_AVPGRP \<Rightarrow> (rc \<times> DM2_AVPGRP option) option" where
  "dm_copy_avpgrp mem dest src =
     (if mem (ag_size src)
      then do {
        d \<leftarrow> read_at 0 (ag_size src) (ag_data src);
        Some (RC_OK, Some \<lparr>ag_data = d, ag_size = ag_size src, ag_pos = ag_pos src\<rparr>) }
      else Some (RC_ERR_ALLOC, None))"

text \<open>What \<open>dm_expect_avp\<close> stores through its four pointers; the data is a pointer.\<close>

record avp_out =
  av_code :: u32
  av_vendor :: u32
  av_data :: "u8 list"
  av_len :: nat

definition dm_expect_avp :: "DM2_AVPGRP \<Rightarrow> (rc \<times> avp_out option \<times> DM2_AVPGRP) option" where
  "dm_expect_avp grp =
     (if ag_pos grp \<ge> ag_size grp then Some (RC_ERR_AVP_END, None, grp)
      else do {
        let avp = drop (ag_pos grp) (ag_data grp);
        n \<leftarrow> dm_avp_length avp;
        let avp_len = unat n;
        let padded_avp_len = PAD32 avp_len;
        flags \<leftarrow> (if avp_len < 8 then Some 0 else nth_opt avp 4);
        if avp_len < 8 \<or> (flags AND AVP_FLAG_VENDOR \<noteq> 0 \<and> avp_len < 12) \<or> ag_pos grp + padded_avp_len > ag_size grp
        then Some (RC_ERR_INVALID_AVP_LENGTH, None, grp)
        else do {
          let grp = grp\<lparr>ag_pos := ag_pos grp + padded_avp_len\<rparr>;
          code \<leftarrow> map_option ntohl (read_at 0 4 avp);
          if flags AND AVP_FLAG_VENDOR \<noteq> 0
          then do {
            vendor \<leftarrow> map_option ntohl (read_at 8 4 avp);
            Some (RC_OK, Some \<lparr>av_code = code, av_vendor = vendor, av_data = drop 12 avp, av_len = avp_len - 8 - 4\<rparr>, grp) }
          else
            Some (RC_OK, Some \<lparr>av_code = code, av_vendor = 0, av_data = drop 8 avp, av_len = avp_len - 8\<rparr>, grp) } })"

section \<open>Decoding values\<close>

text \<open>Copies into a buffer of \<open>dlen\<close> bytes: the number of characters and what the buffer holds.\<close>

definition dm_get_string_avp :: "nat \<Rightarrow> u8 list \<Rightarrow> nat \<Rightarrow> (nat \<times> u8 list) option" where
  "dm_get_string_avp dlen src slen =
     (if slen \<ge> dlen
      then do { oassert (dlen \<noteq> 0); b \<leftarrow> read_at 0 (dlen - 1) src; Some (dlen - 1, b @ [0]) }
      else do { b \<leftarrow> read_at 0 slen src; Some (slen, b @ [0]) })"

definition dm_get_uint8_avp :: "u8 list \<Rightarrow> u8 option" where
  "dm_get_uint8_avp src = map_option hd (read_at 0 1 src)"

definition dm_get_uint16_avp :: "u8 list \<Rightarrow> u16 option" where
  "dm_get_uint16_avp src = map_option ntohs (read_at 0 2 src)"

definition dm_get_uint32_avp :: "u8 list \<Rightarrow> u32 option" where
  "dm_get_uint32_avp src = map_option ntohl (read_at 0 4 src)"

definition dm_get_uint64_avp :: "u8 list \<Rightarrow> u64 option" where
  "dm_get_uint64_avp src = map_option ntohll (read_at 0 8 src)"

text \<open>The signed readers give the same bits, read as signed numbers.\<close>

definition dm_get_int8_avp :: "u8 list \<Rightarrow> int option" where
  "dm_get_int8_avp src = map_option (sint \<circ> hd) (read_at 0 1 src)"

definition dm_get_int16_avp :: "u8 list \<Rightarrow> int option" where
  "dm_get_int16_avp src = map_option (sint \<circ> ntohs) (read_at 0 2 src)"

definition dm_get_int32_avp :: "u8 list \<Rightarrow> int option" where
  "dm_get_int32_avp src = map_option (sint \<circ> ntohl) (read_at 0 4 src)"

definition dm_get_int64_avp :: "u8 list \<Rightarrow> int option" where
  "dm_get_int64_avp src = map_option (sint \<circ> ntohll) (read_at 0 8 src)"

text \<open>The constant is a 64-bit \<^verbatim>\<open>long\<close>, and so is the difference.\<close>

definition dm_get_time_avp :: "u8 list \<Rightarrow> int option" where
  "dm_get_time_avp src = map_option (\<lambda>w. uint w - TIME_SINCE_EPOCH) (dm_get_uint32_avp src)"

definition dm_get_timeval_avp :: "u8 list \<Rightarrow> (int \<times> int) option" where
  "dm_get_timeval_avp src = do {
     s \<leftarrow> map_option (uint \<circ> ntohl) (read_at 0 4 src);
     u \<leftarrow> map_option (uint \<circ> ntohl) (read_at 4 4 src);
     Some (s, u) }"

datatype af = AF_INET | AF_INET6

text \<open>
  \<open>sz\<close> is the size of the buffer; the result is what the function returns, with the
  family and the bytes it stored, if it stored any.
\<close>

definition dm_get_address_avp :: "nat \<Rightarrow> u8 list \<Rightarrow> nat \<Rightarrow> (nat \<times> (af \<times> u8 list) option) option" where
  "dm_get_address_avp sz src len = do {
     fam \<leftarrow> dm_get_uint16_avp src;
     if fam = IANA_INET
     then (if len < 4 + 2 \<or> sz < 4 then Some (1, None)
           else do { a \<leftarrow> read_at 2 4 src; Some (4, Some (AF_INET, a)) })
     else if fam = IANA_INET6
     then (if len < 16 + 2 \<or> sz < 16 then Some (1, None)
           else do { a \<leftarrow> read_at 2 16 src; Some (16, Some (AF_INET6, a)) })
     else Some (0, None) }"

section \<open>Encoding\<close>

text \<open>\<open>grp\<close> holds the pairs \<^verbatim>\<open>start\<close>, \<^verbatim>\<open>pos\<close> of the sixteen levels.\<close>

record DM2_REQUEST =
  rq_grp :: "(nat \<times> nat) list"
  rq_level :: nat
  rq_packet :: "u8 list option"

definition dm_new_packet ::
  "(nat \<Rightarrow> bool) \<Rightarrow> u32 \<Rightarrow> u8 \<Rightarrow> u32 \<Rightarrow> u32 \<Rightarrow> u32 \<Rightarrow> (rc \<times> DM2_REQUEST) option" where
  "dm_new_packet mem code flags appid hopid endid =
     (let req = \<lparr>rq_grp = replicate 16 (0, 0), rq_level = 0, rq_packet = None\<rparr>
      in if \<not> mem DM_BLOCK_ALLOC then Some (RC_ERR_ALLOC, req)
         else do {
           let pkt = replicate DM_BLOCK_ALLOC 0;
           pkt \<leftarrow> write_at 0 [1] pkt;
           pkt \<leftarrow> write_at 5 (uint32to24 code) pkt;
           pkt \<leftarrow> write_at 4 [flags] pkt;
           pkt \<leftarrow> write_at 1 (uint32to24 (of_nat sizeof_dm_packet)) pkt;
           pkt \<leftarrow> write_at 8 (htonl appid) pkt;
           pkt \<leftarrow> write_at 12 (htonl hopid) pkt;
           pkt \<leftarrow> write_at 16 (htonl endid) pkt;
           Some (RC_OK, req\<lparr>rq_packet := Some pkt,
                            rq_grp := (rq_grp req)[0 := (sizeof_dm_packet, sizeof_dm_packet)]\<rparr>) })"

definition dm_finalize_packet :: "DM2_REQUEST \<Rightarrow> (rc \<times> DM2_REQUEST) option" where
  "dm_finalize_packet req =
     (if rq_level req \<noteq> 0 then Some (RC_ERR_AVP_MISFORMED, req)
      else do {
        pkt \<leftarrow> rq_packet req;
        g \<leftarrow> nth_opt (rq_grp req) 0;
        pkt \<leftarrow> write_at 1 (uint32to24 (of_nat (snd g))) pkt;
        Some (RC_OK, req\<lparr>rq_packet := Some pkt\<rparr>) })"

text \<open>
  When the block cannot grow, the pointer to it is overwritten with \<^verbatim>\<open>NULL\<close>. The bytes that
  \<^verbatim>\<open>realloc\<close> adds are cleared, and so is what lies between \<open>have\<close> blocks and the old end.
\<close>

definition dm_packet_ensure_space :: "(nat \<Rightarrow> bool) \<Rightarrow> DM2_REQUEST \<Rightarrow> nat \<Rightarrow> (rc \<times> DM2_REQUEST) option" where
  "dm_packet_ensure_space mem req len = do {
     g \<leftarrow> nth_opt (rq_grp req) (rq_level req);
     let have_blocks = (snd g + DM_BLOCK_ALLOC - 1) div DM_BLOCK_ALLOC;
     let want = (snd g + DM_BLOCK_ALLOC - 1 + len) div DM_BLOCK_ALLOC;
     if have_blocks = want then Some (RC_OK, req)
     else do {
       pkt \<leftarrow> rq_packet req;
       if \<not> mem (want * DM_BLOCK_ALLOC) then Some (RC_ERR_ALLOC, req\<lparr>rq_packet := None\<rparr>)
       else do {
         old \<leftarrow> read_at 0 (have_blocks * DM_BLOCK_ALLOC) pkt;
         Some (RC_OK, req\<lparr>rq_packet := Some (old @ replicate ((want - have_blocks) * DM_BLOCK_ALLOC) 0)\<rparr>) } } }"

definition dm_put_avp ::
  "(nat \<Rightarrow> bool) \<Rightarrow> DM2_REQUEST \<Rightarrow> u32 \<Rightarrow> u32 \<Rightarrow> u8 list option \<Rightarrow> nat \<Rightarrow> (rc \<times> DM2_REQUEST) option" where
  "dm_put_avp mem req code vendor_id data len =
     (if len \<noteq> 0 \<and> data = None then Some (RC_ERR_AVP_MISFORMED, req)
      else do {
        (r, req) \<leftarrow> dm_packet_ensure_space mem req (len + 12);
        if r \<noteq> RC_OK then Some (r, req)
        else do {
          g \<leftarrow> nth_opt (rq_grp req) (rq_level req);
          let p = snd g;
          pkt \<leftarrow> rq_packet req;
          pkt \<leftarrow> write_at p (htonl code) pkt;
          (pkt, d, avp_len) \<leftarrow>
            (if vendor_id \<noteq> 0
             then do {
               f \<leftarrow> nth_opt pkt (p + 4);
               pkt \<leftarrow> write_at (p + 4) [f OR AVP_FLAG_VENDOR] pkt;
               pkt \<leftarrow> write_at (p + 8) (htonl vendor_id) pkt;
               Some (pkt, p + 8 + 4, len + 8 + 4) }
             else Some (pkt, p + 8, len + 8));
          pkt \<leftarrow> (case data of
              None \<Rightarrow> Some pkt
            | Some src \<Rightarrow> do { b \<leftarrow> read_at 0 len src; write_at d b pkt });
          pkt \<leftarrow> write_at (p + 5) (uint32to24 (of_nat avp_len)) pkt;
          Some (RC_OK, req\<lparr>rq_packet := Some pkt,
                           rq_grp := (rq_grp req)[rq_level req := (fst g, p + PAD32 avp_len)]\<rparr>) } })"

definition dm_new_group :: "(nat \<Rightarrow> bool) \<Rightarrow> DM2_REQUEST \<Rightarrow> u32 \<Rightarrow> u32 \<Rightarrow> (rc \<times> DM2_REQUEST) option" where
  "dm_new_group mem req code vendor_id = do {
     g \<leftarrow> nth_opt (rq_grp req) (rq_level req);
     grp \<leftarrow> upd_opt (rq_grp req) (rq_level req + 1) (snd g, snd g);
     dm_put_avp mem (req\<lparr>rq_grp := grp, rq_level := rq_level req + 1\<rparr>) code vendor_id None 0 }"

definition dm_finalize_group :: "DM2_REQUEST \<Rightarrow> (rc \<times> DM2_REQUEST) option" where
  "dm_finalize_group req =
     (if rq_level req = 0 then Some (RC_ERR_AVP_MISFORMED, req)
      else do {
        pkt \<leftarrow> rq_packet req;
        g \<leftarrow> nth_opt (rq_grp req) (rq_level req);
        let avp_len = snd g - fst g;
        pkt \<leftarrow> write_at (fst g + 5) (uint32to24 (of_nat avp_len)) pkt;
        h \<leftarrow> nth_opt (rq_grp req) (rq_level req - 1);
        Some (RC_OK, req\<lparr>rq_packet := Some pkt, rq_level := rq_level req - 1,
                         rq_grp := (rq_grp req)[rq_level req - 1 := (fst h, snd h + PAD32 avp_len)]\<rparr>) })"

section \<open>Encoding values\<close>

definition dm_add_object :: "(nat \<Rightarrow> bool) \<Rightarrow> DM2_REQUEST \<Rightarrow> (rc \<times> DM2_REQUEST) option" where
  "dm_add_object mem req = dm_new_group mem req AVP_CONTAINER VP_TRAVELPING"

definition dm_add_raw ::
  "(nat \<Rightarrow> bool) \<Rightarrow> DM2_REQUEST \<Rightarrow> u32 \<Rightarrow> u32 \<Rightarrow> u8 list option \<Rightarrow> nat \<Rightarrow> (rc \<times> DM2_REQUEST) option" where
  "dm_add_raw mem req code vendor_id data len = dm_put_avp mem req code vendor_id data len"

definition dm_add_string :: "(nat \<Rightarrow> bool) \<Rightarrow> DM2_REQUEST \<Rightarrow> u32 \<Rightarrow> u32 \<Rightarrow> u8 list \<Rightarrow> (rc \<times> DM2_REQUEST) option" where
  "dm_add_string mem req code vendor_id str = dm_put_avp mem req code vendor_id (Some (str @ [0])) (length str)"

definition dm_add_uint8 :: "(nat \<Rightarrow> bool) \<Rightarrow> DM2_REQUEST \<Rightarrow> u32 \<Rightarrow> u32 \<Rightarrow> u8 \<Rightarrow> (rc \<times> DM2_REQUEST) option" where
  "dm_add_uint8 mem req code vendor_id w = dm_put_avp mem req code vendor_id (Some [w]) 1"

definition dm_add_uint16 :: "(nat \<Rightarrow> bool) \<Rightarrow> DM2_REQUEST \<Rightarrow> u32 \<Rightarrow> u32 \<Rightarrow> u16 \<Rightarrow> (rc \<times> DM2_REQUEST) option" where
  "dm_add_uint16 mem req code vendor_id w = dm_put_avp mem req code vendor_id (Some (htons w)) 2"

definition dm_add_uint32 :: "(nat \<Rightarrow> bool) \<Rightarrow> DM2_REQUEST \<Rightarrow> u32 \<Rightarrow> u32 \<Rightarrow> u32 \<Rightarrow> (rc \<times> DM2_REQUEST) option" where
  "dm_add_uint32 mem req code vendor_id w = dm_put_avp mem req code vendor_id (Some (htonl w)) 4"

definition dm_add_uint64 :: "(nat \<Rightarrow> bool) \<Rightarrow> DM2_REQUEST \<Rightarrow> u32 \<Rightarrow> u32 \<Rightarrow> u64 \<Rightarrow> (rc \<times> DM2_REQUEST) option" where
  "dm_add_uint64 mem req code vendor_id w = dm_put_avp mem req code vendor_id (Some (htonll w)) 8"

text \<open>The signed writers take a number of the width of the type.\<close>

definition dm_add_int8 :: "(nat \<Rightarrow> bool) \<Rightarrow> DM2_REQUEST \<Rightarrow> u32 \<Rightarrow> u32 \<Rightarrow> int \<Rightarrow> (rc \<times> DM2_REQUEST) option" where
  "dm_add_int8 mem req code vendor_id i = dm_put_avp mem req code vendor_id (Some [word_of_int i]) 1"

definition dm_add_int16 :: "(nat \<Rightarrow> bool) \<Rightarrow> DM2_REQUEST \<Rightarrow> u32 \<Rightarrow> u32 \<Rightarrow> int \<Rightarrow> (rc \<times> DM2_REQUEST) option" where
  "dm_add_int16 mem req code vendor_id i = dm_put_avp mem req code vendor_id (Some (htons (word_of_int i))) 2"

definition dm_add_int32 :: "(nat \<Rightarrow> bool) \<Rightarrow> DM2_REQUEST \<Rightarrow> u32 \<Rightarrow> u32 \<Rightarrow> int \<Rightarrow> (rc \<times> DM2_REQUEST) option" where
  "dm_add_int32 mem req code vendor_id i = dm_put_avp mem req code vendor_id (Some (htonl (word_of_int i))) 4"

definition dm_add_int64 :: "(nat \<Rightarrow> bool) \<Rightarrow> DM2_REQUEST \<Rightarrow> u32 \<Rightarrow> u32 \<Rightarrow> int \<Rightarrow> (rc \<times> DM2_REQUEST) option" where
  "dm_add_int64 mem req code vendor_id i = dm_put_avp mem req code vendor_id (Some (htonll (word_of_int i))) 8"

text \<open>\<open>data\<close> is a 64-bit \<^verbatim>\<open>time_t\<close>; the sum is signed, the stored number the low 32 bits.\<close>

definition dm_add_time :: "(nat \<Rightarrow> bool) \<Rightarrow> DM2_REQUEST \<Rightarrow> u32 \<Rightarrow> u32 \<Rightarrow> int \<Rightarrow> (rc \<times> DM2_REQUEST) option" where
  "dm_add_time mem req code vendor_id t =
     (if t + TIME_SINCE_EPOCH > 0xFFFFFFFF then Some (RC_ONE, req)
      else dm_put_avp mem req code vendor_id (Some (htonl (word_of_int (t + TIME_SINCE_EPOCH)))) 4)"

definition dm_add_timeval ::
  "(nat \<Rightarrow> bool) \<Rightarrow> DM2_REQUEST \<Rightarrow> u32 \<Rightarrow> u32 \<Rightarrow> int \<times> int \<Rightarrow> (rc \<times> DM2_REQUEST) option" where
  "dm_add_timeval mem req code vendor_id = (\<lambda>(sec, usec).
     if sec > 0x7FFFFFFF \<or> usec \<ge> 1000000 then Some (RC_ONE, req)
     else dm_put_avp mem req code vendor_id (Some (htonl (word_of_int sec) @ htonl (word_of_int usec))) 8)"

text \<open>\<open>fam\<close> of \<open>None\<close> is any other address family; \<open>data\<close> points to the address.\<close>

definition dm_add_address ::
  "(nat \<Rightarrow> bool) \<Rightarrow> DM2_REQUEST \<Rightarrow> u32 \<Rightarrow> u32 \<Rightarrow> af option \<Rightarrow> u8 list \<Rightarrow> (rc \<times> DM2_REQUEST) option" where
  "dm_add_address mem req code vendor_id fam data = (case fam of
     Some AF_INET \<Rightarrow> do {
       a \<leftarrow> read_at 0 4 data;
       dm_put_avp mem req code vendor_id (Some (htons IANA_INET @ a)) (4 + 2) }
   | Some AF_INET6 \<Rightarrow> do {
       a \<leftarrow> read_at 0 16 data;
       dm_put_avp mem req code vendor_id (Some (htons IANA_INET6 @ a)) (16 + 2) }
   | None \<Rightarrow> Some (RC_ERR_INVALID_AVP_TYPE, req))"

definition dm_add_uint32_get_pos ::
  "(nat \<Rightarrow> bool) \<Rightarrow> DM2_REQUEST \<Rightarrow> u32 \<Rightarrow> u32 \<Rightarrow> u32 \<Rightarrow> (nat \<times> rc \<times> DM2_REQUEST) option" where
  "dm_add_uint32_get_pos mem req code vendor_id w = do {
     g \<leftarrow> nth_opt (rq_grp req) (rq_level req);
     let pos = (if vendor_id \<noteq> 0 then snd g + 8 + 4 else snd g + 8);
     (r, req) \<leftarrow> dm_add_uint32 mem req code vendor_id w;
     Some (pos, r, req) }"

definition dm_put_uint32_at_pos :: "DM2_REQUEST \<Rightarrow> nat \<Rightarrow> u32 \<Rightarrow> DM2_REQUEST option" where
  "dm_put_uint32_at_pos req pos w = do {
     pkt \<leftarrow> rq_packet req;
     pkt \<leftarrow> write_at pos (htonl w) pkt;
     Some (req\<lparr>rq_packet := Some pkt\<rparr>) }"

text \<open>A request; \<open>None\<close> inside is \<^verbatim>\<open>NULL\<close>. \<open>ok\<close> says whether the request itself can be allocated.\<close>

definition dm_new_request :: "(nat \<Rightarrow> bool) \<Rightarrow> bool \<Rightarrow> u32 \<Rightarrow> u8 \<Rightarrow> u32 \<Rightarrow> u32 \<Rightarrow> DM2_REQUEST option option" where
  "dm_new_request mem ok code flags hopid endid =
     (if \<not> ok then Some None
      else do {
        (r, req) \<leftarrow> dm_new_packet mem code flags APP_ID hopid endid;
        Some (if r \<noteq> RC_OK then None else Some req) })"

end
