(* ===== verification/Dm_Msg_Props.thy ===== *)
theory Dm_Msg_Props
  imports Dm_Msg
begin

text \<open>
  What the message functions do, in terms of trees of AVPs. \<open>enc\<close> is the wire format;
  building a message with the encoder's calls produces it, and reading with the
  decoder's calls gives the tree back. The decoder stays inside the group it reads, as long
  as the header of the next AVP does.
\<close>

section \<open>Bytes\<close>

lemma length_htonl [simp]: "length (htonl w) = 4"
  by (simp add: htonl_def)

lemma length_htons [simp]: "length (htons w) = 2"
  by (simp add: htons_def)

lemma length_htonll [simp]: "length (htonll w) = 8"
  by (simp add: htonll_def)

lemma length_uint32to24 [simp]: "length (uint32to24 w) = 3"
  by (simp add: uint32to24_def)

lemma ntohs_htons [simp]: "ntohs (htons w) = w"
  unfolding ntohs_def htons_def
  by (rule bit_word_eqI) (auto simp: bit_simps not_less dest: bit_imp_le_length)

lemma ntohl_htonl [simp]: "ntohl (htonl w) = w"
proof (rule bit_word_eqI)
  fix n assume n: "n < LENGTH(32)"
  consider "n < 8" | "8 \<le> n" "n < 16" | "16 \<le> n" "n < 24" | "24 \<le> n" "n < 32"
    using n by fastforce
  then show "bit (ntohl (htonl w)) n = bit w n"
    by cases (auto simp: ntohl_def htonl_def bit_simps)
qed

lemma ntohl_htonl_append [simp]: "ntohl (htonl w @ b) = w"
  using ntohl_htonl [of w] by (simp add: ntohl_def htonl_def)

lemma ntohll_htonll [simp]: "ntohll (htonll w) = w"
  unfolding ntohll_def htonll_def
  by (rule bit_word_eqI) (auto simp: bit_simps not_less dest: bit_imp_le_length)

lemma uint24to32_uint32to24 [simp]: "uint24to32 (uint32to24 w) = w AND 0xFFFFFF"
proof -
  have m: "(0xFFFFFF :: u32) = mask 24" "(0xff :: u32) = mask 8" by (simp_all add: mask_eq_exp_minus_1)
  show ?thesis
  proof (rule bit_word_eqI)
    fix n assume n: "n < LENGTH(32)"
    consider "n < 8" | "8 \<le> n" "n < 16" | "16 \<le> n" "n < 24" | "24 \<le> n" "n < 32"
      using n by fastforce
    then show "bit (uint24to32 (uint32to24 w)) n = bit (w AND 0xFFFFFF) n"
      unfolding uint24to32_def uint32to24_def m by cases (auto simp: bit_simps)
  qed
qed

lemma uint24_of_nat: "n < 2 ^ 24 \<Longrightarrow> unat (of_nat n AND 0xFFFFFF :: u32) = n"
proof -
  assume n: "n < 2 ^ 24"
  have m: "(0xFFFFFF :: u32) = mask 24" by (simp add: mask_eq_exp_minus_1)
  have "unat (take_bit 24 (of_nat n :: u32)) = n"
    using n by (simp add: take_bit_of_nat unat_of_nat take_bit_nat_eq_self)
  then show ?thesis unfolding m by (simp add: take_bit_eq_mask)
qed

section \<open>Memory\<close>

lemma read_at_append [simp]: "p = length a \<Longrightarrow> n = length b \<Longrightarrow> read_at p n (a @ b @ c) = Some b"
  by (simp add: read_at_def)

lemma read_at_all [simp]: "n = length b \<Longrightarrow> read_at 0 n b = Some b"
  by (simp add: read_at_def)

lemma read_at_start [simp]: "n = length b \<Longrightarrow> read_at 0 n (b @ c) = Some b"
  by (simp add: read_at_def)

lemma write_at_append:
  "p = length a \<Longrightarrow> length b = length old \<Longrightarrow> write_at p b (a @ old @ c) = Some (a @ b @ c)"
  by (simp add: write_at_def)

section \<open>Trees of AVPs and the wire format\<close>

datatype avp = Avp u32 u32 "u8 list" | Grp u32 u32 "avp list"

definition hdr_len :: "u32 \<Rightarrow> nat" where
  "hdr_len v = (if v = 0 then 8 else 12)"

definition hdr :: "u32 \<Rightarrow> u32 \<Rightarrow> nat \<Rightarrow> u8 list" where
  "hdr c v n = htonl c @ [if v = 0 then 0 else AVP_FLAG_VENDOR] @ uint32to24 (of_nat (hdr_len v + n)) @
     (if v = 0 then [] else htonl v)"

definition padding :: "nat \<Rightarrow> u8 list" where
  "padding n = replicate (PAD32 n - n) 0"

fun enc :: "avp \<Rightarrow> u8 list" where
  "enc (Avp c v d) = hdr c v (length d) @ d @ padding (length d)"
| "enc (Grp c v ts) = hdr c v (length (concat (map enc ts))) @ concat (map enc ts)"

abbreviation encs :: "avp list \<Rightarrow> u8 list" where
  "encs ts \<equiv> concat (map enc ts)"

fun depth :: "avp \<Rightarrow> nat" where
  "depth (Avp c v d) = 0"
| "depth (Grp c v ts) = Suc (fold (\<lambda>t. max (depth t)) ts 0)"

lemma length_hdr [simp]: "length (hdr c v n) = hdr_len v"
  by (simp add: hdr_def hdr_len_def)

lemma PAD32_ge: "n \<le> PAD32 n"
  unfolding PAD32_def by presburger

lemma PAD32_dvd [simp]: "4 dvd PAD32 n"
  by (simp add: PAD32_def)

lemma PAD32_add: "4 dvd k \<Longrightarrow> PAD32 (k + n) = k + PAD32 n"
  unfolding PAD32_def by presburger

lemma hdr_len_dvd [simp]: "4 dvd hdr_len v"
  by (simp add: hdr_len_def)

lemma PAD32_hdr: "PAD32 (hdr_len v + n) = hdr_len v + PAD32 n"
  by (rule PAD32_add) simp

lemma length_padding [simp]: "length d + length (padding (length d)) = PAD32 (length d)"
  using PAD32_ge [of "length d"] by (simp add: padding_def)

lemma PAD32_0 [simp]: "PAD32 0 = 0"
  by (simp add: PAD32_def)

lemma padding_0 [simp]: "padding 0 = []"
  by (simp add: padding_def)

lemma length_enc_Avp: "length (enc (Avp c v d)) = PAD32 (hdr_len v + length d)"
  by (simp add: PAD32_hdr)

lemma length_enc_dvd [simp]: "4 dvd length (enc t)"
proof (induction t)
  case (Grp c v ts)
  then have "4 dvd length (encs ts)" by (induction ts) auto
  then show ?case by simp
qed (simp add: PAD32_hdr dvd_add)

lemma length_encs_dvd [simp]: "4 dvd length (encs ts)"
  by (induction ts) auto

section \<open>Building a message\<close>

text \<open>
  \<open>good p m\<close>: the block holds the bytes before the position \<open>p\<close> and is a row of whole allocation units
  behind it that is all zero. Every position is a multiple of four.
\<close>

definition good :: "nat \<Rightarrow> u8 list \<Rightarrow> bool" where
  "good p m \<longleftrightarrow> 4 dvd p \<and> (p + 2047) div 2048 * 2048 \<le> length m \<and> drop p m = replicate (length m - p) 0"

definition at_pos :: "DM2_REQUEST \<Rightarrow> u8 list \<Rightarrow> nat \<Rightarrow> nat \<Rightarrow> bool" where
  "at_pos req m st p \<longleftrightarrow> rq_packet req = Some m \<and> rq_level req < length (rq_grp req) \<and>
     rq_grp req ! rq_level req = (st, p) \<and> good p m"

lemma le_blocks: "p \<le> (p + 2047) div 2048 * 2048" for p :: nat
  using div_mult_mod_eq [of "p + 2047" 2048] mod_less_divisor [of 2048 "p + 2047"] by linarith

lemma blocks_le_iff: "(p + 2047) div 2048 \<le> k \<longleftrightarrow> p \<le> k * 2048" for p k :: nat
proof
  assume "(p + 2047) div 2048 \<le> k"
  then have "(p + 2047) div 2048 * 2048 \<le> k * 2048" by simp
  with le_blocks show "p \<le> k * 2048" by (rule le_trans)
next
  assume "p \<le> k * 2048"
  then have "p + 2047 < Suc k * 2048" by simp
  then have "(p + 2047) div 2048 < Suc k" by (rule less_mult_imp_div_less)
  then show "(p + 2047) div 2048 \<le> k" by simp
qed

lemma PAD32_le_blocks: "PAD32 n \<le> (n + 2047) div 2048 * 2048"
proof -
  let ?b = "(n + 2047) div 2048 * 512"
  have "n + 3 < Suc ?b * 4" using le_blocks [of n] by simp
  then have "(n + 3) div 4 < Suc ?b" by (rule less_mult_imp_div_less)
  then show ?thesis by (simp add: PAD32_def)
qed

lemma good_split: "good p m \<Longrightarrow> \<exists>n. m = take p m @ replicate n 0 \<and> length (take p m) = p \<and> n = length m - p"
proof -
  assume g: "good p m"
  then have "p \<le> length m" unfolding good_def using le_blocks le_trans by blast
  with g show ?thesis unfolding good_def by (metis append_take_drop_id length_take min.absorb2)
qed

lemma good_zeros:
  assumes "4 dvd length a" and "(length a + 2047) div 2048 * 2048 \<le> length a + n"
  shows "good (length a) (a @ replicate n 0)"
  using assms by (simp add: good_def)

lemma blocks_mono:
  assumes "4 dvd p" and "q \<le> p + PAD32 n" and "(p + 2047 + n) div 2048 * 2048 \<le> k"
  shows "(q + 2047) div 2048 * 2048 \<le> k"
proof -
  have "q \<le> PAD32 (p + n)" using assms(1,2) by (simp add: PAD32_add)
  also have "\<dots> \<le> (p + 2047 + n) div 2048 * 2048"
    using PAD32_le_blocks [of "p + n"] by (simp add: ac_simps)
  finally have "(q + 2047) div 2048 \<le> (p + 2047 + n) div 2048" by (simp only: blocks_le_iff)
  then show ?thesis using assms(3) by (meson le_trans mult_le_mono1)
qed

lemma ensure_space:
  assumes "at_pos req m st p" and "\<And>n. mem n"
  obtains n where "dm_packet_ensure_space mem req len = Some (RC_OK, req\<lparr>rq_packet := Some (take p m @ replicate n 0)\<rparr>)"
    and "length (take p m) = p" and "(p + 2047 + len) div 2048 * 2048 \<le> p + n"
proof -
  from assms(1) have req: "rq_packet req = Some m" "rq_level req < length (rq_grp req)"
      "rq_grp req ! rq_level req = (st, p)" and g: "good p m"
    by (auto simp: at_pos_def)
  obtain k where k: "m = take p m @ replicate k 0" "length (take p m) = p" "k = length m - p"
    using good_split [OF g] by blast
  let ?have = "(p + 2047) div 2048" and ?want = "(p + 2047 + len) div 2048"
  have len: "?have * 2048 \<le> length m" using g by (simp add: good_def)
  show thesis
  proof (cases "?have = ?want")
    case True
    then have "dm_packet_ensure_space mem req len = Some (RC_OK, req)"
      using req by (simp add: dm_packet_ensure_space_def DM_BLOCK_ALLOC_def Let_def ac_simps)
    moreover have "req\<lparr>rq_packet := Some (take p m @ replicate k 0)\<rparr> = req"
      using req(1) k(1) by simp
    ultimately show thesis using that [of k] k True len by auto
  next
    case False
    have le: "?have \<le> ?want" "p \<le> ?have * 2048"
      using le_blocks by (auto intro: div_le_mono)
    let ?n = "?want * 2048 - p"
    have m: "take (?have * 2048) m = take p m @ replicate (?have * 2048 - p) 0"
    proof -
      have "take (?have * 2048) (take p m @ replicate k 0) = take p m @ replicate (?have * 2048 - p) 0"
        using k(2,3) le len by (simp add: min_def)
      with k(1) show ?thesis by simp
    qed
    have "dm_packet_ensure_space mem req len =
        Some (RC_OK, req\<lparr>rq_packet := Some (take (?have * 2048) m @ replicate ((?want - ?have) * 2048) 0)\<rparr>)"
      using False req assms(2) len
      by (simp add: dm_packet_ensure_space_def DM_BLOCK_ALLOC_def read_at_def Let_def ac_simps)
    moreover have "take (?have * 2048) m @ replicate ((?want - ?have) * 2048) 0 = take p m @ replicate ?n 0"
    proof -
      have "?have * 2048 - p + (?want - ?have) * 2048 = ?n" using le by (simp add: diff_mult_distrib)
      then show ?thesis unfolding m by (simp flip: replicate_add)
    qed
    ultimately show thesis using that [of ?n] k(2) le
      by (simp add: mult_le_mono1)
  qed
qed

lemma write_at_here: "length b = length a \<Longrightarrow> write_at 0 b (a @ r) = Some (b @ r)"
  by (simp add: write_at_def)

lemma write_at_skip: "length a \<le> p \<Longrightarrow> write_at p b (a @ r) = map_option ((@) a) (write_at (p - length a) b r)"
  by (auto simp: write_at_def)

lemma write_at_Cons: "0 < p \<Longrightarrow> write_at p b (x # r) = map_option ((#) x) (write_at (p - 1) b r)"
  by (cases p) (auto simp: write_at_def)

lemma write_at_hd: "write_at 0 [y] (x # r) = Some (y # r)"
  by (simp add: write_at_def)

lemma nth_opt_skip: "length a \<le> i \<Longrightarrow> nth_opt (a @ r) i = nth_opt r (i - length a)"
  by (auto simp: nth_opt_def nth_append)

lemmas block_writes = write_at_here write_at_skip write_at_Cons write_at_hd nth_opt_skip

lemma replicate_split: "k \<le> n \<Longrightarrow> replicate n x = replicate k x @ replicate (n - k) x"
  by (simp flip: replicate_add)

lemma flag_set [simp]: "0 OR AVP_FLAG_VENDOR = AVP_FLAG_VENDOR"
  by simp

text \<open>One AVP is appended; the block behind it is still zero.\<close>

lemma put_avp:
  assumes req: "at_pos req m st p" and mem: "\<And>n. mem n"
    and data: "d = [] \<and> data = None \<or> (\<exists>e. data = Some (d @ e))"
  obtains n where "dm_put_avp mem req c v data (length d) =
      Some (RC_OK, req\<lparr>rq_packet := Some (take p m @ enc (Avp c v d) @ replicate n 0),
                       rq_grp := (rq_grp req)[rq_level req := (st, p + length (enc (Avp c v d)))]\<rparr>)"
    and "length (take p m) = p"
    and "good (p + length (enc (Avp c v d))) (take p m @ enc (Avp c v d) @ replicate n 0)"
proof -
  let ?A = "take p m" and ?len = "length d"
  let ?e = "enc (Avp c v d)"
  obtain n where
    space: "dm_packet_ensure_space mem req (?len + 12) = Some (RC_OK, req\<lparr>rq_packet := Some (?A @ replicate n 0)\<rparr>)"
    and A: "length ?A = p" and n: "(p + 2047 + (?len + 12)) div 2048 * 2048 \<le> p + n"
    by (rule ensure_space [OF req, of mem "?len + 12", OF mem]) blast
  from req have r: "rq_level req < length (rq_grp req)" "rq_grp req ! rq_level req = (st, p)" and p: "4 dvd p"
    by (auto simp: at_pos_def good_def)
  have e: "length ?e = hdr_len v + PAD32 ?len" by (simp add: PAD32_hdr)
  have q: "p + length ?e \<le> p + PAD32 (?len + 12)"
    unfolding e using PAD32_add [of 12 ?len] by (simp add: hdr_len_def ac_simps)
  have "p + length ?e \<le> p + n"
    using blocks_mono [OF p q n] le_blocks [of "p + length ?e"] by linarith
  then have fit: "length ?e \<le> n" by simp
  define k where "k = n - length ?e"
  have rep: "replicate n 0 = (replicate 4 0 @ [0] @ replicate 3 0 @ replicate (hdr_len v - 8) 0 @ replicate ?len 0 @
      padding ?len) @ replicate k (0::u8)"
    using fit unfolding e k_def padding_def using PAD32_ge [of ?len]
    by (simp add: hdr_len_def replicate_app_Cons_same flip: replicate_add replicate_Suc)
  have pad: "PAD32 (?len + 8) = 8 + PAD32 ?len" "PAD32 (?len + 8 + 4) = 12 + PAD32 ?len"
    using PAD32_add [of 8 ?len] PAD32_add [of 12 ?len] by (simp_all add: ac_simps)
  have "dm_put_avp mem req c v data ?len =
      Some (RC_OK, req\<lparr>rq_packet := Some (?A @ ?e @ replicate k 0),
                       rq_grp := (rq_grp req)[rq_level req := (st, p + length ?e)]\<rparr>)"
  proof (cases "v = 0")
    case True
    then show ?thesis
      using space r A pad data unfolding rep
      by (elim disjE exE conjE; simp add: dm_put_avp_def hdr_len_def Let_def block_writes nth_append hdr_def ac_simps)
  next
    case False
    then show ?thesis
      using space r A pad data unfolding rep
      by (elim disjE exE conjE; simp add: dm_put_avp_def hdr_len_def Let_def block_writes nth_append hdr_def ac_simps)
  qed
  moreover have "good (p + length ?e) (?A @ ?e @ replicate k 0)"
  proof -
    have "(p + length ?e + 2047) div 2048 * 2048 \<le> p + n" by (rule blocks_mono [OF p q n])
    then have "good (length (?A @ ?e)) ((?A @ ?e) @ replicate k 0)"
      using A fit p e by (intro good_zeros) (simp_all add: k_def ac_simps)
    then show ?thesis using A by simp
  qed
  ultimately show thesis using that A by blast
qed

text \<open>
  \<open>built req m st p b req' m'\<close>: from the request \<open>req\<close> with the block \<open>m\<close> and the position \<open>p\<close>, the bytes
  \<open>b\<close> were appended at the current level and nothing else changed.
\<close>

definition built :: "DM2_REQUEST \<Rightarrow> u8 list \<Rightarrow> nat \<Rightarrow> nat \<Rightarrow> u8 list \<Rightarrow> DM2_REQUEST \<Rightarrow> u8 list \<Rightarrow> bool" where
  "built req m st p b req' m' \<longleftrightarrow>
     at_pos req' m' st (p + length b) \<and> rq_level req' = rq_level req \<and>
     length (rq_grp req') = length (rq_grp req) \<and> (\<forall>i < rq_level req. rq_grp req' ! i = rq_grp req ! i) \<and>
     take (p + length b) m' = take p m @ b"

lemma built_refl: "at_pos req m st p \<Longrightarrow> built req m st p [] req m"
  by (simp add: built_def)

lemma built_trans:
  "built req m st p b req' m' \<Longrightarrow> built req' m' st (p + length b) c req'' m'' \<Longrightarrow> built req m st p (b @ c) req'' m''"
  by (simp add: built_def ac_simps)

lemma put_avp_built:
  assumes req: "at_pos req m st p" and mem: "\<And>n. mem n"
    and data: "d = [] \<and> data = None \<or> (\<exists>e. data = Some (d @ e))"
  shows "\<exists>req' m'. dm_put_avp mem req c v data (length d) = Some (RC_OK, req') \<and>
           built req m st p (enc (Avp c v d)) req' m'"
proof -
  obtain n where put: "dm_put_avp mem req c v data (length d) =
      Some (RC_OK, req\<lparr>rq_packet := Some (take p m @ enc (Avp c v d) @ replicate n 0),
                       rq_grp := (rq_grp req)[rq_level req := (st, p + length (enc (Avp c v d)))]\<rparr>)"
    and p: "length (take p m) = p"
    and good: "good (p + length (enc (Avp c v d))) (take p m @ enc (Avp c v d) @ replicate n 0)"
    by (rule put_avp [OF req, of mem d data c v, OF mem data]) blast
  let ?e = "enc (Avp c v d)"
  have "take (p + length ?e) (take p m @ ?e @ replicate n 0) = take p m @ ?e"
    using p by (simp del: enc.simps)
  then show ?thesis
    unfolding put built_def using req good by (simp add: at_pos_def del: enc.simps)
qed

text \<open>The calls that write a tree, and a sequence of trees; they stop at the first error.\<close>

fun put_tree :: "(nat \<Rightarrow> bool) \<Rightarrow> avp \<Rightarrow> DM2_REQUEST \<Rightarrow> (rc \<times> DM2_REQUEST) option"
  and put_trees :: "(nat \<Rightarrow> bool) \<Rightarrow> avp list \<Rightarrow> DM2_REQUEST \<Rightarrow> (rc \<times> DM2_REQUEST) option" where
  "put_tree mem (Avp c v d) req = dm_put_avp mem req c v (Some d) (length d)"
| "put_tree mem (Grp c v ts) req = do {
     (r, req) \<leftarrow> dm_new_group mem req c v;
     if r \<noteq> RC_OK then Some (r, req)
     else do {
       (r, req) \<leftarrow> put_trees mem ts req;
       if r \<noteq> RC_OK then Some (r, req) else dm_finalize_group req } }"
| "put_trees mem [] req = Some (RC_OK, req)"
| "put_trees mem (t # ts) req = do {
     (r, req) \<leftarrow> put_tree mem t req;
     if r \<noteq> RC_OK then Some (r, req) else put_trees mem ts req }"

lemma new_group_built:
  assumes req: "at_pos req m st p" and lvl: "rq_level req + 1 < length (rq_grp req)" and mem: "\<And>n. mem n"
  obtains req' m' where "dm_new_group mem req c v = Some (RC_OK, req')"
    and "at_pos req' m' p (p + hdr_len v)" and "rq_level req' = rq_level req + 1"
    and "length (rq_grp req') = length (rq_grp req)" and "\<forall>i \<le> rq_level req. rq_grp req' ! i = rq_grp req ! i"
    and "take (p + hdr_len v) m' = take p m @ hdr c v 0"
proof -
  let ?req = "req\<lparr>rq_grp := (rq_grp req)[rq_level req + 1 := (p, p)], rq_level := rq_level req + 1\<rparr>"
  have at: "at_pos ?req m p p" using req lvl by (simp add: at_pos_def)
  obtain req' m' where put: "dm_put_avp mem ?req c v None 0 = Some (RC_OK, req')"
    and b: "built ?req m p p (enc (Avp c v [])) req' m'"
    using put_avp_built [OF at, of mem "[]" None c v] mem by auto
  have "dm_new_group mem req c v = Some (RC_OK, req')"
    using req lvl put by (simp add: dm_new_group_def at_pos_def)
  then show thesis using that b by (fastforce simp: built_def)
qed

lemma finalize_group_built:
  assumes old: "at_pos req m st p" and p: "length (take p m) = p"
    and at: "at_pos req' m' p (p + hdr_len v + length b)" and lvl: "rq_level req' = rq_level req + 1"
    and len: "length (rq_grp req') = length (rq_grp req)"
    and grp: "\<forall>i \<le> rq_level req. rq_grp req' ! i = rq_grp req ! i"
    and m': "take (p + hdr_len v + length b) m' = take p m @ hdr c v 0 @ b" and b: "4 dvd length b"
  shows "\<exists>req'' m''. dm_finalize_group req' = Some (RC_OK, req'') \<and>
           built req m st p (hdr c v (length b) @ b) req'' m''"
proof -
  let ?A = "take p m" and ?q = "p + hdr_len v + length b"
  obtain n where n: "m' = take ?q m' @ replicate n 0" "n = length m' - ?q"
    using good_split [of ?q m'] at by (auto simp: at_pos_def)
  then have m'': "m' = ?A @ hdr c v 0 @ b @ replicate n 0" by (simp add: m')
  let ?m = "?A @ hdr c v (length b) @ b @ replicate n 0"
  have w: "write_at (p + 5) (uint32to24 (of_nat (hdr_len v + length b))) m' = Some ?m"
    unfolding m'' hdr_def using p by (simp add: block_writes)
  have g: "rq_grp req ! rq_level req = (st, p)" "rq_level req < length (rq_grp req)"
    using old by (auto simp: at_pos_def)
  have pad: "PAD32 (hdr_len v + length b) = hdr_len v + length b"
    using PAD32_add [of "hdr_len v + length b" 0] b by simp
  let ?req = "req'\<lparr>rq_packet := Some ?m, rq_level := rq_level req,
      rq_grp := (rq_grp req')[rq_level req := (st, ?q)]\<rparr>"
  have fin: "dm_finalize_group req' = Some (RC_OK, ?req)"
    using at w g pad lvl len grp by (simp add: dm_finalize_group_def at_pos_def Let_def ac_simps)
  have gd: "good ?q ?m"
  proof -
    have "length ?m = length m'" using arg_cong [OF m'', of length] by simp
    moreover have "drop ?q ?m = replicate n 0" using p by simp
    ultimately show ?thesis using at n(2) by (simp add: at_pos_def good_def)
  qed
  have "take ?q ?m = ?A @ hdr c v (length b) @ b" using p by simp
  then have "built req m st p (hdr c v (length b) @ b) ?req ?m"
    using gd g len grp by (simp add: built_def at_pos_def ac_simps)
  with fin show ?thesis by blast
qed

lemma fold_max_le: "fold (\<lambda>t. max (f t)) ts (a::nat) \<le> n \<longleftrightarrow> a \<le> n \<and> (\<forall>t \<in> set ts. f t \<le> n)"
  by (induction ts arbitrary: a) auto

text \<open>Writing trees succeeds, and appends their encoding, when there is memory and a level for every nesting.\<close>

lemma put_trees_built:
  "at_pos req m st p \<Longrightarrow> rq_level req + depth t < length (rq_grp req) \<Longrightarrow> (\<And>n. mem n) \<Longrightarrow>
     \<exists>req' m'. put_tree mem t req = Some (RC_OK, req') \<and> built req m st p (enc t) req' m'"
  "at_pos req m st p \<Longrightarrow> (\<forall>t \<in> set ts. rq_level req + depth t < length (rq_grp req)) \<Longrightarrow> (\<And>n. mem n) \<Longrightarrow>
     \<exists>req' m'. put_trees mem ts req = Some (RC_OK, req') \<and> built req m st p (encs ts) req' m'"
proof (induction mem t req and mem ts req arbitrary: m st p and m st p rule: put_tree_put_trees.induct)
  case (1 mem c v d req)
  show ?case unfolding put_tree.simps by (rule put_avp_built [OF 1(1,3)]) simp
next
  case (2 mem c v ts req)
  have lvl: "rq_level req + 1 < length (rq_grp req)" using 2(3) by simp
  obtain req1 m1 where new: "dm_new_group mem req c v = Some (RC_OK, req1)"
    and at1: "at_pos req1 m1 p (p + hdr_len v)" and l1: "rq_level req1 = rq_level req + 1"
    and g1: "length (rq_grp req1) = length (rq_grp req)" "\<forall>i \<le> rq_level req. rq_grp req1 ! i = rq_grp req ! i"
    and m1: "take (p + hdr_len v) m1 = take p m @ hdr c v 0"
    by (rule new_group_built [OF 2(2) lvl, of mem c v, OF 2(4)]) blast
  have deep: "\<forall>t \<in> set ts. rq_level req1 + depth t < length (rq_grp req1)"
  proof
    fix t assume "t \<in> set ts"
    then have "depth t < depth (Grp c v ts)" by (simp add: less_Suc_eq_le) (metis fold_max_le order_refl)
    then show "rq_level req1 + depth t < length (rq_grp req1)" using 2(3) l1 g1(1) by linarith
  qed
  obtain req2 m2 where put: "put_trees mem ts req1 = Some (RC_OK, req2)"
    and b2: "built req1 m1 p (p + hdr_len v) (encs ts) req2 m2"
    using 2(1) [OF new refl _ at1 deep 2(4)] by auto
  have p: "length (take p m) = p" using 2(2) good_split by (auto simp: at_pos_def)
  have "\<exists>req3 m3. dm_finalize_group req2 = Some (RC_OK, req3) \<and>
      built req m st p (hdr c v (length (encs ts)) @ encs ts) req3 m3"
  proof (rule finalize_group_built [OF 2(2) p])
    show "at_pos req2 m2 p (p + hdr_len v + length (encs ts))" using b2 by (simp add: built_def)
    show "rq_level req2 = rq_level req + 1" using b2 l1 by (simp add: built_def)
    show "length (rq_grp req2) = length (rq_grp req)" using b2 g1 by (simp add: built_def)
    show "\<forall>i \<le> rq_level req. rq_grp req2 ! i = rq_grp req ! i" using b2 g1 l1 by (simp add: built_def)
    show "take (p + hdr_len v + length (encs ts)) m2 = take p m @ hdr c v 0 @ encs ts"
      using b2 m1 by (simp add: built_def)
  qed simp
  with new put show ?case by auto
next
  case (3 mem req)
  then show ?case using built_refl [OF 3(1)] by auto
next
  case (4 mem t ts req)
  have "rq_level req + depth t < length (rq_grp req)" using 4(4) by simp
  from 4(1) [OF 4(3) this 4(5)] obtain req1 m1 where
    put: "put_tree mem t req = Some (RC_OK, req1)" and b: "built req m st p (enc t) req1 m1" by blast
  have "\<exists>req' m'. put_trees mem ts req1 = Some (RC_OK, req') \<and> built req1 m1 st (p + length (enc t)) (encs ts) req' m'"
  proof (rule 4(2) [OF put refl])
    show "at_pos req1 m1 st (p + length (enc t))" using b by (simp add: built_def)
    show "\<forall>t \<in> set ts. rq_level req1 + depth t < length (rq_grp req1)" using b 4(4) by (simp add: built_def)
  qed (use 4(5) in simp_all)
  then show ?case using put b by (fastforce intro: built_trans)
qed

section \<open>Reading a message\<close>

text \<open>The next AVP of a well-formed group: its code, its vendor, a pointer to its value and the value's length.\<close>

lemma expect_avp:
  assumes data: "drop (ag_pos grp) (ag_data grp) = hdr c v (length b) @ b @ padding (length b) @ rest"
    and size: "ag_pos grp + hdr_len v + PAD32 (length b) \<le> ag_size grp" and len: "hdr_len v + length b < 2 ^ 24"
  shows "dm_expect_avp grp =
    Some (RC_OK, Some \<lparr>av_code = c, av_vendor = v, av_data = b @ padding (length b) @ rest, av_len = length b\<rparr>,
          grp\<lparr>ag_pos := ag_pos grp + (hdr_len v + PAD32 (length b))\<rparr>)"
proof -
  define r where "r = b @ padding (length b) @ rest"
  define N where "N = hdr_len v + length b"
  define avp where "avp = hdr c v (length b) @ r"
  have avp: "avp = htonl c @ [if v = 0 then 0 else AVP_FLAG_VENDOR] @ uint32to24 (of_nat N) @ (if v = 0 then [] else htonl v) @ r"
    by (simp add: avp_def hdr_def N_def)
  have n: "dm_avp_length avp = Some (of_nat N AND 0xFFFFFF)"
    using read_at_append [of 5 "htonl c @ [if v = 0 then 0 else AVP_FLAG_VENDOR]" 3
        "uint32to24 (of_nat N)" "(if v = 0 then [] else htonl v) @ r"]
    by (simp add: dm_avp_length_def avp)
  have u: "unat (of_nat N AND 0xFFFFFF :: u32) = N"
    using len unfolding N_def by (rule uint24_of_nat)
  have f: "nth_opt avp 4 = Some (if v = 0 then 0 else AVP_FLAG_VENDOR)"
    by (simp add: avp nth_opt_def nth_append)
  have cd: "read_at 0 4 avp = Some (htonl c)"
    by (simp add: avp)
  have vd: "v \<noteq> 0 \<Longrightarrow> read_at 8 4 avp = Some (htonl v)"
  proof -
    assume "v \<noteq> 0"
    then have "avp = (htonl c @ [AVP_FLAG_VENDOR] @ uint32to24 (of_nat N)) @ htonl v @ r" using avp by simp
    then show ?thesis by (simp only:) (rule read_at_append; simp)
  qed
  have dr: "drop (hdr_len v) avp = r"
    by (simp add: avp_def)
  have flag: "(if v = 0 then 0 else AVP_FLAG_VENDOR) AND AVP_FLAG_VENDOR \<noteq> 0 \<longleftrightarrow> v \<noteq> 0"
    by (simp add: AVP_FLAG_VENDOR_def)
  have pos: "\<not> ag_size grp \<le> ag_pos grp" using size by (simp add: hdr_len_def split: if_splits)
  have fits: "\<not> (N < 8 \<or> v \<noteq> 0 \<and> N < 12 \<or> ag_size grp < ag_pos grp + PAD32 N)"
  proof -
    have "PAD32 N = hdr_len v + PAD32 (length b)" by (simp add: N_def PAD32_hdr)
    then show ?thesis using size by (auto simp: N_def hdr_len_def)
  qed
  have "\<not> N < 8" using fits by blast
  note facts = pos n u f flag fits cd this
  have "dm_expect_avp grp = Some (RC_OK, Some \<lparr>av_code = c, av_vendor = v, av_data = r, av_len = length b\<rparr>,
      grp\<lparr>ag_pos := ag_pos grp + PAD32 N\<rparr>)"
  proof (cases "v = 0")
    case True
    with dr have "drop 8 avp = r" "N - 8 = length b" by (simp_all add: hdr_len_def N_def)
    with facts True show ?thesis
      unfolding dm_expect_avp_def data [folded r_def avp_def] Let_def by simp
  next
    case False
    with dr have "drop 12 avp = r" "N - 8 - 4 = length b" by (simp_all add: hdr_len_def N_def)
    with facts False vd show ?thesis
      unfolding dm_expect_avp_def data [folded r_def avp_def] Let_def by simp
  qed
  then show ?thesis by (simp add: r_def N_def PAD32_hdr)
qed

text \<open>
  A reader in terms of the decoder's calls: the codes in \<open>G\<close> are those of groups, which are opened
  with \<open>dm_init_avpgrp\<close> as \<open>dm_expect_group\<close> does; it fails on any error but the end of the group.
\<close>

partial_function (option) read_avps :: "(u32 \<Rightarrow> bool) \<Rightarrow> DM2_AVPGRP \<Rightarrow> avp list option" where
  "read_avps G grp = do {
     (r, a, grp') \<leftarrow> dm_expect_avp grp;
     case a of
       None \<Rightarrow> if r = RC_ERR_AVP_END then Some [] else None
     | Some a \<Rightarrow> do {
         t \<leftarrow> (if G (av_code a)
              then do {
                ts \<leftarrow> read_avps G (dm_init_avpgrp (av_data a) (av_len a));
                Some (Grp (av_code a) (av_vendor a) ts) }
              else do {
                d \<leftarrow> read_at 0 (av_len a) (av_data a);
                Some (Avp (av_code a) (av_vendor a) d) });
         ts \<leftarrow> read_avps G grp';
         Some (t # ts) } }"

declare read_avps.simps [code]

text \<open>The tree has a group exactly where the reader expects one.\<close>

fun shaped :: "(u32 \<Rightarrow> bool) \<Rightarrow> avp \<Rightarrow> bool" where
  "shaped G (Avp c v d) \<longleftrightarrow> \<not> G c"
| "shaped G (Grp c v ts) \<longleftrightarrow> G c \<and> (\<forall>t \<in> set ts. shaped G t)"

lemma size_children: "size_list size ts < size (Grp c v ts)"
  by simp

text \<open>Reading what was written gives the trees back, whatever follows them in memory.\<close>

lemma read_encs:
  assumes "drop (ag_pos grp) (ag_data grp) = encs ts @ rest" and "ag_size grp = ag_pos grp + length (encs ts)"
    and "length (encs ts) < 2 ^ 24" and "\<forall>t \<in> set ts. shaped G t"
  shows "read_avps G grp = Some ts"
  using assms
proof (induction "size_list size ts" arbitrary: ts grp rest rule: less_induct)
  case less
  show ?case
  proof (cases ts)
    case Nil
    with less.prems(2) have "dm_expect_avp grp = Some (RC_ERR_AVP_END, None, grp)" by (simp add: dm_expect_avp_def)
    then show ?thesis by (subst read_avps.simps) (simp add: Nil)
  next
    case (Cons t us)
    let ?next = "grp\<lparr>ag_pos := ag_pos grp + length (enc t)\<rparr>"
    have rest: "read_avps G ?next = Some us"
    proof (rule less.hyps [of us _ rest])
      show "drop (ag_pos ?next) (ag_data ?next) = encs us @ rest"
        using less.prems(1) Cons drop_drop [of "length (enc t)" "ag_pos grp" "ag_data grp"] by (simp add: ac_simps)
    qed (use less.prems Cons in \<open>simp_all add: ac_simps\<close>)
    show ?thesis
    proof (cases t)
      case (Avp c v d)
      have "dm_expect_avp grp = Some (RC_OK, Some \<lparr>av_code = c, av_vendor = v, av_data = d @ padding (length d) @ encs us @ rest,
          av_len = length d\<rparr>, grp\<lparr>ag_pos := ag_pos grp + (hdr_len v + PAD32 (length d))\<rparr>)"
        by (rule expect_avp) (use less.prems Cons Avp PAD32_ge [of "length d"] in \<open>simp_all add: padding_def\<close>)
      then show ?thesis
        using less.prems(4) rest Cons Avp by (subst read_avps.simps) (simp add: add.assoc)
    next
      case (Grp c v ss)
      have pad: "padding (length (encs ss)) = []" "PAD32 (length (encs ss)) = length (encs ss)"
        using PAD32_add [of "length (encs ss)" 0] by (simp_all add: padding_def)
      have ex: "dm_expect_avp grp = Some (RC_OK, Some \<lparr>av_code = c, av_vendor = v,
          av_data = encs ss @ padding (length (encs ss)) @ encs us @ rest,
          av_len = length (encs ss)\<rparr>, grp\<lparr>ag_pos := ag_pos grp + (hdr_len v + PAD32 (length (encs ss)))\<rparr>)"
        by (rule expect_avp) (use less.prems Cons Grp pad in simp_all)
      have "read_avps G (dm_init_avpgrp (encs ss @ encs us @ rest) (length (encs ss))) = Some ss"
      proof (rule less.hyps [of ss _ "encs us @ rest"])
        show "size_list size ss < size_list size ts" using Cons Grp by simp
      qed (use less.prems Cons Grp in \<open>simp_all add: dm_init_avpgrp_def\<close>)
      then show ?thesis
        using less.prems(4) rest Cons Grp ex pad by (subst read_avps.simps) simp
    qed
  qed
qed

section \<open>Whole messages\<close>

text \<open>A message with the given AVPs, as a client or the server composes it.\<close>

definition build_message ::
  "(nat \<Rightarrow> bool) \<Rightarrow> u32 \<Rightarrow> u8 \<Rightarrow> u32 \<Rightarrow> u32 \<Rightarrow> u32 \<Rightarrow> avp list \<Rightarrow> (rc \<times> DM2_REQUEST) option" where
  "build_message mem code flags appid hopid endid ts = do {
     (r, req) \<leftarrow> dm_new_packet mem code flags appid hopid endid;
     if r \<noteq> RC_OK then Some (r, req)
     else do {
       (r, req) \<leftarrow> put_trees mem ts req;
       if r \<noteq> RC_OK then Some (r, req) else dm_finalize_packet req } }"

definition packet_hdr :: "u32 \<Rightarrow> u8 \<Rightarrow> u32 \<Rightarrow> u32 \<Rightarrow> u32 \<Rightarrow> nat \<Rightarrow> u8 list" where
  "packet_hdr code flags appid hopid endid n =
     [1] @ uint32to24 (of_nat n) @ [flags] @ uint32to24 code @ htonl appid @ htonl hopid @ htonl endid"

lemma length_packet_hdr [simp]: "length (packet_hdr code flags appid hopid endid n) = 20"
  by (simp add: packet_hdr_def)

lemma new_packet:
  assumes "mem 2048"
  shows "dm_new_packet mem code flags appid hopid endid =
    Some (RC_OK, \<lparr>rq_grp = (replicate 16 (0, 0))[0 := (20, 20)], rq_level = 0,
      rq_packet = Some (packet_hdr code flags appid hopid endid 20 @ replicate 2028 0)\<rparr>)"
proof -
  have "replicate 2048 (0::u8) = [0] @ replicate 3 0 @ [0] @ replicate 3 0 @ replicate 4 0 @ replicate 4 0 @ replicate 4 0 @ replicate 2028 0"
    by (simp only: append_Cons append_Nil flip: replicate_add replicate_Suc) simp
  then show ?thesis
    using assms
    by (simp add: dm_new_packet_def DM_BLOCK_ALLOC_def sizeof_dm_packet_def packet_hdr_def block_writes)
qed

lemma header_fields:
  assumes "n < 2 ^ 24"
  shows "dm_packet_length (packet_hdr code flags appid hopid endid n @ b) = Some (of_nat n)"
    and "dm_packet_flags (packet_hdr code flags appid hopid endid n @ b) = Some flags"
    and "dm_packet_code (packet_hdr code flags appid hopid endid n @ b) = Some (code AND 0xFFFFFF)"
    and "dm_app_id (packet_hdr code flags appid hopid endid n @ b) = Some appid"
    and "dm_hop2hop_id (packet_hdr code flags appid hopid endid n @ b) = Some hopid"
    and "dm_end2end_id (packet_hdr code flags appid hopid endid n @ b) = Some endid"
proof -
  let ?h = "packet_hdr code flags appid hopid endid n"
  have n: "of_nat n AND 0xFFFFFF = (of_nat n :: u32)"
    using arg_cong [OF uint24_of_nat [OF assms], of "of_nat :: nat \<Rightarrow> u32"] by simp
  have "read_at 1 3 (?h @ b) = Some (uint32to24 (of_nat n))"
    by (simp add: read_at_def packet_hdr_def)
  then show "dm_packet_length (?h @ b) = Some (of_nat n)" by (simp add: dm_packet_length_def n)
  have "read_at 4 1 (?h @ b) = Some [flags]"
    by (simp add: read_at_def packet_hdr_def)
  then show "dm_packet_flags (?h @ b) = Some flags" by (simp add: dm_packet_flags_def)
  have "read_at 5 3 (?h @ b) = Some (uint32to24 code)"
    by (simp add: read_at_def packet_hdr_def)
  then show "dm_packet_code (?h @ b) = Some (code AND 0xFFFFFF)" by (simp add: dm_packet_code_def)
  have "read_at 8 4 (?h @ b) = Some (htonl appid)"
    by (simp add: read_at_def packet_hdr_def)
  then show "dm_app_id (?h @ b) = Some appid" by (simp add: dm_app_id_def)
  have "read_at 12 4 (?h @ b) = Some (htonl hopid)"
    by (simp add: read_at_def packet_hdr_def)
  then show "dm_hop2hop_id (?h @ b) = Some hopid" by (simp add: dm_hop2hop_id_def)
  have "read_at 16 4 (?h @ b) = Some (htonl endid)"
    by (simp add: read_at_def packet_hdr_def)
  then show "dm_end2end_id (?h @ b) = Some endid" by (simp add: dm_end2end_id_def)
qed

text \<open>The block after the last call: the header with the final length, the AVPs, and zeros.\<close>

lemma build_message_bytes:
  assumes mem: "\<And>n. mem n" and deep: "\<forall>t \<in> set ts. depth t < 16"
  obtains req n where "build_message mem code flags appid hopid endid ts = Some (RC_OK, req)"
    and "rq_packet req = Some (packet_hdr code flags appid hopid endid (20 + length (encs ts)) @ encs ts @ replicate n 0)"
proof -
  let ?h = "packet_hdr code flags appid hopid endid"
  let ?m = "?h 20 @ replicate 2028 0"
  let ?req = "\<lparr>rq_grp = (replicate 16 (0, 0))[0 := (20, 20)], rq_level = 0, rq_packet = Some ?m\<rparr>"
  have "good 20 ?m" using good_zeros [of "?h 20" 2028] by simp
  then have at: "at_pos ?req ?m 20 20" by (simp add: at_pos_def)
  have "\<forall>t \<in> set ts. rq_level ?req + depth t < length (rq_grp ?req)" using deep by simp
  from put_trees_built(2) [where mem = mem, OF at this mem] obtain req m where
    put: "put_trees mem ts ?req = Some (RC_OK, req)" and b: "built ?req ?m 20 20 (encs ts) req m" by blast
  obtain n where "m = take (20 + length (encs ts)) m @ replicate n 0"
    using b good_split by (fastforce simp: built_def at_pos_def)
  then have m: "m = ?h 20 @ encs ts @ replicate n 0" using b by (simp add: built_def)
  let ?m' = "?h (20 + length (encs ts)) @ encs ts @ replicate n 0"
  have w: "write_at 1 (uint32to24 (of_nat (20 + length (encs ts)))) m = Some ?m'"
    unfolding m packet_hdr_def by (simp add: block_writes)
  have "dm_finalize_packet req = Some (RC_OK, req\<lparr>rq_packet := Some ?m'\<rparr>)"
  proof -
    have "rq_packet req = Some m" "rq_level req = 0" "length (rq_grp req) = 16" "rq_grp req ! 0 = (20, 20 + length (encs ts))"
      using b by (auto simp: built_def at_pos_def)
    then show ?thesis using w by (simp add: dm_finalize_packet_def del: of_nat_add)
  qed
  then have "build_message mem code flags appid hopid endid ts = Some (RC_OK, req\<lparr>rq_packet := Some ?m'\<rparr>)"
    using put mem new_packet [of mem code flags appid hopid endid] by (simp add: build_message_def)
  then show thesis using that by simp
qed

lemma init_packet:
  assumes "20 + k < 2 ^ 24"
  shows "dm_init_packet (packet_hdr code flags appid hopid endid (20 + k) @ b) =
    Some \<lparr>ag_data = b, ag_size = k, ag_pos = 0\<rparr>"
proof -
  have "unat (ucast (of_nat (20 + k) :: u32) - of_nat 20 :: u64) = k"
  proof -
    have "take_bit 32 (20 + k) = 20 + k" using assms by (simp add: take_bit_nat_eq_self)
    then have "ucast (of_nat (20 + k) :: u32) = (of_nat (20 + k) :: u64)"
      by (simp add: unsigned_of_nat del: of_nat_add)
    then show ?thesis using assms by (simp add: unat_of_nat)
  qed
  then show ?thesis
    using header_fields(1) [OF assms] by (simp add: dm_init_packet_def dm_init_avpgrp_def sizeof_dm_packet_def)
qed

section \<open>Any bytes\<close>

text \<open>
  What a successful call returns, for any contents of the group: the value is the part of the memory from an offset on,
  the offset and the length stay between the old and the new position, and the new position inside the group.
\<close>

lemma expect_avp_cases:
  assumes "dm_expect_avp grp = Some (r, a, grp')"
  shows "r = RC_OK \<and> (\<exists>v off. a = Some v \<and> av_data v = drop off (ag_data grp) \<and> ag_pos grp + 8 \<le> off \<and>
           off + av_len v \<le> ag_pos grp' \<and> ag_pos grp' \<le> ag_size grp \<and>
           grp' = grp\<lparr>ag_pos := ag_pos grp'\<rparr>) \<or>
         (r = RC_ERR_AVP_END \<or> r = RC_ERR_INVALID_AVP_LENGTH) \<and> a = None \<and> grp' = grp"
proof (cases "ag_pos grp \<ge> ag_size grp")
  case True
  then show ?thesis using assms by (simp add: dm_expect_avp_def)
next
  case False
  let ?avp = "drop (ag_pos grp) (ag_data grp)"
  obtain n where n: "dm_avp_length ?avp = Some n"
    using assms False by (cases "dm_avp_length ?avp") (auto simp: dm_expect_avp_def)
  obtain f where f: "(if unat n < 8 then Some 0 else nth_opt ?avp 4) = Some f"
    using assms False n by (cases "if unat n < 8 then Some 0 else nth_opt ?avp 4") (auto simp: dm_expect_avp_def)
  show ?thesis
  proof (cases "unat n < 8 \<or> (f AND AVP_FLAG_VENDOR \<noteq> 0 \<and> unat n < 12) \<or> ag_size grp < ag_pos grp + PAD32 (unat n)")
    case True
    then show ?thesis using assms False n f unfolding dm_expect_avp_def Let_def by simp
  next
    case ok: False
    have pad: "unat n \<le> PAD32 (unat n)" by (rule PAD32_ge)
    obtain c where c: "read_at 0 4 ?avp = Some c"
      using assms False n f ok unfolding dm_expect_avp_def Let_def by (cases "read_at 0 4 ?avp") auto
    show ?thesis
    proof (cases "f AND AVP_FLAG_VENDOR = 0")
      case True
      then have "r = RC_OK \<and> a = Some \<lparr>av_code = ntohl c, av_vendor = 0, av_data = drop 8 ?avp, av_len = unat n - 8\<rparr> \<and>
          grp' = grp\<lparr>ag_pos := ag_pos grp + PAD32 (unat n)\<rparr>"
        using assms False n f ok c unfolding dm_expect_avp_def Let_def by simp
      then show ?thesis using ok pad by (intro disjI1) (auto intro!: exI [of _ "ag_pos grp + 8"] simp: add.commute)
    next
      case vendor: False
      obtain v where v: "read_at 8 4 ?avp = Some v"
        using assms False n f ok c vendor unfolding dm_expect_avp_def Let_def by (cases "read_at 8 4 ?avp") auto
      then have "r = RC_OK \<and> a = Some \<lparr>av_code = ntohl c, av_vendor = ntohl v, av_data = drop 12 ?avp,
            av_len = unat n - 8 - 4\<rparr> \<and> grp' = grp\<lparr>ag_pos := ag_pos grp + PAD32 (unat n)\<rparr>"
        using assms False n f ok c vendor unfolding dm_expect_avp_def Let_def by simp
      then show ?thesis using ok pad vendor
        by (intro disjI1) (auto intro!: exI [of _ "ag_pos grp + 12"] simp: add.commute)
    qed
  qed
qed

lemma expect_avp_returns:
  assumes "ag_pos grp < ag_size grp \<Longrightarrow> ag_pos grp + 8 \<le> length (ag_data grp)" and "ag_size grp \<le> length (ag_data grp)"
  shows "\<exists>r a grp'. dm_expect_avp grp = Some (r, a, grp')"
proof (cases "ag_pos grp < ag_size grp")
  case True
  let ?avp = "drop (ag_pos grp) (ag_data grp)"
  have len: "8 \<le> length ?avp" using assms(1) True by simp
  then obtain n c where n: "dm_avp_length ?avp = Some n" and c: "read_at 0 4 ?avp = Some c"
    by (auto simp: dm_avp_length_def read_at_def)
  obtain f where f: "nth_opt ?avp 4 = Some f" using len by simp
  have "f AND AVP_FLAG_VENDOR \<noteq> 0 \<Longrightarrow> \<not> unat n < 12 \<Longrightarrow> ag_pos grp + PAD32 (unat n) \<le> ag_size grp \<Longrightarrow> \<exists>v. read_at 8 4 ?avp = Some v"
    using assms(2) PAD32_ge [of "unat n"] by (simp add: read_at_def)
  then show ?thesis
    using True n c f unfolding dm_expect_avp_def Let_def by (auto simp: not_less)
qed (simp add: dm_expect_avp_def)

text \<open>All AVPs of a group, and the result that ended the loop.\<close>

partial_function (option) expect_all :: "DM2_AVPGRP \<Rightarrow> (avp_out list \<times> rc) option" where
  "expect_all grp = do {
     (r, a, grp) \<leftarrow> dm_expect_avp grp;
     case a of
       None \<Rightarrow> Some ([], r)
     | Some v \<Rightarrow> do { (vs, r) \<leftarrow> expect_all grp; Some (v # vs, r) } }"

declare expect_all.simps [code]

lemma expect_all_returns:
  assumes "ag_size grp + 8 \<le> length (ag_data grp)"
  shows "\<exists>vs r. expect_all grp = Some (vs, r) \<and> 8 * length vs \<le> ag_size grp - ag_pos grp \<and> r \<noteq> RC_OK"
  using assms
proof (induction "ag_size grp - ag_pos grp" arbitrary: grp rule: less_induct)
  case less
  obtain r a grp' where e: "dm_expect_avp grp = Some (r, a, grp')"
    using expect_avp_returns [of grp] less.prems by fastforce
  from expect_avp_cases [OF e] show ?case
  proof (elim disjE conjE exE)
    fix v off
    assume a: "a = Some v" and off: "ag_pos grp + 8 \<le> off" "off + av_len v \<le> ag_pos grp'" "ag_pos grp' \<le> ag_size grp"
      and grp': "grp' = grp\<lparr>ag_pos := ag_pos grp'\<rparr>"
    have same: "ag_size grp' = ag_size grp" "ag_data grp' = ag_data grp"
      using grp' by (metis DM2_AVPGRP.select_convs(2) DM2_AVPGRP.surjective DM2_AVPGRP.update_convs(3))
         (metis DM2_AVPGRP.select_convs(1) DM2_AVPGRP.surjective DM2_AVPGRP.update_convs(3) grp')
    have "\<exists>vs r. expect_all grp' = Some (vs, r) \<and> 8 * length vs \<le> ag_size grp' - ag_pos grp' \<and> r \<noteq> RC_OK"
      by (rule less.hyps) (use less.prems off same in auto)
    then show ?case using e a off same by (subst expect_all.simps) auto
  qed (use e in \<open>subst expect_all.simps; simp\<close>)+
qed

section \<open>Properties\<close>

text \<open>
  C29: A message built from AVPs nested less than sixteen deep, of less than \<open>2 ^ 24\<close> bytes in all, is complete: no call
  fails or writes outside of the growing block. Its header has the code, the flags, the identifiers and the length, and
  reading it with the decoder gives back exactly the AVPs that were put in, nested groups included.
\<close>

theorem message_roundtrip:
  assumes "\<And>n. mem n" and "\<forall>t \<in> set ts. depth t < 16 \<and> shaped G t" and "20 + length (encs ts) < 2 ^ 24"
  shows "\<exists>req pkt grp. build_message mem code flags appid hopid endid ts = Some (RC_OK, req) \<and> rq_packet req = Some pkt \<and>
    dm_packet_length pkt = Some (of_nat (20 + length (encs ts))) \<and> dm_packet_flags pkt = Some flags \<and>
    dm_packet_code pkt = Some (code AND 0xFFFFFF) \<and> dm_app_id pkt = Some appid \<and>
    dm_hop2hop_id pkt = Some hopid \<and> dm_end2end_id pkt = Some endid \<and>
    dm_init_packet pkt = Some grp \<and> read_avps G grp = Some ts"
proof -
  let ?h = "packet_hdr code flags appid hopid endid (20 + length (encs ts))"
  have deep: "\<forall>t \<in> set ts. depth t < 16" using assms(2) by blast
  obtain req n where b: "build_message mem code flags appid hopid endid ts = Some (RC_OK, req)"
    and pkt: "rq_packet req = Some (?h @ encs ts @ replicate n 0)"
    by (rule build_message_bytes [where mem = mem and ts = ts, OF assms(1) deep]) blast
  have "read_avps G \<lparr>ag_data = encs ts @ replicate n 0, ag_size = length (encs ts), ag_pos = 0\<rparr> = Some ts"
    by (rule read_encs) (use assms in simp_all)
  note read = this
  show ?thesis
    by (intro exI conjI) (rule b pkt read init_packet [OF assms(3)] header_fields [OF assms(3)])+
qed

definition example_avps :: "avp list" where
  "example_avps = [Avp 1001 18681 [1, 2, 3, 4, 5], Grp 1025 18681 [Avp 7 0 [], Grp 1025 0 [Avp 8 1 [9]]], Avp 2205 18681 (htonl 77)]"

theorem message_roundtrip_witness:
  "\<exists>req pkt grp. build_message (\<lambda>_. True) 42 CMD_FLAG_REQUEST APP_ID 3 4 example_avps = Some (RC_OK, req) \<and>
     rq_packet req = Some pkt \<and> dm_init_packet pkt = Some grp \<and>
     read_avps (\<lambda>c. c = 1025) grp = Some example_avps"
proof -
  have s: "\<forall>t \<in> set example_avps. depth t < 16 \<and> shaped (\<lambda>c. c = 1025) t" by code_simp
  have l: "20 + length (encs example_avps) < 2 ^ 24"
    by (simp add: example_avps_def padding_def PAD32_def hdr_len_def)
  show ?thesis
    using message_roundtrip [of "\<lambda>_. True" example_avps "\<lambda>c. c = 1025" 42 CMD_FLAG_REQUEST APP_ID 3 4, OF TrueI s l] by blast
qed





text \<open>
  The length of an AVP is read before it is known that the group has room for a header: with one to seven
  bytes left at the end of the memory, the decoder reads past that end.
\<close>

theorem expect_avp_overread:
  assumes "ag_size grp = length (ag_data grp)" and "ag_pos grp < ag_size grp" and "ag_size grp < ag_pos grp + 8"
  shows "dm_expect_avp grp = None"
proof -
  have "dm_avp_length (drop (ag_pos grp) (ag_data grp)) = None"
    using assms by (auto simp: dm_avp_length_def read_at_def)
  then show ?thesis using assms by (simp add: dm_expect_avp_def Let_def)
qed

theorem expect_avp_overread_witness: "dm_expect_avp (dm_init_avpgrp [0, 0, 0, 1] 4) = None"
  by (rule expect_avp_overread) (simp_all add: dm_init_avpgrp_def)

end
