(* ===== verification/Dm_Strings.thy ===== *)
theory Dm_Strings
  imports Dm_Cache Dm_Binary
begin

text \<open>
  Names and values as text, \<^verbatim>\<open>mand/dm_strings.c\<close>: the dotted name of an element to its selector,
  and the text of a value to the value. The opposite direction, \<open>dm_sel2name\<close>, is in theory
  \<open>Dm_Table\<close>; the two invert each other on the paths of a schema with proper names.

  \<open>strtol\<close> and \<open>strtoul\<close> of the C library are modelled for base ten on a machine with a
  64-bit \<^verbatim>\<open>long\<close>. Addresses and times are read by functions given as a parameter: \<open>inet_pton\<close>
  of the C library for the two address families, and \<open>str2ticks\<close>, which rests on \<open>sscanf\<close>,
  \<open>strtod\<close> and \<open>timegm\<close>.
\<close>

section \<open>Numbers\<close>

definition isspace :: "u8 \<Rightarrow> bool" where
  "isspace c \<longleftrightarrow> c = 32 \<or> 9 \<le> c \<and> c \<le> 13"

definition isdigit :: "u8 \<Rightarrow> bool" where
  "isdigit c \<longleftrightarrow> 48 \<le> c \<and> c \<le> 57"

text \<open>The digits at the start of a string, and what follows them.\<close>

fun digits_value :: "nat \<Rightarrow> cstr \<Rightarrow> nat \<times> cstr" where
  "digits_value n [] = (n, [])"
| "digits_value n (c # cs) = (if isdigit c then digits_value (n * 10 + unat (c - 48)) cs else (n, c # cs))"

text \<open>White space, a sign, digits: the sign, the number and the rest, if there is a digit.\<close>

definition scan_number :: "cstr \<Rightarrow> (bool \<times> nat \<times> cstr) option" where
  "scan_number s =
     (let t = dropWhile isspace s;
          (neg, t) = (case t of [] \<Rightarrow> (False, t)
                      | c # cs \<Rightarrow> if c = 45 then (True, cs) else if c = 43 then (False, cs) else (False, t))
      in case t of
           [] \<Rightarrow> None
         | c # _ \<Rightarrow> if isdigit c then let (n, r) = digits_value 0 t in Some (neg, n, r) else None)"

definition strtol :: "cstr \<Rightarrow> int \<times> cstr" where
  "strtol s = (case scan_number s of
     None \<Rightarrow> (0, s)
   | Some (neg, n, r) \<Rightarrow>
       (if neg then max (- (2 ^ 63)) (- int n) else min (2 ^ 63 - 1) (int n), r))"

definition strtoul :: "cstr \<Rightarrow> u64 \<times> cstr" where
  "strtoul s = (case scan_number s of
     None \<Rightarrow> (0, s)
   | Some (neg, n, r) \<Rightarrow>
       (if n \<ge> 2 ^ 64 then - 1 else if neg then - of_nat n else of_nat n, r))"

section \<open>Names to selectors\<close>

text \<open>
  The next token of the name \<open>s\<close>, \<open>None\<close> after the last one: its identifier and the rest of the
  name. The number of a row is cut to sixteen bits.
\<close>

definition next_token :: "cstr option \<Rightarrow> dm_table option \<Rightarrow> dm_type \<Rightarrow> dm_id \<times> cstr option" where
  "next_token s kw type = (case s of
     None \<Rightarrow> (0, None)
   | Some token \<Rightarrow>
       let i = takeWhile (\<lambda>c. c \<noteq> 46) token;
           rest = (case dropWhile (\<lambda>c. c \<noteq> 46) token of [] \<Rightarrow> None | _ # r \<Rightarrow> Some r)
       in if type = T_OBJECT
          then (if token = [] \<or> \<not> isdigit (hd token) then (DM_ERR, rest)
                else (word_of_int (fst (strtol token)), rest))
          else (dm_get_element_id_by_name i kw, rest))"

function name2sel_loop ::
  "nat \<Rightarrow> dm_type \<Rightarrow> dm_table option \<Rightarrow> cstr option \<Rightarrow> dm_selector \<Rightarrow> dm_selector option option" where
  "name2sel_loop i st_type kw s sel =
     (if i < DM_SELECTOR_LEN
      then (case kw of
          None \<Rightarrow> Some (Some sel)
        | Some k \<Rightarrow> (
            let (x, s) = next_token s kw st_type in
            if x = 0 then Some (Some sel)
            else if x = DM_ERR then Some None
            else do {
              sel \<leftarrow> upd_opt sel i x;
              if st_type = T_OBJECT then name2sel_loop (i + 1) T_TOKEN kw s sel
              else do {
                e \<leftarrow> nth_opt (tab_elems k) (unat x - 1);
                if el_type e = T_TOKEN \<or> el_type e = T_OBJECT
                then do { kt \<leftarrow> u_table e; name2sel_loop (i + 1) (el_type e) kt s sel }
                else Some (Some sel) } }))
      else Some (Some sel))"
  by pat_completeness auto
termination by (relation "measure (\<lambda>(i, _). DM_SELECTOR_LEN - i)") auto

declare name2sel_loop.simps [simp del]

text \<open>The result \<open>Some None\<close> is \<^verbatim>\<open>NULL\<close>; the pointer to the selector is never \<^verbatim>\<open>NULL\<close>.\<close>

definition dm_name2sel :: "dm_env \<Rightarrow> cstr option \<Rightarrow> dm_selector option option" where
  "dm_name2sel env name = (case name of
     None \<Rightarrow> Some (Some no_selector)
   | Some n \<Rightarrow> if n = [] then Some (Some no_selector)
               else name2sel_loop 0 T_TOKEN (Some (dm_root env)) (Some n) no_selector)"

section \<open>Text to values\<close>

record text_fkts =
  tf_pton4 :: "cstr \<Rightarrow> u32 option"
  tf_pton6 :: "cstr \<Rightarrow> 128 word option"
  tf_str2ticks :: "cstr \<Rightarrow> u64 option"

definition lower :: "u8 \<Rightarrow> u8" where
  "lower c = (if 65 \<le> c \<and> c \<le> 90 then c + 32 else c)"

definition strcasecmp :: "cstr \<Rightarrow> cstr \<Rightarrow> bool" where
  "strcasecmp a b \<longleftrightarrow> map lower a \<noteq> map lower b"

definition str_true :: cstr where "str_true = map of_char ''true''"
definition str_false :: cstr where "str_false = map of_char ''false''"

text \<open>A number has been read up to \<open>rest\<close>: sets it with \<open>put\<close> if that is all.\<close>

definition set_number ::
  "DM_RESULT \<Rightarrow> 'w \<times> cstr \<Rightarrow> (DM_VALUE \<Rightarrow> 'w option) \<Rightarrow> (DM_VALUE \<Rightarrow> 'w \<Rightarrow> DM_VALUE) \<Rightarrow> DM_VALUE \<Rightarrow> dmst \<Rightarrow>
   (DM_RESULT \<times> bool \<times> DM_VALUE \<times> dmst) option" where
  "set_number err = (\<lambda>(x, rest) get put value s.
     if rest \<noteq> [] then Some (err, False, value, s)
     else do { old \<leftarrow> get value; Some (DM_OK, old \<noteq> x, put value x, s) })"

text \<open>The switch over the type: the result, whether the value changes, and the value.\<close>

definition string2value_switch ::
  "dm_env \<Rightarrow> text_fkts \<Rightarrow> dm_element \<Rightarrow> cstr \<Rightarrow> DM_VALUE \<Rightarrow> dmst \<Rightarrow> (DM_RESULT \<times> bool \<times> DM_VALUE \<times> dmst) option" where
  "string2value_switch env tf elem str value s = (case el_type elem of
     T_STR \<Rightarrow> do {
       p \<leftarrow> DM_STRING value;
       old \<leftarrow> str_of s p;
       (res, value, s) \<leftarrow> dm_set_string_value (Some str) value s;
       Some (res, (case old of None \<Rightarrow> True | Some o' \<Rightarrow> o' \<noteq> str), value, s) }
   | T_BINARY \<Rightarrow> do {
       (res, value, s) \<leftarrow> dm_set_binary_data (Some str) value s;
       Some (res, False, value, s) }
   | T_BASE64 \<Rightarrow> (case malloc s of
       (None, s) \<Rightarrow> Some (DM_OOM, False, value, s)
     | (Some _, s) \<Rightarrow> do {
         let n = dm_from64 str;
         p \<leftarrow> DM_BINARY value;
         old \<leftarrow> bin_of s p;
         (res, value, s) \<leftarrow> dm_set_binary_value (Some n) value s;
         Some (res, dm_binarycmp old (Some n) \<noteq> 0, value, s) })
   | T_SELECTOR \<Rightarrow> do {
       sb \<leftarrow> (if str \<noteq> [] then dm_name2sel env (Some str) else Some (Some no_selector));
       case sb of
         None \<Rightarrow> Some (DM_INVALID_VALUE, False, value, s)
       | Some sb \<Rightarrow> do {
           p \<leftarrow> DM_SELECTOR value;
           old \<leftarrow> sel_of s p;
           c \<leftarrow> (case old of None \<Rightarrow> Some 1 | Some o' \<Rightarrow> dm_selcmp (Some o') (Some sb) DM_SELECTOR_LEN);
           (res, value, s) \<leftarrow> dm_set_selector_value (Some sb) value s;
           Some (res, c \<noteq> 0, value, s) } }
   | T_BOOL \<Rightarrow>
       if \<not> strcasecmp str_true str
       then do { old \<leftarrow> DM_BOOL value; Some (DM_OK, old \<noteq> 1, set_DM_BOOL value 1, s) }
       else if \<not> strcasecmp str_false str
       then do { old \<leftarrow> DM_BOOL value; Some (DM_OK, old \<noteq> 0, set_DM_BOOL value 0, s) }
       else Some (DM_INVALID_VALUE, False, value, s)
   | T_ENUM \<Rightarrow> do {
       en \<leftarrow> u_enum elem;
       i \<leftarrow> dm_enum2int (Some en) str;
       if i = - 1 then Some (DM_INVALID_VALUE, False, value, s)
       else do { old \<leftarrow> DM_ENUM value; Some (DM_OK, old \<noteq> word_of_int i, set_DM_ENUM value (word_of_int i), s) } }
   | T_INT \<Rightarrow> set_number DM_INVALID_VALUE (apfst word_of_int (strtol str)) DM_INT set_DM_INT value s
   | T_UINT \<Rightarrow> set_number DM_INVALID_VALUE (apfst ucast (strtoul str)) DM_UINT set_DM_UINT value s
   | T_INT64 \<Rightarrow> set_number DM_INVALID_VALUE (apfst word_of_int (strtol str)) DM_INT64 set_DM_INT64 value s
   | T_UINT64 \<Rightarrow> set_number DM_INVALID_VALUE (strtoul str) DM_UINT64 set_DM_UINT64 value s
   | T_IPADDR4 \<Rightarrow> (case tf_pton4 tf str of
       None \<Rightarrow> Some (DM_INVALID_VALUE, False, value, s)
     | Some a \<Rightarrow> do { old \<leftarrow> rd32 (dv_v value); Some (DM_OK, old \<noteq> a, set_DM_IP4 value a, s) })
   | T_IPADDR6 \<Rightarrow> (case tf_pton6 tf str of
       None \<Rightarrow> Some (DM_INVALID_VALUE, False, value, s)
     | Some a \<Rightarrow> do { old \<leftarrow> rd128 (dv_v value); Some (DM_OK, old \<noteq> a, set_DM_IP6 value a, s) })
   | T_DATE \<Rightarrow> set_number DM_INVALID_TYPE (strtoul str) DM_TIME set_DM_TIME value s
   | T_TICKS \<Rightarrow> set_number DM_INVALID_TYPE
       (case tf_str2ticks tf str of Some t \<Rightarrow> (t, []) | None \<Rightarrow> strtoul str) DM_TICKS set_DM_TICKS value s
   | _ \<Rightarrow> Some (DM_INVALID_TYPE, False, value, s))"

definition dm_string2value ::
  "dm_env \<Rightarrow> text_fkts \<Rightarrow> dm_element option \<Rightarrow> cstr option \<Rightarrow> bool \<Rightarrow> DM_VALUE \<Rightarrow> dmst \<Rightarrow>
   (DM_RESULT \<times> DM_VALUE \<times> dmst) option" where
  "dm_string2value env tf elem str set_update value s = (case (elem, str) of
     (Some e, Some x) \<Rightarrow> do {
       (res, updated, value, s) \<leftarrow> string2value_switch env tf e x value s;
       Some (res, (if res = DM_OK \<and> set_update \<and> updated then value\<lparr>dv_flags := dv_flags value OR DV_UPDATED\<rparr> else value), s) }
   | _ \<Rightarrow> Some (DM_VALUE_NOT_FOUND, value, s))"

end
