(* ===== verification/Dm_Strings_Props.thy ===== *)
theory Dm_Strings_Props
  imports Dm_Strings
begin

text \<open>
  Printing the selector of an element and reading the name gives the selector back, for every path of
  a schema whose names are not empty, have no dot and are different within a table.
\<close>

section \<open>Decimal numbers\<close>

lemma digit_byte:
  assumes "d < 10"
  shows "isdigit (of_nat (48 + d))" and "unat (of_nat (48 + d) - 48 :: u8) = d" and "of_nat (48 + d) \<noteq> (46 :: u8)"
    and "\<not> isspace (of_nat (48 + d))" and "of_nat (48 + d) \<noteq> (45 :: u8)" and "of_nat (48 + d) \<noteq> (43 :: u8)"
proof -
  have "d \<in> {0, 1, 2, 3, 4, 5, 6, 7, 8, 9}" using assms by auto
  then show "isdigit (of_nat (48 + d))" "unat (of_nat (48 + d) - 48 :: u8) = d" "of_nat (48 + d) \<noteq> (46 :: u8)"
    "\<not> isspace (of_nat (48 + d))" "of_nat (48 + d) \<noteq> (45 :: u8)" "of_nat (48 + d) \<noteq> (43 :: u8)"
    by (auto simp: isdigit_def isspace_def)
qed

lemma decimal_digits: "c \<in> set (decimal n) \<Longrightarrow> \<exists>d < 10. c = of_nat (48 + d)"
proof (induction n rule: decimal.induct)
  case (1 n)
  show ?case
  proof (cases "n < 10")
    case True
    then show ?thesis using 1(2) by (subst (asm) decimal.simps) auto
  next
    case False
    then have "c \<in> set (decimal (n div 10)) \<or> c = of_nat (48 + n mod 10)"
      using 1(2) by (subst (asm) decimal.simps) auto
    then show ?thesis using 1(1) [OF False] by (metis mod_less_divisor zero_less_numeral)
  qed
qed

lemma decimal_nonempty: "decimal n \<noteq> []"
  by (subst decimal.simps) auto

lemma digits_value_append:
  assumes "\<forall>c \<in> set ds. \<exists>d < 10. c = of_nat (48 + d)"
  shows "digits_value a (ds @ r) = digits_value (fst (digits_value a ds)) r"
  using assms
proof (induction ds arbitrary: a)
  case (Cons c ds)
  then obtain d where "d < 10" "c = of_nat (48 + d)" by auto
  with Cons digit_byte(1) [of d] show ?case by auto
qed simp

lemma digits_value_decimal: "fst (digits_value 0 (decimal n)) = n"
proof (induction n rule: decimal.induct)
  case (1 n)
  show ?case
  proof (cases "n < 10")
    case True
    then show ?thesis using digit_byte(1,2) [of n] by (subst decimal.simps) simp
  next
    case False
    have "\<forall>c \<in> set (decimal (n div 10)). \<exists>d < 10. c = of_nat (48 + d)" using decimal_digits by blast
    then have "digits_value 0 (decimal (n div 10) @ [of_nat (48 + n mod 10)]) =
        digits_value (n div 10) [of_nat (48 + n mod 10)]"
      using 1 [OF False] by (simp add: digits_value_append)
    moreover have "n div 10 * 10 + n mod 10 = n" by simp
    ultimately show ?thesis
      using False digit_byte(1,2) [of "n mod 10"] by (subst decimal.simps) (simp del: of_nat_add)
  qed
qed

lemma digits_value_stop: "r = [] \<or> \<not> isdigit (hd r) \<Longrightarrow> digits_value n r = (n, r)"
  by (cases r) auto

text \<open>Reading a printed number gives the number and what follows it.\<close>

lemma scan_decimal:
  assumes "r = [] \<or> \<not> isdigit (hd r)"
  shows "scan_number (decimal n @ r) = Some (False, n, r)"
proof -
  obtain c cs where d: "decimal n = c # cs" using decimal_nonempty [of n] by (cases "decimal n") auto
  obtain k where "k < 10" "c = of_nat (48 + k)" using decimal_digits [of c n] d by auto
  with digit_byte [of k] have c: "isdigit c" "\<not> isspace c" "c \<noteq> 45" "c \<noteq> 43" by auto
  have "\<forall>c \<in> set (decimal n). \<exists>d < 10. c = of_nat (48 + d)" using decimal_digits by blast
  then have "digits_value 0 (decimal n @ r) = (n, r)"
    using digits_value_append [of "decimal n" 0 r] digits_value_decimal [of n] digits_value_stop [OF assms]
    by simp
  then show ?thesis using d c by (simp add: scan_number_def)
qed

lemma strtol_decimal:
  assumes "n < 2 ^ 63" and "r = [] \<or> \<not> isdigit (hd r)"
  shows "strtol (decimal n @ r) = (int n, r)"
  using scan_decimal [OF assms(2), of n] assms(1) by (simp add: strtol_def min_def)

lemma decimal_no_dot: "46 \<notin> set (decimal n)"
  using decimal_digits [of 46 n] digit_byte(3) by metis

lemma decimal_hd: "isdigit (hd (decimal n @ r))"
proof -
  obtain c cs where d: "decimal n = c # cs" using decimal_nonempty [of n] by (cases "decimal n") auto
  then obtain k where "k < 10" "c = of_nat (48 + k)" using decimal_digits [of c n] by auto
  then show ?thesis using d digit_byte(1) [of k] by simp
qed

section \<open>Paths and their names\<close>

text \<open>The names of a table can be told apart, and are names.\<close>

definition proper_names :: "dm_table \<Rightarrow> bool" where
  "proper_names k \<longleftrightarrow> distinct (map el_key (tab_elems k)) \<and> (\<forall>e \<in> set (tab_elems k). el_key e \<noteq> [] \<and> 46 \<notin> set (el_key e)) \<and>
     length (tab_elems k) < 0xFFFF"

text \<open>\<open>ids\<close> is a path below the table \<open>kw\<close>, or below a row of an object when \<open>t\<close> is \<open>T_OBJECT\<close>.\<close>

fun schema_path :: "dm_table option \<Rightarrow> dm_type \<Rightarrow> dm_id list \<Rightarrow> bool" where
  "schema_path kw t [] \<longleftrightarrow> True"
| "schema_path kw t (x # xs) \<longleftrightarrow> x \<noteq> 0 \<and> x \<noteq> DM_ERR \<and>
     (case kw of
        None \<Rightarrow> False
      | Some k \<Rightarrow> proper_names k \<and>
          (if t = T_OBJECT then schema_path kw T_TOKEN xs
           else unat x \<le> length (tab_elems k) \<and>
             (let e = tab_elems k ! (unat x - 1) in
              if el_type e = T_TOKEN \<or> el_type e = T_OBJECT
              then (case u_table e of None \<Rightarrow> False | Some kt \<Rightarrow> schema_path kt (el_type e) xs)
              else xs = [])))"

fun path_names :: "dm_table option \<Rightarrow> dm_type \<Rightarrow> dm_id list \<Rightarrow> cstr list" where
  "path_names kw t [] = []"
| "path_names kw t (x # xs) =
     (if t = T_OBJECT then decimal (unat x) # path_names kw T_TOKEN xs
      else (let e = tab_elems (the kw) ! (unat x - 1)
            in el_key e # (case u_table e of Some kt \<Rightarrow> path_names kt (el_type e) xs | None \<Rightarrow> [])))"

fun dots :: "cstr list \<Rightarrow> cstr" where
  "dots [] = []"
| "dots (n # ns) = 46 # n @ dots ns"

definition join :: "cstr list \<Rightarrow> cstr" where
  "join ns = tl (dots ns)"

lemma sel2name_path:
  assumes "schema_path kw t ids" and "sel = pre @ ids @ zs" and "length sel = DM_SELECTOR_LEN"
    and "zs = [] \<or> hd zs = 0" and "int (length (dots (path_names kw t ids))) < sz + (if pre = [] then 1 else 0)"
    and "0 < sz"
  shows "sel2name_loop sel (length pre) t kw out sz =
    Some (Some (out @ (if pre = [] then join (path_names kw t ids) else dots (path_names kw t ids))))"
  using assms
proof (induction ids arbitrary: kw t pre out sz)
  case Nil
  have "nth_opt sel (length pre) = Some 0" if "length pre < DM_SELECTOR_LEN"
    using Nil.prems(2-4) that by (cases zs) (auto simp: nth_append)
  then show ?case
    by (subst sel2name_loop.simps) (auto simp: join_def split: option.split)
next
  case (Cons x xs)
  let ?i = "length pre"
  obtain k where k: "kw = Some k" using Cons.prems(1) by (cases kw) auto
  have x: "x \<noteq> 0" using Cons.prems(1) by simp
  have i: "?i < DM_SELECTOR_LEN" and nth: "nth_opt sel ?i = Some x"
    using Cons.prems(2,3) by (auto simp: nth_append)
  define out1 where "out1 = (if pre = [] then out else out @ [46])"
  define sz1 where "sz1 = (if pre = [] then sz else sz - 1)"
  have step: "sel2name_loop sel ?i t kw out sz =
      (if t = T_OBJECT
       then sel2name_loop sel (?i + 1) T_TOKEN kw (out1 @ take (nat (sz1 - 1)) (decimal (unat x))) (sz1 - int (length (decimal (unat x))))
       else if unat x - 1 \<ge> tab_size k then Some None
       else do {
         e \<leftarrow> nth_opt (tab_elems k) (unat x - 1);
         if int (length (el_key e)) \<ge> sz1 then Some None
         else if el_type e = T_TOKEN \<or> el_type e = T_OBJECT
         then do {
           kt \<leftarrow> u_table e;
           sel2name_loop sel (?i + 1) (el_type e) kt (out1 @ el_key e) (sz1 - int (length (el_key e))) }
         else Some (Some (out1 @ el_key e)) })" if "1 < sz"
  proof (cases "pre = []")
    case True
    then have o: "out1 = out" "sz1 = sz" by (simp_all add: out1_def sz1_def)
    show ?thesis unfolding o k using i nth x that True by (subst sel2name_loop.simps) (simp add: Let_def)
  next
    case False
    then have o: "out1 = out @ [46]" "sz1 = sz - 1" by (simp_all add: out1_def sz1_def)
    show ?thesis unfolding o k using i nth x that False by (subst sel2name_loop.simps) (simp add: Let_def)
  qed
  show ?case
  proof (cases "t = T_OBJECT")
    case True
    let ?d = "decimal (unat x)" and ?r = "dots (path_names kw T_TOKEN xs)"
    have len: "int (length ?d) + int (length ?r) < sz1" "0 < length ?d"
      using Cons.prems(5) True decimal_nonempty by (auto simp: sz1_def split: if_splits)
    have "sel2name_loop sel (length (pre @ [x])) T_TOKEN kw (out1 @ ?d) (sz1 - int (length ?d)) =
        Some (Some ((out1 @ ?d) @ ?r))"
      using Cons.IH [of kw T_TOKEN "pre @ [x]" "sz1 - int (length ?d)" "out1 @ ?d"] Cons.prems(1-4) True k len by simp
    moreover have "1 < sz"
    proof -
      have "1 \<le> int (length ?d)" using decimal_nonempty [of "unat x"] by (cases ?d) simp_all
      moreover have "sz1 \<le> sz" by (simp add: sz1_def)
      ultimately show ?thesis using len(1) by linarith
    qed
    moreover have "take (nat (sz1 - 1)) ?d = ?d" using len by simp
    ultimately show ?thesis using step True by (simp add: out1_def join_def)
  next
    case False
    let ?e = "tab_elems k ! (unat x - 1)" and ?n = "unat x - 1"
    have e: "?n < tab_size k" "nth_opt (tab_elems k) ?n = Some ?e"
    proof -
      have "unat x \<noteq> 0" "unat x \<le> length (tab_elems k)"
        using Cons.prems(1) False k x by (auto simp: unat_eq_zero)
      then have "?n < length (tab_elems k)" by linarith
      then show "?n < tab_size k" "nth_opt (tab_elems k) ?n = Some ?e" by (simp_all add: tab_size_def)
    qed
    then have key: "el_key ?e \<noteq> []"
      using Cons.prems(1) k by (auto simp: proper_names_def tab_size_def)
    define r where "r = (case u_table ?e of Some kt \<Rightarrow> dots (path_names kt (el_type ?e) xs) | None \<Rightarrow> [])"
    have names: "dots (path_names kw t (x # xs)) = 46 # el_key ?e @ r"
      using False k by (simp add: r_def Let_def split: option.split)
    have len: "int (length (el_key ?e)) + int (length r) < sz1"
      using Cons.prems(5) unfolding names by (auto simp: sz1_def split: if_splits)
    have sz: "1 < sz"
    proof -
      have "1 \<le> int (length (el_key ?e))" using key by (cases "el_key ?e") simp_all
      moreover have "sz1 \<le> sz" by (simp add: sz1_def)
      ultimately show ?thesis using len by linarith
    qed
    have "sel2name_loop sel ?i t kw out sz = Some (Some (out1 @ el_key ?e @ r))"
    proof (cases "el_type ?e = T_TOKEN \<or> el_type ?e = T_OBJECT")
      case True
      then obtain kt where kt: "u_table ?e = Some kt" and path: "schema_path kt (el_type ?e) xs"
        using Cons.prems(1) False k by (auto simp: Let_def split: option.splits)
      have "sel2name_loop sel (length (pre @ [x])) (el_type ?e) kt (out1 @ el_key ?e) (sz1 - int (length (el_key ?e))) =
          Some (Some ((out1 @ el_key ?e) @ r))"
        using Cons.IH [of kt "el_type ?e" "pre @ [x]" "sz1 - int (length (el_key ?e))" "out1 @ el_key ?e"]
          Cons.prems(2-4) path kt len by (simp add: r_def)
      then show ?thesis using step [OF sz] False True e kt len by simp
    next
      case leaf: False
      then have "xs = []" using Cons.prems(1) False k by (auto simp: Let_def)
      then have "r = []" by (simp add: r_def split: option.split)
      then show ?thesis using step [OF sz] False leaf e len by simp
    qed
    then show ?thesis unfolding join_def names by (simp add: out1_def)
  qed
qed

section \<open>Reading a name\<close>

lemma element_id_found:
  assumes "distinct (map el_key es)" and "i < length es"
  shows "element_id_from a (el_key (es ! i)) es = of_nat (a + i + 1)"
  using assms
proof (induction es arbitrary: a i)
  case (Cons e es)
  then show ?case
  proof (cases i)
    case (Suc j)
    then have "el_key (es ! j) \<in> set (map el_key es)" using Cons.prems(2) by simp
    then have "el_key e \<noteq> el_key (es ! j)" using Cons.prems(1) by auto
    then show ?thesis using Cons Suc by simp
  qed simp
qed simp

text \<open>The text after the names read so far.\<close>

definition rest_text :: "cstr list \<Rightarrow> cstr option" where
  "rest_text ns = (if ns = [] then None else Some (join ns))"

lemma join_Cons: "join (n # ns) = n @ dots ns"
  by (simp add: join_def)

lemma dots_cases: "dots ns = (if ns = [] then [] else 46 # join ns)"
  by (cases ns) (simp_all add: join_def)

lemma token_split:
  assumes "46 \<notin> set n"
  shows "takeWhile (\<lambda>c. c \<noteq> 46) (join (n # ns)) = n"
    and "(case dropWhile (\<lambda>c. c \<noteq> 46) (join (n # ns)) of [] \<Rightarrow> None | _ # r \<Rightarrow> Some r) = rest_text ns"
proof -
  have n: "\<forall>c \<in> set n. c \<noteq> 46" using assms by auto
  show "takeWhile (\<lambda>c. c \<noteq> 46) (join (n # ns)) = n"
    unfolding join_Cons dots_cases using n
    by (cases "ns = []") (simp_all add: takeWhile_append_stop takeWhile_eq_all_conv)
  have "dropWhile (\<lambda>c. c \<noteq> 46) (join (n # ns)) = dots ns"
    unfolding join_Cons dots_cases using n
    by (cases "ns = []") (simp_all add: dropWhile_append_stop dropWhile_eq_Nil_conv)
  then show "(case dropWhile (\<lambda>c. c \<noteq> 46) (join (n # ns)) of [] \<Rightarrow> None | _ # r \<Rightarrow> Some r) = rest_text ns"
    by (simp add: dots_cases rest_text_def)
qed

lemma next_token_path:
  assumes "schema_path (Some k) t (x # xs)"
  shows "next_token (rest_text (path_names (Some k) t (x # xs))) (Some k) t =
    (x, rest_text (tl (path_names (Some k) t (x # xs))))"
proof (cases "t = T_OBJECT")
  case True
  let ?d = "decimal (unat x)" and ?ns = "path_names (Some k) T_TOKEN xs"
  have "unat x < 2 ^ 16" using unsigned_less [where 'a = nat, of x] by simp
  then have "unat x < 2 ^ 63" by simp
  moreover have "dots ?ns = [] \<or> \<not> isdigit (hd (dots ?ns))" by (simp add: dots_cases isdigit_def)
  ultimately have "strtol (join (?d # ?ns)) = (int (unat x), dots ?ns)"
    unfolding join_Cons by (rule strtol_decimal)
  moreover have "join (?d # ?ns) \<noteq> []" "isdigit (hd (join (?d # ?ns)))"
    using decimal_nonempty decimal_hd by (simp_all add: join_Cons)
  moreover have "(word_of_int (int (unat x)) :: dm_id) = x" by simp
  ultimately show ?thesis
    using True token_split(2) [OF decimal_no_dot, of "unat x" ?ns]
    by (simp add: next_token_def rest_text_def Let_def)
next
  case False
  let ?e = "tab_elems k ! (unat x - 1)"
  have x: "unat x \<noteq> 0" "unat x \<le> length (tab_elems k)" and names: "proper_names k"
    using assms False by (auto simp: unat_eq_zero)
  then have n: "unat x - 1 < length (tab_elems k)" by linarith
  have dot: "46 \<notin> set (el_key ?e)" using names n by (auto simp: proper_names_def)
  have "dm_get_element_id_by_name (el_key ?e) (Some k) = of_nat (unat x - 1 + 1)"
    using element_id_found [OF _ n, of 0] names by (simp add: dm_get_element_id_by_name_def proper_names_def)
  also have "\<dots> = x" using x(1) by simp
  finally show ?thesis
    using False token_split [OF dot] by (simp add: next_token_def rest_text_def Let_def)
qed

lemma name2sel_path:
  assumes "schema_path kw t ids" and "length pre + length ids \<le> DM_SELECTOR_LEN" and "ids \<noteq> [] \<Longrightarrow> kw \<noteq> None"
    and "length pre + n = DM_SELECTOR_LEN"
  shows "name2sel_loop (length pre) t kw (rest_text (path_names kw t ids)) (pre @ replicate n 0) =
    Some (Some (pre @ ids @ replicate (n - length ids) 0))"
  using assms
proof (induction ids arbitrary: kw t pre n)
  case Nil
  show ?case
    by (subst name2sel_loop.simps) (simp add: rest_text_def next_token_def split: option.split)
next
  case (Cons x xs)
  obtain k where k: "kw = Some k" using Cons.prems(3) by blast
  have x: "x \<noteq> 0" "x \<noteq> DM_ERR" using Cons.prems(1) by simp_all
  let ?sel = "(pre @ [x]) @ replicate (n - 1) 0"
  have i: "length pre < DM_SELECTOR_LEN" using Cons.prems(2) by simp
  have upd: "upd_opt (pre @ replicate n 0) (length pre) x = Some ?sel"
    using i Cons.prems(4) by (cases n) (simp_all add: list_update_append)
  have fin: "(pre @ [x]) @ xs @ replicate (n - 1 - length xs) 0 = pre @ (x # xs) @ replicate (n - length (x # xs)) 0"
    by simp
  have len: "length (pre @ [x]) + length xs \<le> DM_SELECTOR_LEN" "length (pre @ [x]) + (n - 1) = DM_SELECTOR_LEN"
    using Cons.prems(2,4) by simp_all
  let ?rest = "rest_text (tl (path_names kw t (x # xs)))"
  note tok = next_token_path [OF Cons.prems(1) [unfolded k], folded k]
  show ?case
  proof (cases "t = T_OBJECT")
    case True
    have "schema_path kw T_TOKEN xs" using Cons.prems(1) True k by simp
    then have "name2sel_loop (length (pre @ [x])) T_TOKEN kw ?rest ?sel =
        Some (Some ((pre @ [x]) @ xs @ replicate (n - 1 - length xs) 0))"
      using Cons.IH [of kw T_TOKEN "pre @ [x]" "n - 1"] len True k by simp
    then show ?thesis
      unfolding fin using i upd tok x True k by (subst name2sel_loop.simps) simp
  next
    case False
    let ?e = "tab_elems k ! (unat x - 1)"
    have "unat x \<noteq> 0" "unat x \<le> length (tab_elems k)"
      using Cons.prems(1) False k by (auto simp: unat_eq_zero)
    then have e: "nth_opt (tab_elems k) (unat x - 1) = Some ?e" by simp
    show ?thesis
    proof (cases "el_type ?e = T_TOKEN \<or> el_type ?e = T_OBJECT")
      case True
      then obtain kt where kt: "u_table ?e = Some kt" and path: "schema_path kt (el_type ?e) xs"
        using Cons.prems(1) False k by (auto simp: Let_def split: option.splits)
      have "xs \<noteq> [] \<Longrightarrow> kt \<noteq> None" using path by (cases xs; cases kt) auto
      then have "name2sel_loop (length (pre @ [x])) (el_type ?e) kt ?rest ?sel =
          Some (Some ((pre @ [x]) @ xs @ replicate (n - 1 - length xs) 0))"
        using Cons.IH [of kt "el_type ?e" "pre @ [x]" "n - 1"] len path False k kt by (simp add: Let_def)
      then show ?thesis
        unfolding fin using i upd tok x False True k e kt by (subst name2sel_loop.simps) simp
    next
      case leaf: False
      then have "xs = []" using Cons.prems(1) False k by (auto simp: Let_def)
      then show ?thesis
        using i upd tok x False leaf k e by (subst name2sel_loop.simps) simp
    qed
  qed
qed

section \<open>Round trip\<close>

text \<open>
  C32: The dotted name of an element leads back to the element: for every path of a schema with proper names, of any
  depth up to sixteen and through rows of objects, printing the selector into a buffer that is large enough
  succeeds, and reading the printed name gives the same selector.
\<close>

theorem name_roundtrip:
  assumes "schema_path (Some (dm_root env)) T_TOKEN ids" and "length ids \<le> DM_SELECTOR_LEN"
    and "sel = ids @ replicate (DM_SELECTOR_LEN - length ids) 0"
    and "int (length (join (path_names (Some (dm_root env)) T_TOKEN ids))) < sz"
  shows "\<exists>name. dm_sel2name env sel sz = Some (Some name) \<and> dm_name2sel env (Some name) = Some (Some sel)"
proof -
  let ?ns = "path_names (Some (dm_root env)) T_TOKEN ids"
  have len: "int (length (dots ?ns)) < sz + 1" using assms(4) by (cases ?ns) (simp_all add: join_def)
  let ?z = "replicate (DM_SELECTOR_LEN - length ids) (0 :: dm_id)"
  have "?z = [] \<or> hd ?z = 0" by (cases "DM_SELECTOR_LEN - length ids") simp_all
  then have "sel2name_loop sel (length []) T_TOKEN (Some (dm_root env)) [] sz = Some (Some ([] @ join ?ns))"
    using sel2name_path [OF assms(1), of sel "[]" "replicate (DM_SELECTOR_LEN - length ids) 0" sz "[]"] assms(2,3,4) len
    by simp
  then have out: "dm_sel2name env sel sz = Some (Some (join ?ns))" by (simp add: dm_sel2name_def)
  have "dm_name2sel env (Some (join ?ns)) = Some (Some sel)"
  proof (cases ids)
    case Nil
    then show ?thesis using assms(3) by (simp add: dm_name2sel_def join_def no_selector_def)
  next
    case (Cons x xs)
    have "x \<noteq> 0" "unat x \<le> length (tab_elems (dm_root env))" "proper_names (dm_root env)"
      using assms(1) Cons by auto
    then have "tab_elems (dm_root env) ! (unat x - 1) \<in> set (tab_elems (dm_root env))"
      using unat_eq_zero [of x] by (intro nth_mem) linarith
    then have "join ?ns \<noteq> []" using \<open>proper_names (dm_root env)\<close> Cons
      by (simp add: join_Cons Let_def proper_names_def)
    moreover have "?ns \<noteq> []" using Cons by (simp add: Let_def)
    ultimately show ?thesis
      using name2sel_path [OF assms(1), of "[]" DM_SELECTOR_LEN] assms(2,3)
      by (simp add: dm_name2sel_def rest_text_def no_selector_def)
  qed
  with out show ?thesis by blast
qed

definition example_leaf :: "cstr \<Rightarrow> dm_type \<Rightarrow> dm_element" where
  "example_leaf key t = Element key t F_READ 0 (Fk_value \<lparr>vf_validate = None, vf_get = None, vf_set = None\<rparr>) U_none"

definition example_names :: dm_table where
  "example_names = DmTable [114] []
     [example_leaf [97] T_UINT,
      Element [105, 102] T_OBJECT F_READ 0 (Fk_instance \<lparr>if_add = None, if_del = None\<rparr>)
        (U_table (Some (DmTable [105] [] [example_leaf [110] T_STR, example_leaf [109, 116, 117] T_UINT])) 16)]"

theorem name_roundtrip_witness:
  "\<exists>name. dm_sel2name (env_example\<lparr>dm_root := example_names\<rparr>) ([2, 10, 2] @ replicate 13 0) 257 = Some (Some name) \<and>
     dm_name2sel (env_example\<lparr>dm_root := example_names\<rparr>) (Some name) = Some (Some ([2, 10, 2] @ replicate 13 0))"
proof (rule name_roundtrip [where ids = "[2, 10, 2]"])
  show "schema_path (Some (dm_root (env_example\<lparr>dm_root := example_names\<rparr>))) T_TOKEN [2, 10, 2]"
    by (simp add: example_names_def example_leaf_def proper_names_def DM_ERR_def)
  show "int (length (join (path_names (Some (dm_root (env_example\<lparr>dm_root := example_names\<rparr>))) T_TOKEN [2, 10, 2]))) < 257"
    by (simp add: example_names_def example_leaf_def join_def decimal.simps)
qed (simp_all add: DM_SELECTOR_LEN_def)

end
