(* ===== verification/Dm_Expect.thy ===== *)
theory Dm_Expect
  imports Dm_Msg Dm_Strings
begin

text \<open>
  Reading AVPs of an expected code and type, \<^verbatim>\<open>libdmconfig/dmconfig.c\<close>. Each function returns
  the result code, what it stored through its pointers, if anything, and the group with the position after
  the AVP, which moves on even when the AVP is not the expected one.

  \<open>mem\<close> says whether talloc can provide a block of a size. \<^verbatim>\<open>dm_decode_unknown_as_string\<close>,
  which prints a value for a client, is not modelled.
\<close>

definition dm_expect_group_end :: "DM2_AVPGRP \<Rightarrow> rc" where
  "dm_expect_group_end grp = (if ag_pos grp = ag_size grp then RC_OK else RC_ERR_AVP_MISFORMED)"

definition dm_expect_end :: "DM2_AVPGRP \<Rightarrow> rc" where
  "dm_expect_end grp = dm_expect_group_end grp"

text \<open>The value is a pointer and a size.\<close>

definition dm_expect_raw :: "u32 \<Rightarrow> u32 \<Rightarrow> DM2_AVPGRP \<Rightarrow> (rc \<times> (u8 list \<times> nat) option \<times> DM2_AVPGRP) option" where
  "dm_expect_raw exp_code exp_vendor_id grp = do {
     (r, a, grp) \<leftarrow> dm_expect_avp grp;
     case a of
       None \<Rightarrow> Some (RC_ERR_MISC, None, grp)
     | Some v \<Rightarrow>
         if r \<noteq> RC_OK \<or> av_code v \<noteq> exp_code \<or> av_vendor v \<noteq> exp_vendor_id then Some (RC_ERR_MISC, None, grp)
         else Some (RC_OK, Some (av_data v, av_len v), grp) }"

text \<open>\<open>struct dm2_avp\<close> is what \<open>dm_expect_avp\<close> stores.\<close>

definition dm_expect_value :: "DM2_AVPGRP \<Rightarrow> (rc \<times> avp_out option \<times> DM2_AVPGRP) option" where
  "dm_expect_value grp = dm_expect_avp grp"

definition dm_expect_group :: "u32 \<Rightarrow> u32 \<Rightarrow> DM2_AVPGRP \<Rightarrow> (rc \<times> DM2_AVPGRP option \<times> DM2_AVPGRP) option" where
  "dm_expect_group exp_code exp_vendor_id grp = do {
     (r, v, grp) \<leftarrow> dm_expect_raw exp_code exp_vendor_id grp;
     case v of
       None \<Rightarrow> Some (r, None, grp)
     | Some (data, sz) \<Rightarrow> Some (RC_OK, Some (dm_init_avpgrp data sz), grp) }"

definition dm_expect_object :: "DM2_AVPGRP \<Rightarrow> (rc \<times> DM2_AVPGRP option \<times> DM2_AVPGRP) option" where
  "dm_expect_object grp = dm_expect_group AVP_CONTAINER VP_TRAVELPING grp"

definition dm_expect_bin :: "u32 \<Rightarrow> u32 \<Rightarrow> DM2_AVPGRP \<Rightarrow> (rc \<times> (u8 list \<times> nat) option \<times> DM2_AVPGRP) option" where
  "dm_expect_bin exp_code exp_vendor_id grp = dm_expect_raw exp_code exp_vendor_id grp"

text \<open>\<^verbatim>\<open>strndup\<close> reads up to a NUL or \<open>n\<close> bytes.\<close>

definition strndup :: "u8 list \<Rightarrow> nat \<Rightarrow> cstr option" where
  "strndup data n =
     (if 0 \<in> set (take n data) then Some (takeWhile (\<lambda>c. c \<noteq> 0) data) else read_at 0 n data)"

definition dm_expect_string_type ::
  "(nat \<Rightarrow> bool) \<Rightarrow> u32 \<Rightarrow> u32 \<Rightarrow> DM2_AVPGRP \<Rightarrow> (rc \<times> cstr option \<times> DM2_AVPGRP) option" where
  "dm_expect_string_type mem exp_code exp_vendor_id grp = do {
     (r, v, grp) \<leftarrow> dm_expect_raw exp_code exp_vendor_id grp;
     case v of
       None \<Rightarrow> Some (r, None, grp)
     | Some (data, sz) \<Rightarrow> do {
         str \<leftarrow> strndup data sz;
         if \<not> mem (length str + 1) then Some (RC_ERR_ALLOC, None, grp)
         else Some (RC_OK, Some str, grp) } }"

text \<open>A number of \<open>n\<close> bytes, read with \<open>get\<close>.\<close>

definition expect_number ::
  "nat \<Rightarrow> (u8 list \<Rightarrow> 'w option) \<Rightarrow> u32 \<Rightarrow> u32 \<Rightarrow> DM2_AVPGRP \<Rightarrow> (rc \<times> 'w option \<times> DM2_AVPGRP) option" where
  "expect_number n get exp_code exp_vendor_id grp = do {
     (r, v, grp) \<leftarrow> dm_expect_raw exp_code exp_vendor_id grp;
     case v of
       None \<Rightarrow> Some (RC_ERR_MISC, None, grp)
     | Some (data, sz) \<Rightarrow>
         if sz \<noteq> n then Some (RC_ERR_MISC, None, grp)
         else do { x \<leftarrow> get data; Some (RC_OK, Some x, grp) } }"

definition dm_expect_uint8_type :: "u32 \<Rightarrow> u32 \<Rightarrow> DM2_AVPGRP \<Rightarrow> (rc \<times> u8 option \<times> DM2_AVPGRP) option" where
  "dm_expect_uint8_type = expect_number 1 dm_get_uint8_avp"

definition dm_expect_uint16_type :: "u32 \<Rightarrow> u32 \<Rightarrow> DM2_AVPGRP \<Rightarrow> (rc \<times> u16 option \<times> DM2_AVPGRP) option" where
  "dm_expect_uint16_type = expect_number 2 dm_get_uint16_avp"

definition dm_expect_uint32_type :: "u32 \<Rightarrow> u32 \<Rightarrow> DM2_AVPGRP \<Rightarrow> (rc \<times> u32 option \<times> DM2_AVPGRP) option" where
  "dm_expect_uint32_type = expect_number 4 dm_get_uint32_avp"

definition dm_expect_uint64_type :: "u32 \<Rightarrow> u32 \<Rightarrow> DM2_AVPGRP \<Rightarrow> (rc \<times> u64 option \<times> DM2_AVPGRP) option" where
  "dm_expect_uint64_type = expect_number 8 dm_get_uint64_avp"

definition dm_expect_int8_type :: "u32 \<Rightarrow> u32 \<Rightarrow> DM2_AVPGRP \<Rightarrow> (rc \<times> int option \<times> DM2_AVPGRP) option" where
  "dm_expect_int8_type = expect_number 1 dm_get_int8_avp"

definition dm_expect_int16_type :: "u32 \<Rightarrow> u32 \<Rightarrow> DM2_AVPGRP \<Rightarrow> (rc \<times> int option \<times> DM2_AVPGRP) option" where
  "dm_expect_int16_type = expect_number 2 dm_get_int16_avp"

definition dm_expect_int32_type :: "u32 \<Rightarrow> u32 \<Rightarrow> DM2_AVPGRP \<Rightarrow> (rc \<times> int option \<times> DM2_AVPGRP) option" where
  "dm_expect_int32_type = expect_number 4 dm_get_int32_avp"

text \<open>The result of the address reader is ignored; the address may not have been stored.\<close>

definition dm_expect_address_type ::
  "nat \<Rightarrow> u32 \<Rightarrow> u32 \<Rightarrow> DM2_AVPGRP \<Rightarrow> (rc \<times> (af \<times> u8 list) option \<times> DM2_AVPGRP) option" where
  "dm_expect_address_type addr_size exp_code exp_vendor_id grp = do {
     (r, v, grp) \<leftarrow> dm_expect_raw exp_code exp_vendor_id grp;
     case v of
       None \<Rightarrow> Some (RC_ERR_MISC, None, grp)
     | Some (data, sz) \<Rightarrow> do {
         (_, a) \<leftarrow> dm_get_address_avp addr_size data sz;
         Some (RC_OK, a, grp) } }"

text \<open>A path as text, \<^verbatim>\<open>libdmconfig/dm_dmconfig_rpc_skel.c\<close>.\<close>

definition dm_expect_path_type ::
  "dm_env \<Rightarrow> (nat \<Rightarrow> bool) \<Rightarrow> u32 \<Rightarrow> u32 \<Rightarrow> DM2_AVPGRP \<Rightarrow> (rc \<times> dm_selector option \<times> DM2_AVPGRP) option" where
  "dm_expect_path_type env mem exp_code exp_vendor_id grp = do {
     (r, str, grp) \<leftarrow> dm_expect_string_type mem exp_code exp_vendor_id grp;
     case str of
       None \<Rightarrow> Some (r, None, grp)
     | Some n \<Rightarrow> do {
         sel \<leftarrow> dm_name2sel env (Some n);
         Some (case sel of None \<Rightarrow> (RC_ERR_MISC, None, grp) | Some x \<Rightarrow> (RC_OK, Some x, grp)) } }"

end
