(* ===== verification/Dm_Avp.thy ===== *)
theory Dm_Avp
  imports Dm_Expect Dm_Walk
begin

text \<open>
  The values of the store as AVPs and back, the first part of \<^verbatim>\<open>mand/dm_dmconfig.c\<close>: encoding a value,
  an array and a subtree for an answer, decoding the value of a request, and the callbacks that
  set and read values for a session.

  \<open>srv_env\<close> collects what the server gets from elsewhere: the generated schema and functions, the
  parsers of theory \<open>Dm_Strings\<close>, what talloc can provide, the offset between the monotonic and the
  real-time clock, and the XML dump of the store. Memory that
  \<^verbatim>\<open>malloc\<close> provides is accounted for in the state of the store. The functions return protocol codes
  and results of the store through one integer; see \<open>DM_RESULT\<close>.
\<close>

section \<open>Codes\<close>

definition AVP_PATH :: u32 where "AVP_PATH = 1000"
definition AVP_COUNTER :: u32 where "AVP_COUNTER = 1004"
definition AVP_ENUMID :: u32 where "AVP_ENUMID = 1005"
definition AVP_ENUM :: u32 where "AVP_ENUM = 1006"
definition AVP_STRING :: u32 where "AVP_STRING = 1007"
definition AVP_ADDRESS :: u32 where "AVP_ADDRESS = 1008"
definition AVP_BOOL :: u32 where "AVP_BOOL = 1009"
definition AVP_DATE :: u32 where "AVP_DATE = 1010"
definition AVP_RC :: u32 where "AVP_RC = 1012"
definition AVP_SESSIONID :: u32 where "AVP_SESSIONID = 1013"
definition AVP_NOTIFY_TYPE :: u32 where "AVP_NOTIFY_TYPE = 1014"
definition AVP_UNKNOWN :: u32 where "AVP_UNKNOWN = 1015"
definition AVP_ABSTICKS :: u32 where "AVP_ABSTICKS = 1016"
definition AVP_RELTICKS :: u32 where "AVP_RELTICKS = 1017"
definition AVP_BINARY :: u32 where "AVP_BINARY = 1019"
definition AVP_NOTIFY_LEVEL :: u32 where "AVP_NOTIFY_LEVEL = 1022"
definition AVP_TABLE :: u32 where "AVP_TABLE = 1030"
definition AVP_INSTANCE :: u32 where "AVP_INSTANCE = 1031"
definition AVP_OBJECT :: u32 where "AVP_OBJECT = 1032"
definition AVP_ELEMENT :: u32 where "AVP_ELEMENT = 1033"
definition AVP_NAME :: u32 where "AVP_NAME = 1034"
definition AVP_ARRAY :: u32 where "AVP_ARRAY = 1035"
definition AVP_UINT16 :: u32 where "AVP_UINT16 = 2203"
definition AVP_INT32 :: u32 where "AVP_INT32 = 2204"
definition AVP_UINT32 :: u32 where "AVP_UINT32 = 2205"
definition AVP_INT64 :: u32 where "AVP_INT64 = 2206"
definition AVP_UINT64 :: u32 where "AVP_UINT64 = 2207"
definition AVP_TICKS :: u32 where "AVP_TICKS = 2208"
definition AVP_TYPE :: u32 where "AVP_TYPE = 2209"

definition NOTIFY_PARAMETER_CHANGED :: u32 where "NOTIFY_PARAMETER_CHANGED = 1"
definition NOTIFY_INSTANCE_DELETED :: u32 where "NOTIFY_INSTANCE_DELETED = 2"
definition NOTIFY_INSTANCE_CREATED :: u32 where "NOTIFY_INSTANCE_CREATED = 3"

definition MAX_PARAM_NAME_LEN :: int where "MAX_PARAM_NAME_LEN = 257"
definition CMD_FLAG_CONFIGURE :: u32 where "CMD_FLAG_CONFIGURE = push_bit 0 1"

section \<open>The environment of the server\<close>

record srv_env =
  se_dm :: dm_env
  se_text :: text_fkts
  se_mem :: "nat \<Rightarrow> bool"
  se_ticks2realtime :: "u64 \<Rightarrow> u64"
  se_dump :: "cstr \<Rightarrow> dmst \<Rightarrow> u8 list option"

text \<open>An encoder's call with its code as a result, and the sequence \<^verbatim>\<open>a || b || \<dots>\<close> of such calls.\<close>

definition put_rc :: "(rc \<times> DM2_REQUEST) option \<Rightarrow> dmst \<Rightarrow> (DM_RESULT \<times> DM2_REQUEST \<times> dmst) option" where
  "put_rc x s = do { (r, req) \<leftarrow> x; Some (as_result r, req, s) }"

fun calls :: "(DM2_REQUEST \<Rightarrow> (rc \<times> DM2_REQUEST) option) list \<Rightarrow> DM2_REQUEST \<Rightarrow> (rc \<times> DM2_REQUEST) option" where
  "calls [] req = Some (RC_OK, req)"
| "calls (f # fs) req = do { (r, req) \<leftarrow> f req; if r \<noteq> RC_OK then Some (r, req) else calls fs req }"

text \<open>The bytes of a member of the union in memory, on a little-endian machine.\<close>

definition le_bytes :: "nat \<Rightarrow> 128 word \<Rightarrow> u8 list" where
  "le_bytes n w = map (\<lambda>i. ucast (drop_bit (8 * i) w)) [0..<n]"

fun le_word :: "u8 list \<Rightarrow> 128 word" where
  "le_word [] = 0"
| "le_word (b # bs) = ucast b OR push_bit 8 (le_word bs)"

section \<open>Encoding\<close>

definition avp_type_map :: "dm_type \<Rightarrow> u32" where
  "avp_type_map type = (case type of
     T_ENUM \<Rightarrow> AVP_ENUM
   | T_COUNTER \<Rightarrow> AVP_COUNTER
   | T_INT \<Rightarrow> AVP_INT32
   | T_UINT \<Rightarrow> AVP_UINT32
   | T_INT64 \<Rightarrow> AVP_INT64
   | T_UINT64 \<Rightarrow> AVP_UINT64
   | T_STR \<Rightarrow> AVP_STRING
   | T_BINARY \<Rightarrow> AVP_BINARY
   | T_BASE64 \<Rightarrow> AVP_BINARY
   | T_IPADDR4 \<Rightarrow> AVP_ADDRESS
   | T_IPADDR6 \<Rightarrow> AVP_ADDRESS
   | T_BOOL \<Rightarrow> AVP_BOOL
   | T_DATE \<Rightarrow> AVP_DATE
   | T_SELECTOR \<Rightarrow> AVP_PATH
   | T_TICKS \<Rightarrow> AVP_TICKS
   | _ \<Rightarrow> AVP_UNKNOWN)"

text \<open>The cases of \<open>dm_add_avp\<close> other than an object.\<close>

definition add_leaf_avp ::
  "srv_env \<Rightarrow> dm_element \<Rightarrow> DM_VALUE \<Rightarrow> DM2_REQUEST \<Rightarrow> dmst \<Rightarrow> (DM_RESULT \<times> DM2_REQUEST \<times> dmst) option" where
  "add_leaf_avp se elem val req s = (let mem = se_mem se; v = VP_TRAVELPING in case el_type elem of
     T_ENUM \<Rightarrow> do {
       x \<leftarrow> DM_ENUM val;
       en \<leftarrow> u_enum elem;
       str \<leftarrow> dm_int2enum (Some en) (sint x);
       put_rc (dm_add_string mem req AVP_ENUM v str) s }
   | T_COUNTER \<Rightarrow> do { x \<leftarrow> DM_UINT val; put_rc (dm_add_uint32 mem req AVP_COUNTER v x) s }
   | T_INT \<Rightarrow> do { x \<leftarrow> DM_INT val; put_rc (dm_add_int32 mem req AVP_INT32 v (sint x)) s }
   | T_UINT \<Rightarrow> do { x \<leftarrow> DM_UINT val; put_rc (dm_add_uint32 mem req AVP_UINT32 v x) s }
   | T_INT64 \<Rightarrow> do { x \<leftarrow> DM_INT64 val; put_rc (dm_add_int64 mem req AVP_INT64 v (sint x)) s }
   | T_UINT64 \<Rightarrow> do { x \<leftarrow> DM_UINT64 val; put_rc (dm_add_uint64 mem req AVP_UINT64 v x) s }
   | T_STR \<Rightarrow> do {
       p \<leftarrow> DM_STRING val;
       x \<leftarrow> str_of s p;
       put_rc (dm_add_string mem req AVP_STRING v (case x of None \<Rightarrow> [] | Some y \<Rightarrow> y)) s }
   | T_BINARY \<Rightarrow> do {
       p \<leftarrow> DM_BINARY val;
       x \<leftarrow> bin_of s p;
       put_rc (case x of None \<Rightarrow> dm_add_raw mem req AVP_BINARY v (Some [0]) 0
                       | Some y \<Rightarrow> dm_add_raw mem req AVP_BINARY v (Some y) (length y)) s }
   | T_BASE64 \<Rightarrow> do {
       p \<leftarrow> DM_BINARY val;
       x \<leftarrow> bin_of s p;
       put_rc (case x of None \<Rightarrow> dm_add_raw mem req AVP_BINARY v (Some [0]) 0
                       | Some y \<Rightarrow> dm_add_raw mem req AVP_BINARY v (Some y) (length y)) s }
   | T_IPADDR4 \<Rightarrow> do {
       x \<leftarrow> rd32 (dv_v val);
       put_rc (dm_add_address mem req AVP_ADDRESS v (Some AF_INET) (le_bytes 4 (ucast x))) s }
   | T_IPADDR6 \<Rightarrow> do {
       x \<leftarrow> rd128 (dv_v val);
       put_rc (dm_add_address mem req AVP_ADDRESS v (Some AF_INET6) (le_bytes 16 x)) s }
   | T_BOOL \<Rightarrow> do { x \<leftarrow> DM_BOOL val; put_rc (dm_add_uint8 mem req AVP_BOOL v (ucast x)) s }
   | T_DATE \<Rightarrow> do { x \<leftarrow> DM_TIME val; put_rc (dm_add_time mem req AVP_DATE v (sint x)) s }
   | T_SELECTOR \<Rightarrow> do {
       p \<leftarrow> DM_SELECTOR val;
       x \<leftarrow> sel_of s p;
       name \<leftarrow> (case x of None \<Rightarrow> Some (Some []) | Some sel \<Rightarrow> dm_sel2name (se_dm se) sel MAX_PARAM_NAME_LEN);
       case name of
         None \<Rightarrow> Some (DM_INVALID_VALUE, req, s)
       | Some n \<Rightarrow> put_rc (dm_add_string mem req AVP_PATH v n) s }
   | T_TICKS \<Rightarrow> do {
       x \<leftarrow> DM_TICKS val;
       put_rc (if has (el_flags elem) F_DATETIME
               then dm_add_int64 mem req AVP_ABSTICKS v (sint (se_ticks2realtime se x))
               else dm_add_int64 mem req AVP_RELTICKS v (sint x)) s }
   | T_TOKEN \<Rightarrow> put_rc (dm_add_uint32 mem req AVP_TYPE v AVP_TABLE) s
   | _ \<Rightarrow> Some (DM_RC RC_ERR_INVALID_AVP_TYPE, req, s))"

text \<open>The walk calls \<open>CB_element\<close> for elements that are neither tables nor objects only.\<close>

definition dm_add_array_avp_cb :: "srv_env \<Rightarrow> DM2_REQUEST walk_cb" where
  "dm_add_array_avp_cb se type x elem val = (\<lambda>(req, s). case type of
     CB_object_end \<Rightarrow> do { (r, req) \<leftarrow> dm_finalize_group req; Some (r = RC_OK, req, s) }
   | CB_object_start \<Rightarrow> do {
       (r, req) \<leftarrow> dm_new_group (se_mem se) req AVP_ARRAY VP_TRAVELPING;
       Some (r = RC_OK, req, s) }
   | CB_element \<Rightarrow> do { (_, req, s) \<leftarrow> add_leaf_avp se elem val req s; Some (True, req, s) }
   | _ \<Rightarrow> Some (True, req, s))"

definition dm_add_array_avp ::
  "srv_env \<Rightarrow> dm_element \<Rightarrow> DM_VALUE \<Rightarrow> DM2_REQUEST \<Rightarrow> dmst \<Rightarrow> (DM_RESULT \<times> DM2_REQUEST \<times> dmst) option" where
  "dm_add_array_avp se elem val req s = do {
     (ok, req, s) \<leftarrow> dm_walk_object_cb (se_dm se) 16 (dm_add_array_avp_cb se) (- 1) elem val (req, s);
     Some (if ok then DM_OK else DM_RC RC_ERR_MISC, req, s) }"

definition dm_add_avp ::
  "srv_env \<Rightarrow> dm_element \<Rightarrow> dm_type \<Rightarrow> DM_VALUE \<Rightarrow> DM2_REQUEST \<Rightarrow> dmst \<Rightarrow> (DM_RESULT \<times> DM2_REQUEST \<times> dmst) option" where
  "dm_add_avp se elem st_type val req s =
     (if el_type elem = T_OBJECT
      then (if has (el_flags elem) F_ARRAY then dm_add_array_avp se elem val req s
            else if st_type = T_OBJECT then put_rc (dm_add_uint32 (se_mem se) req AVP_TYPE VP_TRAVELPING AVP_OBJECT) s
            else if st_type = T_INSTANCE then put_rc (dm_add_uint32 (se_mem se) req AVP_TYPE VP_TRAVELPING AVP_INSTANCE) s
            else Some (DM_RC RC_ERR_INVALID_AVP_TYPE, req, s))
      else add_leaf_avp se elem val req s)"

section \<open>Decoding\<close>

definition dmconfig_string2value ::
  "srv_env \<Rightarrow> u8 list \<Rightarrow> nat \<Rightarrow> dm_element \<Rightarrow> DM_VALUE \<Rightarrow> dmst \<Rightarrow> (DM_RESULT \<times> DM_VALUE \<times> dmst) option" where
  "dmconfig_string2value se str sz elem value s = do {
     dum \<leftarrow> strndup str sz;
     case malloc s of
       (None, s) \<Rightarrow> Some (DM_RC RC_ERR_ALLOC, value, s)
     | (Some _, s) \<Rightarrow>
         if el_type elem = T_BASE64 \<or> el_type elem = T_BINARY
         then (case malloc s of
             (None, s) \<Rightarrow> Some (DM_OOM, value, s)
           | (Some _, s) \<Rightarrow> dm_set_binary_value (Some (dm_from64 dum)) value s)
         else dm_string2value (se_dm se) (se_text se) (Some elem) (Some dum) False value s }"

text \<open>A copy of the text of the AVP; \<open>None\<close> when there is no memory for it.\<close>

definition avp_text :: "avp_out \<Rightarrow> dmst \<Rightarrow> (cstr option \<times> dmst) option" where
  "avp_text avp s = do {
     dum \<leftarrow> strndup (av_data avp) (av_len avp);
     case malloc s of (None, s) \<Rightarrow> Some (None, s) | (Some _, s) \<Rightarrow> Some (Some dum, s) }"

text \<open>A number of the AVP, if it has the code \<open>code\<close>.\<close>

definition avp_number ::
  "avp_out \<Rightarrow> u32 \<Rightarrow> (u8 list \<Rightarrow> 'w option) \<Rightarrow> (DM_VALUE \<Rightarrow> 'w \<Rightarrow> DM_VALUE) \<Rightarrow> dmst \<Rightarrow>
   (DM_RESULT \<times> DM_VALUE \<times> dmst) option" where
  "avp_number avp code get put s =
     (if av_code avp \<noteq> code then Some (DM_INVALID_TYPE, zero_value, s)
      else do { x \<leftarrow> get (av_data avp); Some (DM_OK, put zero_value x, s) })"

text \<open>
  An address of the family \<open>fam\<close>. When the AVP is too short, \<open>dm_get_address_avp\<close> returns 1 without having
  stored anything; the family is then read from a variable that was never set.
\<close>

definition avp_address :: "af \<Rightarrow> nat \<Rightarrow> avp_out \<Rightarrow> (u8 list \<Rightarrow> DM_VALUE) \<Rightarrow> dmst \<Rightarrow> (DM_RESULT \<times> DM_VALUE \<times> dmst) option" where
  "avp_address fam sz avp put s =
     (if av_code avp \<noteq> AVP_ADDRESS then Some (DM_INVALID_TYPE, zero_value, s)
      else do {
        (n, a) \<leftarrow> dm_get_address_avp sz (av_data avp) (av_len avp);
        if n = 0 then Some (DM_INVALID_VALUE, zero_value, s)
        else do {
          (f, b) \<leftarrow> a;
          if f \<noteq> fam then Some (DM_INVALID_VALUE, zero_value, s) else Some (DM_OK, put b, s) } })"

definition dmconfig_avp2value ::
  "srv_env \<Rightarrow> avp_out \<Rightarrow> dm_element option \<Rightarrow> dmst \<Rightarrow> (DM_RESULT \<times> DM_VALUE \<times> dmst) option" where
  "dmconfig_avp2value se avp elem s = (case elem of
     None \<Rightarrow> Some (DM_VALUE_NOT_FOUND, zero_value, s)
   | Some e \<Rightarrow>
       if av_code avp = AVP_UNKNOWN then dmconfig_string2value se (av_data avp) (av_len avp) e zero_value s
       else (case el_type e of
         T_STR \<Rightarrow>
           if av_code avp \<noteq> AVP_STRING then Some (DM_INVALID_TYPE, zero_value, s)
           else do {
             (t, s) \<leftarrow> avp_text avp s;
             case t of None \<Rightarrow> Some (DM_OOM, zero_value, s) | Some dum \<Rightarrow> dm_set_string_value (Some dum) zero_value s }
       | T_BINARY \<Rightarrow>
           if av_code avp \<noteq> AVP_BINARY then Some (DM_INVALID_TYPE, zero_value, s)
           else do { b \<leftarrow> read_at 0 (av_len avp) (av_data avp); dm_set_binary_data (Some b) zero_value s }
       | T_BASE64 \<Rightarrow>
           if av_code avp \<noteq> AVP_BINARY then Some (DM_INVALID_TYPE, zero_value, s)
           else do { b \<leftarrow> read_at 0 (av_len avp) (av_data avp); dm_set_binary_data (Some b) zero_value s }
       | T_SELECTOR \<Rightarrow>
           if av_code avp \<noteq> AVP_PATH then Some (DM_INVALID_TYPE, zero_value, s)
           else do {
             (t, s) \<leftarrow> avp_text avp s;
             case t of
               None \<Rightarrow> Some (DM_OOM, zero_value, s)
             | Some dum \<Rightarrow> do {
                 sel \<leftarrow> (if dum \<noteq> [] then dm_name2sel (se_dm se) (Some dum) else Some (Some no_selector));
                 case sel of
                   None \<Rightarrow> Some (DM_INVALID_VALUE, zero_value, s)
                 | Some sl \<Rightarrow> dm_set_selector_value (Some sl) zero_value s } }
       | T_IPADDR4 \<Rightarrow> avp_address AF_INET 4 avp (\<lambda>b. set_DM_IP4 zero_value (ucast (le_word b))) s
       | T_IPADDR6 \<Rightarrow> avp_address AF_INET6 16 avp (\<lambda>b. set_DM_IP6 zero_value (le_word b)) s
       | T_ENUM \<Rightarrow>
           if av_code avp = AVP_ENUM
           then do {
             (t, s) \<leftarrow> avp_text avp s;
             case t of
               None \<Rightarrow> Some (DM_OOM, zero_value, s)
             | Some dum \<Rightarrow> do {
                 en \<leftarrow> u_enum e;
                 i \<leftarrow> dm_enum2int (Some en) dum;
                 Some (if i = - 1 then (DM_INVALID_VALUE, zero_value, s)
                       else (DM_OK, set_DM_ENUM zero_value (word_of_int i), s)) } }
           else if av_code avp = AVP_ENUMID
           then do {
             i \<leftarrow> dm_get_int32_avp (av_data avp);
             en \<leftarrow> u_enum e;
             Some (if i < 0 \<or> i \<ge> int (en_cnt en) then (DM_INVALID_VALUE, zero_value, s)
                   else (DM_OK, set_DM_ENUM zero_value (word_of_int i), s)) }
           else Some (DM_INVALID_TYPE, zero_value, s)
       | T_INT \<Rightarrow> avp_number avp AVP_INT32 dm_get_int32_avp (\<lambda>v x. set_DM_INT v (word_of_int x)) s
       | T_UINT \<Rightarrow> avp_number avp AVP_UINT32 dm_get_uint32_avp set_DM_UINT s
       | T_INT64 \<Rightarrow> avp_number avp AVP_INT64 dm_get_int64_avp (\<lambda>v x. set_DM_INT64 v (word_of_int x)) s
       | T_UINT64 \<Rightarrow> avp_number avp AVP_UINT64 dm_get_uint64_avp set_DM_UINT64 s
       | T_BOOL \<Rightarrow> avp_number avp AVP_BOOL dm_get_uint8_avp (\<lambda>v x. set_DM_BOOL v (ucast x)) s
       | T_DATE \<Rightarrow> avp_number avp AVP_DATE dm_get_time_avp (\<lambda>v x. set_DM_TIME v (word_of_int x)) s
       | T_TICKS \<Rightarrow>
           if av_code avp = AVP_ABSTICKS \<or> av_code avp = AVP_RELTICKS
           then do {
             x \<leftarrow> dm_get_int64_avp (av_data avp);
             Some (DM_OK, set_DM_TICKS zero_value (word_of_int x), s) }
           else Some (DM_INVALID_TYPE, zero_value, s)
       | _ \<Rightarrow> Some (DM_INVALID_TYPE, zero_value, s)))"

end
