(* ===== verification/Dm_Callbacks.thy ===== *)
theory Dm_Callbacks
  imports Dm_Avp
begin

text \<open>
  The callbacks of \<^verbatim>\<open>mand/dm_dmconfig.c\<close> that the requests of a session hand to the store: setting a value
  or an array, reading a value, listing a subtree, listing the names of an enumeration, and
  turning queued changes into a message.
\<close>

section \<open>Setting\<close>

text \<open>
  A new row of the array, with the value that \<open>conv\<close> computes from the old one in its first column; the
  result and the number of the row.
\<close>

definition add_array_row ::
  "srv_env \<Rightarrow> dm_selector \<Rightarrow> dm_element \<Rightarrow> dm_id \<Rightarrow>
   (dm_element \<Rightarrow> DM_VALUE \<Rightarrow> dmst \<Rightarrow> (DM_RESULT \<times> DM_VALUE \<times> dmst) option) \<Rightarrow> dmst \<Rightarrow> (DM_RESULT \<times> dm_id \<times> dmst) option" where
  "add_array_row se sel elem x conv s = do {
     (nd, x, s) \<leftarrow> dm_add_instance_by_selector (se_dm se) sel x s;
     case nd of
       None \<Rightarrow> Some (DM_RC RC_ERR_ALLOC, x, s)
     | Some a \<Rightarrow> do {
         n \<leftarrow> nodes s a;
         t \<leftarrow> DM_TABLE (in_table n);
         r \<leftarrow> dm_get_value_ref_by_index t 0 s;
         kt \<leftarrow> u_table elem;
         k \<leftarrow> kt;
         e \<leftarrow> nth_opt (tab_elems k) 0;
         v \<leftarrow> getv s r;
         (res, v, s) \<leftarrow> conv e v s;
         s \<leftarrow> putv s r v;
         if res \<noteq> DM_OK then Some (res, x, s)
         else do {
           s \<leftarrow> or_flags s r DV_UPDATED;
           s \<leftarrow> update_instance_node_index a s;
           Some (DM_OK, x, s) } } }"

text \<open>
  The comma-separated text at \<open>str\<close>. The comma is skipped in the text but not counted in \<open>rem\<close>, so that from the
  second value on the search goes past the end of the text.
\<close>

partial_function (option) array_string_loop ::
  "srv_env \<Rightarrow> dm_selector \<Rightarrow> dm_element \<Rightarrow> u8 list \<Rightarrow> nat \<Rightarrow> dm_id \<Rightarrow> dmst \<Rightarrow> (DM_RESULT \<times> dmst) option" where
  "array_string_loop se sel elem str rem x s =
     (if rem = 0 then Some (DM_OK, s)
      else do {
        let part = takeWhile (\<lambda>c. c \<noteq> 44) (take rem str);
        let comma = (length part < rem \<and> length part < length str);
        oassert (comma \<or> rem \<le> length str);
        let s_len = (if comma then length part else rem);
        (res, x, s) \<leftarrow> add_array_row se sel elem x (\<lambda>e v s. dmconfig_string2value se str s_len e v s) s;
        if res \<noteq> DM_OK then Some (res, s)
        else array_string_loop se sel elem (drop (s_len + 1) str) (rem - s_len) (x + 1) s })"

declare array_string_loop.simps [code]

partial_function (option) array_list_loop ::
  "srv_env \<Rightarrow> dm_selector \<Rightarrow> dm_element \<Rightarrow> DM2_AVPGRP \<Rightarrow> dm_id \<Rightarrow> dmst \<Rightarrow> (DM_RESULT \<times> dmst) option" where
  "array_list_loop se sel elem container x s =
     (if dm_expect_group_end container = RC_OK then Some (DM_OK, s)
      else do {
        (r, a, container) \<leftarrow> dm_expect_value container;
        case a of
          None \<Rightarrow> Some (as_result r, s)
        | Some a \<Rightarrow> do {
            (res, x, s) \<leftarrow> add_array_row se sel elem x (\<lambda>e v s. dmconfig_avp2value se a (Some e) s) s;
            if res \<noteq> DM_OK then Some (res, s)
            else array_list_loop se sel elem container (x + 1) s } })"

declare array_list_loop.simps [code]

definition dmconfig_set_array_cb ::
  "srv_env \<Rightarrow> avp_out \<Rightarrow> dm_selector \<Rightarrow> dm_element \<Rightarrow> vref \<Rightarrow> dmst \<Rightarrow> (DM_RESULT \<times> dmst) option" where
  "dmconfig_set_array_cb se avp sel elem st s = do {
     v \<leftarrow> getv s st;
     if el_type elem \<noteq> T_OBJECT \<or> dv_type v \<noteq> T_OBJECT \<or> (av_code avp \<noteq> AVP_UNKNOWN \<and> av_code avp \<noteq> AVP_ARRAY)
     then Some (DM_RC RC_ERR_INVALID_AVP_TYPE, s)
     else do {
       nm \<leftarrow> dm_sel2name (se_dm se) sel MAX_PARAM_NAME_LEN;
       if nm = None then Some (DM_RC RC_ERR_ALLOC, s)
       else do {
         (ok, s) \<leftarrow> dm_del_table_by_selector (se_dm se) sel s;
         if \<not> ok then Some (DM_RC RC_ERR_MISC, s)
         else if av_code avp = AVP_UNKNOWN
         then array_string_loop se sel elem (av_data avp) (av_len avp) 1 s
         else array_list_loop se sel elem (dm_init_avpgrp (av_data avp) (av_len avp)) 1 s } } }"

text \<open>\<open>flags\<close> and \<open>slot\<close> are those of the session.\<close>

definition dmconfig_set_cb ::
  "srv_env \<Rightarrow> u32 \<Rightarrow> int \<Rightarrow> avp_out \<Rightarrow> dm_selector \<Rightarrow> dm_element option \<Rightarrow> st_base \<Rightarrow> vref option \<Rightarrow> unit \<times> dmst \<Rightarrow>
   (DM_RESULT \<times> unit \<times> dmst) option" where
  "dmconfig_set_cb se flags slot avp sel elem base st = (\<lambda>(u, s). do {
     e \<leftarrow> elem;
     if has (el_flags e) F_ARRAY
     then do {
       st \<leftarrow> st;
       (r, s) \<leftarrow> dmconfig_set_array_cb se avp sel e st s;
       Some (r, u, s) }
     else do {
       (r, new_value, s) \<leftarrow> dmconfig_avp2value se avp elem s;
       if r \<noteq> DM_OK then Some (r, u, s)
       else if flags AND CMD_FLAG_CONFIGURE \<noteq> 0
       then do {
         st \<leftarrow> st;
         s \<leftarrow> or_flags s st DV_UPDATE_PENDING;
         p \<leftarrow> (case base of SB_tab p \<Rightarrow> Some p | SB_inst _ \<Rightarrow> None);
         s \<leftarrow> cache_add sel (Some []) e p st new_value 0 None s;
         Some (DM_OK, u, s) }
       else do {
         (r, s) \<leftarrow> dm_overwrite_any_value_by_selector (se_dm se) sel (el_type e)
                    (new_value\<lparr>dv_flags := dv_flags new_value OR DV_UPDATED\<rparr>) (if slot \<noteq> 0 then slot else - 1) s;
         Some (r, u, s) } } })"

section \<open>Reading\<close>

definition dmconfig_get_cb ::
  "srv_env \<Rightarrow> dm_selector \<Rightarrow> dm_element option \<Rightarrow> dm_type \<Rightarrow> DM_VALUE \<Rightarrow> DM2_REQUEST \<times> dmst \<Rightarrow>
   (DM_RESULT \<times> DM2_REQUEST \<times> dmst) option" where
  "dmconfig_get_cb se sb elem st_type val = (\<lambda>(req, s). case elem of
     None \<Rightarrow> Some (DM_RC RC_ERR_VALUE_NOT_FOUND, req, s)
   | Some e \<Rightarrow> dm_add_avp se e st_type val req s)"

record list_ctx =
  lc_req :: DM2_REQUEST
  lc_level :: int
  lc_max_level :: int

text \<open>Calls of the encoder on the request of the context.\<close>

definition list_calls ::
  "(DM2_REQUEST \<Rightarrow> (rc \<times> DM2_REQUEST) option) list \<Rightarrow> list_ctx \<Rightarrow> (bool \<times> list_ctx) option" where
  "list_calls fs ctx = do { (r, req) \<leftarrow> calls fs (lc_req ctx); Some (r = RC_OK, ctx\<lparr>lc_req := req\<rparr>) }"

definition list_open ::
  "(DM2_REQUEST \<Rightarrow> (rc \<times> DM2_REQUEST) option) list \<Rightarrow> list_ctx \<Rightarrow> dmst \<Rightarrow> (bool \<times> list_ctx \<times> dmst) option" where
  "list_open fs ctx s = do {
     (ok, ctx) \<leftarrow> list_calls fs ctx;
     Some (ok, if ok then ctx\<lparr>lc_level := lc_level ctx + 1\<rparr> else ctx, s) }"

definition list_close :: "bool \<Rightarrow> list_ctx \<Rightarrow> dmst \<Rightarrow> (bool \<times> list_ctx \<times> dmst) option" where
  "list_close fin ctx s = do {
     (ok, ctx) \<leftarrow> (if lc_level ctx \<noteq> 0 \<and> fin then list_calls [dm_finalize_group] ctx else Some (True, ctx));
     Some (ok, if ok then ctx\<lparr>lc_level := lc_level ctx - 1\<rparr> else ctx, s) }"

definition dmconfig_list_array_cb :: "srv_env \<Rightarrow> list_ctx walk_cb" where
  "dmconfig_list_array_cb se type x elem val = (\<lambda>(ctx, s). let mem = se_mem se; v = VP_TRAVELPING in case type of
     CB_object_end \<Rightarrow> list_close (lc_level ctx < lc_max_level ctx) ctx s
   | CB_object_start \<Rightarrow>
       list_open [\<lambda>r. dm_new_group mem r AVP_ARRAY v, \<lambda>r. dm_add_string mem r AVP_NAME v (el_key elem),
                  \<lambda>r. dm_add_uint32 mem r AVP_TYPE v (avp_type_map (el_type elem))] ctx s
   | CB_element \<Rightarrow> do {
       (_, req, s) \<leftarrow> dm_add_avp se elem T_ELEMENT val (lc_req ctx) s;
       Some (True, ctx\<lparr>lc_req := req\<rparr>, s) }
   | _ \<Rightarrow> Some (True, ctx, s))"

definition dmconfig_list_cb :: "srv_env \<Rightarrow> list_ctx walk_cb" where
  "dmconfig_list_cb se type x elem val = (\<lambda>(ctx, s). let mem = se_mem se; v = VP_TRAVELPING in
     if has (el_flags elem) F_ARRAY then dmconfig_list_array_cb se type x elem val (ctx, s)
     else case type of
       CB_object_instance_end \<Rightarrow> list_close (lc_level ctx \<le> lc_max_level ctx) ctx s
     | CB_object_end \<Rightarrow> list_close (lc_level ctx \<le> lc_max_level ctx) ctx s
     | CB_table_end \<Rightarrow> list_close (lc_level ctx \<le> lc_max_level ctx) ctx s
     | CB_object_start \<Rightarrow>
         list_open [\<lambda>r. dm_new_group mem r AVP_TABLE v, \<lambda>r. dm_add_string mem r AVP_NAME v (el_key elem)] ctx s
     | CB_object_instance_start \<Rightarrow>
         list_open [\<lambda>r. dm_new_group mem r AVP_INSTANCE v, \<lambda>r. dm_add_uint16 mem r AVP_NAME v x] ctx s
     | CB_table_start \<Rightarrow>
         list_open [\<lambda>r. dm_new_group mem r AVP_OBJECT v, \<lambda>r. dm_add_string mem r AVP_NAME v (el_key elem)] ctx s
     | CB_element \<Rightarrow> do {
         (ok, ctx) \<leftarrow> list_calls
           [\<lambda>r. dm_new_group mem r AVP_ELEMENT v, \<lambda>r. dm_add_string mem r AVP_NAME v (el_key elem),
            \<lambda>r. dm_add_uint32 mem r AVP_TYPE v (avp_type_map (el_type elem))] ctx;
         if \<not> ok then Some (False, ctx, s)
         else do {
           (_, req, s) \<leftarrow> dm_add_avp se elem T_ELEMENT val (lc_req ctx) s;
           (ok, ctx) \<leftarrow> list_calls [dm_finalize_group] (ctx\<lparr>lc_req := req\<rparr>);
           Some (ok, ctx, s) } })"

text \<open>The \<open>n\<close> strings at \<open>d\<close>, one after the other.\<close>

fun add_enum_names :: "(nat \<Rightarrow> bool) \<Rightarrow> nat \<Rightarrow> u8 list \<Rightarrow> DM2_REQUEST \<Rightarrow> (DM_RESULT \<times> DM2_REQUEST) option" where
  "add_enum_names mem 0 d req = Some (DM_OK, req)"
| "add_enum_names mem (Suc n) d req = do {
     str \<leftarrow> cstr_at d;
     (r, req) \<leftarrow> dm_add_string mem req AVP_STRING VP_TRAVELPING str;
     if r \<noteq> RC_OK then Some (DM_OOM, req) else add_enum_names mem n (drop (length str + 1) d) req }"

definition dmconfig_retrieve_enums_cb ::
  "srv_env \<Rightarrow> dm_selector \<Rightarrow> dm_element option \<Rightarrow> dm_type \<Rightarrow> DM_VALUE \<Rightarrow> DM2_REQUEST \<times> dmst \<Rightarrow>
   (DM_RESULT \<times> DM2_REQUEST \<times> dmst) option" where
  "dmconfig_retrieve_enums_cb se sb elem st_type val = (\<lambda>(req, s). case elem of
     None \<Rightarrow> Some (DM_VALUE_NOT_FOUND, req, s)
   | Some e \<Rightarrow> do {
       en \<leftarrow> u_enum e;
       (r, req) \<leftarrow> add_enum_names (se_mem se) (en_cnt en) (en_data en) req;
       Some (r, req, s) })"

section \<open>Queued changes\<close>

text \<open>The AVPs of one change, inside of its group.\<close>

definition notify_event_avps ::
  "srv_env \<Rightarrow> dmst \<Rightarrow> notify_item \<Rightarrow> cstr \<Rightarrow> DM2_REQUEST \<Rightarrow> (DM_RESULT \<times> DM2_REQUEST) option" where
  "notify_event_avps se s item nm req = (case ni_type item of
     NOTIFY_ADD \<Rightarrow> do {
       (r, req) \<leftarrow> calls [\<lambda>q. dm_add_uint32 (se_mem se) q AVP_NOTIFY_TYPE VP_TRAVELPING NOTIFY_INSTANCE_CREATED,
                         \<lambda>q. dm_add_string (se_mem se) q AVP_PATH VP_TRAVELPING nm] req;
       Some (as_result r, req) }
   | NOTIFY_DEL \<Rightarrow> do {
       (r, req) \<leftarrow> calls [\<lambda>q. dm_add_uint32 (se_mem se) q AVP_NOTIFY_TYPE VP_TRAVELPING NOTIFY_INSTANCE_DELETED,
                         \<lambda>q. dm_add_string (se_mem se) q AVP_PATH VP_TRAVELPING nm] req;
       Some (as_result r, req) }
   | NOTIFY_CHANGE \<Rightarrow> do {
       (t, elem) \<leftarrow> dm_get_element_by_selector (se_dm se) (ni_sb item);
       if t = T_NONE then Some (DM_RC RC_ERR_MISC, req)
       else do {
         e \<leftarrow> elem;
         (r, req) \<leftarrow> calls [\<lambda>q. dm_add_uint32 (se_mem se) q AVP_NOTIFY_TYPE VP_TRAVELPING NOTIFY_PARAMETER_CHANGED,
                           \<lambda>q. dm_add_string (se_mem se) q AVP_PATH VP_TRAVELPING nm,
                           \<lambda>q. dm_add_uint32 (se_mem se) q AVP_TYPE VP_TRAVELPING (avp_type_map (el_type e))] req;
         if r \<noteq> RC_OK then Some (as_result r, req)
         else do {
           (r, req, _) \<leftarrow> dm_add_avp se e T_ELEMENT (ni_value item) req s;
           Some (r, req) } } })"

text \<open>In the call that opens the group, the outcome of the comparison is stored as the code.\<close>

definition build_notify_event ::
  "srv_env \<Rightarrow> dmst \<Rightarrow> notify_item \<Rightarrow> DM2_REQUEST \<Rightarrow> (DM_RESULT \<times> DM2_REQUEST) option" where
  "build_notify_event se s item req = do {
     name \<leftarrow> dm_sel2name (se_dm se) (ni_sb item) MAX_PARAM_NAME_LEN;
     case name of
       None \<Rightarrow> Some (DM_RC RC_ERR_ALLOC, req)
     | Some nm \<Rightarrow> do {
         (r, req) \<leftarrow> dm_add_object (se_mem se) req;
         if r \<noteq> RC_OK then Some (DM_ERROR, req)
         else do {
           (r, req) \<leftarrow> notify_event_avps se s item nm req;
           if r \<noteq> DM_OK then Some (r, req)
           else do { (r, req) \<leftarrow> dm_finalize_group req; Some (as_result r, req) } } } }"

text \<open>The items of the queue in order; those of the level are sent and removed, up to the first error.\<close>

fun build_notify_loop ::
  "srv_env \<Rightarrow> u32 \<Rightarrow> dmst \<Rightarrow> notify_item list \<Rightarrow> DM2_REQUEST \<Rightarrow> (DM_RESULT \<times> notify_item list \<times> DM2_REQUEST) option" where
  "build_notify_loop se level s [] req = Some (DM_OK, [], req)"
| "build_notify_loop se level s (item # items) req =
     (if ni_level item \<noteq> level
      then do { (r, q, req) \<leftarrow> build_notify_loop se level s items req; Some (r, item # q, req) }
      else do {
        (r, req) \<leftarrow> build_notify_event se s item req;
        if r \<noteq> DM_OK then Some (r, item # items, req)
        else build_notify_loop se level s items req })"

definition build_notify_events ::
  "srv_env \<Rightarrow> notify_item list \<Rightarrow> u32 \<Rightarrow> dmst \<Rightarrow> DM2_REQUEST \<Rightarrow> (DM_RESULT \<times> notify_item list \<times> DM2_REQUEST) option" where
  "build_notify_events se queue level s req = build_notify_loop se level s queue req"

end
