(* ===== verification/Dm_Server.thy ===== *)
theory Dm_Server
  imports Dm_Callbacks
begin

text \<open>
  Sessions and requests, the second part of \<^verbatim>\<open>mand/dm_dmconfig.c\<close>. The server keeps a list of
  connections, the identifier of the one session that may have a configuration
  in progress, and the counter from which sessions take their identifiers. A request handler
  gets the connection it came from, and returns a code, the answer it has written, and the new server.

  A context is named by its address. \<open>sv_sent\<close> collects the messages that the server has queued for
  its clients, in order. The libev timer of a session is a flag: whether it runs; the clock
  is not modelled, a running timer may expire at any time. Sockets are not modelled, nor is the
  identification of messages by their sender.
\<close>

section \<open>State\<close>

record sockContext =
  sk_id :: u32
  sk_flags :: u32
  sk_slot :: int
  sk_role :: "cstr option"
  sk_timer :: bool

record server =
  sv_dm :: dmst
  sv_socks :: "(nat \<times> sockContext) list"
  sv_cfg :: u32
  sv_counter :: u32
  sv_sent :: "(nat \<times> u8 list) list"

definition get_ctx :: "server \<Rightarrow> nat \<Rightarrow> sockContext option" where
  "get_ctx sv c = map_of (sv_socks sv) c"

definition upd_ctx :: "nat \<Rightarrow> (sockContext \<Rightarrow> sockContext) \<Rightarrow> server \<Rightarrow> server" where
  "upd_ctx c f sv = sv\<lparr>sv_socks := map (\<lambda>(a, x). (a, if a = c then f x else x)) (sv_socks sv)\<rparr>"

definition sizeof_DM2_REQUEST :: nat where "sizeof_DM2_REQUEST = 272"
definition CMD_CLIENT_ACTIVE_NOTIFY :: u32 where "CMD_CLIENT_ACTIVE_NOTIFY = 1000"
definition CMD_CLIENT_EVENT_BROADCAST :: u32 where "CMD_CLIENT_EVENT_BROADCAST = 1001"
definition AVP_EVENT_TYPE :: u32 where "AVP_EVENT_TYPE = 1021"

section \<open>Messages to the clients\<close>

text \<open>
  \<open>dm_enqueue\<close> puts a packet at the end of the queue of a connection. The identifiers that it writes into
  a packet that is not a reply are left out.
\<close>

definition sizeof_DM2_REQUEST_INFO :: nat where "sizeof_DM2_REQUEST_INFO = 64"

definition dm_enqueue ::
  "srv_env \<Rightarrow> nat \<Rightarrow> DM2_REQUEST \<Rightarrow> (nat \<times> u8 list) list \<Rightarrow> (rc \<times> (nat \<times> u8 list) list) option" where
  "dm_enqueue se c req sent = do {
     pkt \<leftarrow> rq_packet req;
     Some (if \<not> se_mem se sizeof_DM2_REQUEST_INFO then (RC_ERR_ALLOC, sent) else (RC_OK, sent @ [(c, pkt)])) }"

definition dmconfig_notify_cb ::
  "srv_env \<Rightarrow> (nat \<times> sockContext) list \<Rightarrow> (nat \<times> u8 list) list session_cb" where
  "dmconfig_notify_cb se socks data queue s sent = do {
     _ \<leftarrow> map_of socks data;
     q \<leftarrow> dm_new_request (se_mem se) (se_mem se sizeof_DM2_REQUEST) CMD_CLIENT_ACTIVE_NOTIFY CMD_FLAG_REQUEST 0 0;
     case q of
       None \<Rightarrow> Some (queue, sent)
     | Some req \<Rightarrow> do {
         (r, queue, req) \<leftarrow> build_notify_events se queue ACTIVE_NOTIFY s req;
         if r \<noteq> DM_OK then Some (queue, sent)
         else do {
           (r, req) \<leftarrow> dm_finalize_packet req;
           if r \<noteq> RC_OK then Some (queue, sent)
           else do { (_, sent) \<leftarrow> dm_enqueue se data req sent; Some (queue, sent) } } } }"

definition rpc_event_broadcast ::
  "srv_env \<Rightarrow> nat \<Rightarrow> cstr \<Rightarrow> u32 \<Rightarrow> (nat \<times> u8 list) list \<Rightarrow> (rc \<times> (nat \<times> u8 list) list) option" where
  "rpc_event_broadcast se c nm type sent = do {
     q \<leftarrow> dm_new_request (se_mem se) (se_mem se sizeof_DM2_REQUEST) CMD_CLIENT_EVENT_BROADCAST CMD_FLAG_REQUEST 0 0;
     case q of
       None \<Rightarrow> Some (RC_ERR_ALLOC, sent)
     | Some req \<Rightarrow> do {
         (r, req) \<leftarrow> calls [\<lambda>q. dm_add_string (se_mem se) q AVP_PATH VP_TRAVELPING nm,
                           \<lambda>q. dm_add_uint32 (se_mem se) q AVP_EVENT_TYPE VP_TRAVELPING type,
                           dm_finalize_packet] req;
         if r \<noteq> RC_OK then Some (r, sent)
         else dm_enqueue se c req sent } }"

fun action_type_number :: "dm_action_type \<Rightarrow> u32" where
  "action_type_number DM_ADD = 0"
| "action_type_number DM_CHANGE = 1"
| "action_type_number DM_DEL = 2"

definition dm_event_broadcast ::
  "srv_env \<Rightarrow> (nat \<times> sockContext) list \<Rightarrow> (nat \<times> u8 list) list bcast" where
  "dm_event_broadcast se socks sel type = (\<lambda>(sent, s). do {
     name \<leftarrow> dm_sel2name (se_dm se) sel MAX_PARAM_NAME_LEN;
     case name of
       None \<Rightarrow> Some (sent, s)
     | Some nm \<Rightarrow> do {
         sent \<leftarrow> ofold (\<lambda>(c, _) sent. do {
             (_, sent) \<leftarrow> rpc_event_broadcast se c nm (action_type_number type) sent;
             Some sent }) socks sent;
         Some (sent, s) } })"

text \<open>The end of a change of the running configuration: actions and notifications.\<close>

definition run_actions :: "srv_env \<Rightarrow> server \<Rightarrow> server option" where
  "run_actions se sv = do {
     (sent, s) \<leftarrow> exec_actions (se_dm se) (dm_event_broadcast se (sv_socks sv)) (sv_sent sv, sv_dm sv);
     (sent, s) \<leftarrow> exec_pending_notifications (rb_root (se_dm se)) (dmconfig_notify_cb se (sv_socks sv)) (sent, s);
     Some (sv\<lparr>sv_sent := sent, sv_dm := s\<rparr>) }"

definition run_actions_pre :: "srv_env \<Rightarrow> server \<Rightarrow> server option" where
  "run_actions_pre se sv = do {
     (sent, s) \<leftarrow> exec_actions_pre (se_dm se) (sv_sent sv, sv_dm sv);
     Some (sv\<lparr>sv_sent := sent, sv_dm := s\<rparr>) }"

section \<open>Connections\<close>

definition end_session :: "srv_env \<Rightarrow> nat \<Rightarrow> server \<Rightarrow> server option" where
  "end_session se c sv = do {
     ctx \<leftarrow> get_ctx sv c;
     dm \<leftarrow> (if sk_slot ctx \<noteq> 0 then free_slot (se_dm se) (sk_slot ctx) (sv_dm sv) else Some (sv_dm sv));
     let sv = sv\<lparr>sv_dm := dm\<rparr>;
     sv \<leftarrow> (if sv_cfg sv = sk_id ctx
           then do { dm \<leftarrow> cache_reset (se_dm se) (sv_dm sv); Some (sv\<lparr>sv_cfg := 0, sv_dm := dm\<rparr>) }
           else Some sv);
     let sv = sv\<lparr>sv_socks := filter (\<lambda>(a, _). a \<noteq> c) (sv_socks sv)\<rparr>;
     sv \<leftarrow> run_actions_pre se sv;
     run_actions se sv }"

definition shutdown_session :: "srv_env \<Rightarrow> nat \<Rightarrow> server \<Rightarrow> server option" where
  "shutdown_session se c sv = end_session se c sv"

definition sessionTimeoutEvent :: "srv_env \<Rightarrow> nat \<Rightarrow> server \<Rightarrow> server option" where
  "sessionTimeoutEvent se c sv = shutdown_session se c sv"

definition new_ctx :: sockContext where
  "new_ctx = \<lparr>sk_id = 0, sk_flags = 0, sk_slot = 0, sk_role = None, sk_timer = False\<rparr>"

text \<open>The callback of the socket: \<open>c\<close> is the new context, or the one of the socket if it has one.\<close>

definition accept_cb :: "srv_env \<Rightarrow> bool \<Rightarrow> bool \<Rightarrow> nat \<Rightarrow> server \<Rightarrow> (rc \<times> server) option" where
  "accept_cb se accepted ok c sv =
     (if \<not> accepted then do { sv \<leftarrow> end_session se c sv; Some (RC_OK, sv) }
      else if \<not> ok then Some (RC_ERR_ALLOC, sv)
      else Some (RC_OK, sv\<lparr>sv_socks := sv_socks sv @ [(c, new_ctx)]\<rparr>))"

definition initial_server :: "dmst \<Rightarrow> server" where
  "initial_server s = \<lparr>sv_dm = s, sv_socks = [], sv_cfg = 0, sv_counter = 1, sv_sent = []\<rparr>"

section \<open>Sessions\<close>

definition rpc_startsession :: "nat \<Rightarrow> u32 \<Rightarrow> int \<Rightarrow> server \<Rightarrow> (DM_RESULT \<times> server) option" where
  "rpc_startsession c flags timeout sv = do {
     ctx \<leftarrow> get_ctx sv c;
     if sk_id ctx \<noteq> 0 then Some (DM_RC RC_ERR_INVALID_SESSIONID, sv)
     else if flags AND CMD_FLAG_CONFIGURE \<noteq> 0 \<and> sv_cfg sv \<noteq> 0 then Some (DM_RC RC_ERR_CANNOT_OPEN_CFGSESSION, sv)
     else do {
       let sv = (if flags AND CMD_FLAG_CONFIGURE \<noteq> 0 then sv\<lparr>sv_cfg := sv_counter sv\<rparr> else sv);
       let sv = upd_ctx c (\<lambda>x. x\<lparr>sk_id := sv_counter sv, sk_flags := flags\<rparr>) sv;
       let n = sv_counter sv + 1;
       let sv = sv\<lparr>sv_counter := (if n = 0 then n + 1 else n)\<rparr>;
       Some (DM_OK, if timeout > 0 then upd_ctx c (\<lambda>x. x\<lparr>sk_timer := True\<rparr>) sv else sv) } }"

definition rpc_switchsession :: "srv_env \<Rightarrow> nat \<Rightarrow> u32 \<Rightarrow> int \<Rightarrow> server \<Rightarrow> (DM_RESULT \<times> server) option" where
  "rpc_switchsession se c flags timeout sv = do {
     ctx \<leftarrow> get_ctx sv c;
     if sk_id ctx = 0 then Some (DM_RC RC_ERR_INVALID_SESSIONID, sv)
     else if flags AND CMD_FLAG_CONFIGURE \<noteq> 0 \<and> sv_cfg sv \<noteq> 0 \<and> sv_cfg sv \<noteq> sk_id ctx
     then Some (DM_RC RC_ERR_CANNOT_OPEN_CFGSESSION, sv)
     else do {
       sv \<leftarrow> (if flags AND CMD_FLAG_CONFIGURE \<noteq> 0 then Some (sv\<lparr>sv_cfg := sk_id ctx\<rparr>)
             else if sv_cfg sv = sk_id ctx
             then do { dm \<leftarrow> cache_reset (se_dm se) (sv_dm sv); Some (sv\<lparr>sv_cfg := 0, sv_dm := dm\<rparr>) }
             else Some sv);
       let sv = upd_ctx c (\<lambda>x. x\<lparr>sk_flags := flags\<rparr>) sv;
       Some (DM_OK, if timeout > 0 then upd_ctx c (\<lambda>x. x\<lparr>sk_timer := True\<rparr>) sv else sv) } }"

definition rpc_endsession :: "srv_env \<Rightarrow> nat \<Rightarrow> server \<Rightarrow> (DM_RESULT \<times> server) option" where
  "rpc_endsession se c sv = do { sv \<leftarrow> shutdown_session se c sv; Some (DM_OK, sv) }"

definition rpc_sessioninfo :: "srv_env \<Rightarrow> nat \<Rightarrow> DM2_REQUEST \<Rightarrow> server \<Rightarrow> (DM_RESULT \<times> DM2_REQUEST \<times> server) option" where
  "rpc_sessioninfo se c answer sv = do {
     ctx \<leftarrow> get_ctx sv c;
     (r, answer) \<leftarrow> dm_add_uint32 (se_mem se) answer AVP_UINT32 VP_TRAVELPING (sk_flags ctx);
     Some (as_result r, answer, sv) }"

definition rpc_cfgsessioninfo :: "srv_env \<Rightarrow> DM2_REQUEST \<Rightarrow> server \<Rightarrow> (DM_RESULT \<times> DM2_REQUEST \<times> server) option" where
  "rpc_cfgsessioninfo se answer sv = (case List.find (\<lambda>(_, x). sk_id x = sv_cfg sv) (sv_socks sv) of
     None \<Rightarrow> Some (DM_RC RC_ERR_INVALID_SESSIONID, answer, sv)
   | Some (_, x) \<Rightarrow> do {
       (r, answer) \<leftarrow> calls [\<lambda>q. dm_add_uint32 (se_mem se) q AVP_SESSIONID VP_TRAVELPING (sv_cfg sv),
                            \<lambda>q. dm_add_uint32 (se_mem se) q AVP_UINT32 VP_TRAVELPING (sk_flags x)] answer;
       Some (as_result r, answer, sv) })"

definition find_role :: "cstr \<Rightarrow> server \<Rightarrow> (nat \<times> sockContext) option" where
  "find_role role sv = List.find (\<lambda>(_, x). sk_role x = Some role) (sv_socks sv)"

definition rpc_register_role :: "srv_env \<Rightarrow> nat \<Rightarrow> cstr \<Rightarrow> server \<Rightarrow> (DM_RESULT \<times> server) option" where
  "rpc_register_role se c role sv = do {
     ctx \<leftarrow> get_ctx sv c;
     case sk_role ctx of
       Some r \<Rightarrow> Some (if r = role then DM_OK else DM_RC RC_ERR_MISC, sv)
     | None \<Rightarrow>
         if find_role role sv \<noteq> None then Some (DM_RC RC_ERR_MISC, sv)
         else Some (DM_OK, upd_ctx c (\<lambda>x. x\<lparr>sk_role := (if se_mem se (length role + 1) then Some role else None)\<rparr>) sv) }"

section \<open>Notifications\<close>

definition rpc_subscribe_notify :: "nat \<Rightarrow> server \<Rightarrow> (DM_RESULT \<times> server) option" where
  "rpc_subscribe_notify c sv = do {
     ctx \<leftarrow> get_ctx sv c;
     if sk_slot ctx \<noteq> 0 then Some (DM_RC RC_ERR_CANNOT_SUBSCRIBE_NOTIFY, sv)
     else do {
       (slot, dm) \<leftarrow> alloc_slot (Some CB_session) c (sv_dm sv);
       let sv = upd_ctx c (\<lambda>x. x\<lparr>sk_slot := slot\<rparr>) (sv\<lparr>sv_dm := dm\<rparr>);
       Some (if slot = - 1 then DM_RC RC_ERR_CANNOT_SUBSCRIBE_NOTIFY else DM_OK, sv) } }"

definition rpc_unsubscribe_notify :: "srv_env \<Rightarrow> nat \<Rightarrow> server \<Rightarrow> (DM_RESULT \<times> server) option" where
  "rpc_unsubscribe_notify se c sv = do {
     ctx \<leftarrow> get_ctx sv c;
     if sk_slot ctx = 0 then Some (DM_RC RC_ERR_REQUIRES_NOTIFY, sv)
     else do {
       dm \<leftarrow> free_slot (se_dm se) (sk_slot ctx) (sv_dm sv);
       Some (DM_OK, sv\<lparr>sv_dm := dm\<rparr>) } }"

fun param_notify_loop :: "dm_env \<Rightarrow> int \<Rightarrow> u32 \<Rightarrow> dm_selector list \<Rightarrow> dmst \<Rightarrow> (DM_RESULT \<times> dmst) option" where
  "param_notify_loop env slot ntfy [] s = Some (DM_OK, s)"
| "param_notify_loop env slot ntfy (p # ps) s = do {
     (r, s) \<leftarrow> dm_set_notify_by_selector env p slot ntfy s;
     if r \<noteq> DM_OK then Some (DM_RC RC_ERR_MISC, s) else param_notify_loop env slot ntfy ps s }"

definition rpc_param_notify :: "srv_env \<Rightarrow> nat \<Rightarrow> u32 \<Rightarrow> dm_selector list \<Rightarrow> server \<Rightarrow> (DM_RESULT \<times> server) option" where
  "rpc_param_notify se c ntfy paths sv = do {
     ctx \<leftarrow> get_ctx sv c;
     if sk_slot ctx = 0 then Some (DM_RC RC_ERR_REQUIRES_NOTIFY, sv)
     else do {
       (r, dm) \<leftarrow> param_notify_loop (se_dm se) (sk_slot ctx) (if ntfy \<noteq> 0 then ACTIVE_NOTIFY else PASSIVE_NOTIFY) paths (sv_dm sv);
       Some (r, sv\<lparr>sv_dm := dm\<rparr>) } }"

definition rpc_recursive_param_notify :: "srv_env \<Rightarrow> nat \<Rightarrow> u32 \<Rightarrow> dm_selector \<Rightarrow> server \<Rightarrow> (DM_RESULT \<times> server) option" where
  "rpc_recursive_param_notify se c ntfy sel sv = do {
     ctx \<leftarrow> get_ctx sv c;
     if sk_slot ctx = 0 then Some (DM_RC RC_ERR_REQUIRES_NOTIFY, sv)
     else do {
       (r, dm) \<leftarrow> dm_set_notify_by_selector_recursive (se_dm se) sel (sk_slot ctx) ntfy (sv_dm sv);
       Some (if r \<noteq> DM_OK then DM_RC RC_ERR_MISC else DM_OK, sv\<lparr>sv_dm := dm\<rparr>) } }"

text \<open>\<open>get_notify_queue\<close> is the queue of the slot, without a check of its number.\<close>

definition rpc_get_passive_notifications ::
  "srv_env \<Rightarrow> nat \<Rightarrow> DM2_REQUEST \<Rightarrow> server \<Rightarrow> (DM_RESULT \<times> DM2_REQUEST \<times> server) option" where
  "rpc_get_passive_notifications se c answer sv = do {
     ctx \<leftarrow> get_ctx sv c;
     if sk_slot ctx = 0 then Some (DM_RC RC_ERR_REQUIRES_NOTIFY, answer, sv)
     else do {
       oassert (0 \<le> sk_slot ctx);
       let dm = sv_dm sv;
       sl \<leftarrow> nth_opt (slots dm) (nat (sk_slot ctx));
       (r, q, answer) \<leftarrow> build_notify_events se (sl_queue sl) PASSIVE_NOTIFY dm answer;
       Some (r, answer, sv\<lparr>sv_dm := dm\<lparr>slots := (slots dm)[nat (sk_slot ctx) := sl\<lparr>sl_queue := q\<rparr>]\<rparr>\<rparr>) } }"

section \<open>The data model\<close>

definition rpc_db_addinstance ::
  "srv_env \<Rightarrow> dm_selector \<Rightarrow> dm_id \<Rightarrow> DM2_REQUEST \<Rightarrow> server \<Rightarrow> (DM_RESULT \<times> DM2_REQUEST \<times> server) option" where
  "rpc_db_addinstance se sel x answer sv = do {
     (nd, x, dm) \<leftarrow> dm_add_instance_by_selector (se_dm se) sel x (sv_dm sv);
     let sv = sv\<lparr>sv_dm := dm\<rparr>;
     if nd = None then Some (DM_RC RC_ERR_MISC, answer, sv)
     else do {
       (r, answer) \<leftarrow> dm_add_uint16 (se_mem se) answer AVP_UINT16 VP_TRAVELPING x;
       Some (as_result r, answer, sv) } }"

definition rpc_db_delinstance :: "srv_env \<Rightarrow> dm_selector \<Rightarrow> server \<Rightarrow> (DM_RESULT \<times> server) option" where
  "rpc_db_delinstance se sel sv = do {
     (ok, dm) \<leftarrow> dm_del_table_by_selector (se_dm se) sel (sv_dm sv);
     Some (if ok then DM_OK else DM_RC RC_ERR_MISC, sv\<lparr>sv_dm := dm\<rparr>) }"

text \<open>The code that \<open>rpc_db_set\<close> and \<open>rpc_db_get\<close> return for the result of a callback.\<close>

definition db_code :: "DM_RESULT \<Rightarrow> DM_RESULT" where
  "db_code r = (case r of
     DM_OOM \<Rightarrow> DM_RC RC_ERR_ALLOC
   | DM_INVALID_VALUE \<Rightarrow> DM_RC RC_ERR_INVALID_AVP_TYPE
   | DM_INVALID_TYPE \<Rightarrow> DM_RC RC_ERR_INVALID_AVP_TYPE
   | DM_VALUE_NOT_FOUND \<Rightarrow> DM_RC RC_ERR_VALUE_NOT_FOUND
   | DM_RC x \<Rightarrow> DM_RC x
   | _ \<Rightarrow> DM_RC RC_ERR_MISC)"

fun db_set_loop ::
  "srv_env \<Rightarrow> sockContext \<Rightarrow> (dm_selector \<times> avp_out) list \<Rightarrow> dmst \<Rightarrow> (DM_RESULT \<times> dmst) option" where
  "db_set_loop se ctx [] s = Some (DM_OK, s)"
| "db_set_loop se ctx ((sel, avp) # vs) s = do {
     (r, _, s) \<leftarrow> dm_get_value_ref_by_selector_cb (se_dm se) sel
                  (dmconfig_set_cb se (sk_flags ctx) (sk_slot ctx) avp) ((), s);
     if r = DM_OK then db_set_loop se ctx vs s else Some (db_code r, s) }"

definition rpc_db_set :: "srv_env \<Rightarrow> nat \<Rightarrow> (dm_selector \<times> avp_out) list \<Rightarrow> server \<Rightarrow> (DM_RESULT \<times> server) option" where
  "rpc_db_set se c vs sv = do {
     ctx \<leftarrow> get_ctx sv c;
     (r, dm) \<leftarrow> db_set_loop se ctx vs (sv_dm sv);
     Some (r, sv\<lparr>sv_dm := dm\<rparr>) }"

text \<open>\<open>cached\<close>: whether the session reads through its uncommitted changes.\<close>

fun db_get_loop ::
  "srv_env \<Rightarrow> bool \<Rightarrow> dm_selector list \<Rightarrow> DM2_REQUEST \<times> dmst \<Rightarrow> (DM_RESULT \<times> DM2_REQUEST \<times> dmst) option" where
  "db_get_loop se cached [] us = Some (DM_OK, us)"
| "db_get_loop se cached (sel # sels) us = do {
     (r, us) \<leftarrow> (if cached then dm_cache_get_value_by_selector_cb (se_dm se) sel T_ANY (dmconfig_get_cb se) us
                 else dm_get_value_by_selector_cb (se_dm se) sel T_ANY (dmconfig_get_cb se) us);
     if r = DM_OK then db_get_loop se cached sels us else Some (db_code r, us) }"

definition rpc_db_get ::
  "srv_env \<Rightarrow> nat \<Rightarrow> dm_selector list \<Rightarrow> DM2_REQUEST \<Rightarrow> server \<Rightarrow> (DM_RESULT \<times> DM2_REQUEST \<times> server) option" where
  "rpc_db_get se c sels answer sv = do {
     ctx \<leftarrow> get_ctx sv c;
     (r, answer, dm) \<leftarrow> db_get_loop se (sv_cfg sv \<noteq> 0 \<and> sk_id ctx = sv_cfg sv) sels (answer, sv_dm sv);
     Some (r, answer, sv\<lparr>sv_dm := dm\<rparr>) }"

definition rpc_db_list ::
  "srv_env \<Rightarrow> int \<Rightarrow> dm_selector \<Rightarrow> DM2_REQUEST \<Rightarrow> server \<Rightarrow> (DM_RESULT \<times> DM2_REQUEST \<times> server) option" where
  "rpc_db_list se level sel answer sv = do {
     let lv = (if level \<noteq> 0 then level + 1 else int DM_SELECTOR_LEN);
     let ctx = \<lparr>lc_req = answer, lc_level = 0, lc_max_level = lv\<rparr>;
     x \<leftarrow> nth_opt sel 0;
     (ok, ctx, dm) \<leftarrow>
       (if x \<noteq> 0 then dm_walk_by_selector_cb (se_dm se) sel lv (dmconfig_list_cb se) (ctx, sv_dm sv)
        else dm_walk_table_cb (se_dm se) lv (dmconfig_list_cb se) (dm_root (se_dm se)) (dm_value_store (sv_dm sv)) (ctx, sv_dm sv));
     Some (if ok then DM_OK else DM_RC RC_ERR_MISC, lc_req ctx, sv\<lparr>sv_dm := dm\<rparr>) }"

definition rpc_db_retrieve_enum ::
  "srv_env \<Rightarrow> dm_selector \<Rightarrow> DM2_REQUEST \<Rightarrow> server \<Rightarrow> (DM_RESULT \<times> DM2_REQUEST \<times> server) option" where
  "rpc_db_retrieve_enum se sel answer sv = do {
     (r, answer, dm) \<leftarrow> dm_get_value_by_selector_cb (se_dm se) sel T_ENUM (dmconfig_retrieve_enums_cb se) (answer, sv_dm sv);
     Some (case r of DM_OK \<Rightarrow> DM_OK | DM_OOM \<Rightarrow> DM_RC RC_ERR_ALLOC | _ \<Rightarrow> DM_RC RC_ERR_MISC, answer, sv\<lparr>sv_dm := dm\<rparr>) }"

text \<open>The dump goes through a temporary file; \<open>None\<close> or no bytes when that fails.\<close>

definition rpc_db_dump :: "srv_env \<Rightarrow> cstr \<Rightarrow> DM2_REQUEST \<Rightarrow> server \<Rightarrow> (DM_RESULT \<times> DM2_REQUEST \<times> server) option" where
  "rpc_db_dump se nm answer sv = (case se_dump se nm (sv_dm sv) of
     None \<Rightarrow> Some (DM_RC RC_ERR_MISC, answer, sv)
   | Some [] \<Rightarrow> Some (DM_RC RC_ERR_MISC, answer, sv)
   | Some buf \<Rightarrow> do {
       (r, answer) \<leftarrow> dm_add_raw (se_mem se) answer AVP_STRING VP_TRAVELPING (Some buf) (length buf);
       Some (if r \<noteq> RC_OK then DM_RC RC_ERR_ALLOC else DM_OK, answer, sv) })"

text \<open>\<open>dm_save\<close> writes a file.\<close>

definition rpc_db_save :: "srv_env \<Rightarrow> nat \<Rightarrow> server \<Rightarrow> (DM_RESULT \<times> server) option" where
  "rpc_db_save se c sv = do {
     ctx \<leftarrow> get_ctx sv c;
     Some (if sk_id ctx = sv_cfg sv \<and> \<not> cache_is_empty (se_dm se) (sv_dm sv) then DM_RC RC_ERR_MISC else DM_OK, sv) }"

definition rpc_db_commit :: "srv_env \<Rightarrow> nat \<Rightarrow> server \<Rightarrow> (DM_RESULT \<times> server) option" where
  "rpc_db_commit se c sv = do {
     ctx \<leftarrow> get_ctx sv c;
     if sk_id ctx \<noteq> sv_cfg sv then Some (DM_RC RC_ERR_REQUIRES_CFGSESSION, sv)
     else do {
       (ok, dm) \<leftarrow> cache_validate (se_dm se) (sv_dm sv);
       let sv = sv\<lparr>sv_dm := dm\<rparr>;
       if ok \<noteq> 0
       then do {
         sv \<leftarrow> run_actions_pre se sv;
         dm \<leftarrow> cache_apply (se_dm se) (if sk_slot ctx \<noteq> 0 then sk_slot ctx else - 1) (sv_dm sv);
         sv \<leftarrow> run_actions se (sv\<lparr>sv_dm := dm\<rparr>);
         Some (DM_OK, sv) }
       else Some (DM_RC RC_ERR_MISC, sv) } }"

definition rpc_db_cancel :: "srv_env \<Rightarrow> nat \<Rightarrow> server \<Rightarrow> (DM_RESULT \<times> server) option" where
  "rpc_db_cancel se c sv = do {
     ctx \<leftarrow> get_ctx sv c;
     if sk_id ctx \<noteq> sv_cfg sv then Some (DM_RC RC_ERR_REQUIRES_CFGSESSION, sv)
     else do { dm \<leftarrow> cache_reset (se_dm se) (sv_dm sv); Some (DM_OK, sv\<lparr>sv_dm := dm\<rparr>) } }"

definition find_instance_by_selector ::
  "dm_env \<Rightarrow> dmst \<Rightarrow> dm_selector \<Rightarrow> dm_id \<Rightarrow> dm_type \<Rightarrow> DM_VALUE \<Rightarrow> ptr option" where
  "find_instance_by_selector env s sel x type val = do {
     r \<leftarrow> dm_get_instance_ref_by_selector env s sel;
     case r of
       None \<Rightarrow> Some None
     | Some r \<Rightarrow> do { v \<leftarrow> getv s r; inst \<leftarrow> rdptr (dv_v v); find_instance s inst x type val } }"

definition rpc_db_findinstance ::
  "srv_env \<Rightarrow> dm_selector \<Rightarrow> u8 list \<times> nat \<Rightarrow> avp_out \<Rightarrow> DM2_REQUEST \<Rightarrow> server \<Rightarrow> (DM_RESULT \<times> DM2_REQUEST \<times> server) option" where
  "rpc_db_findinstance se sel nm search answer sv = do {
     kw \<leftarrow> dm_get_object_table_by_selector (se_dm se) (sv_dm sv) sel;
     case kw of
       None \<Rightarrow> Some (DM_RC RC_ERR_MISC, answer, sv)
     | Some k \<Rightarrow> do {
         name \<leftarrow> read_at 0 (snd nm) (fst nm);
         let param = dm_get_element_id_by_name name kw;
         if param = DM_ERR then Some (DM_RC RC_ERR_MISC, answer, sv)
         else do {
           e \<leftarrow> nth_opt (tab_elems k) (unat param - 1);
           (r, value, dm) \<leftarrow> dmconfig_avp2value se search (Some e) (sv_dm sv);
           let sv = sv\<lparr>sv_dm := dm\<rparr>;
           if r = DM_OOM then Some (DM_RC RC_ERR_ALLOC, answer, sv)
           else if r \<noteq> DM_OK then Some (DM_RC RC_ERR_MISC, answer, sv)
           else do {
             inst \<leftarrow> find_instance_by_selector (se_dm se) dm sel param (el_type e) value;
             (_, dm) \<leftarrow> dm_free_any_value e value dm;
             let sv = sv\<lparr>sv_dm := dm\<rparr>;
             case inst of
               None \<Rightarrow> Some (DM_RC RC_ERR_MISC, answer, sv)
             | Some a \<Rightarrow> do {
                 n \<leftarrow> nodes dm a;
                 (r, answer) \<leftarrow> dm_add_uint16 (se_mem se) answer AVP_UINT16 VP_TRAVELPING (in_instance n);
                 Some (if r \<noteq> RC_OK then DM_RC RC_ERR_ALLOC else DM_OK, answer, sv) } } } } }"

end
