(* ===== verification/Dm_Rpc.thy ===== *)
theory Dm_Rpc
  imports Dm_Server
begin

text \<open>
  The skeleton of the configuration protocol, \<^verbatim>\<open>libdmconfig/dm_dmconfig_rpc_skel.c\<close>: one function per command
  that reads the arguments from the message and calls the handler of \<^verbatim>\<open>mand/dm_dmconfig.c\<close>, the switch over
  the command codes with the result code as the first AVP of the answer, and the entry point for a packet.

  The commands for the firmware agent wait for an answer of another client in a nested event loop. What that
  loop does to the server is the parameter \<open>run\<close>: it returns the code and the AVPs of the agent's answer.
  \<^verbatim>\<open>rpc_system_restart\<close> and \<^verbatim>\<open>rpc_system_shutdown\<close> run a program and have no effect on the server.
\<close>

section \<open>Codes\<close>

definition CMD_DB_SET :: u32 where "CMD_DB_SET = 300"
definition CMD_DB_GET :: u32 where "CMD_DB_GET = 301"
definition CMD_DB_LIST :: u32 where "CMD_DB_LIST = 302"
definition CMD_DB_RETRIEVE_ENUMS :: u32 where "CMD_DB_RETRIEVE_ENUMS = 303"
definition CMD_DB_DUMP :: u32 where "CMD_DB_DUMP = 304"
definition CMD_DB_ADDINSTANCE :: u32 where "CMD_DB_ADDINSTANCE = 305"
definition CMD_DB_DELINSTANCE :: u32 where "CMD_DB_DELINSTANCE = 306"
definition CMD_DB_COMMIT :: u32 where "CMD_DB_COMMIT = 307"
definition CMD_DB_CANCEL :: u32 where "CMD_DB_CANCEL = 308"
definition CMD_DB_SAVE :: u32 where "CMD_DB_SAVE = 309"
definition CMD_DB_FINDINSTANCE :: u32 where "CMD_DB_FINDINSTANCE = 310"
definition CMD_STARTSESSION :: u32 where "CMD_STARTSESSION = 320"
definition CMD_ENDSESSION :: u32 where "CMD_ENDSESSION = 321"
definition CMD_SWITCHSESSION :: u32 where "CMD_SWITCHSESSION = 322"
definition CMD_SESSIONINFO :: u32 where "CMD_SESSIONINFO = 323"
definition CMD_CFGSESSIONINFO :: u32 where "CMD_CFGSESSIONINFO = 324"
definition CMD_SUBSCRIBE_NOTIFY :: u32 where "CMD_SUBSCRIBE_NOTIFY = 330"
definition CMD_UNSUBSCRIBE_NOTIFY :: u32 where "CMD_UNSUBSCRIBE_NOTIFY = 331"
definition CMD_PARAM_NOTIFY :: u32 where "CMD_PARAM_NOTIFY = 332"
definition CMD_RECURSIVE_PARAM_NOTIFY :: u32 where "CMD_RECURSIVE_PARAM_NOTIFY = 333"
definition CMD_GET_PASSIVE_NOTIFICATIONS :: u32 where "CMD_GET_PASSIVE_NOTIFICATIONS = 334"
definition CMD_REGISTER_ROLE :: u32 where "CMD_REGISTER_ROLE = 350"
definition CMD_SYSTEM_RESTART :: u32 where "CMD_SYSTEM_RESTART = 400"
definition CMD_SYSTEM_SHUTDOWN :: u32 where "CMD_SYSTEM_SHUTDOWN = 401"
definition CMD_FIRMWARE_DOWNLOAD :: u32 where "CMD_FIRMWARE_DOWNLOAD = 2000"
definition CMD_FIRMWARE_COMMIT :: u32 where "CMD_FIRMWARE_COMMIT = 2001"
definition CMD_SET_BOOT_ORDER :: u32 where "CMD_SET_BOOT_ORDER = 2002"
definition AVP_UINT8 :: u32 where "AVP_UINT8 = 2201"

definition BLOCK_ALLOC :: nat where "BLOCK_ALLOC = 16"

section \<open>Reading arguments\<close>

type_synonym rpc_res = "(DM_RESULT \<times> DM2_REQUEST \<times> server) option"
type_synonym agent_run = "nat \<Rightarrow> server \<Rightarrow> (rc \<times> DM2_AVPGRP \<times> server) option"

text \<open>One step of a chain \<^verbatim>\<open>(rc = f(obj, &x)) != RC_OK || ...\<close>: what follows gets the value and the group behind it.\<close>

definition arg ::
  "(rc \<times> 'a option \<times> DM2_AVPGRP) option \<Rightarrow> (DM_RESULT \<Rightarrow> 'b option) \<Rightarrow> ('a \<Rightarrow> DM2_AVPGRP \<Rightarrow> 'b option) \<Rightarrow> 'b option" where
  "arg x fail k = do {
     (r, v, obj) \<leftarrow> x;
     if r \<noteq> RC_OK then fail (as_result r) else do { y \<leftarrow> v; k y obj } }"

definition no_more :: "DM2_AVPGRP \<Rightarrow> (DM_RESULT \<Rightarrow> 'b option) \<Rightarrow> 'b option \<Rightarrow> 'b option" where
  "no_more obj fail k = (let r = dm_expect_end obj in if r \<noteq> RC_OK then fail (as_result r) else k)"

text \<open>The result of a handler that does not write to the answer.\<close>

definition silent :: "DM2_REQUEST \<Rightarrow> (DM_RESULT \<times> server) option \<Rightarrow> rpc_res" where
  "silent answer x = do { (r, sv) \<leftarrow> x; Some (r, answer, sv) }"

text \<open>Whether \<^verbatim>\<open>talloc_realloc\<close> can grow an array of entries of \<open>n\<close> bytes that holds \<open>cnt\<close>.\<close>

definition grows :: "(nat \<Rightarrow> bool) \<Rightarrow> nat \<Rightarrow> nat \<Rightarrow> bool" where
  "grows mem n cnt \<longleftrightarrow> (cnt mod BLOCK_ALLOC = 0 \<longrightarrow> mem (n * (cnt + BLOCK_ALLOC)))"

definition sizeof_path_value :: nat where "sizeof_path_value = 56"
definition sizeof_char_ptr :: nat where "sizeof_char_ptr = 8"

section \<open>Sessions\<close>

definition rpc_startsession_skel :: "nat \<Rightarrow> DM2_AVPGRP \<Rightarrow> DM2_REQUEST \<Rightarrow> server \<Rightarrow> rpc_res" where
  "rpc_startsession_skel c obj answer sv = (let fail = \<lambda>r. Some (r, answer, sv) in
     arg (dm_expect_uint32_type AVP_UINT32 VP_TRAVELPING obj) fail (\<lambda>flags obj.
     arg (dm_expect_int32_type AVP_INT32 VP_TRAVELPING obj) fail (\<lambda>timeout obj.
     no_more obj fail (silent answer (rpc_startsession c flags timeout sv)))))"

definition rpc_switchsession_skel :: "srv_env \<Rightarrow> nat \<Rightarrow> DM2_AVPGRP \<Rightarrow> DM2_REQUEST \<Rightarrow> server \<Rightarrow> rpc_res" where
  "rpc_switchsession_skel se c obj answer sv = (let fail = \<lambda>r. Some (r, answer, sv) in
     arg (dm_expect_uint32_type AVP_UINT32 VP_TRAVELPING obj) fail (\<lambda>flags obj.
     arg (dm_expect_int32_type AVP_INT32 VP_TRAVELPING obj) fail (\<lambda>timeout obj.
     no_more obj fail (silent answer (rpc_switchsession se c flags timeout sv)))))"

definition rpc_endsession_skel :: "srv_env \<Rightarrow> nat \<Rightarrow> DM2_AVPGRP \<Rightarrow> server \<Rightarrow> (DM_RESULT \<times> server) option" where
  "rpc_endsession_skel se c obj sv = no_more obj (\<lambda>r. Some (r, sv)) (rpc_endsession se c sv)"

definition rpc_sessioninfo_skel :: "srv_env \<Rightarrow> nat \<Rightarrow> DM2_AVPGRP \<Rightarrow> DM2_REQUEST \<Rightarrow> server \<Rightarrow> rpc_res" where
  "rpc_sessioninfo_skel se c obj answer sv = no_more obj (\<lambda>r. Some (r, answer, sv)) (rpc_sessioninfo se c answer sv)"

definition rpc_cfgsessioninfo_skel :: "srv_env \<Rightarrow> DM2_AVPGRP \<Rightarrow> DM2_REQUEST \<Rightarrow> server \<Rightarrow> rpc_res" where
  "rpc_cfgsessioninfo_skel se obj answer sv = no_more obj (\<lambda>r. Some (r, answer, sv)) (rpc_cfgsessioninfo se answer sv)"

definition rpc_register_role_skel :: "srv_env \<Rightarrow> nat \<Rightarrow> DM2_AVPGRP \<Rightarrow> DM2_REQUEST \<Rightarrow> server \<Rightarrow> rpc_res" where
  "rpc_register_role_skel se c obj answer sv = (let fail = \<lambda>r. Some (r, answer, sv) in
     arg (dm_expect_string_type (se_mem se) AVP_STRING VP_TRAVELPING obj) fail (\<lambda>role obj.
     no_more obj fail (silent answer (rpc_register_role se c role sv))))"

section \<open>Notifications\<close>

definition rpc_subscribe_notify_skel :: "nat \<Rightarrow> DM2_AVPGRP \<Rightarrow> DM2_REQUEST \<Rightarrow> server \<Rightarrow> rpc_res" where
  "rpc_subscribe_notify_skel c obj answer sv =
     no_more obj (\<lambda>r. Some (r, answer, sv)) (silent answer (rpc_subscribe_notify c sv))"

definition rpc_unsubscribe_notify_skel :: "srv_env \<Rightarrow> nat \<Rightarrow> DM2_AVPGRP \<Rightarrow> DM2_REQUEST \<Rightarrow> server \<Rightarrow> rpc_res" where
  "rpc_unsubscribe_notify_skel se c obj answer sv =
     no_more obj (\<lambda>r. Some (r, answer, sv)) (silent answer (rpc_unsubscribe_notify se c sv))"

text \<open>
  The loop reads a path from \<open>grp\<close> and asks whether \<open>obj\<close> is at its end, which it already is. The
  result is the code, the paths read so far and the group.
\<close>

partial_function (option) param_paths ::
  "srv_env \<Rightarrow> DM2_AVPGRP \<Rightarrow> DM2_AVPGRP \<Rightarrow> dm_selector list \<Rightarrow> (DM_RESULT \<times> dm_selector list) option" where
  "param_paths se obj grp paths =
     (if \<not> grows (se_mem se) (nat sizeof_dm_selector) (length paths) then Some (DM_RC RC_ERR_ALLOC, paths)
      else do {
        (r, v, grp) \<leftarrow> dm_expect_path_type (se_dm se) (se_mem se) AVP_PATH VP_TRAVELPING grp;
        if r \<noteq> RC_OK then Some (as_result r, paths)
        else do {
          p \<leftarrow> v;
          if dm_expect_end obj \<noteq> RC_OK then param_paths se obj grp (paths @ [p])
          else Some (DM_OK, paths @ [p]) } })"

definition rpc_param_notify_skel :: "srv_env \<Rightarrow> nat \<Rightarrow> DM2_AVPGRP \<Rightarrow> DM2_REQUEST \<Rightarrow> server \<Rightarrow> rpc_res" where
  "rpc_param_notify_skel se c obj answer sv = (let fail = \<lambda>r. Some (r, answer, sv) in
     arg (dm_expect_uint8_type AVP_NOTIFY_LEVEL VP_TRAVELPING obj) fail (\<lambda>ntfy obj.
     arg (dm_expect_object obj) fail (\<lambda>grp obj.
     no_more obj fail (do {
       (r, paths) \<leftarrow> param_paths se obj grp [];
       if r \<noteq> DM_OK then fail r else silent answer (rpc_param_notify se c (ucast ntfy) paths sv) }))))"

definition rpc_recursive_param_notify_skel :: "srv_env \<Rightarrow> nat \<Rightarrow> DM2_AVPGRP \<Rightarrow> DM2_REQUEST \<Rightarrow> server \<Rightarrow> rpc_res" where
  "rpc_recursive_param_notify_skel se c obj answer sv = (let fail = \<lambda>r. Some (r, answer, sv) in
     arg (dm_expect_uint8_type AVP_NOTIFY_LEVEL VP_TRAVELPING obj) fail (\<lambda>ntfy obj.
     arg (dm_expect_path_type (se_dm se) (se_mem se) AVP_PATH VP_TRAVELPING obj) fail (\<lambda>p obj.
     no_more obj fail (silent answer (rpc_recursive_param_notify se c (ucast ntfy) p sv)))))"

definition rpc_get_passive_notifications_skel :: "srv_env \<Rightarrow> nat \<Rightarrow> DM2_AVPGRP \<Rightarrow> DM2_REQUEST \<Rightarrow> server \<Rightarrow> rpc_res" where
  "rpc_get_passive_notifications_skel se c obj answer sv =
     no_more obj (\<lambda>r. Some (r, answer, sv)) (rpc_get_passive_notifications se c answer sv)"

section \<open>The data model\<close>

text \<open>These two do not ask whether more AVPs follow.\<close>

definition rpc_db_addinstance_skel :: "srv_env \<Rightarrow> DM2_AVPGRP \<Rightarrow> DM2_REQUEST \<Rightarrow> server \<Rightarrow> rpc_res" where
  "rpc_db_addinstance_skel se obj answer sv = (let fail = \<lambda>r. Some (r, answer, sv) in
     arg (dm_expect_path_type (se_dm se) (se_mem se) AVP_PATH VP_TRAVELPING obj) fail (\<lambda>p obj.
     arg (dm_expect_uint16_type AVP_UINT16 VP_TRAVELPING obj) fail (\<lambda>x obj.
     rpc_db_addinstance se p x answer sv)))"

definition rpc_db_delinstance_skel :: "srv_env \<Rightarrow> DM2_AVPGRP \<Rightarrow> DM2_REQUEST \<Rightarrow> server \<Rightarrow> rpc_res" where
  "rpc_db_delinstance_skel se obj answer sv =
     arg (dm_expect_path_type (se_dm se) (se_mem se) AVP_PATH VP_TRAVELPING obj) (\<lambda>r. Some (r, answer, sv)) (\<lambda>p obj.
     silent answer (rpc_db_delinstance se p sv))"

partial_function (option) set_values ::
  "srv_env \<Rightarrow> DM2_AVPGRP \<Rightarrow> (dm_selector \<times> avp_out) list \<Rightarrow> (DM_RESULT \<times> (dm_selector \<times> avp_out) list) option" where
  "set_values se obj vs =
     (if \<not> grows (se_mem se) sizeof_path_value (length vs) then Some (DM_RC RC_ERR_ALLOC, vs)
      else do {
        (r, g, obj) \<leftarrow> dm_expect_object obj;
        if r \<noteq> RC_OK then Some (as_result r, vs)
        else do {
          grp \<leftarrow> g;
          (r, p, grp) \<leftarrow> dm_expect_path_type (se_dm se) (se_mem se) AVP_PATH VP_TRAVELPING grp;
          if r \<noteq> RC_OK then Some (as_result r, vs)
          else do {
            sel \<leftarrow> p;
            (r, v, grp) \<leftarrow> dm_expect_value grp;
            if r \<noteq> RC_OK then Some (as_result r, vs)
            else do {
              avp \<leftarrow> v;
              if dm_expect_group_end grp \<noteq> RC_OK then Some (as_result (dm_expect_group_end grp), vs)
              else if dm_expect_end obj \<noteq> RC_OK then set_values se obj (vs @ [(sel, avp)])
              else Some (DM_OK, vs @ [(sel, avp)]) } } } })"

definition rpc_db_set_skel :: "srv_env \<Rightarrow> nat \<Rightarrow> DM2_AVPGRP \<Rightarrow> DM2_REQUEST \<Rightarrow> server \<Rightarrow> rpc_res" where
  "rpc_db_set_skel se c obj answer sv = do {
     (r, vs) \<leftarrow> set_values se obj [];
     if r \<noteq> DM_OK then Some (r, answer, sv) else silent answer (rpc_db_set se c vs sv) }"

partial_function (option) get_paths ::
  "srv_env \<Rightarrow> DM2_AVPGRP \<Rightarrow> dm_selector list \<Rightarrow> (DM_RESULT \<times> dm_selector list) option" where
  "get_paths se obj paths =
     (if \<not> grows (se_mem se) (nat sizeof_dm_selector) (length paths) then Some (DM_RC RC_ERR_ALLOC, paths)
      else do {
        (r, v, obj) \<leftarrow> dm_expect_path_type (se_dm se) (se_mem se) AVP_PATH VP_TRAVELPING obj;
        if r \<noteq> RC_OK then Some (as_result r, paths)
        else do {
          p \<leftarrow> v;
          if dm_expect_end obj \<noteq> RC_OK then get_paths se obj (paths @ [p]) else Some (DM_OK, paths @ [p]) } })"

definition rpc_db_get_skel :: "srv_env \<Rightarrow> nat \<Rightarrow> DM2_AVPGRP \<Rightarrow> DM2_REQUEST \<Rightarrow> server \<Rightarrow> rpc_res" where
  "rpc_db_get_skel se c obj answer sv = do {
     (r, paths) \<leftarrow> get_paths se obj [];
     if r \<noteq> DM_OK then Some (r, answer, sv) else rpc_db_get se c paths answer sv }"

definition rpc_db_list_skel :: "srv_env \<Rightarrow> DM2_AVPGRP \<Rightarrow> DM2_REQUEST \<Rightarrow> server \<Rightarrow> rpc_res" where
  "rpc_db_list_skel se obj answer sv = (let fail = \<lambda>r. Some (r, answer, sv) in
     arg (dm_expect_uint16_type AVP_UINT16 VP_TRAVELPING obj) fail (\<lambda>level obj.
     arg (dm_expect_path_type (se_dm se) (se_mem se) AVP_PATH VP_TRAVELPING obj) fail (\<lambda>p obj.
     no_more obj fail (rpc_db_list se (uint level) p answer sv))))"

definition rpc_db_retrieve_enum_skel :: "srv_env \<Rightarrow> DM2_AVPGRP \<Rightarrow> DM2_REQUEST \<Rightarrow> server \<Rightarrow> rpc_res" where
  "rpc_db_retrieve_enum_skel se obj answer sv = (let fail = \<lambda>r. Some (r, answer, sv) in
     arg (dm_expect_path_type (se_dm se) (se_mem se) AVP_PATH VP_TRAVELPING obj) fail (\<lambda>p obj.
     no_more obj fail (rpc_db_retrieve_enum se p answer sv)))"

definition rpc_db_dump_skel :: "srv_env \<Rightarrow> DM2_AVPGRP \<Rightarrow> DM2_REQUEST \<Rightarrow> server \<Rightarrow> rpc_res" where
  "rpc_db_dump_skel se obj answer sv = (let fail = \<lambda>r. Some (r, answer, sv) in
     arg (dm_expect_string_type (se_mem se) AVP_PATH VP_TRAVELPING obj) fail (\<lambda>p obj.
     no_more obj fail (rpc_db_dump se p answer sv)))"

definition rpc_db_save_skel :: "srv_env \<Rightarrow> nat \<Rightarrow> DM2_AVPGRP \<Rightarrow> DM2_REQUEST \<Rightarrow> server \<Rightarrow> rpc_res" where
  "rpc_db_save_skel se c obj answer sv = no_more obj (\<lambda>r. Some (r, answer, sv)) (silent answer (rpc_db_save se c sv))"

definition rpc_db_commit_skel :: "srv_env \<Rightarrow> nat \<Rightarrow> DM2_AVPGRP \<Rightarrow> DM2_REQUEST \<Rightarrow> server \<Rightarrow> rpc_res" where
  "rpc_db_commit_skel se c obj answer sv = no_more obj (\<lambda>r. Some (r, answer, sv)) (silent answer (rpc_db_commit se c sv))"

definition rpc_db_cancel_skel :: "srv_env \<Rightarrow> nat \<Rightarrow> DM2_AVPGRP \<Rightarrow> DM2_REQUEST \<Rightarrow> server \<Rightarrow> rpc_res" where
  "rpc_db_cancel_skel se c obj answer sv = no_more obj (\<lambda>r. Some (r, answer, sv)) (silent answer (rpc_db_cancel se c sv))"

definition rpc_db_findinstance_skel :: "srv_env \<Rightarrow> DM2_AVPGRP \<Rightarrow> DM2_REQUEST \<Rightarrow> server \<Rightarrow> rpc_res" where
  "rpc_db_findinstance_skel se obj answer sv = (let fail = \<lambda>r. Some (r, answer, sv) in
     arg (dm_expect_path_type (se_dm se) (se_mem se) AVP_PATH VP_TRAVELPING obj) fail (\<lambda>p obj.
     arg (dm_expect_bin AVP_PATH VP_TRAVELPING obj) fail (\<lambda>nm obj.
     arg (dm_expect_value obj) fail (\<lambda>v obj.
     no_more obj fail (rpc_db_findinstance se p nm v answer sv)))))"

section \<open>Commands for the firmware agent\<close>

text \<open>
  The requests to the agent, \<^verbatim>\<open>libdmconfig/dm_dmclient_rpc_stub.c\<close>. A request that cannot be built or queued is not
  reported: the caller waits all the same.
\<close>

definition agent_call ::
  "srv_env \<Rightarrow> agent_run \<Rightarrow> u32 \<Rightarrow> (DM2_REQUEST \<Rightarrow> (rc \<times> DM2_REQUEST) option) list \<Rightarrow> nat \<Rightarrow> server \<Rightarrow>
   (rc \<times> DM2_AVPGRP \<times> server) option" where
  "agent_call se run code args c sv = do {
     q \<leftarrow> dm_new_request (se_mem se) (se_mem se sizeof_DM2_REQUEST) code CMD_FLAG_REQUEST 0 0;
     sent \<leftarrow> (case q of
         None \<Rightarrow> Some (sv_sent sv)
       | Some req \<Rightarrow> do {
           (r, req) \<leftarrow> calls (args @ [dm_finalize_packet]) req;
           if r \<noteq> RC_OK then Some (sv_sent sv)
           else do { (_, sent) \<leftarrow> dm_enqueue se c req (sv_sent sv); Some sent } });
     run c (sv\<lparr>sv_sent := sent\<rparr>) }"

definition rpc_agent_firmware_download ::
  "srv_env \<Rightarrow> agent_run \<Rightarrow> nat \<Rightarrow> cstr \<Rightarrow> u8 \<Rightarrow> cstr \<Rightarrow> cstr \<Rightarrow> u32 \<Rightarrow> u8 \<Rightarrow> u32 \<Rightarrow> u32 \<Rightarrow> server \<Rightarrow>
   (rc \<times> DM2_AVPGRP \<times> server) option" where
  "rpc_agent_firmware_download se run c address credentialstype credential install_target timeframe
     retry_count retry_interval retry_interval_increment sv = (let mem = se_mem se; v = VP_TRAVELPING in
     agent_call se run CMD_FIRMWARE_DOWNLOAD
       [\<lambda>q. dm_add_string mem q AVP_STRING v address,
        \<lambda>q. dm_add_uint8 mem q AVP_UINT8 v credentialstype,
        \<lambda>q. dm_add_string mem q AVP_STRING v credential,
        \<lambda>q. dm_add_string mem q AVP_STRING v install_target,
        \<lambda>q. dm_add_uint32 mem q AVP_UINT32 v timeframe,
        \<lambda>q. dm_add_uint8 mem q AVP_UINT8 v retry_count,
        \<lambda>q. dm_add_uint32 mem q AVP_UINT32 v retry_interval,
        \<lambda>q. dm_add_uint32 mem q AVP_UINT32 v retry_interval_increment] c sv)"

definition rpc_agent_firmware_commit ::
  "srv_env \<Rightarrow> agent_run \<Rightarrow> nat \<Rightarrow> int \<Rightarrow> server \<Rightarrow> (rc \<times> DM2_AVPGRP \<times> server) option" where
  "rpc_agent_firmware_commit se run c job_id sv =
     agent_call se run CMD_FIRMWARE_COMMIT [\<lambda>q. dm_add_int32 (se_mem se) q AVP_INT32 VP_TRAVELPING job_id] c sv"

definition rpc_agent_set_boot_order ::
  "srv_env \<Rightarrow> agent_run \<Rightarrow> nat \<Rightarrow> cstr list \<Rightarrow> server \<Rightarrow> (rc \<times> DM2_AVPGRP \<times> server) option" where
  "rpc_agent_set_boot_order se run c boot_order sv =
     agent_call se run CMD_SET_BOOT_ORDER
       (map (\<lambda>b q. dm_add_string (se_mem se) q AVP_STRING VP_TRAVELPING b) boot_order) c sv"

definition firmware_role :: cstr where
  "firmware_role = map of_char ''-firmware''"

definition rpc_firmware_download ::
  "srv_env \<Rightarrow> agent_run \<Rightarrow> cstr \<Rightarrow> u8 \<Rightarrow> cstr \<Rightarrow> cstr \<Rightarrow> u32 \<Rightarrow> u8 \<Rightarrow> u32 \<Rightarrow> u32 \<Rightarrow> DM2_REQUEST \<Rightarrow> server \<Rightarrow> rpc_res" where
  "rpc_firmware_download se run address credentialstype credential install_target timeframe
     retry_count retry_interval retry_interval_increment answer sv = (case find_role firmware_role sv of
     None \<Rightarrow> Some (DM_RC RC_ERR_MISC, answer, sv)
   | Some (clnt, _) \<Rightarrow> do {
       (r, clnt_answer, sv) \<leftarrow> rpc_agent_firmware_download se run clnt address credentialstype credential install_target
                                timeframe retry_count retry_interval retry_interval_increment sv;
       let fail = (\<lambda>r. Some (r, answer, sv));
       if r \<noteq> RC_OK then fail (as_result r)
       else arg (dm_expect_int32_type AVP_INT32 VP_TRAVELPING clnt_answer) fail (\<lambda>job_id obj.
         no_more obj fail (do {
           (r, answer) \<leftarrow> dm_add_int32 (se_mem se) answer AVP_INT32 VP_TRAVELPING job_id;
           Some (if r \<noteq> RC_OK then DM_RC RC_ERR_ALLOC else DM_OK, answer, sv) })) })"

definition rpc_firmware_commit :: "srv_env \<Rightarrow> agent_run \<Rightarrow> int \<Rightarrow> server \<Rightarrow> (DM_RESULT \<times> server) option" where
  "rpc_firmware_commit se run job_id sv = (case find_role firmware_role sv of
     None \<Rightarrow> Some (DM_RC RC_ERR_MISC, sv)
   | Some (clnt, _) \<Rightarrow> do {
       (r, _, sv) \<leftarrow> rpc_agent_firmware_commit se run clnt job_id sv;
       Some (as_result r, sv) })"

definition rpc_set_boot_order :: "srv_env \<Rightarrow> agent_run \<Rightarrow> cstr list \<Rightarrow> server \<Rightarrow> (DM_RESULT \<times> server) option" where
  "rpc_set_boot_order se run boot_order sv = (case find_role firmware_role sv of
     None \<Rightarrow> Some (DM_RC RC_ERR_MISC, sv)
   | Some (clnt, _) \<Rightarrow> do {
       (r, _, sv) \<leftarrow> rpc_agent_set_boot_order se run clnt boot_order sv;
       Some (as_result r, sv) })"

definition rpc_firmware_download_skel :: "srv_env \<Rightarrow> agent_run \<Rightarrow> DM2_AVPGRP \<Rightarrow> DM2_REQUEST \<Rightarrow> server \<Rightarrow> rpc_res" where
  "rpc_firmware_download_skel se run obj answer sv =
    (let fail = \<lambda>r. Some (r, answer, sv); string = dm_expect_string_type (se_mem se) AVP_STRING VP_TRAVELPING;
         byte = dm_expect_uint8_type AVP_UINT8 VP_TRAVELPING; number = dm_expect_uint32_type AVP_UINT32 VP_TRAVELPING in
     arg (string obj) fail (\<lambda>address obj.
     arg (byte obj) fail (\<lambda>credentialstype obj.
     arg (string obj) fail (\<lambda>credential obj.
     arg (string obj) fail (\<lambda>install_target obj.
     arg (number obj) fail (\<lambda>timeframe obj.
     arg (byte obj) fail (\<lambda>retry_count obj.
     arg (number obj) fail (\<lambda>retry_interval obj.
     arg (number obj) fail (\<lambda>retry_interval_increment obj.
     no_more obj fail
       (rpc_firmware_download se run address credentialstype credential install_target timeframe
          retry_count retry_interval retry_interval_increment answer sv))))))))))"

definition rpc_firmware_commit_skel :: "srv_env \<Rightarrow> agent_run \<Rightarrow> DM2_AVPGRP \<Rightarrow> DM2_REQUEST \<Rightarrow> server \<Rightarrow> rpc_res" where
  "rpc_firmware_commit_skel se run obj answer sv = (let fail = \<lambda>r. Some (r, answer, sv) in
     arg (dm_expect_int32_type AVP_INT32 VP_TRAVELPING obj) fail (\<lambda>job_id obj.
     no_more obj fail (silent answer (rpc_firmware_commit se run job_id sv))))"

partial_function (option) boot_names ::
  "srv_env \<Rightarrow> DM2_AVPGRP \<Rightarrow> cstr list \<Rightarrow> (DM_RESULT \<times> cstr list) option" where
  "boot_names se obj names =
     (if \<not> grows (se_mem se) sizeof_char_ptr (length names) then Some (DM_RC RC_ERR_ALLOC, names)
      else do {
        (r, v, obj) \<leftarrow> dm_expect_string_type (se_mem se) AVP_STRING VP_TRAVELPING obj;
        if r \<noteq> RC_OK then Some (as_result r, names)
        else do {
          b \<leftarrow> v;
          if dm_expect_end obj \<noteq> RC_OK then boot_names se obj (names @ [b]) else Some (DM_OK, names @ [b]) } })"

definition rpc_set_boot_order_skel :: "srv_env \<Rightarrow> agent_run \<Rightarrow> DM2_AVPGRP \<Rightarrow> DM2_REQUEST \<Rightarrow> server \<Rightarrow> rpc_res" where
  "rpc_set_boot_order_skel se run obj answer sv = do {
     (r, names) \<leftarrow> boot_names se obj [];
     if r \<noteq> DM_OK then Some (r, answer, sv) else silent answer (rpc_set_boot_order se run names sv) }"

definition rpc_system_restart_skel :: "DM2_AVPGRP \<Rightarrow> DM2_REQUEST \<Rightarrow> server \<Rightarrow> rpc_res" where
  "rpc_system_restart_skel obj answer sv = no_more obj (\<lambda>r. Some (r, answer, sv)) (Some (DM_OK, answer, sv))"

definition rpc_system_shutdown_skel :: "DM2_AVPGRP \<Rightarrow> DM2_REQUEST \<Rightarrow> server \<Rightarrow> rpc_res" where
  "rpc_system_shutdown_skel obj answer sv = no_more obj (\<lambda>r. Some (r, answer, sv)) (Some (DM_OK, answer, sv))"

declare param_paths.simps [code] set_values.simps [code] get_paths.simps [code] boot_names.simps [code]

section \<open>The switch\<close>

record DMC_REQUEST =
  dr_hop2hop :: u32
  dr_end2end :: u32
  dr_code :: u32

text \<open>The code of the three firmware commands is dropped: \<open>rc\<close> keeps the value it had before.\<close>

definition dispatch :: "srv_env \<Rightarrow> agent_run \<Rightarrow> nat \<Rightarrow> u32 \<Rightarrow> DM2_AVPGRP \<Rightarrow> DM2_REQUEST \<Rightarrow> server \<Rightarrow> rpc_res" where
  "dispatch se run c code obj answer sv = (
     if code = CMD_STARTSESSION then rpc_startsession_skel c obj answer sv
     else if code = CMD_SWITCHSESSION then rpc_switchsession_skel se c obj answer sv
     else if code = CMD_SESSIONINFO then rpc_sessioninfo_skel se c obj answer sv
     else if code = CMD_CFGSESSIONINFO then rpc_cfgsessioninfo_skel se obj answer sv
     else if code = CMD_SUBSCRIBE_NOTIFY then rpc_subscribe_notify_skel c obj answer sv
     else if code = CMD_UNSUBSCRIBE_NOTIFY then rpc_unsubscribe_notify_skel se c obj answer sv
     else if code = CMD_PARAM_NOTIFY then rpc_param_notify_skel se c obj answer sv
     else if code = CMD_RECURSIVE_PARAM_NOTIFY then rpc_recursive_param_notify_skel se c obj answer sv
     else if code = CMD_GET_PASSIVE_NOTIFICATIONS then rpc_get_passive_notifications_skel se c obj answer sv
     else if code = CMD_DB_ADDINSTANCE then rpc_db_addinstance_skel se obj answer sv
     else if code = CMD_DB_DELINSTANCE then rpc_db_delinstance_skel se obj answer sv
     else if code = CMD_DB_SET then rpc_db_set_skel se c obj answer sv
     else if code = CMD_DB_GET then rpc_db_get_skel se c obj answer sv
     else if code = CMD_DB_LIST then rpc_db_list_skel se obj answer sv
     else if code = CMD_DB_RETRIEVE_ENUMS then rpc_db_retrieve_enum_skel se obj answer sv
     else if code = CMD_DB_DUMP then rpc_db_dump_skel se obj answer sv
     else if code = CMD_DB_SAVE then rpc_db_save_skel se c obj answer sv
     else if code = CMD_DB_COMMIT then rpc_db_commit_skel se c obj answer sv
     else if code = CMD_DB_CANCEL then rpc_db_cancel_skel se c obj answer sv
     else if code = CMD_DB_FINDINSTANCE then rpc_db_findinstance_skel se obj answer sv
     else if code = CMD_REGISTER_ROLE then rpc_register_role_skel se c obj answer sv
     else if code = CMD_SYSTEM_RESTART then rpc_system_restart_skel obj answer sv
     else if code = CMD_SYSTEM_SHUTDOWN then rpc_system_shutdown_skel obj answer sv
     else if code = CMD_FIRMWARE_DOWNLOAD
     then do { (_, answer, sv) \<leftarrow> rpc_firmware_download_skel se run obj answer sv; Some (DM_OK, answer, sv) }
     else if code = CMD_FIRMWARE_COMMIT
     then do { (_, answer, sv) \<leftarrow> rpc_firmware_commit_skel se run obj answer sv; Some (DM_OK, answer, sv) }
     else if code = CMD_SET_BOOT_ORDER
     then do { (_, answer, sv) \<leftarrow> rpc_set_boot_order_skel se run obj answer sv; Some (DM_OK, answer, sv) }
     else Some (DM_RC RC_ERR_CONNECTION, answer, sv))"

definition rpc_dmconfig_switch ::
  "srv_env \<Rightarrow> agent_run \<Rightarrow> nat \<Rightarrow> DMC_REQUEST \<Rightarrow> DM2_AVPGRP \<Rightarrow> server \<Rightarrow> (DM_RESULT \<times> DM2_REQUEST option \<times> server) option" where
  "rpc_dmconfig_switch se run c req obj sv =
     (if dr_code req = CMD_ENDSESSION
      then do { (r, sv) \<leftarrow> rpc_endsession_skel se c obj sv; Some (r, None, sv) }
      else do {
        q \<leftarrow> dm_new_request (se_mem se) (se_mem se sizeof_DM2_REQUEST) (dr_code req) 0 (dr_hop2hop req) (dr_end2end req);
        case q of
          None \<Rightarrow> Some (DM_RC RC_ERR_ALLOC, None, sv)
        | Some answer \<Rightarrow> do {
            (pos, r, answer) \<leftarrow> dm_add_uint32_get_pos (se_mem se) answer AVP_RC VP_TRAVELPING (rc_number RC_OK);
            if r \<noteq> RC_OK then Some (as_result r, Some answer, sv)
            else do {
              (r, answer, sv) \<leftarrow> dispatch se run c (dr_code req) obj answer sv;
              if r \<noteq> DM_RC RC_ERR_ALLOC
              then do {
                answer \<leftarrow> dm_put_uint32_at_pos answer pos (result_number r);
                (r, answer) \<leftarrow> dm_finalize_packet answer;
                Some (as_result r, Some answer, sv) }
              else Some (r, Some answer, sv) } } })"

definition request_cb :: "srv_env \<Rightarrow> agent_run \<Rightarrow> nat \<Rightarrow> u8 list \<Rightarrow> DM2_AVPGRP \<Rightarrow> server \<Rightarrow> server option" where
  "request_cb se run c pkt grp sv = do {
     hop2hop \<leftarrow> dm_hop2hop_id pkt;
     end2end \<leftarrow> dm_end2end_id pkt;
     code \<leftarrow> dm_packet_code pkt;
     (r, answer, sv) \<leftarrow> rpc_dmconfig_switch se run c \<lparr>dr_hop2hop = hop2hop, dr_end2end = end2end, dr_code = code\<rparr> grp sv;
     if r = DM_RC RC_ERR_ALLOC then shutdown_session se c sv
     else case answer of
       None \<Rightarrow> Some sv
     | Some a \<Rightarrow> do { (_, sent) \<leftarrow> dm_enqueue se c a (sv_sent sv); Some (sv\<lparr>sv_sent := sent\<rparr>) } }"

text \<open>A complete packet of a connection, \<^verbatim>\<open>libdmconfig/dmcontext.c\<close>.\<close>

definition process_request :: "srv_env \<Rightarrow> agent_run \<Rightarrow> nat \<Rightarrow> u8 list \<Rightarrow> server \<Rightarrow> server option" where
  "process_request se run c pkt sv = do {
     grp \<leftarrow> dm_init_packet pkt;
     request_cb se run c pkt grp sv }"

end
