(* ===== verification/Dm_Session.thy ===== *)
theory Dm_Session
  imports Dm_Rpc
begin

text \<open>
  Sessions over arbitrary sequences of events. \<open>steps\<close> relates a server to every server that it can become: connections
  come and go, timers expire, and packets with any content arrive, in any order. The configure lock is
  held by at most one session, which is the one whose flags say so, and it is free again after that session has ended.
\<close>

section \<open>What handlers leave alone\<close>

text \<open>Most handlers change the store and the messages only.\<close>

definition same_sessions :: "server \<Rightarrow> server \<Rightarrow> bool" where
  "same_sessions sv sv' \<longleftrightarrow> sv_socks sv' = sv_socks sv \<and> sv_cfg sv' = sv_cfg sv \<and> sv_counter sv' = sv_counter sv"

lemma same_refl [simp]: "same_sessions sv sv"
  by (simp add: same_sessions_def)

lemma same_trans: "same_sessions a b \<Longrightarrow> same_sessions b c \<Longrightarrow> same_sessions a c"
  by (simp add: same_sessions_def)

lemma same_upd [simp]:
  "same_sessions sv (sv\<lparr>sv_dm := x\<rparr>)" "same_sessions sv (sv\<lparr>sv_sent := y\<rparr>)" "same_sessions sv (sv\<lparr>sv_sent := y, sv_dm := x\<rparr>)"
  by (simp_all add: same_sessions_def)

named_theorems keeps_sessions \<open>handlers that leave the sessions alone\<close>

lemma run_actions_same [keeps_sessions]: "run_actions se sv = Some sv' \<Longrightarrow> same_sessions sv sv'"
  by (auto simp: run_actions_def bind_Some_iff)

lemma run_actions_pre_same [keeps_sessions]: "run_actions_pre se sv = Some sv' \<Longrightarrow> same_sessions sv sv'"
  by (auto simp: run_actions_pre_def bind_Some_iff)

lemma sessioninfo_same [keeps_sessions]: "rpc_sessioninfo se c a sv = Some (r, a', sv') \<Longrightarrow> same_sessions sv sv'"
  by (auto simp: rpc_sessioninfo_def bind_Some_iff)

lemma cfgsessioninfo_same [keeps_sessions]: "rpc_cfgsessioninfo se a sv = Some (r, a', sv') \<Longrightarrow> same_sessions sv sv'"
  by (auto simp: rpc_cfgsessioninfo_def bind_Some_iff split: option.splits)

lemma unsubscribe_same [keeps_sessions]: "rpc_unsubscribe_notify se c sv = Some (r, sv') \<Longrightarrow> same_sessions sv sv'"
  by (auto simp: rpc_unsubscribe_notify_def bind_Some_iff split: if_splits)

lemma param_notify_same [keeps_sessions]: "rpc_param_notify se c n ps sv = Some (r, sv') \<Longrightarrow> same_sessions sv sv'"
  by (auto simp: rpc_param_notify_def bind_Some_iff split: if_splits)

lemma recursive_param_notify_same [keeps_sessions]:
  "rpc_recursive_param_notify se c n p sv = Some (r, sv') \<Longrightarrow> same_sessions sv sv'"
  by (auto simp: rpc_recursive_param_notify_def bind_Some_iff split: if_splits)

lemma get_passive_same [keeps_sessions]:
  "rpc_get_passive_notifications se c a sv = Some (r, a', sv') \<Longrightarrow> same_sessions sv sv'"
  by (auto simp: rpc_get_passive_notifications_def bind_Some_iff Let_def split: if_splits)

lemma addinstance_same [keeps_sessions]: "rpc_db_addinstance se p x a sv = Some (r, a', sv') \<Longrightarrow> same_sessions sv sv'"
  by (auto simp: rpc_db_addinstance_def bind_Some_iff Let_def split: if_splits)

lemma delinstance_same [keeps_sessions]: "rpc_db_delinstance se p sv = Some (r, sv') \<Longrightarrow> same_sessions sv sv'"
  by (auto simp: rpc_db_delinstance_def bind_Some_iff)

lemma db_set_same [keeps_sessions]: "rpc_db_set se c vs sv = Some (r, sv') \<Longrightarrow> same_sessions sv sv'"
  by (auto simp: rpc_db_set_def bind_Some_iff)

lemma db_get_same [keeps_sessions]: "rpc_db_get se c ps a sv = Some (r, a', sv') \<Longrightarrow> same_sessions sv sv'"
  by (auto simp: rpc_db_get_def bind_Some_iff)

lemma db_list_same [keeps_sessions]: "rpc_db_list se l p a sv = Some (r, a', sv') \<Longrightarrow> same_sessions sv sv'"
  by (auto simp: rpc_db_list_def bind_Some_iff Let_def)

lemma retrieve_enum_same [keeps_sessions]: "rpc_db_retrieve_enum se p a sv = Some (r, a', sv') \<Longrightarrow> same_sessions sv sv'"
  by (auto simp: rpc_db_retrieve_enum_def bind_Some_iff)

lemma dump_same [keeps_sessions]: "rpc_db_dump se p a sv = Some (r, a', sv') \<Longrightarrow> same_sessions sv sv'"
  by (auto simp: rpc_db_dump_def bind_Some_iff split: option.splits list.splits)

lemma save_same [keeps_sessions]: "rpc_db_save se c sv = Some (r, sv') \<Longrightarrow> same_sessions sv sv'"
  by (auto simp: rpc_db_save_def bind_Some_iff)

lemma commit_same [keeps_sessions]: "rpc_db_commit se c sv = Some (r, sv') \<Longrightarrow> same_sessions sv sv'"
  by (auto simp: rpc_db_commit_def bind_Some_iff Let_def same_sessions_def split: if_splits
      dest!: run_actions_same run_actions_pre_same)

lemma cancel_same [keeps_sessions]: "rpc_db_cancel se c sv = Some (r, sv') \<Longrightarrow> same_sessions sv sv'"
  by (auto simp: rpc_db_cancel_def bind_Some_iff split: if_splits)

lemma findinstance_same [keeps_sessions]:
  "rpc_db_findinstance se p n v a sv = Some (r, a', sv') \<Longrightarrow> same_sessions sv sv'"
  by (auto simp: rpc_db_findinstance_def bind_Some_iff Let_def same_sessions_def split: option.splits if_splits)

section \<open>The invariant\<close>

text \<open>
  No two connections have one session number or one role; session numbers are below the counter; a session has the
  configure flag exactly when it holds the lock; and whoever holds the lock is connected.
\<close>

definition configures :: "sockContext \<Rightarrow> bool" where
  "configures x \<longleftrightarrow> sk_flags x AND CMD_FLAG_CONFIGURE \<noteq> 0"

definition ctx_ok :: "u32 \<Rightarrow> u32 \<Rightarrow> sockContext \<Rightarrow> bool" where
  "ctx_ok cfg counter x \<longleftrightarrow> sk_id x < counter \<and> (configures x \<longleftrightarrow> sk_id x \<noteq> 0 \<and> cfg = sk_id x)"

definition apart :: "sockContext \<Rightarrow> sockContext \<Rightarrow> bool" where
  "apart x y \<longleftrightarrow> (sk_id x = sk_id y \<longrightarrow> sk_id x = 0) \<and> (sk_role x = sk_role y \<longrightarrow> sk_role x = None)"

definition contexts_ok :: "(nat \<Rightarrow> sockContext option) \<Rightarrow> u32 \<Rightarrow> u32 \<Rightarrow> bool" where
  "contexts_ok M cfg counter \<longleftrightarrow>
     (\<forall>c x. M c = Some x \<longrightarrow> ctx_ok cfg counter x) \<and>
     (\<forall>c d x y. M c = Some x \<and> M d = Some y \<and> c \<noteq> d \<longrightarrow> apart x y) \<and>
     (cfg \<noteq> 0 \<longrightarrow> (\<exists>c x. M c = Some x \<and> sk_id x = cfg))"

definition session_ok :: "server \<Rightarrow> bool" where
  "session_ok sv \<longleftrightarrow> distinct (map fst (sv_socks sv)) \<and> sv_counter sv \<noteq> 0 \<and>
     contexts_ok (get_ctx sv) (sv_cfg sv) (sv_counter sv)"

lemma same_sessions_ok: "same_sessions sv sv' \<Longrightarrow> session_ok sv' = session_ok sv"
  by (simp add: same_sessions_def session_ok_def get_ctx_def [abs_def])

lemma map_of_update: "map_of (map (\<lambda>(a, x). (a, if a = c then f x else x)) xs) d = map_option (if d = c then f else (\<lambda>x. x)) (map_of xs d)"
  by (induction xs) (auto simp: option.map_ident)

lemma get_ctx_upd: "get_ctx (upd_ctx c f sv) = (case get_ctx sv c of None \<Rightarrow> get_ctx sv | Some x \<Rightarrow> (get_ctx sv)(c \<mapsto> f x))"
  by (rule ext) (auto simp: get_ctx_def upd_ctx_def map_of_update option.map_ident split: option.splits)

lemma upd_ctx_fields [simp]:
  "sv_cfg (upd_ctx c f sv) = sv_cfg sv" "sv_counter (upd_ctx c f sv) = sv_counter sv" "sv_dm (upd_ctx c f sv) = sv_dm sv" "sv_sent (upd_ctx c f sv) = sv_sent sv"
  "map fst (sv_socks (upd_ctx c f sv)) = map fst (sv_socks sv)"
  by (auto simp: upd_ctx_def)

lemma get_ctx_fields [simp]:
  "get_ctx (sv\<lparr>sv_cfg := a\<rparr>) = get_ctx sv" "get_ctx (sv\<lparr>sv_counter := n\<rparr>) = get_ctx sv"
  "get_ctx (sv\<lparr>sv_dm := s\<rparr>) = get_ctx sv" "get_ctx (sv\<lparr>sv_sent := t\<rparr>) = get_ctx sv"
  by (simp_all add: get_ctx_def [abs_def])

lemma apart_sym: "apart x y = apart y x"
  by (auto simp: apart_def)

lemma contexts_okD:
  assumes "contexts_ok M cfg counter" and "M c = Some x"
  shows "ctx_ok cfg counter x" and "M d = Some y \<Longrightarrow> c \<noteq> d \<Longrightarrow> apart x y"
  using assms unfolding contexts_ok_def by blast+

lemma contexts_ok_cfg:
  assumes "contexts_ok M cfg counter" and "cfg \<noteq> 0"
  obtains c x where "M c = Some x" and "sk_id x = cfg" and "cfg < counter"
  using assms unfolding contexts_ok_def ctx_ok_def by blast

text \<open>One context changes, and perhaps the lock and the counter with it.\<close>

lemma contexts_ok_put:
  assumes ok: "contexts_ok M cfg counter"
    and new: "ctx_ok cfg' counter' x'"
    and others: "\<And>d y. M d = Some y \<Longrightarrow> d \<noteq> c \<Longrightarrow> ctx_ok cfg counter y \<Longrightarrow> ctx_ok cfg' counter' y \<and> apart x' y"
    and cfg: "cfg' \<noteq> 0 \<Longrightarrow> sk_id x' = cfg' \<or> (\<exists>d y. d \<noteq> c \<and> M d = Some y \<and> sk_id y = cfg')"
  shows "contexts_ok (M(c \<mapsto> x')) cfg' counter'"
proof -
  have old: "ctx_ok cfg' counter' y \<and> apart x' y \<and> apart y x'" if "M d = Some y" "d \<noteq> c" for d y
    using others [OF that contexts_okD(1) [OF ok that(1)]] apart_sym by blast
  have "apart y z" if "(M(c \<mapsto> x')) d = Some y" "(M(c \<mapsto> x')) e = Some z" "d \<noteq> e" for d e y z
    using that old contexts_okD(2) [OF ok, of d y e z] by (auto split: if_splits)
  moreover have "ctx_ok cfg' counter' y" if "(M(c \<mapsto> x')) d = Some y" for d y
    using that old new by (auto split: if_splits)
  moreover have "\<exists>d y. (M(c \<mapsto> x')) d = Some y \<and> sk_id y = cfg'" if "cfg' \<noteq> 0"
    using cfg [OF that] by (metis fun_upd_apply)
  ultimately show ?thesis unfolding contexts_ok_def by blast
qed

text \<open>A context that keeps its session may change otherwise, as long as its role is its own.\<close>

lemma contexts_ok_touch:
  assumes ok: "contexts_ok M cfg counter" and c: "M c = Some x"
    and x': "sk_id x' = sk_id x" "sk_flags x' = sk_flags x"
    and role: "sk_role x' = sk_role x \<or> (\<forall>d y. M d = Some y \<longrightarrow> d \<noteq> c \<longrightarrow> sk_role y \<noteq> sk_role x')"
  shows "contexts_ok (M(c \<mapsto> x')) cfg counter"
proof (rule contexts_ok_put [OF ok])
  show "ctx_ok cfg counter x'"
    using contexts_okD(1) [OF ok c] x' by (simp add: ctx_ok_def configures_def)
  show "ctx_ok cfg counter y \<and> apart x' y" if d: "M d = Some y" "d \<noteq> c" and y: "ctx_ok cfg counter y" for d y
    using y contexts_okD(2) [OF ok c d(1) d(2) [symmetric]] x' role d by (metis apart_def)
  show "sk_id x' = cfg \<or> (\<exists>d y. d \<noteq> c \<and> M d = Some y \<and> sk_id y = cfg)" if "cfg \<noteq> 0"
    using contexts_ok_cfg [OF ok that] c x' by (metis option.inject)
qed

text \<open>A context without a session gets the number of the counter.\<close>

lemma contexts_ok_start:
  assumes ok: "contexts_ok M cfg counter" and c: "M c = Some x" and idle: "sk_id x = 0"
    and counter: "counter \<noteq> 0" "counter < counter'"
    and x': "sk_id x' = counter" "sk_role x' = sk_role x"
    and cfg: "if configures x' then cfg = 0 \<and> cfg' = counter else cfg' = cfg"
  shows "contexts_ok (M(c \<mapsto> x')) cfg' counter'"
proof (rule contexts_ok_put [OF ok])
  have "cfg < counter" if "cfg \<noteq> 0"
    using that by (rule contexts_ok_cfg [OF ok])
  then have held: "cfg < counter" using counter(1) word_gt_0 [of counter] by blast
  then show "ctx_ok cfg' counter' x'" using counter x' cfg by (auto simp: ctx_ok_def split: if_splits)
  show "ctx_ok cfg' counter' y \<and> apart x' y" if d: "M d = Some y" "d \<noteq> c" and y: "ctx_ok cfg counter y" for d y
    using y contexts_okD(2) [OF ok c d(1) d(2) [symmetric]] x' cfg counter
    by (auto simp: ctx_ok_def apart_def split: if_splits)
  show "sk_id x' = cfg' \<or> (\<exists>d y. d \<noteq> c \<and> M d = Some y \<and> sk_id y = cfg')" if "cfg' \<noteq> 0"
  proof (cases "configures x'")
    case False
    then have "cfg \<noteq> 0" "cfg' = cfg" using cfg that by auto
    then show ?thesis using contexts_ok_cfg [OF ok] c idle by (metis option.inject)
  qed (use cfg x' in auto)
qed

text \<open>A session gives up the lock, or takes it when it is free or its own.\<close>

lemma contexts_ok_switch:
  assumes ok: "contexts_ok M cfg counter" and c: "M c = Some x" and on: "sk_id x \<noteq> 0"
    and x': "sk_id x' = sk_id x" "sk_role x' = sk_role x"
    and cfg: "if configures x' then (cfg = 0 \<or> cfg = sk_id x) \<and> cfg' = sk_id x
              else cfg' = (if cfg = sk_id x then 0 else cfg)"
  shows "contexts_ok (M(c \<mapsto> x')) cfg' counter"
proof (rule contexts_ok_put [OF ok])
  note x = contexts_okD(1) [OF ok c]
  show "ctx_ok cfg' counter x'" using x on x' cfg by (auto simp: ctx_ok_def split: if_splits)
  show "ctx_ok cfg' counter y \<and> apart x' y" if d: "M d = Some y" "d \<noteq> c" and y: "ctx_ok cfg counter y" for d y
    using y contexts_okD(2) [OF ok c d(1) d(2) [symmetric]] x' cfg on
    by (auto simp: ctx_ok_def apart_def split: if_splits)
  show "sk_id x' = cfg' \<or> (\<exists>d y. d \<noteq> c \<and> M d = Some y \<and> sk_id y = cfg')" if "cfg' \<noteq> 0"
  proof (cases "configures x'")
    case False
    then have "cfg \<noteq> 0" "cfg' = cfg" "cfg \<noteq> sk_id x" using cfg that by (auto split: if_splits)
    then show ?thesis using contexts_ok_cfg [OF ok] c by (metis option.inject)
  qed (use cfg x' in auto)
qed

lemma contexts_ok_remove:
  assumes ok: "contexts_ok M cfg counter" and c: "M c = Some x" and cfg: "cfg' = (if cfg = sk_id x then 0 else cfg)"
  shows "contexts_ok (M(c := None)) cfg' counter"
proof -
  have "ctx_ok cfg' counter y" if d: "M d = Some y" "d \<noteq> c" for d y
    using contexts_okD(1) [OF ok d(1)] contexts_okD(2) [OF ok c d(1) d(2) [symmetric]] contexts_okD(1) [OF ok c] cfg
    by (auto simp: ctx_ok_def apart_def)
  moreover have "\<exists>d y. (M(c := None)) d = Some y \<and> sk_id y = cfg'" if "cfg' \<noteq> 0"
    using contexts_ok_cfg [OF ok] c cfg that by (metis fun_upd_apply option.inject)
  ultimately show ?thesis using ok unfolding contexts_ok_def by (auto split: if_splits)
qed

lemma contexts_ok_add:
  assumes ok: "contexts_ok M cfg counter" and c: "M c = None" and counter: "counter \<noteq> 0"
  shows "contexts_ok (M(c \<mapsto> new_ctx)) cfg counter"
proof (rule contexts_ok_put [OF ok])
  show "ctx_ok cfg counter new_ctx"
    using counter by (simp add: ctx_ok_def new_ctx_def configures_def word_neq_0_conv)
  show "ctx_ok cfg counter y \<and> apart new_ctx y" if d: "M d = Some y" "d \<noteq> c" and y: "ctx_ok cfg counter y" for d y
    using y by (auto simp: apart_def new_ctx_def)
  show "sk_id new_ctx = cfg \<or> (\<exists>d y. d \<noteq> c \<and> M d = Some y \<and> sk_id y = cfg)" if "cfg \<noteq> 0"
    using contexts_ok_cfg [OF ok that] c by (metis option.distinct(1))
qed

section \<open>Handlers that change sessions\<close>

lemma session_okD:
  assumes "session_ok sv"
  shows "distinct (map fst (sv_socks sv))" and "sv_counter sv \<noteq> 0" and "contexts_ok (get_ctx sv) (sv_cfg sv) (sv_counter sv)"
  using assms by (simp_all add: session_ok_def)

lemma get_ctx_filter: "get_ctx (sv\<lparr>sv_socks := filter (\<lambda>(a, _). a \<noteq> c) (sv_socks sv)\<rparr>) = (get_ctx sv)(c := None)"
proof -
  have "map_of (filter (\<lambda>(a, _). a \<noteq> c) xs) = (map_of xs)(c := None)" for xs :: "(nat \<times> sockContext) list"
    by (induction xs) auto
  then show ?thesis by (simp add: get_ctx_def [abs_def])
qed

text \<open>What the end of a session does to the sessions: the context is gone, and the lock with it if it held the lock.\<close>

lemma end_session_effect:
  assumes "end_session se c sv = Some sv'" and "get_ctx sv c = Some x"
  shows "get_ctx sv' = (get_ctx sv)(c := None)" and "sv_cfg sv' = (if sv_cfg sv = sk_id x then 0 else sv_cfg sv)"
    and "sv_counter sv' = sv_counter sv" and "sv_socks sv' = filter (\<lambda>(a, _). a \<noteq> c) (sv_socks sv)"
proof -
  have "sv_cfg sv' = (if sv_cfg sv = sk_id x then 0 else sv_cfg sv) \<and> sv_counter sv' = sv_counter sv \<and>
    sv_socks sv' = filter (\<lambda>(a, _). a \<noteq> c) (sv_socks sv)"
    using assms unfolding end_session_def
    by (auto simp: bind_Some_iff Let_def same_sessions_def split: if_splits dest!: run_actions_same run_actions_pre_same)
  then show "sv_cfg sv' = (if sv_cfg sv = sk_id x then 0 else sv_cfg sv)" and "sv_counter sv' = sv_counter sv"
    and socks: "sv_socks sv' = filter (\<lambda>(a, _). a \<noteq> c) (sv_socks sv)" by blast+
  show "get_ctx sv' = (get_ctx sv)(c := None)"
    using get_ctx_filter [where sv = sv and c = c] socks by (simp add: get_ctx_def [abs_def])
qed

lemma end_session_connected: "end_session se c sv = Some sv' \<Longrightarrow> \<exists>x. get_ctx sv c = Some x"
  by (auto simp: end_session_def bind_Some_iff)

lemma distinct_filter_fst: "distinct (map fst xs) \<Longrightarrow> distinct (map fst (filter P xs))"
  by (induction xs) auto

lemma end_session_ok:
  assumes ok: "session_ok sv" and e: "end_session se c sv = Some sv'"
  shows "session_ok sv'"
proof -
  obtain x where x: "get_ctx sv c = Some x" using end_session_connected [OF e] ..
  note eff = end_session_effect [OF e x]
  show ?thesis
    unfolding session_ok_def eff
    using session_okD(1,2) [OF ok] contexts_ok_remove [OF session_okD(3) [OF ok] x refl]
    by (simp add: distinct_filter_fst)
qed

lemma accept_ok:
  assumes ok: "session_ok sv" and new: "get_ctx sv c = None" and a: "accept_cb se True mem c sv = Some (r, sv')"
  shows "session_ok sv'"
proof (cases mem)
  case True
  then have sv': "sv' = sv\<lparr>sv_socks := sv_socks sv @ [(c, new_ctx)]\<rparr>" using a by (simp add: accept_cb_def)
  have "get_ctx sv' = (get_ctx sv)(c \<mapsto> new_ctx)"
    using new unfolding sv' get_ctx_def by (auto simp: map_add_def fun_eq_iff split: option.splits)
  moreover have "distinct (map fst (sv_socks sv'))"
    using session_okD(1) [OF ok] new unfolding sv' get_ctx_def by (auto simp: map_of_eq_None_iff)
  ultimately show ?thesis
    using contexts_ok_add [OF session_okD(3) [OF ok] new session_okD(2) [OF ok]] session_okD(2) [OF ok]
    by (simp add: session_ok_def sv')
next
  case False
  then show ?thesis using a ok by (simp add: accept_cb_def)
qed

text \<open>What follows an update of one context.\<close>

lemma session_ok_upd:
  assumes "session_ok sv" and "get_ctx sv c = Some x" and "sv_counter sv' \<noteq> 0"
    and "map fst (sv_socks sv') = map fst (sv_socks sv)" and "get_ctx sv' = (get_ctx sv)(c \<mapsto> x')"
    and "contexts_ok ((get_ctx sv)(c \<mapsto> x')) (sv_cfg sv') (sv_counter sv')"
  shows "session_ok sv'"
  using assms by (simp add: session_ok_def)

lemma start_session_effect:
  assumes s: "rpc_startsession c flags timeout sv = Some (DM_OK, sv')" and x: "get_ctx sv c = Some x"
  shows "sk_id x = 0" and "map fst (sv_socks sv') = map fst (sv_socks sv)"
    and "get_ctx sv' = (get_ctx sv)(c \<mapsto> x\<lparr>sk_id := sv_counter sv, sk_flags := flags, sk_timer := (sk_timer x \<or> timeout > 0)\<rparr>)"
    and "sv_cfg sv' = (if flags AND CMD_FLAG_CONFIGURE \<noteq> 0 then sv_counter sv else sv_cfg sv)"
    and "flags AND CMD_FLAG_CONFIGURE \<noteq> 0 \<Longrightarrow> sv_cfg sv = 0"
    and "sv_counter sv' = (if sv_counter sv + 1 = 0 then 1 else sv_counter sv + 1)"
    and "sv_dm sv' = sv_dm sv" and "sv_sent sv' = sv_sent sv"
  using s x unfolding rpc_startsession_def
  by (auto simp: Let_def get_ctx_upd split: if_splits)

lemma start_session_error:
  assumes "rpc_startsession c flags timeout sv = Some (r, sv')" and "r \<noteq> DM_OK"
  shows "sv' = sv"
  using assms by (auto simp: rpc_startsession_def bind_Some_iff Let_def split: if_splits)

lemma word_less_inc: "w + 1 \<noteq> 0 \<Longrightarrow> w < w + 1" for w :: "'a::len word"
  using inc_less_eq_iff [of w "w + 1"] inc_less_eq_triv_imp by fastforce

lemma start_session_ok:
  assumes ok: "session_ok sv" and s: "rpc_startsession c flags timeout sv = Some (r, sv')"
    and room: "sv_counter sv + 1 \<noteq> 0"
  shows "session_ok sv'"
proof (cases "r = DM_OK")
  case True
  obtain x where x: "get_ctx sv c = Some x" using s by (auto simp: rpc_startsession_def bind_Some_iff)
  note eff = start_session_effect [OF s [unfolded True] x]
  have "contexts_ok (get_ctx sv') (sv_cfg sv') (sv_counter sv')"
    unfolding eff(3)
    by (rule contexts_ok_start [OF session_okD(3) [OF ok] x eff(1) session_okD(2) [OF ok]])
       (use eff(4-6) room word_less_inc [OF room] in \<open>auto simp: configures_def\<close>)
  then show ?thesis using ok eff(2,6) room by (simp add: session_ok_def)
next
  case False
  then show ?thesis using start_session_error [OF s] ok by simp
qed

lemma switch_session_effect:
  assumes s: "rpc_switchsession se c flags timeout sv = Some (DM_OK, sv')" and x: "get_ctx sv c = Some x"
  shows "sk_id x \<noteq> 0" and "map fst (sv_socks sv') = map fst (sv_socks sv)"
    and "get_ctx sv' = (get_ctx sv)(c \<mapsto> x\<lparr>sk_flags := flags, sk_timer := (sk_timer x \<or> timeout > 0)\<rparr>)"
    and "if flags AND CMD_FLAG_CONFIGURE \<noteq> 0 then (sv_cfg sv = 0 \<or> sv_cfg sv = sk_id x) \<and> sv_cfg sv' = sk_id x
         else sv_cfg sv' = (if sv_cfg sv = sk_id x then 0 else sv_cfg sv)"
    and "sv_counter sv' = sv_counter sv"
  using s x unfolding rpc_switchsession_def
  by ((cases "timeout > 0"; auto simp: Let_def get_ctx_upd bind_Some_iff split: if_splits))+

lemma switch_session_error:
  assumes "rpc_switchsession se c flags timeout sv = Some (r, sv')" and "r \<noteq> DM_OK"
  shows "sv' = sv"
  using assms by (auto simp: rpc_switchsession_def bind_Some_iff Let_def split: if_splits)

lemma switch_session_ok:
  assumes ok: "session_ok sv" and s: "rpc_switchsession se c flags timeout sv = Some (r, sv')"
  shows "session_ok sv'"
proof (cases "r = DM_OK")
  case True
  obtain x where x: "get_ctx sv c = Some x" using s by (auto simp: rpc_switchsession_def bind_Some_iff)
  note eff = switch_session_effect [OF s [unfolded True] x]
  have "contexts_ok (get_ctx sv') (sv_cfg sv') (sv_counter sv)"
    unfolding eff(3)
    by (rule contexts_ok_switch [OF session_okD(3) [OF ok] x eff(1)]) (use eff(4) in \<open>auto simp: configures_def\<close>)
  then show ?thesis using ok eff(2,5) by (simp add: session_ok_def)
next
  case False
  then show ?thesis using switch_session_error [OF s] ok by simp
qed

lemma subscribe_ok:
  assumes ok: "session_ok sv" and s: "rpc_subscribe_notify c sv = Some (r, sv')"
  shows "session_ok sv'"
proof -
  obtain x where x: "get_ctx sv c = Some x" using s by (auto simp: rpc_subscribe_notify_def bind_Some_iff)
  show ?thesis
  proof (cases "sk_slot x = 0")
    case True
    then obtain slot dm where sv': "sv' = upd_ctx c (\<lambda>x. x\<lparr>sk_slot := slot\<rparr>) (sv\<lparr>sv_dm := dm\<rparr>)"
      using s x by (auto simp: rpc_subscribe_notify_def bind_Some_iff Let_def)
    have "get_ctx sv' = (get_ctx sv)(c \<mapsto> x\<lparr>sk_slot := slot\<rparr>)" by (simp add: sv' get_ctx_upd x)
    moreover have "contexts_ok ((get_ctx sv)(c \<mapsto> x\<lparr>sk_slot := slot\<rparr>)) (sv_cfg sv) (sv_counter sv)"
      by (rule contexts_ok_touch [OF session_okD(3) [OF ok] x]) simp_all
    ultimately show ?thesis using ok by (simp add: session_ok_def sv')
  next
    case False
    then show ?thesis using s x ok by (simp add: rpc_subscribe_notify_def)
  qed
qed

lemma register_role_ok:
  assumes ok: "session_ok sv" and s: "rpc_register_role se c role sv = Some (r, sv')"
  shows "session_ok sv'"
proof -
  obtain x where x: "get_ctx sv c = Some x" using s by (auto simp: rpc_register_role_def bind_Some_iff)
  show ?thesis
  proof (cases "sk_role x = None \<and> find_role role sv = None")
    case True
    define x' where "x' = x\<lparr>sk_role := (if se_mem se (length role + 1) then Some role else None)\<rparr>"
    have sv': "sv' = upd_ctx c (\<lambda>x. x\<lparr>sk_role := (if se_mem se (length role + 1) then Some role else None)\<rparr>) sv"
      using s x True by (simp add: rpc_register_role_def)
    have "get_ctx sv' = (get_ctx sv)(c \<mapsto> x')" by (simp add: sv' get_ctx_upd x x'_def)
    moreover have "sk_role y \<noteq> Some role" if "get_ctx sv d = Some y" for d y
      using True that by (auto simp: find_role_def find_None_iff get_ctx_def dest: map_of_SomeD)
    then have "contexts_ok ((get_ctx sv)(c \<mapsto> x')) (sv_cfg sv) (sv_counter sv)"
      using True by (intro contexts_ok_touch [OF session_okD(3) [OF ok] x]) (auto simp: x'_def)
    ultimately show ?thesis using ok by (simp add: session_ok_def sv')
  next
    case False
    then have "sv' = sv" using s x by (auto simp: rpc_register_role_def split: option.splits if_splits)
    then show ?thesis using ok by simp
  qed
qed

section \<open>Commands\<close>

text \<open>What holds of the server after a command, when the command returns.\<close>

definition keeps :: "(server \<Rightarrow> bool) \<Rightarrow> rpc_res \<Rightarrow> bool" where
  "keeps Q x \<longleftrightarrow> (\<forall>r a sv'. x = Some (r, a, sv') \<longrightarrow> Q sv')"

lemma keepsI: "(\<And>r a sv'. x = Some (r, a, sv') \<Longrightarrow> Q sv') \<Longrightarrow> keeps Q x"
  by (simp add: keeps_def)

lemma keepsD: "keeps Q x \<Longrightarrow> x = Some (r, a, sv') \<Longrightarrow> Q sv'"
  by (simp add: keeps_def)

lemma keeps_mono: "keeps Q x \<Longrightarrow> (\<And>sv'. Q sv' \<Longrightarrow> R sv') \<Longrightarrow> keeps R x"
  by (simp add: keeps_def)

lemma keeps_fail: "Q sv \<Longrightarrow> keeps Q (Some (r, a, sv))"
  by (simp add: keeps_def)

lemma keeps_arg: "(\<And>r. keeps Q (fail r)) \<Longrightarrow> (\<And>y obj. keeps Q (k y obj)) \<Longrightarrow> keeps Q (arg x fail k)"
  by (auto simp: keeps_def arg_def bind_Some_iff split: if_splits)

lemma keeps_no_more: "(\<And>r. keeps Q (fail r)) \<Longrightarrow> keeps Q k \<Longrightarrow> keeps Q (no_more obj fail k)"
  by (simp add: no_more_def Let_def)

lemma keeps_silent: "(\<And>r sv'. x = Some (r, sv') \<Longrightarrow> Q sv') \<Longrightarrow> keeps Q (silent a x)"
  by (auto simp: keeps_def silent_def bind_Some_iff)

lemma keeps_bind: "(\<And>y. keeps Q (k y)) \<Longrightarrow> keeps Q (Option.bind x k)"
  by (auto simp: keeps_def bind_Some_iff)

lemma keeps_split: "(\<And>y z. keeps Q (k y z)) \<Longrightarrow> keeps Q (case p of (y, z) \<Rightarrow> k y z)"
  by (simp split: prod.split)

lemma keeps_if: "keeps Q x \<Longrightarrow> keeps Q y \<Longrightarrow> keeps Q (if b then x else y)"
  by simp

lemmas keep_rules = keeps_fail keeps_arg keeps_no_more keeps_silent keeps_bind keeps_split keeps_if

text \<open>The commands that leave the sessions alone.\<close>

lemma quiet_skels:
  "keeps (same_sessions sv) (rpc_sessioninfo_skel se c obj a sv)"
  "keeps (same_sessions sv) (rpc_cfgsessioninfo_skel se obj a sv)"
  "keeps (same_sessions sv) (rpc_unsubscribe_notify_skel se c obj a sv)"
  "keeps (same_sessions sv) (rpc_param_notify_skel se c obj a sv)"
  "keeps (same_sessions sv) (rpc_recursive_param_notify_skel se c obj a sv)"
  "keeps (same_sessions sv) (rpc_get_passive_notifications_skel se c obj a sv)"
  "keeps (same_sessions sv) (rpc_db_addinstance_skel se obj a sv)"
  "keeps (same_sessions sv) (rpc_db_delinstance_skel se obj a sv)"
  "keeps (same_sessions sv) (rpc_db_set_skel se c obj a sv)"
  "keeps (same_sessions sv) (rpc_db_get_skel se c obj a sv)"
  "keeps (same_sessions sv) (rpc_db_list_skel se obj a sv)"
  "keeps (same_sessions sv) (rpc_db_retrieve_enum_skel se obj a sv)"
  "keeps (same_sessions sv) (rpc_db_dump_skel se obj a sv)"
  "keeps (same_sessions sv) (rpc_db_save_skel se c obj a sv)"
  "keeps (same_sessions sv) (rpc_db_commit_skel se c obj a sv)"
  "keeps (same_sessions sv) (rpc_db_cancel_skel se c obj a sv)"
  "keeps (same_sessions sv) (rpc_db_findinstance_skel se obj a sv)"
  "keeps (same_sessions sv) (rpc_system_restart_skel obj a sv)"
  "keeps (same_sessions sv) (rpc_system_shutdown_skel obj a sv)"
  unfolding rpc_sessioninfo_skel_def rpc_cfgsessioninfo_skel_def rpc_unsubscribe_notify_skel_def
    rpc_param_notify_skel_def rpc_recursive_param_notify_skel_def rpc_get_passive_notifications_skel_def
    rpc_db_addinstance_skel_def rpc_db_delinstance_skel_def rpc_db_set_skel_def rpc_db_get_skel_def rpc_db_list_skel_def
    rpc_db_retrieve_enum_skel_def rpc_db_dump_skel_def rpc_db_save_skel_def rpc_db_commit_skel_def
    rpc_db_cancel_skel_def rpc_db_findinstance_skel_def rpc_system_restart_skel_def rpc_system_shutdown_skel_def Let_def
  by (rule keep_rules same_refl | erule keeps_sessions | (rule keepsI, erule keeps_sessions))+

text \<open>The commands that change sessions.\<close>

lemma session_skels:
  assumes ok: "session_ok sv"
  shows "sv_counter sv + 1 \<noteq> 0 \<Longrightarrow> keeps session_ok (rpc_startsession_skel c obj a sv)"
    and "keeps session_ok (rpc_switchsession_skel se c obj a sv)"
    and "keeps session_ok (rpc_subscribe_notify_skel c obj a sv)"
    and "keeps session_ok (rpc_register_role_skel se c obj a sv)"
  unfolding rpc_startsession_skel_def rpc_switchsession_skel_def rpc_subscribe_notify_skel_def
    rpc_register_role_skel_def Let_def
  by (rule keep_rules ok | assumption |
      erule start_session_ok [OF ok] switch_session_ok [OF ok] subscribe_ok [OF ok] register_role_ok [OF ok])+

text \<open>The commands that wait for an agent: what happens meanwhile keeps the invariant.\<close>

definition loop_ok :: "agent_run \<Rightarrow> bool" where
  "loop_ok run \<longleftrightarrow> (\<forall>c sv r g sv'. run c sv = Some (r, g, sv') \<longrightarrow> session_ok sv \<longrightarrow> session_ok sv')"

lemma agent_call_ok:
  assumes run: "loop_ok run" and ok: "session_ok sv" and a: "agent_call se run code args c sv = Some (r, g, sv')"
  shows "session_ok sv'"
proof -
  obtain sent where "run c (sv\<lparr>sv_sent := sent\<rparr>) = Some (r, g, sv')"
    using a by (auto simp: agent_call_def bind_Some_iff)
  moreover have "session_ok (sv\<lparr>sv_sent := sent\<rparr>)" using ok same_sessions_ok [of sv "sv\<lparr>sv_sent := sent\<rparr>"] by simp
  ultimately show ?thesis using run unfolding loop_ok_def by blast
qed

lemma firmware_download_ok:
  assumes run: "loop_ok run" and ok: "session_ok sv"
  shows "keeps session_ok (rpc_firmware_download se run ad ct cr it tf rcnt ri rii a sv)"
proof (cases "find_role firmware_role sv")
  case None
  then show ?thesis using ok by (simp add: rpc_firmware_download_def keeps_fail)
next
  case (Some y)
  show ?thesis
  proof (rule keepsI)
    fix r a' sv' assume d: "rpc_firmware_download se run ad ct cr it tf rcnt ri rii a sv = Some (r, a', sv')"
    then obtain q g sv1 where c: "rpc_agent_firmware_download se run (fst y) ad ct cr it tf rcnt ri rii sv = Some (q, g, sv1)"
      by (auto simp: rpc_firmware_download_def Some bind_Some_iff split: prod.splits)
    then have "session_ok sv1" unfolding rpc_agent_firmware_download_def Let_def by (rule agent_call_ok [OF run ok])
    then have "keeps session_ok (rpc_firmware_download se run ad ct cr it tf rcnt ri rii a sv)"
      unfolding rpc_firmware_download_def Some option.case Let_def
      using c by (cases y) (auto simp: keeps_fail intro!: keeps_arg keeps_no_more keeps_bind)
    then show "session_ok sv'" using d by (rule keepsD)
  qed
qed

lemma firmware_skels:
  assumes run: "loop_ok run" and ok: "session_ok sv"
  shows "keeps session_ok (rpc_firmware_download_skel se run obj a sv)"
    and "keeps session_ok (rpc_firmware_commit_skel se run obj a sv)"
    and "keeps session_ok (rpc_set_boot_order_skel se run obj a sv)"
proof -
  note call = agent_call_ok [OF run ok]
  show "keeps session_ok (rpc_firmware_download_skel se run obj a sv)"
    unfolding rpc_firmware_download_skel_def Let_def
    by (rule keep_rules ok firmware_download_ok [OF run ok])+
  have "session_ok sv'" if "rpc_firmware_commit se run j sv = Some (r, sv')" for j r sv'
    using that ok call
    by (auto simp: rpc_firmware_commit_def rpc_agent_firmware_commit_def bind_Some_iff split: option.splits)
  then show "keeps session_ok (rpc_firmware_commit_skel se run obj a sv)"
    unfolding rpc_firmware_commit_skel_def Let_def using ok by (intro keep_rules)
  have "session_ok sv'" if "rpc_set_boot_order se run b sv = Some (r, sv')" for b r sv'
    using that ok call
    by (auto simp: rpc_set_boot_order_def rpc_agent_set_boot_order_def bind_Some_iff split: option.splits)
  then show "keeps session_ok (rpc_set_boot_order_skel se run obj a sv)"
    unfolding rpc_set_boot_order_skel_def using ok by (intro keep_rules)
qed

lemma dispatch_ok:
  assumes run: "loop_ok run" and ok: "session_ok sv" and room: "sv_counter sv + 1 \<noteq> 0"
  shows "keeps session_ok (dispatch se run c code obj a sv)"
proof -
  have same: "keeps session_ok x" if "keeps (same_sessions sv) x" for x
    using that by (rule keeps_mono) (use ok same_sessions_ok in blast)
  have drop_code: "keeps session_ok (Option.bind x (\<lambda>(_, a, sv). Some (DM_OK, a, sv)))" if "keeps session_ok x" for x
    using that by (auto simp: keeps_def bind_Some_iff)
  show ?thesis
    unfolding dispatch_def
    by (rule keeps_if keeps_fail ok drop_code session_skels [OF ok] room firmware_skels [OF run ok]
        | (rule same, rule quiet_skels))+
qed

lemma enqueue_same: "dm_enqueue se c req sent = Some (r, sent') \<Longrightarrow> same_sessions sv (sv\<lparr>sv_sent := sent'\<rparr>)"
  by simp

lemma switch_ok:
  assumes run: "loop_ok run" and ok: "session_ok sv" and room: "sv_counter sv + 1 \<noteq> 0"
    and s: "rpc_dmconfig_switch se run c req obj sv = Some (r, answer, sv')"
  shows "session_ok sv'"
proof (cases "dr_code req = CMD_ENDSESSION")
  case True
  then show ?thesis
    using s ok end_session_ok [OF ok]
    by (auto simp: rpc_dmconfig_switch_def rpc_endsession_skel_def rpc_endsession_def shutdown_session_def no_more_def
        Let_def bind_Some_iff split: if_splits)
next
  case False
  then show ?thesis
    using s ok keepsD [OF dispatch_ok [OF run ok room]]
    by (auto simp: rpc_dmconfig_switch_def bind_Some_iff split: if_splits option.splits)
qed

lemma process_request_ok:
  assumes run: "loop_ok run" and ok: "session_ok sv" and room: "sv_counter sv + 1 \<noteq> 0"
    and p: "process_request se run c pkt sv = Some sv'"
  shows "session_ok sv'"
proof -
  obtain req grp r answer sv1 where s: "rpc_dmconfig_switch se run c req grp sv = Some (r, answer, sv1)"
    and rest: "(if r = DM_RC RC_ERR_ALLOC then shutdown_session se c sv1
                else case answer of None \<Rightarrow> Some sv1
                  | Some a \<Rightarrow> do { (_, sent) \<leftarrow> dm_enqueue se c a (sv_sent sv1); Some (sv1\<lparr>sv_sent := sent\<rparr>) }) = Some sv'"
    using p by (auto simp: process_request_def request_cb_def bind_Some_iff)
  have ok1: "session_ok sv1" by (rule switch_ok [OF run ok room s])
  have "session_ok sv'" if "same_sessions sv1 sv'" using that ok1 same_sessions_ok by blast
  then show ?thesis
    using rest ok1 end_session_ok [OF ok1]
    by (auto simp: shutdown_session_def bind_Some_iff split: if_splits option.splits)
qed

section \<open>Sequences of events\<close>

text \<open>
  A packet is handled as long as the counter of sessions has not been used up, which it is after \<open>2 ^ 32 - 1\<close>
  sessions. While the server waits for an agent, it takes such steps itself.
\<close>

inductive steps :: "srv_env \<Rightarrow> server \<Rightarrow> server \<Rightarrow> bool" for se where
  steps_refl: "steps se a a"
| steps_connect: "steps se a b \<Longrightarrow> get_ctx b c = None \<Longrightarrow> accept_cb se True mem c b = Some (r, b') \<Longrightarrow> steps se a b'"
| steps_close: "steps se a b \<Longrightarrow> accept_cb se False mem c b = Some (r, b') \<Longrightarrow> steps se a b'"
| steps_timeout: "steps se a b \<Longrightarrow> get_ctx b c = Some x \<Longrightarrow> sk_timer x \<Longrightarrow> sessionTimeoutEvent se c b = Some b' \<Longrightarrow>
    steps se a b'"
| steps_notify: "steps se a b \<Longrightarrow>
    exec_pending_notifications (rb_root (se_dm se)) (dmconfig_notify_cb se (sv_socks b)) (sv_sent b, sv_dm b) = Some (sent, s) \<Longrightarrow>
    steps se a (b\<lparr>sv_sent := sent, sv_dm := s\<rparr>)"
| steps_request: "steps se a b \<Longrightarrow> sv_counter b + 1 \<noteq> 0 \<Longrightarrow>
    (\<forall>c sv r g sv'. run c sv = Some (r, g, sv') \<longrightarrow> steps se sv sv') \<Longrightarrow>
    process_request se run c pkt b = Some b' \<Longrightarrow> steps se a b'"

lemma steps_session_ok: "steps se a b \<Longrightarrow> session_ok a \<Longrightarrow> session_ok b"
proof (induction rule: steps.induct)
  case (steps_request a b run c pkt b')
  then have "loop_ok run" by (auto simp: loop_ok_def)
  then show ?case using steps_request process_request_ok by blast
next
  case (steps_notify a b sent s)
  then show ?case using same_sessions_ok [of b "b\<lparr>sv_sent := sent, sv_dm := s\<rparr>"] by simp
next
  case (steps_close a b mem c r b')
  then show ?case using end_session_ok by (auto simp: accept_cb_def bind_Some_iff)
next
  case (steps_timeout a b c x b')
  then show ?case using end_session_ok by (auto simp: sessionTimeoutEvent_def shutdown_session_def)
qed (auto intro: accept_ok)

lemma initial_session_ok: "session_ok (initial_server s)"
  by (simp add: session_ok_def initial_server_def contexts_ok_def get_ctx_def)

end
