(* ===== verification/Dm_Client.thy ===== *)
theory Dm_Client
  imports Dm_Rpc
begin

text \<open>
  The client's side of the protocol: the stubs of \<^verbatim>\<open>libdmconfig/dm_dmconfig_rpc_stub.c\<close> that build a request for
  a call, and the callback for the answer of \<^verbatim>\<open>libdmconfig/dmcontext.c\<close>. A stub returns its code and the packet that
  it has queued, if any; the identifiers that \<open>dm_enqueue\<close> writes into the packet are left out. The synchronous
  wrappers, which run the event loop until the callback has been called, are not modelled.
\<close>

definition stub ::
  "(nat \<Rightarrow> bool) \<Rightarrow> u32 \<Rightarrow> (DM2_REQUEST \<Rightarrow> (rc \<times> DM2_REQUEST) option) list \<Rightarrow> (rc \<times> u8 list option) option" where
  "stub mem code args = do {
     q \<leftarrow> dm_new_request mem (mem sizeof_DM2_REQUEST) code CMD_FLAG_REQUEST 0 0;
     case q of
       None \<Rightarrow> Some (RC_ERR_ALLOC, None)
     | Some req \<Rightarrow> do {
         (r, req) \<leftarrow> calls (args @ [dm_finalize_packet]) req;
         if r \<noteq> RC_OK then Some (r, None)
         else if \<not> mem sizeof_DM2_REQUEST_INFO then Some (RC_ERR_ALLOC, None)
         else Some (RC_OK, rq_packet req) } }"

definition rpc_startsession_async :: "(nat \<Rightarrow> bool) \<Rightarrow> u32 \<Rightarrow> int \<Rightarrow> (rc \<times> u8 list option) option" where
  "rpc_startsession_async mem flags timeout = stub mem CMD_STARTSESSION
     [\<lambda>q. dm_add_uint32 mem q AVP_UINT32 VP_TRAVELPING flags, \<lambda>q. dm_add_int32 mem q AVP_INT32 VP_TRAVELPING timeout]"

definition rpc_switchsession_async :: "(nat \<Rightarrow> bool) \<Rightarrow> u32 \<Rightarrow> int \<Rightarrow> (rc \<times> u8 list option) option" where
  "rpc_switchsession_async mem flags timeout = stub mem CMD_SWITCHSESSION
     [\<lambda>q. dm_add_uint32 mem q AVP_UINT32 VP_TRAVELPING flags, \<lambda>q. dm_add_int32 mem q AVP_INT32 VP_TRAVELPING timeout]"

definition rpc_endsession_async :: "(nat \<Rightarrow> bool) \<Rightarrow> (rc \<times> u8 list option) option" where
  "rpc_endsession_async mem = stub mem CMD_ENDSESSION []"

definition rpc_sessioninfo_async :: "(nat \<Rightarrow> bool) \<Rightarrow> (rc \<times> u8 list option) option" where
  "rpc_sessioninfo_async mem = stub mem CMD_SESSIONINFO []"

definition rpc_cfgsessioninfo_async :: "(nat \<Rightarrow> bool) \<Rightarrow> (rc \<times> u8 list option) option" where
  "rpc_cfgsessioninfo_async mem = stub mem CMD_CFGSESSIONINFO []"

definition rpc_subscribe_notify_async :: "(nat \<Rightarrow> bool) \<Rightarrow> (rc \<times> u8 list option) option" where
  "rpc_subscribe_notify_async mem = stub mem CMD_SUBSCRIBE_NOTIFY []"

definition rpc_unsubscribe_notify_async :: "(nat \<Rightarrow> bool) \<Rightarrow> (rc \<times> u8 list option) option" where
  "rpc_unsubscribe_notify_async mem = stub mem CMD_UNSUBSCRIBE_NOTIFY []"

definition rpc_param_notify_async :: "(nat \<Rightarrow> bool) \<Rightarrow> u32 \<Rightarrow> cstr list \<Rightarrow> (rc \<times> u8 list option) option" where
  "rpc_param_notify_async mem ntfy paths = stub mem CMD_PARAM_NOTIFY
     ([\<lambda>q. dm_add_uint8 mem q AVP_NOTIFY_LEVEL VP_TRAVELPING (ucast ntfy), dm_add_object mem] @
      map (\<lambda>p q. dm_add_string mem q AVP_PATH VP_TRAVELPING p) paths @ [dm_finalize_group])"

definition rpc_recursive_param_notify_async :: "(nat \<Rightarrow> bool) \<Rightarrow> u32 \<Rightarrow> cstr \<Rightarrow> (rc \<times> u8 list option) option" where
  "rpc_recursive_param_notify_async mem ntfy p = stub mem CMD_RECURSIVE_PARAM_NOTIFY
     [\<lambda>q. dm_add_uint8 mem q AVP_NOTIFY_LEVEL VP_TRAVELPING (ucast ntfy), \<lambda>q. dm_add_string mem q AVP_PATH VP_TRAVELPING p]"

definition rpc_get_passive_notifications_async :: "(nat \<Rightarrow> bool) \<Rightarrow> (rc \<times> u8 list option) option" where
  "rpc_get_passive_notifications_async mem = stub mem CMD_GET_PASSIVE_NOTIFICATIONS []"

definition rpc_db_addinstance_async :: "(nat \<Rightarrow> bool) \<Rightarrow> cstr \<Rightarrow> u16 \<Rightarrow> (rc \<times> u8 list option) option" where
  "rpc_db_addinstance_async mem p x = stub mem CMD_DB_ADDINSTANCE
     [\<lambda>q. dm_add_string mem q AVP_PATH VP_TRAVELPING p, \<lambda>q. dm_add_uint16 mem q AVP_UINT16 VP_TRAVELPING x]"

definition rpc_db_delinstance_async :: "(nat \<Rightarrow> bool) \<Rightarrow> cstr \<Rightarrow> (rc \<times> u8 list option) option" where
  "rpc_db_delinstance_async mem p = stub mem CMD_DB_DELINSTANCE [\<lambda>q. dm_add_string mem q AVP_PATH VP_TRAVELPING p]"

text \<open>A value of a set request: raw bytes with a code, or the values of an array.\<close>

datatype set_value = Raw u32 u32 "u8 list" | Array "(u32 \<times> u32 \<times> u8 list) list"

definition set_value_calls ::
  "(nat \<Rightarrow> bool) \<Rightarrow> cstr \<times> set_value \<Rightarrow> (DM2_REQUEST \<Rightarrow> (rc \<times> DM2_REQUEST) option) list" where
  "set_value_calls mem = (\<lambda>(p, v).
     [dm_add_object mem, \<lambda>q. dm_add_string mem q AVP_PATH VP_TRAVELPING p] @
     (case v of
        Array vs \<Rightarrow>
          [\<lambda>q. dm_new_group mem q AVP_ARRAY VP_TRAVELPING] @
          map (\<lambda>(code, vendor, data) q. dm_add_raw mem q code vendor (Some data) (length data)) vs @
          [dm_finalize_group]
      | Raw code vendor data \<Rightarrow> [\<lambda>q. dm_add_raw mem q code vendor (Some data) (length data)]) @
     [dm_finalize_group])"

definition rpc_db_set_async :: "(nat \<Rightarrow> bool) \<Rightarrow> (cstr \<times> set_value) list \<Rightarrow> (rc \<times> u8 list option) option" where
  "rpc_db_set_async mem vs = stub mem CMD_DB_SET (concat (map (set_value_calls mem) vs))"

definition rpc_db_get_async :: "(nat \<Rightarrow> bool) \<Rightarrow> cstr list \<Rightarrow> (rc \<times> u8 list option) option" where
  "rpc_db_get_async mem paths = stub mem CMD_DB_GET (map (\<lambda>p q. dm_add_string mem q AVP_PATH VP_TRAVELPING p) paths)"

definition rpc_db_list_async :: "(nat \<Rightarrow> bool) \<Rightarrow> int \<Rightarrow> cstr \<Rightarrow> (rc \<times> u8 list option) option" where
  "rpc_db_list_async mem level p = stub mem CMD_DB_LIST
     [\<lambda>q. dm_add_uint16 mem q AVP_UINT16 VP_TRAVELPING (word_of_int level), \<lambda>q. dm_add_string mem q AVP_PATH VP_TRAVELPING p]"

definition rpc_db_retrieve_enum_async :: "(nat \<Rightarrow> bool) \<Rightarrow> cstr \<Rightarrow> (rc \<times> u8 list option) option" where
  "rpc_db_retrieve_enum_async mem p = stub mem CMD_DB_RETRIEVE_ENUMS [\<lambda>q. dm_add_string mem q AVP_PATH VP_TRAVELPING p]"

definition rpc_db_dump_async :: "(nat \<Rightarrow> bool) \<Rightarrow> cstr \<Rightarrow> (rc \<times> u8 list option) option" where
  "rpc_db_dump_async mem p = stub mem CMD_DB_DUMP [\<lambda>q. dm_add_string mem q AVP_PATH VP_TRAVELPING p]"

definition rpc_db_save_async :: "(nat \<Rightarrow> bool) \<Rightarrow> (rc \<times> u8 list option) option" where
  "rpc_db_save_async mem = stub mem CMD_DB_SAVE []"

definition rpc_db_commit_async :: "(nat \<Rightarrow> bool) \<Rightarrow> (rc \<times> u8 list option) option" where
  "rpc_db_commit_async mem = stub mem CMD_DB_COMMIT []"

definition rpc_db_cancel_async :: "(nat \<Rightarrow> bool) \<Rightarrow> (rc \<times> u8 list option) option" where
  "rpc_db_cancel_async mem = stub mem CMD_DB_CANCEL []"

definition rpc_db_findinstance_async ::
  "(nat \<Rightarrow> bool) \<Rightarrow> cstr \<Rightarrow> cstr \<Rightarrow> u32 \<times> u32 \<times> u8 list \<Rightarrow> (rc \<times> u8 list option) option" where
  "rpc_db_findinstance_async mem p name = (\<lambda>(code, vendor, data). stub mem CMD_DB_FINDINSTANCE
     [\<lambda>q. dm_add_string mem q AVP_PATH VP_TRAVELPING p, \<lambda>q. dm_add_string mem q AVP_PATH VP_TRAVELPING name,
      \<lambda>q. dm_add_raw mem q code vendor (Some data) (length data)])"

definition rpc_register_role_async :: "(nat \<Rightarrow> bool) \<Rightarrow> cstr \<Rightarrow> (rc \<times> u8 list option) option" where
  "rpc_register_role_async mem role = stub mem CMD_REGISTER_ROLE [\<lambda>q. dm_add_string mem q AVP_STRING VP_TRAVELPING role]"

definition rpc_system_restart_async :: "(nat \<Rightarrow> bool) \<Rightarrow> (rc \<times> u8 list option) option" where
  "rpc_system_restart_async mem = stub mem CMD_SYSTEM_RESTART []"

definition rpc_system_shutdown_async :: "(nat \<Rightarrow> bool) \<Rightarrow> (rc \<times> u8 list option) option" where
  "rpc_system_shutdown_async mem = stub mem CMD_SYSTEM_SHUTDOWN []"

definition rpc_firmware_download_async ::
  "(nat \<Rightarrow> bool) \<Rightarrow> cstr \<Rightarrow> u8 \<Rightarrow> cstr \<Rightarrow> cstr \<Rightarrow> u32 \<Rightarrow> u8 \<Rightarrow> u32 \<Rightarrow> u32 \<Rightarrow> (rc \<times> u8 list option) option" where
  "rpc_firmware_download_async mem address credentialstype credential install_target timeframe
     retry_count retry_interval retry_interval_increment = (let v = VP_TRAVELPING in stub mem CMD_FIRMWARE_DOWNLOAD
     [\<lambda>q. dm_add_string mem q AVP_STRING v address,
      \<lambda>q. dm_add_uint8 mem q AVP_UINT8 v credentialstype,
      \<lambda>q. dm_add_string mem q AVP_STRING v credential,
      \<lambda>q. dm_add_string mem q AVP_STRING v install_target,
      \<lambda>q. dm_add_uint32 mem q AVP_UINT32 v timeframe,
      \<lambda>q. dm_add_uint8 mem q AVP_UINT8 v retry_count,
      \<lambda>q. dm_add_uint32 mem q AVP_UINT32 v retry_interval,
      \<lambda>q. dm_add_uint32 mem q AVP_UINT32 v retry_interval_increment])"

definition rpc_firmware_commit_async :: "(nat \<Rightarrow> bool) \<Rightarrow> int \<Rightarrow> (rc \<times> u8 list option) option" where
  "rpc_firmware_commit_async mem job_id = stub mem CMD_FIRMWARE_COMMIT
     [\<lambda>q. dm_add_int32 mem q AVP_INT32 VP_TRAVELPING job_id]"

definition rpc_set_boot_order_async :: "(nat \<Rightarrow> bool) \<Rightarrow> cstr list \<Rightarrow> (rc \<times> u8 list option) option" where
  "rpc_set_boot_order_async mem boot_order = stub mem CMD_SET_BOOT_ORDER
     (map (\<lambda>b q. dm_add_string mem q AVP_STRING VP_TRAVELPING b) boot_order)"

section \<open>Answers\<close>

text \<open>
  The callback of the synchronous calls: it keeps a copy of the answer if the caller wants one, \<open>answer\<close>, and reads the code.
  The result is the code of the call, as a number, and the rest of the answer.
\<close>

definition dm_async_cb ::
  "(nat \<Rightarrow> bool) \<Rightarrow> bool \<Rightarrow> DM2_AVPGRP option \<Rightarrow> DM2_AVPGRP \<Rightarrow> (u32 \<times> DM2_AVPGRP option) option" where
  "dm_async_cb mem ready answer grp =
     (if \<not> ready then Some (rc_number RC_ERR_MISC, answer)
      else do {
        (r, answer) \<leftarrow> (case answer of
            None \<Rightarrow> Some (RC_OK, None)
          | Some a \<Rightarrow> dm_copy_avpgrp mem a grp);
        if r \<noteq> RC_OK then Some (rc_number r, answer)
        else do {
          (r, v, grp) \<leftarrow> dm_expect_uint32_type AVP_RC VP_TRAVELPING (case answer of None \<Rightarrow> grp | Some a \<Rightarrow> a);
          let answer = (if answer = None then None else Some grp);
          if r \<noteq> RC_OK then Some (rc_number r, answer)
          else do { x \<leftarrow> v; Some (x, answer) } } })"

end
