(* ===== verification/Dm_Call_Props.thy ===== *)
theory Dm_Call_Props
  imports Dm_Client Dm_Msg_Props Dm_Strings_Props
begin

text \<open>
  A remote call, from the stub of the client through the packet to the handler of the server, and its code back
  to the callback of the client.
\<close>

section \<open>Requests\<close>

lemma calls_append: "calls (fs @ gs) req = do { (r, req) \<leftarrow> calls fs req; if r \<noteq> RC_OK then Some (r, req) else calls gs req }"
proof (induction fs arbitrary: req)
  case (Cons f fs)
  show ?case by (cases "f req") (auto simp: Cons.IH)
qed simp

text \<open>A sequence of calls that writes some trees.\<close>

definition writes :: "(nat \<Rightarrow> bool) \<Rightarrow> (DM2_REQUEST \<Rightarrow> (rc \<times> DM2_REQUEST) option) list \<Rightarrow> avp list \<Rightarrow> bool" where
  "writes mem fs ts \<longleftrightarrow> (\<forall>req. calls fs req = put_trees mem ts req)"

lemma put_avp_more: "dm_put_avp mem req c v (Some (d @ e)) (length d) = dm_put_avp mem req c v (Some d) (length d)"
  by (simp add: dm_put_avp_def cong: if_cong option.case_cong)

lemma writes_Nil [intro]: "writes mem [] []"
  by (simp add: writes_def)

lemma writes_Cons:
  assumes f: "\<And>req. f req = put_tree mem t req" and fs: "writes mem fs ts"
  shows "writes mem (f # fs) (t # ts)"
  using fs by (simp add: writes_def f cong: if_cong)

lemma writes_avp [intro]: "writes mem fs ts \<Longrightarrow> n = length d \<Longrightarrow>
    writes mem ((\<lambda>q. dm_put_avp mem q c v (Some d) n) # fs) (Avp c v d # ts)"
  by (rule writes_Cons) simp

lemma add_as_tree:
  "dm_add_uint8 mem req c v w = put_tree mem (Avp c v [w]) req"
  "dm_add_uint32 mem req c v x = put_tree mem (Avp c v (htonl x)) req"
  "dm_add_int32 mem req c v i = put_tree mem (Avp c v (htonl (word_of_int i))) req"
  "dm_add_uint16 mem req c v h = put_tree mem (Avp c v (htons h)) req"
  "dm_add_string mem req c v s = put_tree mem (Avp c v s) req"
  by (simp_all add: dm_add_uint8_def dm_add_uint32_def dm_add_int32_def dm_add_uint16_def dm_add_string_def put_avp_more)

lemma put_trees_append:
  "put_trees mem (ts @ us) req = do { (r, req) \<leftarrow> put_trees mem ts req; if r \<noteq> RC_OK then Some (r, req) else put_trees mem us req }"
proof (induction ts arbitrary: req)
  case (Cons t ts)
  show ?case by (cases "put_tree mem t req") (auto simp: Cons.IH)
qed simp

lemma writes_group:
  assumes fs: "writes mem fs ts" and gs: "writes mem gs us"
  shows "writes mem ((\<lambda>q. dm_new_group mem q c v) # fs @ dm_finalize_group # gs) (Grp c v ts # us)"
proof -
  have "calls (fs @ dm_finalize_group # gs) req =
    do { (r, req) \<leftarrow> do { (r, req) \<leftarrow> put_trees mem ts req; if r \<noteq> RC_OK then Some (r, req) else dm_finalize_group req };
         if r \<noteq> RC_OK then Some (r, req) else put_trees mem us req }" for req
    using fs gs unfolding writes_def calls_append by (cases "put_trees mem ts req") (auto cong: if_cong)
  then have "calls ((\<lambda>q. dm_new_group mem q c v) # fs @ dm_finalize_group # gs) req = put_trees mem (Grp c v ts # us) req" for req
    by (cases "dm_new_group mem req c v") auto
  then show ?thesis unfolding writes_def by blast
qed

lemma writes_strings:
  "writes mem (map (\<lambda>p q. dm_add_string mem q c v p) ps) (map (Avp c v) ps)"
  by (induction ps) (auto simp: add_as_tree intro: writes_Cons)

text \<open>The bytes of a request: the header, the encoded arguments, and zeros to the end of the block.\<close>

lemma stub_bytes:
  assumes mem: "\<And>n. mem n" and args: "writes mem args ts" and deep: "\<forall>t \<in> set ts. depth t < 16"
  obtains n where "stub mem code args =
    Some (RC_OK, Some (packet_hdr code CMD_FLAG_REQUEST APP_ID 0 0 (20 + length (encs ts)) @ encs ts @ replicate n 0))"
proof -
  obtain req n where b: "build_message mem code CMD_FLAG_REQUEST APP_ID 0 0 ts = Some (RC_OK, req)"
    and pkt: "rq_packet req = Some (packet_hdr code CMD_FLAG_REQUEST APP_ID 0 0 (20 + length (encs ts)) @ encs ts @ replicate n 0)"
    by (rule build_message_bytes [where mem = mem, OF mem deep]) blast
  have m: "mem k = True" for k using mem by simp
  have "stub mem code args = Some (RC_OK, rq_packet req)"
    using b args unfolding stub_def build_message_def dm_new_request_def writes_def calls_append
    by (auto simp: m bind_Some_iff new_packet split: if_splits)
  then show thesis using pkt that by simp
qed

section \<open>Reading arguments\<close>

text \<open>The group is at the first of some trees, and nothing follows them in it.\<close>

definition at_avps :: "DM2_AVPGRP \<Rightarrow> avp list \<Rightarrow> bool" where
  "at_avps grp ts \<longleftrightarrow> (\<exists>rest. drop (ag_pos grp) (ag_data grp) = encs ts @ rest) \<and>
     ag_size grp = ag_pos grp + length (encs ts) \<and> length (encs ts) < 2 ^ 24"

lemma expect_avp_at:
  assumes at: "at_avps grp (Avp c v d # ts)"
  shows "\<exists>e grp'. dm_expect_avp grp = Some (RC_OK, Some \<lparr>av_code = c, av_vendor = v, av_data = d @ e, av_len = length d\<rparr>, grp') \<and>
    at_avps grp' ts"
proof -
  obtain rest where d: "drop (ag_pos grp) (ag_data grp) = hdr c v (length d) @ d @ padding (length d) @ encs ts @ rest"
    and size: "ag_size grp = ag_pos grp + (hdr_len v + PAD32 (length d)) + length (encs ts)"
    and len: "hdr_len v + PAD32 (length d) + length (encs ts) < 2 ^ 24"
    using at length_padding [of d] unfolding at_avps_def by (auto simp del: length_padding simp: ac_simps)
  let ?n = "hdr_len v + PAD32 (length d)"
  let ?grp' = "grp\<lparr>ag_pos := ag_pos grp + ?n\<rparr>"
  have "dm_expect_avp grp = Some (RC_OK, Some \<lparr>av_code = c, av_vendor = v,
      av_data = d @ padding (length d) @ encs ts @ rest, av_len = length d\<rparr>, ?grp')"
    by (rule expect_avp [OF d]) (use size len PAD32_ge [of "length d"] in linarith)+
  moreover have "drop (ag_pos grp + ?n) (ag_data grp) = encs ts @ rest"
    using arg_cong [OF d, of "drop ?n"] PAD32_ge [of "length d"] by (simp add: ac_simps padding_def)
  then have "at_avps ?grp' ts" unfolding at_avps_def using size len by auto
  ultimately show ?thesis by blast
qed

lemma expect_group_avp_at:
  assumes at: "at_avps grp (Grp c v us # ts)"
  shows "\<exists>e grp'. dm_expect_avp grp =
      Some (RC_OK, Some \<lparr>av_code = c, av_vendor = v, av_data = encs us @ e, av_len = length (encs us)\<rparr>, grp') \<and>
    at_avps grp' ts"
proof -
  have pad: "PAD32 (length (encs us)) = length (encs us)" "padding (length (encs us)) = []"
    using PAD32_add [OF length_encs_dvd [of us], of 0] by (simp_all add: padding_def)
  have "at_avps grp (Avp c v (encs us) # ts)" using at by (simp add: at_avps_def pad)
  then show ?thesis by (rule expect_avp_at)
qed

lemma expect_end_at:
  shows "at_avps grp [] \<Longrightarrow> dm_expect_end grp = RC_OK"
    and "at_avps grp (t # ts) \<Longrightarrow> dm_expect_end grp \<noteq> RC_OK"
proof -
  show "at_avps grp [] \<Longrightarrow> dm_expect_end grp = RC_OK"
    by (simp add: at_avps_def dm_expect_end_def dm_expect_group_end_def)
  have "0 < length (enc t)" by (cases t) (auto simp: hdr_len_def)
  then show "at_avps grp (t # ts) \<Longrightarrow> dm_expect_end grp \<noteq> RC_OK"
    by (auto simp: at_avps_def dm_expect_end_def dm_expect_group_end_def)
qed

lemma expect_raw_at:
  assumes "at_avps grp (Avp c v d # ts)"
  shows "\<exists>e grp'. dm_expect_raw c v grp = Some (RC_OK, Some (d @ e, length d), grp') \<and> at_avps grp' ts"
  using expect_avp_at [OF assms] by (auto simp: dm_expect_raw_def)

lemma expect_object_at:
  assumes "at_avps grp (Grp AVP_CONTAINER VP_TRAVELPING us # ts)"
  shows "\<exists>g grp'. dm_expect_object grp = Some (RC_OK, Some g, grp') \<and> at_avps g us \<and> at_avps grp' ts"
proof -
  have "length (encs us) < 2 ^ 24" using assms by (simp add: at_avps_def)
  then show ?thesis
    using expect_group_avp_at [OF assms]
    by (auto simp: dm_expect_object_def dm_expect_group_def dm_expect_raw_def dm_init_avpgrp_def at_avps_def)
qed

lemma get_sint: "- (2 ^ 31) \<le> i \<Longrightarrow> i < 2 ^ 31 \<Longrightarrow> sint (word_of_int i :: u32) = i"
  by (simp add: signed_of_int signed_take_bit_int_eq_self)

lemma expect_numbers_at:
  shows "at_avps grp (Avp c v (htonl x) # ts) \<Longrightarrow>
      \<exists>grp'. dm_expect_uint32_type c v grp = Some (RC_OK, Some x, grp') \<and> at_avps grp' ts"
    and "at_avps grp (Avp c v (htonl (word_of_int i)) # ts) \<Longrightarrow> - (2 ^ 31) \<le> i \<Longrightarrow> i < 2 ^ 31 \<Longrightarrow>
      \<exists>grp'. dm_expect_int32_type c v grp = Some (RC_OK, Some i, grp') \<and> at_avps grp' ts"
    and "at_avps grp (Avp c v [b] # ts) \<Longrightarrow>
      \<exists>grp'. dm_expect_uint8_type c v grp = Some (RC_OK, Some b, grp') \<and> at_avps grp' ts"
proof -
  assume "at_avps grp (Avp c v (htonl x) # ts)"
  from expect_raw_at [OF this] show "\<exists>grp'. dm_expect_uint32_type c v grp = Some (RC_OK, Some x, grp') \<and> at_avps grp' ts"
    by (auto simp: dm_expect_uint32_type_def expect_number_def dm_get_uint32_avp_def)
next
  assume "at_avps grp (Avp c v (htonl (word_of_int i)) # ts)" and i: "- (2 ^ 31) \<le> i" "i < 2 ^ 31"
  from expect_raw_at [OF this(1)] show "\<exists>grp'. dm_expect_int32_type c v grp = Some (RC_OK, Some i, grp') \<and> at_avps grp' ts"
    using get_sint [OF i] by (auto simp: dm_expect_int32_type_def expect_number_def dm_get_int32_avp_def)
next
  assume "at_avps grp (Avp c v [b] # ts)"
  from expect_raw_at [OF this] show "\<exists>grp'. dm_expect_uint8_type c v grp = Some (RC_OK, Some b, grp') \<and> at_avps grp' ts"
    by (auto simp: dm_expect_uint8_type_def expect_number_def dm_get_uint8_avp_def read_at_def)
qed

lemma expect_string_at:
  assumes at: "at_avps grp (Avp c v s # ts)" and s: "0 \<notin> set s" and mem: "mem (length s + 1)"
  shows "\<exists>grp'. dm_expect_string_type mem c v grp = Some (RC_OK, Some s, grp') \<and> at_avps grp' ts"
  using expect_raw_at [OF at] s mem by (auto simp: dm_expect_string_type_def strndup_def)

lemma expect_path_at:
  assumes at: "at_avps grp (Avp c v p # ts)" and p: "0 \<notin> set p" and mem: "mem (length p + 1)"
    and sel: "dm_name2sel env (Some p) = Some x"
  shows "\<exists>grp'. dm_expect_path_type env mem c v grp =
    Some (case x of None \<Rightarrow> (RC_ERR_MISC, None, grp') | Some sl \<Rightarrow> (RC_OK, Some sl, grp')) \<and> at_avps grp' ts"
  using expect_string_at [where mem = mem, OF at p mem] sel by (auto simp: dm_expect_path_type_def split: option.split)

section \<open>Answers\<close>

text \<open>What a client finds in the memory it has received: the packet up to its length.\<close>

definition on_wire :: "u8 list \<Rightarrow> u8 list" where
  "on_wire pkt = (case dm_packet_length pkt of None \<Rightarrow> [] | Some n \<Rightarrow> take (unat n) pkt)"

lemma on_wire_packet:
  assumes "20 + length b < 2 ^ 24"
  shows "on_wire (packet_hdr code flags appid hopid endid (20 + length b) @ b @ rest) =
    packet_hdr code flags appid hopid endid (20 + length b) @ b"
proof -
  have "unat (of_nat (20 + length b) :: u32) = 20 + length b" using assms by (simp add: unat_of_nat del: of_nat_add)
  then show ?thesis using header_fields(1) [OF assms] by (simp add: on_wire_def del: of_nat_add)
qed

lemma received_at:
  assumes "20 + length (encs ts) < 2 ^ 24"
  shows "\<exists>grp. dm_init_packet (packet_hdr code flags appid hopid endid (20 + length (encs ts)) @ encs ts) = Some grp \<and> at_avps grp ts"
  using init_packet [OF assms] assms by (simp add: at_avps_def)

abbreviation code_avp :: "u32 \<Rightarrow> avp" where
  "code_avp w \<equiv> Avp AVP_RC VP_TRAVELPING (htonl w)"

text \<open>An answer that has the code only: it is written as zero first and filled in at the end.\<close>

lemma answer_bytes:
  assumes mem: "\<And>n. mem n"
  obtains a0 n where "dm_new_request mem True code 0 hop endid = Some (Some a0)"
    and "\<exists>a1. dm_add_uint32_get_pos mem a0 AVP_RC VP_TRAVELPING 0 = Some (32, RC_OK, a1) \<and>
       (\<forall>w. \<exists>a2 a3. dm_put_uint32_at_pos a1 32 w = Some a2 \<and> dm_finalize_packet a2 = Some (RC_OK, a3) \<and>
          rq_packet a3 = Some (packet_hdr code 0 APP_ID hop endid 36 @ enc (code_avp w) @ replicate n 0))"
proof -
  let ?h = "packet_hdr code 0 APP_ID hop endid"
  let ?m = "?h 20 @ replicate 2028 0"
  let ?a0 = "\<lparr>rq_grp = (replicate 16 (0, 0))[0 := (20, 20)], rq_level = 0, rq_packet = Some ?m\<rparr>"
  have m: "mem k = True" for k using mem by simp
  have new: "dm_new_request mem True code 0 hop endid = Some (Some ?a0)"
    by (simp add: dm_new_request_def new_packet m)
  have "good 20 ?m" using good_zeros [of "?h 20" 2028] by simp
  then have at: "at_pos ?a0 ?m 20 20" by (simp add: at_pos_def)
  obtain n where put: "dm_put_avp mem ?a0 AVP_RC VP_TRAVELPING (Some (htonl 0)) (length (htonl 0)) =
      Some (RC_OK, ?a0\<lparr>rq_packet := Some (take 20 ?m @ enc (code_avp 0) @ replicate n 0),
                        rq_grp := (rq_grp ?a0)[rq_level ?a0 := (20, 20 + length (enc (code_avp 0)))]\<rparr>)"
    by (rule put_avp [OF at, of mem "htonl 0" "Some (htonl 0)" AVP_RC VP_TRAVELPING, OF mem]) auto
  have take: "take 20 ?m = ?h 20" by simp
  have "padding 4 = []" by code_simp
  then have e: "enc (code_avp x) = hdr AVP_RC VP_TRAVELPING 4 @ htonl x" for x by simp
  have len: "length (enc (code_avp 0)) = 16" unfolding e by (simp add: hdr_len_def VP_TRAVELPING_def)
  define a1 where "a1 = ?a0\<lparr>rq_packet := Some (?h 20 @ enc (code_avp 0) @ replicate n 0),
                             rq_grp := (rq_grp ?a0)[0 := (20, 36)]\<rparr>"
  have "dm_add_uint32_get_pos mem ?a0 AVP_RC VP_TRAVELPING 0 = Some (32, RC_OK, a1)"
    using put unfolding take len
    by (simp add: dm_add_uint32_get_pos_def dm_add_uint32_def a1_def VP_TRAVELPING_def nth_opt_def del: enc.simps)
  moreover have "\<exists>a2 a3. dm_put_uint32_at_pos a1 32 w = Some a2 \<and> dm_finalize_packet a2 = Some (RC_OK, a3) \<and>
      rq_packet a3 = Some (?h 36 @ enc (code_avp w) @ replicate n 0)" for w
  proof -
    have "write_at 32 (htonl w) (?h 20 @ enc (code_avp 0) @ replicate n 0) = Some (?h 20 @ enc (code_avp w) @ replicate n 0)"
      unfolding e using length_hdr [of AVP_RC VP_TRAVELPING 4]
      by (simp add: block_writes hdr_len_def VP_TRAVELPING_def)
    moreover have "write_at 1 (uint32to24 36) (?h 20 @ enc (code_avp w) @ replicate n 0) = Some (?h 36 @ enc (code_avp w) @ replicate n 0)"
      unfolding packet_hdr_def by (simp add: block_writes del: enc.simps)
    ultimately show ?thesis
      by (simp add: dm_put_uint32_at_pos_def dm_finalize_packet_def a1_def nth_opt_def del: enc.simps)
  qed
  ultimately show thesis using that [OF new, of n] by blast
qed

section \<open>Calls\<close>

text \<open>
  The calls that answer with a code only, how a client makes them, and the handler that the server should run for them. A
  path that names nothing in the schema is an error of the call.
\<close>

datatype call =
    StartSession u32 int | SwitchSession u32 int | RegisterRole cstr | SubscribeNotify | UnsubscribeNotify
  | RecursiveParamNotify u8 cstr | DelInstance cstr | Save | Commit | Cancel

fun client_call :: "(nat \<Rightarrow> bool) \<Rightarrow> call \<Rightarrow> (rc \<times> u8 list option) option" where
  "client_call mem (StartSession flags timeout) = rpc_startsession_async mem flags timeout"
| "client_call mem (SwitchSession flags timeout) = rpc_switchsession_async mem flags timeout"
| "client_call mem (RegisterRole role) = rpc_register_role_async mem role"
| "client_call mem SubscribeNotify = rpc_subscribe_notify_async mem"
| "client_call mem UnsubscribeNotify = rpc_unsubscribe_notify_async mem"
| "client_call mem (RecursiveParamNotify ntfy p) = rpc_recursive_param_notify_async mem (ucast ntfy) p"
| "client_call mem (DelInstance p) = rpc_db_delinstance_async mem p"
| "client_call mem Save = rpc_db_save_async mem"
| "client_call mem Commit = rpc_db_commit_async mem"
| "client_call mem Cancel = rpc_db_cancel_async mem"

definition with_path ::
  "srv_env \<Rightarrow> cstr \<Rightarrow> server \<Rightarrow> (dm_selector \<Rightarrow> (DM_RESULT \<times> server) option) \<Rightarrow> (DM_RESULT \<times> server) option" where
  "with_path se p sv f = do {
     x \<leftarrow> dm_name2sel (se_dm se) (Some p);
     case x of None \<Rightarrow> Some (DM_RC RC_ERR_MISC, sv) | Some sel \<Rightarrow> f sel }"

fun server_call :: "srv_env \<Rightarrow> nat \<Rightarrow> call \<Rightarrow> server \<Rightarrow> (DM_RESULT \<times> server) option" where
  "server_call se c (StartSession flags timeout) sv = rpc_startsession c flags timeout sv"
| "server_call se c (SwitchSession flags timeout) sv = rpc_switchsession se c flags timeout sv"
| "server_call se c (RegisterRole role) sv = rpc_register_role se c role sv"
| "server_call se c SubscribeNotify sv = rpc_subscribe_notify c sv"
| "server_call se c UnsubscribeNotify sv = rpc_unsubscribe_notify se c sv"
| "server_call se c (RecursiveParamNotify ntfy p) sv =
     with_path se p sv (\<lambda>sel. rpc_recursive_param_notify se c (ucast ntfy) sel sv)"
| "server_call se c (DelInstance p) sv = with_path se p sv (\<lambda>sel. rpc_db_delinstance se sel sv)"
| "server_call se c Save sv = rpc_db_save se c sv"
| "server_call se c Commit sv = rpc_db_commit se c sv"
| "server_call se c Cancel sv = rpc_db_cancel se c sv"

text \<open>Arguments that C can pass: a 32-bit timeout, and strings without a NUL of less than 16 megabytes.\<close>

definition c_string :: "cstr \<Rightarrow> bool" where
  "c_string s \<longleftrightarrow> 0 \<notin> set s \<and> length s < 2 ^ 23"

fun call_wf :: "call \<Rightarrow> bool" where
  "call_wf (StartSession flags timeout) \<longleftrightarrow> - (2 ^ 31) \<le> timeout \<and> timeout < 2 ^ 31"
| "call_wf (SwitchSession flags timeout) \<longleftrightarrow> - (2 ^ 31) \<le> timeout \<and> timeout < 2 ^ 31"
| "call_wf (RegisterRole role) \<longleftrightarrow> c_string role"
| "call_wf (RecursiveParamNotify ntfy p) \<longleftrightarrow> c_string p"
| "call_wf (DelInstance p) \<longleftrightarrow> c_string p"
| "call_wf _ \<longleftrightarrow> True"

fun call_code :: "call \<Rightarrow> u32" where
  "call_code (StartSession flags timeout) = CMD_STARTSESSION"
| "call_code (SwitchSession flags timeout) = CMD_SWITCHSESSION"
| "call_code (RegisterRole role) = CMD_REGISTER_ROLE"
| "call_code SubscribeNotify = CMD_SUBSCRIBE_NOTIFY"
| "call_code UnsubscribeNotify = CMD_UNSUBSCRIBE_NOTIFY"
| "call_code (RecursiveParamNotify ntfy p) = CMD_RECURSIVE_PARAM_NOTIFY"
| "call_code (DelInstance p) = CMD_DB_DELINSTANCE"
| "call_code Save = CMD_DB_SAVE"
| "call_code Commit = CMD_DB_COMMIT"
| "call_code Cancel = CMD_DB_CANCEL"

fun call_args :: "call \<Rightarrow> avp list" where
  "call_args (StartSession flags timeout) =
     [Avp AVP_UINT32 VP_TRAVELPING (htonl flags), Avp AVP_INT32 VP_TRAVELPING (htonl (word_of_int timeout))]"
| "call_args (SwitchSession flags timeout) =
     [Avp AVP_UINT32 VP_TRAVELPING (htonl flags), Avp AVP_INT32 VP_TRAVELPING (htonl (word_of_int timeout))]"
| "call_args (RegisterRole role) = [Avp AVP_STRING VP_TRAVELPING role]"
| "call_args (RecursiveParamNotify ntfy p) = [Avp AVP_NOTIFY_LEVEL VP_TRAVELPING [ntfy], Avp AVP_PATH VP_TRAVELPING p]"
| "call_args (DelInstance p) = [Avp AVP_PATH VP_TRAVELPING p]"
| "call_args _ = []"

lemmas stub_defs = rpc_startsession_async_def rpc_switchsession_async_def rpc_register_role_async_def
  rpc_subscribe_notify_async_def rpc_unsubscribe_notify_async_def rpc_recursive_param_notify_async_def
  rpc_db_delinstance_async_def rpc_db_save_async_def rpc_db_commit_async_def rpc_db_cancel_async_def

lemma client_call_writes: "\<exists>fs. client_call mem x = stub mem (call_code x) fs \<and> writes mem fs (call_args x)"
proof -
  have "ucast (ucast w :: u32) = w" for w :: u8 by (rule bit_word_eqI) (simp add: bit_simps)
  then show ?thesis by (cases x) (auto simp: stub_defs add_as_tree intro!: exI writes_Cons)
qed

lemma flat_size: "\<forall>t \<in> set ts. \<exists>c v d. t = Avp c v d \<Longrightarrow>
    length (encs ts) \<le> sum_list (map (\<lambda>t. case t of Avp c v d \<Rightarrow> length d + 15 | Grp c v us \<Rightarrow> 0) ts)"
proof (induction ts)
  case (Cons t ts)
  obtain c v d where t: "t = Avp c v d" using Cons.prems by auto
  have "PAD32 n \<le> n + 3" for n unfolding PAD32_def by presburger
  from this [of "length d"] have "length (enc t) \<le> length d + 15"
    by (simp add: t length_enc_Avp PAD32_hdr hdr_len_def)
  then show ?case using Cons by (simp add: t del: enc.simps)
qed simp

lemma call_args_small:
  assumes "call_wf x"
  shows "20 + length (encs (call_args x)) < 2 ^ 24" and "\<forall>t \<in> set (call_args x). depth t < 16"
proof -
  have "\<forall>t \<in> set (call_args x). \<exists>c v d. t = Avp c v d" by (cases x) auto
  note size = flat_size [OF this]
  have "20 + sum_list (map (\<lambda>t. case t of Avp c v d \<Rightarrow> length d + 15 | Grp c v us \<Rightarrow> 0) (call_args x)) < 2 ^ 24"
    using assms by (cases x) (simp_all add: c_string_def)
  then show "20 + length (encs (call_args x)) < 2 ^ 24" using size by linarith
  show "\<forall>t \<in> set (call_args x). depth t < 16" by (cases x) auto
qed

lemmas cmd_codes =
  CMD_DB_SET_def CMD_DB_GET_def CMD_DB_LIST_def CMD_DB_RETRIEVE_ENUMS_def CMD_DB_DUMP_def CMD_DB_ADDINSTANCE_def
  CMD_DB_DELINSTANCE_def CMD_DB_COMMIT_def CMD_DB_CANCEL_def CMD_DB_SAVE_def CMD_DB_FINDINSTANCE_def
  CMD_STARTSESSION_def CMD_ENDSESSION_def CMD_SWITCHSESSION_def CMD_SESSIONINFO_def CMD_CFGSESSIONINFO_def
  CMD_SUBSCRIBE_NOTIFY_def CMD_UNSUBSCRIBE_NOTIFY_def CMD_PARAM_NOTIFY_def CMD_RECURSIVE_PARAM_NOTIFY_def
  CMD_GET_PASSIVE_NOTIFICATIONS_def CMD_REGISTER_ROLE_def CMD_SYSTEM_RESTART_def CMD_SYSTEM_SHUTDOWN_def
  CMD_FIRMWARE_DOWNLOAD_def CMD_FIRMWARE_COMMIT_def CMD_SET_BOOT_ORDER_def

lemma call_code_small: "call_code x AND 0xFFFFFF = call_code x"
  by (cases x) (simp_all add: cmd_codes)

lemma call_not_end: "call_code x \<noteq> CMD_ENDSESSION"
  by (cases x) (simp_all add: cmd_codes)

text \<open>The server reads the arguments and runs the handler.\<close>

lemma arg_ok [simp]: "arg (Some (RC_OK, Some y, obj)) fail k = k y obj"
  by (simp add: arg_def)

lemma no_more_ok [simp]: "dm_expect_end obj = RC_OK \<Longrightarrow> no_more obj fail k = k"
  by (simp add: no_more_def)

lemma arg_session:
  assumes at: "at_avps grp [Avp AVP_UINT32 VP_TRAVELPING (htonl flags), Avp AVP_INT32 VP_TRAVELPING (htonl (word_of_int timeout))]"
    and range: "- (2 ^ 31) \<le> timeout" "timeout < 2 ^ 31"
  shows "arg (dm_expect_uint32_type AVP_UINT32 VP_TRAVELPING grp) fail (\<lambda>f obj.
     arg (dm_expect_int32_type AVP_INT32 VP_TRAVELPING obj) fail (\<lambda>t obj. no_more obj fail (k f t))) = k flags timeout"
proof -
  obtain g1 where g1: "dm_expect_uint32_type AVP_UINT32 VP_TRAVELPING grp = Some (RC_OK, Some flags, g1)"
    and a1: "at_avps g1 [Avp AVP_INT32 VP_TRAVELPING (htonl (word_of_int timeout))]"
    using expect_numbers_at(1) [OF at] by blast
  obtain g2 where "dm_expect_int32_type AVP_INT32 VP_TRAVELPING g1 = Some (RC_OK, Some timeout, g2)" and "at_avps g2 []"
    using expect_numbers_at(2) [OF a1 range] by blast
  with g1 show ?thesis by (simp add: expect_end_at)
qed

lemma arg_path:
  assumes at: "at_avps grp (Avp AVP_PATH VP_TRAVELPING p # ts)" and p: "c_string p" and mem: "\<And>n. se_mem se n"
    and h: "with_path se p sv f = Some (r, sv')"
    and k: "\<And>sel obj. at_avps obj ts \<Longrightarrow> k sel obj = silent a (f sel)"
  shows "arg (dm_expect_path_type (se_dm se) (se_mem se) AVP_PATH VP_TRAVELPING grp) (\<lambda>r. Some (r, a, sv)) k = Some (r, a, sv')"
proof -
  obtain y where y: "dm_name2sel (se_dm se) (Some p) = Some y"
    and h': "(case y of None \<Rightarrow> Some (DM_RC RC_ERR_MISC, sv) | Some sel \<Rightarrow> f sel) = Some (r, sv')"
    using h by (auto simp: with_path_def bind_Some_iff)
  obtain g where "dm_expect_path_type (se_dm se) (se_mem se) AVP_PATH VP_TRAVELPING grp =
      Some (case y of None \<Rightarrow> (RC_ERR_MISC, None, g) | Some sl \<Rightarrow> (RC_OK, Some sl, g))" and "at_avps g ts"
    using expect_path_at [where mem = "se_mem se", OF at _ _ y] p mem by (auto simp: c_string_def)
  then show ?thesis using h' k by (cases y) (simp_all add: silent_def arg_def as_result_def)
qed

lemma dispatch_call:
  assumes at: "at_avps grp (call_args x)" and wf: "call_wf x" and mem: "\<And>n. se_mem se n"
    and h: "server_call se c x sv = Some (r, sv')"
  shows "dispatch se run c (call_code x) grp a sv = Some (r, a, sv')"
proof (cases x)
  case (StartSession flags timeout)
  then show ?thesis
    using at wf h by (simp add: arg_session dispatch_def rpc_startsession_skel_def silent_def Let_def)
next
  case (SwitchSession flags timeout)
  then show ?thesis
    using at wf h by (simp add: arg_session dispatch_def rpc_switchsession_skel_def silent_def cmd_codes Let_def)
next
  case (RegisterRole role)
  obtain g where "dm_expect_string_type (se_mem se) AVP_STRING VP_TRAVELPING grp = Some (RC_OK, Some role, g)" and "at_avps g []"
    using expect_string_at [where mem = "se_mem se", of grp AVP_STRING VP_TRAVELPING role "[]"] at wf mem
    by (auto simp: RegisterRole c_string_def)
  with h show ?thesis
    by (simp add: RegisterRole dispatch_def rpc_register_role_skel_def expect_end_at silent_def cmd_codes)
next
  case (RecursiveParamNotify ntfy p)
  obtain g where g: "dm_expect_uint8_type AVP_NOTIFY_LEVEL VP_TRAVELPING grp = Some (RC_OK, Some ntfy, g)"
    and at': "at_avps g [Avp AVP_PATH VP_TRAVELPING p]"
    using at expect_numbers_at(3) [of grp AVP_NOTIFY_LEVEL VP_TRAVELPING ntfy] by (fastforce simp: RecursiveParamNotify)
  have "rpc_recursive_param_notify_skel se c grp a sv = Some (r, a, sv')"
    unfolding rpc_recursive_param_notify_skel_def g Let_def arg_ok
    by (rule arg_path [where se = se, OF at' _ mem h [unfolded RecursiveParamNotify server_call.simps]])
       (use wf in \<open>simp_all add: RecursiveParamNotify expect_end_at\<close>)
  then show ?thesis by (simp add: RecursiveParamNotify dispatch_def cmd_codes)
next
  case (DelInstance p)
  have "rpc_db_delinstance_skel se grp a sv = Some (r, a, sv')"
    unfolding rpc_db_delinstance_skel_def
    by (rule arg_path [where se = se and ts = "[]", OF _ _ mem h [unfolded DelInstance server_call.simps]])
       (use at wf in \<open>simp_all add: DelInstance\<close>)
  then show ?thesis by (simp add: DelInstance dispatch_def cmd_codes)
qed (use at h in \<open>simp_all add: dispatch_def cmd_codes silent_def expect_end_at rpc_subscribe_notify_skel_def
    rpc_unsubscribe_notify_skel_def rpc_db_save_skel_def rpc_db_commit_skel_def rpc_db_cancel_skel_def\<close>)

text \<open>The whole way of a request through the server.\<close>

lemma process_call:
  assumes mem: "\<And>n. se_mem se n" and wf: "call_wf x" and h: "server_call se c x sv = Some (r, sv')"
    and r: "r \<noteq> DM_RC RC_ERR_ALLOC"
  obtains n where "process_request se run c
      (packet_hdr (call_code x) flags appid hop endid (20 + length (encs (call_args x))) @ encs (call_args x)) sv =
    Some (sv'\<lparr>sv_sent := sv_sent sv' @ [(c, packet_hdr (call_code x) 0 APP_ID hop endid 36 @
      enc (code_avp (result_number r)) @ replicate n 0)]\<rparr>)"
proof -
  let ?pkt = "packet_hdr (call_code x) flags appid hop endid (20 + length (encs (call_args x))) @ encs (call_args x)"
  note small = call_args_small(1) [OF wf]
  obtain grp where grp: "dm_init_packet ?pkt = Some grp" and at: "at_avps grp (call_args x)"
    using received_at [OF small] by blast
  note fields = header_fields [OF small, of "call_code x" flags appid hop endid "encs (call_args x)"]
  obtain a0 n where new: "dm_new_request (se_mem se) True (call_code x) 0 hop endid = Some (Some a0)"
    and rest: "\<exists>a1. dm_add_uint32_get_pos (se_mem se) a0 AVP_RC VP_TRAVELPING 0 = Some (32, RC_OK, a1) \<and>
       (\<forall>w. \<exists>a2 a3. dm_put_uint32_at_pos a1 32 w = Some a2 \<and> dm_finalize_packet a2 = Some (RC_OK, a3) \<and>
          rq_packet a3 = Some (packet_hdr (call_code x) 0 APP_ID hop endid 36 @ enc (code_avp w) @ replicate n 0))"
    by (rule answer_bytes [where mem = "se_mem se", OF mem]) blast
  from rest obtain a1 a2 a3 where a1: "dm_add_uint32_get_pos (se_mem se) a0 AVP_RC VP_TRAVELPING 0 = Some (32, RC_OK, a1)"
    and a2: "dm_put_uint32_at_pos a1 32 (result_number r) = Some a2" and a3: "dm_finalize_packet a2 = Some (RC_OK, a3)"
    and pkt: "rq_packet a3 = Some (packet_hdr (call_code x) 0 APP_ID hop endid 36 @ enc (code_avp (result_number r)) @ replicate n 0)"
    by blast
  have "rpc_dmconfig_switch se run c \<lparr>dr_hop2hop = hop, dr_end2end = endid, dr_code = call_code x\<rparr> grp sv =
      Some (DM_OK, Some a3, sv')"
    using call_not_end [of x] mem new a1 a2 a3 r dispatch_call [where se = se, OF at wf mem h]
    by (simp add: rpc_dmconfig_switch_def as_result_def)
  then have "process_request se run c ?pkt sv = Some (sv'\<lparr>sv_sent := sv_sent sv' @
      [(c, packet_hdr (call_code x) 0 APP_ID hop endid 36 @ enc (code_avp (result_number r)) @ replicate n 0)]\<rparr>)"
    using grp fields call_code_small [of x] mem pkt
    by (simp add: process_request_def request_cb_def dm_enqueue_def del: enc.simps)
  then show thesis by (rule that)
qed

lemma received_request:
  assumes mem: "\<And>n. mem n" and args: "writes mem args ts" and deep: "\<forall>t \<in> set ts. depth t < 16"
    and small: "20 + length (encs ts) < 2 ^ 24"
  obtains pkt where "stub mem code args = Some (RC_OK, Some pkt)"
    and "on_wire pkt = packet_hdr code CMD_FLAG_REQUEST APP_ID 0 0 (20 + length (encs ts)) @ encs ts"
proof -
  obtain n where "stub mem code args =
      Some (RC_OK, Some (packet_hdr code CMD_FLAG_REQUEST APP_ID 0 0 (20 + length (encs ts)) @ encs ts @ replicate n 0))"
    by (rule stub_bytes [where mem = mem, OF mem args deep])
  then show thesis by (rule that) (rule on_wire_packet [OF small])
qed

section \<open>Properties\<close>


text \<open>A server with two clients that have no session.\<close>

definition example_env :: srv_env where
  "example_env = \<lparr>se_dm = env_example, se_text = \<lparr>tf_pton4 = \<lambda>_. None, tf_pton6 = \<lambda>_. None, tf_str2ticks = \<lambda>_. None\<rparr>,
     se_mem = (\<lambda>_. True), se_ticks2realtime = (\<lambda>x. x), se_dump = (\<lambda>_ _. None)\<rparr>"

definition example_server :: server where
  "example_server = (initial_server initial_state)\<lparr>sv_socks := [(3, new_ctx), (4, new_ctx)]\<rparr>"

text \<open>The first of them has started a configure session.\<close>

definition locked_server :: server where
  "locked_server = example_server\<lparr>sv_socks := [(3, new_ctx\<lparr>sk_id := 1, sk_flags := CMD_FLAG_CONFIGURE\<rparr>), (4, new_ctx)],
     sv_cfg := 1, sv_counter := 2\<rparr>"

lemma example_start: "server_call example_env 3 (StartSession CMD_FLAG_CONFIGURE 0) example_server = Some (DM_OK, locked_server)"
  by (simp add: rpc_startsession_def example_server_def locked_server_def initial_server_def get_ctx_def upd_ctx_def new_ctx_def
      CMD_FLAG_CONFIGURE_def)


text \<open>
  The command that sets the notification of several paths uses the first one only. Whatever paths follow it in a well-formed
  request, the server runs the handler with the first path alone: the loop of the skeleton asks whether the
  message is at its end, where it should ask for the group of the paths.
\<close>

theorem param_notify_first_only:
  assumes "\<And>n. mem n" and "\<And>n. se_mem se n" and "\<forall>q \<in> set (p # ps). c_string q"
    and "sum_list (map (\<lambda>q. length q + 15) (p # ps)) < 2 ^ 23" and "dm_name2sel (se_dm se) (Some p) = Some (Some sel)"
  shows "\<exists>pkt grp. rpc_param_notify_async mem ntfy (p # ps) = Some (RC_OK, Some pkt) \<and> dm_init_packet (on_wire pkt) = Some grp \<and>
    rpc_param_notify_skel se c grp a sv = silent a (rpc_param_notify se c (ucast (ucast ntfy :: u8)) [sel] sv)"
proof -
  let ?us = "map (Avp AVP_PATH VP_TRAVELPING) (p # ps)"
  let ?ts = "[Avp AVP_NOTIFY_LEVEL VP_TRAVELPING [ucast ntfy], Grp AVP_CONTAINER VP_TRAVELPING ?us]"
  let ?args = "(\<lambda>q. dm_add_uint8 mem q AVP_NOTIFY_LEVEL VP_TRAVELPING (ucast ntfy)) # (\<lambda>q. dm_new_group mem q AVP_CONTAINER VP_TRAVELPING) #
     map (\<lambda>p q. dm_add_string mem q AVP_PATH VP_TRAVELPING p) (p # ps) @ dm_finalize_group # []"
  have "writes mem ?args ?ts"
    by (intro writes_Cons writes_group writes_strings writes_Nil) (rule add_as_tree)
  then have w: "rpc_param_notify_async mem ntfy (p # ps) = stub mem CMD_PARAM_NOTIFY ?args" "writes mem ?args ?ts"
    by (simp_all add: rpc_param_notify_async_def dm_add_object_def [abs_def])
  have "length (encs ?us) < 2 ^ 23"
    using flat_size [of ?us] assms(4) by (auto simp: comp_def simp del: list.map sum_list.Cons enc.simps)
  moreover have "length (encs [Avp k VP_TRAVELPING [w], Grp l VP_TRAVELPING us]) = 28 + length (encs us)" for k w l us
    by (simp add: hdr_len_def padding_def PAD32_def VP_TRAVELPING_def)
  moreover have "20 + (28 + n) < 2 ^ 24" if "n < 2 ^ 23" for n :: nat using that by simp
  ultimately have small: "20 + length (encs ?ts) < 2 ^ 24" by (simp only:)
  have "fold (\<lambda>t. max (depth t)) (map (Avp c v) qs) 0 = 0" for c v qs by (induction qs) auto
  then have deep: "\<forall>t \<in> set ?ts. depth t < 16" by simp
  obtain pkt where pkt: "rpc_param_notify_async mem ntfy (p # ps) = Some (RC_OK, Some pkt)"
    and wire: "on_wire pkt = packet_hdr CMD_PARAM_NOTIFY CMD_FLAG_REQUEST APP_ID 0 0 (20 + length (encs ?ts)) @ encs ?ts"
    using received_request [where mem = mem, OF assms(1) w(2) deep small] w(1) by metis
  obtain grp where grp: "dm_init_packet (on_wire pkt) = Some grp" and at: "at_avps grp ?ts"
    using received_at [OF small] unfolding wire by blast
  obtain g1 where g1: "dm_expect_uint8_type AVP_NOTIFY_LEVEL VP_TRAVELPING grp = Some (RC_OK, Some (ucast ntfy), g1)"
    and at1: "at_avps g1 [Grp AVP_CONTAINER VP_TRAVELPING ?us]" using expect_numbers_at(3) [OF at] by blast
  obtain g g2 where g2: "dm_expect_object g1 = Some (RC_OK, Some g, g2)" and at2: "at_avps g ?us" "at_avps g2 []"
    using expect_object_at [OF at1] by blast
  obtain g3 where g3: "dm_expect_path_type (se_dm se) (se_mem se) AVP_PATH VP_TRAVELPING g = Some (RC_OK, Some sel, g3)"
    using expect_path_at [where mem = "se_mem se", OF at2(1) [unfolded list.map] _ _ assms(5)] assms(2,3) by (auto simp: c_string_def)
  have "param_paths se g2 g [] = Some (DM_OK, [sel])"
    using g3 assms(2) at2(2) by (subst param_paths.simps) (simp add: grows_def expect_end_at)
  then have "rpc_param_notify_skel se c grp a sv = silent a (rpc_param_notify se c (ucast (ucast ntfy :: u8)) [sel] sv)"
    using g1 g2 at2(2) by (simp add: rpc_param_notify_skel_def expect_end_at)
  with pkt grp show ?thesis by blast
qed

definition names_env :: srv_env where
  "names_env = example_env\<lparr>se_dm := env_example\<lparr>dm_root := example_names\<rparr>\<rparr>"

theorem param_notify_first_only_witness:
  "\<exists>pkt grp. rpc_param_notify_async (\<lambda>_. True) 1 [[97], [105, 102]] = Some (RC_OK, Some pkt) \<and>
    dm_init_packet (on_wire pkt) = Some grp \<and>
    rpc_param_notify_skel names_env 3 grp \<lparr>rq_grp = [], rq_level = 0, rq_packet = None\<rparr> example_server =
      silent \<lparr>rq_grp = [], rq_level = 0, rq_packet = None\<rparr>
        (rpc_param_notify names_env 3 (ucast (ucast (1 :: u32) :: u8)) [1 # replicate 15 0] example_server)"
proof (rule param_notify_first_only)
  show "dm_name2sel (se_dm names_env) (Some [97]) = Some (Some (1 # replicate 15 0))" by code_simp
qed (simp_all add: names_env_def example_env_def c_string_def)

end
