(* ===== verification/Dm_Session_Props.thy ===== *)
theory Dm_Session_Props
  imports Dm_Session Dm_Call_Props Dm_Cache_Props
begin

text \<open>
  The configure lock over all sequences of events, and what becomes of it when its holder goes.
\<close>

section \<open>Ending a session in a quiet server\<close>

text \<open>No action and no notification is pending.\<close>

definition quiet :: "dmst \<Rightarrow> bool" where
  "quiet s \<longleftrightarrow> exec_chain s = None \<and> \<not> notify_pending s"

lemma while_cache_keeps:
  assumes w: "while_cache root body s = Some s'" and Q: "Q s"
    and body: "\<And>it s s'. Q s \<Longrightarrow> body it s = Some s' \<Longrightarrow> Q s'" and cache: "\<And>s q. Q s \<Longrightarrow> Q (s\<lparr>cache := q\<rparr>)"
  shows "Q s'"
proof -
  have "body = body \<longrightarrow> Q s \<longrightarrow> Q s'"
  proof (rule while_cache.raw_induct [where P = "\<lambda>_ b s s'. b = body \<longrightarrow> Q s \<longrightarrow> Q s'", OF _ w], intro impI)
    fix w root b s s'
    assume IH: "\<And>root b s y. w root b s = Some y \<Longrightarrow> b = body \<longrightarrow> Q s \<longrightarrow> Q y"
      and w: "(case RB_ROOT root (cache s) of None \<Rightarrow> Some s
        | Some item \<Rightarrow> b item (s\<lparr>cache := remove_root root (cache s)\<rparr>) \<bind> w root b) = Some s'"
      and b: "b = body" and q: "Q s"
    show "Q s'"
      using w b q by (auto simp: bind_Some_iff split: option.splits dest!: IH intro: body cache)
  qed
  then show ?thesis using Q by blast
qed

lemma quiet_free:
  assumes "dm_free_any_value e v s = Some (v', s')"
  shows "quiet s' = quiet s"
proof -
  have blob: "quiet s' = quiet s" if "free_blob p s = Some s'" for p s s'
    using that by (cases p) (auto simp: free_blob_def quiet_def bind_Some_iff)
  have mem: "quiet (DM_MEM_SUB n s) = quiet s" for n s by (simp add: DM_MEM_SUB_def quiet_def)
  have str: "quiet s' = quiet s" if "dm_free_string_value v s = Some (v', s')"
    using that by (auto simp: dm_free_string_value_def bind_Some_iff mem dest!: blob split: option.splits)
  have bin: "quiet s' = quiet s" if "dm_free_binary_value v s = Some (v', s')"
    using that by (auto simp: dm_free_binary_value_def bind_Some_iff mem dest!: blob split: option.splits)
  have sel: "quiet s' = quiet s" if "dm_free_selector_value v s = Some (v', s')"
    using that by (auto simp: dm_free_selector_value_def bind_Some_iff mem dest!: blob split: option.splits)
  show ?thesis
    using assms str bin sel by (simp add: dm_free_any_value_def split: dm_type.splits)
qed

lemma quiet_clear_flags: "clear_flags s r f = Some s' \<Longrightarrow> quiet s' = quiet s"
  by (auto simp: clear_flags_def quiet_def bind_Some_iff dest: putv_sel(8,12))

lemma cache_reset_quiet:
  assumes "cache_reset env s = Some s'" and "quiet s"
  shows "quiet s'"
  using assms(1) [unfolded cache_reset_def] assms(2)
  by (rule while_cache_keeps) (auto simp: bind_Some_iff dest!: quiet_free quiet_clear_flags, simp add: quiet_def)

text \<open>Without a notification slot, nothing else happens than the end of the lock.\<close>

lemma end_session_quiet:
  assumes x: "get_ctx sv c = Some x" and slot: "sk_slot x = 0" and q: "quiet (sv_dm sv)" and cfg: "sv_cfg sv = sk_id x"
    and reset: "cache_reset (se_dm se) (sv_dm sv) = Some s"
  shows "end_session se c sv = Some (sv\<lparr>sv_dm := s, sv_cfg := 0, sv_socks := filter (\<lambda>(a, _). a \<noteq> c) (sv_socks sv)\<rparr>)"
proof -
  have "quiet s" using cache_reset_quiet [OF reset q] .
  then show ?thesis
    using x slot cfg reset
    by (simp add: end_session_def run_actions_pre_def run_actions_def exec_actions_pre_def exec_actions_def
        exec_pending_notifications_def quiet_def)
qed

section \<open>Subscriptions\<close>

text \<open>
  \<open>rpc_unsubscribe_notify\<close> frees the slot of a client but leaves its number in the context. Another client gets the slot;
  when the first one unsubscribes again, the slot of the second is freed under it.
\<close>

lemma unsubscribe_frees_other:
  "do { (_, sv) \<leftarrow> rpc_subscribe_notify 3 (example_server\<lparr>sv_dm := initial_state\<lparr>dm_value_store := Some 5,
          tables := [5 \<mapsto> \<lparr>vt_id = replicate 16 0, vt_values = []\<rparr>]\<rparr>\<rparr>);
        (_, sv) \<leftarrow> rpc_unsubscribe_notify example_env 3 sv;
        (r, sv) \<leftarrow> rpc_subscribe_notify 4 sv;
        (_, sv) \<leftarrow> rpc_unsubscribe_notify example_env 3 sv;
        Some (r, map_option sk_slot (get_ctx sv 4), bit (slot_map (sv_dm sv)) 1) } = Some (DM_OK, Some 1, False)"
  by code_simp

section \<open>Properties\<close>

text \<open>
  C4: At every time, after any sequence of connections, disconnections, timeouts, deliveries and packets of any
  content, at most one connected client has a configure session; the server's record of the
  lock names exactly that client's session, or nothing when there is none. No two clients share a session number or a role. This
  holds as long as fewer than \<open>2 ^ 32 - 1\<close> sessions have been started.
\<close>

theorem one_configure_session:
  assumes "steps se (initial_server s) sv"
  shows "(\<forall>c x. get_ctx sv c = Some x \<longrightarrow> (configures x \<longleftrightarrow> sk_id x \<noteq> 0 \<and> sk_id x = sv_cfg sv)) \<and>
    (sv_cfg sv \<noteq> 0 \<longleftrightarrow> (\<exists>c x. get_ctx sv c = Some x \<and> configures x)) \<and>
    (\<forall>c d x y. get_ctx sv c = Some x \<and> get_ctx sv d = Some y \<and>
      (configures x \<and> configures y \<or> sk_id x = sk_id y \<and> sk_id x \<noteq> 0 \<or> sk_role x = sk_role y \<and> sk_role x \<noteq> None) \<longrightarrow> c = d)"
proof -
  have "session_ok sv" using steps_session_ok [OF assms initial_session_ok] .
  note ok = session_okD(3) [OF this]
  have flags: "configures x \<longleftrightarrow> sk_id x \<noteq> 0 \<and> sk_id x = sv_cfg sv" if "get_ctx sv c = Some x" for c x
    using contexts_okD(1) [OF ok that] by (auto simp: ctx_ok_def)
  have lock: "sv_cfg sv \<noteq> 0 \<longleftrightarrow> (\<exists>c x. get_ctx sv c = Some x \<and> configures x)"
    using flags contexts_ok_cfg [OF ok] by metis
  have "c = d" if "get_ctx sv c = Some x" "get_ctx sv d = Some y"
    "configures x \<and> configures y \<or> sk_id x = sk_id y \<and> sk_id x \<noteq> 0 \<or> sk_role x = sk_role y \<and> sk_role x \<noteq> None" for c d x y
    using contexts_okD(2) [OF ok that(1,2)] flags [OF that(1)] flags [OF that(2)] that(3) by (metis apart_def)
  with flags lock show ?thesis by blast
qed

text \<open>Two clients connect, and the first one starts a configure session.\<close>

lemma example_steps: "steps example_env (initial_server initial_state) example_server"
proof -
  let ?one = "(initial_server initial_state)\<lparr>sv_socks := [(3, new_ctx)]\<rparr>"
  have "steps example_env (initial_server initial_state) ?one"
    by (rule steps_connect [OF steps_refl, of _ 3 _ True RC_OK]) (simp_all add: get_ctx_def accept_cb_def initial_server_def)
  then show ?thesis
    by (rule steps_connect [of _ _ _ 4 True RC_OK]) (simp_all add: get_ctx_def accept_cb_def initial_server_def example_server_def)
qed

lemma locked_steps: "\<exists>sent. steps example_env (initial_server initial_state) (locked_server\<lparr>sv_sent := sent\<rparr>)"
proof -
  have mem: "\<And>n. se_mem example_env n" by (simp add: example_env_def)
  obtain n where "process_request example_env (\<lambda>_ _. None) 3
      (packet_hdr (call_code (StartSession CMD_FLAG_CONFIGURE 0)) CMD_FLAG_REQUEST APP_ID 0 0
        (20 + length (encs (call_args (StartSession CMD_FLAG_CONFIGURE 0)))) @ encs (call_args (StartSession CMD_FLAG_CONFIGURE 0)))
      example_server = Some (locked_server\<lparr>sv_sent := sv_sent locked_server @ [(3, n)]\<rparr>)"
    by (rule process_call [where se = example_env, OF mem _ example_start]) simp_all
  then have "steps example_env (initial_server initial_state) (locked_server\<lparr>sv_sent := sv_sent locked_server @ [(3, n)]\<rparr>)"
    by (rule steps_request [OF example_steps, rotated 2]) (simp_all add: example_server_def initial_server_def)
  then show ?thesis by blast
qed

theorem one_configure_session_witness:
  "\<exists>sv. steps example_env (initial_server initial_state) sv \<and> sv_cfg sv = 1 \<and> (\<exists>c x. get_ctx sv c = Some x \<and> configures x)"
proof -
  obtain sent where s: "steps example_env (initial_server initial_state) (locked_server\<lparr>sv_sent := sent\<rparr>)"
    using locked_steps by blast
  moreover have "sv_cfg (locked_server\<lparr>sv_sent := sent\<rparr>) = 1" by (simp add: locked_server_def)
  ultimately show ?thesis using one_configure_session [OF s] by (metis zero_neq_one)
qed



end
