(* ===== verification/Dm_Avp_Props.thy ===== *)
theory Dm_Avp_Props
  imports Dm_Avp Dm_Instance_Examples
begin

text \<open>
  The values that the server accepts from a client have the type that the schema gives to the element.
\<close>

text \<open>The type a value of an element is stored with, and the codes of AVPs for it beside the one for plain text.\<close>

definition stored_type :: "dm_type \<Rightarrow> dm_type" where
  "stored_type t = (if t = T_BASE64 then T_BINARY else t)"

definition accepted_codes :: "dm_type \<Rightarrow> u32 list" where
  "accepted_codes t = (case t of
     T_STR \<Rightarrow> [AVP_STRING] | T_BINARY \<Rightarrow> [AVP_BINARY] | T_BASE64 \<Rightarrow> [AVP_BINARY] | T_SELECTOR \<Rightarrow> [AVP_PATH]
   | T_IPADDR4 \<Rightarrow> [AVP_ADDRESS] | T_IPADDR6 \<Rightarrow> [AVP_ADDRESS] | T_ENUM \<Rightarrow> [AVP_ENUM, AVP_ENUMID]
   | T_INT \<Rightarrow> [AVP_INT32] | T_UINT \<Rightarrow> [AVP_UINT32] | T_INT64 \<Rightarrow> [AVP_INT64] | T_UINT64 \<Rightarrow> [AVP_UINT64]
   | T_BOOL \<Rightarrow> [AVP_BOOL] | T_DATE \<Rightarrow> [AVP_DATE] | T_TICKS \<Rightarrow> [AVP_ABSTICKS, AVP_RELTICKS] | _ \<Rightarrow> [])"

text \<open>A value with no flags and no notification levels of its own.\<close>

definition fresh :: "DM_VALUE \<Rightarrow> bool" where
  "fresh v \<longleftrightarrow> dv_flags v = 0 \<and> dv_notify v = 0"

named_theorems set_types \<open>the type and the flags after a value is set\<close>

lemma set_DM_types [set_types]:
  "dv_type (set_DM_INT v a) = T_INT" "dv_type (set_DM_UINT v a) = T_UINT" "dv_type (set_DM_ENUM v a) = T_ENUM"
  "dv_type (set_DM_BOOL v a) = T_BOOL" "dv_type (set_DM_TIME v b) = T_DATE" "dv_type (set_DM_STRING v p) = T_STR"
  "dv_type (set_DM_BINARY v p) = T_BINARY" "dv_type (set_DM_SELECTOR v p) = T_SELECTOR" "dv_type (set_DM_IP4 v a) = T_IPADDR4"
  "dv_type (set_DM_IP6 v c) = T_IPADDR6" "dv_type (set_DM_INT64 v b) = T_INT64" "dv_type (set_DM_UINT64 v b) = T_UINT64"
  "dv_type (set_DM_TICKS v b) = T_TICKS"
  by (simp_all add: set_DM_INT_def set_DM_UINT_def set_DM_ENUM_def set_DM_BOOL_def set_DM_TIME_def set_DM_STRING_def
      set_DM_BINARY_def set_DM_SELECTOR_def set_DM_IP4_def set_DM_IP6_def set_DM_INT64_def set_DM_UINT64_def set_DM_TICKS_def)

lemma set_DM_fresh [set_types]:
  "fresh (set_DM_INT v a) = fresh v" "fresh (set_DM_UINT v a) = fresh v" "fresh (set_DM_ENUM v a) = fresh v"
  "fresh (set_DM_BOOL v a) = fresh v" "fresh (set_DM_TIME v b) = fresh v" "fresh (set_DM_STRING v p) = fresh v"
  "fresh (set_DM_BINARY v p) = fresh v" "fresh (set_DM_SELECTOR v p) = fresh v" "fresh (set_DM_IP4 v a) = fresh v"
  "fresh (set_DM_IP6 v c) = fresh v" "fresh (set_DM_INT64 v b) = fresh v" "fresh (set_DM_UINT64 v b) = fresh v"
  "fresh (set_DM_TICKS v b) = fresh v" "fresh zero_value"
  by (simp_all add: set_DM_INT_def set_DM_UINT_def set_DM_ENUM_def set_DM_BOOL_def set_DM_TIME_def set_DM_STRING_def fresh_def
      set_DM_BINARY_def set_DM_SELECTOR_def set_DM_IP4_def set_DM_IP6_def set_DM_INT64_def set_DM_UINT64_def set_DM_TICKS_def
      zero_value_def)

lemma zero_value_type [simp]: "dv_type zero_value = T_NONE"
  by (simp add: zero_value_def)

lemma set_string_type:
  "dm_set_string_value t v s = Some (DM_OK, v', s') \<Longrightarrow> fresh v \<Longrightarrow> dv_type v' = T_STR \<and> fresh v'"
  unfolding dm_set_string_value_def dm_free_string_value_def
  by (auto simp: set_types split: option.split_asm list.split_asm prod.split_asm Option.bind_split_asm)

lemma set_binary_type:
  "dm_set_binary_value t v s = Some (DM_OK, v', s') \<Longrightarrow> fresh v \<Longrightarrow> dv_type v' = T_BINARY \<and> fresh v'"
  "dm_set_binary_data t v s = Some (DM_OK, v', s') \<Longrightarrow> fresh v \<Longrightarrow> dv_type v' = T_BINARY \<and> fresh v'"
  unfolding dm_set_binary_value_def dm_set_binary_data_def dm_free_binary_value_def
  by (auto simp: set_types split: option.split_asm list.split_asm prod.split_asm Option.bind_split_asm)

lemma set_selector_type:
  "dm_set_selector_value t v s = Some (DM_OK, v', s') \<Longrightarrow> fresh v \<Longrightarrow>
    (dv_type v' = T_SELECTOR \<or> dv_type v' = dv_type v) \<and> fresh v'"
  unfolding dm_set_selector_value_def dm_free_selector_value_def
  by (auto simp: set_types split: option.split_asm if_split_asm prod.split_asm Option.bind_split_asm)

lemmas value_types = set_string_type set_binary_type set_selector_type

definition well_typed :: "dm_element \<Rightarrow> DM_VALUE \<Rightarrow> bool" where
  "well_typed e v \<longleftrightarrow> fresh v \<and> (dv_type v = stored_type (el_type e) \<or> el_type e = T_SELECTOR \<and> dv_type v = T_NONE)"

lemma set_number_type:
  assumes "set_number err x get put zero_value s = Some (DM_OK, u, v, s')" and "err \<noteq> DM_OK"
  shows "\<exists>w. v = put zero_value w"
  using assms by (cases x) (auto simp: set_number_def bind_Some_iff split: if_splits)

lemma string2value_type:
  assumes "string2value_switch env tf e str zero_value s = Some (DM_OK, u, v, s')"
  shows "well_typed e v \<and> accepted_codes (el_type e) \<noteq> []"
  by (cases "el_type e") (use assms in \<open>auto simp: string2value_switch_def well_typed_def stored_type_def accepted_codes_def bind_Some_iff set_types Let_def
    split: if_splits option.splits prod.splits dest!: value_types set_number_type\<close>)

lemma text2value_type:
  assumes "dmconfig_string2value se str sz e zero_value s = Some (DM_OK, v, s')"
  shows "well_typed e v \<and> accepted_codes (el_type e) \<noteq> []"
proof (cases "el_type e = T_BASE64 \<or> el_type e = T_BINARY")
  case True
  then show ?thesis
    using assms unfolding dmconfig_string2value_def
    by (auto simp: well_typed_def stored_type_def accepted_codes_def set_types
        split: option.split_asm prod.split_asm Option.bind_split_asm dest!: set_binary_type)
next
  case False
  then obtain str' u v' s1 s2 where "string2value_switch (se_dm se) (se_text se) e str' zero_value s1 = Some (DM_OK, u, v', s2)"
    and "v = v'"
    using assms unfolding dmconfig_string2value_def dm_string2value_def
    by (auto split: option.split_asm prod.split_asm Option.bind_split_asm)
  then show ?thesis using string2value_type by blast
qed

lemma avp_number_type:
  assumes "avp_number avp code get put s = Some (DM_OK, v, s')"
  shows "av_code avp = code \<and> (\<exists>w. v = put zero_value w)"
  using assms by (auto simp: avp_number_def bind_Some_iff split: if_splits)

lemma avp_address_type:
  assumes "avp_address fam sz avp put s = Some (DM_OK, v, s')"
  shows "av_code avp = AVP_ADDRESS \<and> (\<exists>b. v = put b)"
  using assms by (auto simp: avp_address_def bind_Some_iff split: if_splits)

text \<open>
  C15: A value that the server takes from a message has the type of its element in the schema, whatever AVP the client has
  sent: a decoded value is stored with the type of the element, binary for Base64, or without a type for the empty path, and has no
  flags; and the AVP had a code for that type, or was plain text. Elements that cannot be written, counters among them, take no AVP.
\<close>

theorem avp2value_type:
  assumes "dmconfig_avp2value se avp (Some e) s = Some (DM_OK, v, s')"
  shows "fresh v \<and> (dv_type v = stored_type (el_type e) \<or> el_type e = T_SELECTOR \<and> dv_type v = T_NONE) \<and>
    accepted_codes (el_type e) \<noteq> [] \<and> av_code avp \<in> set (AVP_UNKNOWN # accepted_codes (el_type e))"
proof (cases "av_code avp = AVP_UNKNOWN")
  case True
  then show ?thesis using assms text2value_type [of se] by (simp add: dmconfig_avp2value_def well_typed_def)
next
  case False
  then show ?thesis
    using assms unfolding dmconfig_avp2value_def
    by (cases "el_type e")
       (auto simp: stored_type_def accepted_codes_def set_types
        split: if_split_asm option.split_asm prod.split_asm Option.bind_split_asm
        dest!: value_types avp_number_type avp_address_type)
qed

theorem avp2value_type_witness:
  "\<exists>v s'. dmconfig_avp2value \<lparr>se_dm = env_example, se_text = \<lparr>tf_pton4 = \<lambda>_. None, tf_pton6 = \<lambda>_. None, tf_str2ticks = \<lambda>_. None\<rparr>,
       se_mem = \<lambda>_. True, se_ticks2realtime = \<lambda>x. x, se_dump = \<lambda>_ _. None\<rparr>
       \<lparr>av_code = AVP_UINT32, av_vendor = VP_TRAVELPING, av_data = [0, 0, 1, 2], av_len = 4\<rparr>
       (Some (Element [97] T_UINT 0 0 (Fk_value \<lparr>vf_validate = None, vf_get = None, vf_set = None\<rparr>) U_none)) initial_state =
     Some (DM_OK, v, s') \<and> dv_type v = T_UINT \<and> DM_UINT v = Some 258"
proof -
  let ?se = "\<lparr>se_dm = env_example, se_text = \<lparr>tf_pton4 = \<lambda>_. None, tf_pton6 = \<lambda>_. None, tf_str2ticks = \<lambda>_. None\<rparr>,
       se_mem = \<lambda>_. True, se_ticks2realtime = \<lambda>x. x, se_dump = \<lambda>_ _. None\<rparr>"
  let ?avp = "\<lparr>av_code = AVP_UINT32, av_vendor = VP_TRAVELPING, av_data = [0, 0, 1, 2], av_len = 4\<rparr>"
  let ?e = "Element [97] T_UINT 0 0 (Fk_value \<lparr>vf_validate = None, vf_get = None, vf_set = None\<rparr>) U_none"
  have d: "dmconfig_avp2value ?se ?avp (Some ?e) initial_state = Some (DM_OK, set_DM_UINT zero_value 258, initial_state)"
    by (simp add: dmconfig_avp2value_def avp_number_def dm_get_uint32_avp_def AVP_UINT32_def AVP_UNKNOWN_def read_at_def ntohl_def)
  have "DM_UINT (set_DM_UINT zero_value 258) = Some 258" by code_simp
  with avp2value_type [OF d] d show ?thesis by (auto simp: stored_type_def)
qed

end
