(* ===== verification/Dm_Context.thy ===== *)
theory Dm_Context
  imports Dm_Msg
begin

text \<open>
  Connections: \<^verbatim>\<open>libdmconfig/dmcontext.c\<close>. A context has a socket, a queue of packets to write and of
  requests that wait for their answer, and an unfinished packet for each direction. libev calls \<open>readEvent\<close> and
  \<open>writeEvent\<close> when the socket is ready and the timeout handlers when a timer has run out.

  The operating system is a script: the result of each system call in turn. \<open>Xfer n\<close> lets the call transfer at
  most \<open>n\<close> bytes; a read that finds none, and every call after the end of the script, would block. \<open>nt_rx\<close> is what the peer sends,
  \<open>nt_tx\<close> what has been written. A call on a closed socket fails with \<open>EBADF\<close>. Callbacks are named by numbers;
  what they do, to the context and to the state \<open>cx_user\<close> of the program, is a parameter, \<open>cb_env\<close>. Callbacks
  do not run the event loop. A timer is \<open>None\<close> when it is stopped, or has its repeat value. A block
  of \<open>talloc_size\<close>, whose contents are unspecified, is filled with zeros; \<open>mem n\<close> says whether there is one.
\<close>

section \<open>State\<close>

datatype requestStatus = REQUEST_SHALL_WRITE | REQUEST_SHALL_READ

datatype dmconfig_event =
    DMCONFIG_OK | DMCONFIG_ERROR_CONNECTING | DMCONFIG_ERROR_ACCEPTING | DMCONFIG_ERROR_WRITING
  | DMCONFIG_ERROR_READING | DMCONFIG_ANSWER_READY | DMCONFIG_CONNECTED | DMCONFIG_ACCEPTED | DMCONFIG_CLOSED
  | DMCONFIG_ERROR_CONNECT_TIMEOUT | DMCONFIG_ERROR_ACCEPT_TIMEOUT | DMCONFIG_ERROR_READ_TIMEOUT
  | DMCONFIG_ERROR_WRITE_TIMEOUT

definition ONE_WAY :: u32 where "ONE_WAY = push_bit 0 1"
definition REQUEST :: u32 where "REQUEST = push_bit 1 1"
definition REPLY :: u32 where "REPLY = push_bit 2 1"
definition MAX_INT :: u32 where "MAX_INT = 0xFFFFFFFF"
definition TIMEOUT_CHUNKS :: nat where "TIMEOUT_CHUNKS = 3"
definition TIMEOUT_WRITE_REQUESTS :: nat where "TIMEOUT_WRITE_REQUESTS = 30"
definition sizeof_request_info :: nat where "sizeof_request_info = 64"

record requestInfo =
  ri_flags :: u32
  ri_reply_cb :: "nat option"
  ri_userdata :: nat
  ri_status :: requestStatus
  ri_code :: u32
  ri_hopid :: u32
  ri_packet :: "u8 list"

record dm_io_context =
  io_timer :: "nat option"
  io_active :: bool
  io_packet :: "u8 list option"
  io_pos :: "nat option"
  io_left :: nat

text \<open>\<open>cx_ids\<close> are the static variables \<open>hopid\<close> and \<open>endid\<close> of the library.\<close>

record 'u dmSocket =
  cx_ref :: int
  cx_type :: int
  cx_socket :: int
  cx_head :: "requestInfo list"
  cx_timer_socket :: "nat option"
  cx_io_socket :: bool
  cx_writeCtx :: dm_io_context
  cx_readCtx :: dm_io_context
  cx_userdata :: nat
  cx_connection_cb :: "nat option"
  cx_request_cb :: "nat option"
  cx_ids :: "u32 \<times> u32"
  cx_user :: 'u

record 'u cb_env =
  connection_fn :: "nat \<Rightarrow> dmconfig_event \<Rightarrow> 'u dmSocket \<Rightarrow> nat \<Rightarrow> (rc \<times> 'u dmSocket) option"
  request_fn :: "nat \<Rightarrow> 'u dmSocket \<Rightarrow> u8 list \<Rightarrow> DM2_AVPGRP \<Rightarrow> nat \<Rightarrow> 'u dmSocket option"
  reply_fn :: "nat \<Rightarrow> 'u dmSocket \<Rightarrow> dmconfig_event \<Rightarrow> DM2_AVPGRP option \<Rightarrow> nat \<Rightarrow> 'u dmSocket option"

datatype errno = EWOULDBLOCK | EINTR | ETIMEDOUT | ECONNRESET | EPIPE | EBADF | EFAULT | EINPROGRESS | EOTHER

datatype sysres = Xfer nat | Eof | Fail errno

record net =
  nt_rx :: "u8 list"
  nt_tx :: "u8 list"
  nt_script :: "sysres list"

definition sys_script :: "'u dmSocket \<Rightarrow> net \<Rightarrow> sysres list" where
  "sys_script cx net = (if cx_socket cx < 0 then [Fail EBADF] else nt_script net)"

definition set_script :: "'u dmSocket \<Rightarrow> sysres list \<Rightarrow> net \<Rightarrow> net" where
  "set_script cx sc net = (if cx_socket cx < 0 then net else net\<lparr>nt_script := sc\<rparr>)"

section \<open>Contexts\<close>

definition idle_io :: dm_io_context where
  "idle_io = \<lparr>io_timer = None, io_active = False, io_packet = None, io_pos = None, io_left = 0\<rparr>"

definition dm_context_init ::
  "int \<Rightarrow> nat \<Rightarrow> nat option \<Rightarrow> nat option \<Rightarrow> u32 \<times> u32 \<Rightarrow> 'u \<Rightarrow> 'u dmSocket" where
  "dm_context_init type userdata connection_cb request_cb ids u =
     \<lparr>cx_ref = 1, cx_type = type, cx_socket = -1, cx_head = [], cx_timer_socket = None, cx_io_socket = False,
      cx_writeCtx = idle_io, cx_readCtx = idle_io, cx_userdata = userdata,
      cx_connection_cb = connection_cb, cx_request_cb = request_cb, cx_ids = ids, cx_user = u\<rparr>"

definition dm_context_reference :: "'u dmSocket \<Rightarrow> 'u dmSocket" where
  "dm_context_reference cx = cx\<lparr>cx_ref := cx_ref cx + 1\<rparr>"

text \<open>At zero references the context is freed: its caller must not use it any more.\<close>

definition dm_context_release :: "'u dmSocket \<Rightarrow> int \<times> 'u dmSocket" where
  "dm_context_release cx = (cx_ref cx - 1, cx\<lparr>cx_ref := cx_ref cx - 1\<rparr>)"

definition dm_stop_events :: "'u dmSocket \<Rightarrow> 'u dmSocket" where
  "dm_stop_events cx = cx\<lparr>
     cx_writeCtx := (cx_writeCtx cx)\<lparr>io_active := False, io_timer := None\<rparr>,
     cx_readCtx := (cx_readCtx cx)\<lparr>io_active := False, io_timer := None\<rparr>,
     cx_io_socket := False, cx_timer_socket := None\<rparr>"

definition reply_callback ::
  "'u cb_env \<Rightarrow> requestInfo \<Rightarrow> 'u dmSocket \<Rightarrow> dmconfig_event \<Rightarrow> DM2_AVPGRP option \<Rightarrow> 'u dmSocket option" where
  "reply_callback env r cx ev grp =
     (case ri_reply_cb r of None \<Rightarrow> Some cx | Some f \<Rightarrow> reply_fn env f cx ev grp (ri_userdata r))"

text \<open>The queue is emptied from its front. A callback may put requests into it, so the loop need not end.\<close>

partial_function (option) free_requests ::
  "'u cb_env \<Rightarrow> dmconfig_event \<Rightarrow> 'u dmSocket \<Rightarrow> 'u dmSocket option" where
  "free_requests env ev cx = (case cx_head cx of
     [] \<Rightarrow> Some cx
   | r # rs \<Rightarrow> do { cx \<leftarrow> reply_callback env r (cx\<lparr>cx_head := rs\<rparr>) ev None; free_requests env ev cx })"

definition dm_free_requests :: "'u cb_env \<Rightarrow> dmconfig_event \<Rightarrow> 'u dmSocket \<Rightarrow> 'u dmSocket option" where
  "dm_free_requests env ev cx = do {
     cx \<leftarrow> free_requests env ev cx;
     Some (cx\<lparr>cx_writeCtx := (cx_writeCtx cx)\<lparr>io_packet := None\<rparr>,
              cx_readCtx := (cx_readCtx cx)\<lparr>io_packet := None\<rparr>\<rparr>) }"

definition dm_context_shutdown :: "'u cb_env \<Rightarrow> 'u dmSocket \<Rightarrow> dmconfig_event \<Rightarrow> 'u dmSocket option" where
  "dm_context_shutdown env cx ev = do {
     cx \<leftarrow> dm_free_requests env ev (dm_stop_events cx);
     Some (cx\<lparr>cx_socket := -1\<rparr>) }"

definition connection_callback ::
  "'u cb_env \<Rightarrow> dmconfig_event \<Rightarrow> 'u dmSocket \<Rightarrow> (rc \<times> 'u dmSocket) option" where
  "connection_callback env ev cx =
     (case cx_connection_cb cx of None \<Rightarrow> Some (RC_OK, cx) | Some f \<Rightarrow> connection_fn env f ev cx (cx_userdata cx))"

definition connection_error :: "'u cb_env \<Rightarrow> 'u dmSocket \<Rightarrow> dmconfig_event \<Rightarrow> 'u dmSocket option" where
  "connection_error env cx ev = do {
     (_, cx) \<leftarrow> connection_callback env ev cx;
     oassert (cx_ref cx > 0);
     dm_context_shutdown env cx ev }"

definition connectTimeoutEvent :: "'u cb_env \<Rightarrow> 'u dmSocket \<Rightarrow> 'u dmSocket option" where
  "connectTimeoutEvent env cx = connection_error env cx DMCONFIG_ERROR_CONNECT_TIMEOUT"

definition readTimeoutEvent :: "'u cb_env \<Rightarrow> 'u dmSocket \<Rightarrow> 'u dmSocket option" where
  "readTimeoutEvent env cx = connection_error env cx DMCONFIG_ERROR_READ_TIMEOUT"

definition writeTimeoutEvent :: "'u cb_env \<Rightarrow> 'u dmSocket \<Rightarrow> 'u dmSocket option" where
  "writeTimeoutEvent env cx = connection_error env cx DMCONFIG_ERROR_WRITE_TIMEOUT"

section \<open>The queue\<close>

text \<open>\<open>rnd\<close> is the value of the expression with \<open>rand()\<close>.\<close>

definition next_ids :: "u32 \<Rightarrow> u32 \<times> u32 \<Rightarrow> u32 \<times> u32" where
  "next_ids rnd = (\<lambda>(hopid, endid). if hopid = 0 \<or> hopid = MAX_INT then (rnd, rnd) else (endid + 1, endid + 1))"

definition start_writing :: "'u dmSocket \<Rightarrow> 'u dmSocket" where
  "start_writing cx =
     (if io_active (cx_writeCtx cx) then cx
      else cx\<lparr>cx_writeCtx := (cx_writeCtx cx)\<lparr>io_active := True, io_timer := Some TIMEOUT_WRITE_REQUESTS\<rparr>\<rparr>)"

definition ctx_enqueue ::
  "(nat \<Rightarrow> bool) \<Rightarrow> u32 \<Rightarrow> 'u dmSocket \<Rightarrow> u8 list \<Rightarrow> u32 \<Rightarrow> nat option \<Rightarrow> nat \<Rightarrow> (rc \<times> 'u dmSocket) option" where
  "ctx_enqueue mem rnd cx pkt flags cb data =
     (if cx_socket cx < 0 then Some (RC_ERR_CONNECTION, cx)
      else do {
        (cx, pkt) \<leftarrow> (if flags OR REPLY \<noteq> REPLY
          then do {
            let (hopid, endid) = next_ids rnd (cx_ids cx);
            pkt \<leftarrow> write_at 12 (htonl hopid) pkt;
            pkt \<leftarrow> write_at 16 (htonl endid) pkt;
            Some (cx\<lparr>cx_ids := (hopid, endid)\<rparr>, pkt) }
          else Some (cx, pkt));
        if \<not> mem sizeof_request_info then Some (RC_ERR_ALLOC, cx)
        else do {
          code \<leftarrow> dm_packet_code pkt;
          hop \<leftarrow> dm_hop2hop_id pkt;
          let rqi = \<lparr>ri_flags = flags, ri_reply_cb = cb, ri_userdata = data, ri_status = REQUEST_SHALL_WRITE,
                     ri_code = code, ri_hopid = hop, ri_packet = pkt\<rparr>;
          Some (RC_OK, start_writing (cx\<lparr>cx_head := cx_head cx @ [rqi]\<rparr>)) } })"

definition dm_enqueue_request ::
  "(nat \<Rightarrow> bool) \<Rightarrow> u32 \<Rightarrow> 'u dmSocket \<Rightarrow> u8 list \<Rightarrow> nat option \<Rightarrow> nat \<Rightarrow> (rc \<times> 'u dmSocket) option" where
  "dm_enqueue_request mem rnd cx pkt cb data = ctx_enqueue mem rnd cx pkt REQUEST cb data"

section \<open>Reading\<close>

definition ctx_process_request :: "'u cb_env \<Rightarrow> 'u dmSocket \<Rightarrow> u8 list \<Rightarrow> 'u dmSocket option" where
  "ctx_process_request env cx pkt = do {
     grp \<leftarrow> dm_init_packet pkt;
     case cx_request_cb cx of None \<Rightarrow> Some cx | Some f \<Rightarrow> request_fn env f cx pkt grp (cx_userdata cx) }"

fun find_request :: "u32 \<Rightarrow> requestInfo list \<Rightarrow> requestInfo option" where
  "find_request hop [] = None"
| "find_request hop (r # rs) = (if ri_hopid r = hop then Some r else find_request hop rs)"

fun remove_request :: "u32 \<Rightarrow> requestInfo list \<Rightarrow> requestInfo list" where
  "remove_request hop [] = []"
| "remove_request hop (r # rs) = (if ri_hopid r = hop then rs else r # remove_request hop rs)"

definition process_reply :: "'u cb_env \<Rightarrow> 'u dmSocket \<Rightarrow> u8 list \<Rightarrow> 'u dmSocket option" where
  "process_reply env cx pkt = do {
     grp \<leftarrow> dm_init_packet pkt;
     if cx_head cx = [] then Some cx
     else do {
       hop \<leftarrow> dm_hop2hop_id pkt;
       case find_request hop (cx_head cx) of
         None \<Rightarrow> Some cx
       | Some r \<Rightarrow>
           if ri_status r \<noteq> REQUEST_SHALL_READ then Some cx
           else reply_callback env r (cx\<lparr>cx_head := remove_request hop (cx_head cx)\<rparr>) DMCONFIG_ANSWER_READY (Some grp) } }"

text \<open>The loop around \<open>recv\<close> with \<^verbatim>\<open>MSG_PEEK\<close>; an empty list is the end of the stream.\<close>

fun recv_peek :: "sysres list \<Rightarrow> u8 list \<Rightarrow> (errno + u8 list) \<times> sysres list" where
  "recv_peek [] rx = (Inl EWOULDBLOCK, [])"
| "recv_peek (Fail e # sc) rx = (if e = EINTR then recv_peek sc rx else (Inl e, sc))"
| "recv_peek (Eof # sc) rx = (Inr [], sc)"
| "recv_peek (Xfer n # sc) rx =
     (let bs = take (min n sizeof_dm_packet) rx in (if bs = [] then Inl EWOULDBLOCK else Inr bs, sc))"

datatype io_result = Io_done | Io_blocked | Io_lost

text \<open>The loop around \<open>read\<close>. A \<open>NULL\<close> position makes the call fail with \<^verbatim>\<open>EFAULT\<close>, one into a freed block is a fault.\<close>

primrec read_loop ::
  "sysres list \<Rightarrow> dm_io_context \<Rightarrow> u8 list \<Rightarrow> (io_result \<times> dm_io_context \<times> u8 list \<times> sysres list) option" where
  "read_loop [] io rx =
     (if io_left io = 0 then Some (Io_done, io, rx, [])
      else Some (Io_blocked, io\<lparr>io_timer := Some TIMEOUT_CHUNKS\<rparr>, rx, []))"
| "read_loop (r # sc) io rx =
     (if io_left io = 0 then Some (Io_done, io, rx, r # sc)
      else case r of
        Fail e \<Rightarrow>
          if e = EWOULDBLOCK then Some (Io_blocked, io\<lparr>io_timer := Some TIMEOUT_CHUNKS\<rparr>, rx, sc)
          else if e = EINTR then read_loop sc io rx
          else Some (Io_lost, io, rx, sc)
      | Eof \<Rightarrow> Some (Io_lost, io, rx, sc)
      | Xfer n \<Rightarrow>
          let bs = take (min n (io_left io)) rx in
          if bs = [] then Some (Io_blocked, io\<lparr>io_timer := Some TIMEOUT_CHUNKS\<rparr>, rx, sc)
          else case io_pos io of
            None \<Rightarrow> Some (Io_lost, io, rx, sc)
          | Some pos \<Rightarrow> do {
              pk \<leftarrow> io_packet io;
              pk \<leftarrow> write_at pos bs pk;
              read_loop sc (io\<lparr>io_packet := Some pk, io_pos := Some (pos + length bs),
                               io_left := io_left io - length bs\<rparr>) (drop (length bs) rx) })"

text \<open>A complete packet: it is handed on and freed. The flag says whether the context is still there.\<close>

definition packet_complete :: "'u cb_env \<Rightarrow> 'u dmSocket \<Rightarrow> (bool \<times> 'u dmSocket) option" where
  "packet_complete env cx = do {
     let cx = cx\<lparr>cx_readCtx := (cx_readCtx cx)\<lparr>io_timer := None\<rparr>\<rparr>;
     pkt \<leftarrow> io_packet (cx_readCtx cx);
     let cx = dm_context_reference cx;
     flags \<leftarrow> dm_packet_flags pkt;
     cx \<leftarrow> (if flags AND CMD_FLAG_REQUEST \<noteq> 0 then ctx_process_request env cx pkt else process_reply env cx pkt);
     let cx = cx\<lparr>cx_readCtx := (cx_readCtx cx)\<lparr>io_packet := None, io_pos := None, io_left := 0\<rparr>\<rparr>;
     let (r, cx) = dm_context_release cx;
     Some (r \<noteq> 0, cx) }"

text \<open>One round from the label \<open>again\<close>: the flag says whether to go back to it.\<close>

definition read_packet ::
  "'u cb_env \<Rightarrow> 'u dmSocket \<Rightarrow> net \<Rightarrow> (bool \<times> 'u dmSocket \<times> net) option" where
  "read_packet env cx net = do {
     (res, io, rx, sc) \<leftarrow> read_loop (sys_script cx net) (cx_readCtx cx) (nt_rx net);
     let cx = cx\<lparr>cx_readCtx := io\<rparr>;
     let net = set_script cx sc (net\<lparr>nt_rx := rx\<rparr>);
     case res of
       Io_blocked \<Rightarrow> Some (False, cx, net)
     | Io_lost \<Rightarrow> do { cx \<leftarrow> connection_error env cx DMCONFIG_ERROR_READING; Some (False, cx, net) }
     | Io_done \<Rightarrow> do { (go, cx) \<leftarrow> packet_complete env cx; Some (go, cx, net) } }"

definition read_round ::
  "'u cb_env \<Rightarrow> (nat \<Rightarrow> bool) \<Rightarrow> 'u dmSocket \<Rightarrow> net \<Rightarrow> (bool \<times> 'u dmSocket \<times> net) option" where
  "read_round env mem cx net =
     (if io_left (cx_readCtx cx) \<noteq> 0 then read_packet env cx net
      else
        let (res, sc) = recv_peek (sys_script cx net) (nt_rx net); net = set_script cx sc net in
        case res of
          Inl e \<Rightarrow>
            if e = EWOULDBLOCK then Some (False, cx, net)
            else do { cx \<leftarrow> connection_error env cx DMCONFIG_ERROR_READING; Some (False, cx, net) }
        | Inr buf \<Rightarrow>
            if buf = [] then do { cx \<leftarrow> connection_error env cx DMCONFIG_ERROR_READING; Some (False, cx, net) }
            else if length buf \<noteq> sizeof_dm_packet then Some (False, cx, net)
            else do {
              n \<leftarrow> map_option unat (dm_packet_length buf);
              let blk = (if mem n then Some (replicate n 0) else None);
              read_packet env (cx\<lparr>cx_readCtx := (cx_readCtx cx)\<lparr>io_packet := blk, io_pos := map_option (\<lambda>_. 0) blk,
                                                               io_left := n\<rparr>\<rparr>) net })"

section \<open>Each round uses up part of the script\<close>

lemma io_result_exhaust: "\<lbrakk>a \<noteq> Io_done; a \<noteq> Io_blocked; a \<noteq> Io_lost\<rbrakk> \<Longrightarrow> False"
  by (cases a) auto

lemma recv_peek_script: "sc \<noteq> [] \<Longrightarrow> length (snd (recv_peek sc rx)) < length sc"
proof (induction sc rx rule: recv_peek.induct)
  case (2 e sc rx)
  then show ?case by (cases sc) auto
qed (auto simp: Let_def)

lemma recv_peek_nil: "recv_peek sc rx = (Inr buf, sc') \<Longrightarrow> sc \<noteq> []"
  by auto

lemma read_loop_script:
  "read_loop sc io rx = Some (res, io', rx', sc') \<Longrightarrow>
     length sc' \<le> length sc \<and> (res = Io_done \<and> io_left io \<noteq> 0 \<longrightarrow> length sc' < length sc)"
proof (induction sc arbitrary: io rx)
  case (Cons r sc)
  show ?case
    using Cons.prems
    by (cases r)
       (auto simp: Let_def bind_Some_iff split: if_split_asm option.split_asm dest!: Cons.IH)
qed (auto split: if_split_asm)

lemma set_script_shorter:
  "length sc < length (sys_script cx net) \<Longrightarrow> cx_socket cx \<ge> 0 \<Longrightarrow>
     length (nt_script (set_script cx sc net)) < length (nt_script net)"
  by (simp add: set_script_def sys_script_def)

lemma read_closed: "io_left io \<noteq> 0 \<Longrightarrow> read_loop [Fail EBADF] io rx = Some (Io_lost, io, rx, [])"
  by simp

lemma read_packet_script:
  assumes "read_packet env cx net = Some (True, cx', net')" and "io_left (cx_readCtx cx) \<noteq> 0"
  shows "length (nt_script net') < length (nt_script net)"
proof (cases "cx_socket cx < 0")
  case True
  with assms show ?thesis by (auto simp: read_packet_def Let_def sys_script_def bind_Some_iff)
next
  case False
  with assms show ?thesis
    by (auto simp: read_packet_def Let_def sys_script_def set_script_def bind_Some_iff split: io_result.split_asm
             dest!: read_loop_script dest: io_result_exhaust)
qed

lemma read_packet_script_le:
  assumes "read_packet env cx net = Some (go, cx', net')"
  shows "length (nt_script net') \<le> length (nt_script net)"
  using assms
  by (auto simp: read_packet_def Let_def sys_script_def set_script_def bind_Some_iff split: io_result.split_asm if_split_asm
           dest!: read_loop_script dest: io_result_exhaust)

lemma recv_peek_Inr: "recv_peek sc rx = (Inr buf, sc') \<Longrightarrow> length sc' < length sc"
  by (metis recv_peek_script recv_peek_nil snd_conv)

lemma read_round_script:
  assumes "read_round env mem cx net = Some (True, cx', net')"
  shows "length (nt_script net') < length (nt_script net)"
proof (cases "io_left (cx_readCtx cx) = 0")
  case False
  with assms show ?thesis by (auto simp: read_round_def intro: read_packet_script)
next
  case True
  obtain res sc where p: "recv_peek (sys_script cx net) (nt_rx net) = (res, sc)" by fastforce
  show ?thesis
  proof (cases "cx_socket cx < 0")
    case True
    with assms p \<open>io_left (cx_readCtx cx) = 0\<close> show ?thesis
      by (auto simp: read_round_def sys_script_def bind_Some_iff)
  next
    case opn: False
    from assms p True obtain buf where res: "res = Inr buf"
      by (cases res) (auto simp: read_round_def Let_def bind_Some_iff split: if_split_asm)
    with p have "length sc < length (nt_script net)"
      using opn recv_peek_Inr by (fastforce simp: sys_script_def)
    with assms p True res opn show ?thesis
      by (auto simp: read_round_def set_script_def bind_Some_iff Let_def split: if_split_asm dest!: read_packet_script_le)
  qed
qed

function read_again ::
  "'u cb_env \<Rightarrow> (nat \<Rightarrow> bool) \<Rightarrow> 'u dmSocket \<Rightarrow> net \<Rightarrow> ('u dmSocket \<times> net) option" where
  "read_again env mem cx net = do {
     (go, cx, net) \<leftarrow> read_round env mem cx net;
     if go then read_again env mem cx net else Some (cx, net) }"
  by pat_completeness auto
termination
  by (relation "measure (\<lambda>(_, _, _, net). length (nt_script net))") (auto intro: read_round_script)

declare read_again.simps [simp del]

definition readEvent ::
  "'u cb_env \<Rightarrow> (nat \<Rightarrow> bool) \<Rightarrow> 'u dmSocket \<Rightarrow> net \<Rightarrow> ('u dmSocket \<times> net) option" where
  "readEvent env mem cx net =
     read_again env mem (cx\<lparr>cx_readCtx := (cx_readCtx cx)\<lparr>io_timer := Some TIMEOUT_CHUNKS\<rparr>\<rparr>) net"

section \<open>Writing\<close>

primrec write_loop ::
  "sysres list \<Rightarrow> dm_io_context \<Rightarrow> u8 list \<Rightarrow> (io_result \<times> dm_io_context \<times> u8 list \<times> sysres list) option" where
  "write_loop [] io tx =
     (if io_left io = 0 then Some (Io_done, io, tx, [])
      else Some (Io_blocked, io\<lparr>io_timer := Some TIMEOUT_CHUNKS\<rparr>, tx, []))"
| "write_loop (r # sc) io tx =
     (if io_left io = 0 then Some (Io_done, io, tx, r # sc)
      else case r of
        Fail e \<Rightarrow>
          if e = EWOULDBLOCK then Some (Io_blocked, io\<lparr>io_timer := Some TIMEOUT_CHUNKS\<rparr>, tx, sc)
          else if e = EINTR then write_loop sc io tx
          else Some (Io_lost, io, tx, sc)
      | Eof \<Rightarrow> Some (Io_lost, io, tx, sc)
      | Xfer n \<Rightarrow> do {
          let len = min n (io_left io);
          pos \<leftarrow> io_pos io;
          pk \<leftarrow> io_packet io;
          bs \<leftarrow> read_at pos len pk;
          write_loop sc (io\<lparr>io_pos := Some (pos + len), io_left := io_left io - len\<rparr>) (tx @ bs) })"

text \<open>The first request that is to be written, and the queue once its packet has been taken.\<close>

fun next_write :: "requestInfo list \<Rightarrow> (requestInfo \<times> requestInfo list) option" where
  "next_write [] = None"
| "next_write (r # rs) =
     (if ri_status r = REQUEST_SHALL_WRITE
      then Some (r, if ri_flags r AND (ONE_WAY OR REPLY) \<noteq> 0 then rs else r\<lparr>ri_status := REQUEST_SHALL_READ\<rparr> # rs)
      else map_option (\<lambda>(q, qs). (q, r # qs)) (next_write rs))"

datatype write_result = Write_again | Write_break | Write_return

definition write_packet ::
  "'u cb_env \<Rightarrow> 'u dmSocket \<Rightarrow> net \<Rightarrow> (write_result \<times> 'u dmSocket \<times> net) option" where
  "write_packet env cx net = do {
     (res, io, tx, sc) \<leftarrow> write_loop (sys_script cx net) (cx_writeCtx cx) (nt_tx net);
     let net = set_script cx sc (net\<lparr>nt_tx := tx\<rparr>);
     case res of
       Io_blocked \<Rightarrow> Some (Write_return, cx\<lparr>cx_writeCtx := io\<rparr>, net)
     | Io_lost \<Rightarrow> do {
         cx \<leftarrow> connection_error env (cx\<lparr>cx_writeCtx := io\<rparr>) DMCONFIG_ERROR_WRITING;
         Some (Write_return, cx, net) }
     | Io_done \<Rightarrow>
         Some (if cx_head cx = [] then Write_break else Write_again, cx\<lparr>cx_writeCtx := io\<lparr>io_packet := None\<rparr>\<rparr>, net) }"

definition write_round ::
  "'u cb_env \<Rightarrow> 'u dmSocket \<Rightarrow> net \<Rightarrow> (write_result \<times> 'u dmSocket \<times> net) option" where
  "write_round env cx net =
     (if io_packet (cx_writeCtx cx) \<noteq> None then write_packet env cx net
      else case next_write (cx_head cx) of
        None \<Rightarrow> Some (Write_break, cx, net)
      | Some (r, q) \<Rightarrow> do {
          n \<leftarrow> map_option unat (dm_packet_length (ri_packet r));
          write_packet env (cx\<lparr>cx_head := q,
            cx_writeCtx := (cx_writeCtx cx)\<lparr>io_packet := Some (ri_packet r), io_pos := Some 0, io_left := n\<rparr>\<rparr>) net })"

definition to_write :: "'u dmSocket \<Rightarrow> nat" where
  "to_write cx = length (filter (\<lambda>r. ri_status r = REQUEST_SHALL_WRITE) (cx_head cx)) +
     (if io_packet (cx_writeCtx cx) = None then 0 else 1)"

lemma next_write_count:
  "next_write q = Some (r, q') \<Longrightarrow>
     length (filter (\<lambda>r. ri_status r = REQUEST_SHALL_WRITE) q) = Suc (length (filter (\<lambda>r. ri_status r = REQUEST_SHALL_WRITE) q'))"
  by (induction q arbitrary: r q') (auto split: if_split_asm)

lemma write_packet_again:
  "write_packet env cx net = Some (Write_again, cx', net') \<Longrightarrow>
     cx_head cx' = cx_head cx \<and> io_packet (cx_writeCtx cx') = None"
  by (auto simp: write_packet_def Let_def bind_Some_iff split: io_result.split_asm if_split_asm
           dest: io_result_exhaust)

lemma write_round_again:
  assumes "write_round env cx net = Some (Write_again, cx', net')"
  shows "to_write cx' < to_write cx"
  using assms
  by (auto simp: write_round_def to_write_def bind_Some_iff split: if_split_asm option.split_asm
           dest!: write_packet_again next_write_count)

function write_again :: "'u cb_env \<Rightarrow> 'u dmSocket \<Rightarrow> net \<Rightarrow> (write_result \<times> 'u dmSocket \<times> net) option" where
  "write_again env cx net = do {
     (res, cx, net) \<leftarrow> write_round env cx net;
     if res = Write_again then write_again env cx net else Some (res, cx, net) }"
  by pat_completeness auto
termination
  by (relation "measure (\<lambda>(_, cx, _). to_write cx)") (auto intro: write_round_again)

declare write_again.simps [simp del]

definition writeEvent :: "'u cb_env \<Rightarrow> 'u dmSocket \<Rightarrow> net \<Rightarrow> ('u dmSocket \<times> net) option" where
  "writeEvent env cx net =
     (if cx_head cx = [] then Some (cx, net)
      else do {
        (res, cx, net) \<leftarrow> write_again env cx net;
        Some (if res = Write_return then cx
              else cx\<lparr>cx_writeCtx := (cx_writeCtx cx)\<lparr>io_active := False, io_timer := None\<rparr>\<rparr>, net) })"

section \<open>Connecting\<close>

text \<open>
  \<open>fd\<close> is the result of \<open>socket\<close> or \<open>accept\<close>, \<open>-1\<close> for a failure. The addresses given to the system are not modelled.
  \<open>ok\<close> says that the event is the expected one and that \<^verbatim>\<open>SO_ERROR\<close> reports none.
\<close>

definition dm_init_events :: "'u dmSocket \<Rightarrow> 'u dmSocket" where
  "dm_init_events cx = cx\<lparr>
     cx_readCtx := (cx_readCtx cx)\<lparr>io_active := False, io_timer := None\<rparr>,
     cx_writeCtx := (cx_writeCtx cx)\<lparr>io_active := False, io_timer := None\<rparr>\<rparr>"

definition dm_create_socket :: "int \<Rightarrow> 'u dmSocket \<Rightarrow> rc \<times> 'u dmSocket" where
  "dm_create_socket fd cx =
     (if fd = -1 then (RC_ERR_CONNECTION, cx) else (RC_OK, dm_init_events (cx\<lparr>cx_socket := fd\<rparr>)))"

text \<open>The results of the calls of \<open>connect\<close>: \<open>None\<close> for success. A socket that always answers \<^verbatim>\<open>EAGAIN\<close> keeps the loop running.\<close>

fun connect_loop :: "errno option list \<Rightarrow> bool option" where
  "connect_loop [] = None"
| "connect_loop (None # rs) = Some True"
| "connect_loop (Some e # rs) =
     (if e = EINPROGRESS then Some True else if e = EWOULDBLOCK then connect_loop rs else Some False)"

definition dm_connect_async :: "int \<Rightarrow> errno option list \<Rightarrow> 'u dmSocket \<Rightarrow> (rc \<times> 'u dmSocket) option" where
  "dm_connect_async fd rs cx =
     (let (r, cx) = (if cx_socket cx \<le> 0 then dm_create_socket fd cx else (RC_OK, cx)) in
      if r \<noteq> RC_OK then Some (r, cx)
      else do {
        connected \<leftarrow> connect_loop rs;
        Some (if \<not> connected then (RC_ERR_CONNECTION, cx)
              else (RC_OK, cx\<lparr>cx_io_socket := True, cx_timer_socket := Some TIMEOUT_WRITE_REQUESTS\<rparr>)) })"

definition dm_accept_async :: "int \<Rightarrow> bool \<Rightarrow> bool \<Rightarrow> 'u dmSocket \<Rightarrow> rc \<times> 'u dmSocket" where
  "dm_accept_async fd bound listening cx =
     (let (r, cx) = (if cx_socket cx \<le> 0 then dm_create_socket fd cx else (RC_OK, cx)) in
      if r \<noteq> RC_OK then (r, cx)
      else if \<not> bound then (RC_ERR_CONNECTION, cx)
      else if \<not> listening then (RC_ERR_CONNECTION, cx)
      else (RC_OK, cx\<lparr>cx_io_socket := True\<rparr>))"

definition start_socket_events :: "'u dmSocket \<Rightarrow> 'u dmSocket" where
  "start_socket_events cx = cx\<lparr>cx_readCtx := (cx_readCtx cx)\<lparr>io_active := True\<rparr>\<rparr>"

definition connectEvent :: "'u cb_env \<Rightarrow> bool \<Rightarrow> 'u dmSocket \<Rightarrow> 'u dmSocket option" where
  "connectEvent env ok cx = do {
     let cx = cx\<lparr>cx_timer_socket := None, cx_io_socket := False\<rparr>;
     if cx_socket cx \<noteq> -1 \<and> \<not> ok
     then do { (_, cx) \<leftarrow> connection_callback env DMCONFIG_ERROR_CONNECTING cx; Some cx }
     else do {
       (r, cx) \<leftarrow> connection_callback env DMCONFIG_CONNECTED (start_socket_events cx);
       if r \<noteq> RC_OK then connection_error env cx DMCONFIG_ERROR_CONNECTING else Some cx } }"

definition dm_accept :: "int \<Rightarrow> 'u dmSocket \<Rightarrow> rc + 'u dmSocket" where
  "dm_accept fd acc =
     (if fd < 0 then Inl RC_ERR_CONNECTION
      else Inr (dm_init_events ((dm_context_init (cx_type acc) (cx_userdata acc) (cx_connection_cb acc)
                   (cx_request_cb acc) (cx_ids acc) (cx_user acc))\<lparr>cx_socket := fd\<rparr>)))"

text \<open>
  The new context, if there is one, and the listening one. The state of the program and of the identifiers is that of
  the context whose callback has run last. \<open>mem\<close> says whether there is memory for the new context.
\<close>

definition acceptEvent ::
  "'u cb_env \<Rightarrow> bool \<Rightarrow> bool \<Rightarrow> int \<Rightarrow> 'u dmSocket \<Rightarrow> ('u dmSocket option \<times> 'u dmSocket) option" where
  "acceptEvent env mem ok fd acc =
     (if cx_socket acc \<noteq> -1 \<and> \<not> ok
      then do { (_, acc) \<leftarrow> connection_callback env DMCONFIG_ERROR_ACCEPTING acc; Some (None, acc) }
      else if \<not> mem then Some (None, acc)
      else case dm_accept fd acc of
        Inl _ \<Rightarrow> do { (_, acc) \<leftarrow> connection_callback env DMCONFIG_ERROR_ACCEPTING acc; Some (None, acc) }
      | Inr sock \<Rightarrow> do {
          (r, sock) \<leftarrow> connection_callback env DMCONFIG_ACCEPTED (start_socket_events sock);
          sock \<leftarrow> (if r \<noteq> RC_OK then connection_error env sock DMCONFIG_ERROR_ACCEPTING else Some sock);
          Some (Some sock, acc\<lparr>cx_ids := cx_ids sock, cx_user := cx_user sock\<rparr>) })"

end
