(* ===== verification/Dm_Frames.thy ===== *)
theory Dm_Frames
  imports Dm_Context
begin

text \<open>
  A byte stream carries packets: whatever pieces the bytes arrive in and whatever calls are interrupted or would block, the
  read handler hands on exactly the packets that the stream consists of, in order and each once.
\<close>

section \<open>Packets and the stream\<close>

definition proper :: "u8 list \<Rightarrow> bool" where
  "proper p \<longleftrightarrow> sizeof_dm_packet \<le> length p \<and> map_option unat (dm_packet_length p) = Some (length p)"

definition benign :: "sysres list \<Rightarrow> bool" where
  "benign sc \<longleftrightarrow> (\<forall>r \<in> set sc. (\<exists>n. r = Xfer n) \<or> r = Fail EINTR \<or> r = Fail EWOULDBLOCK)"

definition received :: "dm_io_context \<Rightarrow> u8 list" where
  "received io = (case (io_packet io, io_pos io) of (Some pk, Some p) \<Rightarrow> take p pk | _ \<Rightarrow> [])"

text \<open>The reader is between two packets, or inside of a packet of \<open>n\<close> bytes.\<close>

definition between :: "dm_io_context \<Rightarrow> bool" where
  "between io \<longleftrightarrow> io_left io = 0 \<and> io_packet io = None \<and> io_pos io = None"

definition inside :: "nat \<Rightarrow> dm_io_context \<Rightarrow> bool" where
  "inside n io \<longleftrightarrow> (\<exists>pk p. io_packet io = Some pk \<and> io_pos io = Some p \<and> length pk = n \<and> p + io_left io = n)"

definition quiet :: "'u dmSocket \<Rightarrow> 'u dmSocket" where
  "quiet cx = cx\<lparr>cx_readCtx := idle_io\<rparr>"

text \<open>What the handling of one packet does to a context that reads nothing else.\<close>

definition deliver :: "'u cb_env \<Rightarrow> u8 list \<Rightarrow> 'u dmSocket \<Rightarrow> 'u dmSocket option" where
  "deliver env pkt cx = do {
     flags \<leftarrow> dm_packet_flags pkt;
     cx \<leftarrow> (if flags AND CMD_FLAG_REQUEST \<noteq> 0 then ctx_process_request env (dm_context_reference cx) pkt
           else process_reply env (dm_context_reference cx) pkt);
     Some (snd (dm_context_release cx)) }"

text \<open>
  A callback that leaves the reader alone: it neither sees nor changes the unfinished packet, keeps the socket
  and gives back the references that it takes.
\<close>

definition neutral :: "('u dmSocket \<Rightarrow> 'u dmSocket option) \<Rightarrow> bool" where
  "neutral g \<longleftrightarrow>
     (\<forall>cx io. g (cx\<lparr>cx_readCtx := io\<rparr>) = map_option (\<lambda>c. c\<lparr>cx_readCtx := io\<rparr>) (g cx)) \<and>
     (\<forall>cx. \<exists>c. g cx = Some c \<and> cx_socket c = cx_socket cx \<and> cx_ref c = cx_ref cx)"

definition neutral_env :: "'u cb_env \<Rightarrow> bool" where
  "neutral_env env \<longleftrightarrow>
     (\<forall>f pkt grp d. neutral (\<lambda>cx. request_fn env f cx pkt grp d)) \<and>
     (\<forall>f grp d. neutral (\<lambda>cx. reply_fn env f cx DMCONFIG_ANSWER_READY grp d))"

lemma neutralD:
  assumes "neutral g"
  obtains c where "g cx = Some c" "cx_socket c = cx_socket cx" "cx_ref c = cx_ref cx"
    "\<And>io. g (cx\<lparr>cx_readCtx := io\<rparr>) = Some (c\<lparr>cx_readCtx := io\<rparr>)"
  using assms unfolding neutral_def by (metis option.map(2))

lemma proper_header:
  assumes "proper p"
  shows "length p \<ge> 20" "dm_packet_flags p \<noteq> None" "dm_hop2hop_id p \<noteq> None" "dm_init_packet p \<noteq> None"
    "map_option unat (dm_packet_length (take 20 (p @ q))) = Some (length p)"
proof -
  show l: "length p \<ge> 20" using assms by (simp add: proper_def sizeof_dm_packet_def)
  then show "dm_packet_flags p \<noteq> None" "dm_hop2hop_id p \<noteq> None" "dm_init_packet p \<noteq> None"
    by (auto simp: dm_packet_flags_def dm_hop2hop_id_def dm_init_packet_def dm_packet_length_def read_at_def)
  have "read_at 1 3 (take 20 (p @ q)) = read_at 1 3 p"
    using l by (simp add: read_at_def drop_take min_def)
  then show "map_option unat (dm_packet_length (take 20 (p @ q))) = Some (length p)"
    using assms by (simp add: proper_def dm_packet_length_def)
qed

section \<open>One packet\<close>

lemma reference_read: "dm_context_reference (cx\<lparr>cx_readCtx := io\<rparr>) = (dm_context_reference cx)\<lparr>cx_readCtx := io\<rparr>"
  by (simp add: dm_context_reference_def)

lemma neutral_request:
  assumes "neutral_env env" and "proper pkt"
  shows "neutral (\<lambda>cx. ctx_process_request env cx pkt)"
proof -
  from proper_header [OF assms(2)] obtain grp where "dm_init_packet pkt = Some grp" by blast
  with assms(1) show ?thesis
    by (auto simp: neutral_env_def neutral_def ctx_process_request_def split: option.split)
qed

lemma neutral_reply:
  assumes "neutral_env env" and "proper pkt"
  shows "neutral (\<lambda>cx. process_reply env cx pkt)"
proof -
  from proper_header [OF assms(2)] obtain grp hop
    where g: "dm_init_packet pkt = Some grp" "dm_hop2hop_id pkt = Some hop" by blast
  have n: "neutral (\<lambda>cx. reply_fn env f cx DMCONFIG_ANSWER_READY grp d)" for f grp d
    using assms(1) by (simp add: neutral_env_def)
  have com: "reply_fn env f (cx\<lparr>cx_readCtx := io, cx_head := h\<rparr>) DMCONFIG_ANSWER_READY grp d
      = map_option (\<lambda>c. c\<lparr>cx_readCtx := io\<rparr>) (reply_fn env f (cx\<lparr>cx_head := h\<rparr>) DMCONFIG_ANSWER_READY grp d)"
    for f cx h io grp d
  proof -
    have "cx\<lparr>cx_readCtx := io, cx_head := h\<rparr> = cx\<lparr>cx_head := h, cx_readCtx := io\<rparr>" by simp
    then show ?thesis using n [of f grp d] unfolding neutral_def by metis
  qed
  have ret: "\<exists>c. reply_fn env f (cx\<lparr>cx_head := h\<rparr>) DMCONFIG_ANSWER_READY grp d = Some c \<and>
      cx_socket c = cx_socket cx \<and> cx_ref c = cx_ref cx" for f cx h grp d
    using n [of f grp d] unfolding neutral_def by (metis dmSocket.select_convs(1,3) dmSocket.update_convs(4) dmSocket.surjective)
  show ?thesis
    unfolding neutral_def using ret
    by (auto simp: process_reply_def reply_callback_def g com split: option.split)
qed

lemma neutral_deliver:
  assumes "neutral_env env" and "proper pkt"
  shows "neutral (deliver env pkt)"
proof -
  from proper_header [OF assms(2)] obtain fl where f: "dm_packet_flags pkt = Some fl" by blast
  define g where "g = (if fl AND CMD_FLAG_REQUEST \<noteq> 0 then (\<lambda>cx. ctx_process_request env cx pkt)
     else (\<lambda>cx. process_reply env cx pkt))"
  have n: "neutral g" using neutral_request [OF assms] neutral_reply [OF assms] by (simp add: g_def)
  have d: "deliver env pkt cx = map_option (\<lambda>c. snd (dm_context_release c)) (g (dm_context_reference cx))" for cx
    by (cases "g (dm_context_reference cx)") (auto simp: deliver_def f g_def)
  show ?thesis
    unfolding neutral_def
  proof (intro conjI allI)
    fix cx :: "'a dmSocket" and io
    obtain c where "g (dm_context_reference cx) = Some c"
      "\<And>io. g ((dm_context_reference cx)\<lparr>cx_readCtx := io\<rparr>) = Some (c\<lparr>cx_readCtx := io\<rparr>)"
      using neutralD [OF n, of "dm_context_reference cx"] by metis
    then show "deliver env pkt (cx\<lparr>cx_readCtx := io\<rparr>) = map_option (\<lambda>c. c\<lparr>cx_readCtx := io\<rparr>) (deliver env pkt cx)"
      by (simp add: d reference_read dm_context_release_def)
  next
    fix cx :: "'a dmSocket"
    obtain c where "g (dm_context_reference cx) = Some c" "cx_socket c = cx_socket (dm_context_reference cx)"
      "cx_ref c = cx_ref (dm_context_reference cx)"
      using neutralD [OF n, of "dm_context_reference cx"] by metis
    then show "\<exists>c. deliver env pkt cx = Some c \<and> cx_socket c = cx_socket cx \<and> cx_ref c = cx_ref cx"
      by (simp add: d dm_context_release_def dm_context_reference_def)
  qed
qed

lemma packet_complete_deliver:
  assumes "neutral_env env" and "proper pkt" and "io_packet (cx_readCtx cx) = Some pkt" and "cx_ref cx > 0"
  obtains c where "packet_complete env cx = Some (True, c)" and "deliver env pkt (quiet cx) = Some (quiet c)"
    and "between (cx_readCtx c)" and "cx_socket c = cx_socket cx" and "cx_ref c = cx_ref cx"
proof -
  from proper_header [OF assms(2)] obtain fl where f: "dm_packet_flags pkt = Some fl" by blast
  define g where "g = (if fl AND CMD_FLAG_REQUEST \<noteq> 0 then (\<lambda>cx. ctx_process_request env cx pkt)
     else (\<lambda>cx. process_reply env cx pkt))"
  have n: "neutral g" using neutral_request [OF assms(1,2)] neutral_reply [OF assms(1,2)] by (simp add: g_def)
  obtain c where c: "g (dm_context_reference cx) = Some c" "cx_socket c = cx_socket (dm_context_reference cx)"
    "cx_ref c = cx_ref (dm_context_reference cx)"
    and r: "\<And>io. g ((dm_context_reference cx)\<lparr>cx_readCtx := io\<rparr>) = Some (c\<lparr>cx_readCtx := io\<rparr>)"
    using neutralD [OF n, of "dm_context_reference cx"] by metis
  have ref: "cx_ref c = cx_ref cx + 1" "cx_socket c = cx_socket cx"
    using c(2,3) by (simp_all add: dm_context_reference_def)
  let ?io = "(cx_readCtx cx)\<lparr>io_timer := None, io_packet := None, io_pos := None, io_left := 0\<rparr>"
  let ?c = "c\<lparr>cx_readCtx := ?io, cx_ref := cx_ref cx\<rparr>"
  have p: "packet_complete env cx = Some (True, ?c)"
    using r [of "(cx_readCtx cx)\<lparr>io_timer := None\<rparr>"] ref assms(3,4) f
    by (auto simp: packet_complete_def g_def reference_read dm_context_release_def
             split: if_split_asm)
  have d: "deliver env pkt (quiet cx) = Some (quiet ?c)"
    using r [of idle_io] ref f
    by (auto simp: deliver_def g_def quiet_def reference_read dm_context_release_def
             split: if_split_asm)
  show ?thesis
    by (rule that [OF p d]) (use ref in \<open>auto simp: between_def\<close>)
qed

section \<open>Pieces of a packet\<close>

lemma benign_Cons: "benign (r # sc) \<longleftrightarrow> ((\<exists>n. r = Xfer n) \<or> r = Fail EINTR \<or> r = Fail EWOULDBLOCK) \<and> benign sc"
  by (auto simp: benign_def)

lemma inside_timer [simp]: "inside n (io\<lparr>io_timer := t\<rparr>) = inside n io"
  by (simp add: inside_def)

lemma received_timer [simp]: "received (io\<lparr>io_timer := t\<rparr>) = received io"
  by (simp add: received_def)

lemma between_timer [simp]: "between (io\<lparr>io_timer := t\<rparr>) = between io"
  by (simp add: between_def)

text \<open>A piece is stored behind what has been received.\<close>

lemma store_piece:
  assumes "inside n io" and "length bs \<le> io_left io" and "io_packet io = Some pk" and "io_pos io = Some p"
  obtains pk' where "write_at p bs pk = Some pk'"
    and "inside n (io\<lparr>io_packet := Some pk', io_pos := Some (p + length bs), io_left := io_left io - length bs\<rparr>)"
    and "received (io\<lparr>io_packet := Some pk', io_pos := Some (p + length bs), io_left := io_left io - length bs\<rparr>) = received io @ bs"
proof
  show "write_at p bs pk = Some (take p pk @ bs @ drop (p + length bs) pk)"
    using assms by (auto simp: write_at_def inside_def)
qed (use assms in \<open>auto simp: inside_def received_def\<close>)

lemma read_loop_zero [simp]: "io_left io = 0 \<Longrightarrow> read_loop sc io rx = Some (Io_done, io, rx, sc)"
  by (cases sc) auto

lemma read_loop_pieces:
  assumes "benign sc" and "inside n io"
  shows "\<exists>res io' rx' sc'. read_loop sc io rx = Some (res, io', rx', sc') \<and> benign sc' \<and> inside n io' \<and>
    received io' @ rx' = received io @ rx \<and> (res = Io_done \<and> io_left io' = 0 \<or> res = Io_blocked \<and> io_left io' \<noteq> 0)"
  using assms
proof (induction sc arbitrary: io rx)
  case Nil
  then show ?case by auto
next
  case (Cons r sc)
  show ?case
  proof (cases "io_left io = 0")
    case True
    with Cons.prems show ?thesis by simp
  next
    case False
    from Cons.prems(1) consider n where "r = Xfer n" | "r = Fail EINTR" | "r = Fail EWOULDBLOCK"
      by (auto simp: benign_Cons)
    then show ?thesis
    proof cases
      case (1 m)
      define bs where "bs = take (min m (io_left io)) rx"
      show ?thesis
      proof (cases "bs = []")
        case True
        with 1 False Cons.prems show ?thesis by (simp add: bs_def benign_Cons Let_def)
      next
        case ne: False
        from Cons.prems(2) obtain pk p where io: "io_packet io = Some pk" "io_pos io = Some p"
          by (auto simp: inside_def)
        have "length bs \<le> io_left io" by (simp add: bs_def)
        then obtain pk' where w: "write_at p bs pk = Some pk'"
          and i: "inside n (io\<lparr>io_packet := Some pk', io_pos := Some (p + length bs), io_left := io_left io - length bs\<rparr>)"
          and r: "received (io\<lparr>io_packet := Some pk', io_pos := Some (p + length bs), io_left := io_left io - length bs\<rparr>) = received io @ bs"
          using store_piece [OF Cons.prems(2) _ io] by metis
        have "rx = bs @ drop (length bs) rx" by (simp add: bs_def min_def)
        moreover have "read_loop (r # sc) io rx = read_loop sc (io\<lparr>io_packet := Some pk', io_pos := Some (p + length bs),
            io_left := io_left io - length bs\<rparr>) (drop (length bs) rx)"
          using False ne 1 io w by (simp add: Let_def flip: bs_def)
        ultimately show ?thesis
          using Cons.IH [OF _ i, of "drop (length bs) rx"] Cons.prems(1) r by (simp add: benign_Cons)
      qed
    qed (use False Cons in \<open>auto simp: benign_Cons\<close>)
  qed
qed

lemma read_packet_frames:
  assumes "neutral_env env" and "benign (nt_script net)" and "inside (length p) (cx_readCtx cx)" and "proper p"
    and "received (cx_readCtx cx) @ nt_rx net = p @ rest" and "cx_socket cx \<ge> 0" and "cx_ref cx > 0"
  shows "\<exists>go cx' net'. read_packet env cx net = Some (go, cx', net') \<and> benign (nt_script net') \<and> nt_tx net' = nt_tx net \<and>
    cx_socket cx' = cx_socket cx \<and> cx_ref cx' = cx_ref cx \<and>
    (go \<and> deliver env p (quiet cx) = Some (quiet cx') \<and> between (cx_readCtx cx') \<and> nt_rx net' = rest \<or>
     \<not> go \<and> quiet cx' = quiet cx \<and> inside (length p) (cx_readCtx cx') \<and> io_left (cx_readCtx cx') \<noteq> 0 \<and>
       received (cx_readCtx cx') @ nt_rx net' = p @ rest)"
proof -
  from read_loop_pieces [OF assms(2,3), of "nt_rx net"] obtain res io' rx' sc'
    where l: "read_loop (nt_script net) (cx_readCtx cx) (nt_rx net) = Some (res, io', rx', sc')"
      and b: "benign sc'" and i: "inside (length p) io'" and r: "received io' @ rx' = p @ rest"
      and res: "res = Io_done \<and> io_left io' = 0 \<or> res = Io_blocked \<and> io_left io' \<noteq> 0"
    using assms(5) by metis
  let ?net = "net\<lparr>nt_rx := rx', nt_script := sc'\<rparr>"
  have sc: "sys_script cx net = nt_script net" using assms(6) by (simp add: sys_script_def)
  have ss: "set_script (cx\<lparr>cx_readCtx := io'\<rparr>) sc' (net\<lparr>nt_rx := rx'\<rparr>) = ?net"
    using assms(6) by (simp add: set_script_def)
  from res show ?thesis
  proof
    assume "res = Io_blocked \<and> io_left io' \<noteq> 0"
    then have "read_packet env cx net = Some (False, cx\<lparr>cx_readCtx := io'\<rparr>, ?net)"
      by (simp add: read_packet_def sc l ss)
    with b i r \<open>res = Io_blocked \<and> io_left io' \<noteq> 0\<close> show ?thesis by (auto simp: quiet_def)
  next
    assume d: "res = Io_done \<and> io_left io' = 0"
    with i have pk: "io_packet io' = Some (received io')" and len: "length (received io') = length p"
      by (auto simp: inside_def received_def)
    from r len have eq: "received io' = p" "rx' = rest" by (auto simp: append_eq_append_conv)
    obtain c where c: "packet_complete env (cx\<lparr>cx_readCtx := io'\<rparr>) = Some (True, c)"
      and del: "deliver env p (quiet (cx\<lparr>cx_readCtx := io'\<rparr>)) = Some (quiet c)"
      and "between (cx_readCtx c)" "cx_socket c = cx_socket cx" "cx_ref c = cx_ref cx"
      using packet_complete_deliver [OF assms(1,4), of "cx\<lparr>cx_readCtx := io'\<rparr>"] pk eq assms(7) by auto
    moreover have "read_packet env cx net = Some (True, c, ?net)"
      using d by (simp add: read_packet_def sc l ss c)
    ultimately show ?thesis using b eq by (auto simp: quiet_def)
  qed
qed

section \<open>The stream\<close>

text \<open>The reader and the bytes still to come make up the packets \<open>pkts\<close>.\<close>

definition reading :: "dm_io_context \<Rightarrow> u8 list \<Rightarrow> u8 list list \<Rightarrow> bool" where
  "reading io rx pkts \<longleftrightarrow>
     between io \<and> rx = concat pkts \<or>
     (\<exists>p ps. pkts = p # ps \<and> io_left io \<noteq> 0 \<and> inside (length p) io \<and> received io @ rx = p @ concat ps)"

definition reader_ok ::
  "'u cb_env \<Rightarrow> (nat \<Rightarrow> bool) \<Rightarrow> 'u dmSocket \<Rightarrow> net \<Rightarrow> u8 list list \<Rightarrow> bool" where
  "reader_ok env mem cx net pkts \<longleftrightarrow>
     neutral_env env \<and> benign (nt_script net) \<and> cx_socket cx \<ge> 0 \<and> cx_ref cx > 0 \<and>
     (\<forall>p \<in> set pkts. proper p \<and> mem (length p)) \<and> reading (cx_readCtx cx) (nt_rx net) pkts"

lemma reading_timer [simp]: "reading (io\<lparr>io_timer := t\<rparr>) rx pkts = reading io rx pkts"
  by (simp add: reading_def)

lemma recv_peek_benign:
  assumes "benign sc"
  obtains sc' where "recv_peek sc rx = (Inl EWOULDBLOCK, sc')" and "benign sc'"
    | sc' n where "recv_peek sc rx = (Inr (take (min n sizeof_dm_packet) rx), sc')" and "take (min n sizeof_dm_packet) rx \<noteq> []"
        and "benign sc'"
  using assms
proof (induction sc arbitrary: thesis)
  case (Cons r sc)
  from Cons.prems(3) consider n where "r = Xfer n" | "r = Fail EINTR" | "r = Fail EWOULDBLOCK"
    by (auto simp: benign_Cons)
  then show ?case
  proof cases
    case (1 n)
    show ?thesis
    proof (cases "take (min n sizeof_dm_packet) rx = []")
      case True
      with 1 Cons.prems(1,3) show ?thesis by (simp add: benign_Cons)
    next
      case False
      with 1 Cons.prems(2,3) show ?thesis by (simp add: benign_Cons Let_def)
    qed
  next
    case 2
    with Cons show ?thesis by (simp add: benign_Cons) blast
  next
    case 3
    with Cons.prems show ?thesis by (simp add: benign_Cons)
  qed
qed simp

lemma read_round_frames:
  assumes "reader_ok env mem cx net pkts"
  shows "\<exists>go cx' net'. read_round env mem cx net = Some (go, cx', net') \<and> nt_tx net' = nt_tx net \<and>
    (go \<and> (\<exists>p ps. pkts = p # ps \<and> deliver env p (quiet cx) = Some (quiet cx') \<and> reader_ok env mem cx' net' ps) \<or>
     \<not> go \<and> quiet cx' = quiet cx \<and> reader_ok env mem cx' net' pkts)"
proof (cases "io_left (cx_readCtx cx) = 0")
  case False
  with assms obtain p ps where pk: "pkts = p # ps" "inside (length p) (cx_readCtx cx)"
    "received (cx_readCtx cx) @ nt_rx net = p @ concat ps"
    by (auto simp: reader_ok_def reading_def between_def)
  have "read_round env mem cx net = read_packet env cx net" using False by (simp add: read_round_def)
  with read_packet_frames [of env net p cx "concat ps"] assms pk show ?thesis
    by (fastforce simp: reader_ok_def reading_def)
next
  case True
  with assms have b: "between (cx_readCtx cx)" and rx: "nt_rx net = concat pkts"
    by (auto simp: reader_ok_def reading_def)
  have sc: "sys_script cx net = nt_script net" and ss: "set_script cx sc' net = net\<lparr>nt_script := sc'\<rparr>" for sc'
    using assms by (auto simp: reader_ok_def sys_script_def set_script_def)
  have "benign (nt_script net)" using assms by (simp add: reader_ok_def)
  then show ?thesis
  proof (cases rule: recv_peek_benign [where rx = "nt_rx net", case_names block data])
    case (block sc')
    then have "read_round env mem cx net = Some (False, cx, net\<lparr>nt_script := sc'\<rparr>)"
      using True by (simp add: read_round_def sc ss)
    with assms block show ?thesis by (auto simp: reader_ok_def)
  next
    case (data sc' n)
    show ?thesis
    proof (cases "length (take (min n sizeof_dm_packet) (nt_rx net)) = sizeof_dm_packet")
      case short: False
      with data have "read_round env mem cx net = Some (False, cx, net\<lparr>nt_script := sc'\<rparr>)"
        using True by (auto simp: read_round_def sc ss Let_def)
      with assms data show ?thesis by (auto simp: reader_ok_def)
    next
      case full: True
      then have hd: "take (min n sizeof_dm_packet) (nt_rx net) = take 20 (nt_rx net)" "length (take 20 (nt_rx net)) = 20"
        by (auto simp: sizeof_dm_packet_def min_def split: if_split_asm)
      from hd(2) rx obtain p ps where pk: "pkts = p # ps" by (cases pkts) auto
      have pr: "proper p" "mem (length p)" using assms pk by (auto simp: reader_ok_def)
      let ?cx = "cx\<lparr>cx_readCtx := (cx_readCtx cx)\<lparr>io_packet := Some (replicate (length p) 0), io_pos := Some 0,
        io_left := length p\<rparr>\<rparr>"
      have "map_option unat (dm_packet_length (take 20 (nt_rx net))) = Some (length p)"
        using proper_header(5) [OF pr(1), of "concat ps"] by (simp add: rx pk)
      then have r: "read_round env mem cx net = read_packet env ?cx (net\<lparr>nt_script := sc'\<rparr>)"
        using True data(1) data(2) hd pr(2)
        by (auto simp: read_round_def sc ss Let_def sizeof_dm_packet_def)
      have "inside (length p) (cx_readCtx ?cx)" "received (cx_readCtx ?cx) = []"
        by (simp_all add: inside_def received_def)
      then show ?thesis
        using read_packet_frames [of env "net\<lparr>nt_script := sc'\<rparr>" p ?cx "concat ps"] assms pk pr data(3) rx r
        by (fastforce simp: reader_ok_def reading_def quiet_def)
    qed
  qed
qed

lemma read_again_frames:
  "reader_ok env mem cx net pkts \<Longrightarrow>
   \<exists>k cx' net'. read_again env mem cx net = Some (cx', net') \<and> nt_tx net' = nt_tx net \<and> k \<le> length pkts \<and>
     ofold (deliver env) (take k pkts) (quiet cx) = Some (quiet cx') \<and> reader_ok env mem cx' net' (drop k pkts)"
proof (induction env mem cx net arbitrary: pkts rule: read_again.induct)
  case (1 env mem cx net)
  from read_round_frames [OF "1.prems"] obtain go cx1 net1
    where r: "read_round env mem cx net = Some (go, cx1, net1)" and tx: "nt_tx net1 = nt_tx net" and
      res: "go \<and> (\<exists>p ps. pkts = p # ps \<and> deliver env p (quiet cx) = Some (quiet cx1) \<and> reader_ok env mem cx1 net1 ps) \<or>
        \<not> go \<and> quiet cx1 = quiet cx \<and> reader_ok env mem cx1 net1 pkts"
    by metis
  show ?case
  proof (cases go)
    case False
    with res have "reader_ok env mem cx1 net1 (drop 0 pkts)" "ofold (deliver env) (take 0 pkts) (quiet cx) = Some (quiet cx1)"
      by auto
    moreover have "read_again env mem cx net = Some (cx1, net1)"
      using False by (simp add: read_again.simps [of env mem cx] r)
    ultimately show ?thesis using tx by blast
  next
    case True
    with res obtain p ps where pk: "pkts = p # ps" and d: "deliver env p (quiet cx) = Some (quiet cx1)"
      and ok: "reader_ok env mem cx1 net1 ps" by auto
    from "1.IH" [OF r refl refl True ok] obtain k cx' net'
      where a: "read_again env mem cx1 net1 = Some (cx', net')" and k: "nt_tx net' = nt_tx net1" "k \<le> length ps"
        "ofold (deliver env) (take k ps) (quiet cx1) = Some (quiet cx')" "reader_ok env mem cx' net' (drop k ps)"
      by metis
    have "read_again env mem cx net = Some (cx', net')"
      using True a by (simp add: read_again.simps [of env mem cx] r)
    moreover have "Suc k \<le> length pkts" "reader_ok env mem cx' net' (drop (Suc k) pkts)"
      "ofold (deliver env) (take (Suc k) pkts) (quiet cx) = Some (quiet cx')"
      using k d by (simp_all add: pk)
    ultimately show ?thesis using k(1) tx by metis
  qed
qed

section \<open>A sufficient script\<close>

lemma benign_replicate [simp]: "benign (replicate j (Xfer m))"
  by (auto simp: benign_def)

lemma read_loop_enough:
  assumes "inside n io" and "io_left io \<le> length rx" and "io_left io \<le> j" and "0 < m"
  shows "\<exists>io' rx' j'. read_loop (replicate j (Xfer m)) io rx = Some (Io_done, io', rx', replicate j' (Xfer m)) \<and> j \<le> j' + io_left io"
  using assms
proof (induction j arbitrary: io rx)
  case (Suc j)
  show ?case
  proof (cases "io_left io = 0")
    case True
    then have "read_loop (replicate (Suc j) (Xfer m)) io rx = Some (Io_done, io, rx, replicate (Suc j) (Xfer m))" by simp
    then show ?thesis by (metis le_add1)
  next
    case False
    define bs where "bs = take (min m (io_left io)) rx"
    have l: "length bs = min m (io_left io)" using Suc.prems(2) by (simp add: bs_def min_def)
    with False Suc.prems(4) have ne: "bs \<noteq> []" by (auto simp: min_def split: if_split_asm)
    from Suc.prems(1) obtain pk p where io: "io_packet io = Some pk" "io_pos io = Some p"
      by (auto simp: inside_def)
    let ?io = "\<lambda>pk. io\<lparr>io_packet := Some pk, io_pos := Some (p + length bs), io_left := io_left io - length bs\<rparr>"
    obtain pk' where w: "write_at p bs pk = Some pk'" and i: "inside n (?io pk')"
      using store_piece [OF Suc.prems(1) _ io, of bs] l by (metis min.cobounded2)
    have "read_loop (replicate (Suc j) (Xfer m)) io rx = read_loop (replicate j (Xfer m)) (?io pk') (drop (length bs) rx)"
      using False ne io w by (simp add: Let_def flip: bs_def)
    moreover have "io_left (?io pk') \<le> length (drop (length bs) rx)" "io_left (?io pk') \<le> j"
      using Suc.prems False l by (auto simp: min_def)
    note Suc.IH [OF i this Suc.prems(4)]
    moreover have "io_left (?io pk') + 1 \<le> io_left io" using ne l by (cases bs) (auto simp: min_def)
    ultimately show ?thesis by (metis (no_types, lifting) Suc_eq_plus1 add_Suc_right add_le_mono le_trans nat_add_left_cancel_le not_less_eq_eq)
  qed
qed auto

lemma read_packet_enough:
  assumes "inside n (cx_readCtx cx)" and "io_left (cx_readCtx cx) \<le> length (nt_rx net)"
    and "io_left (cx_readCtx cx) \<le> j" and "0 < m" and "cx_socket cx \<ge> 0"
    and "nt_script net = replicate j (Xfer m)" and "read_packet env cx net = Some (go, cx', net')"
    and "cx_ref cx' > 0"
  shows "go \<and> (\<exists>j'. nt_script net' = replicate j' (Xfer m) \<and> j \<le> j' + io_left (cx_readCtx cx))"
proof -
  from read_loop_enough [OF assms(1-4)] obtain io' rx' j'
    where l: "read_loop (replicate j (Xfer m)) (cx_readCtx cx) (nt_rx net) = Some (Io_done, io', rx', replicate j' (Xfer m))"
      and j: "j \<le> j' + io_left (cx_readCtx cx)" by metis
  with assms(5-8) show ?thesis
    by (auto simp: read_packet_def sys_script_def set_script_def bind_Some_iff Let_def packet_complete_def
                   dm_context_release_def)
qed

lemma read_round_enough:
  assumes "reader_ok env mem cx net (p # ps)" and "nt_script net = replicate j (Xfer m)" and "sizeof_dm_packet \<le> m"
    and "length p < j"
  shows "\<exists>cx' net' j'. read_round env mem cx net = Some (True, cx', net') \<and> nt_script net' = replicate j' (Xfer m) \<and>
    j \<le> j' + length p + 1"
proof -
  have pr: "proper p" "mem (length p)" "cx_socket cx \<ge> 0" using assms(1) by (auto simp: reader_ok_def)
  have m: "0 < m" using assms(3) by (simp add: sizeof_dm_packet_def)
  from read_round_frames [OF assms(1)] obtain go cx' net'
    where r: "read_round env mem cx net = Some (go, cx', net')" and ref: "cx_ref cx' > 0"
    by (auto simp: reader_ok_def)
  show ?thesis
  proof (cases "io_left (cx_readCtx cx) = 0")
    case False
    with assms(1) have i: "inside (length p) (cx_readCtx cx)"
      and s: "received (cx_readCtx cx) @ nt_rx net = p @ concat ps"
      by (auto simp: reader_ok_def reading_def between_def)
    have "length (received (cx_readCtx cx)) + io_left (cx_readCtx cx) = length p"
      using i by (auto simp: inside_def received_def)
    moreover have "length (received (cx_readCtx cx)) + length (nt_rx net) = length p + length (concat ps)"
      using arg_cong [OF s, of length] by simp
    ultimately have "io_left (cx_readCtx cx) \<le> length (nt_rx net)" "io_left (cx_readCtx cx) \<le> j"
      and le: "io_left (cx_readCtx cx) \<le> length p"
      using assms(4) by auto
    moreover have "read_packet env cx net = Some (go, cx', net')" using False r by (simp add: read_round_def)
    ultimately show ?thesis
      using read_packet_enough [OF i _ _ m pr(3) assms(2) _ ref] r le by fastforce
  next
    case True
    with assms(1) have rx: "nt_rx net = p @ concat ps" by (auto simp: reader_ok_def reading_def)
    obtain j1 where j1: "j = Suc j1" using assms(4) by (cases j) auto
    let ?cx = "cx\<lparr>cx_readCtx := (cx_readCtx cx)\<lparr>io_packet := Some (replicate (length p) 0), io_pos := Some 0,
        io_left := length p\<rparr>\<rparr>"
    let ?net = "net\<lparr>nt_script := replicate j1 (Xfer m)\<rparr>"
    have pk: "recv_peek (nt_script net) (nt_rx net) = (Inr (take 20 (nt_rx net)), replicate j1 (Xfer m))"
      "length (take 20 (nt_rx net)) = 20"
      using assms(2,3) proper_header(1) [OF pr(1)] rx by (auto simp: j1 sizeof_dm_packet_def min_def Let_def)
    have "map_option unat (dm_packet_length (take 20 (nt_rx net))) = Some (length p)"
      using proper_header(5) [OF pr(1), of "concat ps"] by (simp add: rx)
    moreover have "take 20 (nt_rx net) \<noteq> []" using pk(2) by fastforce
    ultimately have "read_round env mem cx net = read_packet env ?cx ?net"
      using True pk pr(2,3) by (auto simp: read_round_def sys_script_def set_script_def sizeof_dm_packet_def Let_def)
    then have "read_packet env ?cx ?net = Some (go, cx', net')" using r by simp
    moreover have "inside (length p) (cx_readCtx ?cx)" by (simp add: inside_def)
    ultimately have "go \<and> (\<exists>j'. nt_script net' = replicate j' (Xfer m) \<and> j1 \<le> j' + length p)"
      using read_packet_enough [of "length p" ?cx ?net j1 m env go cx' net'] pr(3) ref m rx assms(4) j1 by simp
    then show ?thesis using r j1 by fastforce
  qed
qed

lemma read_again_all:
  assumes "reader_ok env mem cx net pkts" and "nt_script net = replicate j (Xfer m)" and "sizeof_dm_packet \<le> m"
    and "length (concat pkts) + length pkts \<le> j"
  shows "\<exists>cx' net'. read_again env mem cx net = Some (cx', net') \<and>
    ofold (deliver env) pkts (quiet cx) = Some (quiet cx') \<and> reader_ok env mem cx' net' []"
  using assms
proof (induction pkts arbitrary: cx net j)
  case Nil
  from read_again_frames [OF Nil.prems(1)] show ?case by auto
next
  case (Cons p ps)
  from Cons.prems(4) have "length p < j" by simp
  then obtain cx1 net1 j1 where r: "read_round env mem cx net = Some (True, cx1, net1)"
    "nt_script net1 = replicate j1 (Xfer m)" "j \<le> j1 + length p + 1"
    using read_round_enough [OF Cons.prems(1-3)] by metis
  with read_round_frames [OF Cons.prems(1)] have d: "deliver env p (quiet cx) = Some (quiet cx1)"
    and ok: "reader_ok env mem cx1 net1 ps" by auto
  have "length (concat ps) + length ps \<le> j1" using Cons.prems(4) r(3) by simp
  from Cons.IH [OF ok r(2) Cons.prems(3) this] d show ?case
    by (auto simp: read_again.simps [of env mem cx] r(1))
qed

section \<open>Read events\<close>

text \<open>A sequence of read events, each with the system calls that it will see.\<close>

definition read_events ::
  "'u cb_env \<Rightarrow> (nat \<Rightarrow> bool) \<Rightarrow> sysres list list \<Rightarrow> 'u dmSocket \<times> net \<Rightarrow> ('u dmSocket \<times> net) option" where
  "read_events env mem = ofold (\<lambda>sc (cx, net). readEvent env mem cx (net\<lparr>nt_script := sc\<rparr>))"

lemma reader_ok_event:
  "reader_ok env mem cx net pkts \<Longrightarrow> benign sc \<Longrightarrow>
     reader_ok env mem (cx\<lparr>cx_readCtx := (cx_readCtx cx)\<lparr>io_timer := t\<rparr>\<rparr>) (net\<lparr>nt_script := sc\<rparr>) pkts"
  by (simp add: reader_ok_def)

lemma quiet_update [simp]: "quiet (cx\<lparr>cx_readCtx := io\<rparr>) = quiet cx"
  by (simp add: quiet_def)

lemma read_events_frames:
  assumes "reader_ok env mem cx net pkts" and "\<And>sc. sc \<in> set scs \<Longrightarrow> benign sc"
  shows "\<exists>k cx' net'. read_events env mem scs (cx, net) = Some (cx', net') \<and> k \<le> length pkts \<and>
    ofold (deliver env) (take k pkts) (quiet cx) = Some (quiet cx') \<and> reader_ok env mem cx' net' (drop k pkts)"
  using assms
proof (induction scs arbitrary: cx net pkts)
  case Nil
  then show ?case by (intro exI [of _ 0]) (simp add: read_events_def)
next
  case (Cons sc scs)
  let ?t = "Some TIMEOUT_CHUNKS"
  have "reader_ok env mem (cx\<lparr>cx_readCtx := (cx_readCtx cx)\<lparr>io_timer := ?t\<rparr>\<rparr>) (net\<lparr>nt_script := sc\<rparr>) pkts"
    by (rule reader_ok_event [OF Cons.prems(1)]) (simp add: Cons.prems(2))
  from read_again_frames [OF this] obtain k1 cx1 net1
    where r: "readEvent env mem cx (net\<lparr>nt_script := sc\<rparr>) = Some (cx1, net1)"
      and k1: "k1 \<le> length pkts" and d1: "ofold (deliver env) (take k1 pkts) (quiet cx) = Some (quiet cx1)"
      and ok: "reader_ok env mem cx1 net1 (drop k1 pkts)"
    by (auto simp: readEvent_def)
  from Cons.IH [OF ok] Cons.prems(2) obtain k2 cx2 net2
    where e: "read_events env mem scs (cx1, net1) = Some (cx2, net2)" and k2: "k2 \<le> length (drop k1 pkts)"
      and d2: "ofold (deliver env) (take k2 (drop k1 pkts)) (quiet cx1) = Some (quiet cx2)"
      and ok2: "reader_ok env mem cx2 net2 (drop k2 (drop k1 pkts))"
    by (metis list.set_intros(2))
  have "ofold (deliver env) (take (k1 + k2) pkts) (quiet cx) = Some (quiet cx2)"
    using d1 d2 by (simp add: take_add ofold_append)
  moreover have "read_events env mem (sc # scs) (cx, net) = Some (cx2, net2)"
    using r e by (simp add: read_events_def)
  moreover have "k1 + k2 \<le> length pkts" "reader_ok env mem cx2 net2 (drop (k1 + k2) pkts)"
    using k1 k2 ok2 by (simp_all add: add.commute)
  ultimately show ?case by blast
qed

text \<open>
  C6: The bytes of a stream reach the handlers as packets. Let the peer send a sequence of proper packets (the length field is the
  length, and at least the header is there), let there be memory for them, and let the callbacks leave the reader
  alone. Then every sequence of read events, whatever pieces the bytes arrive in and wherever calls are interrupted or would block, has the effect of handling the
  first \<open>k\<close> packets one after the other, for some \<open>k\<close>; no handler faults. And a further event that lets enough calls through, each of which may be as small as
  a header, has handled all of them and the stream is used up.
\<close>

theorem frames_in_order:
  assumes "neutral_env env" and "cx_socket cx \<ge> 0" and "cx_ref cx > 0" and "cx_readCtx cx = idle_io"
    and "\<forall>p \<in> set pkts. proper p \<and> mem (length p)" and "nt_rx net = concat pkts" and "\<forall>sc \<in> set scs. benign sc"
  shows "\<exists>k cx1 net1. read_events env mem scs (cx, net) = Some (cx1, net1) \<and> k \<le> length pkts \<and>
    ofold (deliver env) (take k pkts) cx = Some (quiet cx1) \<and>
    (\<forall>m j. sizeof_dm_packet \<le> m \<longrightarrow> length (concat pkts) + length pkts \<le> j \<longrightarrow>
      (\<exists>cx2 net2. readEvent env mem cx1 (net1\<lparr>nt_script := replicate j (Xfer m)\<rparr>) = Some (cx2, net2) \<and>
        ofold (deliver env) pkts cx = Some (quiet cx2) \<and> nt_rx net2 = []))"
proof -
  have q: "quiet cx = cx" using assms(4) by (simp add: quiet_def)
  have "between (cx_readCtx cx)" by (simp add: assms(4) between_def idle_io_def)
  then have "reader_ok env mem cx (net\<lparr>nt_script := []\<rparr>) pkts"
    using assms by (simp add: reader_ok_def reading_def benign_def)
  from read_events_frames [OF this] assms(7) obtain k cx1 net1
    where e: "read_events env mem scs (cx, net\<lparr>nt_script := []\<rparr>) = Some (cx1, net1)" and k: "k \<le> length pkts"
      and d: "ofold (deliver env) (take k pkts) cx = Some (quiet cx1)" and ok: "reader_ok env mem cx1 net1 (drop k pkts)"
    by (metis q)
  have fin: "\<exists>cx2 net2. readEvent env mem cx1 (net1\<lparr>nt_script := replicate j (Xfer m)\<rparr>) = Some (cx2, net2) \<and>
        ofold (deliver env) pkts cx = Some (quiet cx2) \<and> nt_rx net2 = []"
    if "sizeof_dm_packet \<le> m" and "length (concat pkts) + length pkts \<le> j" for m j
  proof -
    have "length (concat pkts) = length (concat (take k pkts)) + length (concat (drop k pkts))"
      by (metis append_take_drop_id concat_append length_append)
    then have "length (concat (drop k pkts)) + length (drop k pkts) \<le> j" using that(2) by simp
    from read_again_all [OF reader_ok_event [OF ok benign_replicate [of j m], where t = "Some TIMEOUT_CHUNKS"] _ that(1) this]
    obtain cx2 net2
      where r: "readEvent env mem cx1 (net1\<lparr>nt_script := replicate j (Xfer m)\<rparr>) = Some (cx2, net2)"
        and d2: "ofold (deliver env) (drop k pkts) (quiet cx1) = Some (quiet cx2)" and ok2: "reader_ok env mem cx2 net2 []"
      by (auto simp: readEvent_def)
    have "ofold (deliver env) (take k pkts @ drop k pkts) cx = Some (quiet cx2)"
      unfolding ofold_append using d d2 by simp
    with r ok2 show ?thesis by (auto simp: reader_ok_def reading_def)
  qed
  show ?thesis
  proof (cases scs)
    case Nil
    with e have "read_events env mem scs (cx, net) = Some (cx, net)" "cx1 = cx" "net1 = net\<lparr>nt_script := []\<rparr>"
      by (simp_all add: read_events_def)
    then show ?thesis using k d fin by (intro exI [of _ k] exI [of _ cx] exI [of _ net]) simp
  next
    case (Cons sc rest)
    with e have "read_events env mem scs (cx, net) = Some (cx1, net1)" by (simp add: read_events_def)
    then show ?thesis using k d fin by blast
  qed
qed

text \<open>A program that keeps every packet that it gets, and two packets of 20 and 24 bytes.\<close>

definition keep_env :: "u8 list list cb_env" where
  "keep_env = \<lparr>connection_fn = (\<lambda>_ _ cx _. Some (RC_OK, cx)),
     request_fn = (\<lambda>_ cx pkt _ _. Some (cx\<lparr>cx_user := cx_user cx @ [pkt]\<rparr>)),
     reply_fn = (\<lambda>_ cx _ _ _. Some cx)\<rparr>"

definition ex_packets :: "u8 list list" where
  "ex_packets = [[1, 0, 0, 20, 128, 0, 0, 7] @ replicate 12 0, [1, 0, 0, 24, 128, 0, 0, 8] @ replicate 16 5]"

definition ex_context :: "u8 list list dmSocket" where
  "ex_context = (dm_context_init 0 0 None (Some 0) (0, 0) [])\<lparr>cx_socket := 5\<rparr>"

lemma keep_env_neutral: "neutral_env keep_env"
  by (simp add: neutral_env_def neutral_def keep_env_def)

lemma ex_packets_proper: "\<forall>p \<in> set ex_packets. proper p"
  by code_simp

theorem frames_in_order_witness:
  "\<exists>k cx1 net1. read_events keep_env (\<lambda>_. True) [[Xfer 20, Xfer 7, Fail EINTR, Xfer 2, Fail EWOULDBLOCK], [Xfer 40, Xfer 3]]
      (ex_context, \<lparr>nt_rx = concat ex_packets, nt_tx = [], nt_script = []\<rparr>) = Some (cx1, net1) \<and>
    k \<le> (2::nat) \<and> (\<exists>cx2 net2. readEvent keep_env (\<lambda>_. True) cx1 (net1\<lparr>nt_script := replicate 50 (Xfer 20)\<rparr>) = Some (cx2, net2) \<and>
      cx_user cx2 = ex_packets)"
proof -
  have d: "ofold (deliver keep_env) ex_packets ex_context = Some (ex_context\<lparr>cx_user := ex_packets\<rparr>)" by code_simp
  have len: "length (concat ex_packets) + length ex_packets \<le> 50" "length ex_packets = 2"
    "sizeof_dm_packet \<le> 20" by code_simp+
  have hyps: "cx_socket ex_context \<ge> 0" "cx_ref ex_context > 0" "cx_readCtx ex_context = idle_io"
    "\<forall>p \<in> set ex_packets. proper p \<and> True"
    "\<forall>sc \<in> set [[Xfer 20, Xfer 7, Fail EINTR, Xfer 2, Fail EWOULDBLOCK], [Xfer 40, Xfer 3]]. benign sc"
    using ex_packets_proper by (auto simp: ex_context_def dm_context_init_def benign_def)
  have u: "cx_user cx2 = ex_packets" if "Some (ex_context\<lparr>cx_user := ex_packets\<rparr>) = Some (quiet cx2)" for cx2
  proof -
    have "cx_user (quiet cx2) = ex_packets" using that by (metis dmSocket.select_convs(13) dmSocket.surjective dmSocket.update_convs(13) option.inject)
    then show ?thesis by (simp add: quiet_def)
  qed
  obtain k cx1 net1 where e: "read_events keep_env (\<lambda>_. True) [[Xfer 20, Xfer 7, Fail EINTR, Xfer 2, Fail EWOULDBLOCK],
      [Xfer 40, Xfer 3]] (ex_context, \<lparr>nt_rx = concat ex_packets, nt_tx = [], nt_script = []\<rparr>) = Some (cx1, net1)"
    "k \<le> length ex_packets" and f: "\<forall>m j. sizeof_dm_packet \<le> m \<longrightarrow> length (concat ex_packets) + length ex_packets \<le> j \<longrightarrow>
      (\<exists>cx2 net2. readEvent keep_env (\<lambda>_. True) cx1 (net1\<lparr>nt_script := replicate j (Xfer m)\<rparr>) = Some (cx2, net2) \<and>
        ofold (deliver keep_env) ex_packets ex_context = Some (quiet cx2) \<and> nt_rx net2 = [])"
    using frames_in_order [OF keep_env_neutral hyps(1,2,3,4) net.select_convs(1) hyps(5)] by blast
  from f [rule_format, OF len(3,1)] u d e len(2) show ?thesis by metis
qed

section \<open>Where the reader faults\<close>

text \<open>
  C39: The length of a packet is not compared with the size of its header. A peer that sends a header with a length below
  five makes the reader use memory behind the block: the event faults, whatever the callbacks do.
\<close>

theorem short_packet_faults:
  assumes "cx_socket cx \<ge> 0" and "cx_readCtx cx = idle_io" and "map_option unat (dm_packet_length (nt_rx net)) = Some n"
    and "n < 5" and "20 \<le> length (nt_rx net)" and "nt_script net = replicate (Suc n) (Xfer 20) @ sc" and "mem n"
  shows "readEvent env mem cx net = None"
proof -
  let ?t = "Some TIMEOUT_CHUNKS"
  let ?io = "idle_io\<lparr>io_timer := ?t, io_packet := Some (replicate n 0), io_pos := Some 0, io_left := n\<rparr>"
  let ?cx = "cx\<lparr>cx_readCtx := ?io\<rparr>"
  let ?net = "net\<lparr>nt_script := replicate n (Xfer 20) @ sc\<rparr>"
  have h: "map_option unat (dm_packet_length (take 20 (nt_rx net))) = Some n" "take 20 (nt_rx net) \<noteq> []"
    using assms(3,5) by (auto simp: dm_packet_length_def read_at_def drop_take min_def split: if_split_asm)
  have "read_round env mem (cx\<lparr>cx_readCtx := idle_io\<lparr>io_timer := ?t\<rparr>\<rparr>) net = read_packet env ?cx ?net"
    using assms(1,5-7) h
    by (auto simp: read_round_def sys_script_def set_script_def idle_io_def sizeof_dm_packet_def Let_def)
  moreover have "read_packet env ?cx ?net = None"
  proof -
    have "read_loop (replicate n (Xfer 20) @ sc) ?io (nt_rx net) =
        Some (Io_done, ?io\<lparr>io_packet := Some (take n (nt_rx net)), io_pos := Some n, io_left := 0\<rparr>, drop n (nt_rx net),
              if n = 0 then sc else replicate (n - 1) (Xfer 20) @ sc)"
      using assms(4,5) by (cases n) (auto simp: write_at_def Let_def)
    then show ?thesis
      using assms(1,4) by (simp add: read_packet_def sys_script_def packet_complete_def dm_packet_flags_def read_at_def)
  qed
  ultimately show ?thesis using assms(2) by (simp add: readEvent_def read_again.simps [of env mem])
qed

theorem short_packet_faults_witness:
  "readEvent keep_env (\<lambda>_. True) ex_context \<lparr>nt_rx = replicate 20 0, nt_tx = [], nt_script = [Xfer 20]\<rparr> = None"
proof (rule short_packet_faults [where n = 0 and sc = "[]"])
  show "map_option unat (dm_packet_length (nt_rx \<lparr>nt_rx = replicate 20 0, nt_tx = [], nt_script = [Xfer 20]\<rparr>)) = Some 0"
    by code_simp
qed (simp_all add: ex_context_def dm_context_init_def)

text \<open>
  A connection that is lost inside of a packet frees the block but keeps the number of missing bytes and the position: the
  context cannot be connected again, the first bytes that arrive are stored into freed memory.
\<close>

lemma reconnect_faults:
  assumes "io_left (cx_readCtx cx) \<noteq> 0" and "io_pos (cx_readCtx cx) = Some p" and "cx_head cx = []" and "fd > 0"
    and "nt_rx net \<noteq> []" and "nt_script net = Xfer (Suc n) # sc"
  shows "\<exists>cx1 cx2. dm_context_shutdown env cx ev = Some cx1 \<and> dm_create_socket fd cx1 = (RC_OK, cx2) \<and>
    readEvent env mem cx2 net = None"
proof -
  obtain cx1 where c1: "dm_context_shutdown env cx ev = Some cx1"
    and io: "io_left (cx_readCtx cx1) \<noteq> 0" "io_pos (cx_readCtx cx1) = Some p" "io_packet (cx_readCtx cx1) = None"
    using assms(1-3)
    by (simp add: dm_context_shutdown_def dm_free_requests_def dm_stop_events_def free_requests.simps)
  obtain cx2 where c2: "dm_create_socket fd cx1 = (RC_OK, cx2)" and s: "cx_socket cx2 = fd"
    and io2: "io_left (cx_readCtx cx2) \<noteq> 0" "io_pos (cx_readCtx cx2) = Some p" "io_packet (cx_readCtx cx2) = None"
    using assms(4) io by (simp add: dm_create_socket_def dm_init_events_def)
  have "read_again env mem (cx2\<lparr>cx_readCtx := (cx_readCtx cx2)\<lparr>io_timer := t\<rparr>\<rparr>) net = None" for t
    using io2 s assms(4-6)
    by (simp add: read_again.simps [of env mem] read_round_def read_packet_def sys_script_def Let_def)
  with c1 c2 show ?thesis by (auto simp: readEvent_def)
qed

end
