(* ===== verification/Dm_Outgoing.thy ===== *)
theory Dm_Outgoing
  imports Dm_Frames
begin

text \<open>
  The queue of a connection: packets go out whole and in the order in which they were queued, an answer goes to the request with its
  identifier, and the one case in which the writer stops for good.
\<close>

section \<open>What is still to be written\<close>

definition sendable :: "u8 list \<Rightarrow> bool" where
  "sendable pk \<longleftrightarrow> (case map_option unat (dm_packet_length pk) of None \<Rightarrow> False | Some n \<Rightarrow> n \<le> length pk)"

definition wire_bytes :: "requestInfo \<Rightarrow> u8 list" where
  "wire_bytes r = take (case map_option unat (dm_packet_length (ri_packet r)) of None \<Rightarrow> 0 | Some n \<Rightarrow> n) (ri_packet r)"

definition unwritten :: "dm_io_context \<Rightarrow> u8 list" where
  "unwritten io = (case (io_packet io, io_pos io) of (Some pk, Some p) \<Rightarrow> take (io_left io) (drop p pk) | _ \<Rightarrow> [])"

definition waiting :: "requestInfo list \<Rightarrow> requestInfo list" where
  "waiting q = filter (\<lambda>r. ri_status r = REQUEST_SHALL_WRITE) q"

definition unsent :: "'u dmSocket \<Rightarrow> u8 list" where
  "unsent cx = unwritten (cx_writeCtx cx) @ concat (map wire_bytes (waiting (cx_head cx)))"

definition writer_io_ok :: "dm_io_context \<Rightarrow> bool" where
  "writer_io_ok io \<longleftrightarrow> (case io_packet io of None \<Rightarrow> True
     | Some pk \<Rightarrow> (case io_pos io of None \<Rightarrow> False | Some p \<Rightarrow> p + io_left io \<le> length pk))"

definition writer_ok :: "'u dmSocket \<Rightarrow> bool" where
  "writer_ok cx \<longleftrightarrow> cx_socket cx \<ge> 0 \<and> writer_io_ok (cx_writeCtx cx) \<and> (\<forall>r \<in> set (waiting (cx_head cx)). sendable (ri_packet r))"

lemma unwritten_timer [simp]:
  "unwritten (io\<lparr>io_timer := t\<rparr>) = unwritten io" "writer_io_ok (io\<lparr>io_timer := t\<rparr>) = writer_io_ok io"
  by (simp_all add: unwritten_def writer_io_ok_def cong: option.case_cong)

lemma unwritten_active [simp]:
  "unwritten (io\<lparr>io_active := t\<rparr>) = unwritten io" "writer_io_ok (io\<lparr>io_active := t\<rparr>) = writer_io_ok io"
  by (simp_all add: unwritten_def writer_io_ok_def cong: option.case_cong)

lemma unwritten_free [simp]:
  "unwritten (io\<lparr>io_packet := None\<rparr>) = []" "writer_io_ok (io\<lparr>io_packet := None\<rparr>)" "io_packet io = None \<Longrightarrow> unwritten io = []"
  by (simp_all add: unwritten_def writer_io_ok_def)

lemma take_piece: "take (min m l) (drop p pk) @ take (l - min m l) (drop (p + min m l) pk) = take l (drop p pk)"
  by (metis add.commute drop_drop le_add_diff_inverse min.cobounded2 take_add)

section \<open>One packet\<close>

lemma write_loop_zero [simp]: "io_left io = 0 \<Longrightarrow> write_loop sc io tx = Some (Io_done, io, tx, sc)"
  by (cases sc) auto

lemma write_loop_pieces:
  assumes "benign sc" and "io_packet io = Some pk" and "writer_io_ok io"
  shows "\<exists>res io' tx' sc'. write_loop sc io tx = Some (res, io', tx', sc') \<and> benign sc' \<and> io_packet io' = Some pk \<and>
    writer_io_ok io' \<and> tx' @ unwritten io' = tx @ unwritten io \<and>
    (res = Io_done \<and> unwritten io' = [] \<or> res = Io_blocked) \<and>
    (\<forall>m j. sc = replicate j (Xfer m) \<and> 0 < m \<and> io_left io \<le> j \<longrightarrow>
       res = Io_done \<and> (\<exists>j'. sc' = replicate j' (Xfer m) \<and> j \<le> j' + io_left io))"
  using assms
proof (induction sc arbitrary: io tx)
  case Nil
  then show ?case by (auto simp: unwritten_def split: option.split)
next
  case (Cons r sc)
  show ?case
  proof (cases "io_left io = 0")
    case True
    with Cons.prems show ?thesis by (auto simp: unwritten_def writer_io_ok_def split: option.split)
  next
    case False
    from Cons.prems(1) consider m where "r = Xfer m" | "r = Fail EINTR" | "r = Fail EWOULDBLOCK"
      by (auto simp: benign_Cons)
    then show ?thesis
    proof cases
      case (1 m)
      from Cons.prems(2,3) obtain p where p: "io_pos io = Some p" "p + io_left io \<le> length pk"
        by (auto simp: writer_io_ok_def split: option.split_asm)
      define len where "len = min m (io_left io)"
      let ?io = "io\<lparr>io_pos := Some (p + len), io_left := io_left io - len\<rparr>"
      have rd: "read_at p len pk = Some (take len (drop p pk))" using p(2) by (simp add: read_at_def len_def)
      then have step: "write_loop (r # sc) io tx = write_loop sc ?io (tx @ take len (drop p pk))"
        using False 1 p Cons.prems(2) by (simp add: len_def Let_def)
      have ok: "writer_io_ok ?io" using p(2) Cons.prems(2) by (simp add: writer_io_ok_def len_def)
      have un: "take len (drop p pk) @ unwritten ?io = unwritten io"
        using p Cons.prems(2) take_piece [of m "io_left io" p pk] by (simp add: unwritten_def len_def)
      have b: "benign sc" "io_packet ?io = Some pk" using Cons.prems by (simp_all add: benign_Cons)
      from Cons.IH [OF b ok, of "tx @ take len (drop p pk)"] obtain res io' tx' sc'
        where ih: "write_loop sc ?io (tx @ take len (drop p pk)) = Some (res, io', tx', sc')" "benign sc'"
          "io_packet io' = Some pk" "writer_io_ok io'" "tx' @ unwritten io' = tx @ unwritten io"
          "res = Io_done \<and> unwritten io' = [] \<or> res = Io_blocked"
        and rep: "\<forall>m j. sc = replicate j (Xfer m) \<and> 0 < m \<and> io_left ?io \<le> j \<longrightarrow>
          res = Io_done \<and> (\<exists>j'. sc' = replicate j' (Xfer m) \<and> j \<le> j' + io_left ?io)"
        unfolding append_assoc un by blast
      have "res = Io_done \<and> (\<exists>j'. sc' = replicate j' (Xfer m2) \<and> j \<le> j' + io_left io)"
        if "r # sc = replicate j (Xfer m2)" "0 < m2" "io_left io \<le> j" for m2 j
      proof -
        have "j \<noteq> 0" using that(1) by (cases j) auto
        then obtain j1 where j1: "j = Suc j1" by (cases j) auto
        with that(1) 1 have sc: "sc = replicate j1 (Xfer m2)" "m2 = m" by auto
        have "0 < len" "len \<le> io_left io" using that(2) False sc(2) by (auto simp: len_def)
        moreover have "io_left ?io \<le> j1" using that(3) j1 \<open>0 < len\<close> by simp
        ultimately show ?thesis using rep [rule_format, of j1 m2] sc(1) that(2) j1 by fastforce
      qed
      with ih step show ?thesis by auto
    next
      case 2
      have step: "write_loop (r # sc) io tx = write_loop sc io tx" using False 2 by simp
      have vac: "r # sc \<noteq> replicate j (Xfer m)" for j m using 2 by (cases j) auto
      have "benign sc" using Cons.prems(1) by (simp add: benign_Cons)
      from Cons.IH [OF this Cons.prems(2,3), of tx] show ?thesis unfolding step using vac by blast
    next
      case 3
      with False Cons.prems show ?thesis by (auto simp: benign_Cons Cons_replicate_eq)
    qed
  qed
qed

section \<open>The queue\<close>

lemma next_write_None: "next_write q = None \<longleftrightarrow> waiting q = []"
  by (induction q) (auto simp: waiting_def)

lemma next_write_waiting:
  "next_write q = Some (r, q') \<Longrightarrow> waiting q = r # waiting q'"
  by (induction q arbitrary: r q') (auto simp: waiting_def split: if_split_asm)

lemma write_packet_stream:
  assumes "writer_ok cx" and "benign (nt_script net)" and "io_packet (cx_writeCtx cx) = Some pk"
  shows "\<exists>res cx' net'. write_packet env cx net = Some (res, cx', net') \<and> benign (nt_script net') \<and> writer_ok cx' \<and>
    nt_tx net' @ unsent cx' = nt_tx net @ unsent cx \<and> cx_head cx' = cx_head cx \<and>
    (res = Write_break \<longrightarrow> cx_head cx = [] \<and> unsent cx' = []) \<and>
    (\<forall>m j. nt_script net = replicate j (Xfer m) \<and> 0 < m \<and> io_left (cx_writeCtx cx) \<le> j \<longrightarrow>
       res \<noteq> Write_return \<and> unwritten (cx_writeCtx cx') = [] \<and>
       (\<exists>j'. nt_script net' = replicate j' (Xfer m) \<and> j \<le> j' + io_left (cx_writeCtx cx)))"
proof -
  from assms(1) have ok: "writer_io_ok (cx_writeCtx cx)" "cx_socket cx \<ge> 0" by (auto simp: writer_ok_def)
  from write_loop_pieces [OF assms(2,3) ok(1), of "nt_tx net"] obtain res io' tx' sc'
    where l: "write_loop (nt_script net) (cx_writeCtx cx) (nt_tx net) = Some (res, io', tx', sc')" "benign sc'"
      "writer_io_ok io'" "tx' @ unwritten io' = nt_tx net @ unwritten (cx_writeCtx cx)"
      "res = Io_done \<and> unwritten io' = [] \<or> res = Io_blocked"
      and rep: "\<forall>m j. nt_script net = replicate j (Xfer m) \<and> 0 < m \<and> io_left (cx_writeCtx cx) \<le> j \<longrightarrow>
        res = Io_done \<and> (\<exists>j'. sc' = replicate j' (Xfer m) \<and> j \<le> j' + io_left (cx_writeCtx cx))"
    by metis
  have sc: "sys_script cx net = nt_script net"
    "set_script cx sc' (net\<lparr>nt_tx := tx'\<rparr>) = net\<lparr>nt_tx := tx', nt_script := sc'\<rparr>"
    using ok(2) by (simp_all add: sys_script_def set_script_def)
  from l(5) show ?thesis
  proof
    assume "res = Io_blocked"
    then have "write_packet env cx net = Some (Write_return, cx\<lparr>cx_writeCtx := io'\<rparr>, net\<lparr>nt_tx := tx', nt_script := sc'\<rparr>)"
      by (simp add: write_packet_def l(1) sc)
    with l assms(1) rep \<open>res = Io_blocked\<close> show ?thesis by (auto simp: writer_ok_def unsent_def)
  next
    assume d: "res = Io_done \<and> unwritten io' = []"
    then have "write_packet env cx net = Some (if cx_head cx = [] then Write_break else Write_again,
        cx\<lparr>cx_writeCtx := io'\<lparr>io_packet := None\<rparr>\<rparr>, net\<lparr>nt_tx := tx', nt_script := sc'\<rparr>)"
      by (simp add: write_packet_def l(1) sc)
    with l assms(1) rep d show ?thesis by (auto simp: writer_ok_def unsent_def waiting_def)
  qed
qed

lemma take_next:
  assumes "writer_ok cx" and "io_packet (cx_writeCtx cx) = None" and "next_write (cx_head cx) = Some (r, q)"
  obtains n where "map_option unat (dm_packet_length (ri_packet r)) = Some n" and "n = length (wire_bytes r)"
    and "writer_ok (cx\<lparr>cx_head := q, cx_writeCtx := (cx_writeCtx cx)\<lparr>io_packet := Some (ri_packet r), io_pos := Some 0, io_left := n\<rparr>\<rparr>)"
    and "unsent (cx\<lparr>cx_head := q, cx_writeCtx := (cx_writeCtx cx)\<lparr>io_packet := Some (ri_packet r), io_pos := Some 0, io_left := n\<rparr>\<rparr>) = unsent cx"
proof -
  from assms(1) next_write_waiting [OF assms(3)] have "sendable (ri_packet r)" by (simp add: writer_ok_def)
  then obtain n where n: "map_option unat (dm_packet_length (ri_packet r)) = Some n" "n \<le> length (ri_packet r)"
    by (auto simp: sendable_def split: option.split_asm)
  show ?thesis
    by (rule that [OF n(1)])
       (use assms n next_write_waiting [OF assms(3)] in \<open>auto simp: wire_bytes_def writer_ok_def writer_io_ok_def unsent_def unwritten_def\<close>)
qed

lemma left_unwritten: "writer_io_ok io \<Longrightarrow> io_packet io = Some pk \<Longrightarrow> io_left io = length (unwritten io)"
  by (auto simp: writer_io_ok_def unwritten_def split: option.split_asm)

text \<open>A script of transfers is enough when it has a call for each byte.\<close>

definition enough :: "nat \<Rightarrow> 'u dmSocket \<Rightarrow> net \<Rightarrow> bool" where
  "enough m cx net \<longleftrightarrow> 0 < m \<and> nt_script net = replicate (length (nt_script net)) (Xfer m) \<and> length (unsent cx) \<le> length (nt_script net)"

lemma write_packet_enough:
  assumes "writer_ok cx" and "io_packet (cx_writeCtx cx) = Some pk" and "enough m cx net"
  shows "\<exists>res cx' net'. write_packet env cx net = Some (res, cx', net') \<and> res \<noteq> Write_return \<and> enough m cx' net'"
proof -
  let ?j = "length (nt_script net)"
  have e: "nt_script net = replicate ?j (Xfer m)" "0 < m" "length (unsent cx) \<le> ?j"
    using assms(3) by (auto simp: enough_def)
  have left: "io_left (cx_writeCtx cx) = length (unwritten (cx_writeCtx cx))"
    using left_unwritten assms(1,2) by (auto simp: writer_ok_def)
  then have "io_left (cx_writeCtx cx) \<le> ?j" using e(3) by (simp add: unsent_def)
  moreover have "benign (nt_script net)" using benign_replicate e(1) by metis
  ultimately obtain res cx' net' j' where w: "write_packet env cx net = Some (res, cx', net')" "res \<noteq> Write_return"
    "unwritten (cx_writeCtx cx') = []" "cx_head cx' = cx_head cx" "nt_script net' = replicate j' (Xfer m)"
    "?j \<le> j' + io_left (cx_writeCtx cx)"
    using write_packet_stream [OF assms(1) _ assms(2), of net env] e by metis
  then have "enough m cx' net'" using e left by (simp add: enough_def unsent_def)
  with w show ?thesis by blast
qed

lemma write_round_stream:
  assumes "writer_ok cx" and "benign (nt_script net)"
  shows "\<exists>res cx' net'. write_round env cx net = Some (res, cx', net') \<and> benign (nt_script net') \<and> writer_ok cx' \<and>
    nt_tx net' @ unsent cx' = nt_tx net @ unsent cx \<and> (res = Write_break \<longrightarrow> unsent cx' = []) \<and>
    (enough m cx net \<longrightarrow> res \<noteq> Write_return \<and> enough m cx' net')"
proof (cases "io_packet (cx_writeCtx cx)")
  case (Some pk)
  then have "write_round env cx net = write_packet env cx net" by (simp add: write_round_def)
  with write_packet_stream [OF assms Some, of env] write_packet_enough [OF assms(1) Some, of m net env]
  show ?thesis by fastforce
next
  case None
  show ?thesis
  proof (cases "next_write (cx_head cx)")
    case nil: None
    then have "write_round env cx net = Some (Write_break, cx, net)" using None by (simp add: write_round_def)
    moreover have "unsent cx = []" using nil None by (simp add: unsent_def next_write_None)
    ultimately show ?thesis using assms by auto
  next
    case (Some a)
    then obtain r q where q: "next_write (cx_head cx) = Some (r, q)" by (cases a) auto
    let ?next = "\<lambda>n. cx\<lparr>cx_head := q, cx_writeCtx := (cx_writeCtx cx)\<lparr>io_packet := Some (ri_packet r), io_pos := Some 0, io_left := n\<rparr>\<rparr>"
    obtain n where n: "map_option unat (dm_packet_length (ri_packet r)) = Some n"
      and ok: "writer_ok (?next n)" and un: "unsent (?next n) = unsent cx"
      by (rule take_next [OF assms(1) None q])
    let ?cx = "?next n"
    have w: "write_round env cx net = write_packet env ?cx net" using None q n by (auto simp: write_round_def)
    have pk: "io_packet (cx_writeCtx ?cx) = Some (ri_packet r)" by simp
    have e: "enough m cx net = enough m ?cx net" by (simp add: enough_def un)
    from write_packet_stream [OF ok assms(2) pk, of env] write_packet_enough [OF ok pk, of m net env]
    show ?thesis unfolding w e un [symmetric] by fastforce
  qed
qed

lemma write_again_stream:
  "writer_ok cx \<Longrightarrow> benign (nt_script net) \<Longrightarrow>
   \<exists>res cx' net'. write_again env cx net = Some (res, cx', net') \<and> writer_ok cx' \<and>
     nt_tx net' @ unsent cx' = nt_tx net @ unsent cx \<and> (res \<noteq> Write_return \<longrightarrow> unsent cx' = []) \<and>
     (enough m cx net \<longrightarrow> unsent cx' = [])"
proof (induction env cx net rule: write_again.induct)
  case (1 env cx net)
  from write_round_stream [OF "1.prems", of env m] obtain res cx1 net1
    where r: "write_round env cx net = Some (res, cx1, net1)" "benign (nt_script net1)" "writer_ok cx1"
      "nt_tx net1 @ unsent cx1 = nt_tx net @ unsent cx" "res = Write_break \<longrightarrow> unsent cx1 = []"
      "enough m cx net \<longrightarrow> res \<noteq> Write_return \<and> enough m cx1 net1"
    by metis
  show ?case
  proof (cases "res = Write_again")
    case True
    with "1.IH" [OF r(1) refl refl True r(3,2)] r show ?thesis
      by (simp add: write_again.simps [of env cx]) metis
  next
    case False
    with r show ?thesis by (cases res) (auto simp: write_again.simps [of env cx])
  qed
qed

section \<open>Write events\<close>

definition write_events ::
  "'u cb_env \<Rightarrow> sysres list list \<Rightarrow> 'u dmSocket \<times> net \<Rightarrow> ('u dmSocket \<times> net) option" where
  "write_events env = ofold (\<lambda>sc (cx, net). writeEvent env cx (net\<lparr>nt_script := sc\<rparr>))"

lemma writeEvent_stream:
  assumes "writer_ok cx" and "benign (nt_script net)"
  shows "\<exists>cx' net'. writeEvent env cx net = Some (cx', net') \<and> writer_ok cx' \<and>
    nt_tx net' @ unsent cx' = nt_tx net @ unsent cx \<and> (enough m cx net \<and> cx_head cx \<noteq> [] \<longrightarrow> unsent cx' = [])"
proof (cases "cx_head cx = []")
  case True
  with assms show ?thesis by (simp add: writeEvent_def)
next
  case False
  from write_again_stream [OF assms, of env m] obtain res cx1 net1
    where w: "write_again env cx net = Some (res, cx1, net1)" "writer_ok cx1"
      "nt_tx net1 @ unsent cx1 = nt_tx net @ unsent cx" "enough m cx net \<longrightarrow> unsent cx1 = []" by metis
  moreover have "writer_ok (cx1\<lparr>cx_writeCtx := (cx_writeCtx cx1)\<lparr>io_active := False, io_timer := None\<rparr>\<rparr>)"
    "unsent (cx1\<lparr>cx_writeCtx := (cx_writeCtx cx1)\<lparr>io_active := False, io_timer := None\<rparr>\<rparr>) = unsent cx1"
    using w(2) by (simp_all add: writer_ok_def unsent_def)
  ultimately show ?thesis using False by (auto simp: writeEvent_def)
qed

lemma write_events_stream:
  assumes "writer_ok cx" and "\<And>sc. sc \<in> set scs \<Longrightarrow> benign sc"
  shows "\<exists>cx' net'. write_events env scs (cx, net) = Some (cx', net') \<and> writer_ok cx' \<and>
    nt_tx net' @ unsent cx' = nt_tx net @ unsent cx"
  using assms
proof (induction scs arbitrary: cx net)
  case Nil
  then show ?case by (simp add: write_events_def)
next
  case (Cons sc scs)
  have "benign (nt_script (net\<lparr>nt_script := sc\<rparr>))" by (simp add: Cons.prems(2))
  from writeEvent_stream [OF Cons.prems(1) this, of env 0] obtain cx1 net1
    where w: "writeEvent env cx (net\<lparr>nt_script := sc\<rparr>) = Some (cx1, net1)" "writer_ok cx1"
      "nt_tx net1 @ unsent cx1 = nt_tx net @ unsent cx" by auto
  from Cons.IH [OF w(2), of net1] Cons.prems(2) w show ?case by (simp add: write_events_def)
qed

text \<open>
  C7: Packets leave whole and in the order of the queue. Over any sequence of write events, whatever pieces the system takes and wherever
  calls are interrupted or would block, no event faults, and what has been written followed by what is
  still to be written is what there was to write at the start; and as long as the queue is not empty, an event with a call for each
  byte writes everything.
\<close>

theorem packets_in_order:
  assumes "writer_ok cx" and "\<forall>sc \<in> set scs. benign sc"
  shows "\<exists>cx1 net1. write_events env scs (cx, net) = Some (cx1, net1) \<and> nt_tx net1 @ unsent cx1 = nt_tx net @ unsent cx \<and>
    (cx_head cx1 \<noteq> [] \<longrightarrow> (\<forall>m j. 0 < m \<longrightarrow> length (unsent cx1) \<le> j \<longrightarrow>
      (\<exists>cx2 net2. writeEvent env cx1 (net1\<lparr>nt_script := replicate j (Xfer m)\<rparr>) = Some (cx2, net2) \<and>
        nt_tx net2 = nt_tx net @ unsent cx \<and> unsent cx2 = [])))"
proof -
  from write_events_stream [OF assms(1)] assms(2) obtain cx1 net1
    where w: "write_events env scs (cx, net) = Some (cx1, net1)" "writer_ok cx1"
      "nt_tx net1 @ unsent cx1 = nt_tx net @ unsent cx" by metis
  have "\<exists>cx2 net2. writeEvent env cx1 (net1\<lparr>nt_script := replicate j (Xfer m)\<rparr>) = Some (cx2, net2) \<and>
        nt_tx net2 = nt_tx net @ unsent cx \<and> unsent cx2 = []"
    if "cx_head cx1 \<noteq> []" "0 < m" "length (unsent cx1) \<le> j" for m j
  proof -
    let ?net = "net1\<lparr>nt_script := replicate j (Xfer m)\<rparr>"
    have "enough m cx1 ?net" "benign (nt_script ?net)" using that(2,3) by (simp_all add: enough_def)
    with writeEvent_stream [OF w(2), of ?net env m] that(1) w(3) show ?thesis by fastforce
  qed
  with w show ?thesis by blast
qed

section \<open>Queueing\<close>

lemma proper_sendable: "proper p \<Longrightarrow> sendable p \<and> dm_packet_code p \<noteq> None \<and> dm_hop2hop_id p \<noteq> None"
  by (auto simp: proper_def sendable_def dm_packet_code_def dm_hop2hop_id_def read_at_def sizeof_dm_packet_def)

lemma enqueue_reply:
  assumes "cx_socket cx \<ge> 0" and "proper p" and "mem sizeof_request_info"
  obtains cx' where "ctx_enqueue mem rnd cx p REPLY cb d = Some (RC_OK, cx')" and "unsent cx' = unsent cx @ p"
    and "writer_ok cx' = writer_ok cx" and "cx_head cx' \<noteq> []" and "cx_socket cx' = cx_socket cx"
proof -
  from proper_sendable [OF assms(2)] obtain code hop
    where h: "dm_packet_code p = Some code" "dm_hop2hop_id p = Some hop" and s: "sendable p" by blast
  let ?r = "\<lparr>ri_flags = REPLY, ri_reply_cb = cb, ri_userdata = d, ri_status = REQUEST_SHALL_WRITE, ri_code = code,
    ri_hopid = hop, ri_packet = p\<rparr>"
  have w: "wire_bytes ?r = p" using assms(2) by (auto simp: wire_bytes_def proper_def)
  have "ctx_enqueue mem rnd cx p REPLY cb d = Some (RC_OK, start_writing (cx\<lparr>cx_head := cx_head cx @ [?r]\<rparr>))"
    using assms(1,3) h by (simp add: ctx_enqueue_def)
  then show ?thesis
    by (rule that)
       (use w s in \<open>auto simp: start_writing_def unsent_def waiting_def writer_ok_def\<close>)
qed

definition enqueue_all ::
  "(nat \<Rightarrow> bool) \<Rightarrow> u32 \<Rightarrow> u8 list list \<Rightarrow> 'u dmSocket \<Rightarrow> 'u dmSocket option" where
  "enqueue_all mem rnd = ofold (\<lambda>p cx. map_option snd (ctx_enqueue mem rnd cx p REPLY None 0))"

lemma enqueue_all_unsent:
  assumes "cx_socket cx \<ge> 0" and "\<forall>p \<in> set ps. proper p" and "mem sizeof_request_info"
  shows "\<exists>cx'. enqueue_all mem rnd ps cx = Some cx' \<and> unsent cx' = unsent cx @ concat ps \<and> writer_ok cx' = writer_ok cx \<and>
    (ps \<noteq> [] \<longrightarrow> cx_head cx' \<noteq> [])"
  using assms
proof (induction ps arbitrary: cx)
  case Nil
  then show ?case by (simp add: enqueue_all_def)
next
  case (Cons p ps)
  then obtain cx1 where e: "ctx_enqueue mem rnd cx p REPLY None 0 = Some (RC_OK, cx1)" "unsent cx1 = unsent cx @ p"
    "writer_ok cx1 = writer_ok cx" "cx_head cx1 \<noteq> []" "cx_socket cx1 = cx_socket cx"
    using enqueue_reply [of cx p mem rnd None 0] by (metis list.set_intros(1))
  then have "enqueue_all mem rnd (p # ps) cx = enqueue_all mem rnd ps cx1" by (simp add: enqueue_all_def)
  with Cons.IH [of cx1] Cons.prems e show ?case by (cases ps) (auto simp: enqueue_all_def)
qed


section \<open>Examples\<close>

definition ex_sender :: "u8 list list dmSocket" where
  "ex_sender = the (enqueue_all (\<lambda>_. True) 1 ex_packets ex_context)"

lemma ex_sender_ok: "writer_ok ex_sender"
  by code_simp

theorem packets_in_order_witness:
  "\<exists>cx1 net1. write_events keep_env [[Xfer 7, Fail EINTR, Xfer 2, Fail EWOULDBLOCK], []]
      (ex_sender, \<lparr>nt_rx = [], nt_tx = [9], nt_script = []\<rparr>) = Some (cx1, net1) \<and> nt_tx net1 @ unsent cx1 = 9 # concat ex_packets"
proof -
  have u: "unsent ex_sender = concat ex_packets" by code_simp
  have b: "\<forall>sc \<in> set [[Xfer 7, Fail EINTR, Xfer 2, Fail EWOULDBLOCK], []]. benign sc" by (simp add: benign_def)
  show ?thesis
    using packets_in_order [OF ex_sender_ok b, of keep_env "\<lparr>nt_rx = [], nt_tx = [9], nt_script = []\<rparr>"] u by auto
qed


section \<open>Where the writer stops\<close>

lemma empty_queue_stalls:
  "cx_head cx = [] \<Longrightarrow> \<exists>net3. write_events env scs (cx, net) = Some (cx, net3) \<and> nt_tx net3 = nt_tx net"
proof (induction scs arbitrary: net)
  case Nil
  then show ?case by (simp add: write_events_def)
next
  case (Cons sc scs)
  then have "write_events env (sc # scs) (cx, net) = write_events env scs (cx, net\<lparr>nt_script := sc\<rparr>)"
    by (simp add: write_events_def writeEvent_def)
  with Cons.IH [OF Cons.prems, of "net\<lparr>nt_script := sc\<rparr>"] show ?case by simp
qed

text \<open>
  C38: An answer that does not fit into the socket at once is never finished. The writer takes a packet that expects no answer out of the queue before it
  writes it; if the system takes only the first \<open>k\<close> bytes and the queue is empty then, every later write event
  returns at once, whatever the system would take. The timer of three seconds keeps running, and ends the connection.
\<close>

theorem partial_answer_stalls:
  assumes "cx_socket cx \<ge> 0" and "cx_writeCtx cx = idle_io" and "cx_head cx = []" and "proper p" and "k < length p"
    and "mem sizeof_request_info"
  shows "\<exists>cx1 cx2 net2. ctx_enqueue mem rnd cx p REPLY cb d = Some (RC_OK, cx1) \<and>
    writeEvent env cx1 (net\<lparr>nt_script := [Xfer k, Fail EWOULDBLOCK]\<rparr>) = Some (cx2, net2) \<and>
    nt_tx net2 = nt_tx net @ take k p \<and> io_timer (cx_writeCtx cx2) = Some TIMEOUT_CHUNKS \<and>
    (\<forall>scs. \<exists>net3. write_events env scs (cx2, net2) = Some (cx2, net3) \<and> nt_tx net3 = nt_tx net2)"
proof -
  from proper_sendable [OF assms(4)] obtain code hop
    where h: "dm_packet_code p = Some code" "dm_hop2hop_id p = Some hop" by blast
  let ?r = "\<lparr>ri_flags = REPLY, ri_reply_cb = cb, ri_userdata = d, ri_status = REQUEST_SHALL_WRITE, ri_code = code,
    ri_hopid = hop, ri_packet = p\<rparr>"
  let ?io = "idle_io\<lparr>io_active := True, io_timer := Some TIMEOUT_WRITE_REQUESTS\<rparr>"
  let ?cx1 = "cx\<lparr>cx_head := [?r], cx_writeCtx := ?io\<rparr>"
  let ?cx2 = "cx\<lparr>cx_head := [], cx_writeCtx := ?io\<lparr>io_packet := Some p, io_pos := Some k, io_left := length p - k,
    io_timer := Some TIMEOUT_CHUNKS\<rparr>\<rparr>"
  let ?net2 = "net\<lparr>nt_tx := nt_tx net @ take k p, nt_script := []\<rparr>"
  have e: "ctx_enqueue mem rnd cx p REPLY cb d = Some (RC_OK, ?cx1)"
    using assms(1-3,6) h by (simp add: ctx_enqueue_def start_writing_def idle_io_def)
  have n: "map_option unat (dm_packet_length p) = Some (length p)" using assms(4) by (simp add: proper_def)
  have fl: "ri_flags ?r AND (ONE_WAY OR REPLY) \<noteq> 0" by (simp add: ONE_WAY_def REPLY_def)
  have "write_round env ?cx1 (net\<lparr>nt_script := [Xfer k, Fail EWOULDBLOCK]\<rparr>) = Some (Write_return, ?cx2, ?net2)"
    using assms(1,5) n fl
    by (auto simp: write_round_def write_packet_def sys_script_def set_script_def idle_io_def Let_def read_at_def)
  then have w: "writeEvent env ?cx1 (net\<lparr>nt_script := [Xfer k, Fail EWOULDBLOCK]\<rparr>) = Some (?cx2, ?net2)"
    by (simp add: writeEvent_def write_again.simps)
  have "\<exists>net3. write_events env scs (?cx2, ?net2) = Some (?cx2, net3) \<and> nt_tx net3 = nt_tx ?net2" for scs
    by (rule empty_queue_stalls) simp
  with e w show ?thesis by fastforce
qed

theorem partial_answer_stalls_witness:
  "\<exists>cx1 cx2 net2. ctx_enqueue (\<lambda>_. True) 1 ex_context (hd ex_packets) REPLY None 0 = Some (RC_OK, cx1) \<and>
    writeEvent keep_env cx1 (\<lparr>nt_rx = [], nt_tx = [], nt_script = []\<rparr>\<lparr>nt_script := [Xfer 8, Fail EWOULDBLOCK]\<rparr>) = Some (cx2, net2) \<and>
    nt_tx net2 = [] @ take 8 (hd ex_packets) \<and> io_timer (cx_writeCtx cx2) = Some TIMEOUT_CHUNKS \<and>
    (\<forall>scs. \<exists>net3. write_events keep_env scs (cx2, net2) = Some (cx2, net3) \<and> nt_tx net3 = nt_tx net2)"
proof -
  have "proper (hd ex_packets)" "8 < length (hd ex_packets)" by code_simp+
  then show ?thesis
    using partial_answer_stalls [of ex_context "hd ex_packets" 8 "\<lambda>_. True" 1 None 0 keep_env
      "\<lparr>nt_rx = [], nt_tx = [], nt_script = []\<rparr>"]
    by (simp add: ex_context_def dm_context_init_def)
qed

section \<open>Answers\<close>

text \<open>The shape of the queue: first the requests that wait for their answer, then what is to be written.\<close>

definition awaiting :: "requestInfo \<Rightarrow> bool" where
  "awaiting r \<longleftrightarrow> ri_status r = REQUEST_SHALL_READ \<and> ri_flags r AND (ONE_WAY OR REPLY) = 0"

definition queue_ok :: "requestInfo list \<Rightarrow> bool" where
  "queue_ok q \<longleftrightarrow> (\<exists>rs ws. q = rs @ ws \<and> (\<forall>r \<in> set rs. awaiting r) \<and> (\<forall>r \<in> set ws. ri_status r = REQUEST_SHALL_WRITE))"

lemma queue_ok_nil [simp]: "queue_ok []"
  by (simp add: queue_ok_def)

lemma queue_ok_enqueue:
  assumes "ctx_enqueue mem rnd cx p flags cb d = Some (r, cx')" and "queue_ok (cx_head cx)"
  shows "queue_ok (cx_head cx')"
proof -
  have "queue_ok (cx_head cx @ [x])" if "ri_status x = REQUEST_SHALL_WRITE" for x
    using assms(2) that unfolding queue_ok_def by (metis Un_iff append_assoc empty_iff list.set(1) set_ConsD set_append)
  with assms show ?thesis
    by (auto simp: ctx_enqueue_def start_writing_def bind_Some_iff Let_def split: if_split_asm prod.split_asm)
qed

lemma queue_ok_next:
  assumes "queue_ok q" and "next_write q = Some (r, q')"
  shows "queue_ok q'"
  using assms(1) unfolding queue_ok_def
proof (elim exE conjE)
  fix rs ws assume q: "q = rs @ ws" and rs: "\<forall>r \<in> set rs. awaiting r" and ws: "\<forall>r \<in> set ws. ri_status r = REQUEST_SHALL_WRITE"
  have "next_write (rs @ ws) = map_option (\<lambda>(x, y). (x, rs @ y)) (next_write ws)"
    using rs by (induction rs) (auto simp: awaiting_def option.map_comp comp_def split_def option.map_ident)
  with assms(2) q obtain y where y: "next_write ws = Some (r, y)" "q' = rs @ y" by auto
  then obtain w ws' where w: "ws = w # ws'" by (cases ws) auto
  with ws y have "y = (if ri_flags w AND (ONE_WAY OR REPLY) \<noteq> 0 then ws' else w\<lparr>ri_status := REQUEST_SHALL_READ\<rparr> # ws')" by auto
  then show "\<exists>rs ws. q' = rs @ ws \<and> (\<forall>r \<in> set rs. awaiting r) \<and> (\<forall>r \<in> set ws. ri_status r = REQUEST_SHALL_WRITE)"
    using rs ws w y(2)
    by (intro exI [of _ "if ri_flags w AND (ONE_WAY OR REPLY) \<noteq> 0 then rs else rs @ [w\<lparr>ri_status := REQUEST_SHALL_READ\<rparr>]"] exI [of _ ws'])
       (auto simp: awaiting_def)
qed

text \<open>
  An answer reaches the request with its identifier, which leaves the queue; a packet that is to be written, an answer of our own with the peer's identifier,
  cannot stand in its way.
\<close>

lemma answer_to_its_request:
  assumes "queue_ok (cx_head cx)" and "cx_head cx = as @ r # bs" and "awaiting r"
    and "\<forall>x \<in> set as. ri_hopid x \<noteq> ri_hopid r" and "dm_init_packet pkt = Some grp" and "dm_hop2hop_id pkt = Some (ri_hopid r)"
  shows "process_reply env cx pkt = reply_callback env r (cx\<lparr>cx_head := as @ bs\<rparr>) DMCONFIG_ANSWER_READY (Some grp) \<and>
    queue_ok (as @ bs) \<and> (\<forall>x \<in> set as. awaiting x)"
proof -
  have f: "find_request (ri_hopid r) (as @ r # bs) = Some r" "remove_request (ri_hopid r) (as @ r # bs) = as @ bs"
    using assms(4) by (induction as) auto
  from assms(1) obtain rs ws where q: "as @ r # bs = rs @ ws" "\<forall>r \<in> set rs. awaiting r" "\<forall>r \<in> set ws. ri_status r = REQUEST_SHALL_WRITE"
    by (auto simp: queue_ok_def assms(2))
  then obtain us where us: "rs = as @ r # us" "bs = us @ ws"
    using assms(3) by (auto simp: append_eq_append_conv2 Cons_eq_append_conv awaiting_def)
  then have "queue_ok (as @ bs)" "\<forall>x \<in> set as. awaiting x"
    using q(2,3) unfolding queue_ok_def by (auto intro: exI [of _ "as @ us"])
  with f assms show ?thesis by (simp add: process_reply_def awaiting_def)
qed

end
