(* ===== verification/Dm_Agent.thy ===== *)
theory Dm_Agent
  imports Dm_Rpc
begin

text \<open>
  The requests that the server sends to a client: the skeletons of \<^verbatim>\<open>libdmconfig/dm_dmclient_rpc_skel.c\<close> and the
  functions of \<^verbatim>\<open>libdmconfig/dm_dmclient_rpc_impl.c\<close> that a client program may replace. What the program does with a call is
  the parameter \<open>client_impl\<close>, on a state of its own.
\<close>

definition CMD_CLIENT_GET_INTERFACE_STATE :: u32 where "CMD_CLIENT_GET_INTERFACE_STATE = 1002"

record 'c client_impl =
  ci_active_notify :: "DM2_AVPGRP \<Rightarrow> 'c \<Rightarrow> (rc \<times> 'c) option"
  ci_event_broadcast :: "cstr \<Rightarrow> u32 \<Rightarrow> 'c \<Rightarrow> (rc \<times> 'c) option"
  ci_get_interface_state :: "cstr \<Rightarrow> DM2_REQUEST \<Rightarrow> 'c \<Rightarrow> (rc \<times> DM2_REQUEST \<times> 'c) option"
  ci_firmware_download :: "cstr \<Rightarrow> u8 \<Rightarrow> cstr \<Rightarrow> cstr \<Rightarrow> u32 \<Rightarrow> u8 \<Rightarrow> u32 \<Rightarrow> u32 \<Rightarrow> DM2_REQUEST \<Rightarrow> 'c \<Rightarrow>
    (rc \<times> DM2_REQUEST \<times> 'c) option"
  ci_firmware_commit :: "int \<Rightarrow> 'c \<Rightarrow> (rc \<times> 'c) option"
  ci_set_boot_order :: "cstr list \<Rightarrow> 'c \<Rightarrow> (rc \<times> 'c) option"

text \<open>The implementations that the library has for a program that does not bring its own.\<close>

definition default_impl :: "'c client_impl" where
  "default_impl = \<lparr>
     ci_active_notify = (\<lambda>_ u. Some (RC_OK, u)),
     ci_event_broadcast = (\<lambda>_ _ u. Some (RC_OK, u)),
     ci_get_interface_state = (\<lambda>_ answer u. Some (RC_OK, answer, u)),
     ci_firmware_download = (\<lambda>_ _ _ _ _ _ _ _ answer u. Some (RC_OK, answer, u)),
     ci_firmware_commit = (\<lambda>_ u. Some (RC_OK, u)),
     ci_set_boot_order = (\<lambda>_ u. Some (RC_OK, u))\<rparr>"

section \<open>Arguments\<close>

type_synonym 'c agent_res = "(DM_RESULT \<times> DM2_REQUEST \<times> 'c) option"

text \<open>The results of the program: one that writes to the answer, and one that does not.\<close>

definition spoken :: "(rc \<times> DM2_REQUEST \<times> 'c) option \<Rightarrow> 'c agent_res" where
  "spoken x = do { (r, answer, u) \<leftarrow> x; Some (as_result r, answer, u) }"

definition unspoken :: "DM2_REQUEST \<Rightarrow> (rc \<times> 'c) option \<Rightarrow> 'c agent_res" where
  "unspoken answer x = do { (r, u) \<leftarrow> x; Some (as_result r, answer, u) }"

definition rpc_client_active_notify_skel :: "'c client_impl \<Rightarrow> DM2_AVPGRP \<Rightarrow> 'c \<Rightarrow> (DM_RESULT \<times> 'c) option" where
  "rpc_client_active_notify_skel ci obj u = do { (r, u) \<leftarrow> ci_active_notify ci obj u; Some (as_result r, u) }"

definition rpc_client_event_broadcast_skel ::
  "(nat \<Rightarrow> bool) \<Rightarrow> 'c client_impl \<Rightarrow> DM2_AVPGRP \<Rightarrow> 'c \<Rightarrow> (DM_RESULT \<times> 'c) option" where
  "rpc_client_event_broadcast_skel mem ci obj u = (let fail = \<lambda>r. Some (r, u) in
     arg (dm_expect_string_type mem AVP_PATH VP_TRAVELPING obj) fail (\<lambda>p obj.
     arg (dm_expect_uint32_type AVP_EVENT_TYPE VP_TRAVELPING obj) fail (\<lambda>type obj.
     no_more obj fail (do { (r, u) \<leftarrow> ci_event_broadcast ci p type u; Some (as_result r, u) }))))"

definition rpc_client_get_interface_state_skel ::
  "(nat \<Rightarrow> bool) \<Rightarrow> 'c client_impl \<Rightarrow> DM2_AVPGRP \<Rightarrow> DM2_REQUEST \<Rightarrow> 'c \<Rightarrow> 'c agent_res" where
  "rpc_client_get_interface_state_skel mem ci obj answer u = (let fail = \<lambda>r. Some (r, answer, u) in
     arg (dm_expect_string_type mem AVP_STRING VP_TRAVELPING obj) fail (\<lambda>if_name obj.
     no_more obj fail (spoken (ci_get_interface_state ci if_name answer u))))"

definition rpc_agent_firmware_download_skel ::
  "(nat \<Rightarrow> bool) \<Rightarrow> 'c client_impl \<Rightarrow> DM2_AVPGRP \<Rightarrow> DM2_REQUEST \<Rightarrow> 'c \<Rightarrow> 'c agent_res" where
  "rpc_agent_firmware_download_skel mem ci obj answer u =
    (let fail = \<lambda>r. Some (r, answer, u); string = dm_expect_string_type mem AVP_STRING VP_TRAVELPING;
         byte = dm_expect_uint8_type AVP_UINT8 VP_TRAVELPING; number = dm_expect_uint32_type AVP_UINT32 VP_TRAVELPING in
     arg (string obj) fail (\<lambda>address obj.
     arg (byte obj) fail (\<lambda>credentialstype obj.
     arg (string obj) fail (\<lambda>credential obj.
     arg (string obj) fail (\<lambda>install_target obj.
     arg (number obj) fail (\<lambda>timeframe obj.
     arg (byte obj) fail (\<lambda>retry_count obj.
     arg (number obj) fail (\<lambda>retry_interval obj.
     arg (number obj) fail (\<lambda>retry_interval_increment obj.
     no_more obj fail (spoken
       (ci_firmware_download ci address credentialstype credential install_target timeframe
          retry_count retry_interval retry_interval_increment answer u)))))))))))"

definition rpc_agent_firmware_commit_skel ::
  "'c client_impl \<Rightarrow> DM2_AVPGRP \<Rightarrow> DM2_REQUEST \<Rightarrow> 'c \<Rightarrow> 'c agent_res" where
  "rpc_agent_firmware_commit_skel ci obj answer u = (let fail = \<lambda>r. Some (r, answer, u) in
     arg (dm_expect_int32_type AVP_INT32 VP_TRAVELPING obj) fail (\<lambda>job_id obj.
     no_more obj fail (unspoken answer (ci_firmware_commit ci job_id u))))"

partial_function (option) agent_boot_names ::
  "(nat \<Rightarrow> bool) \<Rightarrow> DM2_AVPGRP \<Rightarrow> cstr list \<Rightarrow> (DM_RESULT \<times> cstr list) option" where
  "agent_boot_names mem obj names =
     (if \<not> grows mem sizeof_char_ptr (length names) then Some (DM_RC RC_ERR_ALLOC, names)
      else do {
        (r, v, obj) \<leftarrow> dm_expect_string_type mem AVP_STRING VP_TRAVELPING obj;
        if r \<noteq> RC_OK then Some (as_result r, names)
        else do {
          b \<leftarrow> v;
          if dm_expect_end obj \<noteq> RC_OK then agent_boot_names mem obj (names @ [b]) else Some (DM_OK, names @ [b]) } })"

definition rpc_agent_set_boot_order_skel ::
  "(nat \<Rightarrow> bool) \<Rightarrow> 'c client_impl \<Rightarrow> DM2_AVPGRP \<Rightarrow> DM2_REQUEST \<Rightarrow> 'c \<Rightarrow> 'c agent_res" where
  "rpc_agent_set_boot_order_skel mem ci obj answer u = do {
     (r, names) \<leftarrow> agent_boot_names mem obj [];
     if r \<noteq> DM_OK then Some (r, answer, u) else unspoken answer (ci_set_boot_order ci names u) }"

declare agent_boot_names.simps [code]

section \<open>The switch\<close>

text \<open>The code of the three firmware commands is dropped: \<open>rc\<close> keeps the value that it had before.\<close>

definition agent_dispatch ::
  "(nat \<Rightarrow> bool) \<Rightarrow> 'c client_impl \<Rightarrow> u32 \<Rightarrow> DM2_AVPGRP \<Rightarrow> DM2_REQUEST \<Rightarrow> 'c \<Rightarrow> 'c agent_res" where
  "agent_dispatch mem ci code obj answer u = (
     if code = CMD_CLIENT_GET_INTERFACE_STATE then rpc_client_get_interface_state_skel mem ci obj answer u
     else if code = CMD_FIRMWARE_DOWNLOAD
     then do { (_, answer, u) \<leftarrow> rpc_agent_firmware_download_skel mem ci obj answer u; Some (DM_OK, answer, u) }
     else if code = CMD_FIRMWARE_COMMIT
     then do { (_, answer, u) \<leftarrow> rpc_agent_firmware_commit_skel ci obj answer u; Some (DM_OK, answer, u) }
     else if code = CMD_SET_BOOT_ORDER
     then do { (_, answer, u) \<leftarrow> rpc_agent_set_boot_order_skel mem ci obj answer u; Some (DM_OK, answer, u) }
     else Some (DM_RC RC_ERR_CONNECTION, answer, u))"

definition rpc_dmclient_switch ::
  "(nat \<Rightarrow> bool) \<Rightarrow> 'c client_impl \<Rightarrow> DMC_REQUEST \<Rightarrow> DM2_AVPGRP \<Rightarrow> 'c \<Rightarrow> (DM_RESULT \<times> DM2_REQUEST option \<times> 'c) option" where
  "rpc_dmclient_switch mem ci req obj u =
     (if dr_code req = CMD_CLIENT_ACTIVE_NOTIFY
      then do { (r, u) \<leftarrow> rpc_client_active_notify_skel ci obj u; Some (r, None, u) }
      else if dr_code req = CMD_CLIENT_EVENT_BROADCAST
      then do { (r, u) \<leftarrow> rpc_client_event_broadcast_skel mem ci obj u; Some (r, None, u) }
      else do {
        q \<leftarrow> dm_new_request mem (mem sizeof_DM2_REQUEST) (dr_code req) 0 (dr_hop2hop req) (dr_end2end req);
        case q of
          None \<Rightarrow> Some (DM_RC RC_ERR_ALLOC, None, u)
        | Some answer \<Rightarrow> do {
            (pos, r, answer) \<leftarrow> dm_add_uint32_get_pos mem answer AVP_RC VP_TRAVELPING (rc_number RC_OK);
            if r \<noteq> RC_OK then Some (as_result r, Some answer, u)
            else do {
              (r, answer, u) \<leftarrow> agent_dispatch mem ci (dr_code req) obj answer u;
              if r \<noteq> DM_RC RC_ERR_ALLOC
              then do {
                answer \<leftarrow> dm_put_uint32_at_pos answer pos (result_number r);
                (r, answer) \<leftarrow> dm_finalize_packet answer;
                Some (as_result r, Some answer, u) }
              else Some (r, Some answer, u) } } })"

section \<open>The agent's code is lost\<close>

text \<open>
  Whatever the agent's function for one of the firmware commands returns, and whether the arguments can be read or not, the
  answer that goes back says that the command has succeeded.
\<close>

lemma agent_code_dropped:
  assumes "code \<in> {CMD_FIRMWARE_DOWNLOAD, CMD_FIRMWARE_COMMIT, CMD_SET_BOOT_ORDER}"
    and "agent_dispatch mem ci code obj answer u = Some (r, answer', u')"
  shows "r = DM_OK"
  using assms
  by (auto simp: agent_dispatch_def CMD_CLIENT_GET_INTERFACE_STATE_def CMD_FIRMWARE_DOWNLOAD_def CMD_FIRMWARE_COMMIT_def
                 CMD_SET_BOOT_ORDER_def bind_Some_iff)

end
