(* ===== verification/Dm_Agent_Props.thy ===== *)
theory Dm_Agent_Props
  imports Dm_Agent Dm_Call_Props Dm_Frames
begin

text \<open>
  Messages from the server to its clients: an event that the server announces calls the client's function with the
  same path and type; and what the encoder builds is what the connection carries.
\<close>

section \<open>Messages are packets\<close>

lemma built_packet_proper:
  assumes "20 + length (encs ts) < 2 ^ 24"
  shows "proper (packet_hdr code flags appid hop endid (20 + length (encs ts)) @ encs ts)"
proof -
  have "unat (of_nat (20 + length (encs ts)) :: u32) = 20 + length (encs ts)" using assms by (simp add: unat_of_nat del: of_nat_add)
  then show ?thesis
    using header_fields(1) [OF assms, of code flags appid hop endid "encs ts"]
    by (simp add: proper_def sizeof_dm_packet_def del: of_nat_add)
qed

text \<open>What a stub queues is carried by the connection as one packet.\<close>

lemma stub_packet_proper:
  assumes "\<And>n. mem n" and "writes mem args ts" and "\<forall>t \<in> set ts. depth t < 16" and "20 + length (encs ts) < 2 ^ 24"
  obtains pkt where "stub mem code args = Some (RC_OK, Some pkt)" and "proper (on_wire pkt)"
  using received_request [where mem = mem, OF assms] built_packet_proper [OF assms(4)] by metis

section \<open>Events\<close>

lemma event_broadcast_stub:
  assumes "\<And>n. se_mem se n" and "stub (se_mem se) CMD_CLIENT_EVENT_BROADCAST
    [\<lambda>q. dm_add_string (se_mem se) q AVP_PATH VP_TRAVELPING nm,
     \<lambda>q. dm_add_uint32 (se_mem se) q AVP_EVENT_TYPE VP_TRAVELPING type] = Some (RC_OK, Some pkt)"
  shows "rpc_event_broadcast se c nm type sent = Some (RC_OK, sent @ [(c, pkt)])"
proof -
  have m: "se_mem se k = True" for k using assms(1) by simp
  show ?thesis
    using assms(2) unfolding stub_def rpc_event_broadcast_def
    by (auto simp: m dm_enqueue_def bind_Some_iff split: option.split_asm prod.split_asm if_split_asm)
qed

text \<open>
  C9: An announced event reaches the clients. The message that the server queues for a client when an element changes is one packet, and when the client receives
  it, the client's function for events is called with the path and the type of the change; its code is the code of the call, and no answer is sent.
\<close>

theorem broadcast_reaches_client:
  assumes "\<And>n. se_mem se n" and "\<And>n. mem n" and "c_string nm" and "ci_event_broadcast ci nm type u = Some (r, u')"
  shows "\<exists>pkt grp code. rpc_event_broadcast se c nm type sent = Some (RC_OK, sent @ [(c, pkt)]) \<and> proper (on_wire pkt) \<and>
    dm_packet_flags (on_wire pkt) = Some CMD_FLAG_REQUEST \<and> dm_packet_code (on_wire pkt) = Some code \<and>
    dm_init_packet (on_wire pkt) = Some grp \<and>
    rpc_dmclient_switch mem ci \<lparr>dr_hop2hop = hop, dr_end2end = endid, dr_code = code\<rparr> grp u = Some (as_result r, None, u')"
proof -
  let ?ts = "[Avp AVP_PATH VP_TRAVELPING nm, Avp AVP_EVENT_TYPE VP_TRAVELPING (htonl type)]"
  let ?args = "[\<lambda>q. dm_add_string (se_mem se) q AVP_PATH VP_TRAVELPING nm,
     \<lambda>q. dm_add_uint32 (se_mem se) q AVP_EVENT_TYPE VP_TRAVELPING type]"
  have w: "writes (se_mem se) ?args ?ts" by (auto simp: add_as_tree intro!: writes_Cons)
  have "length (encs ?ts) \<le> sum_list (map (\<lambda>t. case t of Avp c v d \<Rightarrow> length d + 15 | Grp c v us \<Rightarrow> 0) ?ts)"
    by (rule flat_size) auto
  then have small: "20 + length (encs ?ts) < 2 ^ 24" using assms(3) by (simp add: c_string_def htonl_def)
  obtain pkt where pkt: "stub (se_mem se) CMD_CLIENT_EVENT_BROADCAST ?args = Some (RC_OK, Some pkt)"
    and wire: "on_wire pkt = packet_hdr CMD_CLIENT_EVENT_BROADCAST CMD_FLAG_REQUEST APP_ID 0 0 (20 + length (encs ?ts)) @ encs ?ts"
    using received_request [where mem = "se_mem se", OF assms(1) w _ small] by auto
  obtain grp where grp: "dm_init_packet (on_wire pkt) = Some grp" and at: "at_avps grp ?ts"
    using received_at [OF small] unfolding wire by blast
  obtain g1 where g1: "dm_expect_string_type mem AVP_PATH VP_TRAVELPING grp = Some (RC_OK, Some nm, g1)"
    and at1: "at_avps g1 [Avp AVP_EVENT_TYPE VP_TRAVELPING (htonl type)]"
    using expect_string_at [where mem = mem, OF at] assms(2,3) by (auto simp: c_string_def)
  obtain g2 where g2: "dm_expect_uint32_type AVP_EVENT_TYPE VP_TRAVELPING g1 = Some (RC_OK, Some type, g2)" "at_avps g2 []"
    using expect_numbers_at(1) [OF at1] by blast
  have switch: "rpc_dmclient_switch mem ci \<lparr>dr_hop2hop = hop, dr_end2end = endid, dr_code = CMD_CLIENT_EVENT_BROADCAST\<rparr> grp u =
      Some (as_result r, None, u')"
    using g1 g2 assms(4)
    by (simp add: rpc_dmclient_switch_def rpc_client_event_broadcast_skel_def expect_end_at
        CMD_CLIENT_EVENT_BROADCAST_def CMD_CLIENT_ACTIVE_NOTIFY_def)
  note fields = header_fields [OF small, of CMD_CLIENT_EVENT_BROADCAST CMD_FLAG_REQUEST APP_ID 0 0 "encs ?ts"]
  have "dm_packet_code (on_wire pkt) = Some CMD_CLIENT_EVENT_BROADCAST" "dm_packet_flags (on_wire pkt) = Some CMD_FLAG_REQUEST"
    using fields unfolding wire by (simp_all add: CMD_CLIENT_EVENT_BROADCAST_def)
  moreover have "proper (on_wire pkt)" using built_packet_proper [OF small] unfolding wire by blast
  ultimately show ?thesis
    using event_broadcast_stub [where se = se, OF assms(1) pkt] grp switch by blast
qed

theorem broadcast_reaches_client_witness:
  "\<exists>pkt grp code. rpc_event_broadcast example_env 3 (map of_char ''a.b'') 1 [] = Some (RC_OK, [] @ [(3, pkt)]) \<and> proper (on_wire pkt) \<and>
    dm_packet_flags (on_wire pkt) = Some CMD_FLAG_REQUEST \<and> dm_packet_code (on_wire pkt) = Some code \<and>
    dm_init_packet (on_wire pkt) = Some grp \<and>
    rpc_dmclient_switch (\<lambda>_. True) (default_impl\<lparr>ci_event_broadcast := \<lambda>p t u. Some (RC_OK, u @ [(p, t)])\<rparr>)
      \<lparr>dr_hop2hop = 0, dr_end2end = 0, dr_code = code\<rparr> grp [] = Some (as_result RC_OK, None, [(map of_char ''a.b'', 1)])"
proof -
  have "\<And>n. se_mem example_env n" by (simp add: example_env_def)
  moreover have "c_string (map of_char ''a.b'')" by (simp add: c_string_def)
  ultimately show ?thesis
    by (intro broadcast_reaches_client [where mem = "\<lambda>_. True"]) simp_all
qed

end
