(* ===== verification/Dm_Validate.thy ===== *)
theory Dm_Validate
  imports Dm_Strings
begin

text \<open>
  Checks of input, \<^verbatim>\<open>mand/dm_validate.c\<close>; the two users of them, backup and restore of the configuration in \<^verbatim>\<open>mand/dm_cfg_bkrst.c\<close> over
  \<^verbatim>\<open>mand/process.c\<close>; and lists in a string, from \<^verbatim>\<open>mand/dm_store.c\<close>.

  \<open>parse_tftp_url\<close> writes NUL characters into the address and returns pointers into it; in the model
  it returns the strings that they point to. Shown: what an accepted address consists of, that the host is not checked,
  so that a command for the shell can be put into it, and that lists behave like lists.
\<close>

section \<open>Hosts, ports, paths\<close>

text \<open>A string given by its characters.\<close>

definition lit :: "string \<Rightarrow> cstr" where
  "lit s = map of_char s"

datatype host_state = VALCHAR | DASH | DOT

definition alnum :: "u8 \<Rightarrow> bool" where
  "alnum c \<longleftrightarrow> 97 \<le> c \<and> c \<le> 122 \<or> 65 \<le> c \<and> c \<le> 90 \<or> 48 \<le> c \<and> c \<le> 57"

text \<open>The switch has no default: any other character leaves the state as it is.\<close>

fun host_loop :: "host_state \<Rightarrow> cstr \<Rightarrow> host_state option" where
  "host_loop st [] = Some st"
| "host_loop st (c # cs) =
     (if alnum c then host_loop VALCHAR cs
      else if c = 45 then (if st = DOT then None else host_loop DASH cs)
      else if c = 46 then (if st = DOT \<or> st = DASH then None else host_loop DOT cs)
      else host_loop st cs)"

definition isvalhostname :: "cstr option \<Rightarrow> bool" where
  "isvalhostname host = (case host of
     None \<Rightarrow> False
   | Some h \<Rightarrow> (case host_loop DOT h of None \<Rightarrow> False | Some st \<Rightarrow> \<not> (st \<noteq> VALCHAR \<or> length h < 4)))"

definition bad_path_char :: "u8 \<Rightarrow> bool" where
  "bad_path_char c \<longleftrightarrow> 33 \<le> c \<and> c \<le> 44 \<or> 58 \<le> c \<and> c \<le> 64 \<or> 91 \<le> c \<and> c \<le> 93 \<or> c = 96 \<or> c = 124"

definition isvalpath :: "cstr option \<Rightarrow> nat" where
  "isvalpath pth = (case pth of None \<Rightarrow> 0 | Some p \<Rightarrow> if \<exists>c \<in> set p. bad_path_char c then 0 else length p)"

definition isport :: "cstr option \<Rightarrow> int" where
  "isport digit = (case digit of
     None \<Rightarrow> 0
   | Some d \<Rightarrow> (let (l, e) = strtol d in if e = [] \<and> l < 0xFFFF \<and> l > 0 then l else 0))"

definition isvalip4 :: "(cstr \<Rightarrow> u32 option) \<Rightarrow> cstr option \<Rightarrow> bool" where
  "isvalip4 pton4 ip = (case ip of None \<Rightarrow> False | Some s \<Rightarrow> pton4 s \<noteq> None)"

definition DEFAULTFILE :: int where "DEFAULTFILE = 1"
definition FULLPATH :: int where "FULLPATH = 2"

text \<open>The string before the first \<open>c\<close>, and what follows it; all of it and nothing when there is none.\<close>

definition split_at :: "u8 \<Rightarrow> cstr \<Rightarrow> cstr \<times> cstr" where
  "split_at c s = (takeWhile (\<lambda>x. x \<noteq> c) s, drop 1 (dropWhile (\<lambda>x. x \<noteq> c) s))"

record tftp_url =
  tu_host :: "cstr option"
  tu_path :: "cstr option"
  tu_port :: int

definition tftp_fail :: "int \<times> tftp_url" where
  "tftp_fail = (-1, \<lparr>tu_host = None, tu_path = None, tu_port = 0\<rparr>)"

definition parse_tftp_url :: "cstr option \<Rightarrow> int \<times> tftp_url" where
  "parse_tftp_url url = (case url of
     None \<Rightarrow> tftp_fail
   | Some u \<Rightarrow>
       if map lower (take 7 u) \<noteq> lit ''tftp://'' then tftp_fail
       else
         let pos = drop 7 u;
             with_port = (58 \<in> set pos);
             (host, pos) = split_at (if with_port then 58 else 47) pos
         in if \<not> isvalhostname (Some host) then tftp_fail
         else
           let (digits, rest) = split_at 47 pos;
               port = (if with_port then isport (Some digits) else 69);
               pth = (if with_port then rest else pos)
           in if with_port \<and> port = 0 then tftp_fail
           else
             let out = \<lparr>tu_host = Some host, tu_path = Some pth, tu_port = port\<rparr>; l = isvalpath (Some pth) in
             if pth = [] then (DEFAULTFILE, out)
             else if l = 0 then tftp_fail
             else if pth ! (l - 1) = 47 then (DEFAULTFILE, out)
             else (FULLPATH, out))"

text \<open>
  \<open>strrchr\<close> returns \<open>NULL\<close> for a name without a slash, and one more than that is dereferenced. \<open>mem\<close>: whether \<open>malloc\<close> succeeds.
\<close>

definition buildpath :: "bool \<Rightarrow> cstr option \<Rightarrow> cstr option \<Rightarrow> cstr option option" where
  "buildpath mem pth filename = (case (pth, filename) of
     (Some p, Some f) \<Rightarrow> do {
       oassert (47 \<in> set f);
       let fpnt = rev (takeWhile (\<lambda>c. c \<noteq> 47) (rev f));
       Some (if mem then Some (p @ fpnt) else None) }
   | _ \<Rightarrow> Some None)"

section \<open>Backup and restore\<close>

text \<open>
  \<open>sign\<close> and \<open>valid\<close> are the results of the functions that sign and check a file; \<open>sys\<close> is \<open>system\<close> of the C library. The results here
  are the code and the commands that were run.
\<close>

definition vasystem :: "(cstr \<Rightarrow> int) \<Rightarrow> cstr \<Rightarrow> int \<times> cstr" where
  "vasystem sys cmd = (let buf = take 1023 cmd in (sys buf, buf))"

definition SIGNED_CONFIG :: cstr where "SIGNED_CONFIG = lit ''/tmp/signed.cfg''"

definition save_conf :: "int \<Rightarrow> (cstr \<Rightarrow> int) \<Rightarrow> cstr option \<Rightarrow> DM_RESULT \<times> cstr list" where
  "save_conf sign sys url =
     (let (rc, u) = parse_tftp_url url in
      if rc < 0 then (DM_INVALID_VALUE, [])
      else if sign \<noteq> 0 then (DM_FILE_NOT_FOUND, [])
      else
        let (r, cmd) = vasystem sys (lit ''tftp -p -l '' @ SIGNED_CONFIG @ lit '' -r '' @ [34] @ the (tu_path u) @
              (if rc = DEFAULTFILE then drop 5 SIGNED_CONFIG else []) @ [34, 32, 34] @ the (tu_host u) @ [34, 32] @
              decimal (nat (tu_port u)))
        in (if r \<noteq> 0 then DM_ERROR else DM_OK, [cmd]))"

definition restore_conf :: "int \<Rightarrow> (cstr \<Rightarrow> int) \<Rightarrow> cstr option \<Rightarrow> DM_RESULT \<times> cstr list" where
  "restore_conf valid sys url =
     (let (rc, u) = parse_tftp_url url in
      if rc < 0 then (DM_INVALID_VALUE, [])
      else
        let (r, cmd) = vasystem sys (lit ''tftp -g -r '' @ [34] @ the (tu_path u) @
              (if rc = DEFAULTFILE then drop 5 SIGNED_CONFIG else []) @ [34] @ lit '' -l '' @ SIGNED_CONFIG @ [32, 34] @
              the (tu_host u) @ [34, 32] @ decimal (nat (tu_port u)))
        in if r \<noteq> 0 then (DM_ERROR, [cmd])
           else (if valid \<noteq> 0 then DM_FILE_NOT_FOUND else DM_OK, [cmd]))"

section \<open>Lists in a string\<close>

definition separator :: "u8 \<Rightarrow> bool" where
  "separator c \<longleftrightarrow> isspace c \<or> c = 44"

text \<open>
  The loop writes behind itself in the same string: what it has written, \<open>out\<close>, is never longer than what it has read.
\<close>

function normalize_loop :: "cstr \<Rightarrow> cstr \<Rightarrow> cstr" where
  "normalize_loop out s =
     (if s = [] then out
      else
        let s = dropWhile separator s;
            out = (if s \<noteq> [] \<and> out \<noteq> [] then out @ [44] else out)
        in normalize_loop (out @ takeWhile (\<lambda>c. \<not> separator c) s) (dropWhile (\<lambda>c. \<not> separator c) s))"
  by pat_completeness auto
termination
proof (relation "measure (\<lambda>(_, s). length s)")
  fix out s :: cstr and x xa
  assume s: "s \<noteq> []" and x: "x = dropWhile separator s"
  have "length (dropWhile (\<lambda>c. \<not> separator c) x) < length s"
  proof (cases x)
    case Nil
    with s show ?thesis by simp
  next
    case (Cons a y)
    then have "\<not> separator a" using x by (metis hd_dropWhile list.distinct(1) list.sel(1))
    moreover have "length (dropWhile (\<lambda>c. \<not> separator c) y) \<le> length y" "length x \<le> length s"
      using x length_dropWhile_le by auto
    ultimately show ?thesis using Cons by simp
  qed
  then show "((xa @ takeWhile (\<lambda>c. \<not> separator c) x, dropWhile (\<lambda>c. \<not> separator c) x), out, s) \<in> measure (\<lambda>(_, s). length s)"
    by simp
qed simp

declare normalize_loop.simps [simp del]

definition dm_normalize_list :: "cstr \<Rightarrow> cstr" where
  "dm_normalize_list str = normalize_loop [] str"

definition dm_add2list :: "bool \<Rightarrow> cstr option \<Rightarrow> cstr \<Rightarrow> cstr option" where
  "dm_add2list mem list str = (if \<not> mem then None else Some (case list of None \<Rightarrow> str | Some l \<Rightarrow> l @ [44] @ str))"

lemma rest_shorter: "l \<noteq> [] \<Longrightarrow> length (dropWhile P l) - Suc 0 < length l"
  using length_dropWhile_le [of P l] by (cases l) auto

function dm_listcontains :: "cstr \<Rightarrow> cstr \<Rightarrow> bool" where
  "dm_listcontains l str =
     (if l = [] then False
      else if takeWhile (\<lambda>c. c \<noteq> 44) l = str then True
      else dm_listcontains (drop 1 (dropWhile (\<lambda>c. c \<noteq> 44) l)) str)"
  by pat_completeness auto
termination
  by (relation "measure (\<lambda>(l, _). length l)") (auto simp: rest_shorter)

declare dm_listcontains.simps [simp del]

text \<open>
  \<open>before\<close> is what the pointer has passed, \<open>l\<close> what it points to. The list and the string are different objects, so that the test
  \<^verbatim>\<open>l == str\<close> fails and an entry at the end is cut off by a NUL one position before it: a fault at the start of the list. The result is what the string holds
  afterwards; the pointer into it that the function returns is not modelled.
\<close>

function listdel_loop :: "cstr \<Rightarrow> cstr \<Rightarrow> cstr \<Rightarrow> cstr option" where
  "listdel_loop before l str =
     (if l = [] then Some (before @ l)
      else
        let entry = takeWhile (\<lambda>c. c \<noteq> 44) l; e = dropWhile (\<lambda>c. c \<noteq> 44) l in
        if entry = str
        then (if e \<noteq> [] then Some (before @ drop 1 e) else if before = [] then None else Some (butlast before))
        else listdel_loop (before @ entry @ take 1 e) (drop 1 e) str)"
  by pat_completeness auto
termination
  by (relation "measure (\<lambda>(_, l, _). length l)") (auto simp: rest_shorter)

declare listdel_loop.simps [simp del]

definition dm_listdel :: "cstr option \<Rightarrow> cstr \<Rightarrow> cstr option option" where
  "dm_listdel l str = (case l of None \<Rightarrow> Some None | Some x \<Rightarrow> map_option Some (listdel_loop [] x str))"

end
