(* ===== verification/Dm_Validate_Props.thy ===== *)
theory Dm_Validate_Props
  imports Dm_Validate Dm_Strings_Props
begin

text \<open>
  What the checks of input accept, the commands that backup and restore run, and lists in a string as lists of words.
\<close>

section \<open>Addresses\<close>

definition fine_host :: "cstr \<Rightarrow> bool" where
  "fine_host h \<longleftrightarrow> isvalhostname (Some h) \<and> 58 \<notin> set h \<and> 47 \<notin> set h"

lemma isport_range: "isport d \<noteq> 0 \<Longrightarrow> 0 < isport d \<and> isport d < 65535"
  by (auto simp: isport_def split: option.split_asm prod.split_asm if_split_asm)

lemma isport_decimal: "0 < n \<Longrightarrow> n < 65535 \<Longrightarrow> isport (Some (decimal n)) = int n"
  using scan_decimal [of "[]" n] by (simp add: isport_def strtol_def)

lemma split_at_append: "c \<notin> set a \<Longrightarrow> split_at c (a @ c # b) = (a, b)"
  by (induction a) (auto simp: split_at_def)

lemma split_at_none: "c \<notin> set a \<Longrightarrow> split_at c a = (a, [])"
  by (induction a) (auto simp: split_at_def)

definition tftp_code :: "cstr \<Rightarrow> int" where
  "tftp_code p = (if p = [] \<or> last p = 47 then DEFAULTFILE else FULLPATH)"

lemma parse_tail:
  "(if p = [] then (DEFAULTFILE, out) else if isvalpath (Some p) = 0 then tftp_fail
    else if p ! (isvalpath (Some p) - 1) = 47 then (DEFAULTFILE, out) else (FULLPATH, out)) =
   (if \<exists>c \<in> set p. bad_path_char c then tftp_fail else (tftp_code p, out))"
  by (auto simp: isvalpath_def last_conv_nth tftp_code_def)

text \<open>
  What an accepted address consists of. The host has at least four characters and the port is between 1 and 65534; no character of the path is one of the
  excluded ones; the result says whether the file name is missing. A refused address
  leaves no host, no path and no port.
\<close>

theorem parse_tftp_url_sound:
  assumes "parse_tftp_url url = (rc, u)"
  shows "rc = -1 \<and> tu_host u = None \<and> tu_path u = None \<and> tu_port u = 0 \<or>
    (\<exists>h p. tu_host u = Some h \<and> tu_path u = Some p \<and> isvalhostname (Some h) \<and> 4 \<le> length h \<and>
      0 < tu_port u \<and> tu_port u < 65535 \<and> (\<forall>c \<in> set p. \<not> bad_path_char c) \<and>
      rc = tftp_code p)"
proof -
  have "isvalhostname (Some h) \<Longrightarrow> 4 \<le> length h" for h
    by (auto simp: isvalhostname_def split: option.split_asm)
  with assms show ?thesis
    unfolding parse_tftp_url_def Let_def parse_tail
    by (auto simp: tftp_fail_def dest: isport_range split: option.split_asm if_split_asm prod.split_asm)
qed

theorem parse_tftp_url_sound_witness:
  "parse_tftp_url (Some (lit ''tftp://10.0.0.1:70/a/b'')) = (2, \<lparr>tu_host = Some (lit ''10.0.0.1''), tu_path = Some (lit ''a/b''), tu_port = 70\<rparr>) \<and>
   (\<exists>h p. tu_host \<lparr>tu_host = Some (lit ''10.0.0.1''), tu_path = Some (lit ''a/b''), tu_port = 70\<rparr> = Some h \<and>
     isvalhostname (Some h) \<and> 4 \<le> length h)"
proof -
  have e: "parse_tftp_url (Some (lit ''tftp://10.0.0.1:70/a/b'')) =
    (2, \<lparr>tu_host = Some (lit ''10.0.0.1''), tu_path = Some (lit ''a/b''), tu_port = 70\<rparr>)" by code_simp
  from parse_tftp_url_sound [OF e] e show ?thesis by auto
qed

text \<open>
  An address that is put together from its parts is taken apart into them: a host that passes the check and has no
  colon and no slash, a port from 1 to 65534, and a path that is not empty and has no excluded character.
\<close>

theorem tftp_url_roundtrip:
  assumes "fine_host h" and "0 < n" and "n < 65535" and "p \<noteq> []" and "\<forall>c \<in> set p. \<not> bad_path_char c"
  shows "parse_tftp_url (Some (lit ''tftp://'' @ h @ [58] @ decimal n @ [47] @ p)) =
    (if last p = 47 then DEFAULTFILE else FULLPATH, \<lparr>tu_host = Some h, tu_path = Some p, tu_port = int n\<rparr>)"
proof -
  let ?u = "lit ''tftp://'' @ h @ [58] @ decimal n @ [47] @ p"
  have u: "take 7 ?u = lit ''tftp://''" "drop 7 ?u = h @ 58 # decimal n @ 47 # p" "map lower (lit ''tftp://'') = lit ''tftp://''"
    by (simp_all add: lit_def lower_def)
  have d: "47 \<notin> set (decimal n)"
  proof
    assume "47 \<in> set (decimal n)"
    then obtain k where k: "k < 10" "(47 :: u8) = of_nat (48 + k)" using decimal_digits by blast
    then have "k \<in> {0, 1, 2, 3, 4, 5, 6, 7, 8, 9}" by auto
    with k(2) show False by auto
  qed
  have h: "58 \<notin> set h" "isvalhostname (Some h)" using assms(1) by (auto simp: fine_host_def)
  show ?thesis
    unfolding parse_tftp_url_def Let_def parse_tail option.case u
    using split_at_append [OF h(1), of "decimal n @ 47 # p"] split_at_append [OF d, of p] h(2) isport_decimal [OF assms(2,3)] assms(2,4,5)
    by (simp add: tftp_code_def)
qed

theorem tftp_url_roundtrip_witness:
  "parse_tftp_url (Some (lit ''tftp://'' @ lit ''10.0.0.1'' @ [58] @ decimal 69 @ [47] @ lit ''dm.xml'')) =
    (if last (lit ''dm.xml'') = 47 then DEFAULTFILE else FULLPATH,
     \<lparr>tu_host = Some (lit ''10.0.0.1''), tu_path = Some (lit ''dm.xml''), tu_port = int 69\<rparr>)"
proof (rule tftp_url_roundtrip)
  show "fine_host (lit ''10.0.0.1'')" "lit ''dm.xml'' \<noteq> []" "\<forall>c \<in> set (lit ''dm.xml''). \<not> bad_path_char c"
    by code_simp+
qed simp_all

section \<open>The host is not checked\<close>

lemma host_loop_other:
  "\<forall>c \<in> set w. c \<noteq> 45 \<and> c \<noteq> 46 \<Longrightarrow> \<exists>st'. host_loop st (w @ r) = host_loop st' r \<and> (st = VALCHAR \<longrightarrow> st' = VALCHAR)"
  by (induction w arbitrary: st) auto

text \<open>
  C40: Backup hands any text to the shell. Between two letters the host may contain everything but a dash, a dot, a colon and a slash: quotes, semicolons
  and dollar signs pass the check, and the command that is run contains the text unchanged, although the comment before it says that no such character is permitted.
\<close>

theorem host_reaches_shell:
  assumes "\<forall>c \<in> set w. c \<noteq> 45 \<and> c \<noteq> 46 \<and> c \<noteq> 58 \<and> c \<noteq> 47" and "2 \<le> length w" and "length w \<le> 900"
  shows "\<exists>a b. save_conf 0 sys (Some (lit ''tftp://a'' @ w @ lit ''b'')) =
    (if sys (a @ w @ b) \<noteq> 0 then DM_ERROR else DM_OK, [a @ w @ b])"
proof -
  let ?h = "lit ''a'' @ w @ lit ''b''"
  let ?u = "lit ''tftp://a'' @ w @ lit ''b''"
  have u: "take 7 ?u = lit ''tftp://''" "drop 7 ?u = ?h" "map lower (lit ''tftp://'') = lit ''tftp://''"
    by (simp_all add: lit_def lower_def)
  obtain st' where "host_loop VALCHAR (w @ lit ''b'') = host_loop st' (lit ''b'')"
    using host_loop_other [of w VALCHAR "lit ''b''"] assms(1) by blast
  then have h: "isvalhostname (Some ?h)" using assms(2) by (simp add: isvalhostname_def lit_def alnum_def)
  have n: "58 \<notin> set ?h" "47 \<notin> set ?h" using assms(1) by (auto simp: lit_def)
  let ?out = "\<lparr>tu_host = Some ?h, tu_path = Some [], tu_port = 69\<rparr>"
  have p: "parse_tftp_url (Some ?u) = (DEFAULTFILE, ?out)"
    unfolding parse_tftp_url_def Let_def parse_tail option.case u
    using h n split_at_none [OF n(2)] by (simp add: tftp_code_def)
  let ?a = "lit ''tftp -p -l '' @ SIGNED_CONFIG @ lit '' -r '' @ [34] @ drop 5 SIGNED_CONFIG @ [34, 32, 34] @ lit ''a''"
  let ?b = "lit ''b'' @ [34, 32] @ decimal 69"
  have d: "decimal 69 = [54, 57]" by code_simp
  have "length (?a @ w @ ?b) \<le> 1023" using assms(3) by (simp add: d lit_def SIGNED_CONFIG_def)
  then have "save_conf 0 sys (Some ?u) = (if sys (?a @ w @ ?b) \<noteq> 0 then DM_ERROR else DM_OK, [?a @ w @ ?b])"
    unfolding save_conf_def p by (simp add: vasystem_def DEFAULTFILE_def Let_def)
  then show ?thesis by blast
qed

theorem host_reaches_shell_witness:
  "\<exists>a b. save_conf 0 (\<lambda>_. 0) (Some (lit ''tftp://a'' @ ([34, 59] @ lit ''reboot'' @ [59, 34]) @ lit ''b'')) =
    (if (0::int) \<noteq> 0 then DM_ERROR else DM_OK, [a @ ([34, 59] @ lit ''reboot'' @ [59, 34]) @ b])"
proof (rule host_reaches_shell)
  show "\<forall>c \<in> set ([34, 59] @ lit ''reboot'' @ [59, 34]). c \<noteq> 45 \<and> c \<noteq> 46 \<and> c \<noteq> 58 \<and> c \<noteq> 47" by code_simp
qed (simp_all add: lit_def)

section \<open>Lists in a string\<close>

fun join_words :: "cstr list \<Rightarrow> cstr" where
  "join_words [] = []"
| "join_words [e] = e"
| "join_words (e # es) = e @ 44 # join_words es"

definition entry :: "cstr \<Rightarrow> bool" where
  "entry e \<longleftrightarrow> e \<noteq> [] \<and> (\<forall>c \<in> set e. \<not> separator c)"

function words :: "cstr \<Rightarrow> cstr list" where
  "words s = (let s = dropWhile separator s in
     if s = [] then [] else takeWhile (\<lambda>c. \<not> separator c) s # words (dropWhile (\<lambda>c. \<not> separator c) s))"
  by pat_completeness auto
termination
proof (relation "measure length")
  fix s x :: cstr
  assume x: "x = dropWhile separator s" and ne: "x \<noteq> []"
  then obtain a y where a: "x = a # y" "\<not> separator a" by (metis hd_dropWhile list.exhaust list.sel(1))
  have "length (dropWhile (\<lambda>c. \<not> separator c) y) \<le> length y" "length x \<le> length s"
    using x length_dropWhile_le by auto
  then show "(dropWhile (\<lambda>c. \<not> separator c) x, s) \<in> measure length" using a by simp
qed simp

declare words.simps [simp del]

lemma entry_no_comma: "entry e \<Longrightarrow> 44 \<notin> set e"
  by (auto simp: entry_def separator_def)

lemma take_entry:
  assumes "44 \<notin> set e"
  shows "takeWhile (\<lambda>c. c \<noteq> 44) e = e" "dropWhile (\<lambda>c. c \<noteq> 44) e = []"
    "takeWhile (\<lambda>c. c \<noteq> 44) (e @ 44 # r) = e" "dropWhile (\<lambda>c. c \<noteq> 44) (e @ 44 # r) = 44 # r"
  using assms by (induction e) auto

lemma listcontains_join: "\<forall>e \<in> set es. entry e \<Longrightarrow> dm_listcontains (join_words es) s \<longleftrightarrow> s \<in> set es"
proof (induction es rule: join_words.induct)
  case 1
  then show ?case by (simp add: dm_listcontains.simps [of "[]"])
next
  case (2 e)
  then have "e \<noteq> []" "44 \<notin> set e" by (auto simp: entry_def separator_def)
  then show ?case
    by (simp add: dm_listcontains.simps [of e] dm_listcontains.simps [of "[]"] take_entry)
next
  case (3 e f es)
  then have "44 \<notin> set e" using entry_no_comma by auto
  with 3 show ?case
    by (simp add: dm_listcontains.simps [of "e @ 44 # r" for r] take_entry)
qed

lemma listdel_join:
  "\<forall>e \<in> set es. entry e \<Longrightarrow> before = [] \<or> (\<exists>b. before = b @ [44]) \<Longrightarrow>
   listdel_loop before (join_words es) s =
     (if s \<notin> set es then Some (before @ join_words es)
      else if es = [s] then (if before = [] then None else Some (butlast before))
      else Some (before @ join_words (remove1 s es)))"
proof (induction es arbitrary: before rule: join_words.induct)
  case 1
  then show ?case by (simp add: listdel_loop.simps [of _ "[]"])
next
  case (2 e)
  then have "e \<noteq> []" "44 \<notin> set e" by (auto simp: entry_def separator_def)
  then show ?case
    by (simp add: listdel_loop.simps [of _ e] listdel_loop.simps [of _ "[]"] take_entry)
next
  case (3 e f es)
  then have e: "44 \<notin> set e" using entry_no_comma by auto
  show ?case
  proof (cases "e = s")
    case True
    have "join_words (e # f # es) = e @ 44 # join_words (f # es)" by simp
    with True e show ?thesis by (simp add: listdel_loop.simps [of _ "s @ 44 # r" for r] take_entry)
  next
    case False
    then have step: "listdel_loop before (join_words (e # f # es)) s = listdel_loop (before @ e @ [44]) (join_words (f # es)) s"
      using e by (simp add: listdel_loop.simps [of _ "e @ 44 # r" for r] take_entry)
    have "before @ e @ [44] = [] \<or> (\<exists>b. before @ e @ [44] = b @ [44])" by auto
    with "3.IH" [of "before @ e @ [44]"] "3.prems" False show ?thesis
      unfolding step
      by (cases es) (auto simp: butlast_append remove1_append)
  qed
qed

lemma join_snoc: "es \<noteq> [] \<Longrightarrow> join_words (es @ [e]) = join_words es @ 44 # e"
  by (induction es rule: join_words.induct) auto

lemma normalize_words:
  "out = join_words ws \<Longrightarrow> \<forall>w \<in> set ws. w \<noteq> [] \<Longrightarrow> normalize_loop out s = join_words (ws @ words s)"
proof (induction s arbitrary: out ws rule: words.induct)
  case (1 s)
  show ?case
  proof (cases "dropWhile separator s")
    case Nil
    show ?thesis
      using "1.prems" by (simp add: normalize_loop.simps [of _ s] normalize_loop.simps [of _ "[]"] words.simps [of s] Nil)
  next
    case (Cons a y)
    let ?w = "takeWhile (\<lambda>c. \<not> separator c) (a # y)"
    let ?r = "dropWhile (\<lambda>c. \<not> separator c) (a # y)"
    have a: "\<not> separator a" using Cons by (metis hd_dropWhile list.distinct(1) list.sel(1))
    have out: "out = [] \<longleftrightarrow> ws = []" using "1.prems" by (cases ws rule: join_words.cases) auto
    have j: "(if out \<noteq> [] then out @ [44] else out) @ ?w = join_words (ws @ [?w])"
      using out "1.prems"(1) join_snoc [of ws ?w] by (cases "ws = []") auto
    have "s \<noteq> []" using Cons by auto
    then have "normalize_loop out s = normalize_loop ((if out \<noteq> [] then out @ [44] else out) @ ?w) ?r"
      using Cons by (simp add: normalize_loop.simps [of out s] Let_def)
    also have "\<dots> = join_words ((ws @ [?w]) @ words ?r)"
      unfolding j by (rule "1.IH") (use Cons a "1.prems"(2) in auto)
    also have "\<dots> = join_words (ws @ words s)" using Cons by (simp add: words.simps [of s])
    finally show ?thesis .
  qed
qed

lemma words_join: "\<forall>e \<in> set es. entry e \<Longrightarrow> words (join_words es) = es"
proof (induction es rule: join_words.induct)
  case 1
  then show ?case by (simp add: words.simps [of "[]"])
next
  case (2 e)
  then obtain a y where e: "e = a # y" "\<forall>c \<in> set e. \<not> separator c" by (cases e) (auto simp: entry_def)
  then have w: "takeWhile (\<lambda>c. \<not> separator c) e = e" "dropWhile (\<lambda>c. \<not> separator c) e = []" "dropWhile separator e = e" by auto
  have "e \<noteq> []" using e(1) by simp
  then show ?case by (simp add: words.simps [of e] words.simps [of "[]"] w)
next
  case (3 e f es)
  then obtain a y where e: "e = a # y" "\<forall>c \<in> set e. \<not> separator c" by (cases e) (auto simp: entry_def)
  let ?r = "44 # join_words (f # es)"
  have sep: "separator 44" by (simp add: separator_def)
  have "takeWhile (\<lambda>c. \<not> separator c) (e @ ?r) = e" "dropWhile (\<lambda>c. \<not> separator c) (e @ ?r) = ?r" "dropWhile separator (e @ ?r) = e @ ?r"
    using e sep by (simp_all add: takeWhile_append dropWhile_append)
  moreover have "words ?r = words (join_words (f # es))" using sep by (simp add: words.simps [of ?r] words.simps [of "join_words (f # es)"])
  moreover have "words (join_words (f # es)) = f # es" using 3 by simp
  ultimately show ?case by (simp add: words.simps [of "e @ ?r"])
qed

text \<open>
  C36: A string with commas implements a list of words. A search, an insertion and a deletion on the string of a list are those on
  the list, except that the deletion of the only word writes in front of the string, and faults; normalizing any string gives the string of its
  words, and changes nothing when it is one.
\<close>

theorem list_string_refines:
  assumes "\<forall>e \<in> set es. entry e"
  shows "(dm_listcontains (join_words es) w \<longleftrightarrow> w \<in> set es) \<and>
    (es \<noteq> [] \<longrightarrow> dm_add2list True (Some (join_words es)) w = Some (join_words (es @ [w]))) \<and>
    dm_add2list True None w = Some (join_words [w]) \<and>
    dm_listdel (Some (join_words es)) w = (if es = [w] then None else Some (Some (join_words (remove1 w es)))) \<and>
    dm_normalize_list s = join_words (words s) \<and> dm_normalize_list (join_words es) = join_words es"
proof -
  have n: "dm_normalize_list s = join_words (words s)" for s
    using normalize_words [of "[]" "[]" s] by (simp add: dm_normalize_list_def)
  have "dm_listdel (Some (join_words es)) w = (if es = [w] then None else Some (Some (join_words (remove1 w es))))"
    using listdel_join [OF assms, of "[]" w] by (auto simp: dm_listdel_def remove1_idem)
  then show ?thesis
    using listcontains_join [OF assms] n words_join [OF assms] by (auto simp: dm_add2list_def join_snoc)
qed

theorem list_string_refines_witness:
  "dm_listdel (Some (join_words [lit ''ab'', lit ''c''])) (lit ''c'') = Some (Some (join_words [lit ''ab''])) \<and>
   dm_listdel (Some (join_words [lit ''c''])) (lit ''c'') = None"
proof -
  have e: "\<forall>e \<in> set [lit ''ab'', lit ''c'']. entry e" "\<forall>e \<in> set [lit ''c'']. entry e" by code_simp+
  have "remove1 (lit ''c'') [lit ''ab'', lit ''c''] = [lit ''ab'']" by code_simp
  then show ?thesis using list_string_refines [OF e(1), of "lit ''c''"] list_string_refines [OF e(2), of "lit ''c''"] by auto
qed

end
