(* ===== verification/Dm_Serialize.thy ===== *)
theory Dm_Serialize
  imports Dm_Walk Dm_Avp Dm_Validate
begin

text \<open>
  Writing the store as XML, \<^verbatim>\<open>mand/dm_serialize.c\<close>. The stream is the text written so far. Writes
  to it do not fail. Times and addresses are printed by functions that are a parameter, \<open>ser_fkts\<close>: \<open>ticks2str\<close>, the realtime clock, and \<open>inet_ntop\<close> for the two
  families. A plain \<^verbatim>\<open>char\<close> is signed.
\<close>

section \<open>Text\<close>

record ser_fkts =
  sf_ticks2str :: "u64 \<Rightarrow> cstr"
  sf_ticks2realtime :: "u64 \<Rightarrow> u64"
  sf_ntop4 :: "u32 \<Rightarrow> cstr"
  sf_ntop6 :: "128 word \<Rightarrow> cstr"

definition S_SYS :: u32 where "S_SYS = push_bit 2 1"
definition CFG_VERSION :: nat where "CFG_VERSION = 1"
definition XML_INDENT :: cstr where "XML_INDENT = lit ''    ''"

definition findent :: "int \<Rightarrow> cstr" where
  "findent level = concat (replicate (nat level) XML_INDENT)"

text \<open>\<open>cend\<close> counts the characters of an end of a CDATA section.\<close>

fun validate_loop :: "cstr \<Rightarrow> int \<Rightarrow> nat \<Rightarrow> int" where
  "validate_loop [] r cend = r"
| "validate_loop (c # cs) r cend =
     (let r = (if c > 122 \<or> c < 32 then r OR 2 else r) in
      if c = 60 \<or> c = 38 then validate_loop cs (r OR 1) 0
      else if c = 93 then validate_loop cs r (cend + 1)
      else if c = 62 then (if cend + 1 > 2 then -1 else validate_loop cs (r OR 1) (cend + 1))
      else validate_loop cs r 0)"

definition validate_cdata :: "cstr \<Rightarrow> int" where
  "validate_cdata str = validate_loop str 0 0"

text \<open>\<^verbatim>\<open>%03o\<close> of an \<^verbatim>\<open>int\<close>, and \<^verbatim>\<open>%02X\<close> of a byte.\<close>

fun octal :: "nat \<Rightarrow> cstr" where
  "octal n = (if n < 8 then [of_nat (48 + n)] else octal (n div 8) @ [of_nat (48 + n mod 8)])"

declare octal.simps [simp del]

definition octal_min3 :: "nat \<Rightarrow> cstr" where
  "octal_min3 n = (let d = octal n in replicate (3 - length d) 48 @ d)"

definition char_as_unsigned :: "u8 \<Rightarrow> nat" where
  "char_as_unsigned c = unat (scast c :: u32)"

definition hex_digit :: "u8 \<Rightarrow> u8" where
  "hex_digit n = (if n < 10 then 48 + n else 55 + n)"

definition hex2 :: "u8 \<Rightarrow> cstr" where
  "hex2 c = [hex_digit (drop_bit 4 c), hex_digit (c AND 15)]"

definition open_tag :: "cstr \<Rightarrow> cstr \<Rightarrow> cstr" where
  "open_tag key nf = [60] @ key @ nf @ [62]"

definition close_tag :: "cstr \<Rightarrow> cstr" where
  "close_tag key = [60, 47] @ key @ [62, 10]"

definition xml_elem :: "cstr \<Rightarrow> cstr \<Rightarrow> cstr \<Rightarrow> cstr" where
  "xml_elem key nf body = open_tag key nf @ body @ close_tag key"

definition xml_empty :: "cstr \<Rightarrow> cstr \<Rightarrow> cstr" where
  "xml_empty key nf = [60] @ key @ nf @ lit '' />'' @ [10]"

definition escape_char :: "u8 \<Rightarrow> cstr" where
  "escape_char c =
     (if c > 122 \<or> c < 32 \<or> c = 60 \<or> c = 38 \<or> c = 62 then [92] @ octal_min3 (char_as_unsigned c) else [c])"

definition string_escape :: "cstr \<Rightarrow> cstr \<Rightarrow> cstr \<Rightarrow> cstr" where
  "string_escape key nf val = xml_elem key (nf @ lit '' encoding='' @ [34] @ lit ''escaped'' @ [34]) (concat (map escape_char val))"

definition binary_char :: "u8 \<Rightarrow> cstr" where
  "binary_char c =
     (if c = 60 then lit ''&lt;'' else if c = 38 then lit ''&amp;'' else if c = 62 then lit ''&gt;''
      else if c > 122 \<or> c < 32 then lit ''&#x'' @ hex2 c @ [59] else [c])"

definition serialize_binary :: "cstr \<Rightarrow> cstr \<Rightarrow> u8 list \<Rightarrow> cstr" where
  "serialize_binary key nf val = xml_elem key nf (concat (map binary_char val))"

definition sdecimal :: "int \<Rightarrow> cstr" where
  "sdecimal i = (if i < 0 then 45 # decimal (nat (- i)) else decimal (nat i))"

section \<open>Elements\<close>

definition notify_attr :: dm_enum where
  "notify_attr = \<lparr>en_cnt = 3, en_data = lit ''None'' @ [0] @ lit ''Passive'' @ [0] @ lit ''Active'' @ [0]\<rparr>"

definition string_element :: "cstr \<Rightarrow> cstr \<Rightarrow> cstr option \<Rightarrow> cstr" where
  "string_element key nf v = (case v of
     None \<Rightarrow> xml_empty key nf
   | Some x \<Rightarrow>
       if x = [] then xml_empty key nf
       else
         let r = validate_cdata x in
         if r = 0 then xml_elem key nf x
         else if r AND 2 = 2 then string_escape key nf x
         else if r AND 1 = 1 then xml_elem key nf (lit ''<![CDATA['' @ x @ lit '']]>'')
         else xml_elem key nf (lit ''invalid CDATA content''))"

text \<open>The lines of 64 characters of an encoded value.\<close>

definition base64_lines :: "int \<Rightarrow> u8 list \<Rightarrow> cstr" where
  "base64_lines indent data =
     (let buf = dm_to64 data; r = (length data + 3) * 4 div 3 in
      concat (map (\<lambda>i. findent (indent + 1) @ take 64 (drop (64 * i) buf) @ [10]) [0..<(r + 63) div 64]))"

definition serialize_element ::
  "dm_env \<Rightarrow> ser_fkts \<Rightarrow> int \<Rightarrow> dm_element \<Rightarrow> DM_VALUE \<Rightarrow> cstr \<times> dmst \<Rightarrow> (cstr \<times> dmst) option" where
  "serialize_element env sf indent elem value = (\<lambda>(out, s). do {
     let key = el_key elem;
     nf \<leftarrow> (if dv_notify value AND 3 \<noteq> 0
       then do {
         n \<leftarrow> dm_int2enum (Some notify_attr) (uint (dv_notify value AND 3));
         Some (take 63 (lit '' notify='' @ [34] @ n @ [34])) }
       else Some []);
     let line = (\<lambda>body. Some (out @ findent indent @ xml_elem key nf body, s));
     let empty = (\<lambda>s. Some (out @ findent indent @ xml_empty key nf, s));
     case el_type elem of
       T_BOOL \<Rightarrow> do { b \<leftarrow> DM_BOOL value; line (if b \<noteq> 0 then str_true else str_false) }
     | T_COUNTER \<Rightarrow> if dv_notify value AND 3 \<noteq> 0 then empty s else Some (out, s)
     | T_BINARY \<Rightarrow> do {
         p \<leftarrow> DM_BINARY value;
         b \<leftarrow> bin_of s p;
         case b of
           None \<Rightarrow> empty s
         | Some d \<Rightarrow> if d \<noteq> [] then Some (out @ findent indent @ serialize_binary key nf d, s) else empty s }
     | T_BASE64 \<Rightarrow> do {
         p \<leftarrow> DM_BINARY value;
         b \<leftarrow> bin_of s p;
         case b of
           None \<Rightarrow> empty s
         | Some d \<Rightarrow>
             if d = [] then empty s
             else (case malloc s of
                 (None, s) \<Rightarrow> empty s
               | (Some _, s) \<Rightarrow> Some (out @ findent indent @ open_tag key (nf @ [32]) @ [10] @ base64_lines indent d @
                                    findent indent @ close_tag key, s)) }
     | T_DATE \<Rightarrow> do { t \<leftarrow> DM_TIME value; line (sf_ticks2str sf (time2ticks t)) }
     | T_TICKS \<Rightarrow> do {
         t \<leftarrow> DM_TICKS value;
         line (if el_flags elem AND F_DATETIME \<noteq> 0 then sf_ticks2str sf (sf_ticks2realtime sf t) else sdecimal (sint t)) }
     | T_UINT \<Rightarrow> do { x \<leftarrow> DM_UINT value; line (decimal (unat x)) }
     | T_INT \<Rightarrow> do { x \<leftarrow> DM_INT value; line (sdecimal (sint x)) }
     | T_UINT64 \<Rightarrow> do { x \<leftarrow> DM_UINT64 value; line (decimal (unat x)) }
     | T_INT64 \<Rightarrow> do { x \<leftarrow> DM_INT64 value; line (sdecimal (sint x)) }
     | T_ENUM \<Rightarrow> do { en \<leftarrow> u_enum elem; x \<leftarrow> DM_ENUM value; n \<leftarrow> dm_int2enum (Some en) (sint x); line n }
     | T_STR \<Rightarrow> do {
         p \<leftarrow> DM_STRING value;
         v \<leftarrow> str_of s p;
         Some (out @ findent indent @ string_element key nf v, s) }
     | T_SELECTOR \<Rightarrow> do {
         p \<leftarrow> DM_SELECTOR value;
         v \<leftarrow> sel_of s p;
         n \<leftarrow> (case v of None \<Rightarrow> Some None | Some sl \<Rightarrow> dm_sel2name env sl MAX_PARAM_NAME_LEN);
         case n of None \<Rightarrow> empty s | Some n \<Rightarrow> line n }
     | T_IPADDR4 \<Rightarrow> do { a \<leftarrow> rd32 (dv_v value); line (take 16 (sf_ntop4 sf a)) }
     | T_IPADDR6 \<Rightarrow> do { a \<leftarrow> rd128 (dv_v value); line (take 46 (sf_ntop6 sf a)) }
     | _ \<Rightarrow> Some (out, s) })"

section \<open>The walk\<close>

record walk_data =
  wd_stream :: cstr
  wd_flags :: u32
  wd_indent :: int

definition serialize_walk_cb :: "dm_env \<Rightarrow> ser_fkts \<Rightarrow> walk_data walk_cb" where
  "serialize_walk_cb env sf type x elem value = (\<lambda>(w, s).
     let sys = (wd_flags w AND S_SYS \<noteq> 0);
         opened = (\<lambda>tag. Some (True, w\<lparr>wd_stream := wd_stream w @ findent (wd_indent w) @ tag, wd_indent := wd_indent w + 1\<rparr>, s))
     in
     if el_flags elem AND F_INTERNAL \<noteq> 0 then Some (True, w, s)
     else if dv_flags value AND (DV_UPDATED OR DV_NOTIFY) = 0 \<and> \<not> sys then Some (False, w, s)
     else case type of
       CB_object_instance_start \<Rightarrow>
         if x AND DM_ID_AUTO_OBJECT \<noteq> DM_ID_AUTO_OBJECT \<and> el_flags elem AND F_SYSTEM = 0 \<or> sys
         then opened (open_tag (el_key elem) (lit '' instance='' @ [39] @ decimal (unat x) @ [39]) @ [10])
         else Some (False, w, s)
     | CB_table_start \<Rightarrow>
         if el_flags elem AND F_SYSTEM = 0 \<or> sys
         then opened ((if el_flags elem AND F_VERSION \<noteq> 0
                 then open_tag (el_key elem) (lit '' version='' @ [34] @ decimal CFG_VERSION @ [34])
                 else open_tag (el_key elem) []) @ [10])
         else Some (False, w, s)
     | CB_table_end \<Rightarrow>
         Some (True, w\<lparr>wd_stream := wd_stream w @ findent (wd_indent w - 1) @ close_tag (el_key elem), wd_indent := wd_indent w - 1\<rparr>, s)
     | CB_object_instance_end \<Rightarrow>
         Some (True, w\<lparr>wd_stream := wd_stream w @ findent (wd_indent w - 1) @ close_tag (el_key elem), wd_indent := wd_indent w - 1\<rparr>, s)
     | CB_element \<Rightarrow>
         if el_flags elem AND F_WRITE \<noteq> 0 \<and> el_flags elem AND F_SYSTEM = 0 \<or> sys
         then do {
           (out, s) \<leftarrow> serialize_element env sf (wd_indent w) elem value (wd_stream w, s);
           Some (True, w\<lparr>wd_stream := out\<rparr>, s) }
         else Some (True, w, s)
     | _ \<Rightarrow> Some (True, w, s))"

definition xml_head :: cstr where
  "xml_head = lit ''<?xml version='' @ [34] @ lit ''1.0'' @ [34] @ lit '' encoding='' @ [34] @ lit ''UTF-8'' @ [34] @ lit ''?>'' @ [10]"

definition dm_serialize_store :: "dm_env \<Rightarrow> ser_fkts \<Rightarrow> u32 \<Rightarrow> cstr \<Rightarrow> dmst \<Rightarrow> (cstr \<times> dmst) option" where
  "dm_serialize_store env sf flags stream s = do {
     s \<leftarrow> dm_update_flags env s;
     let stream = stream @ xml_head @ open_tag (lit ''OpenCPE'') (lit '' version='' @ [34] @ decimal CFG_VERSION @ [34]) @ [10];
     (_, w, s) \<leftarrow> dm_walk_table_cb env (int DM_SELECTOR_LEN) (serialize_walk_cb env sf) (dm_root env) (dm_value_store s)
                   (\<lparr>wd_stream = stream, wd_flags = flags, wd_indent = 1\<rparr>, s);
     Some (wd_stream w @ close_tag (lit ''OpenCPE''), s) }"

definition dm_serialize_element ::
  "dm_env \<Rightarrow> ser_fkts \<Rightarrow> cstr option \<Rightarrow> u32 \<Rightarrow> cstr \<Rightarrow> dmst \<Rightarrow> (cstr \<times> dmst) option" where
  "dm_serialize_element env sf element flags stream s = do {
     n \<leftarrow> dm_name2sel env element;
     case n of
       None \<Rightarrow> Some (stream, s)
     | Some sel \<Rightarrow> do {
         s \<leftarrow> dm_update_flags env s;
         let stream = stream @ xml_head @ open_tag (lit ''data'') [] @ [10];
         (_, w, s) \<leftarrow> dm_walk_by_selector_cb env sel (int DM_SELECTOR_LEN) (serialize_walk_cb env sf)
                       (\<lparr>wd_stream = stream, wd_flags = flags, wd_indent = 1\<rparr>, s);
         Some (wd_stream w @ close_tag (lit ''data''), s) } }"

end
