(* ===== verification/Dm_Xml_Text.thy ===== *)
theory Dm_Xml_Text
  imports Dm_Serialize
begin

text \<open>
  Strings in the XML file. \<open>string_unescape\<close> of \<^verbatim>\<open>mand/dm_deserialize.c\<close> is the reader of what \<open>string_escape\<close> writes. Shown: which strings come back as
  they were, and which do not.
\<close>

section \<open>Reading escapes\<close>

text \<open>
  \<open>in_c\<close> counts the characters of an escape. Anything but an octal digit inside of an escape ends the loop. The
  string that the text is appended to ends at its first NUL.
\<close>

fun string_unescape_loop :: "nat \<Rightarrow> u8 \<Rightarrow> cstr \<Rightarrow> cstr" where
  "string_unescape_loop in_c c [] = []"
| "string_unescape_loop in_c c (x # xs) =
     (if in_c = 0 then (if x = 92 then string_unescape_loop 1 0 xs else x # string_unescape_loop 0 c xs)
      else if 48 \<le> x \<and> x \<le> 55
      then
        let c = push_bit 3 c OR (x - 48) in
        if in_c + 1 = 4 then c # string_unescape_loop 0 c xs else string_unescape_loop (in_c + 1) c xs
      else [])"

definition string_unescape :: "cstr \<Rightarrow> cstr \<Rightarrow> cstr" where
  "string_unescape text s = takeWhile (\<lambda>c. c \<noteq> 0) (text @ string_unescape_loop 0 0 s)"

section \<open>One character\<close>

lemma escape_digits: "n < 512 \<Longrightarrow> octal_min3 n = [of_nat (48 + n div 64), of_nat (48 + n div 8 mod 8), of_nat (48 + n mod 8)]"
proof -
  assume n: "n < 512"
  consider "n < 8" | "8 \<le> n" "n < 64" | "64 \<le> n" by linarith
  then show ?thesis
  proof cases
    case 1
    then have o: "octal n = [of_nat (48 + n)]" "n div 64 = 0" "n div 8 = 0" "n mod 8 = n" by (simp_all add: octal.simps [of n])
    have "replicate (3 - length [of_nat (48 + n) :: u8]) 48 = [48, 48 :: u8]" by (simp add: numeral_2_eq_2)
    then show ?thesis unfolding octal_min3_def o Let_def by simp
  next
    case 2
    then have "n div 8 < 8" "\<not> n < 8" "n div 64 = 0" by auto
    then show ?thesis by (simp add: octal_min3_def octal.simps [of n] octal.simps [of "n div 8"])
  next
    case 3
    then have *: "\<not> n < 8" "\<not> n div 8 < 8" "n div 8 div 8 < 8" "n div 8 div 8 = n div 64" using n by auto
    then show ?thesis
      by (simp add: octal_min3_def octal.simps [of n] octal.simps [of "n div 8"] octal.simps [of "n div 64"])
  qed
qed

lemma octal_bits:
  "\<forall>n \<in> set [0..<128]. push_bit 3 (push_bit 3 (of_nat (n div 64)) OR of_nat (n div 8 mod 8)) OR of_nat (n mod 8) = (of_nat n :: u8)"
  by code_simp

lemma octal_digit: "n < 8 \<Longrightarrow> (48 :: u8) \<le> of_nat (48 + n) \<and> of_nat (48 + n) \<le> (55 :: u8) \<and> of_nat (48 + n) - 48 = (of_nat n :: u8)"
proof -
  assume "n < 8"
  then have "n \<in> {0, 1, 2, 3, 4, 5, 6, 7}" by auto
  then show ?thesis by auto
qed

lemma char_small: "c < 128 \<Longrightarrow> char_as_unsigned c = unat c"
proof -
  assume c: "c < (128 :: u8)"
  have "list_all (\<lambda>n. unat (scast (of_nat n :: u8) :: u32) = n) [0..<128]" by code_simp
  moreover have "unat c \<in> set [0..<128]" using c by (simp add: word_less_nat_alt)
  ultimately have "unat (scast (of_nat (unat c) :: u8) :: u32) = unat c" unfolding list_all_iff using set_upt by blast
  then show ?thesis by (simp add: char_as_unsigned_def)
qed

lemma unescape_octal:
  assumes "c < 128"
  shows "string_unescape_loop 0 x ([92] @ octal_min3 (char_as_unsigned c) @ r) = c # string_unescape_loop 0 c r"
proof -
  let ?n = "unat c"
  have n: "?n < 128" using assms by (simp add: word_less_nat_alt)
  note d = octal_digit [of "?n div 64"] octal_digit [of "?n div 8 mod 8"] octal_digit [of "?n mod 8"]
  have bits: "push_bit 3 (push_bit 3 (of_nat (?n div 64)) OR of_nat (?n div 8 mod 8)) OR of_nat (?n mod 8) = c"
    using bspec [OF octal_bits, of ?n] n by simp
  show ?thesis
    unfolding char_small [OF assms] using escape_digits [of ?n] n d bits
    by (simp add: Let_def del: of_nat_add of_nat_numeral)
qed

lemma unescape_char:
  assumes "0 < c" and "c < 128" and "c \<noteq> 92"
  shows "\<exists>y. string_unescape_loop 0 x (escape_char c @ r) = c # string_unescape_loop 0 y r"
  using unescape_octal [OF assms(2)] assms(3) by (auto simp: escape_char_def)

text \<open>Escaping and reading back, for characters of seven bits other than the backslash.\<close>

lemma unescape_escaped:
  assumes "\<forall>c \<in> set s. 0 < c \<and> c < 128 \<and> c \<noteq> 92"
  shows "string_unescape_loop 0 x (concat (map escape_char s)) = s"
  using assms
proof (induction s arbitrary: x)
  case (Cons c s)
  then obtain y where "string_unescape_loop 0 x (escape_char c @ concat (map escape_char s)) = c # string_unescape_loop 0 y (concat (map escape_char s))"
    using unescape_char by (metis list.set_intros(1))
  with Cons show ?case by simp
qed simp

section \<open>The check\<close>

definition strange :: "u8 \<Rightarrow> bool" where
  "strange c \<longleftrightarrow> c > 122 \<or> c < 32"

definition markup :: "u8 \<Rightarrow> bool" where
  "markup c \<longleftrightarrow> c = 60 \<or> c = 38 \<or> c = 62"

definition check_code :: "bool \<Rightarrow> bool \<Rightarrow> int" where
  "check_code st mk = (if st then 2 else 0) + (if mk then 1 else 0)"

lemma check_code_or: "check_code st mk OR 2 = check_code True mk" "check_code st mk OR 1 = check_code st True"
  by (cases st; cases mk; simp add: check_code_def)+

lemma validate_spec:
  "validate_loop s (check_code st mk) cend =
     -1 \<or> validate_loop s (check_code st mk) cend = check_code (st \<or> (\<exists>c \<in> set s. strange c)) (mk \<or> (\<exists>c \<in> set s. markup c))"
proof (induction s arbitrary: st mk cend)
  case (Cons c s)
  have r: "(if c > 122 \<or> c < 32 then check_code st mk OR 2 else check_code st mk) = check_code (st \<or> strange c) mk"
    by (simp add: check_code_or strange_def)
  have step: "validate_loop (c # s) (check_code st mk) cend =
      (if c = 60 \<or> c = 38 then validate_loop s (check_code (st \<or> strange c) True) 0
       else if c = 93 then validate_loop s (check_code (st \<or> strange c) mk) (cend + 1)
       else if c = 62 then (if cend + 1 > 2 then -1 else validate_loop s (check_code (st \<or> strange c) True) (cend + 1))
       else validate_loop s (check_code (st \<or> strange c) mk) 0)"
    unfolding validate_loop.simps Let_def r by (simp add: check_code_or)
  have ex: "(\<exists>x \<in> set (c # s). P x) \<longleftrightarrow> P c \<or> (\<exists>x \<in> set s. P x)" for P by simp
  consider "c = 60 \<or> c = 38" | "c = 93" | "c = 62" | "\<not> markup c" "c \<noteq> 93" by (auto simp: markup_def)
  then show ?case
  proof cases
    case 1
    then have m: "markup c" by (auto simp: markup_def)
    show ?thesis unfolding step ex using 1 m Cons.IH [of "st \<or> strange c" True 0] by simp
  next
    case 2
    then have m: "\<not> markup c" by (simp add: markup_def)
    show ?thesis unfolding step ex using 2 m Cons.IH [of "st \<or> strange c" mk "cend + 1"] by simp
  next
    case 3
    then have m: "markup c" by (simp add: markup_def)
    show ?thesis unfolding step ex using 3 m Cons.IH [of "st \<or> strange c" True "cend + 1"] by simp
  next
    case 4
    then have "c \<noteq> 60" "c \<noteq> 38" "c \<noteq> 62" by (auto simp: markup_def)
    then show ?thesis unfolding step ex using 4 Cons.IH [of "st \<or> strange c" mk 0] by simp
  qed
qed simp

lemma validate_cdata_end: "validate_loop (a @ [93, 93, 62] @ b) r cend = -1"
  by (induction a arbitrary: r cend) (auto simp: Let_def)

section \<open>Strings come back\<close>

text \<open>
  What the XML parser is relied on for: it hands on text without markup as it is, and the contents of a CDATA section as they are.
\<close>

definition xml_reader :: "(cstr \<Rightarrow> cstr) \<Rightarrow> bool" where
  "xml_reader rd \<longleftrightarrow>
     (\<forall>b. (\<forall>c \<in> set b. \<not> markup c) \<longrightarrow> rd b = b) \<and>
     (\<forall>x. (\<nexists>a b. x = a @ [93, 93, 62] @ b) \<longrightarrow> rd (lit ''<![CDATA['' @ x @ lit '']]>'') = x)"

definition escaped_attr :: cstr where
  "escaped_attr = lit '' encoding='' @ [34] @ lit ''escaped'' @ [34]"

text \<open>The check returns zero or one for a string that need not be escaped.\<close>

definition survives :: "cstr \<Rightarrow> bool" where
  "survives s \<longleftrightarrow> (\<forall>c \<in> set s. 0 < c \<and> c < 128) \<and> (92 \<in> set s \<longrightarrow> validate_cdata s = 0 \<or> validate_cdata s = 1)"

lemma octal_no_markup: "c < 128 \<Longrightarrow> x \<in> set (octal_min3 (char_as_unsigned c)) \<Longrightarrow> 48 \<le> x \<and> x \<le> 55"
proof -
  assume c: "c < 128" and x: "x \<in> set (octal_min3 (char_as_unsigned c))"
  have n: "unat c < 128" using c by (simp add: word_less_nat_alt)
  then have "octal_min3 (unat c) = [of_nat (48 + unat c div 64), of_nat (48 + unat c div 8 mod 8), of_nat (48 + unat c mod 8)]"
    using escape_digits [of "unat c"] by simp
  then show ?thesis
    using x octal_digit [of "unat c div 64"] octal_digit [of "unat c div 8 mod 8"] octal_digit [of "unat c mod 8"] n
    unfolding char_small [OF c] by (auto simp del: of_nat_add)
qed

lemma escape_no_markup: "\<forall>c \<in> set s. c < 128 \<Longrightarrow> x \<in> set (concat (map escape_char s)) \<Longrightarrow> \<not> markup x"
proof -
  assume s: "\<forall>c \<in> set s. c < 128" and "x \<in> set (concat (map escape_char s))"
  then obtain c where c: "c \<in> set s" "x \<in> set (escape_char c)" by auto
  show ?thesis
  proof (cases "x = 92 \<or> x = c \<and> \<not> markup c")
    case True
    then show ?thesis by (auto simp: markup_def)
  next
    case False
    with c have "x \<in> set (octal_min3 (char_as_unsigned c))"
      by (auto simp: escape_char_def markup_def split: if_split_asm)
    with octal_no_markup [of c x] s c(1) have "48 \<le> x" "x \<le> 55" by simp_all
    then show ?thesis by (auto simp: markup_def)
  qed
qed

text \<open>
  A string that is written to the configuration file is read back as it was, whichever of the three forms the writer chooses for it: plain text, a CDATA section, or
  octal escapes. This holds for strings of seven-bit characters; one with a backslash must pass the check that decides about escapes.
\<close>

lemma string_forms:
  assumes "xml_reader rd" and "s \<noteq> []" and "survives s"
  shows "\<exists>attr body. string_element key nf (Some s) = xml_elem key (nf @ attr) body \<and>
    (attr = [] \<and> rd body = s \<or> attr = escaped_attr \<and> string_unescape [] (rd body) = s)"
proof -
  have plain: "rd b = b" if "\<forall>c \<in> set b. \<not> markup c" for b using assms(1) that by (simp add: xml_reader_def)
  have esc: ?thesis if "92 \<notin> set s" "string_element key nf (Some s) = string_escape key nf s"
  proof -
    let ?b = "concat (map escape_char s)"
    have ok: "\<forall>c \<in> set s. 0 < c \<and> c < 128 \<and> c \<noteq> 92" using assms(3) that(1) by (auto simp: survives_def)
    then have "\<forall>c \<in> set s. c < 128" by blast
    then have "\<forall>c \<in> set ?b. \<not> markup c" using escape_no_markup by blast
    then have "rd ?b = ?b" by (rule plain)
    moreover have "string_unescape [] ?b = s"
      using unescape_escaped [OF ok, of 0] ok by (auto simp: string_unescape_def takeWhile_eq_all_conv)
    moreover have "string_element key nf (Some s) = xml_elem key (nf @ escaped_attr) ?b"
      using that(2) by (simp add: string_escape_def escaped_attr_def)
    ultimately show ?thesis by metis
  qed
  have "validate_cdata s = -1 \<or> validate_cdata s = check_code (\<exists>c \<in> set s. strange c) (\<exists>c \<in> set s. markup c)"
    using validate_spec [of s False False 0] by (simp add: validate_cdata_def check_code_def)
  then consider "validate_cdata s = 0" "\<forall>c \<in> set s. \<not> markup c" | "validate_cdata s = 1" | "validate_cdata s \<in> {-1, 2, 3}"
    by (auto simp: check_code_def split: if_split_asm)
  then show ?thesis
  proof cases
    case 1
    then have "string_element key nf (Some s) = xml_elem key (nf @ []) s" using assms(2) by (simp add: string_element_def)
    then show ?thesis using plain [OF 1(2)] by blast
  next
    case 2
    then have "string_element key nf (Some s) = xml_elem key (nf @ []) (lit ''<![CDATA['' @ s @ lit '']]>'')"
      using assms(2) by (simp add: string_element_def)
    moreover have "\<nexists>a b. s = a @ [93, 93, 62] @ b"
      using 2 validate_cdata_end by (auto simp: validate_cdata_def)
    then have "rd (lit ''<![CDATA['' @ s @ lit '']]>'') = s" using assms(1) by (simp add: xml_reader_def)
    ultimately show ?thesis by blast
  next
    case 3
    then have "string_element key nf (Some s) = string_escape key nf s" using assms(2) by (auto simp: string_element_def)
    moreover have "92 \<notin> set s" using assms(3) 3 by (auto simp: survives_def)
    ultimately show ?thesis using esc by blast
  qed
qed

text \<open>A reader of these two forms.\<close>

definition plain_reader :: "cstr \<Rightarrow> cstr" where
  "plain_reader b = (if 60 \<in> set b then take (length b - 12) (drop 9 b) else b)"

lemma plain_reader_xml: "xml_reader plain_reader"
  by (auto simp: xml_reader_def plain_reader_def markup_def lit_def)

section \<open>Strings that do not come back\<close>

lemma octal_prefix: "0 < n div 8 ^ k \<Longrightarrow> \<exists>ds. octal n = octal (n div 8 ^ k) @ ds \<and> length ds = k \<and> (\<forall>d \<in> set ds. 48 \<le> d \<and> d \<le> 55)"
proof (induction k arbitrary: n)
  case (Suc k)
  have "n div 8 ^ Suc k = n div 8 div 8 ^ k" by (simp add: div_mult2_eq)
  moreover from this Suc.prems have "0 < n div 8 div 8 ^ k" by simp
  then obtain ds where ds: "octal (n div 8) = octal (n div 8 div 8 ^ k) @ ds" "length ds = k" "\<forall>d \<in> set ds. 48 \<le> d \<and> d \<le> 55"
    using Suc.IH by blast
  moreover have "\<not> n < 8" using \<open>0 < n div 8 div 8 ^ k\<close> by (metis div_0 div_less not_gr_zero)
  moreover have "48 \<le> (of_nat (48 + n mod 8) :: u8) \<and> of_nat (48 + n mod 8) \<le> (55 :: u8)" using octal_digit [of "n mod 8"] by simp
  ultimately show ?case by (intro exI [of _ "ds @ [of_nat (48 + n mod 8)]"]) (auto simp: octal.simps [of n] simp del: of_nat_add)
qed simp

lemma negative_char:
  assumes "c \<ge> 128"
  shows "\<exists>d ds. octal_min3 (char_as_unsigned c) = [51, 55, 55, d] @ ds \<and> 48 \<le> d \<and> d \<le> 55"
proof -
  have "list_all (\<lambda>n. drop_bit 24 (scast (of_nat n :: u8) :: u32) = 255) [128..<256]" by code_simp
  moreover have "128 \<le> unat c" "unat c < 256" using assms unsigned_less [of c, where ?'a = nat] by (simp_all add: word_le_nat_alt)
  then have "unat c \<in> set [128..<256]" unfolding set_upt atLeastLessThan_iff ..
  ultimately have "drop_bit 24 (scast (of_nat (unat c) :: u8) :: u32) = 255" unfolding list_all_iff by blast
  then have "unat (drop_bit 24 (scast c :: u32)) = 255" by simp
  then have n: "char_as_unsigned c div 8 ^ 8 = 255" unfolding char_as_unsigned_def unat_drop_bit_eq by (simp add: drop_bit_eq_div)
  then obtain ds where ds: "octal (char_as_unsigned c) = octal 255 @ ds" "length ds = 8" "\<forall>d \<in> set ds. 48 \<le> d \<and> d \<le> 55"
    using octal_prefix [of "char_as_unsigned c" 8] by auto
  moreover have "octal 255 = [51, 55, 55]" by code_simp
  moreover obtain d ds' where "ds = d # ds'" using ds(2) by (cases ds) auto
  ultimately show ?thesis by (auto simp: octal_min3_def)
qed

text \<open>
  The escapes are not inverted for all strings. The writer does not escape the backslash: a string with a backslash that is escaped for another reason is
  cut off there or changed. And it prints a character above 127, which is negative, with eleven digits, of which the reader takes three.
\<close>

theorem escapes_lose_text:
  "string_unescape [] (concat (map escape_char ([126, 92] @ s))) = [126] @ takeWhile (\<lambda>c. c \<noteq> 0) (string_unescape_loop 1 0 (concat (map escape_char s))) \<and>
   string_unescape [] (concat (map escape_char (lit ''~'' @ [92] @ lit ''tmp''))) = lit ''~'' \<and>
   (\<forall>c. c \<ge> 128 \<longrightarrow> string_unescape [] (escape_char c) \<noteq> [c])"
proof -
  have a: "escape_char 126 = [92, 49, 55, 54]" "escape_char 92 = [92]" by code_simp+
  have "string_unescape_loop 0 0 (concat (map escape_char ([126, 92] @ s))) = 126 # string_unescape_loop 1 0 (concat (map escape_char s))"
    by (simp add: a Let_def)
  then have 1: "string_unescape [] (concat (map escape_char ([126, 92] @ s))) =
      [126] @ takeWhile (\<lambda>c. c \<noteq> 0) (string_unescape_loop 1 0 (concat (map escape_char s)))"
    by (simp add: string_unescape_def)
  have 2: "string_unescape [] (concat (map escape_char (lit ''~'' @ [92] @ lit ''tmp''))) = lit ''~''" by code_simp
  have "string_unescape [] (escape_char c) \<noteq> [c]" if ge: "c \<ge> 128" for c
  proof -
    obtain d ds where d: "octal_min3 (char_as_unsigned c) = [51, 55, 55, d] @ ds" "48 \<le> d" "d \<le> 55" using negative_char [OF ge] by blast
    have "escape_char c = [92] @ octal_min3 (char_as_unsigned c)" using order.strict_trans2 [of 122 128 c] ge by (simp add: escape_char_def)
    then have "string_unescape_loop 0 0 (escape_char c) = 255 # string_unescape_loop 0 255 (d # ds)" by (simp add: d Let_def)
    moreover have "d \<noteq> 0" "d \<noteq> 92" using d by auto
    ultimately show ?thesis by (simp add: string_unescape_def)
  qed
  with 1 2 show ?thesis by blast
qed

theorem escapes_lose_text_witness:
  "(128 :: u8) \<ge> 128 \<and> string_unescape [] (escape_char 128) \<noteq> [128]"
  using escapes_lose_text by simp

text \<open>The parser may hand on a text in several pieces. An escape that is divided between two of them is lost.\<close>

lemma divided_escape_lost:
  "string_unescape [] (lit ''a'' @ [92] @ lit ''176b'') = lit ''a~b'' \<and>
   string_unescape (string_unescape [] (lit ''a'' @ [92] @ lit ''17'')) (lit ''6b'') = lit ''a6b''"
  by code_simp

end
