(* ===== verification/Dm_Deserialize.thy ===== *)
theory Dm_Deserialize
  imports Dm_Object Dm_Access Dm_Xml_Text
begin

text \<open>
  Reading the configuration file, \<^verbatim>\<open>mand/dm_deserialize.c\<close> and \<^verbatim>\<open>mand/dm_cfgversion.c\<close>. The XML parser is a parameter: fed with blocks of the file it
  reports start tags, pieces of text and end tags, which go to the handlers modelled here. So are the Lua functions
  that are called when the version of the file is another one; they get the store and return it.

  The array of ten states is the list \<open>xr_stack\<close>, with the current state first: a start tag when ten are in use writes behind the array and is a fault. The names
  that the states keep for messages are left out.
\<close>

section \<open>State\<close>

definition XML_VALID :: u32 where "XML_VALID = 1"
definition XML_ESCAPED :: u32 where "XML_ESCAPED = 2"
definition XML_UPGRADE :: u32 where "XML_UPGRADE = 4"
definition XML_ROOT :: u32 where "XML_ROOT = 8"

definition DS_USERCONFIG :: u16 where "DS_USERCONFIG = 2"
definition DS_VERSIONCHECK :: u16 where "DS_VERSIONCHECK = 4"

text \<open>A pointer to a value: to the root value, which is a local variable, or into the store.\<close>

datatype xml_ref = X_root | X_ref vref

record XMLstate =
  xs_element :: "dm_element option"
  xs_value :: "xml_ref option"
  xs_flags :: u32
  xs_text :: "cstr option"
  xs_inst :: bool
  xs_node :: ptr

definition zero_state :: XMLstate where
  "zero_state = \<lparr>xs_element = None, xs_value = None, xs_flags = 0, xs_text = None, xs_inst = False, xs_node = None\<rparr>"

text \<open>\<open>xr_flags\<close> is the static variable \<open>flags\<close>, \<open>xr_version\<close> the one of \<^verbatim>\<open>dm_cfgversion.c\<close>.\<close>

record xml_rd =
  xr_stack :: "XMLstate list"
  xr_root :: DM_VALUE
  xr_flags :: u16
  xr_version :: int

record xml_env =
  xe_text :: text_fkts
  xe_lua :: "cstr \<Rightarrow> int \<Rightarrow> int \<Rightarrow> dmst \<Rightarrow> dmst option"

type_synonym xst = "xml_rd \<times> dmst"

definition set_flag :: "u32 \<Rightarrow> XMLstate \<Rightarrow> XMLstate" where
  "set_flag f x = x\<lparr>xs_flags := xs_flags x OR f\<rparr>"

definition state_is :: "u32 \<Rightarrow> XMLstate \<Rightarrow> bool" where
  "state_is f x \<longleftrightarrow> xs_flags x AND f = f"

definition xget :: "xml_ref option \<Rightarrow> xst \<Rightarrow> DM_VALUE option" where
  "xget p st = (case p of None \<Rightarrow> None | Some X_root \<Rightarrow> Some (xr_root (fst st)) | Some (X_ref r) \<Rightarrow> getv (snd st) r)"

definition xput :: "xml_ref option \<Rightarrow> DM_VALUE \<Rightarrow> xst \<Rightarrow> xst option" where
  "xput p v = (\<lambda>(rd, s). case p of
     None \<Rightarrow> None
   | Some X_root \<Rightarrow> Some (rd\<lparr>xr_root := v\<rparr>, s)
   | Some (X_ref r) \<Rightarrow> do { s \<leftarrow> putv s r v; Some (rd, s) })"

definition dm_get_cfg_version :: "xml_rd \<Rightarrow> int" where
  "dm_get_cfg_version = xr_version"

definition dm_set_cfg_version :: "int \<Rightarrow> xml_rd \<Rightarrow> xml_rd" where
  "dm_set_cfg_version v rd = rd\<lparr>xr_version := v\<rparr>"

definition atoi :: "cstr \<Rightarrow> int" where
  "atoi s = sint (word_of_int (fst (strtol s)) :: u32)"

section \<open>Start tags\<close>

text \<open>The attributes: the instance, which ends the loop, the level of notification, whether the text is escaped, and the version.\<close>

record xml_atts =
  xa_xid :: int
  xa_ntfy :: int
  xa_escaped :: bool
  xa_version :: "int option"

fun read_atts :: "(cstr \<times> cstr) list \<Rightarrow> xml_atts \<Rightarrow> xml_atts option" where
  "read_atts [] a = Some a"
| "read_atts ((n, v) # atts) a =
     (if \<not> strcasecmp (lit ''instance'') n then Some (a\<lparr>xa_xid := atoi v\<rparr>)
      else if \<not> strcasecmp (lit ''notify'') n
      then do { i \<leftarrow> dm_enum2int (Some notify_attr) v; read_atts atts (a\<lparr>xa_ntfy := i\<rparr>) }
      else if \<not> strcasecmp (lit ''encoding'') n
      then read_atts atts (if \<not> strcasecmp v (lit ''escaped'') then a\<lparr>xa_escaped := True\<rparr> else a)
      else if \<not> strcasecmp (lit ''version'') n then read_atts atts (a\<lparr>xa_version := Some (atoi v)\<rparr>)
      else read_atts atts a)"

definition no_atts :: xml_atts where
  "no_atts = \<lparr>xa_xid = 0, xa_ntfy = 0, xa_escaped = False, xa_version = None\<rparr>"

definition with_version :: "xml_atts \<Rightarrow> xml_rd \<Rightarrow> xml_rd" where
  "with_version a rd = (case xa_version a of None \<Rightarrow> rd | Some v \<Rightarrow> dm_set_cfg_version v rd)"

text \<open>The row of an object element at \<open>r\<close>, added when it is not there; \<open>tb\<close> is the table of the element.\<close>

definition start_object ::
  "dm_env \<Rightarrow> u16 \<Rightarrow> dm_element \<Rightarrow> vref \<Rightarrow> value_table \<Rightarrow> dm_id \<Rightarrow> int \<Rightarrow> dmst \<Rightarrow> (addr \<times> dmst) option" where
  "start_object env flags kw r tb x xid s = do {
     v \<leftarrow> getv s r;
     inst \<leftarrow> DM_INSTANCE v;
     nd \<leftarrow> (if xid > 0 then dm_get_instance_node_by_id s inst (word_of_int xid) else Some None);
     case nd of
       Some a \<Rightarrow> Some (a, s)
     | None \<Rightarrow> do {
         basesel \<leftarrow> dm_selcpy no_selector (vt_id tb);
         basesel \<leftarrow> dm_selcat basesel x;
         (nd, s) \<leftarrow> dm_add_instance env kw r basesel (word_of_int xid) s;
         a \<leftarrow> nd;
         s \<leftarrow> (if flags AND DS_USERCONFIG \<noteq> 0
           then do { s \<leftarrow> or_flags s r DV_UPDATED; or_flags s (VNode a) DV_UPDATED }
           else Some s);
         Some (a, s) } }"

definition start_token :: "u16 \<Rightarrow> dm_element \<Rightarrow> vref \<Rightarrow> value_table \<Rightarrow> dm_id \<Rightarrow> dmst \<Rightarrow> dmst option" where
  "start_token flags kw r tb x s = do {
     v \<leftarrow> getv s r;
     t \<leftarrow> DM_TABLE v;
     if t \<noteq> None then Some s
     else do {
       kt \<leftarrow> u_table kw;
       kt \<leftarrow> kt;
       (q, s) \<leftarrow> dm_alloc_table kt (vt_id tb) x s;
       v \<leftarrow> getv s r;
       s \<leftarrow> putv s r (set_DM_TABLE v q);
       if flags AND DS_USERCONFIG \<noteq> 0 then or_flags s r DV_UPDATED else Some s } }"

text \<open>An element of the schema: the state of it, on top of the state \<open>par\<close> of the element around it.\<close>

definition start_known ::
  "dm_env \<Rightarrow> u16 \<Rightarrow> xml_atts \<Rightarrow> ptr \<Rightarrow> dm_element \<Rightarrow> dm_id \<Rightarrow> XMLstate \<Rightarrow> dmst \<Rightarrow> (XMLstate \<times> dmst) option" where
  "start_known env flags a t kw x new s = do {
     r \<leftarrow> dm_get_value_ref_by_id t x s;
     tb \<leftarrow> tab s t;
     let new = set_flag XML_VALID new\<lparr>xs_element := Some kw\<rparr>;
     (new, r, s) \<leftarrow> (case el_type kw of
         T_OBJECT \<Rightarrow> do {
           (nd, s) \<leftarrow> start_object env flags kw r tb x (xa_xid a) s;
           Some (new\<lparr>xs_inst := True, xs_node := Some nd\<rparr>, VNode nd, s) }
       | T_TOKEN \<Rightarrow> do { s \<leftarrow> start_token flags kw r tb x s; Some (new, r, s) }
       | _ \<Rightarrow> Some (new, r, s));
     let new = new\<lparr>xs_value := Some (X_ref r)\<rparr>;
     s \<leftarrow> (if xa_ntfy a \<ge> 0
       then do {
         v \<leftarrow> getv s r;
         (_, v) \<leftarrow> set_notify_single_slot_element kw v 0 (word_of_int (xa_ntfy a));
         putv s r v }
       else Some s);
     Some (new, s) }"

text \<open>The state of the schema's root, which the array holds from the beginning.\<close>

definition root_element :: "dm_env \<Rightarrow> dm_element" where
  "root_element env = Element [] T_TOKEN 0 0 (Fk_value \<lparr>vf_validate = None, vf_get = None, vf_set = None\<rparr>) (U_table (Some (dm_root env)) 0)"

definition root_state :: "dm_env \<Rightarrow> XMLstate" where
  "root_state env = zero_state\<lparr>xs_element := Some (root_element env), xs_value := Some X_root, xs_flags := XML_VALID\<rparr>"

definition startElement :: "dm_env \<Rightarrow> xml_env \<Rightarrow> cstr \<Rightarrow> (cstr \<times> cstr) list \<Rightarrow> xst \<Rightarrow> xst option" where
  "startElement env xe name atts = (\<lambda>(rd, s). case xr_stack rd of
     [] \<Rightarrow> None
   | par # rest \<Rightarrow> do {
       oassert (length (xr_stack rd) < 10);
       a \<leftarrow> read_atts atts no_atts;
       let is_root = state_is XML_ROOT par;
       let new = (if is_root then root_state env else zero_state);
       let new = (if xa_escaped a then set_flag XML_ESCAPED new else new);
       let rd = with_version a rd;
       if is_root
       then
         if xr_flags rd AND DS_VERSIONCHECK \<noteq> 0 \<and> dm_get_cfg_version rd \<noteq> int CFG_VERSION
         then do {
           s \<leftarrow> xe_lua xe (lit ''fncPreVersionCheck'') (int CFG_VERSION) (dm_get_cfg_version rd) s;
           Some (rd\<lparr>xr_stack := set_flag XML_UPGRADE new # par # rest\<rparr>, s) }
         else Some (rd\<lparr>xr_stack := new # par # rest\<rparr>, s)
       else if \<not> state_is XML_VALID par then Some (rd\<lparr>xr_stack := new # par # rest\<rparr>, s)
       else do {
         e \<leftarrow> xs_element par;
         kt \<leftarrow> u_table e;
         let x = dm_get_element_id_by_name name kt;
         if x = DM_ERR then Some (rd\<lparr>xr_stack := new # par # rest\<rparr>, s)
         else do {
           k \<leftarrow> kt;
           kw \<leftarrow> nth_opt (tab_elems k) (unat x - 1);
           v \<leftarrow> xget (xs_value par) (rd, s);
           t \<leftarrow> DM_TABLE v;
           (new, s) \<leftarrow> start_known env (xr_flags rd) a t kw x new s;
           Some (rd\<lparr>xr_stack := new # par # rest\<rparr>, s) } } })"

section \<open>Text and end tags\<close>

definition charElement :: "cstr \<Rightarrow> xst \<Rightarrow> xst option" where
  "charElement txt = (\<lambda>(rd, s). case xr_stack rd of
     [] \<Rightarrow> None
   | cur # rest \<Rightarrow>
       (case malloc s of
          (None, s) \<Rightarrow> Some (rd\<lparr>xr_stack := cur\<lparr>xs_text := None\<rparr> # rest\<rparr>, s)
        | (Some _, s) \<Rightarrow>
            let old = (case xs_text cur of None \<Rightarrow> [] | Some o' \<Rightarrow> o');
                now = (if state_is XML_ESCAPED cur then string_unescape old txt else old @ takeWhile (\<lambda>c. c \<noteq> 0) txt)
            in Some (rd\<lparr>xr_stack := cur\<lparr>xs_text := Some now\<rparr> # rest\<rparr>, s)))"

definition handleElement :: "dm_env \<Rightarrow> xml_env \<Rightarrow> XMLstate \<Rightarrow> xst \<Rightarrow> xst option" where
  "handleElement env xe cur = (\<lambda>(rd, s). do {
     v \<leftarrow> xget (xs_value cur) (rd, s);
     (_, v, s) \<leftarrow> dm_string2value env (xe_text xe) (xs_element cur) (xs_text cur) (xr_flags rd AND DS_USERCONFIG \<noteq> 0) v s;
     xput (xs_value cur) v (rd, s) })"

text \<open>The first test, of \<open>XML_ROOT\<close> against \<open>XML_VALID\<close>, always holds.\<close>

definition endElement :: "dm_env \<Rightarrow> xml_env \<Rightarrow> xst \<Rightarrow> xst option" where
  "endElement env xe = (\<lambda>(rd, s). case xr_stack rd of
     [] \<Rightarrow> None
   | cur # rest \<Rightarrow> do {
       oassert (rest \<noteq> []);
       (rd, s) \<leftarrow> (if xs_flags cur AND XML_ROOT \<noteq> XML_VALID \<and> state_is XML_VALID cur
         then do {
           (rd, s) \<leftarrow> handleElement env xe cur (rd, s);
           if xs_inst cur then do { nd \<leftarrow> xs_node cur; s \<leftarrow> update_instance_node_index nd s; Some (rd, s) }
           else Some (rd, s) }
         else Some (rd, s));
       s \<leftarrow> (if state_is XML_UPGRADE cur
         then xe_lua xe (lit ''fncPostVersionCheck'') (int CFG_VERSION) (dm_get_cfg_version rd) s
         else Some s);
       Some (rd\<lparr>xr_stack := rest\<rparr>, s) })"

section \<open>Files\<close>

datatype xml_event = X_start cstr "(cstr \<times> cstr) list" | X_chars cstr | X_end

fun xml_handle :: "dm_env \<Rightarrow> xml_env \<Rightarrow> xml_event \<Rightarrow> xst \<Rightarrow> xst option" where
  "xml_handle env xe (X_start name atts) st = startElement env xe name atts st"
| "xml_handle env xe (X_chars txt) st = charElement txt st"
| "xml_handle env xe X_end st = endElement env xe st"

text \<open>
  The parser: what it reports for a further block, whether that is the last one being told, and whether it goes on. \<^verbatim>\<open>BUFSIZ\<close> is 8192.
\<close>

type_synonym 'p parser = "'p \<Rightarrow> u8 list \<Rightarrow> bool \<Rightarrow> xml_event list \<times> bool \<times> 'p"

definition BUFSIZ :: nat where "BUFSIZ = 8192"

function parse_loop :: "dm_env \<Rightarrow> xml_env \<Rightarrow> 'p parser \<Rightarrow> 'p \<Rightarrow> u8 list \<Rightarrow> xst \<Rightarrow> (int \<times> xst) option" where
  "parse_loop env xe parse p stream st = (
     let buf = take BUFSIZ stream;
         last_one = (length buf < BUFSIZ);
         (evs, ok, p) = parse p buf last_one
     in do {
       st \<leftarrow> ofold (xml_handle env xe) evs st;
       if \<not> ok then Some (1, st)
       else if last_one then Some (0, st)
       else parse_loop env xe parse p (drop BUFSIZ stream) st })"
  by pat_completeness auto
termination
  by (relation "measure (\<lambda>(_, _, _, _, stream, _). length stream)") (auto simp: BUFSIZ_def)

declare parse_loop.simps [simp del]

definition bottom_state :: XMLstate where
  "bottom_state = zero_state\<lparr>xs_flags := XML_ROOT\<rparr>"

definition dm_deserialize_store ::
  "dm_env \<Rightarrow> xml_env \<Rightarrow> 'p parser \<Rightarrow> 'p \<Rightarrow> u16 \<Rightarrow> u8 list \<Rightarrow> int \<times> dmst \<Rightarrow> (int \<times> int \<times> dmst) option" where
  "dm_deserialize_store env xe parse p flags stream = (\<lambda>(version, s). do {
     s \<leftarrow> (if dm_value_store s = None
       then do { (q, s) \<leftarrow> dm_alloc_table (dm_root env) no_selector 0 s; Some (s\<lparr>dm_value_store := q\<rparr>) }
       else Some s);
     let rd = \<lparr>xr_stack = [bottom_state], xr_root = set_DM_TABLE zero_value (dm_value_store s), xr_flags = flags, xr_version = version\<rparr>;
     (r, rd, s) \<leftarrow> parse_loop env xe parse p stream (rd, s);
     Some (r, xr_version rd, s) })"

text \<open>\<open>files\<close>: what can be read under a name.\<close>

definition dm_deserialize_file ::
  "dm_env \<Rightarrow> xml_env \<Rightarrow> 'p parser \<Rightarrow> 'p \<Rightarrow> (cstr \<Rightarrow> u8 list option) \<Rightarrow> u16 \<Rightarrow> cstr \<Rightarrow> int \<times> dmst \<Rightarrow> (int \<times> int \<times> dmst) option" where
  "dm_deserialize_file env xe parse p files flags fname = (\<lambda>(version, s). case files fname of
     None \<Rightarrow> Some (1, version, s)
   | Some stream \<Rightarrow> dm_deserialize_store env xe parse p flags stream (version, s))"

text \<open>\<open>names\<close>: the sorted names of a directory, if it can be read. \<^verbatim>\<open>MAXPATHLEN\<close> is 4096.\<close>

definition dm_deserialize_directory ::
  "dm_env \<Rightarrow> xml_env \<Rightarrow> 'p parser \<Rightarrow> 'p \<Rightarrow> (cstr \<Rightarrow> u8 list option) \<Rightarrow> (cstr \<Rightarrow> cstr list option) \<Rightarrow> u16 \<Rightarrow> cstr \<Rightarrow>
   int \<times> dmst \<Rightarrow> (int \<times> int \<times> dmst) option" where
  "dm_deserialize_directory env xe parse p files dirs flags dir = (\<lambda>(version, s). case dirs dir of
     None \<Rightarrow> Some (1, version, s)
   | Some names \<Rightarrow>
       ofold (\<lambda>n (r, version, s).
           if take 1 n = [46] then Some (r, version, s)
           else do {
             (q, version, s) \<leftarrow> dm_deserialize_file env xe parse p files flags (take 4095 (dir @ [47] @ n)) (version, s);
             Some (r OR q, version, s) })
         names (0, version, s))"

end
