(* ===== verification/Dm_Lua.thy ===== *)
theory Dm_Lua
  imports Dm_Server Dm_Deserialize
begin

text \<open>
  The functions that Lua scripts call, \<^verbatim>\<open>mand/dm_luaif.c\<close>. Lua is a parameter: values of Lua are of a type \<open>'v\<close> with the accessors of its interface,
  \<open>lua_api\<close>. A function gets the list of its arguments and returns what it leaves on the stack (\<open>L_return\<close>), or raises an
  error (\<open>L_error\<close>). A function that returns more values than it has on its stack breaks the contract of the interface: a fault.
  Code that the preprocessor takes out (\<^verbatim>\<open>#if 0\<close>) is not part of the model.
\<close>

section \<open>The interface of Lua\<close>

record 'v lua_api =
  la_isnil :: "'v \<Rightarrow> bool"
  la_istable :: "'v \<Rightarrow> bool"
  la_isnumber :: "'v \<Rightarrow> bool"
  la_isstring :: "'v \<Rightarrow> bool"
  la_isboolean :: "'v \<Rightarrow> bool"
  la_tnumber :: "'v \<Rightarrow> bool"
  la_tstring :: "'v \<Rightarrow> bool"
  la_tointeger :: "'v \<Rightarrow> int"
  la_tolstring :: "'v \<Rightarrow> u8 list"
  la_toboolean :: "'v \<Rightarrow> bool"
  la_index :: "'v \<Rightarrow> int \<Rightarrow> 'v"

text \<open>What the functions push; \<open>O_entry\<close> is a table with the fields \<open>value\<close> and \<open>type\<close>.\<close>

datatype lua_out = O_code DM_RESULT | O_int int | O_str "u8 list" | O_bool bool | O_table "lua_out list" | O_entry lua_out u32

datatype lua_ret = L_error | L_return "lua_out list"

record lua_env =
  le_dm :: dm_env
  le_text :: text_fkts
  le_ser :: ser_fkts

definition la_tostring :: "'v lua_api \<Rightarrow> 'v \<Rightarrow> cstr" where
  "la_tostring la v = takeWhile (\<lambda>c. c \<noteq> 0) (la_tolstring la v)"

definition la_int :: "'v lua_api \<Rightarrow> 'v \<Rightarrow> int" where
  "la_int la v = sint (word_of_int (la_tointeger la v) :: u32)"

definition lua_code :: "DM_RESULT \<Rightarrow> lua_ret" where
  "lua_code r = L_return [O_code r]"

section \<open>Values from Lua\<close>

definition invalid_type :: "dmst \<Rightarrow> (DM_RESULT \<times> DM_VALUE \<times> dmst) option" where
  "invalid_type s = Some (DM_INVALID_TYPE, zero_value, s)"

text \<open>A number of 64 bits: as a number, or as a string that begins with one.\<close>

definition lua_wide ::
  "'v lua_api \<Rightarrow> 'v \<Rightarrow> (cstr \<Rightarrow> 64 word \<times> cstr) \<Rightarrow> (64 word \<Rightarrow> DM_VALUE) \<Rightarrow> dmst \<Rightarrow> (DM_RESULT \<times> DM_VALUE \<times> dmst) option" where
  "lua_wide la v parse put s =
     (if la_tnumber la v then Some (DM_OK, put (word_of_int (la_tointeger la v)), s)
      else if la_tstring la v
      then
        let str = la_tostring la v; (x, endp) = parse str in
        if endp = str then Some (DM_INVALID_VALUE, zero_value, s) else Some (DM_OK, put x, s)
      else invalid_type s)"

definition luaif_tvpair_to_value ::
  "'v lua_api \<Rightarrow> lua_env \<Rightarrow> u32 \<Rightarrow> 'v \<Rightarrow> dm_element option \<Rightarrow> dmst \<Rightarrow> (DM_RESULT \<times> DM_VALUE \<times> dmst) option" where
  "luaif_tvpair_to_value la le type v elem s = (case elem of
     None \<Rightarrow> Some (DM_VALUE_NOT_FOUND, zero_value, s)
   | Some e \<Rightarrow>
       let str = la_tostring la v; tf = le_text le in
       if type = AVP_UNKNOWN
       then if \<not> la_isstring la v then invalid_type s
            else dm_string2value (le_dm le) tf (Some e) (Some str) False zero_value s
       else (case el_type e of
         T_STR \<Rightarrow>
           if type \<noteq> AVP_STRING \<or> \<not> la_isstring la v then invalid_type s else dm_set_string_value (Some str) zero_value s
       | T_BINARY \<Rightarrow>
           if type \<noteq> AVP_BINARY \<or> \<not> la_isstring la v then invalid_type s
           else dm_set_binary_data (Some (la_tolstring la v)) zero_value s
       | T_BASE64 \<Rightarrow>
           if type \<noteq> AVP_BINARY \<or> \<not> la_isstring la v then invalid_type s
           else dm_set_binary_data (Some (la_tolstring la v)) zero_value s
       | T_SELECTOR \<Rightarrow>
           if type \<noteq> AVP_PATH \<or> \<not> la_isstring la v then invalid_type s
           else do {
             sel \<leftarrow> (if str \<noteq> [] then dm_name2sel (le_dm le) (Some str) else Some (Some no_selector));
             case sel of
               None \<Rightarrow> Some (DM_INVALID_VALUE, zero_value, s)
             | Some sl \<Rightarrow> dm_set_selector_value (Some sl) zero_value s }
       | T_IPADDR4 \<Rightarrow>
           if type \<noteq> AVP_ADDRESS \<or> \<not> la_isstring la v then invalid_type s
           else (case tf_pton4 tf str of
               None \<Rightarrow> Some (DM_INVALID_VALUE, zero_value, s)
             | Some a \<Rightarrow> Some (DM_OK, set_DM_IP4 zero_value a, s))
       | T_IPADDR6 \<Rightarrow>
           if type \<noteq> AVP_ADDRESS \<or> \<not> la_isstring la v then invalid_type s
           else (case tf_pton6 tf str of
               None \<Rightarrow> Some (DM_INVALID_VALUE, zero_value, s)
             | Some a \<Rightarrow> Some (DM_OK, set_DM_IP6 zero_value a, s))
       | T_ENUM \<Rightarrow>
           if type = AVP_ENUM
           then if \<not> la_isstring la v then invalid_type s
                else do {
                  en \<leftarrow> u_enum e;
                  i \<leftarrow> dm_enum2int (Some en) str;
                  Some (if i = - 1 then (DM_INVALID_VALUE, zero_value, s)
                        else (DM_OK, set_DM_ENUM zero_value (word_of_int i), s)) }
           else if type = AVP_ENUMID
           then if \<not> la_isnumber la v then invalid_type s
                else do {
                  en \<leftarrow> u_enum e;
                  let i = la_int la v;
                  Some (if i < 0 \<or> i \<ge> int (en_cnt en) then (DM_INVALID_VALUE, zero_value, s)
                        else (DM_OK, set_DM_ENUM zero_value (word_of_int i), s)) }
           else invalid_type s
       | T_INT \<Rightarrow>
           if type \<noteq> AVP_INT32 \<or> \<not> la_isnumber la v then invalid_type s
           else Some (DM_OK, set_DM_INT zero_value (word_of_int (la_tointeger la v)), s)
       | T_UINT \<Rightarrow>
           if type \<noteq> AVP_UINT32 \<or> \<not> la_isnumber la v then invalid_type s
           else Some (DM_OK, set_DM_UINT zero_value (word_of_int (la_tointeger la v)), s)
       | T_INT64 \<Rightarrow>
           if type \<noteq> AVP_INT64 then invalid_type s
           else lua_wide la v (\<lambda>t. apfst word_of_int (strtol t)) (set_DM_INT64 zero_value) s
       | T_UINT64 \<Rightarrow>
           if type \<noteq> AVP_UINT64 then invalid_type s else lua_wide la v strtoul (set_DM_UINT64 zero_value) s
       | T_BOOL \<Rightarrow>
           if type \<noteq> AVP_BOOL \<or> \<not> la_isboolean la v then invalid_type s
           else Some (DM_OK, set_DM_BOOL zero_value (if la_toboolean la v then 1 else 0), s)
       | T_DATE \<Rightarrow>
           if type \<noteq> AVP_DATE \<or> \<not> la_isnumber la v then invalid_type s
           else Some (DM_OK, set_DM_TIME zero_value (word_of_int (la_tointeger la v)), s)
       | T_TICKS \<Rightarrow>
           if type = AVP_ABSTICKS \<or> type = AVP_RELTICKS
           then lua_wide la v (\<lambda>t. apfst word_of_int (strtol t)) (set_DM_TICKS zero_value) s
           else invalid_type s
       | _ \<Rightarrow> invalid_type s))"

section \<open>Setting\<close>

text \<open>The new value is made and then dropped.\<close>

definition luaif_set_cb ::
  "'v lua_api \<Rightarrow> lua_env \<Rightarrow> 'v \<Rightarrow> 'v \<Rightarrow> dm_element option \<Rightarrow> dmst \<Rightarrow> (DM_RESULT \<times> dmst) option" where
  "luaif_set_cb la le ty v elem s = do {
     (r, _, s) \<leftarrow> luaif_tvpair_to_value la le (word_of_int (la_tointeger la ty)) v elem s;
     Some (r, s) }"

definition set_group :: "'v lua_api \<Rightarrow> lua_env \<Rightarrow> 'v \<Rightarrow> dm_selector \<Rightarrow> dmst \<Rightarrow> (DM_RESULT \<times> dmst) option" where
  "set_group la le g sel s = do {
     (r, _, s) \<leftarrow> dm_get_value_ref_by_selector_cb (le_dm le) sel
       (\<lambda>_ elem _ _ (u, s). do {
          (r, s) \<leftarrow> luaif_set_cb la le (la_index la g 1) (la_index la g 3) elem s;
          Some (r, u, s) }) ((), s);
     Some (r, s) }"

text \<open>The group \<open>g\<close>, and the groups of the table \<open>t\<close> from the number \<open>i\<close> on.\<close>

partial_function (option) set_loop :: "'v lua_api \<Rightarrow> lua_env \<Rightarrow> 'v \<Rightarrow> int \<Rightarrow> 'v \<Rightarrow> dmst \<Rightarrow> (lua_ret \<times> dmst) option" where
  "set_loop la le t i g s =
     (if la_isnil la g then Some (lua_code DM_OK, s)
      else if \<not> la_istable la g then Some (L_error, s)
      else if \<not> la_isnumber la (la_index la g 1) \<or> \<not> la_isstring la (la_index la g 2) then Some (L_error, s)
      else do {
        n \<leftarrow> dm_name2sel (le_dm le) (Some (la_tostring la (la_index la g 2)));
        case n of
          None \<Rightarrow> Some (lua_code DM_VALUE_NOT_FOUND, s)
        | Some sel \<Rightarrow> do {
            (r, s) \<leftarrow> set_group la le g sel s;
            if r \<noteq> DM_OK then Some (lua_code r, s) else set_loop la le t (i + 1) (la_index la t i) s } })"

declare set_loop.simps [code]

definition l_set :: "'v lua_api \<Rightarrow> lua_env \<Rightarrow> 'v list \<Rightarrow> dmst \<Rightarrow> (lua_ret \<times> dmst) option" where
  "l_set la le args s = (case args of
     [t] \<Rightarrow>
       if \<not> la_istable la t \<or> la_isnil la (la_index la t 1) then Some (L_error, s)
       else set_loop la le t 2 (la_index la t 1) s
   | _ \<Rightarrow> Some (L_error, s))"

section \<open>Reading\<close>

text \<open>The code of the caller, or the one of the type when the caller leaves it open.\<close>

definition lua_push :: "u32 \<Rightarrow> u32 \<Rightarrow> lua_out option \<Rightarrow> (DM_RESULT + lua_out) option" where
  "lua_push type code out =
     (if type \<noteq> AVP_UNKNOWN \<and> type \<noteq> code then Some (Inl DM_INVALID_TYPE) else do { x \<leftarrow> out; Some (Inr (O_entry x code)) })"

definition luaif_get_value :: "lua_env \<Rightarrow> u32 \<Rightarrow> dm_element \<Rightarrow> DM_VALUE \<Rightarrow> dmst \<Rightarrow> (DM_RESULT + lua_out) option" where
  "luaif_get_value le type elem val s = (case el_type elem of
     T_ENUM \<Rightarrow>
       if type = AVP_ENUMID then do { x \<leftarrow> DM_ENUM val; Some (Inr (O_entry (O_int (sint x)) type)) }
       else lua_push type AVP_ENUM (do {
         en \<leftarrow> u_enum elem; x \<leftarrow> DM_ENUM val; n \<leftarrow> dm_int2enum (Some en) (sint x); Some (O_str n) })
   | T_COUNTER \<Rightarrow> lua_push type AVP_COUNTER (do { x \<leftarrow> DM_UINT val; Some (O_int (uint x)) })
   | T_INT \<Rightarrow> lua_push type AVP_INT32 (do { x \<leftarrow> DM_INT val; Some (O_int (sint x)) })
   | T_UINT \<Rightarrow> lua_push type AVP_UINT32 (do { x \<leftarrow> DM_UINT val; Some (O_int (uint x)) })
   | T_INT64 \<Rightarrow> lua_push type AVP_INT64 (do { x \<leftarrow> DM_INT64 val; Some (O_str (take 20 (sdecimal (sint x)))) })
   | T_UINT64 \<Rightarrow> lua_push type AVP_UINT64 (do { x \<leftarrow> DM_UINT64 val; Some (O_str (take 20 (decimal (unat x)))) })
   | T_STR \<Rightarrow> lua_push type AVP_STRING (do {
       p \<leftarrow> DM_STRING val; x \<leftarrow> str_of s p; Some (O_str (case x of None \<Rightarrow> [] | Some y \<Rightarrow> y)) })
   | T_BINARY \<Rightarrow> lua_push type AVP_BINARY (do {
       p \<leftarrow> DM_BINARY val; x \<leftarrow> bin_of s p; Some (O_str (case x of None \<Rightarrow> [] | Some y \<Rightarrow> y)) })
   | T_BASE64 \<Rightarrow> lua_push type AVP_BINARY (do {
       p \<leftarrow> DM_BINARY val; x \<leftarrow> bin_of s p; Some (O_str (case x of None \<Rightarrow> [] | Some y \<Rightarrow> y)) })
   | T_IPADDR4 \<Rightarrow> lua_push type AVP_ADDRESS (do { a \<leftarrow> rd32 (dv_v val); Some (O_str (sf_ntop4 (le_ser le) a)) })
   | T_IPADDR6 \<Rightarrow> lua_push type AVP_ADDRESS (do { a \<leftarrow> rd128 (dv_v val); Some (O_str (sf_ntop6 (le_ser le) a)) })
   | T_BOOL \<Rightarrow> lua_push type AVP_BOOL (do { b \<leftarrow> DM_BOOL val; Some (O_bool (b \<noteq> 0)) })
   | T_DATE \<Rightarrow> lua_push type AVP_DATE (do { t \<leftarrow> DM_TIME val; Some (O_int (sint t)) })
   | T_TICKS \<Rightarrow>
       let type = (if type = AVP_UNKNOWN then if el_flags elem AND F_DATETIME \<noteq> 0 then AVP_ABSTICKS else AVP_RELTICKS else type) in
       if type = AVP_ABSTICKS \<or> type = AVP_RELTICKS
       then do {
         t \<leftarrow> DM_TICKS val;
         let t = (if type = AVP_ABSTICKS then sf_ticks2realtime (le_ser le) t else t);
         Some (Inr (O_entry (O_str (take 20 (sdecimal (sint t)))) type)) }
       else Some (Inl DM_INVALID_TYPE)
   | T_SELECTOR \<Rightarrow>
       if type \<noteq> AVP_UNKNOWN \<and> type \<noteq> AVP_PATH then Some (Inl DM_INVALID_TYPE)
       else do {
         p \<leftarrow> DM_SELECTOR val;
         v \<leftarrow> sel_of s p;
         case v of
           None \<Rightarrow> Some (Inr (O_entry (O_str []) AVP_PATH))
         | Some sl \<Rightarrow> do {
             n \<leftarrow> dm_sel2name (le_dm le) sl MAX_PARAM_NAME_LEN;
             Some (case n of None \<Rightarrow> Inl DM_INVALID_VALUE | Some nm \<Rightarrow> Inr (O_entry (O_str nm) AVP_PATH)) } }
   | _ \<Rightarrow> Some (Inl DM_INVALID_TYPE))"

text \<open>The callback appends the entry to the table of results.\<close>

definition luaif_get_cb ::
  "lua_env \<Rightarrow> u32 \<Rightarrow> dm_element option \<Rightarrow> DM_VALUE \<Rightarrow> lua_out list \<times> dmst \<Rightarrow> (DM_RESULT \<times> lua_out list \<times> dmst) option" where
  "luaif_get_cb le type elem val = (\<lambda>(out, s). case elem of
     None \<Rightarrow> Some (DM_VALUE_NOT_FOUND, out, s)
   | Some e \<Rightarrow> do {
       r \<leftarrow> luaif_get_value le type e val s;
       Some (case r of Inl c \<Rightarrow> (c, out, s) | Inr x \<Rightarrow> (DM_OK, out @ [x], s)) })"

partial_function (option) get_loop ::
  "'v lua_api \<Rightarrow> lua_env \<Rightarrow> 'v \<Rightarrow> int \<Rightarrow> 'v \<Rightarrow> lua_out list \<Rightarrow> dmst \<Rightarrow> (lua_ret \<times> dmst) option" where
  "get_loop la le t i g out s =
     (if la_isnil la g then Some (L_return [O_code DM_OK, O_table out], s)
      else if \<not> la_istable la g then Some (L_error, s)
      else if \<not> la_isnumber la (la_index la g 1) \<or> \<not> la_isstring la (la_index la g 2) then Some (L_error, s)
      else do {
        n \<leftarrow> dm_name2sel (le_dm le) (Some (la_tostring la (la_index la g 2)));
        case n of
          None \<Rightarrow> Some (lua_code DM_VALUE_NOT_FOUND, s)
        | Some sel \<Rightarrow> do {
            (r, out, s) \<leftarrow> dm_get_value_by_selector_cb (le_dm le) sel T_ANY
              (\<lambda>_ elem _ val. luaif_get_cb le (word_of_int (la_int la (la_index la g 1))) elem val) (out, s);
            if r \<noteq> DM_OK then Some (lua_code r, s) else get_loop la le t (i + 1) (la_index la t i) out s } })"

declare get_loop.simps [code]

definition l_get :: "'v lua_api \<Rightarrow> lua_env \<Rightarrow> 'v list \<Rightarrow> dmst \<Rightarrow> (lua_ret \<times> dmst) option" where
  "l_get la le args s = (case args of
     [t] \<Rightarrow>
       if \<not> la_istable la t \<or> la_isnil la (la_index la t 1) then Some (L_error, s)
       else get_loop la le t 2 (la_index la t 1) [] s
   | _ \<Rightarrow> Some (L_error, s))"

fun lua_enum_names :: "nat \<Rightarrow> u8 list \<Rightarrow> cstr list option" where
  "lua_enum_names 0 d = Some []"
| "lua_enum_names (Suc n) d = do {
     nm \<leftarrow> cstr_at d;
     rest \<leftarrow> lua_enum_names n (drop (length nm + 1) d);
     Some (nm # rest) }"

definition luaif_retrieve_enums_cb ::
  "dm_element option \<Rightarrow> lua_out list \<times> dmst \<Rightarrow> (DM_RESULT \<times> lua_out list \<times> dmst) option" where
  "luaif_retrieve_enums_cb elem = (\<lambda>(out, s). case elem of
     None \<Rightarrow> Some (DM_VALUE_NOT_FOUND, out, s)
   | Some e \<Rightarrow> do {
       en \<leftarrow> u_enum e;
       names \<leftarrow> lua_enum_names (en_cnt en) (en_data en);
       Some (DM_OK, map O_str names, s) })"

text \<open>The argument of the functions that take a path: an error, or the selector.\<close>

definition lua_path ::
  "'v lua_api \<Rightarrow> lua_env \<Rightarrow> 'v list \<Rightarrow> dmst \<Rightarrow> (cstr \<Rightarrow> dm_selector \<Rightarrow> (lua_ret \<times> dmst) option) \<Rightarrow> (lua_ret \<times> dmst) option" where
  "lua_path la le args s go = (case args of
     [p] \<Rightarrow>
       if \<not> la_isstring la p then Some (L_error, s)
       else do {
         n \<leftarrow> dm_name2sel (le_dm le) (Some (la_tostring la p));
         case n of None \<Rightarrow> Some (lua_code DM_VALUE_NOT_FOUND, s) | Some sel \<Rightarrow> go (la_tostring la p) sel }
   | _ \<Rightarrow> Some (L_error, s))"

definition l_retrieve_enums :: "'v lua_api \<Rightarrow> lua_env \<Rightarrow> 'v list \<Rightarrow> dmst \<Rightarrow> (lua_ret \<times> dmst) option" where
  "l_retrieve_enums la le args s = lua_path la le args s (\<lambda>_ sel. do {
     (r, names, s) \<leftarrow> dm_get_value_by_selector_cb (le_dm le) sel T_ENUM (\<lambda>_ elem _ _. luaif_retrieve_enums_cb elem) ([], s);
     Some (if r \<noteq> DM_OK then lua_code r else L_return [O_code DM_OK, O_table names], s) })"

definition luaif_list_cb :: "unit walk_cb" where
  "luaif_list_cb type x elem val us = Some (True, us)"

text \<open>
  The callback does not take the \<open>nil\<close> from the stack that is pushed for it, so that the number, and not the \<open>nil\<close>, is on top when two values are returned.
\<close>

definition l_list :: "'v lua_api \<Rightarrow> lua_env \<Rightarrow> 'v list \<Rightarrow> dmst \<Rightarrow> (lua_ret \<times> dmst) option" where
  "l_list la le args s = lua_path la le args s (\<lambda>_ sel. do {
     (ok, _, s) \<leftarrow> dm_walk_by_selector_cb (le_dm le) sel 2 luaif_list_cb ((), s);
     Some (if \<not> ok then lua_code DM_ERROR else L_return [O_table [], O_int 1], s) })"

section \<open>Rows\<close>

definition l_add :: "'v lua_api \<Rightarrow> lua_env \<Rightarrow> 'v list \<Rightarrow> dmst \<Rightarrow> (lua_ret \<times> dmst) option" where
  "l_add la le args s = lua_path la le args s (\<lambda>_ sel. do {
     (nd, x, s) \<leftarrow> dm_add_instance_by_selector (le_dm le) sel DM_ID_USER_OBJECT s;
     Some (if nd = None then lua_code DM_ERROR else L_return [O_code DM_OK, O_int (uint x)], s) })"

definition l_delete :: "'v lua_api \<Rightarrow> lua_env \<Rightarrow> 'v list \<Rightarrow> dmst \<Rightarrow> (lua_ret \<times> dmst) option" where
  "l_delete la le args s = lua_path la le args s (\<lambda>_ sel. do {
     (ok, s) \<leftarrow> dm_del_table_by_selector (le_dm le) sel s;
     Some (lua_code (if ok then DM_OK else DM_ERROR), s) })"

definition l_find :: "'v lua_api \<Rightarrow> lua_env \<Rightarrow> 'v list \<Rightarrow> dmst \<Rightarrow> (lua_ret \<times> dmst) option" where
  "l_find la le args s = (case args of
     [pth, param, ty, v] \<Rightarrow>
       if \<not> la_isstring la pth \<or> \<not> la_isstring la param \<or> \<not> la_isnumber la ty then Some (L_error, s)
       else do {
         n \<leftarrow> dm_name2sel (le_dm le) (Some (la_tostring la pth));
         case n of
           None \<Rightarrow> Some (lua_code DM_VALUE_NOT_FOUND, s)
         | Some sel \<Rightarrow> do {
             kw \<leftarrow> dm_get_object_table_by_selector (le_dm le) s sel;
             case kw of
               None \<Rightarrow> Some (lua_code DM_INVALID_TYPE, s)
             | Some k \<Rightarrow> do {
                 let x = dm_get_element_id_by_name (la_tostring la param) kw;
                 if x = DM_ERR then Some (lua_code DM_VALUE_NOT_FOUND, s)
                 else do {
                   e \<leftarrow> nth_opt (tab_elems k) (unat x - 1);
                   (r, val, s) \<leftarrow> luaif_tvpair_to_value la le (word_of_int (la_tointeger la ty)) v (Some e) s;
                   if r \<noteq> DM_OK then Some (lua_code r, s)
                   else do {
                     inst \<leftarrow> find_instance_by_selector (le_dm le) s sel x (el_type e) val;
                     (_, s) \<leftarrow> dm_free_any_value e val s;
                     case inst of
                       None \<Rightarrow> Some (lua_code DM_ERROR, s)
                     | Some a \<Rightarrow> do { nd \<leftarrow> nodes s a; Some (L_return [O_code DM_OK, O_int (uint (in_instance nd))], s) } } } } } }
   | _ \<Rightarrow> Some (L_error, s))"

section \<open>Other functions\<close>

text \<open>The functions for configure sessions: an argument is an error, and without one there is nothing to return.\<close>

definition l_configure :: "'v list \<Rightarrow> dmst \<Rightarrow> (lua_ret \<times> dmst) option" where
  "l_configure args s = (if args \<noteq> [] then Some (L_error, s) else None)"
definition l_terminate :: "'v list \<Rightarrow> dmst \<Rightarrow> (lua_ret \<times> dmst) option" where
  "l_terminate args s = (if args \<noteq> [] then Some (L_error, s) else None)"
definition l_commit :: "'v list \<Rightarrow> dmst \<Rightarrow> (lua_ret \<times> dmst) option" where
  "l_commit args s = (if args \<noteq> [] then Some (L_error, s) else None)"
definition l_cancel :: "'v list \<Rightarrow> dmst \<Rightarrow> (lua_ret \<times> dmst) option" where
  "l_cancel args s = (if args \<noteq> [] then Some (L_error, s) else None)"
definition l_save :: "'v list \<Rightarrow> dmst \<Rightarrow> (lua_ret \<times> dmst) option" where
  "l_save args s = (if args \<noteq> [] then Some (L_error, s) else None)"

definition l_crypt :: "'v lua_api \<Rightarrow> (cstr \<Rightarrow> cstr \<Rightarrow> cstr option) \<Rightarrow> 'v list \<Rightarrow> lua_ret" where
  "l_crypt la crypt args = (case args of
     [key, salt] \<Rightarrow>
       if \<not> la_isstring la key \<or> \<not> la_isstring la salt then L_error
       else (case crypt (la_tostring la key) (la_tostring la salt) of
           Some pwd \<Rightarrow> L_return [O_code DM_OK, O_str pwd]
         | None \<Rightarrow> lua_code DM_ERROR)
   | _ \<Rightarrow> L_error)"

text \<open>The name and the flags of the functions that read files; the flags may be left out or nil.\<close>

definition lua_file :: "'v lua_api \<Rightarrow> 'v list \<Rightarrow> (cstr \<times> u16) option" where
  "lua_file la args = (case args of
     [f] \<Rightarrow> if la_isstring la f then Some (la_tostring la f, DS_USERCONFIG) else None
   | [f, fl] \<Rightarrow>
       if \<not> la_isstring la f then None
       else if la_isnil la fl then Some (la_tostring la f, DS_USERCONFIG)
       else if la_isnumber la fl then Some (la_tostring la f, word_of_int (la_tointeger la fl)) else None
   | _ \<Rightarrow> None)"

definition l_deserialize_file ::
  "'v lua_api \<Rightarrow> lua_env \<Rightarrow> xml_env \<Rightarrow> 'p parser \<Rightarrow> 'p \<Rightarrow> (cstr \<Rightarrow> u8 list option) \<Rightarrow> 'v list \<Rightarrow> int \<times> dmst \<Rightarrow> (lua_ret \<times> int \<times> dmst) option" where
  "l_deserialize_file la le xe parse p files args st = (case lua_file la args of
     None \<Rightarrow> Some (L_error, st)
   | Some (f, fl) \<Rightarrow> do {
       (r, st) \<leftarrow> dm_deserialize_file (le_dm le) xe parse p files fl f st;
       Some (lua_code (if r \<noteq> 0 then DM_ERROR else DM_OK), st) })"

definition l_deserialize_directory ::
  "'v lua_api \<Rightarrow> lua_env \<Rightarrow> xml_env \<Rightarrow> 'p parser \<Rightarrow> 'p \<Rightarrow> (cstr \<Rightarrow> u8 list option) \<Rightarrow> (cstr \<Rightarrow> cstr list option) \<Rightarrow> 'v list \<Rightarrow>
   int \<times> dmst \<Rightarrow> (lua_ret \<times> int \<times> dmst) option" where
  "l_deserialize_directory la le xe parse p files dirs args st = (case lua_file la args of
     None \<Rightarrow> Some (L_error, st)
   | Some (f, fl) \<Rightarrow> do {
       (r, st) \<leftarrow> dm_deserialize_directory (le_dm le) xe parse p files dirs fl f st;
       Some (lua_code (if r \<noteq> 0 then DM_ERROR else DM_OK), st) })"

definition l_utils_encode_base64 :: "'v lua_api \<Rightarrow> 'v list \<Rightarrow> dmst \<Rightarrow> lua_ret \<times> dmst" where
  "l_utils_encode_base64 la args s = (case args of
     [d] \<Rightarrow>
       if \<not> la_isstring la d then (L_error, s)
       else (case malloc s of
           (None, s) \<Rightarrow> (lua_code DM_OOM, s)
         | (Some _, s) \<Rightarrow> (L_return [O_code DM_OK, O_str (dm_to64 (la_tolstring la d))], s))
   | _ \<Rightarrow> (L_error, s))"

definition l_utils_decode_base64 :: "'v lua_api \<Rightarrow> 'v list \<Rightarrow> dmst \<Rightarrow> lua_ret \<times> dmst" where
  "l_utils_decode_base64 la args s = (case args of
     [d] \<Rightarrow>
       if \<not> la_isstring la d then (L_error, s)
       else (case malloc s of
           (None, s) \<Rightarrow> (lua_code DM_OOM, s)
         | (Some _, s) \<Rightarrow> (L_return [O_code DM_OK, O_str (dm_from64 (la_tostring la d))], s))
   | _ \<Rightarrow> (L_error, s))"

text \<open>Calling a function that is in a file: what loading it gives, and what the call gives.\<close>

datatype 'f lua_load = Loaded 'f | LUA_ERRFILE | LUA_ERRSYNTAX | LUA_ERRMEM

datatype 'v lua_called = Called 'v | Call_ERRRUN | Call_ERRMEM

text \<open>The code a number stands for, \<open>codes\<close>, and \<open>dir\<close>, the directory of the functions, are parameters. \<^verbatim>\<open>MAXPATHLEN\<close> is 4096.\<close>

definition fp_Lua_function ::
  "'v lua_api \<Rightarrow> cstr \<Rightarrow> (int \<Rightarrow> DM_RESULT) \<Rightarrow> (cstr \<Rightarrow> 'f lua_load) \<Rightarrow> ('f \<Rightarrow> 'v list \<Rightarrow> dmst \<Rightarrow> ('v lua_called \<times> dmst) option) \<Rightarrow>
   cstr \<Rightarrow> 'v list \<Rightarrow> dmst \<Rightarrow> (DM_RESULT \<times> dmst) option" where
  "fp_Lua_function la dir codes load_file pcall name args s =
     (let p = dir @ [47] @ name @ lit ''.lua'' in
      if 4096 \<le> length p then Some (DM_ERROR, s)
      else case load_file p of
        LUA_ERRFILE \<Rightarrow> Some (DM_OK, s)
      | LUA_ERRSYNTAX \<Rightarrow> Some (DM_ERROR, s)
      | LUA_ERRMEM \<Rightarrow> Some (DM_OOM, s)
      | Loaded f \<Rightarrow> do {
          (r, s) \<leftarrow> pcall f args s;
          Some (case r of
              Call_ERRRUN \<Rightarrow> DM_ERROR
            | Call_ERRMEM \<Rightarrow> DM_OOM
            | Called v \<Rightarrow> if la_isnil la v then DM_OK else if \<not> la_isnumber la v then DM_ERROR else codes (la_tointeger la v), s) })"

end
