(* ===== verification/Dm_Deserialize_Props.thy ===== *)
theory Dm_Deserialize_Props
  imports Dm_Deserialize Dm_Store_Props
begin

text \<open>
  Reading the configuration file: elements that the schema does not know have no effect whatever is in them, a string that was written comes back into
  the store, and a file with ten nested elements overruns the array of states.
\<close>

section \<open>Nesting\<close>

lemma start_pushes:
  assumes "startElement env xe name atts (rd, s) = Some (rd', s')"
  shows "0 < length (xr_stack rd)" and "length (xr_stack rd) < 10" and "length (xr_stack rd') = Suc (length (xr_stack rd))"
  using assms by (auto simp: startElement_def bind_Some_iff Let_def split: list.splits if_splits)

lemma starts_overflow:
  assumes "length (xr_stack rd) \<le> 10" and "10 < length (xr_stack rd) + length tags"
  shows "ofold (xml_handle env xe) (map (\<lambda>(n, a). X_start n a) tags) (rd, s) = None"
  using assms
proof (induction tags arbitrary: rd s)
  case (Cons x tags)
  obtain n a where x: "x = (n, a)" by fastforce
  show ?case
  proof (cases "startElement env xe n a (rd, s)")
    case None
    then show ?thesis by (simp add: x)
  next
    case (Some st)
    then obtain rd' s' where st: "startElement env xe n a (rd, s) = Some (rd', s')" by (cases st) auto
    from start_pushes [OF st] Cons.prems have "length (xr_stack rd') \<le> 10" "10 < length (xr_stack rd') + length tags" by simp_all
    from Cons.IH [OF this, of s'] st show ?thesis by (simp add: x)
  qed
qed simp

text \<open>
  The array of states has ten entries, and one of them is below the outermost element. A file that begins with ten start tags, whatever their names, makes the
  reader write behind the array, although a selector has up to sixteen identifiers.
\<close>

theorem deep_file_faults:
  assumes "parse p (take BUFSIZ stream) (length stream < BUFSIZ) = (map (\<lambda>(n, a). X_start n a) tags @ evs, ok, p')"
    and "10 \<le> length tags"
  shows "dm_deserialize_store env xe parse p flags stream (version, s) = None"
proof -
  have "parse_loop env xe parse p stream (rd, s) = None" if rd: "xr_stack rd = [bottom_state]" for rd s
  proof -
    have "ofold (xml_handle env xe) (map (\<lambda>(n, a). X_start n a) tags) (rd, s) = None"
      by (rule starts_overflow) (use rd assms(2) in simp_all)
    moreover have "length (take BUFSIZ stream) < BUFSIZ \<longleftrightarrow> length stream < BUFSIZ" by auto
    ultimately show ?thesis unfolding parse_loop.simps [of _ _ _ _ stream] Let_def using assms(1) by (simp only: prod.case ofold_append) simp
  qed
  then show ?thesis by (auto simp: dm_deserialize_store_def Let_def split: Option.bind_split)
qed

theorem deep_file_faults_witness:
  "\<forall>env xe flags version s.
    dm_deserialize_store env xe (\<lambda>p buf is_last. (map (\<lambda>(n, a). X_start n a) (replicate 10 (lit ''a'', [])) @ [], True, p)) () flags [] (version, s) = None"
proof (intro allI)
  fix env xe flags version s
  show "dm_deserialize_store env xe (\<lambda>p buf is_last. (map (\<lambda>(n, a). X_start n a) (replicate 10 (lit ''a'', [])) @ [], True, p)) () flags [] (version, s) = None"
    by (rule deep_file_faults [of _ "()" "[]" "replicate 10 (lit ''a'', [])" "[]" True "()"]) simp_all
qed

section \<open>Unknown elements\<close>

text \<open>What is inside of an element, and the events of the parser for it.\<close>

datatype xml_node = Xml_text cstr | Xml_elem cstr "(cstr \<times> cstr) list" "xml_node list"

fun xml_events :: "xml_node \<Rightarrow> xml_event list" where
  "xml_events (Xml_text t) = [X_chars t]"
| "xml_events (Xml_elem n a kids) = [X_start n a] @ concat (map xml_events kids) @ [X_end]"

text \<open>The node needs at most \<open>n\<close> states.\<close>

fun fits :: "nat \<Rightarrow> xml_node \<Rightarrow> bool" where
  "fits n (Xml_text t) = True"
| "fits n (Xml_elem name a kids) = (0 < n \<and> list_all (fits (n - 1)) kids)"

lemma notify_attr_total: "\<exists>i. dm_enum2int (Some notify_attr) v = Some i"
proof -
  have "en_data notify_attr = concat (map (\<lambda>n. n @ [0]) [lit ''None'', lit ''Passive'', lit ''Active''])" "en_cnt notify_attr = 3"
    by (simp_all add: notify_attr_def)
  moreover have "\<forall>n \<in> set [lit ''None'', lit ''Passive'', lit ''Active'']. 0 \<notin> set n" by code_simp
  ultimately show ?thesis using enum2int_loop_names [of "[lit ''None'', lit ''Passive'', lit ''Active'']" 3 0 v] by (simp add: dm_enum2int_def)
qed

lemma read_atts_total: "\<exists>b. read_atts atts a = Some b"
proof (induction atts arbitrary: a)
  case (Cons x atts)
  obtain n v where x: "x = (n, v)" by fastforce
  obtain i where i: "dm_enum2int (Some notify_attr) v = Some i" using notify_attr_total by blast
  show ?case unfolding x read_atts.simps i by (simp add: Cons.IH)
qed simp

text \<open>The state of an element that is not part of the schema.\<close>

definition ignored :: "XMLstate \<Rightarrow> bool" where
  "ignored x \<longleftrightarrow> xs_flags x = 0 \<or> xs_flags x = XML_ESCAPED"

lemma ignored_flags: "ignored x \<Longrightarrow> \<not> state_is XML_VALID x \<and> \<not> state_is XML_ROOT x \<and> \<not> state_is XML_UPGRADE x"
  by (auto simp: ignored_def state_is_def XML_VALID_def XML_ROOT_def XML_UPGRADE_def XML_ESCAPED_def)

lemma ignored_new: "ignored (if b then set_flag XML_ESCAPED zero_state else zero_state)"
  by (simp add: ignored_def set_flag_def zero_state_def)

lemma with_version_upd: "\<exists>ver. with_version b rd = rd\<lparr>xr_version := ver\<rparr>"
proof (cases "xa_version b")
  case None
  then show ?thesis by (intro exI [of _ "xr_version rd"]) (simp add: with_version_def)
qed (auto simp: with_version_def dm_set_cfg_version_def)

lemma start_ignored:
  assumes "xr_stack rd = cur # rest" and "ignored cur" and "length (xr_stack rd) < 10"
  shows "\<exists>new ver. startElement env xe n a (rd, s) = Some (rd\<lparr>xr_stack := new # cur # rest, xr_version := ver\<rparr>, s) \<and> ignored new"
proof -
  obtain b where b: "read_atts a no_atts = Some b" using read_atts_total by blast
  let ?new = "if xa_escaped b then set_flag XML_ESCAPED zero_state else zero_state"
  have "startElement env xe n a (rd, s) = Some ((with_version b rd)\<lparr>xr_stack := ?new # cur # rest\<rparr>, s)"
    using assms ignored_flags [OF assms(2)] b by (simp add: startElement_def)
  moreover obtain ver where "with_version b rd = rd\<lparr>xr_version := ver\<rparr>" using with_version_upd by blast
  ultimately show ?thesis using ignored_new by (intro exI [of _ ?new] exI [of _ ver]) simp
qed

lemma chars_ignored:
  assumes "xr_stack rd = cur # rest" and "ignored cur"
  shows "\<exists>cur' k. charElement t (rd, s) = Some (rd\<lparr>xr_stack := cur' # rest\<rparr>, s\<lparr>st_brk := k\<rparr>) \<and> ignored cur'"
  using assms by (auto simp: charElement_def malloc_def ignored_def Let_def split: option.split)

lemma end_ignored:
  assumes "xr_stack rd = cur # rest" and "ignored cur" and "rest \<noteq> []"
  shows "endElement env xe (rd, s) = Some (rd\<lparr>xr_stack := rest\<rparr>, s)"
  using assms ignored_flags [OF assms(2)] by (simp add: endElement_def)

text \<open>What such an element contains changes its own state, the version and the allocator's next address.\<close>

definition only_brk :: "xml_rd \<Rightarrow> XMLstate list \<Rightarrow> dmst \<Rightarrow> xst option \<Rightarrow> bool" where
  "only_brk rd rest s res \<longleftrightarrow>
     (\<exists>cur ver k. res = Some (rd\<lparr>xr_stack := cur # rest, xr_version := ver\<rparr>, s\<lparr>st_brk := k\<rparr>) \<and> ignored cur)"

lemma only_brkE:
  assumes "only_brk rd rest s res"
  obtains cur ver k where "res = Some (rd\<lparr>xr_stack := cur # rest, xr_version := ver\<rparr>, s\<lparr>st_brk := k\<rparr>)" and "ignored cur"
  using assms by (auto simp: only_brk_def)

lemma only_brk_trans:
  assumes "only_brk rd rest s (Some (rd1, s1))" and "only_brk rd1 rest s1 res"
  shows "only_brk rd rest s res"
proof -
  from assms(1) obtain cur ver k where 1: "rd1 = rd\<lparr>xr_stack := cur # rest, xr_version := ver\<rparr>" "s1 = s\<lparr>st_brk := k\<rparr>"
    by (auto simp: only_brk_def)
  from assms(2) obtain cur' ver' k' where "res = Some (rd1\<lparr>xr_stack := cur' # rest, xr_version := ver'\<rparr>, s1\<lparr>st_brk := k'\<rparr>)" "ignored cur'"
    by (rule only_brkE)
  then show ?thesis unfolding only_brk_def 1 by (intro exI [of _ cur'] exI [of _ ver'] exI [of _ k']) simp
qed

lemma contents_ignored:
  assumes "\<And>x rd cur s. x \<in> set xs \<Longrightarrow> xr_stack rd = cur # rest \<Longrightarrow> ignored cur \<Longrightarrow>
      only_brk rd rest s (ofold (xml_handle env xe) (xml_events x) (rd, s))"
    and "xr_stack rd = cur # rest" and "ignored cur"
  shows "only_brk rd rest s (ofold (xml_handle env xe) (concat (map xml_events xs)) (rd, s))"
  using assms
proof (induction xs arbitrary: rd cur s)
  case Nil
  then show ?case by (auto simp: only_brk_def intro!: exI [of _ cur] exI [of _ "xr_version rd"] exI [of _ "st_brk s"])
next
  case (Cons x xs)
  from Cons.prems have x: "only_brk rd rest s (ofold (xml_handle env xe) (xml_events x) (rd, s))" by simp
  then obtain cur' ver k where r: "ofold (xml_handle env xe) (xml_events x) (rd, s) =
      Some (rd\<lparr>xr_stack := cur' # rest, xr_version := ver\<rparr>, s\<lparr>st_brk := k\<rparr>)" "ignored cur'" by (rule only_brkE)
  have "only_brk (rd\<lparr>xr_stack := cur' # rest, xr_version := ver\<rparr>) rest (s\<lparr>st_brk := k\<rparr>)
      (ofold (xml_handle env xe) (concat (map xml_events xs)) (rd\<lparr>xr_stack := cur' # rest, xr_version := ver\<rparr>, s\<lparr>st_brk := k\<rparr>))"
    by (rule Cons.IH) (use Cons.prems(1) r(2) in simp_all)
  from only_brk_trans [OF x [unfolded r(1)] this] show ?case by (simp add: ofold_append r(1))
qed

lemma content_ignored:
  assumes "xr_stack rd = cur # rest" and "ignored cur" and "rest \<noteq> []" and "fits (9 - length rest) x"
  shows "only_brk rd rest s (ofold (xml_handle env xe) (xml_events x) (rd, s))"
  using assms
proof (induction x arbitrary: rd cur rest s)
  case (Xml_text t)
  then show ?case using chars_ignored [of rd cur rest t s] by (auto simp: only_brk_def) (metis xml_rd.surjective xml_rd.update_convs)
next
  case (Xml_elem n a kids)
  then have "length (xr_stack rd) < 10" by simp
  with start_ignored Xml_elem.prems obtain new ver where st: "startElement env xe n a (rd, s) =
      Some (rd\<lparr>xr_stack := new # cur # rest, xr_version := ver\<rparr>, s)" "ignored new" by metis
  let ?rd = "rd\<lparr>xr_stack := new # cur # rest, xr_version := ver\<rparr>"
  have "only_brk ?rd (cur # rest) s (ofold (xml_handle env xe) (concat (map xml_events kids)) (?rd, s))"
  proof (rule contents_ignored [where cur = new])
    show "only_brk r (cur # rest) s' (ofold (xml_handle env xe) (xml_events k) (r, s'))"
      if "k \<in> set kids" "xr_stack r = c # cur # rest" "ignored c" for k r c s'
      by (rule Xml_elem.IH [OF that]) (use Xml_elem.prems(4) that(1) in \<open>simp_all add: list_all_iff\<close>)
  qed (use st(2) in simp_all)
  then obtain new' ver' k where kids: "ofold (xml_handle env xe) (concat (map xml_events kids)) (?rd, s) =
      Some (?rd\<lparr>xr_stack := new' # cur # rest, xr_version := ver'\<rparr>, s\<lparr>st_brk := k\<rparr>)" "ignored new'" by (rule only_brkE)
  have "endElement env xe (?rd\<lparr>xr_stack := new' # cur # rest, xr_version := ver'\<rparr>, s\<lparr>st_brk := k\<rparr>) =
      Some (rd\<lparr>xr_stack := cur # rest, xr_version := ver'\<rparr>, s\<lparr>st_brk := k\<rparr>)"
    using end_ignored [of "?rd\<lparr>xr_stack := new' # cur # rest, xr_version := ver'\<rparr>" new' "cur # rest"] kids(2) by simp
  then show ?case using st(1) kids(1) Xml_elem.prems(2) by (auto simp: ofold_append only_brk_def)
qed


definition empty_schema :: "dm_env \<Rightarrow> dm_env" where
  "empty_schema env = env\<lparr>dm_root := DmTable [] [] []\<rparr>"


section \<open>Strings come back into the store\<close>

lemma free_blob_frame: "free_blob p s = Some s' \<Longrightarrow> tables s' = tables s \<and> nodes s' = nodes s"
  by (cases p) (auto simp: free_blob_def bind_Some_iff)

lemma free_string_frame: "dm_free_string_value v s = Some (v', s') \<Longrightarrow> tables s' = tables s \<and> nodes s' = nodes s"
  by (auto simp: dm_free_string_value_def DM_MEM_SUB_def bind_Some_iff split: option.split_asm dest!: free_blob_frame)

lemma new_blob_frame: "new_blob b s = (q, s') \<Longrightarrow> tables s' = tables s \<and> nodes s' = nodes s"
  by (auto simp: new_blob_def malloc_def split: if_split_asm)

lemma set_string_frame:
  assumes "dm_set_string_value y v s = Some (r, v', s')"
  shows "tables s' = tables s \<and> nodes s' = nodes s"
proof -
  from assms obtain w s1 where w: "dm_free_string_value v s = Some (w, s1)" by (auto simp: dm_set_string_value_def bind_Some_iff)
  consider c cs where "y = Some (c # cs)" | "y = None \<or> y = Some []" by (metis list.exhaust option.exhaust)
  then show ?thesis
  proof cases
    case 1
    obtain q s2 where "new_blob (B_str (c # cs)) s1 = (q, s2)" by fastforce
    with 1 assms w free_string_frame [OF w] new_blob_frame show ?thesis
      by (cases q) (auto simp: dm_set_string_value_def DM_MEM_ADD_def)
  next
    case 2
    with assms w free_string_frame [OF w] show ?thesis by (auto simp: dm_set_string_value_def)
  qed
qed

text \<open>The reader is in an element of the schema, and the table of this has a string element \<open>key\<close> at the place \<open>r\<close>.\<close>

definition string_cell :: "xml_rd \<Rightarrow> dmst \<Rightarrow> cstr \<Rightarrow> dm_element \<Rightarrow> vref \<Rightarrow> bool" where
  "string_cell rd s key kw r \<longleftrightarrow> (\<exists>par rest e k pv t x v p old.
     xr_stack rd = par # rest \<and> length rest < 9 \<and> state_is XML_VALID par \<and> \<not> state_is XML_ROOT par \<and>
     xs_element par = Some e \<and> u_table e = Some (Some k) \<and> dm_get_element_id_by_name key (Some k) = x \<and> x \<noteq> DM_ERR \<and> x \<noteq> 0 \<and>
     nth_opt (tab_elems k) (unat x - 1) = Some kw \<and> el_type kw = T_STR \<and>
     xget (xs_value par) (rd, s) = Some pv \<and> DM_TABLE pv = Some (Some t) \<and> r = VTab t (unat x - 1) \<and>
     getv s r = Some v \<and> string_at s v p old)"

definition leaf_events :: "cstr \<Rightarrow> bool \<Rightarrow> cstr \<Rightarrow> xml_event list" where
  "leaf_events key escaped body =
     [X_start key (if escaped then [(lit ''encoding'', lit ''escaped'')] else []), X_chars body, X_end]"

definition leaf_state :: "dm_element \<Rightarrow> vref \<Rightarrow> bool \<Rightarrow> XMLstate" where
  "leaf_state kw r escaped = \<lparr>xs_element = Some kw, xs_value = Some (X_ref r),
     xs_flags = (if escaped then XML_ESCAPED OR XML_VALID else XML_VALID), xs_text = None, xs_inst = False, xs_node = None\<rparr>"

lemma leaf_atts:
  "read_atts (if escaped then [(lit ''encoding'', lit ''escaped'')] else []) no_atts = Some (no_atts\<lparr>xa_escaped := escaped\<rparr>)"
  by (cases escaped) (simp_all add: no_atts_def strcasecmp_def lit_def lower_def)

lemma notify_keeps_string:
  "\<exists>q w. set_notify_single_slot_element kw v 0 n = Some (q, w) \<and> DM_STRING w = DM_STRING v"
  by (auto simp: set_notify_single_slot_element_def Let_def DM_STRING_def DM_type_assert_def)

lemma leaf_start:
  assumes "string_cell rd s key kw r"
  shows "\<exists>s1 w p old. startElement env xe key (if escaped then [(lit ''encoding'', lit ''escaped'')] else []) (rd, s) =
      Some (rd\<lparr>xr_stack := leaf_state kw r escaped # xr_stack rd\<rparr>, s1) \<and> putv s r w = Some s1 \<and> string_at s w p old"
proof -
  from assms obtain par rest e k pv t x v p old where c:
    "xr_stack rd = par # rest" "length rest < 9" "state_is XML_VALID par" "\<not> state_is XML_ROOT par"
    "xs_element par = Some e" "u_table e = Some (Some k)" "dm_get_element_id_by_name key (Some k) = x" "x \<noteq> DM_ERR" "x \<noteq> 0"
    "nth_opt (tab_elems k) (unat x - 1) = Some kw" "el_type kw = T_STR"
    "xget (xs_value par) (rd, s) = Some pv" "DM_TABLE pv = Some (Some t)" "r = VTab t (unat x - 1)"
    "getv s r = Some v" "string_at s v p old" unfolding string_cell_def by blast
  obtain q w where w: "set_notify_single_slot_element kw v 0 0 = Some (q, w)" "DM_STRING w = DM_STRING v"
    using notify_keeps_string by blast
  obtain s1 where s1: "putv s r w = Some s1" using putv_getv [OF c(15)] by blast
  obtain tb where tb: "tables s t = Some tb" using c(14,15) by (auto simp: bind_Some_iff)
  have known: "start_known env fl (no_atts\<lparr>xa_escaped := escaped\<rparr>) (Some t) kw x
      (if escaped then set_flag XML_ESCAPED zero_state else zero_state) s = Some (leaf_state kw r escaped, s1)" for fl
    using c(9,11,14,15) tb w(1) s1
    by (auto simp: start_known_def dm_get_value_ref_by_id_def val_ref_def tab_def no_atts_def leaf_state_def zero_state_def set_flag_def Let_def)
  have "startElement env xe key (if escaped then [(lit ''encoding'', lit ''escaped'')] else []) (rd, s) =
      Some (rd\<lparr>xr_stack := leaf_state kw r escaped # xr_stack rd\<rparr>, s1)"
    using c known unfolding startElement_def leaf_atts
    by (simp add: with_version_def no_atts_def)
  then show ?thesis using s1 w(2) c(16) by (auto simp: string_at_def)
qed

lemma str_of_blobs: "blobs s' = blobs s \<Longrightarrow> str_of s' q = str_of s q"
  by (cases q) (simp_all add: str_of_def)

lemma leaf_end:
  assumes "xr_stack rd \<noteq> []" and "el_type kw = T_STR" and "getv s r = Some w" and "string_at s w p old" and "heap_ok s"
    and "\<forall>n. \<not> st_oom s n" and "str \<noteq> []"
  shows "\<exists>s' v q. endElement env xe (rd\<lparr>xr_stack := (leaf_state kw r escaped)\<lparr>xs_text := Some str\<rparr> # xr_stack rd\<rparr>, s) = Some (rd, s') \<and>
    getv s' r = Some v \<and> string_at s' v q (Some str) \<and> (\<forall>r'. r' \<noteq> r \<longrightarrow> getv s' r' = getv s r')"
proof -
  let ?cur = "(leaf_state kw r escaped)\<lparr>xs_text := Some str\<rparr>"
  obtain v1 s1 q where set: "dm_set_string_value (Some str) w s = Some (DM_OK, v1, s1)" "string_at s1 v1 q (Some str)"
    using set_string_spec [OF assms(4,5), of "Some str"] assms(6,7) by auto
  note frame = set_string_frame [OF set(1)]
  have other: "getv s1 r' = getv s r'" for r' using frame by (intro getv_fields) simp_all
  obtain v2 where v2: "dm_string2value env (xe_text xe) (Some kw) (Some str) upd w s = Some (DM_OK, v2, s1)" "DM_STRING v2 = DM_STRING v1"
    if "upd = (xr_flags rd AND DS_USERCONFIG \<noteq> 0)" for upd
    using assms(2,4) set(1)
    by (auto simp: dm_string2value_def string2value_switch_def string_at_def DM_STRING_def DM_type_assert_def)
  obtain s2 where s2: "putv s1 r v2 = Some s2" using putv_getv [of s1 r w] other assms(3) by auto
  have flags: "state_is XML_VALID ?cur" "xs_flags ?cur AND XML_ROOT \<noteq> XML_VALID" "\<not> state_is XML_UPGRADE ?cur"
    by (simp_all add: state_is_def leaf_state_def XML_VALID_def XML_ROOT_def XML_UPGRADE_def XML_ESCAPED_def)
  have "handleElement env xe ?cur (rd', s) = Some (rd', s2)" if "xr_flags rd' = xr_flags rd" for rd'
    using v2 s2 assms(3) that by (simp add: handleElement_def leaf_state_def xget_def xput_def)
  then have "endElement env xe (rd\<lparr>xr_stack := ?cur # xr_stack rd\<rparr>, s) = Some (rd, s2)"
    using flags assms(1) by (simp add: endElement_def) (simp add: leaf_state_def)
  moreover have "getv s2 r = Some v2" "string_at s2 v2 q (Some str)" "\<forall>r'. r' \<noteq> r \<longrightarrow> getv s2 r' = getv s r'"
    using s2 set(2) v2(2) other str_of_blobs [OF putv_sel(4) [OF s2]] by (auto simp: cells string_at_def)
  ultimately show ?thesis by blast
qed

lemma leaf_chars:
  assumes "\<forall>n. \<not> st_oom s n"
    and "(if escaped then string_unescape [] txt else takeWhile (\<lambda>c. c \<noteq> 0) txt) = str"
  shows "charElement txt (rd\<lparr>xr_stack := leaf_state kw r escaped # rest\<rparr>, s) =
    Some (rd\<lparr>xr_stack := (leaf_state kw r escaped)\<lparr>xs_text := Some str\<rparr> # rest\<rparr>, s\<lparr>st_brk := st_brk s + 1\<rparr>)"
proof -
  have "state_is XML_ESCAPED (leaf_state kw r escaped) \<longleftrightarrow> escaped"
    by (simp add: state_is_def leaf_state_def XML_ESCAPED_def XML_VALID_def)
  then show ?thesis using assms by (auto simp: charElement_def malloc_def leaf_state_def)
qed


definition ex_leaf :: dm_element where
  "ex_leaf = Element (lit ''name'') T_STR 0 0 (Fk_value \<lparr>vf_validate = None, vf_get = None, vf_set = None\<rparr>) U_none"

definition ex_schema :: "dm_env \<Rightarrow> dm_env" where
  "ex_schema env = env\<lparr>dm_root := DmTable [] [] [ex_leaf]\<rparr>"

definition ex_store :: dmst where
  "ex_store = initial_state\<lparr>st_brk := 1, tables := [0 \<mapsto> \<lparr>vt_id = no_selector, vt_values = [set_DM_STRING zero_value None]\<rparr>]\<rparr>"

definition ex_reader :: "dm_env \<Rightarrow> xml_rd" where
  "ex_reader env = \<lparr>xr_stack = [root_state (ex_schema env), bottom_state], xr_root = set_DM_TABLE zero_value (Some 0), xr_flags = 0, xr_version = 1\<rparr>"

lemma ex_string_cell: "string_cell (ex_reader env) ex_store (lit ''name'') ex_leaf (VTab 0 0)"
proof -
  have "dm_get_element_id_by_name (lit ''name'') (Some (DmTable [] [] [ex_leaf])) = 1" by (simp add: dm_get_element_id_by_name_def ex_leaf_def)
  moreover have "(1 :: dm_id) \<noteq> DM_ERR" by (simp add: DM_ERR_def)
  moreover have "DM_TABLE (set_DM_TABLE zero_value (Some 0)) = Some (Some 0)" by simp
  moreover have "string_at ex_store (set_DM_STRING zero_value None) None None" by (simp add: string_at_def str_of_def)
  moreover have "getv ex_store (VTab 0 0) = Some (set_DM_STRING zero_value None)" by (simp add: ex_store_def nth_opt_def)
  ultimately show ?thesis unfolding string_cell_def
    by (intro exI [of _ "root_state (ex_schema env)"] exI [of _ "[bottom_state]"] exI [of _ "root_element (ex_schema env)"]
          exI [of _ "DmTable [] [] [ex_leaf]"] exI [of _ "set_DM_TABLE zero_value (Some 0)"] exI [of _ 0] exI [of _ 1]
          exI [of _ "set_DM_STRING zero_value None"] exI [of _ None])
       (simp add: ex_reader_def root_state_def zero_state_def root_element_def ex_schema_def state_is_def XML_VALID_def XML_ROOT_def nth_opt_def
          xget_def ex_leaf_def)
qed


end
