(* ===== verification/Dm_Lua_Props.thy ===== *)
theory Dm_Lua_Props
  imports Dm_Lua Dm_Strings_Props Dm_Deserialize_Props
begin

text \<open>
  Scripts and the store: a value that a script reads can be given back and is the same; setting a value changes nothing.
\<close>

section \<open>Printed numbers\<close>

lemma decimal_length: "n < 10 ^ Suc k \<Longrightarrow> length (decimal n) \<le> Suc k"
proof (induction k arbitrary: n)
  case 0
  then show ?case by (subst decimal.simps) simp
next
  case (Suc k)
  then have "n div 10 < 10 ^ Suc k" by (simp add: less_mult_imp_div_less mult.commute)
  with Suc.IH show ?case by (subst decimal.simps) simp
qed

lemma digits_all: "digits_value 0 (decimal n) = (n, [])"
  using digits_value_append [of "decimal n" 0 "[]"] decimal_digits digits_value_decimal by simp

lemma scan_negative: "scan_number (45 # decimal n) = Some (True, n, [])"
proof -
  obtain c cs where d: "decimal n = c # cs" using decimal_nonempty [of n] by (cases "decimal n") auto
  then have "isdigit c" using decimal_hd [of n "[]"] by simp
  then show ?thesis using digits_all [of n] d by (simp add: scan_number_def isspace_def)
qed

lemma strtol_sdecimal:
  assumes "- (2 ^ 63) \<le> i" and "i < 2 ^ 63"
  shows "strtol (sdecimal i) = (i, [])"
proof (cases "i < 0")
  case True
  then show ?thesis using scan_negative [of "nat (- i)"] assms by (simp add: strtol_def sdecimal_def)
next
  case False
  then show ?thesis using strtol_decimal [of "nat i" "[]"] assms by (simp add: sdecimal_def)
qed

lemma strtoul_decimal: "strtoul (decimal (unat x)) = (x, [])"
  using scan_decimal [of "[]" "unat x"] unsigned_less [of x, where ?'a = nat] by (simp add: strtoul_def)

lemma sint_range: "- (2 ^ 63) \<le> sint (x :: u64)" "sint (x :: u64) < 2 ^ 63"
  using sint_ge [of x] sint_lt [of x] by simp_all

lemma sdecimal_fits: "take 20 (sdecimal (sint (x :: u64))) = sdecimal (sint x)"
proof -
  have "length (decimal (nat \<bar>sint x\<bar>)) \<le> Suc 18"
    by (rule decimal_length) (use sint_range [of x] in auto)
  then show ?thesis by (auto simp: sdecimal_def)
qed

lemma decimal_fits: "take 20 (decimal (unat (x :: u64))) = decimal (unat x)"
proof -
  have "length (decimal (unat x)) \<le> Suc 19"
    by (rule decimal_length) (use unsigned_less [of x, where ?'a = nat] in auto)
  then show ?thesis by simp
qed

section \<open>Values come back\<close>

text \<open>
  What is relied on of Lua: numbers that a double holds exactly, strings and booleans that were pushed are what the accessors give.
\<close>

definition lua_laws :: "'v lua_api \<Rightarrow> (lua_out \<Rightarrow> 'v) \<Rightarrow> bool" where
  "lua_laws la push \<longleftrightarrow>
     (\<forall>i. - (2 ^ 53) \<le> i \<and> i \<le> 2 ^ 53 \<longrightarrow> la_isnumber la (push (O_int i)) \<and> la_tointeger la (push (O_int i)) = i) \<and>
     (\<forall>x. la_isstring la (push (O_str x)) \<and> la_tstring la (push (O_str x)) \<and> \<not> la_tnumber la (push (O_str x)) \<and>
          la_tolstring la (push (O_str x)) = x) \<and>
     (\<forall>b. la_isboolean la (push (O_bool b)) \<and> la_toboolean la (push (O_bool b)) = b)"

text \<open>A value of the element as the store holds it: numbers, truth values, strings and enumerations.\<close>

definition lua_plain :: "dm_element \<Rightarrow> DM_VALUE \<Rightarrow> dmst \<Rightarrow> bool" where
  "lua_plain e val s \<longleftrightarrow> (case el_type e of
     T_INT \<Rightarrow> DM_INT val \<noteq> None
   | T_UINT \<Rightarrow> DM_UINT val \<noteq> None
   | T_INT64 \<Rightarrow> DM_INT64 val \<noteq> None
   | T_UINT64 \<Rightarrow> DM_UINT64 val \<noteq> None
   | T_BOOL \<Rightarrow> DM_BOOL val = Some 0 \<or> DM_BOOL val = Some 1
   | T_STR \<Rightarrow> (\<exists>p x. string_at s val p x \<and> x \<noteq> Some [] \<and> (\<forall>y. x = Some y \<longrightarrow> 0 \<notin> set y))
   | T_ENUM \<Rightarrow> (\<exists>names x. u_enum e = Some (enum_of names) \<and> enum_names names \<and> DM_ENUM val = Some x \<and>
                 0 \<le> sint x \<and> sint x < int (length names))
   | _ \<Rightarrow> False)"

lemmas lua_codes = AVP_UNKNOWN_def AVP_INT32_def AVP_UINT32_def AVP_INT64_def AVP_UINT64_def AVP_BOOL_def AVP_STRING_def AVP_ENUM_def AVP_ENUMID_def

lemma push_int: "lua_laws la push \<Longrightarrow> - (2 ^ 53) \<le> i \<Longrightarrow> i \<le> 2 ^ 53 \<Longrightarrow>
    la_isnumber la (push (O_int i)) \<and> la_tointeger la (push (O_int i)) = i"
  by (simp add: lua_laws_def)

lemma push_bool: "lua_laws la push \<Longrightarrow> la_isboolean la (push (O_bool b)) \<and> la_toboolean la (push (O_bool b)) = b"
  by (simp add: lua_laws_def)

lemma push_str: "lua_laws la push \<Longrightarrow> la_isstring la (push (O_str x)) \<and> la_tstring la (push (O_str x)) \<and> \<not> la_tnumber la (push (O_str x)) \<and>
    la_tolstring la (push (O_str x)) = x"
  by (simp add: lua_laws_def)

lemma push_text: "lua_laws la push \<Longrightarrow> 0 \<notin> set x \<Longrightarrow> la_tostring la (push (O_str x)) = x"
  using push_str [of la push x] by (auto simp: la_tostring_def takeWhile_eq_all_conv)

lemma isdigit_zero: "\<not> isdigit 0"
  by (simp add: isdigit_def)

lemma sdecimal_nonempty: "[] \<noteq> sdecimal i"
  by (metis decimal_nonempty list.distinct(1) sdecimal_def)

lemma decimal_no_nul: "0 \<notin> set (decimal n)" "0 \<notin> set (sdecimal i)"
proof -
  have "c \<noteq> 0" if "c \<in> set (decimal n)" for c n
    using decimal_digits [OF that] digit_byte(1) by (metis isdigit_zero)
  then show "0 \<notin> set (decimal n)" "0 \<notin> set (sdecimal i)" by (auto simp: sdecimal_def)
qed

text \<open>Reading a value and giving it back, for the type of the element.\<close>

definition comes_back :: "'v lua_api \<Rightarrow> (lua_out \<Rightarrow> 'v) \<Rightarrow> lua_env \<Rightarrow> dm_element \<Rightarrow> DM_VALUE \<Rightarrow> dmst \<Rightarrow> bool" where
  "comes_back la push le e val s \<longleftrightarrow> (\<exists>out code v' s'.
     luaif_get_value le AVP_UNKNOWN e val s = Some (Inr (O_entry out code)) \<and>
     luaif_tvpair_to_value la le code (push out) (Some e) s = Some (DM_OK, v', s') \<and>
     dm_compare_values s' (el_type e) val v' = Some 0)"

lemma int_comes_back: "lua_laws la push \<Longrightarrow> el_type e = T_INT \<Longrightarrow> DM_INT val = Some x \<Longrightarrow> comes_back la push le e val s"
  using push_int [of la push "sint x"] sint_ge [of x] sint_lt [of x]
  by (simp add: comes_back_def luaif_get_value_def lua_push_def luaif_tvpair_to_value_def lua_codes cmp3_def)

lemma uint_comes_back:
  assumes "lua_laws la push" and "el_type e = T_UINT" and "DM_UINT val = Some x"
  shows "comes_back la push le e val s"
proof -
  have "uint x < 2 ^ 32" using unsigned_less [of x, where ?'a = int] by simp
  then have "uint x \<le> 2 ^ 53" by simp
  moreover have "- (2 ^ 53) \<le> uint x" by (rule order_trans [OF _ uint_nonnegative]) simp
  ultimately have "la_isnumber la (push (O_int (uint x))) \<and> la_tointeger la (push (O_int (uint x))) = uint x"
    using push_int [OF assms(1)] by blast
  then show ?thesis using assms(2,3)
    by (simp add: comes_back_def luaif_get_value_def lua_push_def luaif_tvpair_to_value_def lua_codes cmp3_def)
qed

lemma int64_comes_back:
  assumes "lua_laws la push" and "el_type e = T_INT64" and "DM_INT64 val = Some x"
  shows "comes_back la push le e val s"
  using assms push_str [OF assms(1)] push_text [OF assms(1) decimal_no_nul(2)] strtol_sdecimal [OF sint_range [of x]] sdecimal_fits [of x] sdecimal_nonempty
  by (simp add: comes_back_def luaif_get_value_def lua_push_def luaif_tvpair_to_value_def lua_wide_def lua_codes cmp3_def)

lemma uint64_comes_back:
  assumes "lua_laws la push" and "el_type e = T_UINT64" and "DM_UINT64 val = Some x"
  shows "comes_back la push le e val s"
  using assms push_str [OF assms(1)] push_text [OF assms(1) decimal_no_nul(1)] strtoul_decimal [of x] decimal_fits [of x] not_sym [OF decimal_nonempty]
  by (simp add: comes_back_def luaif_get_value_def lua_push_def luaif_tvpair_to_value_def lua_wide_def lua_codes cmp3_def)

lemma bool_comes_back:
  assumes "lua_laws la push" and "el_type e = T_BOOL" and "DM_BOOL val = Some x" and "x = 0 \<or> x = 1"
  shows "comes_back la push le e val s"
  using assms(2-4) push_bool [OF assms(1), of "x \<noteq> 0"]
  by (simp add: comes_back_def luaif_get_value_def lua_push_def luaif_tvpair_to_value_def lua_codes) auto

lemma enum_comes_back:
  assumes "lua_laws la push" and "el_type e = T_ENUM" and "u_enum e = Some (enum_of names)" and "enum_names names" and "DM_ENUM val = Some x"
    and "0 \<le> sint x" and "sint x < int (length names)"
  shows "comes_back la push le e val s"
proof -
  obtain k where k: "sint x = int k" "k < length names" using assms(6,7) by (metis nat_0_le of_nat_less_iff)
  have r: "dm_int2enum (Some (enum_of names)) (int k) = Some (names ! k)" "dm_enum2int (Some (enum_of names)) (names ! k) = Some (int k)"
    using enum_roundtrip [OF assms(4)] k(2) by blast+
  have "0 \<notin> set (names ! k)" using assms(4) k(2) by (auto simp: enum_names_def)
  then have t: "la_tostring la (push (O_str (names ! k))) = names ! k" by (rule push_text [OF assms(1)])
  have "word_of_int (sint x) = x" by simp
  then have "word_of_int (int k) = x" using k(1) by simp
  then show ?thesis using assms k r t push_str [OF assms(1)]
    by (simp add: comes_back_def luaif_get_value_def lua_push_def luaif_tvpair_to_value_def lua_codes)
qed

lemma string_comes_back:
  assumes "lua_laws la push" and "el_type e = T_STR" and "string_at s val p x" and "x \<noteq> Some []" and "\<forall>y. x = Some y \<longrightarrow> 0 \<notin> set y"
    and "heap_ok s" and "\<forall>n. \<not> st_oom s n"
  shows "comes_back la push le e val s"
proof -
  define y where "y = (case x of None \<Rightarrow> [] | Some y \<Rightarrow> y)"
  have nul: "0 \<notin> set y" using assms(5) by (auto simp: y_def split: option.split)
  have z: "dm_free_string_value zero_value s = Some (zero_value, s)"
    by (simp add: dm_free_string_value_def DM_STRING_def DM_type_assert_def str_of_def)
  have "\<exists>v' s' q. dm_set_string_value (Some y) zero_value s = Some (DM_OK, v', s') \<and> string_at s' v' q x \<and> str_of s' p = Some x"
  proof (cases x)
    case None
    then show ?thesis using z assms(3) by (simp add: y_def dm_set_string_value_def string_at_def str_of_def)
  next
    case (Some y')
    then obtain c cs where y': "y' = c # cs" using assms(4) by (cases y') auto
    let ?s = "DM_MEM_ADD (int (length (c # cs))) (s\<lparr>st_brk := st_brk s + 1, blobs := (blobs s)(st_brk s \<mapsto> B_str (c # cs))\<rparr>)"
    have "dm_set_string_value (Some y) zero_value s = Some (DM_OK, set_DM_STRING zero_value (Some (st_brk s)), ?s)"
      using z Some y' assms(7) by (simp add: y_def dm_set_string_value_def new_blob_def malloc_def)
    moreover have "string_at ?s (set_DM_STRING zero_value (Some (st_brk s))) (Some (st_brk s)) x"
      using Some y' by (simp add: string_at_def str_of_def DM_MEM_ADD_def)
    moreover have "str_of ?s p = Some x"
      using assms(3,6) Some y' by (cases p) (auto simp: string_at_def str_of_def DM_MEM_ADD_def heap_ok_def)
    ultimately show ?thesis by blast
  qed
  then obtain v' s' q where s: "dm_set_string_value (Some y) zero_value s = Some (DM_OK, v', s')" "string_at s' v' q x" "str_of s' p = Some x" by blast
  have "ptr_cmp strcmp x x = 0" by (cases x) (simp_all add: ptr_cmp_def strcmp_zero)
  then show ?thesis using assms(1-3) s push_str [OF assms(1)] push_text [OF assms(1) nul]
    by (simp add: comes_back_def luaif_get_value_def lua_push_def luaif_tvpair_to_value_def lua_codes string_at_def flip: y_def)
qed


text \<open>Lua with the values that are pushed.\<close>

definition out_api :: "lua_out lua_api" where
  "out_api = \<lparr>la_isnil = (\<lambda>v. v = O_code DM_OK), la_istable = (\<lambda>v. case v of O_table _ \<Rightarrow> True | _ \<Rightarrow> False),
     la_isnumber = (\<lambda>v. case v of O_int _ \<Rightarrow> True | _ \<Rightarrow> False), la_isstring = (\<lambda>v. case v of O_str _ \<Rightarrow> True | _ \<Rightarrow> False),
     la_isboolean = (\<lambda>v. case v of O_bool _ \<Rightarrow> True | _ \<Rightarrow> False), la_tnumber = (\<lambda>v. case v of O_int _ \<Rightarrow> True | _ \<Rightarrow> False),
     la_tstring = (\<lambda>v. case v of O_str _ \<Rightarrow> True | _ \<Rightarrow> False), la_tointeger = (\<lambda>v. case v of O_int i \<Rightarrow> i | _ \<Rightarrow> 0),
     la_tolstring = (\<lambda>v. case v of O_str x \<Rightarrow> x | _ \<Rightarrow> []), la_toboolean = (\<lambda>v. case v of O_bool b \<Rightarrow> b | _ \<Rightarrow> True),
     la_index = (\<lambda>v i. case v of O_table xs \<Rightarrow> if 1 \<le> i \<and> nat i \<le> length xs then xs ! (nat i - 1) else O_code DM_OK | _ \<Rightarrow> O_code DM_OK)\<rparr>"

lemma out_api_laws: "lua_laws out_api (\<lambda>x. x)"
  by (simp add: lua_laws_def out_api_def)


section \<open>Setting has no effect\<close>

text \<open>Only the memory of strings, binaries and selectors differs.\<close>

definition mem_only :: "dmst \<Rightarrow> dmst \<Rightarrow> bool" where
  "mem_only s s' \<longleftrightarrow> st_oom s' = st_oom s \<and> tables s' = tables s \<and> trees s' = trees s \<and> nodes s' = nodes s \<and> idxmem s' = idxmem s \<and>
     dm_value_store s' = dm_value_store s \<and> notify_pending s' = notify_pending s \<and> slot_map s' = slot_map s \<and> slot_cnt s' = slot_cnt s \<and>
     slots s' = slots s \<and> exec_chain s' = exec_chain s \<and> cache s' = cache s"

named_theorems mem_frames \<open>operations that touch only the memory of blobs\<close>

lemma mem_only_refl [simp]: "mem_only s s"
  by (simp add: mem_only_def)

lemma mem_only_trans: "mem_only s t \<Longrightarrow> mem_only t u \<Longrightarrow> mem_only s u"
  by (simp add: mem_only_def)

lemma mem_only_MEM [simp]: "mem_only s (DM_MEM_SUB n s)" "mem_only s (DM_MEM_ADD n s)"
  by (simp_all add: mem_only_def DM_MEM_SUB_def DM_MEM_ADD_def)

lemma free_blob_mem [mem_frames]: "free_blob p s = Some s' \<Longrightarrow> mem_only s s'"
  by (cases p) (auto simp: free_blob_def mem_only_def bind_Some_iff)

lemma new_blob_mem [mem_frames]: "new_blob b s = (q, s') \<Longrightarrow> mem_only s s'"
  by (auto simp: new_blob_def malloc_def mem_only_def split: if_split_asm)

lemma malloc_mem [mem_frames]: "malloc s = (q, s') \<Longrightarrow> mem_only s s'"
  by (auto simp: malloc_def mem_only_def)

lemma free_string_mem [mem_frames]: "dm_free_string_value v s = Some (v', s') \<Longrightarrow> mem_only s s'"
  by (auto simp: dm_free_string_value_def bind_Some_iff split: option.split_asm dest!: free_blob_mem intro: mem_only_trans [OF mem_only_MEM(1)])

lemma free_binary_mem [mem_frames]: "dm_free_binary_value v s = Some (v', s') \<Longrightarrow> mem_only s s'"
  by (auto simp: dm_free_binary_value_def bind_Some_iff split: option.split_asm dest!: free_blob_mem intro: mem_only_trans [OF mem_only_MEM(1)])

lemma free_selector_mem [mem_frames]: "dm_free_selector_value v s = Some (v', s') \<Longrightarrow> mem_only s s'"
  by (auto simp: dm_free_selector_value_def bind_Some_iff split: option.split_asm dest!: free_blob_mem intro: mem_only_trans [OF _ mem_only_MEM(1)])

lemma blob_then_add: "mem_only s t \<Longrightarrow> new_blob b t = (q, u) \<Longrightarrow> mem_only s u \<and> mem_only s (DM_MEM_ADD n u)"
  using new_blob_mem mem_only_trans mem_only_MEM(2) by metis

lemma set_string_mem [mem_frames]: "dm_set_string_value y v s = Some (r, v', s') \<Longrightarrow> mem_only s s'"
  unfolding dm_set_string_value_def
  by (auto split: option.split_asm list.split_asm prod.split_asm Option.bind_split_asm dest!: free_string_mem dest: blob_then_add)

lemma set_binary_mem [mem_frames]:
  "dm_set_binary_data y v s = Some (r, v', s') \<Longrightarrow> mem_only s s'" "dm_set_binary_value y v s = Some (r, v', s') \<Longrightarrow> mem_only s s'"
  unfolding dm_set_binary_data_def dm_set_binary_value_def
  by (auto split: option.split_asm list.split_asm prod.split_asm Option.bind_split_asm dest!: free_binary_mem dest: blob_then_add)

lemma set_selector_mem [mem_frames]: "dm_set_selector_value y v s = Some (r, v', s') \<Longrightarrow> mem_only s s'"
  unfolding dm_set_selector_value_def
  by (auto split: option.split_asm if_split_asm prod.split_asm Option.bind_split_asm
      dest!: free_selector_mem dest: blob_then_add [OF mem_only_refl])
     (simp_all add: mem_only_def)

lemma set_number_mem: "set_number err n get put v s = Some (r, u, v', s') \<Longrightarrow> mem_only s s'"
  by (cases n) (auto simp: set_number_def bind_Some_iff split: if_split_asm)

lemma string2value_mem: "string2value_switch env tf e str v s = Some (r, u, v', s') \<Longrightarrow> mem_only s s'"
  by (cases "el_type e")
     (auto simp: string2value_switch_def bind_Some_iff Let_def split: if_split_asm option.split_asm prod.split_asm Option.bind_split_asm
       dest!: set_number_mem dest: mem_frames intro: mem_only_trans)

lemma text2value_mem: "dm_string2value env tf (Some e) (Some str) b v s = Some (r, v', s') \<Longrightarrow> mem_only s s'"
  by (auto simp: dm_string2value_def bind_Some_iff dest: string2value_mem)

lemma lua_wide_mem: "lua_wide la v parse put s = Some (r, v', s') \<Longrightarrow> s' = s"
  by (auto simp: lua_wide_def invalid_type_def Let_def split: if_split_asm prod.split_asm)

lemma tvpair_mem:
  assumes "luaif_tvpair_to_value la le ty v e s = Some (r, v', s')"
  shows "mem_only s s'"
proof (cases e)
  case None
  then show ?thesis using assms by (simp add: luaif_tvpair_to_value_def)
next
  case (Some e')
  show ?thesis
  proof (cases "ty = AVP_UNKNOWN")
    case True
    then show ?thesis using assms Some
      by (auto simp: luaif_tvpair_to_value_def invalid_type_def Let_def split: if_split_asm dest: text2value_mem)
  next
    case False
    then show ?thesis using assms Some
      by (cases "el_type e'")
         (auto simp: luaif_tvpair_to_value_def invalid_type_def Let_def bind_Some_iff split: if_split_asm option.split_asm Option.bind_split_asm
           dest: mem_frames dest!: lua_wide_mem)
  qed
qed

lemma set_group_mem: "set_group la le g sel s = Some (r, s') \<Longrightarrow> mem_only s s'"
  by (auto simp: set_group_def dm_get_value_ref_by_selector_cb_def luaif_set_cb_def bind_Some_iff split: if_split_asm dest: tvpair_mem)

lemma set_loop_mem:
  assumes "set_loop la le t i g s = Some y"
  shows "mem_only s (snd y)"
proof (rule set_loop.raw_induct [where P = "\<lambda>_ _ _ _ _ s y. mem_only s (snd y)", OF _ assms], goal_cases)
  case (1 self la le t i g s y)
  from 1(2) show ?case
    by (auto simp: bind_Some_iff split: if_split_asm option.split_asm dest!: set_group_mem 1(1) intro: mem_only_trans)
qed


definition ex_lua :: lua_env where
  "ex_lua = \<lparr>le_dm = number_env, le_text = \<lparr>tf_pton4 = \<lambda>_. None, tf_pton6 = \<lambda>_. None, tf_str2ticks = \<lambda>_. None\<rparr>,
     le_ser = \<lparr>sf_ticks2str = \<lambda>_. [], sf_ticks2realtime = \<lambda>x. x, sf_ntop4 = \<lambda>_. [], sf_ntop6 = \<lambda>_. []\<rparr>\<rparr>"

definition ex_set :: "lua_out list" where
  "ex_set = [O_table [O_table [O_int 2205, O_str (el_key number_element), O_int 42]]]"


end
