(* ===== verification/Spec2Isabelle.thy ===== *)
theory Spec2Isabelle
  imports Dm_Binary Dm_Rbtree_Props Dm_Object_Props Dm_Store_Props Dm_Cache_Props Dm_Walk Dm_Msg_Props Dm_Strings_Props Dm_Session_Props Dm_Avp_Props
    Dm_Outgoing Dm_Agent_Props Dm_Validate_Props Dm_Lua_Props
begin

text \<open>
  The device-management daemon \<^verbatim>\<open>mand\<close>: its data store, its cache of uncommitted
  changes, its notifications and actions, the configuration protocol with its connections, the server that runs the protocol over the store, and the
  text of its configuration file.

  \<^bold>\<open>The program.\<close> \<^verbatim>\<open>mand\<close> keeps a tree of typed values that follows a generated schema.
  A value is named by a selector, an array of sixteen identifiers. Objects of the schema have rows (instances), kept in one
  or more red-black trees. Clients connect over a socket, send requests made of AVPs (tagged, nested, length-prefixed
  values), and get an answer with a code. A client may open one configure session at a time in the whole server; what it
  sets goes to a cache and is validated and applied by a commit. Changes queue notifications for the
  clients that have subscribed, and actions of the schema that run afterwards.

  \<^bold>\<open>Conventions.\<close> C's undefined behaviour, a failed assertion included, is \<open>None\<close> of the outer \<open>option\<close>, so a theorem that
  a call returns \<open>Some\<close> says that it neither faults nor loops. Result codes are values: \<open>DM_RESULT\<close> for the store,
  \<open>rc\<close> for the protocol. Memory is a set of maps from addresses to objects in the state \<open>dmst\<close>;
  \<^verbatim>\<open>malloc\<close> fails when the state says so (\<open>st_oom\<close>), talloc when the parameter \<open>mem\<close> does. Machine integers are words of their width, or
  numbers with the wrap-around written out. The generated schema and its functions, the shape of the vendored search trees at a removal
  of the root (\<open>rb_root\<close>), libev's event loop, parsers and printers of libc for addresses and times, and the shell are parameters (\<open>dm_env\<close>, \<open>text_fkts\<close>, \<open>srv_env\<close>, \<open>ser_fkts\<close>). So are the
  callbacks of a connection (\<open>cb_env\<close>), the functions of a client program (\<open>client_impl\<close>) and what the kernel answers to each call on a socket, a script
  of results (\<open>sysres\<close>). Hypotheses on parameters have names: \<open>neutral_env\<close>, \<open>benign\<close>, \<open>xml_reader\<close>, \<open>lua_laws\<close>.

  \<^bold>\<open>Model, theory by theory\<close> (sources under \<^verbatim>\<open>src/\<close>):
  \<^item> \<open>Dm_Prelude\<close>: options as faults, lists with checked access, words; \<open>Dm_Rc\<close>: the protocol's codes.
  \<^item> \<open>Dm_Binary\<close>: \<^verbatim>\<open>utils/binary.c\<close>, Base64 and octal escapes. \<open>Dm_Bitmap\<close>: \<^verbatim>\<open>mand/bitmap.h\<close>.
  \<^item> \<open>Dm_Token\<close>, \<open>Dm_Value\<close>: \<^verbatim>\<open>mand/dm_token.h\<close> and \<^verbatim>\<open>dm_store.c\<close>: selectors, the value union with
    its checked accessors, the schema, enumerations.
  \<^item> \<open>Dm_Rbtree\<close>: the red-black trees of \<^verbatim>\<open>mand/dm_index.c\<close>, on pointers and colours.
  \<^item> \<open>Dm_State\<close>: the state of the store and the comparison of values. \<open>Dm_Queue\<close>: queues ordered by a comparison, which stand
    for the vendored trees of \<^verbatim>\<open>sys/tree.h\<close>.
  \<^item> \<open>Dm_Notify\<close> (\<^verbatim>\<open>mand/dm_notify.c\<close>), \<open>Dm_Action\<close> (\<^verbatim>\<open>mand/dm_action.c\<close>), \<open>Dm_Index\<close> (rows, \<^verbatim>\<open>mand/dm_index.c\<close>).
  \<^item> \<open>Dm_Table\<close>, \<open>Dm_Ref\<close>, \<open>Dm_Store\<close>, \<open>Dm_Object\<close>, \<open>Dm_Access\<close>, \<open>Dm_Walk\<close>: \<^verbatim>\<open>mand/dm_store.c\<close> and \<^verbatim>\<open>dm_store.h\<close>, from
    schema lookups over references and setters to rows, typed accessors and walkers. \<open>Dm_Cache\<close>: \<^verbatim>\<open>mand/dm_cache.c\<close>.
  \<^item> \<open>Dm_Strings\<close>: \<^verbatim>\<open>mand/dm_strings.c\<close>, names to selectors and text to values.
  \<^item> \<open>Dm_Msg\<close>: \<^verbatim>\<open>libdmconfig/dmmsg.c\<close>, the encoder with its growing block and the decoder. \<open>Dm_Expect\<close>:
    \<^verbatim>\<open>libdmconfig/dmconfig.c\<close>, reading AVPs of an expected code and type.
  \<^item> \<open>Dm_Avp\<close>, \<open>Dm_Callbacks\<close>, \<open>Dm_Server\<close>: \<^verbatim>\<open>mand/dm_dmconfig.c\<close>: values as AVPs and back, the callbacks that set, read and list,
    and connections, sessions and the handler of every command. The state \<open>server\<close> has the connections, the configure lock, the
    session counter, the store, and the messages queued for clients.
  \<^item> \<open>Dm_Rpc\<close>: \<^verbatim>\<open>libdmconfig/dm_dmconfig_rpc_skel.c\<close>, the arguments of the commands and the switch over them, down to
    \<open>process_request\<close>, which takes a packet of a connection. \<open>Dm_Client\<close>: the stubs of \<^verbatim>\<open>libdmconfig/dm_dmconfig_rpc_stub.c\<close> and the
    callback for answers. \<open>Dm_Agent\<close>: \<^verbatim>\<open>dm_dmclient_rpc_skel.c\<close> and \<^verbatim>\<open>dm_dmclient_rpc_impl.c\<close>, the requests of the server to a client.
  \<^item> \<open>Dm_Context\<close>: \<^verbatim>\<open>libdmconfig/dmcontext.c\<close>: contexts, the queue of requests, reading and writing of packets in pieces, timers, connecting and accepting.
  \<^item> \<open>Dm_Validate\<close>: \<^verbatim>\<open>mand/dm_validate.c\<close>, \<^verbatim>\<open>dm_cfg_bkrst.c\<close>, \<^verbatim>\<open>process.c\<close> and the list strings of \<^verbatim>\<open>dm_store.c\<close>. \<open>Dm_Serialize\<close>:
    \<^verbatim>\<open>mand/dm_serialize.c\<close>, the store as XML. \<open>Dm_Deserialize\<close>: \<^verbatim>\<open>mand/dm_deserialize.c\<close> and \<^verbatim>\<open>dm_cfgversion.c\<close>, the handlers of
    the XML parser, which fill the store; the parser is a parameter that turns blocks of a file into events.
  \<^item> \<open>Dm_Lua\<close>: \<^verbatim>\<open>mand/dm_luaif.c\<close>, the functions that scripts call. Lua's own interface is the parameter \<open>lua_api\<close>.

  \<^bold>\<open>Theorems.\<close>
  \<^item> Trees (\<open>Dm_Rbtree_Insert\<close>, \<open>_Remove\<close>, \<open>_Delete\<close>, \<open>_Walk\<close>, \<open>_Order\<close>, \<open>_Props\<close>): insertion and removal keep
    the pointer structure, the colours and the order, and change the set of rows by exactly one; the walk visits all rows in order.
  \<^item> Rows (\<open>Dm_Index_Order\<close>, \<open>Dm_Index_Spec\<close>, \<open>Dm_Instances\<close>, \<open>Dm_Search\<close>, \<open>Dm_Instance_Examples\<close>, \<open>Dm_Object_Props\<close>): the object with
    its indexes refines a finite map of rows; lookups are sound and complete; a new row gets the least free number.
  \<^item> Store (\<open>Dm_Notify_Frame\<close>, \<open>Dm_Announce\<close>, \<open>Dm_Cells\<close>, \<open>Dm_Store_Props\<close>): a value that was set is read back, others keep theirs.
  \<^item> Queues, cache, notifications, actions (\<open>Dm_Queue_Map\<close>, \<open>Dm_Cache_Props\<close>, \<open>Dm_Notify\<close>, \<open>Dm_Action\<close>): a commit
    writes exactly the cached values, a cancel discards them, each change is queued for the slots that asked for it, every pending action runs once.
  \<^item> Protocol (\<open>Dm_Msg_Props\<close>, \<open>Dm_Strings_Props\<close>, \<open>Dm_Avp_Props\<close>): messages and names survive a round trip, the decoder stays
    inside the message and ends for all bytes, and decoded values have the type of their element.
  \<^item> Server (\<open>Dm_Call_Props\<close>, \<open>Dm_Session\<close>, \<open>Dm_Session_Props\<close>): a remote call is a call of the handler; over all
    sequences of events at most one session configures, and the lock passes on when its holder goes.
  \<^item> Connections (\<open>Dm_Frames\<close>, \<open>Dm_Outgoing\<close>, \<open>Dm_Agent_Props\<close>): whatever pieces the kernel takes and gives, packets leave whole and in the order
    of the queue, and the reader of the other side handles exactly these; an announced event reaches the client's function.
  \<^item> Text (\<open>Dm_Validate_Props\<close>, \<open>Dm_Xml_Text\<close>, \<open>Dm_Deserialize_Props\<close>): addresses are taken apart into their parts, a string with commas is a list, strings of
    the configuration file come back into the store, and elements that the schema does not have are skipped.
  \<^item> Scripts (\<open>Dm_Lua_Props\<close>): a value that a script has read can be given back.
  \<^item> Defects are theorems too, where the code does not do what it means to: binary comparison, lost and misplaced
    notifications, the last number of a full map, duplicate rows, the read before the length check, packets shorter than their header, answers that are never finished, the
    unchecked host of an address, escapes that are not inverted, files nested too deeply, scripts that set nothing, and paths that are ignored.

  The laws between components are locales: \<open>three_way\<close> (a comparison is a total preorder), \<open>ordered_queue\<close> and \<open>keyed_queue\<close> (a queue sorted by
  it is a map), \<open>ordered_index\<close> (the tree is a sorted set), \<open>number_pool\<close> (a bit map hands out numbers). They
  are interpreted on selectors, on the queues of notifications, actions and the cache, on the rows of an index, and on the bit map.

  \<^bold>\<open>Bounds and loops.\<close> Loops that follow pointers or read a message are \<open>partial_function (option)\<close>, without fuel: not ending is \<open>None\<close>, and the theorems
  say that they return. Walks over the schema are bounded by the sixteen levels of a selector, as in the code. A packet
  has less than \<open>2 ^ 24\<close> bytes, the width of its length field; the session theorems hold until the 32-bit session counter has been used up.

  \<^bold>\<open>Not modelled.\<close> Parity words and structure magics of values, which detect corrupted memory; talloc's ownership of memory; socket addresses and the
  synchronous calls, which run the event loop; the event loop itself; the XML parser libexpat and the Lua interpreter; formatted times; the state of network interfaces and of the clock that the
  end of \<^verbatim>\<open>dm_dmconfig.c\<close> reads from the kernel; SNMP tables; signatures; start-up and option parsing; logging and dumps.
\<close>

end
